(* ===== verification/Prelude.thy ===== *)
theory Prelude
  imports Main "HOL-Library.Word" "HOL-Library.Sublist" "HOL-Library.Multiset"
begin

text \<open>
  Shared vocabulary of the development: the machine integers of the Rust code, big-endian
  byte encodings (what \<open>put_u16\<close>, \<open>put_u32\<close>, \<open>put_u64\<close> and \<open>from_be_bytes\<close> do), time as a
  number of nanoseconds, saturating and clamped arithmetic, and hash maps as association
  lists. A Rust \<open>HashMap\<close> has no fixed iteration order: a list of pairs with distinct keys
  carries one such order, and every property below is stated for any of them.
\<close>

section \<open>Machine integers and time\<close>

type_synonym u8 = "8 word"
type_synonym u16 = "16 word"
type_synonym u32 = "32 word"
type_synonym u64 = "64 word"
type_synonym bytes = "u8 list"

text \<open>Instants and durations are counted in nanoseconds, the resolution of \<open>std::time\<close>.
  The difference of two naturals stops at zero, as \<open>saturating_duration_since\<close> does.\<close>

type_synonym instant = nat
type_synonym duration = nat

definition from_secs :: "nat \<Rightarrow> duration" where
  "from_secs s = s * 1000000000"

definition from_millis :: "nat \<Rightarrow> duration" where
  "from_millis s = s * 1000000"

named_theorems time_simps
named_theorems codec_simps
named_theorems map_simps

lemmas duration_defs [time_simps] = from_secs_def from_millis_def

definition u64_max :: nat where
  "u64_max = 18446744073709551615"

definition u32_max :: nat where
  "u32_max = 4294967295"

definition sat_add64 :: "nat \<Rightarrow> nat \<Rightarrow> nat" where
  "sat_add64 a b = min (a + b) u64_max"

definition sat_add32 :: "nat \<Rightarrow> nat \<Rightarrow> nat" where
  "sat_add32 a b = min (a + b) u32_max"

definition clamp :: "'a::linorder \<Rightarrow> 'a \<Rightarrow> 'a \<Rightarrow> 'a" where
  "clamp x lo hi = (if x < lo then lo else if hi < x then hi else x)"

lemma clamp_bounds: "lo \<le> hi \<Longrightarrow> lo \<le> clamp x lo hi \<and> clamp x lo hi \<le> hi"
  by (auto simp: clamp_def)

lemma clamp_id [simp]: "lo \<le> x \<Longrightarrow> x \<le> hi \<Longrightarrow> clamp x lo hi = x"
  by (auto simp: clamp_def)

lemma clamp_idem [simp]: "lo \<le> hi \<Longrightarrow> clamp (clamp x lo hi) lo hi = clamp x lo hi"
  by (auto simp: clamp_def)

lemma clamp_mono: "x \<le> y \<Longrightarrow> lo \<le> hi \<Longrightarrow> clamp x lo hi \<le> clamp y lo hi"
  by (auto simp: clamp_def)

section \<open>Results\<close>

text \<open>A Rust \<open>Result\<close> is a sum, \<open>Inl\<close> the error; \<open>and_then\<close> is the \<open>?\<close> operator.\<close>

type_synonym ('e, 'a) result = "'e + 'a"

definition and_then :: "'e + 'a \<Rightarrow> ('a \<Rightarrow> 'e + 'b) \<Rightarrow> 'e + 'b" where
  "and_then r f = (case r of Inl e \<Rightarrow> Inl e | Inr x \<Rightarrow> f x)"

lemma and_then_simps [simp]:
  "and_then (Inl e) f = Inl e"
  "and_then (Inr x) f = f x"
  by (simp_all add: and_then_def)

lemma and_then_Inr: "and_then r f = Inr y \<longleftrightarrow> (\<exists>x. r = Inr x \<and> f x = Inr y)"
  by (cases r) auto

section \<open>Big-endian bytes\<close>

fun be_encode :: "nat \<Rightarrow> nat \<Rightarrow> bytes" where
  "be_encode 0 x = []"
| "be_encode (Suc n) x = be_encode n (x div 256) @ [word_of_nat (x mod 256)]"

definition be_decode :: "bytes \<Rightarrow> nat" where
  "be_decode bs = foldl (\<lambda>acc b. acc * 256 + unat b) 0 bs"

lemma length_be_encode [simp]: "length (be_encode n x) = n"
  by (induction n arbitrary: x) auto

text \<open>Unfolding at a numeral width, for evaluation on concrete values.\<close>

lemma be_encode_numeral:
  "be_encode (numeral k) x = be_encode (pred_numeral k) (x div 256) @ [word_of_nat (x mod 256)]"
  using be_encode.simps(2) [of "pred_numeral k" x] by (simp only: numeral_eq_Suc)

lemma be_decode_Nil [simp]: "be_decode [] = 0"
  by (simp add: be_decode_def)

lemma be_decode_snoc [simp]: "be_decode (bs @ [b]) = be_decode bs * 256 + unat b"
  by (simp add: be_decode_def)

lemma unat_byte_mod [simp]: "unat (word_of_nat (x mod 256) :: u8) = x mod 256"
  by (simp add: unat_of_nat)

lemma byte_lt [simp]: "unat (b :: u8) < 256"
  using unsigned_less [of b] by simp

lemma be_decode_encode: "be_decode (be_encode n x) = x mod 256 ^ n"
proof (induction n arbitrary: x)
  case (Suc n)
  have "be_decode (be_encode (Suc n) x) = x div 256 mod 256 ^ n * 256 + x mod 256"
    using Suc.IH [of "x div 256"] by simp
  also have "\<dots> = x mod 256 ^ Suc n"
    by (simp add: mod_mult2_eq mult.commute)
  finally show ?case .
qed simp

lemma be_decode_bound: "be_decode bs < 256 ^ length bs"
proof (induction bs rule: rev_induct)
  case (snoc b bs)
  have "be_decode bs * 256 + unat b < (be_decode bs + 1) * 256"
    using byte_lt [of b] by (simp add: algebra_simps)
  also have "\<dots> \<le> 256 ^ length bs * 256"
    using snoc.IH by (simp add: Suc_le_eq flip: Suc_eq_plus1)
  finally show ?case by (simp add: mult.commute)
qed simp

lemma be_encode_decode: "length bs = n \<Longrightarrow> be_encode n (be_decode bs) = bs"
proof (induction bs arbitrary: n rule: rev_induct)
  case (snoc b bs)
  have "(be_decode bs * 256 + unat b) div 256 = be_decode bs"
    and "(be_decode bs * 256 + unat b) mod 256 = unat b"
    using byte_lt [of b] by simp_all
  with snoc show ?case by auto
qed simp

text \<open>The three widths the wire formats use, as \<open>BufMut::put_uN\<close> and \<open>Buf::get_uN\<close>.\<close>

definition put_u16 :: "u16 \<Rightarrow> bytes" where
  "put_u16 w = be_encode 2 (unat w)"

definition put_u32 :: "u32 \<Rightarrow> bytes" where
  "put_u32 w = be_encode 4 (unat w)"

definition put_u64 :: "u64 \<Rightarrow> bytes" where
  "put_u64 w = be_encode 8 (unat w)"

definition get_u16 :: "bytes \<Rightarrow> u16" where
  "get_u16 bs = word_of_nat (be_decode bs)"

definition get_u32 :: "bytes \<Rightarrow> u32" where
  "get_u32 bs = word_of_nat (be_decode bs)"

definition get_u64 :: "bytes \<Rightarrow> u64" where
  "get_u64 bs = word_of_nat (be_decode bs)"

lemma length_puts [simp]:
  "length (put_u16 w) = 2" "length (put_u32 v) = 4" "length (put_u64 x) = 8"
  by (simp_all add: put_u16_def put_u32_def put_u64_def)

lemma get_u16_put [simp, codec_simps]: "get_u16 (put_u16 w) = w"
proof -
  have "unat w < 256 ^ 2" using unsigned_less [of w] by simp
  then show ?thesis by (simp add: get_u16_def put_u16_def be_decode_encode)
qed

lemma get_u32_put [simp, codec_simps]: "get_u32 (put_u32 w) = w"
proof -
  have "unat w < 256 ^ 4" using unsigned_less [of w] by simp
  then show ?thesis by (simp add: get_u32_def put_u32_def be_decode_encode)
qed

lemma get_u64_put [simp, codec_simps]: "get_u64 (put_u64 w) = w"
proof -
  have "unat w < 256 ^ 8" using unsigned_less [of w] by simp
  then show ?thesis by (simp add: get_u64_def put_u64_def be_decode_encode)
qed

lemma put_u16_get [codec_simps]: "length bs = 2 \<Longrightarrow> put_u16 (get_u16 bs) = bs"
  using be_decode_bound [of bs]
  by (simp add: put_u16_def get_u16_def unat_of_nat be_encode_decode)

lemma put_u32_get [codec_simps]: "length bs = 4 \<Longrightarrow> put_u32 (get_u32 bs) = bs"
  using be_decode_bound [of bs]
  by (simp add: put_u32_def get_u32_def unat_of_nat be_encode_decode)

lemma put_u64_get [codec_simps]: "length bs = 8 \<Longrightarrow> put_u64 (get_u64 bs) = bs"
  using be_decode_bound [of bs]
  by (simp add: put_u64_def get_u64_def unat_of_nat be_encode_decode)

text \<open>A buffer cut after a first field of \<open>n\<close> bytes and a second one of \<open>m\<close> bytes.\<close>

lemma cut_field: "drop n d = take m (drop n d) @ drop (n + m) d"
  by (simp add: add.commute flip: drop_drop)

lemma take_4_nth: "4 \<le> length d \<Longrightarrow> take 4 d = [d ! 0, d ! 1, d ! 2, d ! 3]"
  by (intro nth_equalityI) (auto simp: less_Suc_eq numeral_eq_Suc)

lemma take_2_nth: "2 \<le> length d \<Longrightarrow> take 2 d = [d ! 0, d ! 1]"
  by (intro nth_equalityI) (auto simp: less_Suc_eq numeral_eq_Suc)

text \<open>Two ways of cutting one list: the first part covers \<open>e\<close>, or it is a proper prefix of it.\<close>

lemma append_eq_cases:
  assumes "b @ rest = e @ c"
  obtains us where "b = e @ us" "us @ rest = c" | "strict_prefix b e"
  using assms by (auto simp: append_eq_append_conv2 strict_prefix_def) blast

text \<open>A length that fits in 32 bits survives the cast \<open>len as u32\<close>.\<close>

lemma unat_of_len32: "n < 4294967296 \<Longrightarrow> unat (word_of_nat n :: u32) = n"
  by (simp add: unat_of_nat)

lemma unat_of_byte: "n < 256 \<Longrightarrow> unat (word_of_nat n :: u8) = n"
  by (simp add: unat_of_nat)

lemma be_decode_put_u32: "be_decode (put_u32 w) = unat w"
proof -
  have "unat w < 256 ^ 4" using unsigned_less [of w] by simp
  then show ?thesis by (simp add: put_u32_def be_decode_encode)
qed

section \<open>Counting\<close>

lemma length_filter_mono:
  "(\<And>x. x \<in> set xs \<Longrightarrow> P x \<Longrightarrow> Q x) \<Longrightarrow> length (filter P xs) \<le> length (filter Q xs)"
  by (induction xs) (auto simp: le_Suc_eq)

section \<open>Runs of a stateful operation\<close>

text \<open>The outputs of a sequence of calls, and the state after them. \<open>io_refinement\<close> is the interface
  between an implementation and its specification: every call allowed by the specification's state
  gives the same answer in both and keeps them related. Its conclusion is about whole runs.\<close>

fun io_run :: "('i \<Rightarrow> 's \<Rightarrow> 'o \<times> 's) \<Rightarrow> 'i list \<Rightarrow> 's \<Rightarrow> 'o list \<times> 's" where
  "io_run f [] s = ([], s)"
| "io_run f (i # is) s = (let (x, s') = f i s; (xs, s'') = io_run f is s' in (x # xs, s''))"

lemma io_run_Cons [simp]:
  "fst (io_run f (i # is) s) = fst (f i s) # fst (io_run f is (snd (f i s)))"
  "snd (io_run f (i # is) s) = snd (io_run f is (snd (f i s)))"
  by (simp_all add: split_beta Let_def)

declare io_run.simps(2) [simp del]

lemma io_run_append:
  "snd (io_run f (is @ js) s) = snd (io_run f js (snd (io_run f is s)))"
  "fst (io_run f (is @ js) s) = fst (io_run f is s) @ fst (io_run f js (snd (io_run f is s)))"
  by (induction "is" arbitrary: s) simp_all

lemma io_run_length [simp]: "length (fst (io_run f is s)) = length is"
  by (induction "is" arbitrary: s) simp_all

lemma io_run_invariant:
  assumes "P s" "\<And>i s. P s \<Longrightarrow> P (snd (f i s))"
  shows "P (snd (io_run f is s))"
  using assms(1) by (induction "is" arbitrary: s) (auto simp: assms(2))

fun run_enabled :: "('i \<Rightarrow> 's \<Rightarrow> 'o \<times> 's) \<Rightarrow> ('i \<Rightarrow> 's \<Rightarrow> bool) \<Rightarrow> 'i list \<Rightarrow> 's \<Rightarrow> bool" where
  "run_enabled f en [] s \<longleftrightarrow> True"
| "run_enabled f en (i # is) s \<longleftrightarrow> en i s \<and> run_enabled f en is (snd (f i s))"

lemma io_run_invariant_enabled:
  assumes "P s" "\<And>i s. P s \<Longrightarrow> en i s \<Longrightarrow> P (snd (f i s))" "run_enabled f en is s"
  shows "P (snd (io_run f is s))"
  using assms(1,3) by (induction "is" arbitrary: s) (simp_all add: assms(2))

locale io_refinement =
  fixes cstep :: "'i \<Rightarrow> 'c \<Rightarrow> 'o \<times> 'c"
    and astep :: "'i \<Rightarrow> 'a \<Rightarrow> 'o \<times> 'a"
    and allowed_call :: "'i \<Rightarrow> 'a \<Rightarrow> bool"
    and rel :: "'c \<Rightarrow> 'a \<Rightarrow> bool"
  assumes same_answer: "rel c a \<Longrightarrow> allowed_call i a \<Longrightarrow> fst (cstep i c) = fst (astep i a)"
    and rel_step: "rel c a \<Longrightarrow> allowed_call i a \<Longrightarrow> rel (snd (cstep i c)) (snd (astep i a))"
begin

lemma same_answers:
  "rel c a \<Longrightarrow> run_enabled astep allowed_call is a \<Longrightarrow> fst (io_run cstep is c) = fst (io_run astep is a)"
  by (induction "is" arbitrary: c a) (simp_all add: same_answer rel_step)

lemma rel_run:
  "rel c a \<Longrightarrow> run_enabled astep allowed_call is a \<Longrightarrow>
     rel (snd (io_run cstep is c)) (snd (io_run astep is a))"
  by (induction "is" arbitrary: c a) (simp_all add: rel_step)

end

end
