(* ===== verification/Route_Kinds.thy ===== *)
theory Route_Kinds
  imports Complex_Main Prelude
begin

text \<open>
  The user-level vocabulary of the engine's state (\<open>state.rs\<close>): route kinds and their wire
  endpoints, route and connection status, link quality; and floating point measurements as far as
  the code compares them.
\<close>

section \<open>Floating point comparisons\<close>

text \<open>An f64 as comparisons see it: not a number, an infinity, or a rational.\<close>

datatype f64 = FNaN | FNegInf | FNum rat | FPosInf

fun f64_less :: "f64 \<Rightarrow> f64 \<Rightarrow> bool" where
  "f64_less FNaN _ \<longleftrightarrow> False"
| "f64_less _ FNaN \<longleftrightarrow> False"
| "f64_less (FNum x) (FNum y) \<longleftrightarrow> x < y"
| "f64_less FNegInf y \<longleftrightarrow> y \<noteq> FNegInf"
| "f64_less x FPosInf \<longleftrightarrow> x \<noteq> FPosInf"
| "f64_less _ _ \<longleftrightarrow> False"

lemma f64_less_asym: "f64_less x y \<Longrightarrow> \<not> f64_less y x"
  by (cases x; cases y) auto

lemma f64_less_trans: "f64_less x y \<Longrightarrow> f64_less y z \<Longrightarrow> f64_less x z"
  by (cases x; cases y; cases z) auto

section \<open>Route kinds\<close>

datatype RouteKind =
    SendSystemAudio | SendAppAudio | SendMixed | SendMicToVirtualMic | SendMicToSpeaker
  | ReceiveSystemAudio | ReceiveAppAudio | ReceiveMixed | ReceiveMicToVirtualMic | ReceiveMicToSpeaker

definition local_is_source :: "RouteKind \<Rightarrow> bool" where
  "local_is_source k \<longleftrightarrow>
     k \<in> {SendSystemAudio, SendAppAudio, SendMixed, SendMicToVirtualMic, SendMicToSpeaker}"

fun endpoints :: "RouteKind \<Rightarrow> string \<times> string" where
  "endpoints SendSystemAudio = (''system'', ''speaker'')"
| "endpoints ReceiveSystemAudio = (''system'', ''speaker'')"
| "endpoints SendAppAudio = (''apps'', ''speaker'')"
| "endpoints ReceiveAppAudio = (''apps'', ''speaker'')"
| "endpoints SendMixed = (''mixed'', ''speaker'')"
| "endpoints ReceiveMixed = (''mixed'', ''speaker'')"
| "endpoints SendMicToVirtualMic = (''mic'', ''virtual-mic'')"
| "endpoints ReceiveMicToVirtualMic = (''mic'', ''virtual-mic'')"
| "endpoints SendMicToSpeaker = (''mic'', ''speaker'')"
| "endpoints ReceiveMicToSpeaker = (''mic'', ''speaker'')"

fun mirrored :: "RouteKind \<Rightarrow> RouteKind" where
  "mirrored SendSystemAudio = ReceiveSystemAudio"
| "mirrored SendAppAudio = ReceiveAppAudio"
| "mirrored SendMixed = ReceiveMixed"
| "mirrored SendMicToVirtualMic = ReceiveMicToVirtualMic"
| "mirrored SendMicToSpeaker = ReceiveMicToSpeaker"
| "mirrored ReceiveSystemAudio = SendSystemAudio"
| "mirrored ReceiveAppAudio = SendAppAudio"
| "mirrored ReceiveMixed = SendMixed"
| "mirrored ReceiveMicToVirtualMic = SendMicToVirtualMic"
| "mirrored ReceiveMicToSpeaker = SendMicToSpeaker"

definition from_endpoints :: "string \<Rightarrow> string \<Rightarrow> bool \<Rightarrow> RouteKind option" where
  "from_endpoints source sink local_source =
     map_option (\<lambda>send. if local_source then send else mirrored send)
       (if (source, sink) = (''system'', ''speaker'') then Some SendSystemAudio
        else if (source, sink) = (''apps'', ''speaker'') then Some SendAppAudio
        else if (source, sink) = (''mixed'', ''speaker'') then Some SendMixed
        else if (source, sink) = (''mic'', ''virtual-mic'') then Some SendMicToVirtualMic
        else if (source, sink) = (''mic'', ''speaker'') then Some SendMicToSpeaker
        else None)"

definition is_mic :: "RouteKind \<Rightarrow> bool" where
  "is_mic k \<longleftrightarrow> k \<in> {SendMicToVirtualMic, SendMicToSpeaker, ReceiveMicToVirtualMic, ReceiveMicToSpeaker}"

datatype RouteStatus = Requesting | WaitingForApproval | Starting | Active | Paused | Stopped

section \<open>Connections\<close>

datatype ConnectionStatus =
    Disconnected | Connecting | PairingRequired | Connected | Degraded | Reconnecting
  | WaitingForDevice | Incompatible

definition is_connected :: "ConnectionStatus \<Rightarrow> bool" where
  "is_connected s \<longleftrightarrow> s = Connected \<or> s = Degraded"

datatype LinkQuality = Unknown | Excellent | Good | Poor

definition quality_from_stats :: "f64 \<Rightarrow> f64 \<Rightarrow> f64 \<Rightarrow> LinkQuality" where
  "quality_from_stats rtt_ms loss_pct jitter_ms =
     (if f64_less (FNum 3) loss_pct \<or> f64_less (FNum 80) rtt_ms \<or> f64_less (FNum 30) jitter_ms then Poor
      else if f64_less (FNum (1 / 2)) loss_pct \<or> f64_less (FNum 20) rtt_ms \<or> f64_less (FNum 10) jitter_ms then Good
      else Excellent)"

text \<open>Both devices name the same route: the endpoints of a route, read on the other device with the roles
  swapped, give the mirrored kind, and an accepted pair of endpoints is exactly one of the five.\<close>

lemma endpoints_roundtrip:
  "from_endpoints (fst (endpoints k)) (snd (endpoints k)) (local_is_source k) = Some k"
  "from_endpoints (fst (endpoints k)) (snd (endpoints k)) (\<not> local_is_source k) = Some (mirrored k)"
  by (cases k; simp add: from_endpoints_def local_is_source_def)+

lemma mirrored_facts [simp]:
  "mirrored (mirrored k) = k" "endpoints (mirrored k) = endpoints k"
  "local_is_source (mirrored k) \<longleftrightarrow> \<not> local_is_source k" "is_mic (mirrored k) = is_mic k"
  by (cases k; simp add: local_is_source_def is_mic_def)+

lemma from_endpoints_sound:
  "from_endpoints source sink ls = Some k \<Longrightarrow> endpoints k = (source, sink) \<and> local_is_source k = ls"
  by (auto simp: from_endpoints_def local_is_source_def split: if_splits)

text \<open>Both ends of a route agree on what it is: the wire endpoints of a kind parse back to it on the device
  where they were made and to its mirror image on the other device; the mirror swaps source and sink and
  keeps whether a microphone is used; and endpoints that parse at all are those of the parsed kind.\<close>

theorem route_kinds_agree:
  "from_endpoints (fst (endpoints k)) (snd (endpoints k)) (local_is_source k) = Some k \<and>
   from_endpoints (fst (endpoints k)) (snd (endpoints k)) (local_is_source (mirrored k)) = Some (mirrored k) \<and>
   mirrored (mirrored k) = k \<and> is_mic (mirrored k) = is_mic k \<and>
   (case from_endpoints source sink ls of
      Some k' \<Rightarrow> endpoints k' = (source, sink) \<and> local_is_source k' = ls
    | None \<Rightarrow> (source, sink) \<notin> range endpoints)"
proof -
  have "(source, sink) \<notin> range endpoints" if "from_endpoints source sink ls = None"
  proof
    assume "(source, sink) \<in> range endpoints"
    then obtain k where "endpoints k = (source, sink)" by auto
    then show False using that by (cases k) (auto simp: from_endpoints_def)
  qed
  then show ?thesis
    using endpoints_roundtrip [of k] from_endpoints_sound [of source sink ls]
    by (auto split: option.splits)
qed

end
