(* ===== verification/Protocol_Wire.thy ===== *)
theory Protocol_Wire
  imports Prelude
begin

unbundle bit_operations_syntax

text \<open>
  The wire protocol crate without its framing and control messages: protocol versions and
  capability bits (\<open>sp-protocol/src/version.rs\<close>), the media datagram
  (\<open>sp-protocol/src/media.rs\<close>) and the network-test probe (\<open>sp-protocol/src/probe.rs\<close>).
  Every decoder takes an untrusted byte list and returns a \<open>ProtocolError\<close> or a value.
\<close>

section \<open>Versions\<close>

datatype ProtocolVersion = ProtocolVersion (major: u16) (minor: u16)

instantiation ProtocolVersion :: linorder
begin

definition less_eq_ProtocolVersion :: "ProtocolVersion \<Rightarrow> ProtocolVersion \<Rightarrow> bool" where
  "less_eq_ProtocolVersion v w \<longleftrightarrow> major v < major w \<or> major v = major w \<and> minor v \<le> minor w"

definition less_ProtocolVersion :: "ProtocolVersion \<Rightarrow> ProtocolVersion \<Rightarrow> bool" where
  "less_ProtocolVersion v w \<longleftrightarrow> major v < major w \<or> major v = major w \<and> minor v < minor w"

instance
  by standard
    (auto simp: less_eq_ProtocolVersion_def less_ProtocolVersion_def intro: ProtocolVersion.expand)

end

definition version_to_u32 :: "ProtocolVersion \<Rightarrow> u32" where
  "version_to_u32 v = push_bit 16 (ucast (major v)) OR ucast (minor v)"

definition version_from_u32 :: "u32 \<Rightarrow> ProtocolVersion" where
  "version_from_u32 v = ProtocolVersion (ucast (drop_bit 16 v)) (ucast (v AND 0xFFFF))"

record VersionRange =
  vr_min :: ProtocolVersion
  vr_max :: ProtocolVersion

definition LOCAL_VERSIONS :: VersionRange where
  "LOCAL_VERSIONS = \<lparr>vr_min = ProtocolVersion 1 0, vr_max = ProtocolVersion 1 1\<rparr>"

datatype ProtocolError =
    TooShort nat nat
  | UnsupportedVersion u8
  | UnknownCodec u8
  | PayloadTooLarge nat nat
  | FrameTooLarge nat nat
  | Decode string
  | UnknownMessage
  | UnknownFrameKind u8
  | NoCommonVersion VersionRange VersionRange

definition negotiate :: "VersionRange \<Rightarrow> VersionRange \<Rightarrow> ProtocolError + ProtocolVersion" where
  "negotiate self peer =
     (let low = max (vr_min self) (vr_min peer);
          high = min (vr_max self) (vr_max peer)
      in if low \<le> high then Inr high else Inl (NoCommonVersion self peer))"

definition in_range :: "ProtocolVersion \<Rightarrow> VersionRange \<Rightarrow> bool" where
  "in_range v r \<longleftrightarrow> vr_min r \<le> v \<and> v \<le> vr_max r"

section \<open>Capability bits\<close>

datatype Capabilities = Capabilities (cap_bits: u64)

definition SOURCE_SYSTEM_AUDIO :: u64 where "SOURCE_SYSTEM_AUDIO = push_bit 0 1"
definition SOURCE_APP_AUDIO :: u64 where "SOURCE_APP_AUDIO = push_bit 1 1"
definition SOURCE_MICROPHONE :: u64 where "SOURCE_MICROPHONE = push_bit 2 1"
definition SOURCE_MIXED :: u64 where "SOURCE_MIXED = push_bit 3 1"
definition SINK_SPEAKER :: u64 where "SINK_SPEAKER = push_bit 8 1"
definition SINK_VIRTUAL_MIC :: u64 where "SINK_VIRTUAL_MIC = push_bit 9 1"
definition CODEC_OPUS :: u64 where "CODEC_OPUS = push_bit 16 1"
definition CODEC_PCM :: u64 where "CODEC_PCM = push_bit 17 1"
definition FEATURE_REDUNDANCY :: u64 where "FEATURE_REDUNDANCY = push_bit 24 1"
definition FEATURE_REMOTE_CONTROL :: u64 where "FEATURE_REMOTE_CONTROL = push_bit 25 1"
definition FEATURE_MIC_MONITOR :: u64 where "FEATURE_MIC_MONITOR = push_bit 26 1"
definition FEATURE_SESSION_RESUME :: u64 where "FEATURE_SESSION_RESUME = push_bit 27 1"
definition FEATURE_NETWORK_TEST :: u64 where "FEATURE_NETWORK_TEST = push_bit 28 1"
definition FEATURE_ROUTE_RECONFIGURE :: u64 where "FEATURE_ROUTE_RECONFIGURE = push_bit 29 1"
definition TRANSPORT_TCP :: u64 where "TRANSPORT_TCP = push_bit 30 1"
definition FEATURE_DTX :: u64 where "FEATURE_DTX = push_bit 31 1"
definition FEATURE_RECEIVER_DENOISE :: u64 where "FEATURE_RECEIVER_DENOISE = push_bit 32 1"

lemmas capability_defs =
  SOURCE_SYSTEM_AUDIO_def SOURCE_APP_AUDIO_def SOURCE_MICROPHONE_def SOURCE_MIXED_def
  SINK_SPEAKER_def SINK_VIRTUAL_MIC_def CODEC_OPUS_def CODEC_PCM_def FEATURE_REDUNDANCY_def
  FEATURE_REMOTE_CONTROL_def FEATURE_MIC_MONITOR_def FEATURE_SESSION_RESUME_def
  FEATURE_NETWORK_TEST_def FEATURE_ROUTE_RECONFIGURE_def TRANSPORT_TCP_def FEATURE_DTX_def
  FEATURE_RECEIVER_DENOISE_def

definition capability_has :: "Capabilities \<Rightarrow> u64 \<Rightarrow> bool" where
  "capability_has c b \<longleftrightarrow> cap_bits c AND b = b"

definition capability_with :: "Capabilities \<Rightarrow> u64 \<Rightarrow> Capabilities" where
  "capability_with c b = Capabilities (cap_bits c OR b)"

definition all_capabilities :: "u64 list" where
  "all_capabilities =
     [SOURCE_SYSTEM_AUDIO, SOURCE_APP_AUDIO, SOURCE_MICROPHONE, SOURCE_MIXED, SINK_SPEAKER,
      SINK_VIRTUAL_MIC, CODEC_OPUS, CODEC_PCM, FEATURE_REDUNDANCY, FEATURE_REMOTE_CONTROL,
      FEATURE_MIC_MONITOR, FEATURE_SESSION_RESUME, FEATURE_NETWORK_TEST,
      FEATURE_ROUTE_RECONFIGURE, TRANSPORT_TCP, FEATURE_DTX, FEATURE_RECEIVER_DENOISE]"

section \<open>The media datagram\<close>

definition MEDIA_HEADER_VERSION :: u8 where "MEDIA_HEADER_VERSION = 1"
definition MEDIA_HEADER_LEN :: nat where "MEDIA_HEADER_LEN = 16"
definition MAX_MEDIA_PAYLOAD :: nat where "MAX_MEDIA_PAYLOAD = 1100"
definition MAX_ACCEPTED_MEDIA_PAYLOAD :: nat where "MAX_ACCEPTED_MEDIA_PAYLOAD = 1200"

datatype Codec = PcmS16Le | Opus

definition codec_as_u8 :: "Codec \<Rightarrow> u8" where
  "codec_as_u8 c = (case c of PcmS16Le \<Rightarrow> 1 | Opus \<Rightarrow> 2)"

definition codec_try_from :: "u8 \<Rightarrow> ProtocolError + Codec" where
  "codec_try_from value =
     (if value = 1 then Inr PcmS16Le else if value = 2 then Inr Opus else Inl (UnknownCodec value))"

datatype MediaFlags = MediaFlags (flag_bits: u8)

definition FLAG_DTX :: u8 where "FLAG_DTX = 0b00000001"
definition FLAG_REDUNDANT :: u8 where "FLAG_REDUNDANT = 0b00000010"
definition FLAG_DISCONTINUITY :: u8 where "FLAG_DISCONTINUITY = 0b00000100"
definition FLAG_MARKER :: u8 where "FLAG_MARKER = 0b00001000"

definition flags_empty :: MediaFlags where
  "flags_empty = MediaFlags 0"

definition flags_contains :: "MediaFlags \<Rightarrow> u8 \<Rightarrow> bool" where
  "flags_contains f flag \<longleftrightarrow> flag_bits f AND flag = flag"

definition flags_with :: "MediaFlags \<Rightarrow> u8 \<Rightarrow> MediaFlags" where
  "flags_with f flag = MediaFlags (flag_bits f OR flag)"

record MediaHeader =
  mh_route :: u8
  mh_codec :: Codec
  mh_flags :: MediaFlags
  mh_sample_timestamp :: u64
  mh_seq :: u32

record MediaPacket =
  mp_header :: MediaHeader
  mp_payload :: bytes

definition media_encode :: "MediaPacket \<Rightarrow> ProtocolError + bytes" where
  "media_encode p =
     (if length (mp_payload p) > MAX_MEDIA_PAYLOAD
      then Inl (PayloadTooLarge (length (mp_payload p)) MAX_MEDIA_PAYLOAD)
      else let h = mp_header p in
        Inr ([MEDIA_HEADER_VERSION, mh_route h, codec_as_u8 (mh_codec h), flag_bits (mh_flags h)]
             @ put_u64 (mh_sample_timestamp h) @ put_u32 (mh_seq h) @ mp_payload p))"

definition media_decode :: "bytes \<Rightarrow> ProtocolError + MediaPacket" where
  "media_decode d =
     (if length d < MEDIA_HEADER_LEN then Inl (TooShort (length d) MEDIA_HEADER_LEN)
      else let payload_len = length d - MEDIA_HEADER_LEN in
      if payload_len > MAX_ACCEPTED_MEDIA_PAYLOAD
      then Inl (PayloadTooLarge payload_len MAX_ACCEPTED_MEDIA_PAYLOAD)
      else let version = d ! 0 in
      if version \<noteq> MEDIA_HEADER_VERSION then Inl (UnsupportedVersion version)
      else let route = d ! 1 in
      and_then (codec_try_from (d ! 2)) (\<lambda>codec.
        Inr \<lparr>mp_header = \<lparr>mh_route = route, mh_codec = codec, mh_flags = MediaFlags (d ! 3),
              mh_sample_timestamp = get_u64 (take 8 (drop 4 d)),
              mh_seq = get_u32 (take 4 (drop 12 d))\<rparr>,
             mp_payload = drop 16 d\<rparr>))"

section \<open>Probes\<close>

definition PROBE_MAGIC :: u8 where "PROBE_MAGIC = 0xA5"
definition PROBE_HEADER_LEN :: nat where "PROBE_HEADER_LEN = 26"
definition MAX_PROBE_LEN :: nat where "MAX_PROBE_LEN = MEDIA_HEADER_LEN + MAX_MEDIA_PAYLOAD"

datatype ProbeKind = Probe | Echo

record ProbeMsg =
  pr_kind :: ProbeKind
  pr_test_id :: u32
  pr_seq :: u32
  pr_sent_us :: u64
  pr_echo_us :: u64

definition probe_kind_as_u8 :: "ProbeKind \<Rightarrow> u8" where
  "probe_kind_as_u8 k = (case k of Probe \<Rightarrow> 1 | Echo \<Rightarrow> 2)"

definition is_probe :: "bytes \<Rightarrow> bool" where
  "is_probe d \<longleftrightarrow> (case d of [] \<Rightarrow> False | b # _ \<Rightarrow> b = PROBE_MAGIC)"

definition probe_encode :: "ProbeMsg \<Rightarrow> nat \<Rightarrow> bytes" where
  "probe_encode p total_len =
     (let len = clamp total_len PROBE_HEADER_LEN MAX_PROBE_LEN;
          buf = [PROBE_MAGIC, probe_kind_as_u8 (pr_kind p)] @ put_u32 (pr_test_id p)
            @ put_u32 (pr_seq p) @ put_u64 (pr_sent_us p) @ put_u64 (pr_echo_us p)
      in buf @ replicate (len - length buf) 0)"

text \<open>The decimal form of a byte, as the \<open>format!\<close> of the error text prints it.\<close>

fun show_nat :: "nat \<Rightarrow> string" where
  "show_nat n = (if n < 10 then [char_of (48 + n)] else show_nat (n div 10) @ [char_of (48 + n mod 10)])"

declare show_nat.simps [simp del]

definition probe_kind_of :: "u8 \<Rightarrow> ProtocolError + ProbeKind" where
  "probe_kind_of b =
     (if b = 1 then Inr Probe else if b = 2 then Inr Echo
      else Inl (Decode (''probe kind '' @ show_nat (unat b))))"

definition probe_decode :: "bytes \<Rightarrow> ProtocolError + ProbeMsg" where
  "probe_decode d =
     (if length d < PROBE_HEADER_LEN then Inl (TooShort (length d) PROBE_HEADER_LEN)
      else if length d > MAX_PROBE_LEN then Inl (PayloadTooLarge (length d) MAX_PROBE_LEN)
      else if d ! 0 \<noteq> PROBE_MAGIC then Inl (Decode ''not a probe'')
      else and_then (probe_kind_of (d ! 1)) (\<lambda>kind.
        Inr \<lparr>pr_kind = kind,
             pr_test_id = get_u32 (take 4 (drop 2 d)),
             pr_seq = get_u32 (take 4 (drop 6 d)),
             pr_sent_us = get_u64 (take 8 (drop 10 d)),
             pr_echo_us = get_u64 (take 8 (drop 18 d))\<rparr>))"

definition probe_echo :: "ProbeMsg \<Rightarrow> u64 \<Rightarrow> ProbeMsg" where
  "probe_echo p received_us = p\<lparr>pr_kind := Echo, pr_echo_us := received_us\<rparr>"

lemmas media_consts =
  MEDIA_HEADER_VERSION_def MEDIA_HEADER_LEN_def MAX_MEDIA_PAYLOAD_def
  MAX_ACCEPTED_MEDIA_PAYLOAD_def PROBE_MAGIC_def PROBE_HEADER_LEN_def MAX_PROBE_LEN_def

section \<open>Lemmas\<close>

lemma version_from_to_u32 [codec_simps]: "version_from_u32 (version_to_u32 v) = v"
proof -
  have m: "(0xFFFF :: u32) = mask 16"
    by (simp add: mask_eq_exp_minus_1)
  have "ucast (drop_bit 16 (version_to_u32 v)) = major v"
    by (rule bit_word_eqI)
      (auto simp: version_to_u32_def bit_simps dest: bit_imp_le_length)
  moreover have "ucast (version_to_u32 v AND 0xFFFF) = minor v"
    unfolding m by (rule bit_word_eqI)
      (auto simp: version_to_u32_def bit_simps dest: bit_imp_le_length)
  ultimately show ?thesis by (simp add: version_from_u32_def)
qed

lemma version_to_from_u32 [codec_simps]: "version_to_u32 (version_from_u32 w) = w"
proof -
  have m: "(0xFFFF :: u32) = mask 16"
    by (simp add: mask_eq_exp_minus_1)
  show ?thesis
    unfolding version_from_u32_def version_to_u32_def m
    by (rule bit_word_eqI) (auto simp: bit_simps)
qed

lemma codec_try_from_as_u8 [simp]: "codec_try_from (codec_as_u8 c) = Inr c"
  by (cases c) (simp_all add: codec_try_from_def codec_as_u8_def)

lemma codec_try_from_Inr: "codec_try_from b = Inr c \<longleftrightarrow> b = codec_as_u8 c"
  by (cases c) (auto simp: codec_try_from_def codec_as_u8_def)

lemma probe_kind_of_as_u8 [simp]: "probe_kind_of (probe_kind_as_u8 k) = Inr k"
  by (cases k) (simp_all add: probe_kind_of_def probe_kind_as_u8_def)

lemma probe_kind_of_Inr: "probe_kind_of b = Inr k \<longleftrightarrow> b = probe_kind_as_u8 k"
  by (cases k) (auto simp: probe_kind_of_def probe_kind_as_u8_def)

text \<open>A list of at least \<open>n\<close> elements splits into its first \<open>n\<close> and the rest: the shape every
  fixed header decoder relies on.\<close>

lemma media_split:
  assumes "16 \<le> length d"
  shows "d = [d ! 0, d ! 1, d ! 2, d ! 3] @ take 8 (drop 4 d) @ take 4 (drop 12 d) @ drop 16 d"
proof -
  have "d = take 4 d @ drop 4 d" by simp
  also have "take 4 d = [d ! 0, d ! 1, d ! 2, d ! 3]"
    using assms by (intro take_4_nth) simp
  also have "drop 4 d = take 8 (drop 4 d) @ drop 12 d"
    using cut_field [of 4 d 8] by simp
  also have "drop 12 d = take 4 (drop 12 d) @ drop 16 d"
    using cut_field [of 12 d 4] by simp
  finally show ?thesis .
qed

lemma media_decode_encoded:
  assumes "length (mp_payload p) \<le> MAX_ACCEPTED_MEDIA_PAYLOAD"
  shows "media_decode
    ([MEDIA_HEADER_VERSION, mh_route (mp_header p), codec_as_u8 (mh_codec (mp_header p)),
      flag_bits (mh_flags (mp_header p))]
     @ put_u64 (mh_sample_timestamp (mp_header p)) @ put_u32 (mh_seq (mp_header p))
     @ mp_payload p) = Inr p"
  using assms by (simp add: media_decode_def media_consts Let_def)

lemma media_decode_Inr:
  "media_decode d = Inr p \<longleftrightarrow>
     length (mp_payload p) \<le> MAX_ACCEPTED_MEDIA_PAYLOAD \<and>
     d = [MEDIA_HEADER_VERSION, mh_route (mp_header p), codec_as_u8 (mh_codec (mp_header p)),
          flag_bits (mh_flags (mp_header p))]
         @ put_u64 (mh_sample_timestamp (mp_header p)) @ put_u32 (mh_seq (mp_header p))
         @ mp_payload p"
  (is "?L = ?R")
proof
  assume ?L
  then have len: "16 \<le> length d"
    by (simp add: media_decode_def media_consts split: if_splits)
  with \<open>?L\<close> show ?R
    using media_split [OF len]
    by (auto simp: media_decode_def media_consts Let_def and_then_Inr codec_try_from_Inr put_u64_get put_u32_get
        split: if_splits)
next
  assume ?R
  then show ?L using media_decode_encoded by blast
qed

lemma probe_split:
  assumes "26 \<le> length d"
  shows "d = [d ! 0, d ! 1] @ take 4 (drop 2 d) @ take 4 (drop 6 d) @ take 8 (drop 10 d)
    @ take 8 (drop 18 d) @ drop 26 d"
proof -
  have "d = take 2 d @ drop 2 d" by simp
  also have "take 2 d = [d ! 0, d ! 1]" using assms by (intro take_2_nth) simp
  also have "drop 2 d = take 4 (drop 2 d) @ drop 6 d" using cut_field [of 2 d 4] by simp
  also have "drop 6 d = take 4 (drop 6 d) @ drop 10 d" using cut_field [of 6 d 4] by simp
  also have "drop 10 d = take 8 (drop 10 d) @ drop 18 d" using cut_field [of 10 d 8] by simp
  also have "drop 18 d = take 8 (drop 18 d) @ drop 26 d" using cut_field [of 18 d 8] by simp
  finally show ?thesis .
qed

lemma length_probe_encode:
  "length (probe_encode p n) = clamp n PROBE_HEADER_LEN MAX_PROBE_LEN"
  by (auto simp: probe_encode_def Let_def media_consts clamp_def)

lemma probe_decode_encode: "probe_decode (probe_encode p n) = Inr p"
proof -
  have "26 \<le> length (probe_encode p n)" "length (probe_encode p n) \<le> MAX_PROBE_LEN"
    by (auto simp: length_probe_encode clamp_def media_consts)
  then show ?thesis
    by (simp add: probe_decode_def PROBE_HEADER_LEN_def)
      (simp add: probe_encode_def Let_def)
qed

text \<open>A capability is one bit, so holding it is one bit test.\<close>

lemma has_pow2: "n < 64 \<Longrightarrow> capability_has c (2 ^ n) \<longleftrightarrow> bit (cap_bits c) n"
proof
  assume "n < 64" "capability_has c (2 ^ n)"
  then have "bit (cap_bits c AND 2 ^ n) n"
    by (simp add: capability_has_def bit_exp_iff)
  then show "bit (cap_bits c) n" by (simp add: bit_and_iff)
next
  assume "n < 64" "bit (cap_bits c) n"
  then show "capability_has c (2 ^ n)"
    unfolding capability_has_def
    by (intro bit_word_eqI) (auto simp: bit_and_iff bit_exp_iff)
qed

definition capability_positions :: "nat list" where
  "capability_positions = [0, 1, 2, 3, 8, 9, 16, 17, 24, 25, 26, 27, 28, 29, 30, 31, 32]"

lemma all_capabilities_pow2:
  assumes "b \<in> set all_capabilities"
  shows "\<exists>n < 64. b = 2 ^ n"
proof -
  have "set all_capabilities = (\<lambda>n. 2 ^ n) ` set capability_positions"
    by (simp add: all_capabilities_def capability_positions_def capability_defs)
  with assms obtain n where "n \<in> set capability_positions" "b = 2 ^ n" by blast
  moreover have "\<forall>k \<in> set capability_positions. k < 64"
    by (simp add: capability_positions_def)
  ultimately show ?thesis by blast
qed

lemma pow2_eq_iff:
  assumes "n < 64" "m < 64"
  shows "(2 :: u64) ^ n = 2 ^ m \<longleftrightarrow> n = m"
proof
  assume "(2 :: u64) ^ n = 2 ^ m"
  then have "bit ((2 :: u64) ^ n) m" using assms by (simp add: bit_exp_iff)
  then show "n = m" by (simp add: bit_exp_iff)
qed simp

lemma with_pow2:
  "n < 64 \<Longrightarrow> m < 64 \<Longrightarrow>
     capability_has (capability_with c (2 ^ n)) (2 ^ m) \<longleftrightarrow> n = m \<or> capability_has c (2 ^ m)"
  by (auto simp: has_pow2 capability_with_def bit_or_iff bit_exp_iff)

section \<open>Properties\<close>

text \<open>version negotiation returns the highest version that both ranges contain, and fails
  exactly when there is none; both devices come to the same answer.\<close>

theorem negotiate_highest_common:
  "(\<forall>v. negotiate a b = Inr v \<longrightarrow>
      in_range v a \<and> in_range v b \<and> (\<forall>w. in_range w a \<and> in_range w b \<longrightarrow> w \<le> v)) \<and>
   ((\<exists>e. negotiate a b = Inl e) \<longleftrightarrow> (\<forall>w. \<not> (in_range w a \<and> in_range w b))) \<and>
   (\<forall>v. negotiate a b = Inr v \<longleftrightarrow> negotiate b a = Inr v)"
proof (intro conjI)
  let ?low = "max (vr_min a) (vr_min b)" and ?high = "min (vr_max a) (vr_max b)"
  have common: "in_range w a \<and> in_range w b \<longleftrightarrow> ?low \<le> w \<and> w \<le> ?high" for w
    by (auto simp: in_range_def)
  show "\<forall>v. negotiate a b = Inr v \<longrightarrow>
      in_range v a \<and> in_range v b \<and> (\<forall>w. in_range w a \<and> in_range w b \<longrightarrow> w \<le> v)"
    unfolding negotiate_def Let_def
    by (auto simp: in_range_def split: if_splits)
  show "(\<exists>e. negotiate a b = Inl e) \<longleftrightarrow> (\<forall>w. \<not> (in_range w a \<and> in_range w b))"
  proof -
    have "(\<forall>w. \<not> (?low \<le> w \<and> w \<le> ?high)) \<longleftrightarrow> \<not> ?low \<le> ?high"
      by (meson order.trans order_refl)
    then show ?thesis unfolding common by (simp add: negotiate_def Let_def)
  qed
  show "\<forall>v. negotiate a b = Inr v \<longleftrightarrow> negotiate b a = Inr v"
    by (simp add: negotiate_def max.commute min.commute)
qed

theorem negotiate_highest_common_witness:
  "negotiate LOCAL_VERSIONS \<lparr>vr_min = ProtocolVersion 1 1, vr_max = ProtocolVersion 2 0\<rparr>
     = Inr (ProtocolVersion 1 1)
   \<and> in_range (ProtocolVersion 1 1) LOCAL_VERSIONS"
proof -
  let ?p = "\<lparr>vr_min = ProtocolVersion 1 1, vr_max = ProtocolVersion 2 0\<rparr>"
  have n: "negotiate LOCAL_VERSIONS ?p = Inr (ProtocolVersion 1 1)"
    by (simp add: negotiate_def LOCAL_VERSIONS_def less_eq_ProtocolVersion_def max_def min_def)
  with negotiate_highest_common [of LOCAL_VERSIONS ?p] show ?thesis by simp
qed

text \<open>C34: a media packet and its datagram determine each other. Encoding succeeds with a
  datagram exactly when that datagram decodes to the packet and the payload is within the
  sender's limit; anything longer is refused with its length.\<close>

theorem media_encode_iff_decode:
  "(media_encode p = Inr d \<longleftrightarrow>
      media_decode d = Inr p \<and> length (mp_payload p) \<le> MAX_MEDIA_PAYLOAD) \<and>
   (media_encode p = Inl e \<longleftrightarrow>
      length (mp_payload p) > MAX_MEDIA_PAYLOAD \<and>
      e = PayloadTooLarge (length (mp_payload p)) MAX_MEDIA_PAYLOAD)"
  by (auto simp: media_decode_Inr media_encode_def Let_def MAX_MEDIA_PAYLOAD_def
      MAX_ACCEPTED_MEDIA_PAYLOAD_def)

text \<open>exactly the datagrams of 16 to 1216 bytes with header version 1 and a known codec are
  accepted; every other datagram is refused with an error, and a probe is always refused.\<close>

theorem media_decode_accepts:
  "((\<exists>p. media_decode d = Inr p) \<longleftrightarrow>
      16 \<le> length d \<and> length d \<le> 1216 \<and> d ! 0 = 1 \<and> (d ! 2 = 1 \<or> d ! 2 = 2)) \<and>
   (is_probe d \<longrightarrow> (\<exists>e. media_decode d = Inl e))"
proof -
  have accepts: "(\<exists>p. media_decode d = Inr p) \<longleftrightarrow>
      16 \<le> length d \<and> length d \<le> 1216 \<and> d ! 0 = 1 \<and> (d ! 2 = 1 \<or> d ! 2 = 2)"
    by (auto simp: media_decode_def media_consts Let_def codec_try_from_def)
  moreover have "is_probe d \<Longrightarrow> d ! 0 = 0xA5"
    by (auto simp: is_probe_def PROBE_MAGIC_def split: list.splits)
  ultimately show ?thesis
    by (cases "media_decode d") auto
qed

theorem media_decode_accepts_witness:
  "is_probe (probe_encode \<lparr>pr_kind = Probe, pr_test_id = 3, pr_seq = 99, pr_sent_us = 5, pr_echo_us = 0\<rparr> 64)
   \<and> (\<exists>e. media_decode (probe_encode
          \<lparr>pr_kind = Probe, pr_test_id = 3, pr_seq = 99, pr_sent_us = 5, pr_echo_us = 0\<rparr> 64) = Inl e)"
proof -
  let ?d = "probe_encode \<lparr>pr_kind = Probe, pr_test_id = 3, pr_seq = 99, pr_sent_us = 5, pr_echo_us = 0\<rparr> 64"
  have "is_probe ?d" by (simp add: is_probe_def probe_encode_def Let_def)
  with media_decode_accepts [of ?d] show ?thesis by blast
qed

text \<open>a probe survives its encoding at every requested size, the size stays between the
  header and the largest media datagram, and an echo carries no padding: whatever probe
  datagram a responder accepts, its answer is not longer.\<close>

theorem probe_roundtrip_no_amplification:
  "probe_decode (probe_encode p n) = Inr p \<and> is_probe (probe_encode p n) \<and>
   length (probe_encode p n) = clamp n PROBE_HEADER_LEN MAX_PROBE_LEN \<and>
   (probe_decode d = Inr q \<longrightarrow>
      length (probe_encode (probe_echo q t) 0) \<le> length d \<and>
      probe_decode (probe_encode (probe_echo q t) 0) =
        Inr \<lparr>pr_kind = Echo, pr_test_id = pr_test_id q, pr_seq = pr_seq q,
             pr_sent_us = pr_sent_us q, pr_echo_us = t\<rparr>)"
proof (intro conjI impI)
  show "probe_decode (probe_encode p n) = Inr p" by (rule probe_decode_encode)
  show "is_probe (probe_encode p n)" by (simp add: is_probe_def probe_encode_def Let_def)
  show "length (probe_encode p n) = clamp n PROBE_HEADER_LEN MAX_PROBE_LEN"
    by (rule length_probe_encode)
  assume "probe_decode d = Inr q"
  then show "length (probe_encode (probe_echo q t) 0) \<le> length d"
    by (auto simp: probe_decode_def length_probe_encode clamp_def media_consts split: if_splits)
  show "probe_decode (probe_encode (probe_echo q t) 0) =
      Inr \<lparr>pr_kind = Echo, pr_test_id = pr_test_id q, pr_seq = pr_seq q,
           pr_sent_us = pr_sent_us q, pr_echo_us = t\<rparr>"
    by (simp add: probe_decode_encode probe_echo_def)
qed

theorem probe_roundtrip_no_amplification_witness:
  "length (probe_encode (probe_echo
       \<lparr>pr_kind = Probe, pr_test_id = 3, pr_seq = 99, pr_sent_us = 5, pr_echo_us = 0\<rparr> 7) 0)
   \<le> length (probe_encode \<lparr>pr_kind = Probe, pr_test_id = 3, pr_seq = 99, pr_sent_us = 5, pr_echo_us = 0\<rparr> 1000)"
proof -
  let ?p = "\<lparr>pr_kind = Probe, pr_test_id = 3, pr_seq = 99, pr_sent_us = 5, pr_echo_us = 0\<rparr>"
  have "probe_decode (probe_encode ?p 1000) = Inr ?p" by (rule probe_decode_encode)
  with probe_roundtrip_no_amplification [of ?p 1000 "probe_encode ?p 1000" ?p 7]
  show ?thesis by blast
qed

text \<open>Capability bits are independent: advertising one of the protocol's capabilities adds
  that one and no other.\<close>

theorem capability_with_independent:
  assumes "b \<in> set all_capabilities" and "b' \<in> set all_capabilities"
  shows "capability_has (capability_with c b) b' \<longleftrightarrow> b = b' \<or> capability_has c b'"
proof -
  from assms obtain n m where "b = 2 ^ n" "b' = 2 ^ m" "n < 64" "m < 64"
    by (blast dest: all_capabilities_pow2)
  then show ?thesis by (simp add: with_pow2 pow2_eq_iff)
qed

theorem capability_with_independent_witness:
  "\<not> capability_has (capability_with (Capabilities 0) FEATURE_DTX) TRANSPORT_TCP"
proof -
  have "FEATURE_DTX \<in> set all_capabilities" "TRANSPORT_TCP \<in> set all_capabilities"
    by (simp_all add: all_capabilities_def)
  from capability_with_independent [OF this, of "Capabilities 0"] show ?thesis
    by (simp add: capability_has_def capability_defs)
qed

end
