(* ===== verification/Framing.thy ===== *)
theory Framing
  imports Protocol_Wire
begin

text \<open>
  Length-prefixed framing of the reliable streams (\<open>sp-protocol/src/framing.rs\<close>): plain frames
  on QUIC control streams and typed frames on the TLS-over-TCP stream. Both incremental
  decoders offer the same contract to their readers, stated once as the locale
  \<open>frame_decoder\<close>: however the network cuts the byte stream into reads, the frames that were
  sent come out, in order and complete.
\<close>

section \<open>Plain frames\<close>

definition MAX_CONTROL_FRAME :: nat where "MAX_CONTROL_FRAME = 64 * 1024"
definition MAX_MEDIA_FRAME :: nat where
  "MAX_MEDIA_FRAME = MEDIA_HEADER_LEN + MAX_ACCEPTED_MEDIA_PAYLOAD"
definition MAX_SMALL_FRAME :: nat where "MAX_SMALL_FRAME = 256"

definition encode_frame :: "bytes \<Rightarrow> nat \<Rightarrow> bytes \<Rightarrow> ProtocolError + bytes" where
  "encode_frame payload mx out =
     (if length payload > mx then Inl (FrameTooLarge (length payload) mx)
      else Inr (out @ put_u32 (word_of_nat (length payload)) @ payload))"

record FrameDecoder =
  fd_buf :: bytes
  fd_max :: nat

definition frame_decoder_new :: "nat \<Rightarrow> FrameDecoder" where
  "frame_decoder_new mx = \<lparr>fd_buf = [], fd_max = mx\<rparr>"

definition frame_decoder_extend :: "FrameDecoder \<Rightarrow> bytes \<Rightarrow> FrameDecoder" where
  "frame_decoder_extend d bs = d\<lparr>fd_buf := fd_buf d @ bs\<rparr>"

definition frame_decoder_next :: "FrameDecoder \<Rightarrow> (ProtocolError + bytes option) \<times> FrameDecoder" where
  "frame_decoder_next d =
     (if length (fd_buf d) < 4 then (Inr None, d)
      else let len = be_decode (take 4 (fd_buf d)) in
      if len > fd_max d then (Inl (FrameTooLarge len (fd_max d)), d)
      else if length (fd_buf d) < 4 + len then (Inr None, d)
      else (Inr (Some (take len (drop 4 (fd_buf d)))),
            d\<lparr>fd_buf := drop (4 + len) (fd_buf d)\<rparr>))"

section \<open>Typed frames\<close>

datatype StreamFrameKind = FControl | FDatagram | FPing | FPong | FClose

definition kind_as_u8 :: "StreamFrameKind \<Rightarrow> u8" where
  "kind_as_u8 k = (case k of FControl \<Rightarrow> 1 | FDatagram \<Rightarrow> 2 | FPing \<Rightarrow> 3 | FPong \<Rightarrow> 4 | FClose \<Rightarrow> 5)"

definition kind_from_u8 :: "u8 \<Rightarrow> ProtocolError + StreamFrameKind" where
  "kind_from_u8 v =
     (if v = 1 then Inr FControl else if v = 2 then Inr FDatagram else if v = 3 then Inr FPing
      else if v = 4 then Inr FPong else if v = 5 then Inr FClose else Inl (UnknownFrameKind v))"

definition kind_max_len :: "StreamFrameKind \<Rightarrow> nat" where
  "kind_max_len k = (case k of FControl \<Rightarrow> MAX_CONTROL_FRAME | FDatagram \<Rightarrow> MAX_MEDIA_FRAME
      | FPing \<Rightarrow> MAX_SMALL_FRAME | FPong \<Rightarrow> MAX_SMALL_FRAME | FClose \<Rightarrow> MAX_SMALL_FRAME)"

definition encode_stream_frame :: "StreamFrameKind \<Rightarrow> bytes \<Rightarrow> bytes \<Rightarrow> ProtocolError + bytes" where
  "encode_stream_frame kind payload out =
     (if length payload > kind_max_len kind
      then Inl (FrameTooLarge (length payload) (kind_max_len kind))
      else Inr (out @ [kind_as_u8 kind] @ put_u32 (word_of_nat (length payload)) @ payload))"

record StreamFrameDecoder =
  sfd_buf :: bytes

definition stream_decoder_new :: StreamFrameDecoder where
  "stream_decoder_new = \<lparr>sfd_buf = []\<rparr>"

definition stream_decoder_extend :: "StreamFrameDecoder \<Rightarrow> bytes \<Rightarrow> StreamFrameDecoder" where
  "stream_decoder_extend d bs = d\<lparr>sfd_buf := sfd_buf d @ bs\<rparr>"

definition stream_decoder_next ::
  "StreamFrameDecoder \<Rightarrow> (ProtocolError + (StreamFrameKind \<times> bytes) option) \<times> StreamFrameDecoder" where
  "stream_decoder_next d =
     (if length (sfd_buf d) < 5 then (Inr None, d)
      else case kind_from_u8 (sfd_buf d ! 0) of
        Inl e \<Rightarrow> (Inl e, d)
      | Inr kind \<Rightarrow>
         (let len = be_decode (take 4 (drop 1 (sfd_buf d))) in
          if len > kind_max_len kind then (Inl (FrameTooLarge len (kind_max_len kind)), d)
          else if length (sfd_buf d) < 5 + len then (Inr None, d)
          else (Inr (Some (kind, take len (drop 5 (sfd_buf d)))),
                d\<lparr>sfd_buf := drop (5 + len) (sfd_buf d)\<rparr>)))"

text \<open>Pulling frames until there is no complete one left, as both readers do after every read
  from the network. It stops because every frame shortens the buffer.\<close>

function frame_decoder_drain :: "FrameDecoder \<Rightarrow> bytes list \<times> ProtocolError option \<times> FrameDecoder" where
  "frame_decoder_drain d =
     (case frame_decoder_next d of
        (Inl e, d') \<Rightarrow> ([], Some e, d')
      | (Inr None, d') \<Rightarrow> ([], None, d')
      | (Inr (Some f), d') \<Rightarrow> (let (fs, e, d'') = frame_decoder_drain d' in (f # fs, e, d'')))"
  by pat_completeness auto
termination
  by (relation "measure (\<lambda>d. length (fd_buf d))")
    (auto simp: frame_decoder_next_def Let_def split: if_splits)

function stream_decoder_drain ::
  "StreamFrameDecoder \<Rightarrow> (StreamFrameKind \<times> bytes) list \<times> ProtocolError option \<times> StreamFrameDecoder" where
  "stream_decoder_drain d =
     (case stream_decoder_next d of
        (Inl e, d') \<Rightarrow> ([], Some e, d')
      | (Inr None, d') \<Rightarrow> ([], None, d')
      | (Inr (Some f), d') \<Rightarrow> (let (fs, e, d'') = stream_decoder_drain d' in (f # fs, e, d'')))"
  by pat_completeness auto
termination
  by (relation "measure (\<lambda>d. length (sfd_buf d))")
    (auto simp: stream_decoder_next_def Let_def split: if_splits sum.splits)

declare frame_decoder_drain.simps [simp del] stream_decoder_drain.simps [simp del]

text \<open>A reader's life: for every chunk read, extend the buffer and drain it; stop at an error.\<close>

fun feed :: "('d \<Rightarrow> bytes \<Rightarrow> 'd) \<Rightarrow> ('d \<Rightarrow> 'f list \<times> 'e option \<times> 'd) \<Rightarrow> 'd \<Rightarrow> bytes list
    \<Rightarrow> 'f list \<times> 'e option \<times> 'd" where
  "feed ext dr d [] = ([], None, d)"
| "feed ext dr d (c # cs) =
     (let (fs, e, d1) = dr (ext d c) in
      case e of Some _ \<Rightarrow> (fs, e, d1)
      | None \<Rightarrow> (let (gs, e', d2) = feed ext dr d1 cs in (fs @ gs, e', d2)))"

lemmas frame_consts = MAX_CONTROL_FRAME_def MAX_MEDIA_FRAME_def MAX_SMALL_FRAME_def media_consts

section \<open>The contract of an incremental decoder\<close>

locale frame_decoder =
  fixes extend :: "'d \<Rightarrow> bytes \<Rightarrow> 'd"
    and next_frame :: "'d \<Rightarrow> ('e + 'f option) \<times> 'd"
    and drain :: "'d \<Rightarrow> 'f list \<times> 'e option \<times> 'd"
    and buffered :: "'d \<Rightarrow> bytes"
    and rebuf :: "'d \<Rightarrow> bytes \<Rightarrow> 'd"
    and encode :: "'f \<Rightarrow> bytes"
    and legal :: "'d \<Rightarrow> 'f \<Rightarrow> bool"
  assumes buffered_rebuf: "buffered (rebuf d b) = b"
    and rebuf_rebuf: "rebuf (rebuf d b) c = rebuf d c"
    and rebuf_buffered: "rebuf d (buffered d) = d"
    and extend_rebuf: "extend d bs = rebuf d (buffered d @ bs)"
    and legal_rebuf: "legal (rebuf d b) f \<longleftrightarrow> legal d f"
    and encode_nonempty: "encode f \<noteq> []"
    and next_whole: "legal d f \<Longrightarrow> next_frame (rebuf d (encode f @ rest)) = (Inr (Some f), rebuf d rest)"
    and next_partial: "legal d f \<Longrightarrow> strict_prefix b (encode f) \<Longrightarrow>
           next_frame (rebuf d b) = (Inr None, rebuf d b)"
    and next_empty: "next_frame (rebuf d []) = (Inr None, rebuf d [])"
    and drain_unfold: "drain d =
     (case next_frame d of
        (Inl e, d') \<Rightarrow> ([], Some e, d')
      | (Inr None, d') \<Rightarrow> ([], None, d')
      | (Inr (Some f), d') \<Rightarrow> (let (fs, e, d'') = drain d' in (f # fs, e, d'')))"
begin

text \<open>Draining a buffer that is a prefix of a sent stream yields the whole frames in it and
  leaves a proper prefix of the next one.\<close>

lemma drain_prefix:
  assumes "\<forall>f \<in> set fs. legal d f" and "b @ rest = concat (map encode fs)"
  shows "\<exists>k b'. drain (rebuf d b) = (take k fs, None, rebuf d b')
     \<and> b' @ rest = concat (map encode (drop k fs)) \<and> k \<le> length fs
     \<and> (rest = [] \<longrightarrow> k = length fs)"
  using assms
proof (induction fs arbitrary: b)
  case Nil
  then have "drain (rebuf d b) = (take 0 [], None, rebuf d [])"
    by (simp add: drain_unfold [of "rebuf d []"] next_empty)
  with Nil show ?case by (intro exI [of _ "0::nat"] exI [of _ "[]"]) simp
next
  case (Cons f fs)
  have legal: "legal d f" using Cons.prems by simp
  from Cons.prems(2) have "b @ rest = encode f @ concat (map encode fs)" by simp
  then show ?case
  proof (cases rule: append_eq_cases)
    case (1 us)
    have "\<forall>g \<in> set fs. legal d g" using Cons.prems by simp
    from Cons.IH [OF this 1(2)] obtain k b' where
      k: "drain (rebuf d us) = (take k fs, None, rebuf d b')"
         "b' @ rest = concat (map encode (drop k fs))" "k \<le> length fs" "rest = [] \<longrightarrow> k = length fs"
      by blast
    have "drain (rebuf d b) = (take (Suc k) (f # fs), None, rebuf d b')"
      using next_whole [OF legal, of us] k(1) 1(1)
      by (simp add: drain_unfold [of "rebuf d (encode f @ us)"])
    with k show ?thesis by (intro exI [of _ "Suc k"] exI [of _ b']) simp
  next
    case 2
    then have "rest \<noteq> []" using Cons.prems(2) by (auto simp: strict_prefix_def prefix_def)
    moreover have "drain (rebuf d b) = ([], None, rebuf d b)"
      using next_partial [OF legal 2] by (simp add: drain_unfold [of "rebuf d b"])
    ultimately show ?thesis
      using Cons.prems(2) by (intro exI [of _ "0::nat"] exI [of _ b]) simp
  qed
qed

lemma feed_prefix:
  assumes "\<forall>f \<in> set fs. legal d f" and "cs \<noteq> []" and "b @ concat cs = concat (map encode fs)"
  shows "feed extend drain (rebuf d b) cs = (fs, None, rebuf d [])"
  using assms
proof (induction cs arbitrary: b fs)
  case (Cons c cs)
  have ext: "extend (rebuf d b) c = rebuf d (b @ c)"
    by (simp add: extend_rebuf buffered_rebuf rebuf_rebuf)
  have "(b @ c) @ concat cs = concat (map encode fs)" using Cons.prems by simp
  from drain_prefix [OF Cons.prems(1) this] obtain k b' where
    k: "drain (rebuf d (b @ c)) = (take k fs, None, rebuf d b')"
       "b' @ concat cs = concat (map encode (drop k fs))" "concat cs = [] \<longrightarrow> k = length fs"
    by blast
  show ?case
  proof (cases cs)
    case Nil
    with k show ?thesis by (simp add: ext)
  next
    case (Cons c' cs')
    have "\<forall>f \<in> set (drop k fs). legal d f" using Cons.prems(1) by (meson in_set_dropD)
    from Cons.IH [OF this _ k(2)] Cons
    have "feed extend drain (rebuf d b') cs = (drop k fs, None, rebuf d [])" by simp
    with k(1) show ?thesis by (simp add: ext)
  qed
qed simp

text \<open>Reassembly: any cutting of the sent bytes gives back the sent frames.\<close>

lemma reassembly:
  assumes "\<forall>f \<in> set fs. legal d f" and "buffered d = []" and "concat cs = concat (map encode fs)"
  shows "feed extend drain d cs = (fs, None, d)"
proof (cases "cs = []")
  case True
  with assms(3) have "fs = []" using encode_nonempty by (cases fs) auto
  with True show ?thesis by simp
next
  case False
  have d: "rebuf d [] = d" using rebuf_buffered [of d] assms(2) by simp
  with feed_prefix [OF assms(1) False, of "[]"] assms(3) show ?thesis by simp
qed

end

section \<open>Both decoders meet the contract\<close>

text \<open>What the two encoders put on the wire for a frame within its limit.\<close>

definition plain_wire :: "bytes \<Rightarrow> bytes" where
  "plain_wire payload = put_u32 (word_of_nat (length payload)) @ payload"

definition typed_wire :: "StreamFrameKind \<times> bytes \<Rightarrow> bytes" where
  "typed_wire f = kind_as_u8 (fst f) # put_u32 (word_of_nat (length (snd f))) @ snd f"

lemma encode_frame_wire:
  "length payload \<le> mx \<Longrightarrow> encode_frame payload mx out = Inr (out @ plain_wire payload)"
  by (simp add: encode_frame_def plain_wire_def)

lemma encode_stream_frame_wire:
  "length payload \<le> kind_max_len kind \<Longrightarrow>
     encode_stream_frame kind payload out = Inr (out @ typed_wire (kind, payload))"
  by (simp add: encode_stream_frame_def typed_wire_def)

lemma kind_from_as_u8 [simp]: "kind_from_u8 (kind_as_u8 k) = Inr k"
  by (cases k) (simp_all add: kind_from_u8_def kind_as_u8_def)

lemma kind_max_len_bound: "kind_max_len k \<le> MAX_CONTROL_FRAME"
  by (cases k) (simp_all add: kind_max_len_def frame_consts)

lemma be_decode_len [simp]: "n < 4294967296 \<Longrightarrow> be_decode (put_u32 (word_of_nat n)) = n"
  by (simp add: be_decode_put_u32 unat_of_len32)

lemma frame_next_whole:
  assumes "length f \<le> mx" "mx < 4294967296"
  shows "frame_decoder_next \<lparr>fd_buf = plain_wire f @ rest, fd_max = mx\<rparr>
    = (Inr (Some f), \<lparr>fd_buf = rest, fd_max = mx\<rparr>)"
  using assms by (simp add: frame_decoder_next_def plain_wire_def Let_def)

lemma strict_prefix_length: "strict_prefix b xs \<Longrightarrow> length b < length xs"
  by (auto simp: strict_prefix_def prefix_def)

lemma strict_prefix_take: "strict_prefix b xs \<Longrightarrow> n \<le> length b \<Longrightarrow> take n b = take n xs"
  by (auto simp: strict_prefix_def prefix_def)

lemma frame_next_partial:
  assumes "strict_prefix b (plain_wire f)" "length f \<le> mx" "mx < 4294967296"
  shows "frame_decoder_next \<lparr>fd_buf = b, fd_max = mx\<rparr> = (Inr None, \<lparr>fd_buf = b, fd_max = mx\<rparr>)"
proof (cases "length b < 4")
  case False
  then have "take 4 b = put_u32 (word_of_nat (length f))"
    using strict_prefix_take [OF assms(1), of 4] by (simp add: plain_wire_def)
  with False assms strict_prefix_length [OF assms(1)] show ?thesis
    by (simp add: frame_decoder_next_def plain_wire_def Let_def)
qed (simp add: frame_decoder_next_def)

lemma stream_next_whole:
  assumes "length p \<le> kind_max_len k"
  shows "stream_decoder_next \<lparr>sfd_buf = typed_wire (k, p) @ rest\<rparr>
    = (Inr (Some (k, p)), \<lparr>sfd_buf = rest\<rparr>)"
proof -
  have "length p < 4294967296"
    using assms kind_max_len_bound [of k] by (simp add: frame_consts)
  moreover have "drop (5 + length p) (k' # put_u32 w @ p @ rest) = rest" for k' w
    by (simp add: drop_Cons')
  ultimately show ?thesis
    using assms by (simp add: stream_decoder_next_def typed_wire_def Let_def)
qed

lemma stream_next_partial:
  assumes "strict_prefix b (typed_wire (k, p))" "length p \<le> kind_max_len k"
  shows "stream_decoder_next \<lparr>sfd_buf = b\<rparr> = (Inr None, \<lparr>sfd_buf = b\<rparr>)"
proof (cases "length b < 5")
  case False
  have p: "length p < 4294967296"
    using assms(2) kind_max_len_bound [of k] by (simp add: frame_consts)
  from False have "take 5 b = kind_as_u8 k # put_u32 (word_of_nat (length p))"
    using strict_prefix_take [OF assms(1), of 5] by (simp add: typed_wire_def)
  then obtain r where "b = kind_as_u8 k # put_u32 (word_of_nat (length p)) @ r"
    by (metis append_Cons append_take_drop_id)
  with False p assms strict_prefix_length [OF assms(1)] show ?thesis
    by (simp add: stream_decoder_next_def typed_wire_def Let_def)
qed (simp add: stream_decoder_next_def)

interpretation plain_frames: frame_decoder
  frame_decoder_extend frame_decoder_next frame_decoder_drain fd_buf "\<lambda>d b. d\<lparr>fd_buf := b\<rparr>"
  plain_wire "\<lambda>d f. length f \<le> fd_max d \<and> fd_max d < 4294967296"
proof (unfold_locales, goal_cases)
  case (6 f)
  have "length (plain_wire f) > 0" by (simp add: plain_wire_def)
  then show ?case by blast
next
  case (7 d f rest)
  then show ?case using frame_next_whole [of f "fd_max d" rest] by (cases d) simp
next
  case (8 d f b)
  then show ?case using frame_next_partial [of b f "fd_max d"] by (cases d) simp
next
  case (10 d)
  show ?case by (rule frame_decoder_drain.simps)
qed (simp_all add: frame_decoder_extend_def plain_wire_def frame_decoder_next_def)

interpretation typed_frames: frame_decoder
  stream_decoder_extend stream_decoder_next stream_decoder_drain sfd_buf "\<lambda>d b. d\<lparr>sfd_buf := b\<rparr>"
  typed_wire "\<lambda>d f. length (snd f) \<le> kind_max_len (fst f)"
proof (unfold_locales, goal_cases)
  case (7 d f rest)
  then show ?case using stream_next_whole [of "snd f" "fst f" rest] by (cases d) simp
next
  case (8 d f b)
  then show ?case using stream_next_partial [of b "fst f" "snd f"] by (cases d) simp
next
  case (10 d)
  show ?case by (rule stream_decoder_drain.simps)
qed (simp_all add: stream_decoder_extend_def typed_wire_def stream_decoder_next_def)

section \<open>Properties\<close>

text \<open>A sender that writes several frames one after the other, stopping at the first refusal.\<close>

fun encode_frames :: "bytes list \<Rightarrow> nat \<Rightarrow> bytes \<Rightarrow> ProtocolError + bytes" where
  "encode_frames [] mx out = Inr out"
| "encode_frames (p # ps) mx out = and_then (encode_frame p mx out) (encode_frames ps mx)"

fun encode_stream_frames :: "(StreamFrameKind \<times> bytes) list \<Rightarrow> bytes \<Rightarrow> ProtocolError + bytes" where
  "encode_stream_frames [] out = Inr out"
| "encode_stream_frames (f # fs) out =
     and_then (encode_stream_frame (fst f) (snd f) out) (encode_stream_frames fs)"

lemma encode_frames_Inr:
  "encode_frames ps mx out = Inr w \<longleftrightarrow>
     (\<forall>p \<in> set ps. length p \<le> mx) \<and> w = out @ concat (map plain_wire ps)"
  by (induction ps arbitrary: out)
    (auto simp: and_then_Inr encode_frame_def plain_wire_def)

lemma encode_stream_frames_Inr:
  "encode_stream_frames fs out = Inr w \<longleftrightarrow>
     (\<forall>f \<in> set fs. length (snd f) \<le> kind_max_len (fst f)) \<and> w = out @ concat (map typed_wire fs)"
  by (induction fs arbitrary: out)
    (auto simp: and_then_Inr encode_stream_frame_def typed_wire_def)

text \<open>Control frames written to a QUIC stream come out of the decoder as they were sent,
  whatever pieces the stream delivers: same frames, same order, nothing left over, no error.\<close>

theorem control_stream_reassembles:
  assumes "encode_frames ps mx [] = Inr w" and "mx < 2 ^ 32" and "concat cs = w"
  shows "feed frame_decoder_extend frame_decoder_drain (frame_decoder_new mx) cs
    = (ps, None, frame_decoder_new mx)"
  using assms plain_frames.reassembly [of ps "frame_decoder_new mx" cs]
  by (simp add: encode_frames_Inr frame_decoder_new_def)

theorem control_stream_reassembles_witness:
  "feed frame_decoder_extend frame_decoder_drain (frame_decoder_new MAX_CONTROL_FRAME)
     [[0, 0], [0, 2, 7], [8, 0, 0, 0, 0]] = ([[7, 8], []], None, frame_decoder_new MAX_CONTROL_FRAME)"
proof (rule control_stream_reassembles)
  show "encode_frames [[7, 8], []] MAX_CONTROL_FRAME [] = Inr [0, 0, 0, 2, 7, 8, 0, 0, 0, 0]"
    by (simp add: encode_frame_def MAX_CONTROL_FRAME_def put_u32_def be_encode_numeral)
  show "MAX_CONTROL_FRAME < 2 ^ 32" by (simp add: MAX_CONTROL_FRAME_def)
qed simp

text \<open>typed frames multiplexed on one TCP stream are demultiplexed without loss, reordering
  or change of kind, for every sequence of frames within their limits and every cutting of the
  byte stream into reads.\<close>

theorem tcp_stream_reassembles:
  assumes "encode_stream_frames fs [] = Inr w" and "concat cs = w"
  shows "feed stream_decoder_extend stream_decoder_drain stream_decoder_new cs
    = (fs, None, stream_decoder_new)"
  using assms typed_frames.reassembly [of fs stream_decoder_new cs]
  by (simp add: encode_stream_frames_Inr stream_decoder_new_def)

theorem tcp_stream_reassembles_witness:
  "feed stream_decoder_extend stream_decoder_drain stream_decoder_new
     [[1, 0, 0], [0, 1, 9, 5], [0, 0, 0, 0]] = ([(FControl, [9]), (FClose, [])], None, stream_decoder_new)"
proof (rule tcp_stream_reassembles)
  show "encode_stream_frames [(FControl, [9]), (FClose, [])] [] = Inr [1, 0, 0, 0, 1, 9, 5, 0, 0, 0, 0]"
    by (simp add: encode_stream_frame_def kind_max_len_def kind_as_u8_def frame_consts put_u32_def
        be_encode_numeral)
qed simp

lemma stream_next_None_short:
  assumes "stream_decoder_next d = (Inr None, d')"
  shows "d' = d \<and> length (sfd_buf d) < 5 + MAX_CONTROL_FRAME"
proof (cases "length (sfd_buf d) < 5")
  case False
  with assms obtain k where "d' = d"
    and "be_decode (take 4 (drop 1 (sfd_buf d))) \<le> kind_max_len k"
    and "length (sfd_buf d) < 5 + be_decode (take 4 (drop 1 (sfd_buf d)))"
    by (auto simp: stream_decoder_next_def Let_def not_less split: if_splits sum.splits)
  with kind_max_len_bound [of k] show ?thesis by linarith
qed (use assms in \<open>auto simp: stream_decoder_next_def\<close>)

text \<open>after the reader has drained its buffer without an error, less than one maximal frame
  is left in it, so the decoder never holds more than that plus one read; and a corrupt
  stream stays corrupt: the decoder reports the same error again instead of resynchronising.\<close>

theorem stream_buffer_bounded:
  assumes "stream_decoder_drain d = (fs, e, d')"
  shows "(e = None \<longrightarrow> length (sfd_buf d') < 5 + MAX_CONTROL_FRAME) \<and>
    (\<forall>err. e = Some err \<longrightarrow> stream_decoder_next d' = (Inl err, d'))"
  using assms
proof (induction d arbitrary: fs rule: stream_decoder_drain.induct)
  case (1 d)
  obtain r d1 where nx: "stream_decoder_next d = (r, d1)" by fastforce
  show ?case
  proof (cases r)
    case (Inl err)
    with nx have "d1 = d"
      by (auto simp: stream_decoder_next_def Let_def split: if_splits sum.splits)
    with Inl nx 1(2) show ?thesis by (auto simp: stream_decoder_drain.simps [of d])
  next
    case (Inr o')
    show ?thesis
    proof (cases o')
      case None
      with Inr nx stream_next_None_short 1(2) show ?thesis
        by (auto simp: stream_decoder_drain.simps [of d])
    next
      case (Some f)
      obtain gs e1 d2 where "stream_decoder_drain d1 = (gs, e1, d2)" by (cases "stream_decoder_drain d1")
      with 1 Inr Some nx show ?thesis
        by (auto simp: stream_decoder_drain.simps [of d])
    qed
  qed
qed

theorem stream_buffer_bounded_witness:
  "length (sfd_buf (snd (snd (stream_decoder_drain \<lparr>sfd_buf = [1, 0]\<rparr>)))) < 5 + MAX_CONTROL_FRAME"
proof -
  have "stream_decoder_drain \<lparr>sfd_buf = [1, 0]\<rparr> = ([], None, \<lparr>sfd_buf = [1, 0]\<rparr>)"
    by (simp add: stream_decoder_drain.simps stream_decoder_next_def)
  from stream_buffer_bounded [OF this] this show ?thesis by simp
qed

end
