(* ===== verification/Control_Messages.thy ===== *)
theory Control_Messages
  imports Route_Kinds Framing
begin

text \<open>
  Control messages (\<open>control.rs\<close>). The structures and enumerations are those of the source. Their
  protobuf wire form is produced by the prost crate: its encoder and decoder are arguments of
  \<open>control_to_bytes\<close> and \<open>control_from_bytes\<close>, the two operations the source defines on top.
  Strings and byte fields are byte lists; an enumeration field holds the number sent by the peer,
  which need not be one of the enumeration's.
\<close>

section \<open>Enumerations\<close>

type_synonym f32 = f64

datatype Platform = PlatformUnknown | Windows | Linux | MacOs | Android | Ios

primrec platform_as_i32 :: "Platform \<Rightarrow> int" where
  "platform_as_i32 PlatformUnknown = 0"
| "platform_as_i32 Windows = 1"
| "platform_as_i32 Linux = 2"
| "platform_as_i32 MacOs = 3"
| "platform_as_i32 Android = 4"
| "platform_as_i32 Ios = 5"

datatype EndpointKind =
    KindUnspecified | SourceSystemAudio | SourceAppAudio | SourceMicrophone | SourceMixed
  | SinkSpeaker | SinkVirtualMic

primrec endpoint_kind_as_i32 :: "EndpointKind \<Rightarrow> int" where
  "endpoint_kind_as_i32 KindUnspecified = 0"
| "endpoint_kind_as_i32 SourceSystemAudio = 1"
| "endpoint_kind_as_i32 SourceAppAudio = 2"
| "endpoint_kind_as_i32 SourceMicrophone = 3"
| "endpoint_kind_as_i32 SourceMixed = 4"
| "endpoint_kind_as_i32 SinkSpeaker = 10"
| "endpoint_kind_as_i32 SinkVirtualMic = 11"

datatype StopReason =
    StopUnspecified | UserStopped | PeerStopped | PermissionDenied | PermissionRevoked | DeviceBusy
  | AudioDeviceLost | CallInterruption | Superseded | IncompatibleVersion | NetworkLost
  | UnsupportedEndpoint | StopTimeout | RateLimited | VirtualMicBusy

primrec stop_reason_as_i32 :: "StopReason \<Rightarrow> int" where
  "stop_reason_as_i32 StopUnspecified = 0"
| "stop_reason_as_i32 UserStopped = 1"
| "stop_reason_as_i32 PeerStopped = 2"
| "stop_reason_as_i32 PermissionDenied = 3"
| "stop_reason_as_i32 PermissionRevoked = 4"
| "stop_reason_as_i32 DeviceBusy = 5"
| "stop_reason_as_i32 AudioDeviceLost = 6"
| "stop_reason_as_i32 CallInterruption = 7"
| "stop_reason_as_i32 Superseded = 8"
| "stop_reason_as_i32 IncompatibleVersion = 9"
| "stop_reason_as_i32 NetworkLost = 10"
| "stop_reason_as_i32 UnsupportedEndpoint = 11"
| "stop_reason_as_i32 StopTimeout = 12"
| "stop_reason_as_i32 RateLimited = 13"
| "stop_reason_as_i32 VirtualMicBusy = 14"

definition all_stop_reasons :: "StopReason list" where
  "all_stop_reasons =
     [StopUnspecified, UserStopped, PeerStopped, PermissionDenied, PermissionRevoked, DeviceBusy,
      AudioDeviceLost, CallInterruption, Superseded, IncompatibleVersion, NetworkLost,
      UnsupportedEndpoint, StopTimeout, RateLimited, VirtualMicBusy]"

text \<open>The derived \<open>TryFrom<i32>\<close>: the variant with that number.\<close>

definition stop_reason_try_from :: "int \<Rightarrow> StopReason option" where
  "stop_reason_try_from n = find (\<lambda>r. stop_reason_as_i32 r = n) all_stop_reasons"

lemma stop_reason_roundtrip [simp]: "stop_reason_try_from (stop_reason_as_i32 r) = Some r"
  by (cases r) (simp_all add: stop_reason_try_from_def all_stop_reasons_def)

lemma stop_reason_try_from_Some: "stop_reason_try_from n = Some r \<longleftrightarrow> stop_reason_as_i32 r = n"
proof
  show "stop_reason_try_from n = Some r \<Longrightarrow> stop_reason_as_i32 r = n"
    by (auto simp: stop_reason_try_from_def find_Some_iff)
qed auto

datatype ControlTarget = RouteStream | DeviceSpeakers

primrec control_target_as_i32 :: "ControlTarget \<Rightarrow> int" where
  "control_target_as_i32 RouteStream = 0"
| "control_target_as_i32 DeviceSpeakers = 1"

section \<open>Messages\<close>

record SessionTicket =
  ticket_token :: bytes
  ticket_lifetime_secs :: u32

record NetTestStart =
  nts_test_id :: u32
  nts_duration_ms :: u32

record NetTestReady =
  ntr_test_id :: u32
  ntr_accepted :: bool

record NetTestStop =
  ntp_test_id :: u32

record PairRequest =
  qr_proof :: "bytes option"

record PairResult =
  pair_accepted :: bool

record EndpointInfo =
  ep_id :: bytes
  ep_name :: bytes
  ep_kind :: int
  ep_is_default :: bool

record Hello =
  protocol_min :: u32
  protocol_max :: u32
  app_version :: bytes
  hello_device_id :: bytes
  device_name :: bytes
  hello_platform :: int
  capabilities :: u64
  resume_token :: "bytes option"
  hello_endpoints :: "EndpointInfo list"

record StreamProfile =
  sp_codec :: u32
  sp_bitrate :: u32
  sp_channels :: u32
  sp_frame_us :: u32
  sp_jitter_min_ms :: u32
  sp_jitter_max_ms :: u32
  sp_redundancy :: bool
  sp_adaptive_bitrate :: bool
  sp_denoise :: bool

record RouteRequest =
  rq_route :: u32
  rq_source_endpoint :: bytes
  rq_sink_endpoint :: bytes
  rq_requester_is_source :: bool
  rq_profile :: "StreamProfile option"
  rq_replace :: bool

record RouteAccept =
  ra_route :: u32
  ra_profile :: "StreamProfile option"

record RouteReject =
  rr_route :: u32
  rr_reason :: int

record RouteUpdate =
  ru_route :: u32
  ru_profile :: "StreamProfile option"

record RouteStop =
  rs_route :: u32
  rs_reason :: int

record VolumeSet =
  vs_route :: u32
  vs_target :: int
  vs_gain :: f32

record MuteSet =
  ms_route :: u32
  ms_target :: int
  ms_muted :: bool

record StatsReport =
  st_route :: u32
  st_packets_received :: u32
  st_packets_lost :: u32
  st_jitter_us :: u32
  st_buffer_ms :: u32
  st_underruns :: u32
  st_drift_ppm :: int
  st_output_latency_ms :: u32

record PingMsg =
  ping_nonce :: u64
  ping_sent_us_field :: u64

record PongMsg =
  pong_nonce :: u64
  pong_ping_sent_us :: u64
  pong_received_us :: u64

record PermissionChanged =
  pc_permissions :: u32

record NoticeMsg =
  notice_key :: bytes
  notice_args :: "bytes list"

record GoodbyeMsg =
  goodbye_reason :: int

datatype Body =
    BHello Hello
  | BRouteRequest RouteRequest
  | BRouteAccept RouteAccept
  | BRouteReject RouteReject
  | BRouteUpdate RouteUpdate
  | BRouteStop RouteStop
  | BVolumeSet VolumeSet
  | BMuteSet MuteSet
  | BStatsReport StatsReport
  | BPing PingMsg
  | BPong PongMsg
  | BPermissionChanged PermissionChanged
  | BNotice NoticeMsg
  | BGoodbye GoodbyeMsg
  | BPairRequest PairRequest
  | BPairResult PairResult
  | BSessionTicket SessionTicket
  | BNetTestStart NetTestStart
  | BNetTestReady NetTestReady
  | BNetTestStop NetTestStop

record ControlMsg =
  request_id :: u32
  body :: "Body option"

definition control_new :: "u32 \<Rightarrow> Body \<Rightarrow> ControlMsg" where
  "control_new rid b = \<lparr>request_id = rid, body = Some b\<rparr>"

lemma control_new_simps [simp]: "body (control_new rid b) = Some b" "request_id (control_new rid b) = rid"
  by (simp_all add: control_new_def)

section \<open>Encoding\<close>

type_synonym prost_encoder = "ControlMsg \<Rightarrow> bytes"
type_synonym prost_decoder = "bytes \<Rightarrow> string + ControlMsg"

definition control_to_bytes :: "prost_encoder \<Rightarrow> ControlMsg \<Rightarrow> bytes" where
  "control_to_bytes encode_to_vec msg = encode_to_vec msg"

definition control_from_bytes :: "prost_decoder \<Rightarrow> bytes \<Rightarrow> ProtocolError + ControlMsg" where
  "control_from_bytes prost_decode data =
     (if MAX_CONTROL_FRAME < length data then Inl (FrameTooLarge (length data) MAX_CONTROL_FRAME)
      else case prost_decode data of
        Inl e \<Rightarrow> Inl (Decode e)
      | Inr msg \<Rightarrow>
          if body msg = None
          then Inl (if data = [] then Decode ''empty body'' else UnknownMessage)
          else Inr msg)"

lemma control_from_bytes_Inr:
  "control_from_bytes dec data = Inr msg \<longleftrightarrow>
     length data \<le> MAX_CONTROL_FRAME \<and> dec data = Inr msg \<and> body msg \<noteq> None"
  by (auto simp: control_from_bytes_def split: sum.splits if_splits)

lemma control_from_bytes_unknown:
  "control_from_bytes dec data = Inl UnknownMessage \<longleftrightarrow>
     length data \<le> MAX_CONTROL_FRAME \<and> data \<noteq> [] \<and> (\<exists>msg. dec data = Inr msg \<and> body msg = None)"
  by (auto simp: control_from_bytes_def split: sum.splits if_splits)

end
