(* ===== verification/Control_Channel.thy ===== *)
theory Control_Channel
  imports Control_Messages
begin

text \<open>
  The control stream of a QUIC connection (\<open>connection.rs\<close>): \<open>ControlSender::send\<close> and
  \<open>ControlReceiver::recv\<close> on top of the framing and of the message decoder. The stream is a list of
  what its reads return; a receiver that runs out of reads is still waiting, which is \<open>None\<close>.
\<close>

section \<open>Operations\<close>

datatype TransportError =
    Bind string | Tls string | Connect string | Connection string | Io string | PeerIdentity
  | DialedSelf | Write string | Read string | Datagram string | Protocol ProtocolError | Closed
  | Timeout | Security string

text \<open>What \<open>RecvStream::read\<close> returns: bytes, the end of the stream, or an error.\<close>

datatype StreamRead = ReadData bytes | ReadEnd | ReadFailed string

definition lift_protocol :: "ProtocolError + 'a \<Rightarrow> TransportError + 'a" where
  "lift_protocol r = (case r of Inl e \<Rightarrow> Inl (Protocol e) | Inr x \<Rightarrow> Inr x)"

text \<open>The bytes a send over QUIC writes to its stream, and the bytes a send over TCP queues for the writer.\<close>

definition control_send_quic :: "prost_encoder \<Rightarrow> ControlMsg \<Rightarrow> TransportError + bytes" where
  "control_send_quic enc msg = lift_protocol (encode_frame (control_to_bytes enc msg) MAX_CONTROL_FRAME [])"

definition control_send_tcp :: "prost_encoder \<Rightarrow> ControlMsg \<Rightarrow> TransportError + bytes" where
  "control_send_tcp enc msg =
     (let bytes = control_to_bytes enc msg
      in if MAX_CONTROL_FRAME < length bytes
         then Inl (Protocol (FrameTooLarge (length bytes) MAX_CONTROL_FRAME))
         else Inr bytes)"

definition receiver_quic :: FrameDecoder where
  "receiver_quic = frame_decoder_new MAX_CONTROL_FRAME"

fun receiver_next_frame ::
  "FrameDecoder \<Rightarrow> StreamRead list \<Rightarrow> (TransportError + bytes) option \<times> FrameDecoder \<times> StreamRead list" where
  "receiver_next_frame d rs =
     (case frame_decoder_next d of
        (Inl e, d') \<Rightarrow> (Some (Inl (Protocol e)), d', rs)
      | (Inr (Some frame), d') \<Rightarrow> (Some (Inr frame), d', rs)
      | (Inr None, d') \<Rightarrow>
          (case rs of
             [] \<Rightarrow> (None, d', [])
           | ReadData bs # rs' \<Rightarrow> receiver_next_frame (frame_decoder_extend d' bs) rs'
           | ReadEnd # rs' \<Rightarrow> (Some (Inl Closed), d', rs')
           | ReadFailed e # rs' \<Rightarrow> (Some (Inl (Read e)), d', rs')))"

declare receiver_next_frame.simps [simp del]

text \<open>Bytes that are buffered or still to be read; every frame taken shortens them.\<close>

fun read_len :: "StreamRead \<Rightarrow> nat" where
  "read_len (ReadData bs) = length bs"
| "read_len _ = 0"

definition pending :: "FrameDecoder \<Rightarrow> StreamRead list \<Rightarrow> nat" where
  "pending d rs = length (fd_buf d) + sum_list (map read_len rs)"

lemma frame_decoder_next_shrinks:
  "frame_decoder_next d = (Inr (Some f), d') \<Longrightarrow> length (fd_buf d') < length (fd_buf d)"
  "frame_decoder_next d = (Inr None, d') \<Longrightarrow> d' = d"
  by (auto simp: frame_decoder_next_def Let_def split: if_splits)

lemma receiver_next_frame_shrinks:
  "receiver_next_frame d rs = (Some (Inr f), d', rs') \<Longrightarrow> pending d' rs' < pending d rs"
proof (induction d rs rule: receiver_next_frame.induct)
  case (1 d rs)
  obtain r d1 where n: "frame_decoder_next d = (r, d1)" by (cases "frame_decoder_next d") auto
  consider e where "r = Inl e" | f1 where "r = Inr (Some f1)" | "r = Inr None"
    by (metis obj_sumE option.exhaust)
  then show ?case
  proof cases
    case 3
    then have d1: "d1 = d" using n frame_decoder_next_shrinks(2) by simp
    show ?thesis
    proof (cases rs)
      case (Cons a rs1)
      then show ?thesis
        using "1.prems" "1.IH" [of r d1 None a rs1] n 3 d1
        by (cases a) (auto simp: receiver_next_frame.simps [of d] pending_def frame_decoder_extend_def)
    qed (use "1.prems" n 3 in \<open>simp add: receiver_next_frame.simps [of d]\<close>)
  qed (use "1.prems" n frame_decoder_next_shrinks(1) [of d] in
      \<open>auto simp: receiver_next_frame.simps [of d] pending_def\<close>)
qed

function receiver_recv ::
  "prost_decoder \<Rightarrow> FrameDecoder \<Rightarrow> StreamRead list
    \<Rightarrow> (TransportError + ControlMsg) option \<times> FrameDecoder \<times> StreamRead list" where
  "receiver_recv dec d rs =
     (case receiver_next_frame d rs of
        (None, d', rs') \<Rightarrow> (None, d', rs')
      | (Some (Inl e), d', rs') \<Rightarrow> (Some (Inl e), d', rs')
      | (Some (Inr frame), d', rs') \<Rightarrow>
          (case control_from_bytes dec frame of
             Inr msg \<Rightarrow> (Some (Inr msg), d', rs')
           | Inl e \<Rightarrow> if e = UnknownMessage then receiver_recv dec d' rs' else (Some (Inl (Protocol e)), d', rs')))"
  by pat_completeness auto
termination
  by (relation "measure (\<lambda>(dec, d, rs). pending d rs)") (auto intro: receiver_next_frame_shrinks [OF sym])

declare receiver_recv.simps [simp del]

lemma receiver_recv_shrinks:
  "receiver_recv dec d rs = (Some (Inr m), d', rs') \<Longrightarrow> pending d' rs' < pending d rs"
proof (induction dec d rs rule: receiver_recv.induct)
  case (1 dec d rs)
  obtain r d1 rs1 where n: "receiver_next_frame d rs = (r, d1, rs1)" by (metis prod_cases3)
  show ?case
  proof (cases r)
    case (Some x)
    show ?thesis
    proof (cases x)
      case (Inr f)
      then have "pending d1 rs1 < pending d rs" using n Some receiver_next_frame_shrinks by auto
      then show ?thesis
        using 1 n Some Inr
        by (fastforce simp: receiver_recv.simps [of dec d] split: sum.splits if_splits)
    qed (use "1.prems" n Some in \<open>simp add: receiver_recv.simps [of dec d]\<close>)
  qed (use "1.prems" n in \<open>simp add: receiver_recv.simps [of dec d]\<close>)
qed

text \<open>A reader that calls \<open>recv\<close> until it fails or has to wait: the messages and how it ended.\<close>

function receiver_run ::
  "prost_decoder \<Rightarrow> FrameDecoder \<Rightarrow> StreamRead list \<Rightarrow> ControlMsg list \<times> TransportError option" where
  "receiver_run dec d rs =
     (case receiver_recv dec d rs of
        (None, d', rs') \<Rightarrow> ([], None)
      | (Some (Inl e), d', rs') \<Rightarrow> ([], Some e)
      | (Some (Inr msg), d', rs') \<Rightarrow> (let (ms, e) = receiver_run dec d' rs' in (msg # ms, e)))"
  by pat_completeness auto
termination
  by (relation "measure (\<lambda>(dec, d, rs). pending d rs)") (auto intro: receiver_recv_shrinks [OF sym])

declare receiver_run.simps [simp del]

section \<open>Delivery\<close>

text \<open>A frame that the buffered bytes and the reads begin with is the next one, however it is cut.\<close>

lemma next_frame_delivers:
  assumes "fd_buf d @ concat cs = plain_wire p @ rest" "length p \<le> fd_max d" "fd_max d < 4294967296"
  obtains b cs' where "receiver_next_frame d (map ReadData cs @ rs) =
      (Some (Inr p), \<lparr>fd_buf = b, fd_max = fd_max d\<rparr>, map ReadData cs' @ rs)"
    "b @ concat cs' = rest"
  using assms
proof (induction cs arbitrary: d thesis)
  case Nil
  then show ?case
    using frame_next_whole [of p "fd_max d" rest] by (cases d) (simp add: receiver_next_frame.simps)
next
  case (Cons c cs)
  from Cons.prems(2) show ?case
  proof (cases rule: append_eq_cases)
    case (1 us)
    then show ?thesis
      using Cons.prems(1) [of us "c # cs"] frame_next_whole [of p "fd_max d" us] Cons.prems(3,4)
      by (cases d) (simp add: receiver_next_frame.simps)
  next
    case 2
    let ?d = "frame_decoder_extend d c"
    have n: "frame_decoder_next d = (Inr None, d)"
      using frame_next_partial [OF 2] Cons.prems(3,4) by (cases d) simp
    obtain b cs' where "receiver_next_frame ?d (map ReadData cs @ rs) =
        (Some (Inr p), \<lparr>fd_buf = b, fd_max = fd_max ?d\<rparr>, map ReadData cs' @ rs)" "b @ concat cs' = rest"
      using Cons.IH [of ?d] Cons.prems(2-4) by (auto simp: frame_decoder_extend_def)
    then show ?thesis
      using Cons.prems(1) n by (simp add: receiver_next_frame.simps [of d] frame_decoder_extend_def)
  qed
qed

text \<open>Nothing to deliver: the receiver waits for ever more reads.\<close>

lemma next_frame_waits:
  assumes "fd_buf d @ concat cs = []"
  shows "receiver_next_frame d (map ReadData cs) = (None, d, [])"
  using assms
proof (induction cs arbitrary: d)
  case (Cons c cs)
  then have "frame_decoder_next d = (Inr None, d)" "frame_decoder_extend d c = d"
    by (auto simp: frame_decoder_next_def frame_decoder_extend_def)
  then show ?case using Cons by (subst receiver_next_frame.simps) simp
qed (simp add: receiver_next_frame.simps frame_decoder_next_def)

text \<open>The messages a receiver makes of a list of frames: known ones in order, unknown ones skipped.\<close>

definition known_messages :: "prost_decoder \<Rightarrow> bytes list \<Rightarrow> ControlMsg list" where
  "known_messages dec ps = List.map_filter (\<lambda>p. case control_from_bytes dec p of Inr m \<Rightarrow> Some m | Inl _ \<Rightarrow> None) ps"

lemma known_messages_simps [simp]:
  "known_messages dec [] = []"
  "known_messages dec (p # ps) =
     (case control_from_bytes dec p of Inr m \<Rightarrow> m # known_messages dec ps | Inl _ \<Rightarrow> known_messages dec ps)"
  by (simp_all add: known_messages_def List.map_filter_def split: sum.splits)

lemma receiver_run_delivers:
  assumes "fd_buf d @ concat cs = concat (map plain_wire ps)" "fd_max d = MAX_CONTROL_FRAME"
    "\<forall>p\<in>set ps. length p \<le> MAX_CONTROL_FRAME \<and>
       (control_from_bytes dec p = Inl UnknownMessage \<or> (\<exists>m. control_from_bytes dec p = Inr m))"
  shows "receiver_run dec d (map ReadData cs) = (known_messages dec ps, None)"
  using assms
proof (induction ps arbitrary: d cs)
  case Nil
  then show ?case
    by (simp add: receiver_run.simps receiver_recv.simps next_frame_waits)
next
  case (Cons p ps)
  have "fd_max d < 4294967296" using Cons.prems by (simp add: MAX_CONTROL_FRAME_def)
  then obtain b cs' where n: "receiver_next_frame d (map ReadData cs) =
      (Some (Inr p), \<lparr>fd_buf = b, fd_max = fd_max d\<rparr>, map ReadData cs')" "b @ concat cs' = concat (map plain_wire ps)"
    using next_frame_delivers [of d cs p "concat (map plain_wire ps)" "[]"] Cons.prems by auto
  let ?d = "\<lparr>fd_buf = b, fd_max = fd_max d\<rparr>"
  have IH: "receiver_run dec ?d (map ReadData cs') = (known_messages dec ps, None)"
    using Cons.IH [of ?d cs'] Cons.prems n(2) by simp
  show ?case
  proof (cases "control_from_bytes dec p")
    case (Inl e)
    then have e: "control_from_bytes dec p = Inl UnknownMessage" using Cons.prems by auto
    have "receiver_recv dec d (map ReadData cs) = receiver_recv dec ?d (map ReadData cs')"
      using n(1) e by (simp add: receiver_recv.simps [of dec d])
    then have "receiver_run dec d (map ReadData cs) = receiver_run dec ?d (map ReadData cs')"
      by (simp add: receiver_run.simps [of dec d] receiver_run.simps [of dec ?d])
    then show ?thesis using IH e by simp
  next
    case (Inr m)
    then have "receiver_recv dec d (map ReadData cs) = (Some (Inr m), ?d, map ReadData cs')"
      using n(1) by (simp add: receiver_recv.simps [of dec d])
    then show ?thesis using IH Inr by (simp add: receiver_run.simps [of dec d])
  qed
qed

text \<open>What the two kinds of sender put on the stream: a message of this build, or a message of a newer one.\<close>

definition sent_frame :: "prost_encoder \<Rightarrow> ControlMsg + bytes \<Rightarrow> TransportError + bytes" where
  "sent_frame enc f = (case f of Inl m \<Rightarrow> control_send_quic enc m
     | Inr p \<Rightarrow> lift_protocol (encode_frame p MAX_CONTROL_FRAME []))"

definition frame_payload :: "prost_encoder \<Rightarrow> ControlMsg + bytes \<Rightarrow> bytes" where
  "frame_payload enc f = (case f of Inl m \<Rightarrow> control_to_bytes enc m | Inr p \<Rightarrow> p)"

lemma sent_frame_Inr:
  "sent_frame enc f = Inr w \<longleftrightarrow>
     length (frame_payload enc f) \<le> MAX_CONTROL_FRAME \<and> w = plain_wire (frame_payload enc f)"
  using encode_frames_Inr [of "[frame_payload enc f]" MAX_CONTROL_FRAME "[]" w]
  by (cases f) (auto simp: sent_frame_def frame_payload_def control_send_quic_def lift_protocol_def and_then_Inr
      split: sum.splits)

lemma sent_frames_wire:
  "list_all2 (\<lambda>f w. sent_frame enc f = Inr w) fs ws \<Longrightarrow>
     concat ws = concat (map plain_wire (map (frame_payload enc) fs)) \<and>
     (\<forall>p\<in>set (map (frame_payload enc) fs). length p \<le> MAX_CONTROL_FRAME)"
  by (induction fs ws rule: list_all2_induct) (auto simp: sent_frame_Inr)

lemma known_of_sent:
  assumes "\<forall>m. Inl m \<in> set fs \<longrightarrow> body m \<noteq> None \<and> dec (enc m) = Inr m"
    "\<forall>p. Inr p \<in> set fs \<longrightarrow> p \<noteq> [] \<and> (\<exists>m. dec p = Inr m \<and> body m = None)"
    "\<forall>p\<in>set (map (frame_payload enc) fs). length p \<le> MAX_CONTROL_FRAME"
  shows "known_messages dec (map (frame_payload enc) fs) = [m. Inl m \<leftarrow> fs] \<and>
    (\<forall>p\<in>set (map (frame_payload enc) fs).
       control_from_bytes dec p = Inl UnknownMessage \<or> (\<exists>m. control_from_bytes dec p = Inr m))"
  using assms
proof (induction fs)
  case (Cons f fs)
  show ?case
  proof (cases f)
    case (Inl m)
    then have "control_from_bytes dec (frame_payload enc f) = Inr m"
      using Cons.prems by (auto simp: control_from_bytes_Inr frame_payload_def control_to_bytes_def)
    then show ?thesis using Cons Inl by auto
  next
    case (Inr p)
    then have "control_from_bytes dec (frame_payload enc f) = Inl UnknownMessage"
      using Cons.prems by (auto simp: control_from_bytes_unknown frame_payload_def)
    then show ?thesis using Cons Inr by auto
  qed
qed simp

text \<open>C30: Control messages that were sent over a QUIC stream are received as the same messages in the same
  order, whatever pieces the stream delivers, and messages of a type only a newer build knows are skipped
  without disturbing the others; afterwards the receiver waits for more and reports no error. The
  hypotheses on the protobuf library are that it decodes what it encoded, and that it decodes a message of
  an unknown type to an envelope without a body.\<close>

theorem control_channel_delivers:
  assumes "\<forall>m. Inl m \<in> set fs \<longrightarrow> body m \<noteq> None \<and> dec (enc m) = Inr m"
    and "\<forall>p. Inr p \<in> set fs \<longrightarrow> p \<noteq> [] \<and> (\<exists>m. dec p = Inr m \<and> body m = None)"
    and "list_all2 (\<lambda>f w. sent_frame enc f = Inr w) fs ws" and "concat cs = concat ws"
  shows "receiver_run dec receiver_quic (map ReadData cs) = ([m. Inl m \<leftarrow> fs], None)"
  using receiver_run_delivers [of receiver_quic cs "map (frame_payload enc) fs" dec]
    sent_frames_wire [OF assms(3)] known_of_sent [OF assms(1,2)] assms(4)
  by (simp add: receiver_quic_def frame_decoder_new_def)

theorem control_channel_delivers_witness:
  "receiver_run (\<lambda>bs. Inr (if bs = [8, 5] then control_new 5 (BPairResult \<lparr>pair_accepted = True\<rparr>)
       else \<lparr>request_id = 1, body = None\<rparr>)) receiver_quic
     (map ReadData [[0, 0], [0, 3, 8], [1, 9, 0, 0, 0, 2, 8], [5]]) =
   ([control_new 5 (BPairResult \<lparr>pair_accepted = True\<rparr>)], None)"
proof -
  let ?m = "control_new 5 (BPairResult \<lparr>pair_accepted = True\<rparr>)"
  have "receiver_run (\<lambda>bs. Inr (if bs = [8, 5] then ?m else \<lparr>request_id = 1, body = None\<rparr>)) receiver_quic
     (map ReadData [[0, 0], [0, 3, 8], [1, 9, 0, 0, 0, 2, 8], [5]]) = ([m. Inl m \<leftarrow> [Inr [8 :: u8, 1, 9], Inl ?m]], None)"
    by (rule control_channel_delivers [where enc = "\<lambda>m. [8, 5]" and ws = "[[0, 0, 0, 3, 8, 1, 9], [0, 0, 0, 2, 8, 5]]"])
      (auto simp: sent_frame_Inr frame_payload_def control_to_bytes_def MAX_CONTROL_FRAME_def plain_wire_def
        put_u32_def be_encode_numeral)
  then show ?thesis by simp
qed

end
