(* ===== verification/Rust_Maps.thy ===== *)
theory Rust_Maps
  imports Prelude "HOL-Library.AList"
begin

text \<open>
  The two map types of the Rust standard library the core uses. A \<open>HashMap\<close> is an association
  list with distinct keys: the list is one possible iteration order, and nothing is claimed about
  which one. A \<open>BTreeMap\<close> is a list in strictly ascending key order. Both are instances of the
  interface \<open>keyed_table\<close>, whose laws (what a lookup returns after an insertion or a removal, how
  the size changes) are what the bounded tables of the engine rely on.
\<close>

section \<open>The interface\<close>

locale keyed_table =
  fixes wf :: "'t \<Rightarrow> bool"
    and lookup :: "'t \<Rightarrow> 'k \<Rightarrow> 'v option"
    and insert_entry :: "'k \<Rightarrow> 'v \<Rightarrow> 't \<Rightarrow> 't"
    and remove_entry :: "'k \<Rightarrow> 't \<Rightarrow> 't"
    and entry_count :: "'t \<Rightarrow> nat"
  assumes wf_insert: "wf t \<Longrightarrow> wf (insert_entry k v t)"
    and wf_remove: "wf t \<Longrightarrow> wf (remove_entry k t)"
    and lookup_insert:
      "wf t \<Longrightarrow> lookup (insert_entry k v t) k' = (if k' = k then Some v else lookup t k')"
    and lookup_remove:
      "wf t \<Longrightarrow> lookup (remove_entry k t) k' = (if k' = k then None else lookup t k')"
    and count_insert:
      "wf t \<Longrightarrow> entry_count (insert_entry k v t) =
         (if lookup t k = None then Suc (entry_count t) else entry_count t)"
    and count_remove:
      "wf t \<Longrightarrow> entry_count (remove_entry k t) =
         (if lookup t k = None then entry_count t else entry_count t - 1)"
begin

text \<open>A table that makes room before a new key never holds more than \<open>cap\<close> entries.\<close>

lemma insert_with_room:
  assumes "wf t" "entry_count t \<le> cap" "lookup t k = None \<Longrightarrow> entry_count t < cap"
  shows "entry_count (insert_entry k v t) \<le> cap"
  using assms by (auto simp: count_insert)

lemma evict_then_insert:
  assumes "wf t" "entry_count t \<le> cap" "0 < cap" "lookup t old \<noteq> None"
  shows "entry_count (insert_entry k v (remove_entry old t)) \<le> cap"
  using assms by (auto simp: count_insert count_remove wf_remove)

lemma insert_same_key_twice:
  "wf t \<Longrightarrow> lookup (insert_entry k v' (insert_entry k v t)) = lookup (insert_entry k v' t)"
  by (rule ext) (simp add: lookup_insert wf_insert)

lemma remove_after_insert:
  "wf t \<Longrightarrow> lookup t k = None \<Longrightarrow> lookup (remove_entry k (insert_entry k v t)) = lookup t"
  by (rule ext) (simp add: lookup_insert lookup_remove wf_insert)

end

section \<open>HashMap\<close>

type_synonym ('k, 'v) hmap = "('k \<times> 'v) list"

abbreviation hm_wf :: "('k, 'v) hmap \<Rightarrow> bool" where
  "hm_wf t \<equiv> distinct (map fst t)"

abbreviation hm_contains :: "('k, 'v) hmap \<Rightarrow> 'k \<Rightarrow> bool" where
  "hm_contains t k \<equiv> map_of t k \<noteq> None"

definition hm_retain :: "('k \<Rightarrow> 'v \<Rightarrow> bool) \<Rightarrow> ('k, 'v) hmap \<Rightarrow> ('k, 'v) hmap" where
  "hm_retain keep t = filter (\<lambda>(k, v). keep k v) t"

text \<open>\<open>Iterator::min_by_key\<close>: the first entry whose measure is least.\<close>

fun min_by_key :: "('a \<Rightarrow> 'b::linorder) \<Rightarrow> 'a list \<Rightarrow> 'a option" where
  "min_by_key f [] = None"
| "min_by_key f (x # xs) =
     (case min_by_key f xs of
        None \<Rightarrow> Some x
      | Some y \<Rightarrow> if f y < f x then Some y else Some x)"

lemma length_update:
  "length (AList.update k v t) = (if map_of t k = None then Suc (length t) else length t)"
  by (induction t) auto

lemma delete_absent: "map_of t k = None \<Longrightarrow> AList.delete k t = t"
  by (induction t) (auto split: if_splits)

lemma length_delete:
  "hm_wf t \<Longrightarrow> length (AList.delete k t) = (if map_of t k = None then length t else length t - 1)"
proof (induction t)
  case (Cons e t)
  show ?case
  proof (cases "fst e = k")
    case True
    then have "map_of t k = None" using Cons.prems by (auto simp: map_of_eq_None_iff)
    then show ?thesis using True by (cases e) (simp add: delete_absent)
  next
    case False
    moreover have "length t \<noteq> 0" if "map_of t k \<noteq> None" using that by auto
    ultimately show ?thesis using Cons by (cases e) auto
  qed
qed simp

interpretation hash_map: keyed_table hm_wf map_of AList.update AList.delete length
  by unfold_locales
    (auto simp: distinct_update distinct_delete update_conv' delete_conv' length_update
        length_delete map_of_eq_None_iff)

lemma hm_retain_wf [simp]: "hm_wf t \<Longrightarrow> hm_wf (hm_retain keep t)"
  by (auto simp: hm_retain_def distinct_map intro: inj_on_subset)

lemma length_retain: "length (hm_retain keep t) \<le> length t"
  by (simp add: hm_retain_def)

lemma map_of_retain [map_simps]:
  "hm_wf t \<Longrightarrow> map_of (hm_retain keep t) k =
     (case map_of t k of None \<Rightarrow> None | Some v \<Rightarrow> if keep k v then Some v else None)"
proof (induction t)
  case (Cons e t)
  moreover have "fst e = k \<Longrightarrow> map_of t k = None"
    using Cons.prems by (auto simp: map_of_eq_None_iff)
  ultimately show ?case by (cases e) (auto simp: hm_retain_def split: option.splits)
qed (simp add: hm_retain_def)

lemma retain_all: "(\<And>k v. (k, v) \<in> set t \<Longrightarrow> keep k v) \<Longrightarrow> hm_retain keep t = t"
  by (auto simp: hm_retain_def intro!: filter_True)

lemma min_by_key_None [simp]: "min_by_key f xs = None \<longleftrightarrow> xs = []"
  by (cases xs) (auto split: option.splits)

lemma min_by_key_Some:
  "min_by_key f xs = Some x \<Longrightarrow> x \<in> set xs \<and> (\<forall>y\<in>set xs. f x \<le> f y)"
proof (induction xs arbitrary: x)
  case (Cons a xs)
  show ?case
  proof (cases "min_by_key f xs")
    case None
    then show ?thesis using Cons.prems by auto
  next
    case (Some y)
    then show ?thesis using Cons.IH [OF Some] Cons.prems
      by (auto split: if_splits intro: order.trans)
  qed
qed simp

text \<open>The map a table stands for, restricted by \<open>retain\<close>, updated and evicted.\<close>

lemmas hm_lookup_simps [map_simps] = update_conv' delete_conv'

section \<open>BTreeMap\<close>

type_synonym ('k, 'v) bmap = "('k \<times> 'v) list"

abbreviation bm_wf :: "('k::linorder, 'v) bmap \<Rightarrow> bool" where
  "bm_wf t \<equiv> sorted_wrt (<) (map fst t)"

fun bm_insert :: "'k::linorder \<Rightarrow> 'v \<Rightarrow> ('k, 'v) bmap \<Rightarrow> ('k, 'v) bmap" where
  "bm_insert k v [] = [(k, v)]"
| "bm_insert k v ((k', v') # t) =
     (if k < k' then (k, v) # (k', v') # t
      else if k = k' then (k, v) # t
      else (k', v') # bm_insert k v t)"

lemma bm_wf_distinct: "bm_wf t \<Longrightarrow> distinct (map fst t)"
  by (simp add: strict_sorted_iff)

lemma keys_bm_insert [simp]: "set (map fst (bm_insert k v t)) = insert k (set (map fst t))"
  by (induction k v t rule: bm_insert.induct) auto

lemma set_bm_insert: "bm_wf t \<Longrightarrow> set (bm_insert k v t) = insert (k, v) {e \<in> set t. fst e \<noteq> k}"
  by (induction k v t rule: bm_insert.induct) auto

lemma bm_insert_wf: "bm_wf t \<Longrightarrow> bm_wf (bm_insert k v t)"
proof (induction k v t rule: bm_insert.induct)
  case (2 k v k' v' t)
  have "\<forall>x\<in>set (map fst (bm_insert k v t)). k' < x" if "k' < k"
    using that 2 unfolding keys_bm_insert by auto
  then show ?case using 2 by auto
qed simp

lemma bm_remove_wf: "bm_wf t \<Longrightarrow> bm_wf (AList.delete k t)"
  by (induction t) (auto simp: delete_keys)

lemma map_of_bm_insert:
  "bm_wf t \<Longrightarrow> map_of (bm_insert k v t) k' = (if k' = k then Some v else map_of t k')"
  by (induction t) auto

lemma bm_not_before: "bm_wf ((k', v') # t) \<Longrightarrow> k < k' \<Longrightarrow> map_of t k = None"
  by (fastforce simp: map_of_eq_None_iff)

lemma length_bm_insert:
  "bm_wf t \<Longrightarrow> length (bm_insert k v t) = (if map_of t k = None then Suc (length t) else length t)"
proof (induction t)
  case (Cons e t)
  then show ?case using bm_not_before [of "fst e" "snd e" t k] by (cases e) auto
qed simp

interpretation btree_map: keyed_table bm_wf map_of bm_insert AList.delete length
  by unfold_locales
    (auto simp: bm_insert_wf bm_remove_wf map_of_bm_insert delete_conv' length_bm_insert
        length_delete bm_wf_distinct map_of_eq_None_iff)

end
