(* ===== verification/Jitter_Buffer.thy ===== *)
theory Jitter_Buffer
  imports Complex_Main Rust_Maps
begin

text \<open>
  The adaptive jitter buffer (\<open>sp-media/src/jitter.rs\<close>). Timestamps and sample counts are the
  code's u64 as naturals, with every saturating operation written out and every plain one reduced
  modulo \<open>2^64\<close>, as a release build does. The frames are a \<open>BTreeMap\<close> from sender timestamps, an
  empty frame being a DTX marker. Samples are of any type with a zero. The smoothed jitter is only
  reported in the statistics; it is a rational, with the rounding \<open>fl\<close> of the floating point unit
  as an argument.
\<close>

section \<open>Rates\<close>

definition SAMPLE_RATE :: nat where
  "SAMPLE_RATE = 48000"

definition samples_per_frame :: "nat \<Rightarrow> nat" where
  "samples_per_frame frame_us = SAMPLE_RATE * frame_us div 1000000"

definition ms_to_samples :: "nat \<Rightarrow> nat" where
  "ms_to_samples ms = SAMPLE_RATE * ms div 1000"

section \<open>State\<close>

record JitterConfig =
  jc_channels :: nat
  jc_frame_samples :: nat
  jc_min_delay_ms :: nat
  jc_max_delay_ms :: nat

datatype PopStatus = Played | Missing | Buffering | Silence

record JitterStats =
  js_received :: nat
  js_played :: nat
  js_missing :: nat
  js_late :: nat
  js_underruns :: nat
  js_silent :: nat

record 's JitterBuffer =
  jb_cfg :: JitterConfig
  jb_frames :: "(nat, 's list) bmap"
  jb_play_ts :: "nat option"
  jb_newest_end_ts :: nat
  jb_buffering :: bool
  jb_silent :: bool
  jb_consecutive_missing :: nat
  jb_target_samples :: nat
  jb_last_transit :: "int option"
  jb_jitter_samples :: rat
  jb_deviations :: "nat list"
  jb_dev_cursor :: nat
  jb_stats :: JitterStats

definition JITTER_WINDOW :: nat where
  "JITTER_WINDOW = 512"

definition MAX_CONCEAL_FRAMES :: nat where
  "MAX_CONCEAL_FRAMES = 5"

definition MAX_FRAMES :: nat where
  "MAX_FRAMES = 1024"

text \<open>Counters are u64 and u32.\<close>

definition inc64 :: "nat \<Rightarrow> nat" where
  "inc64 n = (n + 1) mod 2 ^ 64"

definition inc32 :: "nat \<Rightarrow> nat" where
  "inc32 n = (n + 1) mod 2 ^ 32"

definition jitter_new :: "JitterConfig \<Rightarrow> 's JitterBuffer" where
  "jitter_new cfg =
     \<lparr>jb_cfg = cfg, jb_frames = [], jb_play_ts = None, jb_newest_end_ts = 0, jb_buffering = True,
      jb_silent = False, jb_consecutive_missing = 0,
      jb_target_samples = max (ms_to_samples (jc_min_delay_ms cfg)) (jc_frame_samples cfg),
      jb_last_transit = None, jb_jitter_samples = 0, jb_deviations = [], jb_dev_cursor = 0,
      jb_stats = \<lparr>js_received = 0, js_played = 0, js_missing = 0, js_late = 0, js_underruns = 0,
                  js_silent = 0\<rparr>\<rparr>"

section \<open>Operations\<close>

definition target_min :: "JitterConfig \<Rightarrow> nat" where
  "target_min cfg = max (ms_to_samples (jc_min_delay_ms cfg)) (jc_frame_samples cfg)"

definition target_max :: "JitterConfig \<Rightarrow> nat" where
  "target_max cfg = max (ms_to_samples (jc_max_delay_ms cfg)) (target_min cfg)"

definition clamp_target :: "JitterConfig \<Rightarrow> nat \<Rightarrow> nat" where
  "clamp_target cfg samples = clamp samples (target_min cfg) (target_max cfg)"

definition set_bounds :: "nat \<Rightarrow> nat \<Rightarrow> 's JitterBuffer \<Rightarrow> 's JitterBuffer" where
  "set_bounds min_delay_ms max_delay_ms jb =
     (let cfg = (jb_cfg jb)\<lparr>jc_min_delay_ms := min_delay_ms,
                            jc_max_delay_ms := max max_delay_ms min_delay_ms\<rparr>
      in jb\<lparr>jb_cfg := cfg, jb_target_samples := clamp_target cfg (jb_target_samples jb)\<rparr>)"

text \<open>\<open>as i64\<close> and the wrapping subtractions: the representative of a class modulo \<open>2^64\<close>.\<close>

definition to_i64 :: "int \<Rightarrow> int" where
  "to_i64 x = (x + 2 ^ 63) mod 2 ^ 64 - 2 ^ 63"

definition update_jitter :: "(rat \<Rightarrow> rat) \<Rightarrow> nat \<Rightarrow> nat \<Rightarrow> 's JitterBuffer \<Rightarrow> 's JitterBuffer" where
  "update_jitter fl sender_ts arrival jb =
     (let transit = to_i64 (to_i64 (int arrival) - to_i64 (int sender_ts));
          jb' = (case jb_last_transit jb of
                   None \<Rightarrow> jb
                 | Some prev \<Rightarrow>
                     (let d = nat \<bar>to_i64 (transit - prev)\<bar>;
                          j = jb_jitter_samples jb;
                          d32 = min d u32_max
                      in jb\<lparr>jb_jitter_samples := fl (j + fl (fl (fl (of_nat d) - j) / 16)),
                            jb_deviations :=
                              (if length (jb_deviations jb) < JITTER_WINDOW
                               then jb_deviations jb @ [d32]
                               else (jb_deviations jb)[jb_dev_cursor jb := d32]),
                            jb_dev_cursor :=
                              (if length (jb_deviations jb) < JITTER_WINDOW then jb_dev_cursor jb
                               else (jb_dev_cursor jb + 1) mod JITTER_WINDOW)\<rparr>))
      in jb'\<lparr>jb_last_transit := Some transit\<rparr>)"

definition frame_len :: "JitterConfig \<Rightarrow> 's list \<Rightarrow> nat" where
  "frame_len cfg samples = length samples div max (jc_channels cfg) 1"

text \<open>The second half of \<open>push\<close>: jump forward when far too much is buffered.\<close>

definition jump_limit :: "JitterConfig \<Rightarrow> nat" where
  "jump_limit cfg = ms_to_samples (jc_max_delay_ms cfg) + ms_to_samples 200"

definition jump_forward :: "'s JitterBuffer \<Rightarrow> 's JitterBuffer" where
  "jump_forward jb =
     (case jb_play_ts jb of
        None \<Rightarrow> jb
      | Some play \<Rightarrow>
          if jump_limit (jb_cfg jb) < jb_newest_end_ts jb - play then
            (let new_play = jb_newest_end_ts jb - jb_target_samples jb;
                 kept = filter (\<lambda>(ts, _). new_play \<le> ts) (jb_frames jb)
             in jb\<lparr>jb_frames := kept,
                   jb_play_ts := (case kept of [] \<Rightarrow> None | (ts, _) # _ \<Rightarrow> Some ts)\<rparr>)
          else jb)"

definition add_late :: "nat \<Rightarrow> JitterStats \<Rightarrow> JitterStats" where
  "add_late n s = s\<lparr>js_late := (js_late s + n) mod 2 ^ 64\<rparr>"

definition jitter_push :: "(rat \<Rightarrow> rat) \<Rightarrow> nat \<Rightarrow> 's list \<Rightarrow> nat \<Rightarrow> 's JitterBuffer \<Rightarrow> 's JitterBuffer" where
  "jitter_push fl sender_ts samples arrival_samples jb0 =
     (let jb1 = update_jitter fl sender_ts arrival_samples
                  (jb0\<lparr>jb_stats := (jb_stats jb0)\<lparr>js_received := inc64 (js_received (jb_stats jb0))\<rparr>\<rparr>)
      in if (case jb_play_ts jb1 of Some play \<Rightarrow> sender_ts < play | None \<Rightarrow> False)
         then jb1\<lparr>jb_stats := add_late 1 (jb_stats jb1)\<rparr>
         else
           (let frames = bm_insert sender_ts samples (jb_frames jb1);
                excess = length frames - MAX_FRAMES
            in jump_forward
                 (jb1\<lparr>jb_newest_end_ts := max (jb_newest_end_ts jb1)
                                             (sat_add64 sender_ts (frame_len (jb_cfg jb1) samples)),
                      jb_frames := drop excess frames,
                      jb_stats := add_late excess (jb_stats jb1)\<rparr>)))"

definition push_silence :: "(rat \<Rightarrow> rat) \<Rightarrow> nat \<Rightarrow> nat \<Rightarrow> 's JitterBuffer \<Rightarrow> 's JitterBuffer" where
  "push_silence fl sender_ts arrival_samples jb = jitter_push fl sender_ts [] arrival_samples jb"

definition jitter_has :: "nat \<Rightarrow> 's JitterBuffer \<Rightarrow> bool" where
  "jitter_has ts jb \<longleftrightarrow>
     map_of (jb_frames jb) ts \<noteq> None \<or> (case jb_play_ts jb of Some p \<Rightarrow> ts < p | None \<Rightarrow> False)"

definition first_key :: "('k \<times> 'v) list \<Rightarrow> 'k option" where
  "first_key t = (case t of [] \<Rightarrow> None | (k, _) # _ \<Rightarrow> Some k)"

definition buffered_samples :: "'s JitterBuffer \<Rightarrow> nat" where
  "buffered_samples jb = (case jb_play_ts jb of
       Some play \<Rightarrow> jb_newest_end_ts jb - play
     | None \<Rightarrow> (case first_key (jb_frames jb) of
                 None \<Rightarrow> 0
               | Some k \<Rightarrow> jb_newest_end_ts jb - k))"

definition fill_zero :: "'s::zero list \<Rightarrow> 's list" where
  "fill_zero out = replicate (length out) 0"

definition play_silence ::
  "nat \<Rightarrow> nat \<Rightarrow> 's::zero list \<Rightarrow> 's JitterBuffer \<Rightarrow> PopStatus \<times> 's list \<times> 's JitterBuffer" where
  "play_silence play adv out jb =
     (Silence, fill_zero out,
      jb\<lparr>jb_play_ts := Some (sat_add64 play adv), jb_consecutive_missing := 0,
         jb_stats := (jb_stats jb)\<lparr>js_silent := inc64 (js_silent (jb_stats jb))\<rparr>\<rparr>)"

text \<open>A frame that is not there: hold the position, rebuffer after an underrun, or skip it.\<close>

definition pop_missing ::
  "nat \<Rightarrow> 's::zero list \<Rightarrow> 's JitterBuffer \<Rightarrow> PopStatus \<times> 's list \<times> 's JitterBuffer" where
  "pop_missing play out jb0 =
     (let adv = jc_frame_samples (jb_cfg jb0);
          jb = jb0\<lparr>jb_stats := (jb_stats jb0)\<lparr>js_missing := inc64 (js_missing (jb_stats jb0))\<rparr>,
                   jb_consecutive_missing := inc32 (jb_consecutive_missing jb0)\<rparr>;
          have_future = (jb_frames jb \<noteq> [])
      in if (buffered_samples jb + adv) mod 2 ^ 64 \<le> jb_target_samples jb
            \<and> jb_consecutive_missing jb \<le> MAX_CONCEAL_FRAMES
         then (Missing, out, jb)
         else if \<not> have_future \<and> MAX_CONCEAL_FRAMES < jb_consecutive_missing jb
         then (Buffering, fill_zero out,
               jb\<lparr>jb_stats := (jb_stats jb)\<lparr>js_underruns := inc64 (js_underruns (jb_stats jb))\<rparr>,
                  jb_target_samples :=
                    clamp_target (jb_cfg jb) (sat_add64 (jb_target_samples jb) (2 * adv mod 2 ^ 64)),
                  jb_buffering := True, jb_play_ts := None, jb_consecutive_missing := 0\<rparr>)
         else (Missing, out, jb\<lparr>jb_play_ts := Some (sat_add64 play adv)\<rparr>))"

text \<open>One output frame from position \<open>play\<close>, after what is older has been dropped.\<close>

definition pop_at ::
  "nat \<Rightarrow> 's::zero list \<Rightarrow> 's JitterBuffer \<Rightarrow> PopStatus \<times> 's list \<times> 's JitterBuffer" where
  "pop_at play out jb =
     (let adv = jc_frame_samples (jb_cfg jb)
      in case map_of (jb_frames jb) play of
           Some frame \<Rightarrow>
             (let jb1 = jb\<lparr>jb_frames := AList.delete play (jb_frames jb)\<rparr>
              in if frame = [] then play_silence play adv out (jb1\<lparr>jb_silent := True\<rparr>)
                 else
                   (let n = min (length frame) (length out)
                    in (Played, take n frame @ replicate (length out - n) 0,
                        jb1\<lparr>jb_silent := False,
                            jb_play_ts := Some (sat_add64 play (frame_len (jb_cfg jb) frame)),
                            jb_consecutive_missing := 0,
                            jb_stats := (jb_stats jb)\<lparr>js_played := inc64 (js_played (jb_stats jb))\<rparr>\<rparr>)))
         | None \<Rightarrow>
             if jb_silent jb then play_silence play adv out jb else pop_missing play out jb)"

definition drop_older :: "nat \<Rightarrow> 's JitterBuffer \<Rightarrow> 's JitterBuffer" where
  "drop_older play jb =
     jb\<lparr>jb_frames := dropWhile (\<lambda>(ts, _). ts < play) (jb_frames jb),
        jb_stats := add_late
          (length (filter (\<lambda>(_, f). f \<noteq> []) (takeWhile (\<lambda>(ts, _). ts < play) (jb_frames jb))))
          (jb_stats jb)\<rparr>"

definition jitter_pop ::
  "'s::zero list \<Rightarrow> 's JitterBuffer \<Rightarrow> PopStatus \<times> 's list \<times> 's JitterBuffer" where
  "jitter_pop out jb =
     (if jb_buffering jb \<and> (buffered_samples jb < jb_target_samples jb \<or> jb_frames jb = [])
      then (Buffering, fill_zero out, jb)
      else
        (let jb1 = (if jb_buffering jb
                    then jb\<lparr>jb_buffering := False,
                            jb_play_ts := (case jb_play_ts jb of
                                             None \<Rightarrow> first_key (jb_frames jb) | Some p \<Rightarrow> Some p)\<rparr>
                    else jb)
         in case jb_play_ts jb1 of
              None \<Rightarrow> (Buffering, fill_zero out, jb1)
            | Some play \<Rightarrow> pop_at play out (drop_older play jb1)))"

definition percentile_deviation :: "nat list \<Rightarrow> nat" where
  "percentile_deviation devs =
     (if devs = [] then 0
      else (let s = sort devs; idx = (98 * (length s - 1) + 50) div 100
            in s ! min idx (length s - 1)))"

definition needed_samples :: "'s JitterBuffer \<Rightarrow> nat" where
  "needed_samples jb =
     clamp_target (jb_cfg jb)
       (sat_add64 (min (percentile_deviation (jb_deviations jb) * 2) u64_max) (jc_frame_samples (jb_cfg jb)))"

definition adapt :: "'s JitterBuffer \<Rightarrow> 's JitterBuffer" where
  "adapt jb =
     (let needed = needed_samples jb
      in if jb_target_samples jb < needed then jb\<lparr>jb_target_samples := needed\<rparr>
         else jb\<lparr>jb_target_samples :=
                   clamp_target (jb_cfg jb) (max (jb_target_samples jb - ms_to_samples 1) needed)\<rparr>)"

definition jitter_reset :: "'s JitterBuffer \<Rightarrow> 's JitterBuffer" where
  "jitter_reset jb =
     jb\<lparr>jb_frames := [], jb_play_ts := None, jb_newest_end_ts := 0, jb_buffering := True,
        jb_silent := False, jb_consecutive_missing := 0, jb_last_transit := None\<rparr>"

section \<open>Sequences of operations\<close>

datatype 's jitter_op =
    Push nat "'s list" nat
  | PushSilence nat nat
  | Pop "'s list"
  | Adapt
  | SetBounds nat nat
  | Reset

fun jitter_step :: "(rat \<Rightarrow> rat) \<Rightarrow> 's::zero jitter_op \<Rightarrow> 's JitterBuffer \<Rightarrow> PopStatus option \<times> 's JitterBuffer" where
  "jitter_step fl (Push ts samples arrival) jb = (None, jitter_push fl ts samples arrival jb)"
| "jitter_step fl (PushSilence ts arrival) jb = (None, push_silence fl ts arrival jb)"
| "jitter_step fl (Pop out) jb = (let (st, _, jb') = jitter_pop out jb in (Some st, jb'))"
| "jitter_step fl Adapt jb = (None, adapt jb)"
| "jitter_step fl (SetBounds lo hi) jb = (None, set_bounds lo hi jb)"
| "jitter_step fl Reset jb = (None, jitter_reset jb)"

section \<open>Well-formed buffers\<close>

definition jitter_wf :: "'s JitterBuffer \<Rightarrow> bool" where
  "jitter_wf jb \<longleftrightarrow>
     bm_wf (jb_frames jb) \<and> length (jb_frames jb) \<le> MAX_FRAMES \<and>
     target_min (jb_cfg jb) \<le> jb_target_samples jb \<and> jb_target_samples jb \<le> target_max (jb_cfg jb) \<and>
     length (jb_deviations jb) \<le> JITTER_WINDOW \<and> jb_dev_cursor jb < JITTER_WINDOW \<and>
     (jb_buffering jb \<longrightarrow> jb_play_ts jb = None)"

lemma target_bounds: "target_min cfg \<le> clamp_target cfg x \<and> clamp_target cfg x \<le> target_max cfg"
  unfolding clamp_target_def by (rule clamp_bounds) (simp add: target_max_def)

lemma update_jitter_fields [simp]:
  "jb_cfg (update_jitter fl t a jb) = jb_cfg jb"
  "jb_frames (update_jitter fl t a jb) = jb_frames jb"
  "jb_play_ts (update_jitter fl t a jb) = jb_play_ts jb"
  "jb_newest_end_ts (update_jitter fl t a jb) = jb_newest_end_ts jb"
  "jb_buffering (update_jitter fl t a jb) = jb_buffering jb"
  "jb_silent (update_jitter fl t a jb) = jb_silent jb"
  "jb_target_samples (update_jitter fl t a jb) = jb_target_samples jb"
  by (simp_all add: update_jitter_def Let_def split: option.split)

lemma update_jitter_window:
  "length (jb_deviations jb) \<le> JITTER_WINDOW \<Longrightarrow> jb_dev_cursor jb < JITTER_WINDOW \<Longrightarrow>
     length (jb_deviations (update_jitter fl t a jb)) \<le> JITTER_WINDOW
     \<and> jb_dev_cursor (update_jitter fl t a jb) < JITTER_WINDOW"
  by (auto simp: update_jitter_def Let_def split: option.split)

lemma jump_forward_fields [simp]:
  "jb_cfg (jump_forward jb) = jb_cfg jb" "jb_newest_end_ts (jump_forward jb) = jb_newest_end_ts jb"
  "jb_buffering (jump_forward jb) = jb_buffering jb" "jb_silent (jump_forward jb) = jb_silent jb"
  "jb_target_samples (jump_forward jb) = jb_target_samples jb"
  "jb_deviations (jump_forward jb) = jb_deviations jb" "jb_dev_cursor (jump_forward jb) = jb_dev_cursor jb"
  by (simp_all add: jump_forward_def Let_def split: option.split)

lemma bm_wf_filter: "bm_wf t \<Longrightarrow> bm_wf (filter P t)"
  by (simp add: sorted_wrt_map sorted_wrt_filter)

lemma bm_wf_drop: "bm_wf t \<Longrightarrow> bm_wf (drop n t)"
  by (simp add: sorted_wrt_drop flip: drop_map)

lemma bm_wf_dropWhile: "bm_wf t \<Longrightarrow> bm_wf (dropWhile P t)"
  by (metis bm_wf_drop dropWhile_eq_drop)

lemma jump_forward_wf: "jitter_wf jb \<Longrightarrow> jitter_wf (jump_forward jb)"
  by (auto simp: jitter_wf_def jump_forward_def Let_def bm_wf_filter
      intro: order.trans [OF length_filter_le] split: option.splits)

text \<open>The accepted and the late case of a push, as seen by the fields the timeline depends on.\<close>

lemma push_late:
  assumes "jb_play_ts jb = Some p" "ts < p"
  shows "jb_cfg (jitter_push fl ts samples a jb) = jb_cfg jb"
    "jb_frames (jitter_push fl ts samples a jb) = jb_frames jb"
    "jb_play_ts (jitter_push fl ts samples a jb) = jb_play_ts jb"
    "jb_newest_end_ts (jitter_push fl ts samples a jb) = jb_newest_end_ts jb"
    "jb_buffering (jitter_push fl ts samples a jb) = jb_buffering jb"
    "jb_target_samples (jitter_push fl ts samples a jb) = jb_target_samples jb"
  using assms by (simp_all add: jitter_push_def Let_def)

lemma push_accepted:
  assumes "\<And>p. jb_play_ts jb = Some p \<Longrightarrow> p \<le> ts"
  obtains jb' where "jitter_push fl ts samples a jb = jump_forward jb'"
    "jb_cfg jb' = jb_cfg jb" "jb_play_ts jb' = jb_play_ts jb" "jb_buffering jb' = jb_buffering jb"
    "jb_target_samples jb' = jb_target_samples jb"
    "jb_newest_end_ts jb' = max (jb_newest_end_ts jb) (sat_add64 ts (frame_len (jb_cfg jb) samples))"
    "jb_frames jb' = drop (length (bm_insert ts samples (jb_frames jb)) - MAX_FRAMES)
                       (bm_insert ts samples (jb_frames jb))"
    "length (jb_deviations jb) \<le> JITTER_WINDOW \<Longrightarrow> jb_dev_cursor jb < JITTER_WINDOW \<Longrightarrow>
       length (jb_deviations jb') \<le> JITTER_WINDOW \<and> jb_dev_cursor jb' < JITTER_WINDOW"
proof -
  let ?jb1 = "update_jitter fl ts a
                  (jb\<lparr>jb_stats := (jb_stats jb)\<lparr>js_received := inc64 (js_received (jb_stats jb))\<rparr>\<rparr>)"
  let ?f = "bm_insert ts samples (jb_frames jb)"
  define jb' where "jb' = ?jb1\<lparr>jb_newest_end_ts := max (jb_newest_end_ts jb)
        (sat_add64 ts (frame_len (jb_cfg jb) samples)),
      jb_frames := drop (length ?f - MAX_FRAMES) ?f,
      jb_stats := add_late (length ?f - MAX_FRAMES) (jb_stats ?jb1)\<rparr>"
  have "\<not> (case jb_play_ts jb of Some play \<Rightarrow> ts < play | None \<Rightarrow> False)"
    using assms by (auto split: option.split simp: not_less)
  then have "jitter_push fl ts samples a jb = jump_forward jb'"
    by (simp add: jitter_push_def Let_def jb'_def)
  then show thesis
    by (rule that) (use update_jitter_window [of "jb\<lparr>jb_stats := _\<rparr>"] in \<open>simp_all add: jb'_def\<close>)
qed

lemma push_wf:
  assumes wf: "jitter_wf jb" shows "jitter_wf (jitter_push fl ts samples a jb)"
proof (cases "\<exists>p. jb_play_ts jb = Some p \<and> ts < p")
  case True
  then obtain p where p: "jb_play_ts jb = Some p" "ts < p" by blast
  have "length (jb_deviations (jitter_push fl ts samples a jb)) \<le> JITTER_WINDOW \<and>
        jb_dev_cursor (jitter_push fl ts samples a jb) < JITTER_WINDOW"
    using p wf update_jitter_window [of "jb\<lparr>jb_stats := _\<rparr>" fl ts a]
    by (simp add: jitter_push_def Let_def jitter_wf_def)
  then show ?thesis using wf push_late [OF p] by (simp add: jitter_wf_def)
next
  case False
  then obtain jb' where jb': "jitter_push fl ts samples a jb = jump_forward jb'"
    "jb_cfg jb' = jb_cfg jb" "jb_play_ts jb' = jb_play_ts jb" "jb_buffering jb' = jb_buffering jb"
    "jb_target_samples jb' = jb_target_samples jb"
    "jb_frames jb' = drop (length (bm_insert ts samples (jb_frames jb)) - MAX_FRAMES)
                       (bm_insert ts samples (jb_frames jb))"
    "length (jb_deviations jb) \<le> JITTER_WINDOW \<Longrightarrow> jb_dev_cursor jb < JITTER_WINDOW \<Longrightarrow>
       length (jb_deviations jb') \<le> JITTER_WINDOW \<and> jb_dev_cursor jb' < JITTER_WINDOW"
    using push_accepted [of jb ts fl samples a] by (metis not_le)
  have "jitter_wf jb'"
    using wf jb'(2-7) by (simp add: jitter_wf_def bm_wf_drop bm_insert_wf)
  then show ?thesis unfolding jb'(1) by (rule jump_forward_wf)
qed

lemma wf_simple_ops:
  "jitter_wf jb \<Longrightarrow> jitter_wf (set_bounds lo hi jb)"
  "jitter_wf jb \<Longrightarrow> jitter_wf (adapt jb)"
  "jitter_wf jb \<Longrightarrow> jitter_wf (jitter_reset jb)"
  using target_bounds
  by (auto simp: jitter_wf_def set_bounds_def adapt_def jitter_reset_def needed_samples_def Let_def)

lemma pop_missing_wf: "jitter_wf jb \<Longrightarrow> \<not> jb_buffering jb \<Longrightarrow> jitter_wf (snd (snd (pop_missing p out jb)))"
  using target_bounds by (auto simp: jitter_wf_def pop_missing_def Let_def)

lemma pop_at_wf:
  assumes wf: "jitter_wf jb" and b: "\<not> jb_buffering jb"
  shows "jitter_wf (snd (snd (pop_at p out jb)))"
proof (cases "map_of (jb_frames jb) p")
  case None
  then show ?thesis using assms pop_missing_wf [OF assms]
    by (auto simp: pop_at_def play_silence_def jitter_wf_def)
next
  case (Some frame)
  have "bm_wf (AList.delete p (jb_frames jb))" "length (AList.delete p (jb_frames jb)) \<le> MAX_FRAMES"
    using wf length_delete_le [of p "jb_frames jb"] by (auto simp: jitter_wf_def bm_remove_wf)
  then show ?thesis using Some wf b
    by (auto simp: pop_at_def play_silence_def jitter_wf_def Let_def)
qed

lemma drop_older_wf: "jitter_wf jb \<Longrightarrow> jitter_wf (drop_older p jb)"
  using length_dropWhile_le [of "\<lambda>(ts, _). ts < p" "jb_frames jb"]
  by (auto simp: jitter_wf_def drop_older_def bm_wf_dropWhile)

lemma drop_older_fields [simp]:
  "jb_cfg (drop_older p jb) = jb_cfg jb" "jb_play_ts (drop_older p jb) = jb_play_ts jb"
  "jb_newest_end_ts (drop_older p jb) = jb_newest_end_ts jb"
  "jb_buffering (drop_older p jb) = jb_buffering jb" "jb_silent (drop_older p jb) = jb_silent jb"
  "jb_target_samples (drop_older p jb) = jb_target_samples jb"
  "jb_frames (drop_older p jb) = dropWhile (\<lambda>(ts, _). ts < p) (jb_frames jb)"
  by (simp_all add: drop_older_def)

text \<open>The buffer a pop reads from: buffering ends here when enough is there.\<close>

definition started :: "'s JitterBuffer \<Rightarrow> 's JitterBuffer" where
  "started jb = (if jb_buffering jb
                 then jb\<lparr>jb_buffering := False, jb_play_ts := first_key (jb_frames jb)\<rparr> else jb)"

lemma pop_unfold:
  assumes "jitter_wf jb"
  shows "jitter_pop out jb =
     (if jb_buffering jb \<and> (buffered_samples jb < jb_target_samples jb \<or> jb_frames jb = [])
      then (Buffering, fill_zero out, jb)
      else (case jb_play_ts (started jb) of
              None \<Rightarrow> (Buffering, fill_zero out, started jb)
            | Some play \<Rightarrow> pop_at play out (drop_older play (started jb))))"
  using assms by (auto simp: jitter_pop_def started_def jitter_wf_def Let_def split: option.split)

lemma started_wf: "jitter_wf jb \<Longrightarrow> jitter_wf (started jb) \<and> \<not> jb_buffering (started jb)"
  by (auto simp: started_def jitter_wf_def)

lemma pop_wf: "jitter_wf jb \<Longrightarrow> jitter_wf (snd (snd (jitter_pop out jb)))"
  using started_wf [of jb]
  by (auto simp: pop_unfold intro!: pop_at_wf drop_older_wf split: option.split)

lemma step_wf: "jitter_wf jb \<Longrightarrow> jitter_wf (snd (jitter_step fl op jb))"
  by (cases op) (auto simp: push_wf push_silence_def wf_simple_ops split_beta Let_def intro: pop_wf)

lemma new_wf: "jitter_wf (jitter_new cfg)"
  by (simp add: jitter_wf_def jitter_new_def target_min_def target_max_def JITTER_WINDOW_def)

text \<open>C16: Whatever a sender does with its timestamps and frames, and in whatever order the operations come,
  the buffer keeps at most 1024 frames in strictly ascending order of timestamp, the target delay stays
  within the configured bounds, the jitter window stays within its 512 entries, and there is no play
  position while buffering.\<close>

theorem jitter_always_wf:
  "jitter_wf (snd (io_run (jitter_step fl) ops (jitter_new cfg)))"
  by (rule io_run_invariant) (simp_all add: new_wf step_wf)

section \<open>The buffer never stalls on a conforming stream\<close>

text \<open>A buffer that is neither buffering nor at a play position produces silence for ever: nothing but
  \<open>reset\<close> gives it a position again.\<close>

definition stalled :: "'s JitterBuffer \<Rightarrow> bool" where
  "stalled jb \<longleftrightarrow> \<not> jb_buffering jb \<and> jb_play_ts jb = None"

text \<open>What a sender that keeps one timeline does: a frame is no longer than a frame of the configuration and
  does not lie more than 200 ms behind the newest audio received.\<close>

fun conforming :: "'s jitter_op \<Rightarrow> 's JitterBuffer \<Rightarrow> bool" where
  "conforming (Push ts samples _) jb \<longleftrightarrow>
     ts \<le> u64_max \<and> frame_len (jb_cfg jb) samples \<le> jc_frame_samples (jb_cfg jb) \<and>
     jb_newest_end_ts jb \<le> ts + ms_to_samples 200"
| "conforming (PushSilence ts _) jb \<longleftrightarrow> ts \<le> u64_max \<and> jb_newest_end_ts jb \<le> ts + ms_to_samples 200"
| "conforming _ jb \<longleftrightarrow> True"

definition frame_keys :: "'s JitterBuffer \<Rightarrow> nat set" where
  "frame_keys jb = fst ` set (jb_frames jb)"

text \<open>The newest audio is in the buffer, or nothing in it and not the play position is far behind it.\<close>

definition covered :: "'s JitterBuffer \<Rightarrow> bool" where
  "covered jb \<longleftrightarrow> (\<exists>k\<in>frame_keys jb. jb_newest_end_ts jb \<le> k + jc_frame_samples (jb_cfg jb))"

definition near :: "'s JitterBuffer \<Rightarrow> bool" where
  "near jb \<longleftrightarrow> (\<forall>k\<in>frame_keys jb. jb_newest_end_ts jb \<le> k + ms_to_samples 200) \<and>
     (\<forall>p. jb_play_ts jb = Some p \<longrightarrow> jb_newest_end_ts jb \<le> p + ms_to_samples 200)"

definition timeline_ok :: "'s JitterBuffer \<Rightarrow> bool" where
  "timeline_ok jb \<longleftrightarrow>
     jitter_wf jb \<and> \<not> stalled jb \<and> jc_frame_samples (jb_cfg jb) \<le> ms_to_samples 200 \<and>
     (\<forall>k\<in>frame_keys jb. k \<le> u64_max) \<and> (\<forall>p. jb_play_ts jb = Some p \<longrightarrow> p \<le> u64_max) \<and>
     (covered jb \<or> near jb)"

lemma sat_add64_ge: "p \<le> u64_max \<Longrightarrow> p \<le> sat_add64 p n"
  by (simp add: sat_add64_def)

lemma sat_add64_le: "sat_add64 p n \<le> u64_max" "sat_add64 p n \<le> p + n"
  by (simp_all add: sat_add64_def)

text \<open>Dropping the oldest entries keeps something at least as new as any entry.\<close>

lemma drop_keeps_newer:
  assumes "bm_wf t" "k \<in> fst ` set t" "n < length t"
  shows "\<exists>k'\<in>fst ` set (drop n t). k \<le> k'"
proof -
  have "k \<in> fst ` set (take n t) \<or> k \<in> fst ` set (drop n t)"
    using assms(2) by (metis Un_iff append_take_drop_id image_Un set_append)
  moreover have "\<forall>x\<in>fst ` set (take n t). \<forall>y\<in>fst ` set (drop n t). x < y"
  proof -
    have "sorted_wrt (<) (map fst (take n t) @ map fst (drop n t))"
      using assms(1) by (metis append_take_drop_id map_append)
    then show ?thesis by (simp add: sorted_wrt_append)
  qed
  moreover have "drop n t \<noteq> []" using assms(3) by simp
  ultimately show ?thesis by (metis equals0I image_is_empty less_imp_le order_refl set_empty)
qed

lemma jump_not_needed:
  assumes "near jb" shows "jump_forward jb = jb"
proof (cases "jb_play_ts jb")
  case (Some p)
  then have "jb_newest_end_ts jb - p \<le> jump_limit (jb_cfg jb)"
    using assms by (auto simp: near_def jump_limit_def)
  then show ?thesis using Some by (simp add: jump_forward_def)
qed (simp add: jump_forward_def)

lemma jump_covered:
  assumes "covered jb" "jc_frame_samples (jb_cfg jb) \<le> jb_target_samples jb"
  shows "covered (jump_forward jb)" "jb_play_ts (jump_forward jb) = None \<longleftrightarrow> jb_play_ts jb = None"
proof -
  obtain k f where k: "(k, f) \<in> set (jb_frames jb)" "jb_newest_end_ts jb \<le> k + jc_frame_samples (jb_cfg jb)"
    using assms(1) by (auto simp: covered_def frame_keys_def)
  then have "(k, f) \<in> set (filter (\<lambda>(ts, _). jb_newest_end_ts jb - jb_target_samples jb \<le> ts) (jb_frames jb))"
    using assms(2) by auto
  then have ne: "filter (\<lambda>(ts, _). jb_newest_end_ts jb - jb_target_samples jb \<le> ts) (jb_frames jb) \<noteq> []"
    and kept: "k \<in> fst ` set (filter (\<lambda>(ts, _). jb_newest_end_ts jb - jb_target_samples jb \<le> ts) (jb_frames jb))"
    by (metis list.distinct(1) list.set_cases, force)
  show "covered (jump_forward jb)"
    using k kept assms(1)
    by (auto simp: jump_forward_def covered_def frame_keys_def Let_def split: option.splits)
  show "jb_play_ts (jump_forward jb) = None \<longleftrightarrow> jb_play_ts jb = None"
    using ne by (auto simp: jump_forward_def Let_def split: option.splits list.splits)
qed

lemma jump_bounds:
  assumes "\<forall>k\<in>frame_keys jb. k \<le> u64_max" "\<forall>p. jb_play_ts jb = Some p \<longrightarrow> p \<le> u64_max"
  shows "(\<forall>k\<in>frame_keys (jump_forward jb). k \<le> u64_max) \<and>
         (\<forall>p. jb_play_ts (jump_forward jb) = Some p \<longrightarrow> p \<le> u64_max)"
proof -
  have "x \<le> u64_max" if "filter P (jb_frames jb) = (x, f) # r" for P x f r
  proof -
    have "(x, f) \<in> set (jb_frames jb)" using that by (metis filter_is_subset in_mono list.set_intros(1))
    then show ?thesis using assms(1) by (force simp: frame_keys_def)
  qed
  then show ?thesis using assms
    by (auto simp: jump_forward_def frame_keys_def Let_def split: option.splits list.splits)
qed

lemma push_timeline:
  assumes ok: "timeline_ok jb" and c: "conforming (Push ts samples a) jb"
  shows "timeline_ok (jitter_push fl ts samples a jb)"
proof (cases "\<exists>p. jb_play_ts jb = Some p \<and> ts < p")
  case True
  then obtain p where p: "jb_play_ts jb = Some p" "ts < p" by blast
  show ?thesis using ok push_wf [of jb fl ts samples a]
    by (simp add: timeline_ok_def stalled_def covered_def near_def frame_keys_def push_late [OF p])
next
  case False
  then obtain jb' where jb': "jitter_push fl ts samples a jb = jump_forward jb'"
    "jb_cfg jb' = jb_cfg jb" "jb_play_ts jb' = jb_play_ts jb" "jb_buffering jb' = jb_buffering jb"
    "jb_target_samples jb' = jb_target_samples jb"
    "jb_newest_end_ts jb' = max (jb_newest_end_ts jb) (sat_add64 ts (frame_len (jb_cfg jb) samples))"
    "jb_frames jb' = drop (length (bm_insert ts samples (jb_frames jb)) - MAX_FRAMES)
                       (bm_insert ts samples (jb_frames jb))"
    using push_accepted [of jb ts fl samples a] by (metis not_le)
  let ?F = "bm_insert ts samples (jb_frames jb)" and ?fs = "jc_frame_samples (jb_cfg jb)"
  have wfF: "bm_wf ?F" using ok by (simp add: timeline_ok_def jitter_wf_def bm_insert_wf)
  have keys: "fst ` set ?F = insert ts (frame_keys jb)" using keys_bm_insert [of ts samples "jb_frames jb"]
    by (simp add: frame_keys_def)
  have sub: "frame_keys jb' \<subseteq> insert ts (frame_keys jb)"
    unfolding frame_keys_def jb'(7) keys [symmetric, unfolded frame_keys_def] by (meson image_mono set_drop_subset)
  have newer: "\<exists>k'\<in>frame_keys jb'. k \<le> k'" if "k \<in> insert ts (frame_keys jb)" for k
    unfolding frame_keys_def jb'(7)
  proof (rule drop_keeps_newer [OF wfF])
    show "k \<in> fst ` set ?F" using that by (simp add: keys)
    have "?F \<noteq> []" using keys by auto
    then show "length ?F - MAX_FRAMES < length ?F" by (simp add: MAX_FRAMES_def)
  qed
  have cov_or_near: "covered jb' \<or> near jb'"
  proof (cases "jb_newest_end_ts jb \<le> ts + frame_len (jb_cfg jb) samples")
    case True
    have "jb_newest_end_ts jb' \<le> ts + ?fs"
      using True c sat_add64_le(2) [of ts "frame_len (jb_cfg jb) samples"] by (simp add: jb'(6))
    moreover obtain k' where "k' \<in> frame_keys jb'" "ts \<le> k'" using newer [of ts] by blast
    ultimately have "covered jb'" by (auto simp: covered_def jb'(2) intro!: bexI [of _ k'])
    then show ?thesis ..
  next
    case False
    then have same: "jb_newest_end_ts jb' = jb_newest_end_ts jb"
      using sat_add64_le(2) [of ts "frame_len (jb_cfg jb) samples"] by (simp add: jb'(6))
    show ?thesis
    proof (cases "covered jb")
      case True
      then obtain k where k: "k \<in> frame_keys jb" "jb_newest_end_ts jb \<le> k + ?fs" by (auto simp: covered_def)
      with newer obtain k' where "k' \<in> frame_keys jb'" "k \<le> k'" by blast
      then have "covered jb'" using k(2) by (auto simp: covered_def same jb'(2) intro!: bexI [of _ k'])
      then show ?thesis ..
    next
      case False
      then have "near jb" using ok by (simp add: timeline_ok_def)
      then have "\<forall>k\<in>insert ts (frame_keys jb). jb_newest_end_ts jb \<le> k + ms_to_samples 200"
        using c by (auto simp: near_def)
      then have "\<forall>k\<in>frame_keys jb'. jb_newest_end_ts jb \<le> k + ms_to_samples 200" using sub by blast
      then show ?thesis using \<open>near jb\<close> by (simp add: near_def same jb'(3))
    qed
  qed
  have bounds: "\<forall>k\<in>frame_keys jb'. k \<le> u64_max" "\<forall>p. jb_play_ts jb' = Some p \<longrightarrow> p \<le> u64_max"
  proof -
    have "\<forall>k\<in>insert ts (frame_keys jb). k \<le> u64_max" using ok c by (simp add: timeline_ok_def)
    then show "\<forall>k\<in>frame_keys jb'. k \<le> u64_max" using sub by blast
    show "\<forall>p. jb_play_ts jb' = Some p \<longrightarrow> p \<le> u64_max" using ok by (simp add: timeline_ok_def jb'(3))
  qed
  have ts: "?fs \<le> jb_target_samples jb'"
    using ok by (auto simp: timeline_ok_def jitter_wf_def target_min_def jb'(5))
  have "covered (jump_forward jb') \<or> near (jump_forward jb')"
    "jb_play_ts (jump_forward jb') = None \<longleftrightarrow> jb_play_ts jb' = None"
    using cov_or_near jump_covered [of jb'] jump_not_needed [of jb'] ts by (auto simp: jb'(2))
  then show ?thesis
    using ok push_wf [of jb fl ts samples a] jump_bounds [OF bounds]
    by (simp add: timeline_ok_def stalled_def jb'(1-4))
qed

lemma dropWhile_older:
  "bm_wf t \<Longrightarrow> dropWhile (\<lambda>(ts, _). ts < p) t = filter (\<lambda>(ts, _). p \<le> ts) t"
proof (induction t)
  case (Cons e t)
  show ?case
  proof (cases "fst e < p")
    case False
    then have "\<forall>x\<in>set t. p \<le> fst x" using Cons.prems by fastforce
    then show ?thesis using False by (auto simp: split_beta intro!: filter_True [symmetric])
  qed (use Cons in \<open>auto simp: split_beta\<close>)
qed simp

text \<open>What holds at the play position, once older frames are gone.\<close>

definition at_position :: "nat \<Rightarrow> 's JitterBuffer \<Rightarrow> bool" where
  "at_position p jb \<longleftrightarrow>
     timeline_ok jb \<and> \<not> jb_buffering jb \<and> jb_play_ts jb = Some p \<and> (\<forall>k\<in>frame_keys jb. p \<le> k)"

lemma drop_older_position:
  assumes ok: "timeline_ok jb" and p: "jb_play_ts jb = Some p" and b: "\<not> jb_buffering jb"
  shows "at_position p (drop_older p jb)"
proof -
  have wf: "bm_wf (jb_frames jb)" using ok by (simp add: timeline_ok_def jitter_wf_def)
  have keys: "frame_keys (drop_older p jb) = {k \<in> frame_keys jb. p \<le> k}"
    using dropWhile_older [OF wf] by (auto simp: frame_keys_def image_iff)
  have "covered (drop_older p jb) \<or> near (drop_older p jb)"
  proof (cases "covered jb \<and> \<not> covered (drop_older p jb)")
    case True
    then obtain k where "jb_newest_end_ts jb \<le> k + jc_frame_samples (jb_cfg jb)" "\<not> p \<le> k"
      by (auto simp: covered_def keys simp del: drop_older_fields(7))
    then have "jb_newest_end_ts jb \<le> p + ms_to_samples 200" using ok by (auto simp: timeline_ok_def)
    then show ?thesis unfolding near_def keys using p by auto
  next
    case False
    then show ?thesis using ok unfolding timeline_ok_def near_def keys by auto
  qed
  then show ?thesis
    using ok p b drop_older_wf [of jb p] unfolding at_position_def timeline_ok_def keys
    by (auto simp: stalled_def)
qed

text \<open>Removing the frame at the position and moving the position forward keeps the timeline.\<close>

lemma advance_timeline:
  assumes at: "at_position p jb" and wf: "jitter_wf jb'"
    and "jb_cfg jb' = jb_cfg jb" "jb_newest_end_ts jb' = jb_newest_end_ts jb"
    and keys: "frame_keys jb - {p} \<subseteq> frame_keys jb'" "frame_keys jb' \<subseteq> frame_keys jb"
    and q: "jb_play_ts jb' = Some q" "p \<le> q" "q \<le> u64_max"
  shows "timeline_ok jb'"
proof -
  have ok: "timeline_ok jb" and above: "\<forall>k\<in>frame_keys jb. p \<le> k" and play: "jb_play_ts jb = Some p"
    using at by (auto simp: at_position_def)
  have "covered jb' \<or> near jb'"
  proof (cases "covered jb \<and> \<not> covered jb'")
    case True
    then have "jb_newest_end_ts jb \<le> p + jc_frame_samples (jb_cfg jb)"
      using keys(1) by (auto simp: covered_def assms(3,4))
    then have "jb_newest_end_ts jb \<le> p + ms_to_samples 200" using ok by (auto simp: timeline_ok_def)
    then show ?thesis using keys(2) above q by (fastforce simp: near_def assms(4))
  next
    case False
    then have "covered jb' \<or> near jb" using ok by (auto simp: timeline_ok_def)
    then show ?thesis using keys(2) play q by (fastforce simp: near_def assms(4))
  qed
  then show ?thesis using ok wf q keys(2) by (auto simp: timeline_ok_def stalled_def assms(3))
qed

lemma delete_keys_set: "fst ` set (AList.delete p t) = fst ` set t - {p}"
  by (induction t) auto

lemma delete_key_mem: "(k, v) \<in> set (AList.delete p t) \<Longrightarrow> k \<in> fst ` set t"
  by (metis DiffD1 delete_keys_set fst_conv image_eqI)

lemma pop_at_timeline:
  assumes at: "at_position p jb"
  shows "timeline_ok (snd (snd (pop_at p out jb)))"
proof -
  have ok: "timeline_ok jb" and b: "\<not> jb_buffering jb" and p: "p \<le> u64_max" "jb_play_ts jb = Some p"
    using at by (auto simp: at_position_def timeline_ok_def)
  have wf: "jitter_wf (snd (snd (pop_at p out jb)))"
    using ok b by (intro pop_at_wf) (auto simp: timeline_ok_def)
  note adv = advance_timeline [OF at wf]
  note sat = sat_add64_ge [OF p(1)] sat_add64_le(1)
  show ?thesis
  proof (cases "map_of (jb_frames jb) p")
    case (Some frame)
    let ?q = "sat_add64 p (if frame = [] then jc_frame_samples (jb_cfg jb) else frame_len (jb_cfg jb) frame)"
    from Some show ?thesis
      by (intro adv [where q = ?q])
        (auto simp: pop_at_def play_silence_def Let_def frame_keys_def delete_keys_set sat)
  next
    case None
    show ?thesis
    proof (cases "jb_silent jb")
      case True
      then show ?thesis using None
        by (intro adv) (auto simp: pop_at_def play_silence_def Let_def frame_keys_def sat)
    next
      case False
      let ?r = "pop_missing p out jb"
      have r: "pop_at p out jb = ?r" using None False by (simp add: pop_at_def)
      show ?thesis
      proof (cases "fst ?r = Buffering")
        case True
        then have "jb_frames (snd (snd ?r)) = []" "jb_play_ts (snd (snd ?r)) = None" "jb_buffering (snd (snd ?r))"
          "jb_cfg (snd (snd ?r)) = jb_cfg jb"
          by (auto simp: pop_missing_def Let_def split: if_splits)
        then show ?thesis using wf ok unfolding r
          by (simp add: timeline_ok_def stalled_def near_def frame_keys_def)
      next
        case False
        then have "\<exists>q. jb_play_ts (snd (snd ?r)) = Some q \<and> p \<le> q \<and> q \<le> u64_max"
          and "jb_cfg (snd (snd ?r)) = jb_cfg jb" "jb_newest_end_ts (snd (snd ?r)) = jb_newest_end_ts jb"
          "jb_frames (snd (snd ?r)) = jb_frames jb"
          using p sat by (auto simp: pop_missing_def Let_def split: if_splits)
        then show ?thesis using adv unfolding r by (auto simp: frame_keys_def)
      qed
    qed
  qed
qed

lemma first_key_mem: "first_key t = Some k \<Longrightarrow> k \<in> fst ` set t"
  by (auto simp: first_key_def split: list.splits prod.splits)

lemma started_timeline:
  assumes ok: "timeline_ok jb" and ne: "jb_buffering jb \<Longrightarrow> jb_frames jb \<noteq> []"
  shows "timeline_ok (started jb) \<and> jb_play_ts (started jb) \<noteq> None"
proof (cases "jb_buffering jb")
  case True
  then obtain k where k: "first_key (jb_frames jb) = Some k"
    using ne by (cases "jb_frames jb") (auto simp: first_key_def)
  have "k \<in> frame_keys jb" unfolding frame_keys_def by (rule first_key_mem [OF k])
  then show ?thesis using ok True k started_wf [of jb]
    unfolding timeline_ok_def stalled_def covered_def near_def started_def frame_keys_def by auto
next
  case False
  then show ?thesis using ok by (auto simp: started_def timeline_ok_def stalled_def)
qed

lemma pop_timeline:
  assumes ok: "timeline_ok jb" shows "timeline_ok (snd (snd (jitter_pop out jb)))"
proof (cases "jb_buffering jb \<and> (buffered_samples jb < jb_target_samples jb \<or> jb_frames jb = [])")
  case True
  then show ?thesis using ok by (simp add: pop_unfold timeline_ok_def)
next
  case False
  then have st: "timeline_ok (started jb)" "jb_play_ts (started jb) \<noteq> None"
    using started_timeline [OF ok] by auto
  then obtain p where p: "jb_play_ts (started jb) = Some p" by blast
  have "\<not> jb_buffering (started jb)" using ok started_wf [of jb] by (simp add: timeline_ok_def)
  then have "timeline_ok (snd (snd (pop_at p out (drop_older p (started jb)))))"
    using st p by (intro pop_at_timeline drop_older_position)
  then show ?thesis using False ok p by (simp add: pop_unfold timeline_ok_def)
qed

lemma step_timeline:
  assumes "timeline_ok jb" "conforming op jb"
  shows "timeline_ok (snd (jitter_step fl op jb))"
proof (cases op)
  case (PushSilence ts a)
  then have "conforming (Push ts [] a) jb" using assms by (simp add: frame_len_def)
  then show ?thesis using assms(1) PushSilence by (simp add: push_silence_def push_timeline)
next
  case (SetBounds lo hi)
  then show ?thesis using assms wf_simple_ops(1) [of jb lo hi]
    by (auto simp: timeline_ok_def stalled_def covered_def near_def frame_keys_def set_bounds_def Let_def)
next
  case Adapt
  then show ?thesis using assms wf_simple_ops(2) [of jb]
    by (auto simp: timeline_ok_def stalled_def covered_def near_def frame_keys_def adapt_def Let_def)
next
  case Reset
  then show ?thesis using assms wf_simple_ops(3) [of jb]
    by (auto simp: timeline_ok_def stalled_def covered_def near_def frame_keys_def jitter_reset_def)
qed (use assms in \<open>simp_all add: push_timeline pop_timeline split_beta Let_def\<close>)

text \<open>C18: On a stream whose frames are no longer than the configured frame (at most 200 ms) and never lie
  more than 200 ms behind the newest audio received, the buffer never stalls, however operations
  interleave: after any of them it is either buffering or has a play position.\<close>

theorem jitter_never_stalls:
  assumes "jc_frame_samples cfg \<le> ms_to_samples 200"
    and "run_enabled (jitter_step fl) conforming ops (jitter_new cfg)"
  shows "\<not> stalled (snd (io_run (jitter_step fl) ops (jitter_new cfg)))"
proof -
  have "timeline_ok (jitter_new cfg :: 'a JitterBuffer)"
    using assms(1) new_wf [of cfg]
    by (simp add: timeline_ok_def stalled_def near_def frame_keys_def jitter_new_def)
  then have "timeline_ok (snd (io_run (jitter_step fl) ops (jitter_new cfg)))"
    using step_timeline assms(2) by (rule io_run_invariant_enabled)
  then show ?thesis by (simp add: timeline_ok_def)
qed

definition example_cfg :: JitterConfig where
  "example_cfg = \<lparr>jc_channels = 1, jc_frame_samples = 480, jc_min_delay_ms = 20, jc_max_delay_ms = 100\<rparr>"

lemmas jitter_eval =
  jitter_new_def jitter_push_def push_silence_def update_jitter_def jump_forward_def jump_limit_def
  add_late_def frame_len_def jitter_pop_def pop_at_def pop_missing_def play_silence_def drop_older_def
  buffered_samples_def first_key_def fill_zero_def target_min_def target_max_def clamp_target_def
  clamp_def ms_to_samples_def SAMPLE_RATE_def MAX_FRAMES_def MAX_CONCEAL_FRAMES_def JITTER_WINDOW_def
  sat_add64_def inc64_def inc32_def u64_max_def u32_max_def to_i64_def

theorem jitter_never_stalls_witness:
  "\<not> stalled (snd (io_run (jitter_step (\<lambda>x. x))
       [Push 0 (replicate 480 (1::int)) 0, Push 480 (replicate 480 1) 480, Pop (replicate 480 0)]
       (jitter_new example_cfg)))"
proof (rule jitter_never_stalls)
  show "jc_frame_samples example_cfg \<le> ms_to_samples 200"
    by (simp add: example_cfg_def ms_to_samples_def SAMPLE_RATE_def)
  show "run_enabled (jitter_step (\<lambda>x. x)) conforming
       [Push 0 (replicate 480 (1::int)) 0, Push 480 (replicate 480 1) 480, Pop (replicate 480 0)]
       (jitter_new example_cfg)"
    by (simp add: example_cfg_def jitter_eval)
qed

section \<open>What a restarted timeline does\<close>

lemma stalled_step:
  assumes "stalled jb" "op \<noteq> Reset"
  shows "stalled (snd (jitter_step fl op jb)) \<and>
         (fst (jitter_step fl op jb) = None \<or> fst (jitter_step fl op jb) = Some Buffering)"
proof -
  have push: "stalled (jitter_push fl ts samples a jb)" for ts samples a
    using assms(1) push_accepted [of jb ts fl samples a]
    by (auto simp: stalled_def jump_forward_def)
  show ?thesis
    using assms push
    by (cases op) (auto simp: push_silence_def stalled_def jitter_pop_def set_bounds_def adapt_def Let_def)
qed

lemma stalled_run:
  assumes "stalled jb" "Reset \<notin> set ops"
  shows "\<forall>r\<in>set (fst (io_run (jitter_step fl) ops jb)). r = None \<or> r = Some Buffering"
  using assms
proof (induction ops arbitrary: jb)
  case (Cons op ops)
  then have "op \<noteq> Reset" by auto
  then show ?case using Cons stalled_step [of jb op fl] by auto
qed simp

text \<open>A sender restarts its timeline at 0 after an underrun: two frames at 100000, six pops with nothing new,
  and then the new stream from 0 on, one frame of it played.\<close>

definition restart_ops :: "int jitter_op list" where
  "restart_ops =
     [Push 100000 (replicate 480 1) 0, Push 100480 (replicate 480 1) 480] @
     map Pop [replicate 480 0, replicate 480 0, replicate 480 0, replicate 480 0, replicate 480 0,
              replicate 480 0, replicate 480 0, replicate 480 0] @
     [Push 0 (replicate 480 1) 5000, Pop (replicate 480 0), Push 480 (replicate 480 1) 5480]"

lemma restart_stalls: "stalled (snd (io_run (jitter_step (\<lambda>x. x)) restart_ops (jitter_new example_cfg)))"
  by (simp add: restart_ops_def example_cfg_def jitter_eval stalled_def)

text \<open>C35: A sender that restarts its timeline at 0 after an underrun (as a restarted encoder does), without
  the receiver resetting the buffer, stalls it: after the second frame of the new timeline every pop
  answers Buffering, whatever arrives later, until a reset.\<close>

theorem timeline_restart_stalls:
  assumes "Reset \<notin> set ops"
  shows "\<forall>r\<in>set (fst (io_run (jitter_step fl) ops
                  (snd (io_run (jitter_step (\<lambda>x. x)) restart_ops (jitter_new example_cfg))))).
           r = None \<or> r = Some Buffering"
  using restart_stalls assms by (rule stalled_run)

theorem timeline_restart_stalls_witness:
  "Some Played \<notin> set (fst (io_run (jitter_step (\<lambda>x. x)) [Push 960 (replicate 480 1) 6000, Pop (replicate 480 0)]
             (snd (io_run (jitter_step (\<lambda>x. x)) restart_ops (jitter_new example_cfg)))))"
proof -
  have "Reset \<notin> set [Push 960 (replicate 480 (1::int)) 6000, Pop (replicate 480 0)]" by simp
  from timeline_restart_stalls [OF this, of "\<lambda>x. x"] show ?thesis by fastforce
qed

section \<open>Frames play in order\<close>

text \<open>The position a pop plays from, and the positions played in a run.\<close>

fun played_positions :: "(rat \<Rightarrow> rat) \<Rightarrow> 's::zero jitter_op list \<Rightarrow> 's JitterBuffer \<Rightarrow> nat list" where
  "played_positions fl [] jb = []"
| "played_positions fl (op # ops) jb =
     (if fst (jitter_step fl op jb) = Some Played then [the (jb_play_ts (started jb))] else [])
       @ played_positions fl ops (snd (jitter_step fl op jb))"

fun op_u64 :: "'s jitter_op \<Rightarrow> bool" where
  "op_u64 (Push ts _ _) \<longleftrightarrow> ts \<le> u64_max"
| "op_u64 (PushSilence ts _) \<longleftrightarrow> ts \<le> u64_max"
| "op_u64 _ \<longleftrightarrow> True"

definition playing :: "nat \<Rightarrow> 's JitterBuffer \<Rightarrow> bool" where
  "playing p jb \<longleftrightarrow>
     jitter_wf jb \<and> \<not> jb_buffering jb \<and> target_max (jb_cfg jb) \<le> jump_limit (jb_cfg jb) \<and>
     jc_frame_samples (jb_cfg jb) \<le> ms_to_samples 200 \<and>
     (\<forall>k\<in>frame_keys jb. k \<le> u64_max) \<and> (\<forall>q. jb_play_ts jb = Some q \<longrightarrow> p \<le> q \<and> q \<le> u64_max)"

lemma ms_to_samples_mono: "a \<le> b \<Longrightarrow> ms_to_samples a \<le> ms_to_samples b"
  by (simp add: ms_to_samples_def div_le_mono)

lemma jump_forward_playing:
  assumes "playing p jb" shows "playing p (jump_forward jb)"
proof (cases "\<exists>q. jb_play_ts jb = Some q \<and> jump_limit (jb_cfg jb) < jb_newest_end_ts jb - q")
  case False
  then have "jump_forward jb = jb" by (auto simp: jump_forward_def split: option.split)
  then show ?thesis using assms by simp
next
  case True
  then obtain q where q: "jb_play_ts jb = Some q" "jump_limit (jb_cfg jb) < jb_newest_end_ts jb - q" by blast
  let ?kept = "filter (\<lambda>(ts, _). jb_newest_end_ts jb - jb_target_samples jb \<le> ts) (jb_frames jb)"
  have j: "jump_forward jb = jb\<lparr>jb_frames := ?kept, jb_play_ts := first_key ?kept\<rparr>"
    using q by (simp add: jump_forward_def Let_def first_key_def split: list.split prod.split)
  have "p \<le> q" using assms q by (simp add: playing_def)
  moreover have "q \<le> jb_newest_end_ts jb - jb_target_samples jb"
    using assms q(2) by (auto simp: playing_def jitter_wf_def)
  ultimately have "p \<le> k \<and> k \<le> u64_max" if "first_key ?kept = Some k" for k
    using first_key_mem [OF that] assms by (auto simp: playing_def frame_keys_def)
  moreover have "jitter_wf (jump_forward jb)" using assms by (intro jump_forward_wf) (simp add: playing_def)
  ultimately show ?thesis using assms unfolding j by (auto simp: playing_def frame_keys_def)
qed

lemma push_playing:
  assumes pl: "playing p jb" and ts: "ts \<le> u64_max"
  shows "playing p (jitter_push fl ts samples a jb)"
proof (cases "\<exists>q. jb_play_ts jb = Some q \<and> ts < q")
  case True
  then obtain q where q: "jb_play_ts jb = Some q" "ts < q" by blast
  show ?thesis using pl push_wf [of jb fl ts samples a]
    by (simp add: playing_def frame_keys_def push_late [OF q])
next
  case False
  then obtain jb' where jb': "jitter_push fl ts samples a jb = jump_forward jb'"
    "jb_cfg jb' = jb_cfg jb" "jb_play_ts jb' = jb_play_ts jb" "jb_buffering jb' = jb_buffering jb"
    "jb_target_samples jb' = jb_target_samples jb"
    "jb_frames jb' = drop (length (bm_insert ts samples (jb_frames jb)) - MAX_FRAMES)
                       (bm_insert ts samples (jb_frames jb))"
    "length (jb_deviations jb) \<le> JITTER_WINDOW \<Longrightarrow> jb_dev_cursor jb < JITTER_WINDOW \<Longrightarrow>
       length (jb_deviations jb') \<le> JITTER_WINDOW \<and> jb_dev_cursor jb' < JITTER_WINDOW"
    using push_accepted [of jb ts fl samples a] by (metis not_le)
  have "frame_keys jb' \<subseteq> set (map fst (bm_insert ts samples (jb_frames jb)))"
    unfolding frame_keys_def jb'(6) by (simp add: image_mono set_drop_subset)
  also have "\<dots> = insert ts (frame_keys jb)" unfolding keys_bm_insert by (simp add: frame_keys_def)
  finally have "\<forall>k\<in>frame_keys jb'. k \<le> u64_max" using pl ts by (auto simp: playing_def)
  moreover have "jitter_wf jb'"
    using pl jb'(2-7) by (simp add: playing_def jitter_wf_def bm_wf_drop bm_insert_wf)
  ultimately have "playing p jb'" using pl by (simp add: playing_def jb'(2-4))
  then show ?thesis unfolding jb'(1) by (rule jump_forward_playing)
qed

lemma pop_playing:
  assumes pl: "playing p jb" and r: "jitter_pop out jb = (st, out', jb')" and st: "st \<noteq> Buffering"
  obtains q where "jb_play_ts jb = Some q" "p \<le> q" "playing q jb'"
proof -
  have wf: "jitter_wf jb" and b: "\<not> jb_buffering jb" using pl by (auto simp: playing_def)
  obtain q where q: "jb_play_ts jb = Some q" and pop: "pop_at q out (drop_older q jb) = (st, out', jb')"
    using r st b by (auto simp: pop_unfold [OF wf] started_def split: option.splits)
  have le: "p \<le> q" "q \<le> u64_max" using pl q by (auto simp: playing_def)
  have wf': "jitter_wf jb'"
    using pop_wf [OF wf, of out] r by simp
  have keys: "frame_keys (drop_older q jb) \<subseteq> frame_keys jb"
    by (auto simp: frame_keys_def dest: set_dropWhileD)
  have "jb_cfg jb' = jb_cfg jb \<and> \<not> jb_buffering jb' \<and> frame_keys jb' \<subseteq> frame_keys (drop_older q jb) \<and>
        (\<exists>q'. jb_play_ts jb' = Some q' \<and> q \<le> q' \<and> q' \<le> u64_max)"
    using pop st b q sat_add64_ge [OF le(2)] sat_add64_le(1) le(2)
    by (auto simp: pop_at_def play_silence_def pop_missing_def Let_def frame_keys_def
        dest: delete_key_mem split: option.splits if_splits)
  then have "playing q jb'" using pl wf' keys by (auto simp: playing_def)
  with q le(1) show thesis by (rule that)
qed

lemma other_playing:
  assumes "playing p jb" "jb_cfg jb' = jb_cfg jb \<or>
      (target_max (jb_cfg jb') \<le> jump_limit (jb_cfg jb') \<and> jc_frame_samples (jb_cfg jb') = jc_frame_samples (jb_cfg jb))"
    and "jitter_wf jb'" "jb_frames jb' = jb_frames jb" "jb_play_ts jb' = jb_play_ts jb" "jb_buffering jb' = jb_buffering jb"
  shows "playing p jb'"
  using assms by (auto simp: playing_def frame_keys_def)

lemma step_playing:
  assumes pl: "playing p jb" and "op \<noteq> Reset" "op_u64 op" "\<And>out. op \<noteq> Pop out"
  shows "playing p (snd (jitter_step fl op jb))" and "fst (jitter_step fl op jb) = None"
proof -
  have wf: "jitter_wf jb" using pl by (simp add: playing_def)
  show "playing p (snd (jitter_step fl op jb))"
  proof (cases op)
    case (SetBounds lo hi)
    have "target_max (jb_cfg (set_bounds lo hi jb)) \<le> jump_limit (jb_cfg (set_bounds lo hi jb))"
      using pl ms_to_samples_mono [of lo "max hi lo"]
      by (simp add: set_bounds_def Let_def target_max_def target_min_def jump_limit_def playing_def)
    then show ?thesis using SetBounds wf_simple_ops(1) [OF wf]
      by (auto intro!: other_playing [OF pl] simp: set_bounds_def Let_def)
  next
    case Adapt
    then show ?thesis using wf_simple_ops(2) [OF wf]
      by (auto intro!: other_playing [OF pl] simp: adapt_def Let_def)
  qed (use assms in \<open>auto simp: push_playing push_silence_def\<close>)
  show "fst (jitter_step fl op jb) = None" using assms by (cases op) auto
qed

text \<open>C17: While the buffer plays (no reset, no rebuffering), the positions frames are played from never go
  backwards, whatever timestamps arrive: a frame that comes after its turn is never played.\<close>

theorem jitter_plays_in_order:
  assumes "playing p jb" "Reset \<notin> set ops" "\<forall>op\<in>set ops. op_u64 op"
    and "Some Buffering \<notin> set (fst (io_run (jitter_step fl) ops jb))"
  shows "sorted (played_positions fl ops jb) \<and> (\<forall>t\<in>set (played_positions fl ops jb). p \<le> t)"
  using assms
proof (induction ops arbitrary: p jb)
  case (Cons op ops)
  show ?case
  proof (cases "\<exists>out. op = Pop out")
    case True
    then obtain out where op: "op = Pop out" by blast
    obtain st out' jb' where r: "jitter_pop out jb = (st, out', jb')" by (cases "jitter_pop out jb")
    have step: "jitter_step fl op jb = (Some st, jb')" by (simp add: op r)
    then have "st \<noteq> Buffering" using Cons.prems(4) by auto
    then obtain q where q: "jb_play_ts jb = Some q" "p \<le> q" "playing q jb'"
      using pop_playing [OF Cons.prems(1) r] by blast
    have "sorted (played_positions fl ops jb') \<and> (\<forall>t\<in>set (played_positions fl ops jb'). q \<le> t)"
      using Cons.IH [OF q(3)] Cons.prems step by auto
    moreover have "the (jb_play_ts (started jb)) = q"
      using Cons.prems(1) q(1) by (simp add: started_def playing_def)
    ultimately show ?thesis using q(2) by (auto simp: step)
  next
    case False
    have op: "op \<noteq> Reset" "op_u64 op" using Cons.prems(2,3) by auto
    have "\<And>out. op \<noteq> Pop out" using False by blast
    note step = step_playing [OF Cons.prems(1) op this]
    then show ?thesis using Cons.IH [OF step(1)] Cons.prems step(2) by simp
  qed
qed simp

definition example_ops :: "int jitter_op list" where
  "example_ops = [Push 0 (replicate 480 1) 0, Push 480 (replicate 480 1) 480, Pop (replicate 480 0)]"

theorem jitter_plays_in_order_witness:
  "sorted (played_positions (\<lambda>x. x) [Push 0 (replicate 480 2) 900, Pop (replicate 480 0)]
     (snd (io_run (jitter_step (\<lambda>x. x)) example_ops (jitter_new example_cfg))))"
proof -
  let ?jb = "snd (io_run (jitter_step (\<lambda>x. x)) example_ops (jitter_new example_cfg))"
  have "playing 0 ?jb"
    by (simp add: example_ops_def example_cfg_def jitter_eval playing_def jitter_wf_def frame_keys_def)
  moreover have "Some Buffering \<notin> set (fst (io_run (jitter_step (\<lambda>x. x))
      [Push 0 (replicate 480 2) 900, Pop (replicate 480 0)] ?jb))"
    by (simp add: example_ops_def example_cfg_def jitter_eval)
  ultimately show ?thesis
    using jitter_plays_in_order [of 0 ?jb "[Push 0 (replicate 480 2) 900, Pop (replicate 480 0)]" "\<lambda>x. x"]
    by simp
qed

section \<open>The target converges\<close>

lemma adapt_target:
  assumes "jitter_wf jb"
  shows "jb_target_samples (adapt jb) =
           (if jb_target_samples jb < needed_samples jb then needed_samples jb
            else max (jb_target_samples jb - 48) (needed_samples jb))"
    and "needed_samples (adapt jb) = needed_samples jb" "jitter_wf (adapt jb)"
proof -
  have b: "target_min (jb_cfg jb) \<le> needed_samples jb" "needed_samples jb \<le> target_max (jb_cfg jb)"
    using target_bounds by (auto simp: needed_samples_def)
  show "jb_target_samples (adapt jb) =
           (if jb_target_samples jb < needed_samples jb then needed_samples jb
            else max (jb_target_samples jb - 48) (needed_samples jb))"
    using b assms
    by (auto simp: adapt_def Let_def clamp_target_def jitter_wf_def ms_to_samples_def SAMPLE_RATE_def)
  show "needed_samples (adapt jb) = needed_samples jb" by (simp add: adapt_def needed_samples_def Let_def)
  show "jitter_wf (adapt jb)" using assms by (rule wf_simple_ops(2))
qed

text \<open>With steady jitter the target delay reaches what is needed and stays there: it grows to it in one
  adaptation and shrinks towards it by at most 1 ms (48 samples) in each, never below it.\<close>

theorem adapt_converges:
  assumes "jitter_wf jb"
  shows "jb_target_samples ((adapt ^^ n) jb) =
           (if jb_target_samples jb < needed_samples jb
            then (if n = 0 then jb_target_samples jb else needed_samples jb)
            else max (jb_target_samples jb - 48 * n) (needed_samples jb))"
proof -
  have "needed_samples ((adapt ^^ n) jb) = needed_samples jb \<and> jitter_wf ((adapt ^^ n) jb)" for n
    by (induction n) (simp_all add: assms adapt_target)
  note inv = this
  show ?thesis
  proof (induction n)
    case (Suc n)
    have "jb_target_samples ((adapt ^^ Suc n) jb) =
        (if jb_target_samples ((adapt ^^ n) jb) < needed_samples jb then needed_samples jb
         else max (jb_target_samples ((adapt ^^ n) jb) - 48) (needed_samples jb))"
      using adapt_target(1) [of "(adapt ^^ n) jb"] inv [of n] by simp
    moreover have "max (max (t - 48 * n) m - 48) m = max (t - 48 * Suc n) m" for t m :: nat by simp
    ultimately show ?case unfolding Suc.IH by auto
  qed simp
qed

theorem adapt_converges_witness:
  "jb_target_samples ((adapt ^^ 20) (set_bounds 0 100 (jitter_new example_cfg :: int JitterBuffer))) = 480"
proof -
  let ?jb = "set_bounds 0 100 (jitter_new example_cfg :: int JitterBuffer)"
  have "jitter_wf ?jb" by (intro wf_simple_ops new_wf)
  from adapt_converges [OF this, of 20] show ?thesis
    by (simp add: set_bounds_def example_cfg_def jitter_eval needed_samples_def percentile_deviation_def)
qed

section \<open>An addition that is not saturating\<close>

text \<open>Two frames from a hostile sender, one short frame at 0 and one at the end of the u64 range, make
  \<open>buffered_samples() + advance\<close> exceed u64: a debug build panics, a release build compares the wrapped
  sum and holds the play position although the buffer is far above its target.\<close>

lemma hostile_timestamps_wrap:
  "let jb = snd (io_run (jitter_step (\<lambda>x. x))
       [Push 0 [1::int] 0, Push 18446744073709551615 [1] 0, Pop (replicate 480 0)] (jitter_new example_cfg))
   in jb_play_ts jb = Some 1 \<and>
      2 ^ 64 \<le> buffered_samples jb + jc_frame_samples (jb_cfg jb) \<and>
      fst (jitter_pop (replicate 480 0) jb) = Missing \<and>
      jb_play_ts (snd (snd (jitter_pop (replicate 480 0) jb))) = Some 1"
  by (simp add: example_cfg_def jitter_eval)

end
