(* ===== verification/Net_Address.thy ===== *)
theory Net_Address
  imports Prelude "HOL-Library.Product_Lexorder"
begin

text \<open>
  The parts of \<open>std::net\<close> the core relies on (addresses as 32 and 128 bit numbers in network
  order, socket addresses with the scope fields of IPv6), the canonical form used as the key of the
  per-source tables, and the ranking of candidate addresses of \<open>sp-discovery/src/candidates.rs\<close>.
\<close>

unbundle bit_operations_syntax

section \<open>Addresses\<close>

datatype IpAddr = V4 u32 | V6 "128 word"

datatype SocketAddr =
    SocketV4 (sa_v4: u32) (sa_port: u16)
  | SocketV6 (sa_v6: "128 word") (sa_port: u16) (sa_flowinfo: u32) (sa_scope_id: u32)

definition sa_ip :: "SocketAddr \<Rightarrow> IpAddr" where
  "sa_ip a = (case a of SocketV4 ip _ \<Rightarrow> V4 ip | SocketV6 ip _ _ _ \<Rightarrow> V6 ip)"

definition sa_is_ipv6 :: "SocketAddr \<Rightarrow> bool" where
  "sa_is_ipv6 a = (case a of SocketV4 _ _ \<Rightarrow> False | SocketV6 _ _ _ _ \<Rightarrow> True)"

text \<open>\<open>SocketAddr::new\<close>: an IPv6 address gets flow information and scope 0.\<close>

definition socket_addr :: "IpAddr \<Rightarrow> u16 \<Rightarrow> SocketAddr" where
  "socket_addr ip port = (case ip of V4 a \<Rightarrow> SocketV4 a port | V6 a \<Rightarrow> SocketV6 a port 0 0)"

lemma socket_addr_fields [simp]:
  "sa_ip (socket_addr ip port) = ip" "sa_port (socket_addr ip port) = port"
  by (auto simp: socket_addr_def sa_ip_def split: IpAddr.splits)

definition v4_octets :: "u32 \<Rightarrow> bytes" where
  "v4_octets ip = be_encode 4 (unat ip)"

definition v4_from_octets :: "bytes \<Rightarrow> u32" where
  "v4_from_octets bs = word_of_nat (be_decode bs)"

definition v6_octets :: "128 word \<Rightarrow> bytes" where
  "v6_octets ip = be_encode 16 (unat ip)"

definition v6_from_octets :: "bytes \<Rightarrow> 128 word" where
  "v6_from_octets bs = word_of_nat (be_decode bs)"

lemma v4_octets_roundtrip [simp]: "v4_from_octets (v4_octets ip) = ip"
  using get_u32_put [of ip] by (simp add: v4_from_octets_def v4_octets_def get_u32_def put_u32_def)

lemma v6_octets_roundtrip [simp]: "v6_from_octets (v6_octets ip) = ip"
proof -
  have "unat ip < 256 ^ 16" using unsigned_less [of ip] by simp
  then show ?thesis by (simp add: v6_from_octets_def v6_octets_def be_decode_encode)
qed

lemma length_octets [simp]: "length (v4_octets a) = 4" "length (v6_octets b) = 16"
  by (simp_all add: v4_octets_def v6_octets_def)

definition v4_octet :: "nat \<Rightarrow> u32 \<Rightarrow> nat" where
  "v4_octet i ip = unat ip div 256 ^ (3 - i) mod 256"

definition v6_segment0 :: "128 word \<Rightarrow> u16" where
  "v6_segment0 ip = ucast (drop_bit 112 ip)"

definition v4_is_loopback :: "u32 \<Rightarrow> bool" where
  "v4_is_loopback ip \<longleftrightarrow> v4_octet 0 ip = 127"

definition v4_is_unspecified :: "u32 \<Rightarrow> bool" where
  "v4_is_unspecified ip \<longleftrightarrow> ip = 0"

definition v4_is_broadcast :: "u32 \<Rightarrow> bool" where
  "v4_is_broadcast ip \<longleftrightarrow> ip = 0xffffffff"

definition v4_is_link_local :: "u32 \<Rightarrow> bool" where
  "v4_is_link_local ip \<longleftrightarrow> v4_octet 0 ip = 169 \<and> v4_octet 1 ip = 254"

definition v6_is_loopback :: "128 word \<Rightarrow> bool" where
  "v6_is_loopback ip \<longleftrightarrow> ip = 1"

definition v6_is_unspecified :: "128 word \<Rightarrow> bool" where
  "v6_is_unspecified ip \<longleftrightarrow> ip = 0"

text \<open>\<open>Ipv6Addr::to_ipv4_mapped\<close>: the addresses \<open>::ffff:a.b.c.d\<close>.\<close>

definition to_ipv4_mapped :: "128 word \<Rightarrow> u32 option" where
  "to_ipv4_mapped ip = (if unat ip div 2 ^ 32 = 0xffff then Some (ucast ip) else None)"

text \<open>\<open>canonical\<close> of the pairing limiter, the same as \<open>IpAddr::to_canonical\<close>.\<close>

definition canonical :: "IpAddr \<Rightarrow> IpAddr" where
  "canonical ip = (case ip of
       V6 v6 \<Rightarrow> (case to_ipv4_mapped v6 of Some v4 \<Rightarrow> V4 v4 | None \<Rightarrow> V6 v6)
     | V4 v4 \<Rightarrow> V4 v4)"

lemma canonical_idem [simp]: "canonical (canonical ip) = canonical ip"
  by (auto simp: canonical_def split: IpAddr.splits option.splits)

section \<open>Candidate addresses\<close>

definition rank :: "SocketAddr \<Rightarrow> nat" where
  "rank addr = (case sa_ip addr of
       V4 v4 \<Rightarrow>
         if v4_is_loopback v4 \<or> v4_is_unspecified v4 \<or> v4_is_broadcast v4 then 255
         else if v4_octet 0 v4 = 192 \<and> v4_octet 1 v4 = 168 then 0
         else if v4_octet 0 v4 = 10 then 1
         else if v4_octet 0 v4 = 172 \<and> 16 \<le> v4_octet 1 v4 \<and> v4_octet 1 v4 \<le> 31 then
           (if 17 \<le> v4_octet 1 v4 then 20 else 2)
         else if v4_is_link_local v4 then 30
         else 10
     | V6 v6 \<Rightarrow>
         if v6_is_loopback v6 \<or> v6_is_unspecified v6 then 255
         else if v6_segment0 v6 AND 0xffc0 = 0xfe80 then 15
         else if v6_segment0 v6 AND 0xfe00 = 0xfc00 then 5
         else 12)"

definition usable :: "SocketAddr \<Rightarrow> bool" where
  "usable a \<longleftrightarrow> rank a < 255 \<and> sa_port a \<noteq> 0"

definition candidate_key :: "SocketAddr \<Rightarrow> nat \<times> bool" where
  "candidate_key a = (rank a, sa_is_ipv6 a)"

text \<open>\<open>sort_by_key\<close> is stable, as \<open>sort_key\<close> is; \<open>Vec::dedup\<close> removes consecutive repetitions only.\<close>

definition order :: "SocketAddr list \<Rightarrow> SocketAddr list" where
  "order addrs = remdups_adj (sort_key candidate_key (filter usable addrs))"

lemma set_order [simp]: "set (order addrs) = {a \<in> set addrs. usable a}"
  by (auto simp: order_def)

lemma sorted_remdups_adj_key: "sorted (map f xs) \<Longrightarrow> sorted (map f (remdups_adj xs))"
  by (induction xs rule: remdups_adj.induct) auto

lemma sorted_order: "sorted (map candidate_key (order addrs))"
  by (simp add: order_def sorted_remdups_adj_key)

text \<open>A list that is already ordered and has no equal neighbours stays as it is.\<close>

lemma order_fixed:
  "sorted (map candidate_key addrs) \<Longrightarrow> list_all usable addrs \<Longrightarrow> distinct_adj addrs
     \<Longrightarrow> order addrs = addrs"
  by (simp add: order_def filter_id_conv list_all_iff sort_key_id_if_sorted
      flip: distinct_adj_altdef)

lemma order_idem: "order (order addrs) = order addrs"
proof (rule order_fixed)
  show "distinct_adj (order addrs)" by (simp add: order_def)
qed (auto simp: sorted_order list_all_iff)

text \<open>The best address comes first: no candidate of the input ranks below it.\<close>

lemma order_hd_best:
  assumes "order addrs = a # rest" "b \<in> set addrs" "usable b"
  shows "rank a \<le> rank b"
proof -
  have "b \<in> set (a # rest)" using assms set_order by (metis (mono_tags, lifting) mem_Collect_eq)
  moreover have "sorted (map candidate_key (a # rest))" using sorted_order assms by metis
  ultimately have "candidate_key a \<le> candidate_key b" by auto
  then show ?thesis by (auto simp: candidate_key_def less_eq_prod_def)
qed

end
