(* ===== verification/Rust_Strings.thy ===== *)
theory Rust_Strings
  imports Prelude
begin

text \<open>
  Rust strings are byte sequences that are valid UTF-8. This theory holds the part of \<open>str\<close> the
  core uses: validation (\<open>String::from_utf8\<close>), character boundaries, cutting at a boundary, and
  \<open>trim\<close>, which removes the code points with the Unicode property White_Space at both ends.
\<close>

section \<open>Literals\<close>

definition ascii :: "string \<Rightarrow> bytes" where
  "ascii s = map of_char s"

section \<open>UTF-8\<close>

definition is_cont :: "u8 \<Rightarrow> bool" where
  "is_cont b \<longleftrightarrow> 128 \<le> b \<and> b < 192"

text \<open>How many bytes a character takes, by its first byte (0 for a byte that starts none).\<close>

definition lead_width :: "u8 \<Rightarrow> nat" where
  "lead_width b =
     (if b < 128 then 1 else if b < 194 then 0 else if b < 224 then 2
      else if b < 240 then 3 else if b < 245 then 4 else 0)"

text \<open>Limits on the second byte: no overlong forms, no surrogates, nothing above U+10FFFF.\<close>

definition second_ok :: "u8 \<Rightarrow> u8 \<Rightarrow> bool" where
  "second_ok b c \<longleftrightarrow>
     (b = 224 \<longrightarrow> 160 \<le> c) \<and> (b = 237 \<longrightarrow> c < 160) \<and> (b = 240 \<longrightarrow> 144 \<le> c) \<and> (b = 244 \<longrightarrow> c < 144)"

definition char_ok :: "u8 \<Rightarrow> bytes \<Rightarrow> bool" where
  "char_ok b t \<longleftrightarrow>
     0 < lead_width b \<and> length t = lead_width b - 1 \<and> list_all is_cont t
       \<and> (t = [] \<or> second_ok b (hd t))"

text \<open>The length of the first character of \<open>bs\<close>, 0 when \<open>bs\<close> does not start with one.\<close>

fun utf8_width :: "bytes \<Rightarrow> nat" where
  "utf8_width [] = 0"
| "utf8_width (b # r) = (if char_ok b (take (lead_width b - 1) r) then lead_width b else 0)"

function utf8_valid :: "bytes \<Rightarrow> bool" where
  "utf8_valid bs =
     (if bs = [] then True
      else if utf8_width bs = 0 then False
      else utf8_valid (drop (utf8_width bs) bs))"
  by pat_completeness auto
termination
  by (relation "measure length") auto

declare utf8_valid.simps [simp del]

lemma utf8_valid_Nil [simp]: "utf8_valid []"
  by (simp add: utf8_valid.simps)

text \<open>A string that starts with a character is that character and a rest.\<close>

lemma utf8_width_pos:
  assumes "0 < utf8_width bs"
  obtains b t r where "bs = b # t @ r" "char_ok b t" "utf8_width bs = Suc (length t)"
proof (cases bs)
  case (Cons b r)
  let ?n = "lead_width b - 1"
  have ok: "char_ok b (take ?n r)" using assms Cons by (auto split: if_splits)
  show thesis
  proof (rule that)
    show "bs = b # take ?n r @ drop ?n r" using Cons by simp
    show "char_ok b (take ?n r)" by (rule ok)
    have "Suc (length (take ?n r)) = lead_width b" using ok unfolding char_ok_def by linarith
    then show "utf8_width bs = Suc (length (take ?n r))" using Cons ok by simp
  qed
qed (use assms in simp)

lemma utf8_width_char: "char_ok b t \<Longrightarrow> utf8_width (b # t @ r) = Suc (length t)"
  by (simp add: char_ok_def)

declare utf8_width.simps(2) [simp del]

lemma utf8_width_le: "utf8_width bs \<le> length bs"
  by (cases "0 < utf8_width bs") (auto elim!: utf8_width_pos)

lemma utf8_width_append: "0 < utf8_width bs \<Longrightarrow> utf8_width (bs @ cs) = utf8_width bs"
  by (erule utf8_width_pos) (auto simp: utf8_width_char)

lemma utf8_width_take: "0 < utf8_width bs \<Longrightarrow> utf8_width bs \<le> n \<Longrightarrow> utf8_width (take n bs) = utf8_width bs"
  by (erule utf8_width_pos) (auto simp: take_Cons' utf8_width_char)

lemma utf8_valid_append:
  "utf8_valid bs \<Longrightarrow> utf8_valid cs \<Longrightarrow> utf8_valid (bs @ cs)"
proof (induction bs rule: utf8_valid.induct)
  case (1 bs)
  show ?case
  proof (cases "bs = []")
    case False
    then have w: "0 < utf8_width bs" and v: "utf8_valid (drop (utf8_width bs) bs)"
      using 1 by (auto simp: utf8_valid.simps [of bs] split: if_splits)
    then have "utf8_valid (drop (utf8_width bs) bs @ cs)"
      using 1 False by blast
    then show ?thesis
      using w utf8_width_le [of bs] utf8_width_append [OF w]
      by (subst utf8_valid.simps) simp
  qed (use 1 in simp)
qed

lemma ascii_valid: "(\<And>b. b \<in> set bs \<Longrightarrow> b < 128) \<Longrightarrow> utf8_valid bs"
proof (induction bs)
  case (Cons b bs)
  have "utf8_width (b # bs) = 1" using Cons.prems [of b] by (simp add: utf8_width.simps(2) char_ok_def lead_width_def)
  then show ?case using Cons by (subst utf8_valid.simps) auto
qed simp

section \<open>Character boundaries\<close>

definition is_char_boundary :: "bytes \<Rightarrow> nat \<Rightarrow> bool" where
  "is_char_boundary s i \<longleftrightarrow> i = 0 \<or> i = length s \<or> (i < length s \<and> \<not> is_cont (s ! i))"

lemma utf8_width_tail:
  assumes "0 < i" "i < utf8_width bs" shows "is_cont (bs ! i)"
proof -
  obtain b t r where bs: "bs = b # t @ r" "char_ok b t" "utf8_width bs = Suc (length t)"
    using assms utf8_width_pos by (metis gr0I not_less_zero)
  then have "is_cont (t ! (i - 1))" using assms by (auto simp: char_ok_def list_all_length)
  moreover have "i - 1 < length t" using assms bs(3) by simp
  ultimately show ?thesis using assms(1) bs(1) by (simp add: nth_append)
qed

lemma utf8_valid_take:
  "utf8_valid bs \<Longrightarrow> is_char_boundary bs n \<Longrightarrow> utf8_valid (take n bs)"
proof (induction bs arbitrary: n rule: utf8_valid.induct)
  case (1 bs)
  show ?case
  proof (cases "bs = [] \<or> n = 0 \<or> length bs \<le> n")
    case True
    then show ?thesis using 1 by auto
  next
    case False
    let ?w = "utf8_width bs"
    have w: "0 < ?w" and v: "utf8_valid (drop ?w bs)"
      using 1 False by (auto simp: utf8_valid.simps [of bs] split: if_splits)
    have "\<not> is_cont (bs ! n)" using 1 False by (auto simp: is_char_boundary_def)
    then have n: "?w \<le> n" using utf8_width_tail [of n bs] False by force
    have "is_char_boundary (drop ?w bs) (n - ?w)"
      using 1 False n utf8_width_le [of bs] by (auto simp: is_char_boundary_def)
    then have "utf8_valid (take (n - ?w) (drop ?w bs))" using 1 False v w by blast
    then show ?thesis
      using w n utf8_width_take [OF w n] False
      by (subst utf8_valid.simps) (auto simp: drop_take)
  qed
qed

section \<open>Trimming\<close>

text \<open>The UTF-8 forms of the White_Space code points.\<close>

definition WHITE_SPACE :: "bytes list" where
  "WHITE_SPACE =
     [[9], [10], [11], [12], [13], [32], [194, 133], [194, 160], [225, 154, 128],
      [226, 128, 128], [226, 128, 129], [226, 128, 130], [226, 128, 131], [226, 128, 132],
      [226, 128, 133], [226, 128, 134], [226, 128, 135], [226, 128, 136], [226, 128, 137],
      [226, 128, 138], [226, 128, 168], [226, 128, 169], [226, 128, 175], [226, 129, 159],
      [227, 128, 128]]"

text \<open>The length of the White_Space character at the front and at the end of \<open>bs\<close>, 0 when there is
  none. In a valid string no other character ends in these bytes.\<close>

definition ws_width :: "bytes \<Rightarrow> nat" where
  "ws_width bs = (case find (\<lambda>w. prefix w bs) WHITE_SPACE of None \<Rightarrow> 0 | Some w \<Rightarrow> length w)"

definition ws_width_end :: "bytes \<Rightarrow> nat" where
  "ws_width_end bs = (case find (\<lambda>w. suffix w bs) WHITE_SPACE of None \<Rightarrow> 0 | Some w \<Rightarrow> length w)"

lemma ws_width_le: "ws_width bs \<le> length bs"
  by (auto simp: ws_width_def find_Some_iff prefix_length_le split: option.splits)

lemma ws_width_end_le: "ws_width_end bs \<le> length bs"
  by (auto simp: ws_width_end_def find_Some_iff suffix_length_le split: option.splits)

function trim_start :: "bytes \<Rightarrow> bytes" where
  "trim_start bs = (if ws_width bs = 0 then bs else trim_start (drop (ws_width bs) bs))"
  by pat_completeness auto
termination
proof (relation "measure length", simp)
  fix bs :: bytes
  assume "ws_width bs \<noteq> 0"
  then show "(drop (ws_width bs) bs, bs) \<in> measure length"
    using ws_width_le [of bs] by auto
qed

declare trim_start.simps [simp del]

function trim_end :: "bytes \<Rightarrow> bytes" where
  "trim_end bs =
     (if ws_width_end bs = 0 then bs else trim_end (take (length bs - ws_width_end bs) bs))"
  by pat_completeness auto
termination
proof (relation "measure length", simp)
  fix bs :: bytes
  assume "ws_width_end bs \<noteq> 0"
  then show "(take (length bs - ws_width_end bs) bs, bs) \<in> measure length"
    using ws_width_end_le [of bs] by auto
qed

declare trim_end.simps [simp del]

definition trim :: "bytes \<Rightarrow> bytes" where
  "trim bs = trim_end (trim_start bs)"

lemma trim_fixed: "ws_width bs = 0 \<Longrightarrow> ws_width_end bs = 0 \<Longrightarrow> trim bs = bs"
  by (simp add: trim_def trim_start.simps [of bs] trim_end.simps [of bs])

text \<open>Printable ASCII has nothing to trim.\<close>

lemma white_space_bytes: "w \<in> set WHITE_SPACE \<Longrightarrow> w \<noteq> [] \<and> (\<forall>b\<in>set w. b \<le> 32 \<or> 128 \<le> b)"
  by (simp add: WHITE_SPACE_def) auto

lemma trim_printable:
  assumes "\<And>c. c \<in> set bs \<Longrightarrow> 32 < c \<and> c < 128"
  shows "trim bs = bs"
proof (rule trim_fixed)
  have no_ws: "\<not> set w \<subseteq> set bs" if "w \<in> set WHITE_SPACE" for w
  proof -
    obtain b where b: "b \<in> set w" "b \<le> 32 \<or> 128 \<le> b"
      using white_space_bytes [OF \<open>w \<in> set WHITE_SPACE\<close>] by (metis list.set_sel(1))
    then have "b \<notin> set bs" using assms [of b] by auto
    then show ?thesis using b by blast
  qed
  have "find (\<lambda>w. prefix w bs) WHITE_SPACE = None"
    using no_ws set_mono_prefix by (fastforce simp: find_None_iff)
  then show "ws_width bs = 0" by (simp add: ws_width_def)
  have "find (\<lambda>w. suffix w bs) WHITE_SPACE = None"
    using no_ws set_mono_suffix by (fastforce simp: find_None_iff)
  then show "ws_width_end bs = 0" by (simp add: ws_width_end_def)
qed

section \<open>Characters\<close>

text \<open>\<open>chars().count()\<close> and \<open>chars().take(n).collect()\<close>. A character is counted by its one byte that is
  not a continuation byte.\<close>

definition char_count :: "bytes \<Rightarrow> nat" where
  "char_count bs = length (filter (\<lambda>b. \<not> is_cont b) bs)"

fun take_chars :: "nat \<Rightarrow> bytes \<Rightarrow> bytes" where
  "take_chars 0 bs = []"
| "take_chars (Suc n) bs =
     (if utf8_width bs = 0 then [] else take (utf8_width bs) bs @ take_chars n (drop (utf8_width bs) bs))"

lemma take_chars_Nil [simp]: "take_chars n [] = []"
  by (cases n) auto

lemma char_count_append [simp]: "char_count (a @ b) = char_count a + char_count b"
  by (simp add: char_count_def)

lemma char_count_first:
  assumes "0 < utf8_width bs"
  shows "char_count (take (utf8_width bs) bs) = 1"
proof -
  obtain b t r where bs: "bs = b # t @ r" "char_ok b t" "utf8_width bs = Suc (length t)"
    using assms utf8_width_pos by blast
  then have "0 < lead_width b" "filter (\<lambda>b. \<not> is_cont b) t = []"
    by (auto simp: char_ok_def list_all_iff filter_empty_conv)
  moreover from this(1) have "\<not> is_cont b"
    by (auto simp: is_cont_def lead_width_def word_less_nat_alt word_le_nat_alt split: if_splits)
  ultimately show ?thesis using bs by (simp add: char_count_def)
qed

lemma take_chars_prefix: "prefix (take_chars n bs) bs"
proof (induction n bs rule: take_chars.induct)
  case (2 n bs)
  then show ?case
    by (cases "utf8_width bs = 0") (auto intro: prefix_def [THEN iffD2] elim!: prefixE simp: prefix_def,
        metis append.assoc append_take_drop_id)
qed simp

lemma take_chars_count: "char_count (take_chars n bs) \<le> n"
  by (induction n bs rule: take_chars.induct) (auto simp: char_count_first char_count_def [of "[]"])

lemma utf8_valid_drop_first:
  "utf8_valid bs \<Longrightarrow> bs \<noteq> [] \<Longrightarrow> 0 < utf8_width bs \<and> utf8_valid (drop (utf8_width bs) bs)"
  by (auto simp: utf8_valid.simps [of bs] split: if_splits)

lemma take_chars_id: "utf8_valid bs \<Longrightarrow> char_count bs \<le> n \<Longrightarrow> take_chars n bs = bs"
proof (induction n bs rule: take_chars.induct)
  case (1 bs)
  show ?case
  proof (rule ccontr)
    assume "take_chars 0 bs \<noteq> bs"
    then have w: "0 < utf8_width bs" using 1 utf8_valid_drop_first [of bs] by (cases "bs = []") auto
    have "char_count bs = char_count (take (utf8_width bs) bs) + char_count (drop (utf8_width bs) bs)"
      by (metis append_take_drop_id char_count_append)
    then show False using 1 char_count_first [OF w] by simp
  qed
next
  case (2 n bs)
  show ?case
  proof (cases "bs = []")
    case False
    then have w: "0 < utf8_width bs" and v: "utf8_valid (drop (utf8_width bs) bs)"
      using 2 utf8_valid_drop_first [of bs] by auto
    have "char_count bs = char_count (take (utf8_width bs) bs) + char_count (drop (utf8_width bs) bs)"
      by (metis append_take_drop_id char_count_append)
    then show ?thesis using 2 v w char_count_first [OF w] by simp
  qed simp
qed

lemma take_chars_valid: "utf8_valid bs \<Longrightarrow> utf8_valid (take_chars n bs)"
proof (induction n bs rule: take_chars.induct)
  case (2 n bs)
  show ?case
  proof (cases "bs = []")
    case False
    then have w: "0 < utf8_width bs" and v: "utf8_valid (drop (utf8_width bs) bs)"
      using 2 utf8_valid_drop_first [of bs] by auto
    have "utf8_valid (take (utf8_width bs) bs)"
      using w utf8_width_take [OF w order_refl] utf8_width_le [of bs] by (subst utf8_valid.simps) simp
    then show ?thesis using 2 v w by (auto intro: utf8_valid_append)
  qed simp
qed simp

text \<open>Trimming cuts whole characters.\<close>

lemma white_space_char: "w \<in> set WHITE_SPACE \<Longrightarrow> w \<noteq> [] \<and> char_ok (hd w) (tl w) \<and> \<not> is_cont (hd w)"
proof -
  have "list_all (\<lambda>w. w \<noteq> [] \<and> char_ok (hd w) (tl w) \<and> \<not> is_cont (hd w)) WHITE_SPACE"
    by (simp add: WHITE_SPACE_def char_ok_def lead_width_def is_cont_def second_ok_def)
  then show "w \<in> set WHITE_SPACE \<Longrightarrow> ?thesis" by (simp add: list_all_iff)
qed

lemma find_SomeD: "find P xs = Some x \<Longrightarrow> x \<in> set xs \<and> P x"
  by (induction xs) (auto split: if_splits)

lemma ws_width_cases:
  assumes "ws_width bs \<noteq> 0"
  obtains w r where "w \<in> set WHITE_SPACE" "bs = w @ r" "ws_width bs = length w"
proof -
  obtain w where "find (\<lambda>w. prefix w bs) WHITE_SPACE = Some w" "ws_width bs = length w"
    using assms by (auto simp: ws_width_def split: option.splits)
  then show thesis using find_SomeD that by (fastforce elim!: prefixE)
qed

lemma ws_width_end_cases:
  assumes "ws_width_end bs \<noteq> 0"
  obtains w r where "w \<in> set WHITE_SPACE" "bs = r @ w" "ws_width_end bs = length w"
proof -
  obtain w where "find (\<lambda>w. suffix w bs) WHITE_SPACE = Some w" "ws_width_end bs = length w"
    using assms by (auto simp: ws_width_end_def split: option.splits)
  then show thesis using find_SomeD that by (fastforce elim!: suffixE)
qed

lemma ws_width_zero: "ws_width bs = 0 \<longleftrightarrow> (\<forall>w\<in>set WHITE_SPACE. \<not> prefix w bs)"
  using white_space_char
  by (auto simp: ws_width_def find_None_iff split: option.splits dest: find_SomeD)

lemma ws_width_prefix: "ws_width bs = 0 \<Longrightarrow> prefix cs bs \<Longrightarrow> ws_width cs = 0"
  using prefix_order.trans [of _ cs bs] by (auto simp: ws_width_zero)

lemma trim_start_valid: "utf8_valid bs \<Longrightarrow> utf8_valid (trim_start bs)"
proof (induction bs rule: trim_start.induct)
  case (1 bs)
  show ?case
  proof (cases "ws_width bs = 0")
    case False
    then obtain w r where w: "w \<in> set WHITE_SPACE" "bs = w @ r" "ws_width bs = length w"
      using ws_width_cases [of bs] by metis
    then have "bs = hd w # tl w @ r" "char_ok (hd w) (tl w)" "w \<noteq> []" using white_space_char [OF w(1)] by auto
    then have "utf8_width bs = ws_width bs" using utf8_width_char [of "hd w" "tl w" r] w(3) by (metis Suc_length_conv list.collapse)
    then have "utf8_valid (drop (ws_width bs) bs)"
      using utf8_valid_drop_first [OF 1(2)] False by (cases "bs = []") auto
    then show ?thesis using 1 False by (simp add: trim_start.simps [of bs])
  qed (use 1 in \<open>simp add: trim_start.simps [of bs]\<close>)
qed

lemma trim_end_valid: "utf8_valid bs \<Longrightarrow> utf8_valid (trim_end bs)"
proof (induction bs rule: trim_end.induct)
  case (1 bs)
  show ?case
  proof (cases "ws_width_end bs = 0")
    case False
    then obtain w r where w: "w \<in> set WHITE_SPACE" "bs = r @ w" "ws_width_end bs = length w"
      using ws_width_end_cases [of bs] by metis
    then have "is_char_boundary bs (length r)"
      using white_space_char [OF w(1)] by (auto simp: is_char_boundary_def nth_append hd_conv_nth)
    then have "utf8_valid (take (length bs - ws_width_end bs) bs)"
      using utf8_valid_take [OF 1(2), of "length r"] w by simp
    then show ?thesis using 1 False by (simp add: trim_end.simps [of bs])
  qed (use 1 in \<open>simp add: trim_end.simps [of bs]\<close>)
qed

lemma trim_start_stops: "ws_width (trim_start bs) = 0"
  by (induction bs rule: trim_start.induct) (metis trim_start.simps)

lemma trim_end_stops: "ws_width_end (trim_end bs) = 0"
  by (induction bs rule: trim_end.induct) (metis trim_end.simps)

lemma trim_end_prefix: "prefix (trim_end bs) bs"
  by (induction bs rule: trim_end.induct) (metis prefix_order.dual_order.trans prefix_order.refl take_is_prefix trim_end.simps)

lemma trim_valid: "utf8_valid bs \<Longrightarrow> utf8_valid (trim bs)"
  by (simp add: trim_def trim_start_valid trim_end_valid)

lemma trim_stops: "ws_width (trim bs) = 0" "ws_width_end (trim bs) = 0"
  using ws_width_prefix [OF trim_start_stops trim_end_prefix] trim_end_stops by (simp_all add: trim_def)

lemma trim_trim [simp]: "trim (trim bs) = trim bs"
  by (rule trim_fixed [OF trim_stops])

text \<open>The code's \<open>s.trim().chars().take(n).collect()\<close>.\<close>

definition trim_take :: "nat \<Rightarrow> bytes \<Rightarrow> bytes" where
  "trim_take n bs = take_chars n (trim bs)"

lemma char_count_prefix: "prefix a b \<Longrightarrow> char_count a \<le> char_count b"
  by (auto elim!: prefixE)

lemma trim_take_bounds:
  "char_count (trim_take n bs) \<le> n" "utf8_valid bs \<Longrightarrow> utf8_valid (trim_take n bs)"
  by (simp_all add: trim_take_def take_chars_count take_chars_valid trim_valid)

text \<open>Cutting can leave white space at the end; a second pass removes it, and a third changes nothing.\<close>

lemma trim_take_fixed:
  assumes "utf8_valid bs" "char_count bs \<le> n" "trim bs = bs" shows "trim_take n bs = bs"
  using assms by (simp add: trim_take_def take_chars_id)

lemma trim_take_twice:
  assumes "utf8_valid bs" shows "trim_take n (trim_take n (trim_take n bs)) = trim_take n (trim_take n bs)"
proof -
  let ?x = "trim_take n bs"
  have v: "utf8_valid ?x" and c: "char_count ?x \<le> n" using trim_take_bounds assms by auto
  have "prefix ?x (trim bs)" by (simp add: trim_take_def take_chars_prefix)
  then have w: "ws_width ?x = 0" using ws_width_prefix trim_stops(1) by blast
  then have "trim_start ?x = ?x" by (subst trim_start.simps) simp
  then have t: "prefix (trim ?x) ?x" using trim_end_prefix by (metis trim_def)
  then have "char_count (trim ?x) \<le> n" using char_count_prefix c by fastforce
  then have "trim_take n ?x = trim ?x" using take_chars_id [of "trim ?x" n] trim_valid [OF v] by (simp add: trim_take_def)
  then show ?thesis
    using trim_take_fixed [of "trim ?x" n] trim_valid [OF v] \<open>char_count (trim ?x) \<le> n\<close> by simp
qed

end
