(* ===== verification/Base32.thy ===== *)
theory Base32
  imports Rust_Strings
begin

text \<open>
  The base32 coders of the security crate: the RFC 4648 alphabet of the pairing code (encoder and
  decoder, \<open>pairing.rs\<close>) and the Crockford alphabet of the display code (\<open>identity.rs\<close>). Both
  encoders shift bytes through a 32-bit buffer of which only the low bits matter; the proofs follow
  the pending bits of that buffer, most significant first.
\<close>

unbundle bit_operations_syntax

section \<open>The coders\<close>

definition BASE32 :: bytes where
  "BASE32 = ascii ''ABCDEFGHIJKLMNOPQRSTUVWXYZ234567''"

definition CROCKFORD :: bytes where
  "CROCKFORD = ascii ''0123456789ABCDEFGHJKMNPQRSTVWXYZ''"

text \<open>The inner loop: take five bits at a time from the top of the pending bits.\<close>

fun drain5 :: "u32 \<Rightarrow> nat \<Rightarrow> nat list \<times> nat" where
  "drain5 buffer bits =
     (if 5 \<le> bits then
        (let (xs, rest) = drain5 buffer (bits - 5)
         in (unat (drop_bit (bits - 5) buffer AND 0x1F) # xs, rest))
      else ([], bits))"

declare drain5.simps [simp del]

fun base32_symbols :: "bytes \<Rightarrow> u32 \<Rightarrow> nat \<Rightarrow> nat list" where
  "base32_symbols [] buffer bits =
     (if 0 < bits then [unat (push_bit (5 - bits) buffer AND 0x1F)] else [])"
| "base32_symbols (b # bs) buffer bits =
     (let buffer' = push_bit 8 buffer OR ucast b;
          (xs, bits') = drain5 buffer' (bits + 8)
      in xs @ base32_symbols bs buffer' bits')"

definition base32_encode :: "bytes \<Rightarrow> bytes" where
  "base32_encode bs = map (\<lambda>i. BASE32 ! i) (base32_symbols bs 0 0)"

definition crockford_base32 :: "bytes \<Rightarrow> bytes" where
  "crockford_base32 bs = map (\<lambda>i. CROCKFORD ! i) (base32_symbols bs 0 0)"

definition base32_value :: "u8 \<Rightarrow> u8 option" where
  "base32_value c =
     (if 65 \<le> c \<and> c \<le> 90 then Some (c - 65)
      else if 97 \<le> c \<and> c \<le> 122 then Some (c - 97)
      else if 50 \<le> c \<and> c \<le> 55 then Some (c - 50 + 26)
      else None)"

fun base32_decode_loop :: "bytes \<Rightarrow> u32 \<Rightarrow> nat \<Rightarrow> bytes option" where
  "base32_decode_loop [] buffer bits = Some []"
| "base32_decode_loop (c # cs) buffer bits =
     (case base32_value c of
        None \<Rightarrow> None
      | Some v \<Rightarrow>
          (let buffer' = push_bit 5 buffer OR ucast v
           in if 8 \<le> bits + 5
              then map_option (Cons (ucast (drop_bit (bits + 5 - 8) buffer')))
                     (base32_decode_loop cs buffer' (bits + 5 - 8))
              else base32_decode_loop cs buffer' (bits + 5)))"

definition base32_decode :: "bytes \<Rightarrow> bytes option" where
  "base32_decode text = base32_decode_loop text 0 0"

section \<open>Pending bits\<close>

definition low_bits :: "nat \<Rightarrow> 'a::semiring_bit_operations \<Rightarrow> bool list" where
  "low_bits n w = map (bit w) (rev [0..<n])"

lemma length_low_bits [simp]: "length (low_bits n w) = n"
  by (simp add: low_bits_def)

lemma low_bits_0 [simp]: "low_bits 0 w = []"
  by (simp add: low_bits_def)

lemma low_bits_nth [simp]: "i < n \<Longrightarrow> low_bits n w ! i = bit w (n - 1 - i)"
  by (simp add: low_bits_def rev_nth)

lemma low_bits_push:
  fixes v :: u8 and w :: u32
  assumes "n + k \<le> 32" "\<And>i. k \<le> i \<Longrightarrow> \<not> bit v i"
  shows "low_bits (n + k) (push_bit k w OR ucast v) = low_bits n w @ low_bits k v"
proof (rule nth_equalityI)
  fix i assume "i < length (low_bits (n + k) (push_bit k w OR ucast v))"
  then show "low_bits (n + k) (push_bit k w OR ucast v) ! i = (low_bits n w @ low_bits k v) ! i"
    using assms by (auto simp: nth_append bit_simps add.commute dest: bit_imp_le_length)
qed simp

lemma low_bits_split: "m \<le> n \<Longrightarrow> low_bits n w = low_bits (n - m) (drop_bit m w) @ low_bits m w"
  by (rule nth_equalityI) (auto simp: nth_append bit_simps intro!: arg_cong [where f = "bit w"])

lemma low_bits_5: "low_bits 5 (unat (w AND 0x1F :: u32)) = low_bits 5 w"
proof (rule nth_equalityI)
  fix i assume "i < length (low_bits 5 (unat (w AND 0x1F :: u32)))"
  then have "i = 0 \<or> i = 1 \<or> i = 2 \<or> i = 3 \<or> i = 4" by auto
  then show "low_bits 5 (unat (w AND 0x1F :: u32)) ! i = low_bits 5 w ! i"
    by (auto simp: bit_simps)
qed simp

lemma low_bits_8: "low_bits 8 (ucast (w :: u32) :: u8) = low_bits 8 w"
  by (rule nth_equalityI) (auto simp: bit_simps)

lemma low_bits_inj8: "low_bits 8 (v :: u8) = low_bits 8 w \<Longrightarrow> v = w"
proof (rule bit_word_eqI)
  fix n assume eq: "low_bits 8 v = low_bits 8 w" and "n < LENGTH(8)"
  then have "low_bits 8 v ! (7 - n) = low_bits 8 w ! (7 - n)" by simp
  then show "bit v n = bit w n" using \<open>n < LENGTH(8)\<close> by simp
qed

lemma mask5_lt: "unat (w AND 0x1F :: u32) < 32"
proof -
  have "w AND 0x1F \<le> (0x1F :: u32)" by (rule word_and_le1)
  then show ?thesis by (simp add: word_le_nat_alt)
qed

section \<open>Encoding\<close>

lemma drain5_bits:
  "drain5 buffer n = (xs, r) \<Longrightarrow>
     low_bits n buffer = concat (map (low_bits 5) xs) @ low_bits r buffer \<and> r < 5 \<and> (\<forall>x\<in>set xs. x < 32)"
proof (induction buffer n arbitrary: xs r rule: drain5.induct)
  case (1 buffer n)
  show ?case
  proof (cases "5 \<le> n")
    case True
    obtain ys where rec: "drain5 buffer (n - 5) = (ys, r)"
      and xs: "xs = unat (drop_bit (n - 5) buffer AND 0x1F) # ys"
      using 1 True by (auto simp: drain5.simps [of buffer n] split: prod.splits)
    have "low_bits n buffer = low_bits 5 (drop_bit (n - 5) buffer) @ low_bits (n - 5) buffer"
      using low_bits_split [of "n - 5" n buffer] True by simp
    then show ?thesis using 1(1) [OF True rec] True rec
      by (simp add: xs low_bits_5 mask5_lt)
  qed (use 1 in \<open>auto simp: drain5.simps [of buffer n]\<close>)
qed

lemma low_bits_pad:
  assumes "0 < n" "n < 5"
  shows "low_bits 5 (push_bit (5 - n) buffer :: u32) = low_bits n buffer @ replicate (5 - n) False"
proof (rule nth_equalityI)
  fix i assume "i < length (low_bits 5 (push_bit (5 - n) buffer))"
  then show "low_bits 5 (push_bit (5 - n) buffer) ! i = (low_bits n buffer @ replicate (5 - n) False) ! i"
    using assms by (auto simp: nth_append bit_simps intro!: arg_cong [where f = "bit buffer"])
qed (use assms in simp)

text \<open>The symbols carry the bits of the input in order, padded with fewer than five zeros.\<close>

lemma symbols_bits:
  assumes "n < 5"
  shows "\<exists>pad < 5. concat (map (low_bits 5) (base32_symbols bs buffer n)) =
            low_bits n buffer @ concat (map (low_bits 8) bs) @ replicate pad False"
    and "\<forall>x\<in>set (base32_symbols bs buffer n). x < 32"
proof -
  have "(\<exists>pad < 5. concat (map (low_bits 5) (base32_symbols bs buffer n)) =
            low_bits n buffer @ concat (map (low_bits 8) bs) @ replicate pad False) \<and>
        (\<forall>x\<in>set (base32_symbols bs buffer n). x < 32)"
    using assms
  proof (induction bs arbitrary: buffer n)
    case Nil
    show ?case
    proof (cases "n = 0")
      case False
      then show ?thesis using Nil
        by (auto simp: low_bits_5 low_bits_pad mask5_lt intro!: exI [of _ "5 - n"])
    qed auto
  next
    case (Cons b bs)
    let ?buffer = "push_bit 8 buffer OR ucast b"
    obtain xs r where d: "drain5 ?buffer (n + 8) = (xs, r)" by (cases "drain5 ?buffer (n + 8)") auto
    have "low_bits (n + 8) ?buffer = low_bits n buffer @ low_bits 8 b"
      using Cons.prems by (intro low_bits_push) (auto dest: bit_imp_le_length)
    with drain5_bits [OF d] have
      "concat (map (low_bits 5) xs) @ low_bits r ?buffer = low_bits n buffer @ low_bits 8 b"
      and "r < 5" and "\<forall>x\<in>set xs. x < 32" by auto
    with Cons.IH [of r ?buffer] show ?case by (auto simp: d)
  qed
  then show "\<exists>pad < 5. concat (map (low_bits 5) (base32_symbols bs buffer n)) =
            low_bits n buffer @ concat (map (low_bits 8) bs) @ replicate pad False"
    and "\<forall>x\<in>set (base32_symbols bs buffer n). x < 32" by auto
qed

section \<open>Decoding\<close>

text \<open>The alphabet and its inverse, checked for all 32 symbols.\<close>

lemma BASE32_bytes:
  "BASE32 = [65, 66, 67, 68, 69, 70, 71, 72, 73, 74, 75, 76, 77, 78, 79, 80, 81, 82, 83, 84, 85, 86, 87,
     88, 89, 90, 50, 51, 52, 53, 54, 55]"
  by (simp add: BASE32_def ascii_def)

lemma base32_value_table: "map base32_value BASE32 = map (\<lambda>x. Some (word_of_nat x)) [0..<32]"
  by (simp add: BASE32_bytes base32_value_def upt_rec)

lemma base32_printable: "list_all (\<lambda>c. 32 < c \<and> c < 128) BASE32"
  by (simp add: BASE32_bytes)

lemma base32_symbol:
  "x < 32 \<Longrightarrow> base32_value (BASE32 ! x) = Some (word_of_nat x)"
  "x < 32 \<Longrightarrow> 32 < BASE32 ! x \<and> BASE32 ! x < 128"
proof -
  assume x: "x < 32"
  have len: "length BASE32 = 32" by (simp add: BASE32_bytes)
  show "base32_value (BASE32 ! x) = Some (word_of_nat x)"
    using arg_cong [OF base32_value_table, where f = "\<lambda>l. l ! x"] x len by simp
  show "32 < BASE32 ! x \<and> BASE32 ! x < 128" using base32_printable x len by (simp add: list_all_length)
qed

lemma low_bits_of_nat5: "x < 32 \<Longrightarrow> low_bits 5 (word_of_nat x :: u8) = low_bits 5 x"
  by (rule nth_equalityI) (auto simp: bit_simps)

lemma small_no_high_bits:
  assumes "x < 32" "5 \<le> i" shows "\<not> bit (word_of_nat x :: u8) i"
proof -
  have "x < 2 ^ i" using assms power_increasing [of 5 i "2::nat"] by simp
  then have "\<not> bit x i" by (simp add: bit_iff_odd)
  then show ?thesis by (simp add: bit_of_nat_iff)
qed

text \<open>What the decoder returns: as many whole bytes as the pending and the coming bits make.\<close>

lemma decode_bits:
  assumes "n < 8" "\<forall>x\<in>set xs. x < 32"
  shows "\<exists>out. base32_decode_loop (map (\<lambda>i. BASE32 ! i) xs) buffer n = Some out \<and>
           length out = (n + 5 * length xs) div 8 \<and>
           prefix (concat (map (low_bits 8) out)) (low_bits n buffer @ concat (map (low_bits 5) xs))"
  using assms
proof (induction xs arbitrary: buffer n)
  case (Cons x xs)
  let ?v = "word_of_nat x :: u8" and ?text = "map (\<lambda>i. BASE32 ! i) xs"
  let ?buffer = "push_bit 5 buffer OR ucast ?v"
  have x: "x < 32" using Cons.prems by simp
  have bits: "low_bits (n + 5) ?buffer = low_bits n buffer @ low_bits 5 x"
    using Cons.prems x by (simp add: low_bits_push small_no_high_bits low_bits_of_nat5)
  show ?case
  proof (cases "8 \<le> n + 5")
    case True
    let ?m = "n + 5 - 8"
    obtain out where out: "base32_decode_loop ?text ?buffer ?m = Some out"
      "length out = (?m + 5 * length xs) div 8"
      "prefix (concat (map (low_bits 8) out)) (low_bits ?m ?buffer @ concat (map (low_bits 5) xs))"
      using Cons.IH [of ?m ?buffer] Cons.prems by fastforce
    have "low_bits (n + 5) ?buffer = low_bits 8 (drop_bit ?m ?buffer) @ low_bits ?m ?buffer"
      using low_bits_split [of ?m "n + 5" ?buffer] True by simp
    then have "low_bits n buffer @ concat (map (low_bits 5) (x # xs)) =
        low_bits 8 (drop_bit ?m ?buffer) @ low_bits ?m ?buffer @ concat (map (low_bits 5) xs)"
      unfolding bits by (simp only: list.map concat.simps append_assoc [symmetric])
    then have "prefix (concat (map (low_bits 8) (ucast (drop_bit ?m ?buffer) # out)))
                 (low_bits n buffer @ concat (map (low_bits 5) (x # xs)))"
      using out(3) by (simp only: low_bits_8 list.map concat.simps same_prefix_prefix)
    moreover have "Suc (length out) = (n + 5 * length (x # xs)) div 8" using out(2) True by simp
    ultimately show ?thesis using out(1) True x by (auto simp: base32_symbol)
  next
    case False
    obtain out where out: "base32_decode_loop ?text ?buffer (n + 5) = Some out"
      "length out = (n + 5 + 5 * length xs) div 8"
      "prefix (concat (map (low_bits 8) out)) (low_bits (n + 5) ?buffer @ concat (map (low_bits 5) xs))"
      using Cons.IH [of "n + 5" ?buffer] Cons.prems False by auto
    then show ?thesis using False x bits by (auto simp: base32_symbol algebra_simps)
  qed
qed simp

lemma concat_bytes_inj:
  "length xs = length ys \<Longrightarrow> concat (map (low_bits 8) xs) = concat (map (low_bits 8) ys) \<Longrightarrow>
     xs = (ys :: bytes)"
proof (induction xs ys rule: list_induct2)
  case (Cons x xs y ys)
  then have "low_bits 8 x = low_bits 8 y"
    and "concat (map (low_bits 8) xs) = concat (map (low_bits 8) ys)" by simp_all
  then show ?case using Cons by (auto dest: low_bits_inj8)
qed simp

lemma length_concat_low_bits [simp]: "length (concat (map (low_bits k) xs)) = k * length xs"
  by (induction xs) simp_all

text \<open>Decoding what was encoded gives the bytes back.\<close>

lemma base32_roundtrip: "base32_decode (base32_encode bs) = Some bs"
proof -
  let ?xs = "base32_symbols bs 0 0"
  obtain pad where pad: "pad < 5"
    "concat (map (low_bits 5) ?xs) = concat (map (low_bits 8) bs) @ replicate pad False"
    and small: "\<forall>x\<in>set ?xs. x < 32"
    using symbols_bits [of 0 bs 0] by auto
  have len: "5 * length ?xs = 8 * length bs + pad"
    using arg_cong [OF pad(2), where f = length] by simp
  obtain out where out: "base32_decode_loop (map (\<lambda>i. BASE32 ! i) ?xs) 0 0 = Some out"
    "length out = (5 * length ?xs) div 8"
    "prefix (concat (map (low_bits 8) out)) (concat (map (low_bits 5) ?xs))"
    using decode_bits [of 0 ?xs 0] small by auto
  have "length out = length bs" using out(2) len pad(1) by simp
  moreover from this have "concat (map (low_bits 8) out) = concat (map (low_bits 8) bs)"
    using out(3) unfolding pad(2) by (elim prefixE) (simp add: append_eq_append_conv_if)
  ultimately show ?thesis
    using out(1) concat_bytes_inj by (auto simp: base32_decode_def base32_encode_def)
qed

lemma base32_encode_printable: "c \<in> set (base32_encode bs) \<Longrightarrow> 32 < c \<and> c < 128"
proof -
  assume "c \<in> set (base32_encode bs)"
  then obtain x where "x \<in> set (base32_symbols bs 0 0)" "c = BASE32 ! x"
    by (auto simp: base32_encode_def)
  then show ?thesis using symbols_bits(2) [of 0 bs 0] base32_symbol(2) [of x] by simp
qed

lemma base32_symbols_length: "length (base32_symbols bs 0 0) = (8 * length bs + 4) div 5"
proof -
  obtain pad where pad: "pad < 5"
    "concat (map (low_bits 5) (base32_symbols bs 0 0)) = concat (map (low_bits 8) bs) @ replicate pad False"
    using symbols_bits(1) [of 0 bs 0] by auto
  have "5 * length (base32_symbols bs 0 0) = 8 * length bs + pad"
    using arg_cong [OF pad(2), where f = length] by simp
  then have "8 * length bs + 4 = 5 * length (base32_symbols bs 0 0) + (4 - pad)" using pad(1) by linarith
  then show ?thesis by simp
qed

lemma base32_encode_length: "length (base32_encode bs) = (8 * length bs + 4) div 5"
  by (simp add: base32_encode_def base32_symbols_length)

end
