(* ===== verification/Identity.thy ===== *)
theory Identity
  imports Base32
begin

text \<open>
  Device identity (\<open>identity.rs\<close>): fingerprints, device identifiers, their hexadecimal and display
  forms. The hash function is third-party code: \<open>sha256\<close> is an argument of what uses it. Keys,
  fingerprints and identifiers are byte lists, of 32, 32 and 16 bytes where the code has arrays.
\<close>

type_synonym PublicKey = bytes
type_synonym Fingerprint = bytes
type_synonym DeviceId = bytes

definition of_public_key :: "(bytes \<Rightarrow> bytes) \<Rightarrow> PublicKey \<Rightarrow> Fingerprint" where
  "of_public_key sha256 pk = sha256 pk"

definition fp_device_id :: "Fingerprint \<Rightarrow> DeviceId" where
  "fp_device_id fp = take 16 fp"

text \<open>The identifier of a key, as everywhere in the engine: fingerprint, then device identifier.\<close>

abbreviation device_id_of :: "(bytes \<Rightarrow> bytes) \<Rightarrow> PublicKey \<Rightarrow> DeviceId" where
  "device_id_of sha256 pk \<equiv> fp_device_id (of_public_key sha256 pk)"

section \<open>Hexadecimal\<close>

definition HEX :: bytes where
  "HEX = ascii ''0123456789abcdef''"

fun hex :: "bytes \<Rightarrow> bytes" where
  "hex [] = []"
| "hex (b # bs) = HEX ! (unat b div 16) # HEX ! (unat b mod 16) # hex bs"

definition hex_digit :: "u8 \<Rightarrow> nat option" where
  "hex_digit c =
     (if 48 \<le> c \<and> c \<le> 57 then Some (unat c - 48)
      else if 97 \<le> c \<and> c \<le> 102 then Some (unat c - 87)
      else if 65 \<le> c \<and> c \<le> 70 then Some (unat c - 55)
      else None)"

text \<open>\<open>u8::from_str_radix\<close> on two bytes: it also takes a plus sign and one digit.\<close>

definition from_str_radix16 :: "u8 \<Rightarrow> u8 \<Rightarrow> u8 option" where
  "from_str_radix16 c d =
     (if c = 43 then map_option word_of_nat (hex_digit d)
      else (case (hex_digit c, hex_digit d) of
              (Some x, Some y) \<Rightarrow> Some (word_of_nat (16 * x + y))
            | _ \<Rightarrow> None))"

text \<open>A piece that does not lie on character boundaries is refused by \<open>str::get\<close>; its bytes are not
  ASCII, so no digits either.\<close>

fun unhex :: "bytes \<Rightarrow> bytes option" where
  "unhex [] = Some []"
| "unhex [c] = None"
| "unhex (c # d # s) =
     (case from_str_radix16 c d of
        None \<Rightarrow> None
      | Some b \<Rightarrow> map_option (Cons b) (unhex s))"

definition device_id_to_hex :: "DeviceId \<Rightarrow> bytes" where
  "device_id_to_hex d = hex d"

definition device_id_from_hex :: "bytes \<Rightarrow> DeviceId option" where
  "device_id_from_hex s =
     (case unhex s of Some bs \<Rightarrow> if length bs = 16 then Some bs else None | None \<Rightarrow> None)"

definition display_code :: "DeviceId \<Rightarrow> bytes" where
  "display_code d =
     (let b32 = crockford_base32 (take 8 d)
      in ascii ''SP-'' @ take 4 b32 @ ascii ''-'' @ take 4 (drop 4 b32) @ ascii ''-'' @ take 4 (drop 8 b32))"

definition short :: "DeviceId \<Rightarrow> bytes" where
  "short d = take 8 (device_id_to_hex d)"

lemma HEX_bytes: "HEX = [48, 49, 50, 51, 52, 53, 54, 55, 56, 57, 97, 98, 99, 100, 101, 102]"
  by (simp add: HEX_def ascii_def)

lemma hex_digit_table: "map hex_digit HEX = map Some [0..<16]"
  by (simp add: HEX_bytes hex_digit_def upt_rec)

lemma hex_digit_HEX: "x < 16 \<Longrightarrow> hex_digit (HEX ! x) = Some x \<and> HEX ! x \<noteq> 43 \<and> HEX ! x < 128"
proof -
  assume x: "x < 16"
  have "length HEX = 16" and "list_all (\<lambda>c. c \<noteq> 43 \<and> c < 128) HEX" by (simp_all add: HEX_bytes)
  then show ?thesis
    using arg_cong [OF hex_digit_table, where f = "\<lambda>l. l ! x"] x by (simp add: list_all_length)
qed

lemma unhex_hex: "unhex (hex bs) = Some bs"
proof (induction bs)
  case (Cons b bs)
  have d: "unat b div 16 < 16" "unat b mod 16 < 16"
    using byte_lt [of b] by (simp_all add: less_mult_imp_div_less)
  have "16 * (unat b div 16) + unat b mod 16 = unat b" by simp
  then have "from_str_radix16 (HEX ! (unat b div 16)) (HEX ! (unat b mod 16)) = Some b"
    using hex_digit_HEX [OF d(1)] hex_digit_HEX [OF d(2)]
    by (simp add: from_str_radix16_def)
  then show ?case using Cons by simp
qed simp

lemma length_hex [simp]: "length (hex bs) = 2 * length bs"
  by (induction bs) auto

lemma hex_inject [simp]: "hex a = hex b \<longleftrightarrow> a = b"
  by (metis option.inject unhex_hex)

text \<open>The hexadecimal form of a device identifier reads back as the same identifier, so distinct
  devices have distinct forms; and the display code is always 17 characters long.\<close>

theorem device_id_forms:
  assumes "length d = 16"
  shows "device_id_from_hex (device_id_to_hex d) = Some d \<and>
         (device_id_to_hex d = device_id_to_hex e \<longleftrightarrow> d = e) \<and>
         length (display_code d) = 17"
  using assms
  by (simp add: device_id_from_hex_def device_id_to_hex_def unhex_hex display_code_def Let_def
      crockford_base32_def base32_symbols_length ascii_def)

theorem device_id_forms_witness:
  "device_id_from_hex (device_id_to_hex (replicate 16 171)) = Some (replicate 16 171)"
  by (rule device_id_forms [THEN conjunct1]) simp

end
