(* ===== verification/Peer_Registry.thy ===== *)
theory Peer_Registry
  imports Rust_Maps Net_Address Identity Protocol_Wire
begin

text \<open>
  The registry that merges adverts of one device from several discovery mechanisms
  (\<open>sp-discovery/src/registry.rs\<close>) and emits an event for every visible change.
\<close>

section \<open>State and operations\<close>

datatype Source = Mdns | BeaconSource | External

record PeerAdvert =
  pa_device_id :: DeviceId
  pa_public_key :: "PublicKey option"
  pa_name :: bytes
  pa_platform :: bytes
  pa_addresses :: "SocketAddr list"
  pa_capabilities :: Capabilities
  pa_protocol_max :: nat
  pa_source :: Source

definition PEER_TTL :: duration where
  "PEER_TTL = from_secs 15"

datatype DiscoveryEvent = Updated PeerAdvert | Lost DeviceId

record Entry =
  en_advert :: PeerAdvert
  en_last_seen :: instant

record PeerRegistry =
  rg_peers :: "(DeviceId, Entry) hmap"
  rg_local :: "DeviceId option"

definition registry_new :: "DeviceId \<Rightarrow> PeerRegistry" where
  "registry_new local_id = \<lparr>rg_peers = [], rg_local = Some local_id\<rparr>"

text \<open>The advert kept for a peer after another one arrived.\<close>

definition merge_advert :: "PeerAdvert \<Rightarrow> PeerAdvert \<Rightarrow> PeerAdvert" where
  "merge_advert old advert =
     old\<lparr>pa_addresses := order (pa_addresses old @ pa_addresses advert),
         pa_name := (if pa_name advert \<noteq> [] then pa_name advert else pa_name old),
         pa_platform := (if pa_platform advert \<noteq> [] then pa_platform advert else pa_platform old),
         pa_public_key := (case pa_public_key old of Some k \<Rightarrow> Some k | None \<Rightarrow> pa_public_key advert),
         pa_capabilities := pa_capabilities advert,
         pa_protocol_max := max (pa_protocol_max advert) (pa_protocol_max old)\<rparr>"

definition registry_ingest :: "PeerAdvert \<Rightarrow> instant \<Rightarrow> PeerRegistry \<Rightarrow> DiscoveryEvent option \<times> PeerRegistry" where
  "registry_ingest advert now r =
     (if Some (pa_device_id advert) = rg_local r then (None, r)
      else (case map_of (rg_peers r) (pa_device_id advert) of
              Some entry \<Rightarrow>
                (let merged = merge_advert (en_advert entry) advert;
                     changed = (merged \<noteq> en_advert entry);
                     entry' = \<lparr>en_advert = (if changed then merged else en_advert entry), en_last_seen = now\<rparr>
                 in (if changed then Some (Updated merged) else None,
                     r\<lparr>rg_peers := AList.update (pa_device_id advert) entry' (rg_peers r)\<rparr>))
            | None \<Rightarrow>
                (let advert' = advert\<lparr>pa_addresses := order (pa_addresses advert)\<rparr>
                 in (Some (Updated advert'),
                     r\<lparr>rg_peers := AList.update (pa_device_id advert)
                          \<lparr>en_advert = advert', en_last_seen = now\<rparr> (rg_peers r)\<rparr>))))"

definition registry_remove :: "DeviceId \<Rightarrow> PeerRegistry \<Rightarrow> DiscoveryEvent option \<times> PeerRegistry" where
  "registry_remove did r =
     (if hm_contains (rg_peers r) did
      then (Some (Lost did), r\<lparr>rg_peers := AList.delete did (rg_peers r)\<rparr>)
      else (None, r))"

fun remove_all :: "DeviceId list \<Rightarrow> PeerRegistry \<Rightarrow> DiscoveryEvent list \<times> PeerRegistry" where
  "remove_all [] r = ([], r)"
| "remove_all (did # ids) r =
     (let (ev, r1) = registry_remove did r; (evs, r2) = remove_all ids r1
      in ((case ev of Some e \<Rightarrow> [e] | None \<Rightarrow> []) @ evs, r2))"

definition registry_sweep :: "instant \<Rightarrow> PeerRegistry \<Rightarrow> DiscoveryEvent list \<times> PeerRegistry" where
  "registry_sweep now r =
     (let stale = map fst (filter (\<lambda>(_, e). PEER_TTL < now - en_last_seen e) (rg_peers r))
      in remove_all stale r)"

definition registry_get :: "PeerRegistry \<Rightarrow> DeviceId \<Rightarrow> PeerAdvert option" where
  "registry_get r did = map_option en_advert (map_of (rg_peers r) did)"

definition registry_peers :: "PeerRegistry \<Rightarrow> PeerAdvert list" where
  "registry_peers r = map (en_advert \<circ> snd) (rg_peers r)"

section \<open>An observer of the events\<close>

datatype registry_op = Ingest PeerAdvert instant | Goodbye DeviceId | Sweep instant

fun registry_step :: "registry_op \<Rightarrow> PeerRegistry \<Rightarrow> DiscoveryEvent list \<times> PeerRegistry" where
  "registry_step (Ingest a now) r =
     (let (ev, r') = registry_ingest a now r in (case ev of Some e \<Rightarrow> [e] | None \<Rightarrow> [], r'))"
| "registry_step (Goodbye did) r =
     (let (ev, r') = registry_remove did r in (case ev of Some e \<Rightarrow> [e] | None \<Rightarrow> [], r'))"
| "registry_step (Sweep now) r = registry_sweep now r"

text \<open>What somebody knows who only sees the events.\<close>

fun observe :: "DiscoveryEvent \<Rightarrow> (DeviceId \<rightharpoonup> PeerAdvert) \<Rightarrow> (DeviceId \<rightharpoonup> PeerAdvert)" where
  "observe (Updated a) m = m(pa_device_id a \<mapsto> a)"
| "observe (Lost did) m = m(did := None)"

definition registry_wf :: "PeerRegistry \<Rightarrow> bool" where
  "registry_wf r \<longleftrightarrow>
     hm_wf (rg_peers r) \<and>
     (\<forall>did e. map_of (rg_peers r) did = Some e \<longrightarrow>
        pa_device_id (en_advert e) = did \<and> Some did \<noteq> rg_local r \<and>
        list_all usable (pa_addresses (en_advert e)) \<and>
        sorted (map candidate_key (pa_addresses (en_advert e))))"

declare map_of_eq_Some_iff [simp del]

lemma merge_fields [simp]:
  "pa_device_id (merge_advert old a) = pa_device_id old"
  "pa_addresses (merge_advert old a) = order (pa_addresses old @ pa_addresses a)"
  by (simp_all add: merge_advert_def)

lemma order_good: "list_all usable (order xs) \<and> sorted (map candidate_key (order xs))"
  by (simp add: list_all_iff sorted_order)

lemma ingest_wf: "registry_wf r \<Longrightarrow> registry_wf (snd (registry_ingest a now r))"
  using order_good
  by (auto simp: registry_wf_def registry_ingest_def Let_def update_conv' distinct_update split: option.splits)

lemma ingest_observed:
  assumes "registry_wf r"
  shows "fold observe (case fst (registry_ingest a now r) of Some e \<Rightarrow> [e] | None \<Rightarrow> []) (registry_get r) =
         registry_get (snd (registry_ingest a now r))"
  using assms
  by (auto simp: registry_ingest_def registry_get_def registry_wf_def Let_def update_conv' fun_eq_iff
      split: option.splits)

text \<open>An advert of a known peer leaves the merge of both, changed or not.\<close>

lemma ingest_known:
  assumes "map_of (rg_peers r) (pa_device_id a) = Some e" "rg_local r \<noteq> Some (pa_device_id a)"
  shows "registry_get (snd (registry_ingest a now r)) (pa_device_id a) = Some (merge_advert (en_advert e) a)"
  using assms by (auto simp: registry_ingest_def registry_get_def Let_def update_conv')

lemma remove_wf: "registry_wf r \<Longrightarrow> registry_wf (snd (registry_remove did r))"
  by (auto simp: registry_wf_def registry_remove_def delete_conv' distinct_delete split: if_splits)

lemma remove_observed:
  "fold observe (case fst (registry_remove did r) of Some e \<Rightarrow> [e] | None \<Rightarrow> []) (registry_get r) =
     registry_get (snd (registry_remove did r))"
  by (auto simp: registry_remove_def registry_get_def delete_conv' fun_eq_iff)

lemma remove_all_observed:
  "registry_wf r \<Longrightarrow> registry_wf (snd (remove_all ids r)) \<and>
     fold observe (fst (remove_all ids r)) (registry_get r) = registry_get (snd (remove_all ids r))"
proof (induction ids arbitrary: r)
  case (Cons did ids)
  show ?case using Cons.IH [OF remove_wf [OF Cons.prems], of did] remove_observed [of did r]
    by (simp add: split_beta Let_def)
qed simp

lemma step_observed:
  assumes "registry_wf r"
  shows "registry_wf (snd (registry_step op r)) \<and>
         fold observe (fst (registry_step op r)) (registry_get r) = registry_get (snd (registry_step op r))"
  using assms ingest_wf ingest_observed remove_wf remove_observed remove_all_observed
  by (cases op) (auto simp: registry_sweep_def split_beta Let_def)

lemma registry_wf_get:
  assumes "registry_wf r" "registry_get r did = Some a"
  shows "pa_device_id a = did \<and> Some did \<noteq> rg_local r \<and> list_all usable (pa_addresses a)
     \<and> sorted (map candidate_key (pa_addresses a))"
  using assms by (auto simp: registry_wf_def registry_get_def)

lemma registry_peers_get:
  "registry_wf r \<Longrightarrow> a \<in> set (registry_peers r) \<Longrightarrow> \<exists>did. registry_get r did = Some a"
  by (fastforce simp: registry_peers_def registry_get_def registry_wf_def map_of_eq_Some_iff)

lemma step_local: "rg_local (snd (registry_step op r)) = rg_local r"
proof -
  have "rg_local (snd (remove_all ids r)) = rg_local r" for ids r
    by (induction ids arbitrary: r) (auto simp: registry_remove_def split_beta Let_def)
  then show ?thesis
    by (cases op) (auto simp: registry_ingest_def registry_remove_def registry_sweep_def split_beta Let_def
        split: option.splits)
qed

lemma registry_new_wf: "registry_wf (registry_new local_id)"
  by (simp add: registry_wf_def registry_new_def)

lemma run_observed:
  "registry_wf r \<Longrightarrow> registry_wf (snd (io_run registry_step ops r)) \<and>
     fold observe (concat (fst (io_run registry_step ops r))) (registry_get r) =
       registry_get (snd (io_run registry_step ops r)) \<and>
     rg_local (snd (io_run registry_step ops r)) = rg_local r"
  by (induction ops arbitrary: r)
    (use step_observed step_local in \<open>auto simp del: registry_step.simps\<close>)

text \<open>C36: The events tell the whole story. After any sequence of adverts, goodbyes and sweeps, somebody who
  only applied the emitted events knows exactly the peers and details the registry holds; the device
  itself is never among them; and every address kept for a peer is usable, best candidates first.\<close>

theorem registry_events_complete:
  "let (evs, r) = io_run registry_step ops (registry_new local_id)
   in fold observe (concat evs) Map.empty = registry_get r \<and>
      registry_get r local_id = None \<and>
      list_all (\<lambda>a. list_all usable (pa_addresses a) \<and> sorted (map candidate_key (pa_addresses a)))
        (registry_peers r)"
proof -
  let ?r = "snd (io_run registry_step ops (registry_new local_id))"
  have new: "registry_wf (registry_new local_id)" "registry_get (registry_new local_id) = Map.empty"
    "rg_local (registry_new local_id) = Some local_id"
    by (auto simp: registry_wf_def registry_new_def registry_get_def)
  note run = run_observed [OF new(1), of ops, unfolded new(2,3)]
  have "registry_get ?r local_id = None"
    using run registry_wf_get [of ?r local_id] by (cases "registry_get ?r local_id") auto
  moreover have "list_all (\<lambda>a. list_all usable (pa_addresses a) \<and> sorted (map candidate_key (pa_addresses a)))
      (registry_peers ?r)"
    using run registry_peers_get [of ?r] registry_wf_get [of ?r] by (fastforce simp: list_all_iff)
  ultimately show ?thesis using run by (simp add: split_beta Let_def)
qed

section \<open>Expiry\<close>

lemma remove_all_peers:
  "map_of (rg_peers (snd (remove_all ids r))) did =
     (if did \<in> set ids then None else map_of (rg_peers r) did)"
proof (induction ids arbitrary: r)
  case (Cons d ids)
  then show ?case by (auto simp: registry_remove_def split_beta Let_def delete_conv')
qed simp

lemma remove_all_events:
  "distinct ids \<Longrightarrow> \<forall>d\<in>set ids. hm_contains (rg_peers r) d \<Longrightarrow> fst (remove_all ids r) = map Lost ids"
proof (induction ids arbitrary: r)
  case (Cons d ids)
  have "\<forall>x\<in>set ids. hm_contains (rg_peers (r\<lparr>rg_peers := AList.delete d (rg_peers r)\<rparr>)) x"
    using Cons.prems by (auto simp: delete_conv')
  then show ?case using Cons by (simp add: registry_remove_def split_beta Let_def)
qed simp

text \<open>A sweep removes exactly the peers whose last advert is more than 15 seconds old, emits exactly one
  event for each of them, and keeps every other peer as it is.\<close>

theorem sweep_exact:
  assumes "registry_wf r"
  shows "map_of (rg_peers (snd (registry_sweep now r))) did =
           (case map_of (rg_peers r) did of
              None \<Rightarrow> None
            | Some e \<Rightarrow> if PEER_TTL < now - en_last_seen e then None else Some e) \<and>
         distinct (fst (registry_sweep now r)) \<and>
         set (fst (registry_sweep now r)) =
           {Lost d | d e. map_of (rg_peers r) d = Some e \<and> PEER_TTL < now - en_last_seen e}"
proof -
  let ?stale = "map fst (filter (\<lambda>(_, e). PEER_TTL < now - en_last_seen e) (rg_peers r))"
  have wf: "hm_wf (rg_peers r)" using assms by (simp add: registry_wf_def)
  have stale: "d \<in> set ?stale \<longleftrightarrow> (\<exists>e. map_of (rg_peers r) d = Some e \<and> PEER_TTL < now - en_last_seen e)" for d
    using wf by (force simp: map_of_eq_Some_iff)
  have dist: "distinct ?stale" using hm_retain_wf [OF wf] by (simp add: hm_retain_def)
  have evs: "fst (registry_sweep now r) = map Lost ?stale"
    unfolding registry_sweep_def Let_def
  proof (rule remove_all_events [OF dist], rule ballI)
    fix d assume "d \<in> set ?stale"
    then show "hm_contains (rg_peers r) d" using stale [of d] by auto
  qed
  have "map_of (rg_peers (snd (registry_sweep now r))) did =
      (case map_of (rg_peers r) did of None \<Rightarrow> None
        | Some e \<Rightarrow> if PEER_TTL < now - en_last_seen e then None else Some e)"
    unfolding registry_sweep_def Let_def remove_all_peers stale by (auto split: option.splits)
  moreover have "distinct (fst (registry_sweep now r))"
    unfolding evs using dist by (auto simp: distinct_map inj_on_def)
  moreover have "set (fst (registry_sweep now r)) =
      {Lost d | d e. map_of (rg_peers r) d = Some e \<and> PEER_TTL < now - en_last_seen e}"
    unfolding evs set_map using stale by (auto simp: image_def)
  ultimately show ?thesis by blast
qed

definition example_advert :: PeerAdvert where
  "example_advert =
     \<lparr>pa_device_id = [1], pa_public_key = None, pa_name = [80], pa_platform = [], pa_addresses = [],
      pa_capabilities = Capabilities 0, pa_protocol_max = 65536, pa_source = Mdns\<rparr>"

theorem sweep_exact_witness:
  "map_of (rg_peers (snd (registry_sweep (from_secs 20)
      (snd (registry_step (Ingest example_advert 0) (registry_new [0])))))) [1] = None"
proof -
  let ?r = "snd (registry_step (Ingest example_advert 0) (registry_new [0]))"
  have "registry_wf ?r" using step_observed [of "registry_new [0]"]
    by (simp add: registry_wf_def registry_new_def del: registry_step.simps)
  from sweep_exact [OF this, THEN conjunct1, of "from_secs 20" "[1]"] show ?thesis
    by (simp add: registry_ingest_def registry_new_def example_advert_def PEER_TTL_def from_secs_def Let_def)
qed

section \<open>Repeated addresses\<close>

text \<open>\<open>order\<close> sorts by rank and removes equal neighbours, so equal addresses that are not neighbours stay.
  Adverts that name two addresses of the same rank in turn make the list one longer each time, and each
  one is reported as an update.\<close>

fun alternate :: "nat \<Rightarrow> 'a \<Rightarrow> 'a \<Rightarrow> 'a list" where
  "alternate 0 a b = []"
| "alternate (Suc n) a b = a # alternate n b a"

lemma alternate_snoc: "alternate (Suc n) a b = alternate n a b @ [if even n then a else b]"
  by (induction n arbitrary: a b) auto

lemma alternate_props:
  "length (alternate n a b) = n" "set (alternate n a b) \<subseteq> {a, b}"
  "a \<noteq> b \<Longrightarrow> distinct_adj (alternate n a b)"
proof -
  show "length (alternate n a b) = n" by (induction n arbitrary: a b) auto
  show "set (alternate n a b) \<subseteq> {a, b}" by (induction n arbitrary: a b) auto
  show "a \<noteq> b \<Longrightarrow> distinct_adj (alternate n a b)"
  proof (induction n arbitrary: a b)
    case (Suc n)
    then show ?case by (cases n) auto
  qed simp
qed

lemma order_alternate:
  assumes "a \<noteq> b" "candidate_key a = candidate_key b" "usable a" "usable b"
  shows "order (alternate n a b) = alternate n a b"
proof (rule order_fixed)
  have "candidate_key x = candidate_key a \<and> usable x" if "x \<in> set (alternate n a b)" for x
    using that alternate_props(2) [of n a b] assms by auto
  then show "sorted (map candidate_key (alternate n a b))" "list_all usable (alternate n a b)"
    by (auto simp: list_all_iff sorted_iff_nth_mono)
  show "distinct_adj (alternate n a b)" using assms(1) by (rule alternate_props(3))
qed

lemma repeated_addresses_accumulate:
  assumes "a \<noteq> b" "candidate_key a = candidate_key b" "usable a" "usable b" "pa_device_id ad \<noteq> local_id"
  shows "map_option pa_addresses (registry_get (snd (io_run registry_step
            (map (\<lambda>x. Ingest (ad\<lparr>pa_addresses := [x]\<rparr>) t) (alternate (Suc n) a b))
            (registry_new local_id))) (pa_device_id ad)) = Some (alternate (Suc n) a b)"
proof (induction n)
  case 0
  show ?case using assms order_alternate [OF assms(1-4), of 1]
    by (simp add: registry_ingest_def registry_new_def registry_get_def Let_def)
next
  case (Suc n)
  let ?r = "snd (io_run registry_step (map (\<lambda>x. Ingest (ad\<lparr>pa_addresses := [x]\<rparr>) t) (alternate (Suc n) a b))
            (registry_new local_id))"
  have "rg_local ?r = rg_local (registry_new local_id)" using run_observed [OF registry_new_wf] by blast
  also have "\<dots> = Some local_id" by (simp add: registry_new_def)
  finally have local_id: "rg_local ?r = Some local_id" .
  obtain e where e: "map_of (rg_peers ?r) (pa_device_id ad) = Some e"
    "pa_addresses (en_advert e) = alternate (Suc n) a b"
    using Suc by (auto simp: registry_get_def simp del: alternate.simps)
  let ?x = "if even (Suc n) then a else b"
  have o: "order (alternate (Suc n) a b @ [?x]) = alternate (Suc (Suc n)) a b"
    unfolding alternate_snoc [of "Suc n", symmetric] by (rule order_alternate [OF assms(1-4)])
  have "map_option pa_addresses (registry_get (snd (registry_step (Ingest (ad\<lparr>pa_addresses := [?x]\<rparr>) t) ?r))
          (pa_device_id ad)) = Some (alternate (Suc (Suc n)) a b)"
    using ingest_known [of ?r "ad\<lparr>pa_addresses := [?x]\<rparr>" e t] e local_id assms(5) o
    by (simp add: split_beta Let_def del: alternate.simps)
  then show ?case
    unfolding alternate_snoc [of "Suc n"] map_append io_run_append
    by (simp del: alternate.simps registry_step.simps add: alternate_snoc [of "Suc n", symmetric])
qed

end
