(* ===== verification/Byte_Reader.thy ===== *)
theory Byte_Reader
  imports Prelude
begin

text \<open>
  The bounds-checked cursor over an untrusted buffer that both the pairing code (\<open>pairing.rs\<close>) and
  the beacon (\<open>beacon.rs\<close>) parse with: a read past the end is an error, never an out-of-range index.
  The proofs see a reader through the bytes it has not read yet.
\<close>

record Reader =
  rd_buf :: bytes
  rd_pos :: nat

definition reader_take :: "'e \<Rightarrow> nat \<Rightarrow> Reader \<Rightarrow> 'e + bytes \<times> Reader" where
  "reader_take err n r =
     (if rd_pos r + n \<le> length (rd_buf r)
      then Inr (take n (drop (rd_pos r) (rd_buf r)), r\<lparr>rd_pos := rd_pos r + n\<rparr>)
      else Inl err)"

definition reader_u8 :: "'e \<Rightarrow> Reader \<Rightarrow> 'e + u8 \<times> Reader" where
  "reader_u8 err r = and_then (reader_take err 1 r) (\<lambda>(bs, r'). Inr (hd bs, r'))"

definition unread :: "Reader \<Rightarrow> bytes" where
  "unread r = drop (rd_pos r) (rd_buf r)"

definition advance :: "nat \<Rightarrow> Reader \<Rightarrow> Reader" where
  "advance n r = r\<lparr>rd_pos := rd_pos r + n\<rparr>"

lemma advance_fields [simp]:
  "rd_buf (advance n r) = rd_buf r" "rd_pos (advance n r) = rd_pos r + n"
  by (simp_all add: advance_def)

lemma unread_advance [simp]: "unread (advance n r) = drop n (unread r)"
  by (simp add: unread_def add.commute)

lemma reader_take_unread:
  "unread r = x @ rest \<Longrightarrow> n = length x \<Longrightarrow> rd_pos r \<le> length (rd_buf r) \<Longrightarrow>
     reader_take err n r = Inr (x, advance n r)"
proof -
  assume u: "unread r = x @ rest" and n: "n = length x" and "rd_pos r \<le> length (rd_buf r)"
  moreover have "length (unread r) = length (rd_buf r) - rd_pos r" by (simp add: unread_def)
  ultimately have "rd_pos r + n \<le> length (rd_buf r)" by simp
  then show ?thesis using u n by (simp add: reader_take_def unread_def advance_def)
qed

lemma reader_u8_unread:
  "unread r = b # rest \<Longrightarrow> rd_pos r \<le> length (rd_buf r) \<Longrightarrow> reader_u8 err r = Inr (b, advance 1 r)"
  by (simp add: reader_u8_def reader_take_unread [of r "[b]" rest])

lemma reader_take_sound:
  "reader_take err n r = Inr (x, r') \<Longrightarrow>
     length x = n \<and> unread r = x @ unread r' \<and> r' = advance n r \<and> rd_pos r' \<le> length (rd_buf r')"
  by (auto simp: reader_take_def unread_def advance_def add.commute split: if_splits)
     (metis append_take_drop_id drop_drop)

lemma reader_u8_sound:
  "reader_u8 err r = Inr (b, r') \<Longrightarrow>
     unread r = b # unread r' \<and> r' = advance 1 r \<and> rd_pos r' \<le> length (rd_buf r')"
  unfolding reader_u8_def and_then_Inr
  by (auto dest!: reader_take_sound simp: length_Suc_conv)

text \<open>A reader at the end of its buffer has nothing left.\<close>

lemma unread_end: "rd_pos r \<le> length (rd_buf r) \<Longrightarrow> rd_pos r = length (rd_buf r) \<longleftrightarrow> unread r = []"
  by (auto simp: unread_def)

lemma unread_within: "unread r \<noteq> [] \<Longrightarrow> rd_pos r \<le> length (rd_buf r)"
  by (auto simp: unread_def)

text \<open>One read, with what is left after it.\<close>

lemma reader_steps:
  assumes "unread r = x @ rest" "rd_pos r \<le> length (rd_buf r)" "n = length x"
  shows "reader_take err n r = Inr (x, advance n r)" "unread (advance n r) = rest"
    "rd_pos (advance n r) \<le> length (rd_buf (advance n r))"
  using assms by (simp_all add: reader_take_unread) (auto simp: unread_def dest: arg_cong [where f = length])

lemma reader_u8_steps:
  assumes "unread r = x # rest" "rd_pos r \<le> length (rd_buf r)"
  shows "reader_u8 err r = Inr (x, advance 1 r)" "unread (advance 1 r) = rest"
    "rd_pos (advance 1 r) \<le> length (rd_buf (advance 1 r))"
  using reader_u8_unread [OF assms] reader_steps(2,3) [of r "[x]" rest 1] assms by simp_all

end
