(* ===== verification/Discovery.thy ===== *)
theory Discovery
  imports Peer_Registry Byte_Reader
begin

text \<open>
  The signed broadcast beacon (\<open>sp-discovery/src/beacon.rs\<close>) and the discovery service
  (\<open>sp-discovery/src/service.rs\<close>): what it advertises for each visibility, and its event loop. The
  signature scheme is third-party code: \<open>sign\<close> and \<open>verify\<close> are arguments. Sockets and the mDNS
  daemon are the environment of a step: what was sent and published is its output.
\<close>

unbundle bit_operations_syntax

section \<open>Beacons\<close>

definition BEACON_MAGIC :: bytes where
  "BEACON_MAGIC = ascii ''SPB1''"

definition MAX_NAME :: nat where "MAX_NAME = 64"

definition MAX_PLATFORM :: nat where "MAX_PLATFORM = 16"

definition MAX_BEACON_LEN :: nat where
  "MAX_BEACON_LEN = 4 + 32 + 2 + 8 + 4 + 1 + 1 + MAX_PLATFORM + 1 + MAX_NAME + 64"

definition FLAG_NAME_HIDDEN :: u8 where "FLAG_NAME_HIDDEN = 1"

datatype DiscoveryError = MdnsError | DiscoveryIo | MalformedBeacon | BadSignature

record Beacon =
  be_public_key :: PublicKey
  be_port :: u16
  be_capabilities :: Capabilities
  be_protocol_max :: u32
  be_flags :: u8
  be_platform :: bytes
  be_name :: bytes

text \<open>The loop of \<open>truncate_utf8\<close>, counting down to a character boundary.\<close>

fun boundary_below :: "bytes \<Rightarrow> nat \<Rightarrow> nat" where
  "boundary_below s 0 = 0"
| "boundary_below s (Suc n) = (if is_char_boundary s (Suc n) then Suc n else boundary_below s n)"

definition truncate_utf8 :: "bytes \<Rightarrow> nat \<Rightarrow> bytes" where
  "truncate_utf8 s mx = (if length s \<le> mx then s else take (boundary_below s mx) s)"

text \<open>The bytes a beacon signs, from the parts that go on the wire.\<close>

definition beacon_body :: "PublicKey \<Rightarrow> Beacon \<Rightarrow> bytes \<Rightarrow> bytes \<Rightarrow> bytes" where
  "beacon_body pk b platform name =
     BEACON_MAGIC @ pk @ put_u16 (be_port b) @ put_u64 (cap_bits (be_capabilities b))
       @ put_u32 (be_protocol_max b) @ [be_flags b] @ [word_of_nat (length platform)] @ platform
       @ [word_of_nat (length name)] @ name"

definition wire_name :: "Beacon \<Rightarrow> bytes" where
  "wire_name b = truncate_utf8 (if be_flags b AND FLAG_NAME_HIDDEN \<noteq> 0 then [] else be_name b) MAX_NAME"

definition wire_platform :: "Beacon \<Rightarrow> bytes" where
  "wire_platform b = truncate_utf8 (be_platform b) MAX_PLATFORM"

definition beacon_encode :: "PublicKey \<Rightarrow> (bytes \<Rightarrow> bytes) \<Rightarrow> Beacon \<Rightarrow> bytes" where
  "beacon_encode pk sign b =
     (let out = beacon_body pk b (wire_platform b) (wire_name b) in out @ sign out)"

definition reader_string :: "nat \<Rightarrow> Reader \<Rightarrow> DiscoveryError + bytes \<times> Reader" where
  "reader_string n r =
     and_then (reader_take MalformedBeacon n r)
       (\<lambda>(bs, r'). if utf8_valid bs then Inr (bs, r') else Inl MalformedBeacon)"

definition beacon_decode ::
  "(PublicKey \<Rightarrow> bytes \<Rightarrow> bytes \<Rightarrow> bool) \<Rightarrow> bytes \<Rightarrow> DiscoveryError + Beacon" where
  "beacon_decode verify data =
     (if length data < 117 \<or> MAX_BEACON_LEN < length data then Inl MalformedBeacon
      else
        (let body = take (length data - 64) data; sig = drop (length data - 64) data
         in if take 4 body \<noteq> BEACON_MAGIC then Inl MalformedBeacon
            else
              and_then (reader_take MalformedBeacon 32 \<lparr>rd_buf = body, rd_pos = 4\<rparr>) (\<lambda>(pk, r1).
              and_then (reader_take MalformedBeacon 2 r1) (\<lambda>(port, r2).
              and_then (reader_take MalformedBeacon 8 r2) (\<lambda>(caps, r3).
              and_then (reader_take MalformedBeacon 4 r3) (\<lambda>(pmax, r4).
              and_then (reader_u8 MalformedBeacon r4) (\<lambda>(flags, r5).
              and_then (reader_u8 MalformedBeacon r5) (\<lambda>(platform_len, r6).
              and_then (reader_string (min (unat platform_len) MAX_PLATFORM) r6) (\<lambda>(platform, r7).
              and_then (reader_u8 MalformedBeacon r7) (\<lambda>(name_len, r8).
              and_then (reader_string (min (unat name_len) MAX_NAME) r8) (\<lambda>(name, r9).
              if rd_pos r9 \<noteq> length body then Inl MalformedBeacon
              else if \<not> verify pk body sig then Inl BadSignature
              else Inr \<lparr>be_public_key = pk, be_port = get_u16 port,
                        be_capabilities = Capabilities (get_u64 caps),
                        be_protocol_max = get_u32 pmax, be_flags = flags,
                        be_platform = platform, be_name = name\<rparr>)))))))))))"

lemma boundary_below: "boundary_below s n \<le> n \<and> is_char_boundary s (boundary_below s n)"
  by (induction n) (auto simp: is_char_boundary_def)

lemma truncate_utf8_facts:
  "length (truncate_utf8 s n) \<le> n" "prefix (truncate_utf8 s n) s"
  "utf8_valid s \<Longrightarrow> utf8_valid (truncate_utf8 s n)"
  using boundary_below [of s n]
  by (auto simp: truncate_utf8_def min_def take_is_prefix intro: utf8_valid_take)

lemma wire_lengths: "length (wire_name b) \<le> 64" "length (wire_platform b) \<le> 16"
  using truncate_utf8_facts(1) by (auto simp: wire_name_def wire_platform_def MAX_NAME_def MAX_PLATFORM_def)

lemma reader_string_unread:
  assumes "unread r = x @ rest" "rd_pos r \<le> length (rd_buf r)" "n = length x" "utf8_valid x"
  shows "reader_string n r = Inr (x, advance n r)"
  using assms reader_take_unread [of r x rest n MalformedBeacon] by (simp add: reader_string_def)

text \<open>Reading a body field by field.\<close>

lemma beacon_decode_body:
  assumes data: "data = body @ sig" and body: "body = beacon_body pk b platform name"
    and sig: "length sig = 64" and pk: "length pk = 32"
    and platform: "length platform \<le> 16" "utf8_valid platform"
    and name: "length name \<le> 64" "utf8_valid name"
  shows "beacon_decode verify data =
           (if verify pk body sig
            then Inr (b\<lparr>be_public_key := pk, be_platform := platform, be_name := name\<rparr>)
            else Inl BadSignature)"
proof -
  let ?pl = "word_of_nat (length platform) :: u8" and ?nl = "word_of_nat (length name) :: u8"
  have lens: "unat ?pl = length platform" "unat ?nl = length name"
    using platform name by (simp_all add: unat_of_byte)
  have magic: "length BEACON_MAGIC = 4" by (simp add: BEACON_MAGIC_def ascii_def)
  have len_body: "length body = 53 + length platform + length name"
    by (simp add: body beacon_body_def magic pk)
  have cut: "take (length data - 64) data = body" "drop (length data - 64) data = sig" "take 4 body = BEACON_MAGIC"
    using sig by (simp_all add: data) (simp add: body beacon_body_def magic)
  define r0 where "r0 = \<lparr>rd_buf = body, rd_pos = 4\<rparr>"
  have u0: "unread r0 = pk @ put_u16 (be_port b) @ put_u64 (cap_bits (be_capabilities b)) @
      put_u32 (be_protocol_max b) @ be_flags b # ?pl # platform @ ?nl # name" "rd_pos r0 \<le> length (rd_buf r0)"
    using magic len_body by (simp_all add: r0_def unread_def body beacon_body_def)
  define r1 where "r1 = advance 32 r0"
  note s1 = reader_take_unread [OF u0(1) pk [symmetric] u0(2), of MalformedBeacon, folded r1_def]
  note u1 = reader_steps(2,3) [OF u0 pk [symmetric], folded r1_def]
  define r2 where "r2 = advance 2 r1"
  note s2 = reader_take_unread [OF u1(1) length_puts(1) [symmetric] u1(2), of MalformedBeacon, folded r2_def]
  note u2 = reader_steps(2,3) [OF u1 length_puts(1) [symmetric], folded r2_def]
  define r3 where "r3 = advance 8 r2"
  note s3 = reader_take_unread [OF u2(1) length_puts(3) [symmetric] u2(2), of MalformedBeacon, folded r3_def]
  note u3 = reader_steps(2,3) [OF u2 length_puts(3) [symmetric], folded r3_def]
  define r4 where "r4 = advance 4 r3"
  note s4 = reader_take_unread [OF u3(1) length_puts(2) [symmetric] u3(2), of MalformedBeacon, folded r4_def]
  note u4 = reader_steps(2,3) [OF u3 length_puts(2) [symmetric], folded r4_def]
  define r5 where "r5 = advance 1 r4"
  note s5 = reader_u8_unread [OF u4, of MalformedBeacon, folded r5_def]
  note u5 = reader_u8_steps(2,3) [OF u4, folded r5_def]
  define r6 where "r6 = advance 1 r5"
  note s6 = reader_u8_unread [OF u5, of MalformedBeacon, folded r6_def]
  note u6 = reader_u8_steps(2,3) [OF u5, folded r6_def]
  define r7 where "r7 = advance (length platform) r6"
  note s7 = reader_string_unread [OF u6 refl platform(2), folded r7_def]
  note u7 = reader_steps(2,3) [OF u6 refl, folded r7_def]
  define r8 where "r8 = advance 1 r7"
  note s8 = reader_u8_unread [OF u7, of MalformedBeacon, folded r8_def]
  note u8 = reader_u8_steps(2,3) [OF u7, folded r8_def]
  define r9 where "r9 = advance (length name) r8"
  have u8': "unread r8 = name @ []" using u8(1) by simp
  note s9 = reader_string_unread [OF u8' u8(2) refl name(2), folded r9_def]
  note u9 = reader_steps(2,3) [OF u8' u8(2) refl, folded r9_def]
  have "rd_buf r9 = body" by (simp add: r9_def r8_def r7_def r6_def r5_def r4_def r3_def r2_def r1_def r0_def)
  then have fin: "rd_pos r9 = length body" using u9 unread_end [of r9] by simp
  have "\<not> (length data < 117 \<or> MAX_BEACON_LEN < length data)"
    using len_body sig platform name by (simp add: data MAX_BEACON_LEN_def MAX_PLATFORM_def MAX_NAME_def)
  then show ?thesis
    unfolding beacon_decode_def cut Let_def r0_def [symmetric]
    using s1 s2 s3 s4 s5 s6 s7 s8 s9 fin lens cut(3) platform(1) name(1)
    by (simp add: MAX_PLATFORM_def MAX_NAME_def)
qed

text \<open>A beacon this device sends is accepted by every receiver whose signature check accepts what this
  device signs, within the length limit, and reads back as the advertised details under this device's
  public key, the name and platform cut at a character boundary and the name empty when it is hidden; a
  receiver whose check rejects the signature rejects the beacon.\<close>

theorem beacon_roundtrip:
  assumes "length pk = 32" "\<And>m. length (sign m) = 64"
    and "utf8_valid (be_name b)" "utf8_valid (be_platform b)"
  shows "beacon_decode verify (beacon_encode pk sign b) =
           (let body = beacon_body pk b (wire_platform b) (wire_name b)
            in if verify pk body (sign body)
               then Inr (b\<lparr>be_public_key := pk, be_platform := wire_platform b, be_name := wire_name b\<rparr>)
               else Inl BadSignature) \<and>
         length (beacon_encode pk sign b) \<le> MAX_BEACON_LEN \<and>
         (be_flags b AND FLAG_NAME_HIDDEN \<noteq> 0 \<longrightarrow> wire_name b = [])"
proof -
  have valid: "utf8_valid (wire_name b)" "utf8_valid (wire_platform b)"
    using assms(3,4) truncate_utf8_facts(3) by (auto simp: wire_name_def wire_platform_def)
  have "beacon_encode pk sign b =
      beacon_body pk b (wire_platform b) (wire_name b) @ sign (beacon_body pk b (wire_platform b) (wire_name b))"
    by (simp add: beacon_encode_def Let_def)
  from beacon_decode_body [OF this refl assms(2) assms(1) wire_lengths(2) valid(2) wire_lengths(1) valid(1)]
  have dec: "beacon_decode verify (beacon_encode pk sign b) =
      (let body = beacon_body pk b (wire_platform b) (wire_name b)
       in if verify pk body (sign body)
          then Inr (b\<lparr>be_public_key := pk, be_platform := wire_platform b, be_name := wire_name b\<rparr>)
          else Inl BadSignature)" by (simp add: Let_def)
  have "length (beacon_encode pk sign b) \<le> MAX_BEACON_LEN"
    using wire_lengths [of b] assms(1,2)
    by (simp add: beacon_encode_def Let_def beacon_body_def BEACON_MAGIC_def ascii_def MAX_BEACON_LEN_def
        MAX_PLATFORM_def MAX_NAME_def)
  moreover have "be_flags b AND FLAG_NAME_HIDDEN \<noteq> 0 \<longrightarrow> wire_name b = []"
    by (simp add: wire_name_def truncate_utf8_def)
  ultimately show ?thesis using dec by blast
qed

definition example_beacon :: Beacon where
  "example_beacon =
     \<lparr>be_public_key = [], be_port = 47650, be_capabilities = Capabilities 256, be_protocol_max = 65536,
      be_flags = 1, be_platform = [119], be_name = [68, 101]\<rparr>"

theorem beacon_roundtrip_witness:
  "beacon_decode (\<lambda>_ _ _. True) (beacon_encode (replicate 32 3) (\<lambda>_. replicate 64 0) example_beacon) =
     Inr (example_beacon\<lparr>be_public_key := replicate 32 3, be_name := []\<rparr>)"
proof -
  have "utf8_valid [119 :: u8]" "utf8_valid [68, 101 :: u8]" by (rule ascii_valid, auto)+
  then have "beacon_decode (\<lambda>_ _ _. True) (beacon_encode (replicate 32 3) (\<lambda>_. replicate 64 0) example_beacon) =
      Inr (example_beacon\<lparr>be_public_key := replicate 32 3, be_platform := wire_platform example_beacon,
             be_name := wire_name example_beacon\<rparr>)"
    using beacon_roundtrip [of "replicate 32 3" "\<lambda>_. replicate 64 0" example_beacon "\<lambda>_ _ _. True"]
    by (simp add: example_beacon_def Let_def)
  then show ?thesis
    by (simp add: example_beacon_def wire_platform_def wire_name_def truncate_utf8_def MAX_PLATFORM_def
        FLAG_NAME_HIDDEN_def)
qed

section \<open>The discovery service\<close>

datatype Visibility = Everyone | TrustedOnly | Hidden

record DiscoveryConfig =
  dc_name :: bytes
  dc_platform :: bytes
  dc_port :: u16
  dc_capabilities :: Capabilities
  dc_protocol_max :: u32
  dc_visibility :: Visibility
  dc_beacon_interval :: duration
  dc_browse :: bool

record MdnsRecord =
  mr_device_id :: DeviceId
  mr_name :: "bytes option"
  mr_platform :: bytes
  mr_port :: u16
  mr_capabilities :: Capabilities
  mr_protocol_max :: u32

datatype MdnsAction = Unpublish | Publish MdnsRecord

text \<open>The local identity as discovery uses it: its key, its signatures, and the hash for identifiers.\<close>

record LocalIdentity =
  li_public_key :: PublicKey
  li_sign :: "bytes \<Rightarrow> bytes"
  li_sha256 :: "bytes \<Rightarrow> bytes"

definition local_device_id :: "LocalIdentity \<Rightarrow> DeviceId" where
  "local_device_id i = device_id_of (li_sha256 i) (li_public_key i)"

definition publish :: "LocalIdentity \<Rightarrow> DiscoveryConfig \<Rightarrow> MdnsAction" where
  "publish i config =
     (if dc_visibility config = Hidden then Unpublish
      else Publish
        \<lparr>mr_device_id = local_device_id i,
         mr_name = (if dc_visibility config = Everyone then Some (dc_name config) else None),
         mr_platform = dc_platform config, mr_port = dc_port config,
         mr_capabilities = dc_capabilities config, mr_protocol_max = dc_protocol_max config\<rparr>)"

definition send_beacon :: "LocalIdentity \<Rightarrow> DiscoveryConfig \<Rightarrow> bytes" where
  "send_beacon i config =
     beacon_encode (li_public_key i) (li_sign i)
       \<lparr>be_public_key = li_public_key i, be_port = dc_port config,
        be_capabilities = dc_capabilities config, be_protocol_max = dc_protocol_max config,
        be_flags = (if dc_visibility config = Everyone then 0 else FLAG_NAME_HIDDEN),
        be_platform = dc_platform config, be_name = dc_name config\<rparr>"

text \<open>The receiving task: a datagram from an address becomes an advert, or is ignored.\<close>

definition beacon_advert ::
  "(bytes \<Rightarrow> bytes) \<Rightarrow> (PublicKey \<Rightarrow> bytes \<Rightarrow> bytes \<Rightarrow> bool) \<Rightarrow> bytes \<Rightarrow> IpAddr \<Rightarrow> PeerAdvert option" where
  "beacon_advert sha256 verify datagram from =
     (case beacon_decode verify datagram of
        Inl _ \<Rightarrow> None
      | Inr b \<Rightarrow>
          Some \<lparr>pa_device_id = device_id_of sha256 (be_public_key b),
                pa_public_key = Some (be_public_key b), pa_name = be_name b,
                pa_platform = be_platform b, pa_addresses = [socket_addr from (be_port b)],
                pa_capabilities = be_capabilities b, pa_protocol_max = unat (be_protocol_max b),
                pa_source = BeaconSource\<rparr>)"

record DiscoveryState =
  di_config :: DiscoveryConfig
  di_registry :: PeerRegistry
  di_mdns :: bool
  di_socket :: bool

datatype DiscoveryInput =
    CmdUpdate DiscoveryConfig
  | CmdIngest PeerAdvert instant
  | Found PeerAdvert instant
  | PeerGone DeviceId
  | BeaconTick
  | SweepTick instant

record DiscoveryOutput =
  do_events :: "DiscoveryEvent list"
  do_sent :: "bytes list"
  do_mdns :: "MdnsAction list"

abbreviation quiet :: DiscoveryOutput where
  "quiet \<equiv> \<lparr>do_events = [], do_sent = [], do_mdns = []\<rparr>"

definition discovery_start :: "LocalIdentity \<Rightarrow> DiscoveryConfig \<Rightarrow> bool \<Rightarrow> bool \<Rightarrow> DiscoveryOutput \<times> DiscoveryState" where
  "discovery_start i config mdns socket =
     (quiet\<lparr>do_mdns := (if mdns then [publish i config] else [])\<rparr>,
      \<lparr>di_config = config, di_registry = registry_new (local_device_id i), di_mdns = mdns, di_socket = socket\<rparr>)"

text \<open>One branch of the \<open>select\<close> loop.\<close>

fun discovery_step :: "LocalIdentity \<Rightarrow> DiscoveryInput \<Rightarrow> DiscoveryState \<Rightarrow> DiscoveryOutput \<times> DiscoveryState" where
  "discovery_step i (CmdUpdate config) st =
     (quiet\<lparr>do_mdns := (if di_mdns st then [publish i config] else [])\<rparr>, st\<lparr>di_config := config\<rparr>)"
| "discovery_step i (CmdIngest a now) st =
     (let (evs, r) = registry_step (Ingest a now) (di_registry st)
      in (quiet\<lparr>do_events := evs\<rparr>, st\<lparr>di_registry := r\<rparr>))"
| "discovery_step i (Found a now) st =
     (let (evs, r) = registry_step (Ingest a now) (di_registry st)
      in (quiet\<lparr>do_events := evs\<rparr>, st\<lparr>di_registry := r\<rparr>))"
| "discovery_step i (PeerGone did) st =
     (let (evs, r) = registry_step (Goodbye did) (di_registry st)
      in (quiet\<lparr>do_events := evs\<rparr>, st\<lparr>di_registry := r\<rparr>))"
| "discovery_step i BeaconTick st =
     (if di_socket st \<and> dc_visibility (di_config st) \<noteq> Hidden
      then (quiet\<lparr>do_sent := [send_beacon i (di_config st)]\<rparr>, st)
      else (quiet, st))"
| "discovery_step i (SweepTick now) st =
     (let (evs, r) = registry_step (Sweep now) (di_registry st)
      in (quiet\<lparr>do_events := evs\<rparr>, st\<lparr>di_registry := r\<rparr>))"

text \<open>What an output reveals to somebody listening: the names in the beacons it decodes and in mDNS records.\<close>

definition mdns_names :: "MdnsAction \<Rightarrow> bytes list" where
  "mdns_names a = (case a of Unpublish \<Rightarrow> []
     | Publish r \<Rightarrow> (case mr_name r of None \<Rightarrow> [] | Some n \<Rightarrow> [n]))"

definition revealed_names ::
  "(PublicKey \<Rightarrow> bytes \<Rightarrow> bytes \<Rightarrow> bool) \<Rightarrow> DiscoveryOutput \<Rightarrow> bytes list" where
  "revealed_names verify out =
     concat (map mdns_names (do_mdns out)) @
     concat (map (\<lambda>d. case beacon_decode verify d of Inl _ \<Rightarrow> []
                        | Inr b \<Rightarrow> if be_name b = [] then [] else [be_name b]) (do_sent out))"

lemma flag_and: "FLAG_NAME_HIDDEN AND FLAG_NAME_HIDDEN \<noteq> 0"
  by (simp add: FLAG_NAME_HIDDEN_def)

lemma hidden_beacon_name:
  assumes "length (li_public_key i) = 32" "\<And>m. length (li_sign i m) = 64"
    and "utf8_valid (dc_name config)" "utf8_valid (dc_platform config)" "dc_visibility config \<noteq> Everyone"
  shows "case beacon_decode verify (send_beacon i config) of Inl _ \<Rightarrow> True | Inr b \<Rightarrow> be_name b = []"
proof -
  let ?b = "\<lparr>be_public_key = li_public_key i, be_port = dc_port config,
        be_capabilities = dc_capabilities config, be_protocol_max = dc_protocol_max config,
        be_flags = FLAG_NAME_HIDDEN, be_platform = dc_platform config, be_name = dc_name config\<rparr>"
  have s: "send_beacon i config = beacon_encode (li_public_key i) (li_sign i) ?b"
    using assms(5) by (simp add: send_beacon_def)
  have valid: "utf8_valid (wire_name ?b)" "utf8_valid (wire_platform ?b)"
    using assms(3,4) truncate_utf8_facts(3) by (auto simp: wire_name_def wire_platform_def)
  have "beacon_encode (li_public_key i) (li_sign i) ?b =
      beacon_body (li_public_key i) ?b (wire_platform ?b) (wire_name ?b)
        @ li_sign i (beacon_body (li_public_key i) ?b (wire_platform ?b) (wire_name ?b))"
    by (simp add: beacon_encode_def Let_def)
  from beacon_decode_body [OF this refl assms(2) assms(1) wire_lengths(2) valid(2) wire_lengths(1) valid(1)]
  show ?thesis unfolding s
    using flag_and by (simp add: wire_name_def truncate_utf8_def)
qed

lemma discovery_start_private:
  "(dc_visibility config \<noteq> Everyone \<longrightarrow> revealed_names verify (fst (discovery_start i config mdns socket)) = []) \<and>
   (dc_visibility config = Hidden \<longrightarrow> do_sent (fst (discovery_start i config mdns socket)) = [] \<and>
      set (do_mdns (fst (discovery_start i config mdns socket))) \<subseteq> {Unpublish})"
  by (auto simp: discovery_start_def revealed_names_def mdns_names_def publish_def Let_def split: if_splits)

text \<open>C37: No step of the discovery service reveals the device's name unless the configuration in force makes it
  visible to everyone; with visibility hidden it sends no beacon and takes its mDNS record down. This
  holds for the start and for every step, whatever the service did before.\<close>

theorem discovery_keeps_name_private:
  assumes "length (li_public_key i) = 32" "\<And>m. length (li_sign i m) = 64"
    and "discovery_step i inp st = (out, st')"
    and "utf8_valid (dc_name (di_config st'))" "utf8_valid (dc_platform (di_config st'))"
  shows "(dc_visibility (di_config st') \<noteq> Everyone \<longrightarrow> revealed_names verify out = []) \<and>
         (dc_visibility (di_config st') = Hidden \<longrightarrow> do_sent out = [] \<and> set (do_mdns out) \<subseteq> {Unpublish}) \<and>
         (dc_visibility config \<noteq> Everyone \<longrightarrow> revealed_names verify (fst (discovery_start i config mdns socket)) = []) \<and>
         (dc_visibility config = Hidden \<longrightarrow> do_sent (fst (discovery_start i config mdns socket)) = [] \<and>
            set (do_mdns (fst (discovery_start i config mdns socket))) \<subseteq> {Unpublish})"
proof (cases "inp = BeaconTick")
  case True
  then have "st' = st" and out: "do_mdns out = []"
    "do_sent out = (if di_socket st \<and> dc_visibility (di_config st) \<noteq> Hidden
                    then [send_beacon i (di_config st)] else [])"
    using assms(3) by (auto split: if_splits)
  then show ?thesis
    using hidden_beacon_name [of i "di_config st" verify] assms(1,2,4,5)
      discovery_start_private [of config verify i mdns socket]
    by (auto simp: revealed_names_def split: sum.splits)
next
  case False
  then have "do_sent out = []"
    and "do_mdns out = [] \<or> do_mdns out = [publish i (di_config st')]"
    using assms(3) by (cases inp; auto simp: split_beta Let_def split: if_splits)+
  then show ?thesis
    using discovery_start_private [of config verify i mdns socket]
    by (auto simp: revealed_names_def mdns_names_def publish_def)
qed

definition example_identity :: LocalIdentity where
  "example_identity = \<lparr>li_public_key = replicate 32 3, li_sign = (\<lambda>_. replicate 64 0), li_sha256 = (\<lambda>x. x)\<rparr>"

definition example_config :: DiscoveryConfig where
  "example_config =
     \<lparr>dc_name = ascii ''Desk'', dc_platform = ascii ''linux'', dc_port = 47650, dc_capabilities = Capabilities 0, dc_protocol_max = 65536,
      dc_visibility = TrustedOnly, dc_beacon_interval = 1, dc_browse = True\<rparr>"

theorem discovery_keeps_name_private_witness:
  "revealed_names (\<lambda>_ _ _. True)
     (fst (discovery_step example_identity BeaconTick
        (snd (discovery_start example_identity example_config True True)))) = []"
proof -
  let ?st = "snd (discovery_start example_identity example_config True True)"
  have vis: "dc_visibility (di_config ?st) \<noteq> Everyone" "di_config ?st = example_config"
    by (simp_all add: discovery_start_def example_config_def)
  have valid: "utf8_valid (ascii ''Desk'')" "utf8_valid (ascii ''linux'')"
    by (rule ascii_valid, auto simp: ascii_def)+
  have "discovery_step example_identity BeaconTick ?st =
      (fst (discovery_step example_identity BeaconTick ?st), ?st)" by simp
  from valid discovery_keeps_name_private [OF _ _ this, of "\<lambda>_ _ _. True"] vis show ?thesis
    by (simp add: example_identity_def example_config_def del: discovery_step.simps)
qed

end
