(* ===== verification/Link_Health.thy ===== *)
theory Link_Health
  imports Route_Kinds
begin

text \<open>
  Hysteresis in the engine: the \<open>Degraded\<close> state of a connection and the lossless quality fallback
  (\<open>health.rs\<close>), and the supervision of noise suppression (\<open>denoise.rs\<close>). The first two share the
  interface \<open>hysteresis\<close>, which shows what two counters of consecutive seconds promise.
\<close>

section \<open>The interface\<close>

locale hysteresis =
  fixes upd :: "'i \<Rightarrow> 's \<Rightarrow> bool \<times> 's"
    and active :: "'s \<Rightarrow> bool"
    and bads goods :: "'s \<Rightarrow> nat"
    and bad good :: "'i \<Rightarrow> bool"
    and enter recover :: nat
  assumes exclusive: "bad i \<Longrightarrow> \<not> good i"
    and positive: "0 < enter" "0 < recover"
    and on: "\<not> active s \<Longrightarrow> active (snd (upd i s)) \<longleftrightarrow> bad i \<and> enter \<le> bads s + 1"
    and off: "active s \<Longrightarrow> \<not> active (snd (upd i s)) \<longleftrightarrow> good i \<and> recover \<le> goods s + 1"
    and bads_upper: "bads (snd (upd i s)) \<le> (if bad i then bads s + 1 else 0)"
    and goods_upper: "goods (snd (upd i s)) \<le> (if good i then goods s + 1 else 0)"
    and bads_grow: "\<not> active s \<Longrightarrow> bad i \<Longrightarrow> bads s + 1 < enter \<Longrightarrow> bads (snd (upd i s)) = bads s + 1"
    and goods_grow: "active s \<Longrightarrow> good i \<Longrightarrow> goods s + 1 < recover \<Longrightarrow> goods (snd (upd i s)) = goods s + 1"
    and reported: "fst (upd i s) \<longleftrightarrow> active (snd (upd i s)) \<noteq> active s"
begin

text \<open>A counter never exceeds the number of consecutive seconds of its kind at the end of the run.\<close>

lemma counters_trail:
  "bads (snd (io_run upd xs s)) \<le> length (takeWhile bad (rev xs)) + (if list_all bad xs then bads s else 0)"
  "goods (snd (io_run upd xs s)) \<le> length (takeWhile good (rev xs)) + (if list_all good xs then goods s else 0)"
proof (induction xs rule: rev_induct)
  case (snoc x xs)
  case 1
  then show ?case using snoc(1) bads_upper [of x "snd (io_run upd xs s)"]
    by (auto simp: io_run_append split: if_splits)
  case 2
  then show ?case using snoc(2) goods_upper [of x "snd (io_run upd xs s)"]
    by (auto simp: io_run_append split: if_splits)
qed auto

text \<open>A switch on is preceded by \<open>enter\<close> consecutive bad seconds, a switch off by \<open>recover\<close> good ones.\<close>

lemma switch_on_sustained:
  assumes "bads s = 0" "\<not> active (snd (io_run upd xs s))" "active (snd (io_run upd (xs @ [x]) s))"
  shows "enter \<le> length (takeWhile bad (rev (xs @ [x])))"
  using assms counters_trail(1) [of xs s] on [of "snd (io_run upd xs s)" x]
  by (auto simp: io_run_append split: if_splits)

lemma switch_off_sustained:
  assumes "goods s = 0" "active (snd (io_run upd xs s))" "\<not> active (snd (io_run upd (xs @ [x]) s))"
  shows "recover \<le> length (takeWhile good (rev (xs @ [x])))"
  using assms counters_trail(2) [of xs s] off [of "snd (io_run upd xs s)" x]
  by (auto simp: io_run_append split: if_splits)

text \<open>Enough consecutive seconds do switch.\<close>

lemma bad_keeps_active:
  "active s \<Longrightarrow> bad i \<Longrightarrow> active (snd (upd i s))"
  using off [of s i] exclusive [of i] by blast

lemma bad_run_stays:
  "active s \<Longrightarrow> list_all bad ys \<Longrightarrow> active (snd (io_run upd ys s))"
  by (induction ys arbitrary: s) (auto simp: bad_keeps_active)

lemma bad_run_from:
  assumes "list_all bad xs" "\<not> active s" "enter \<le> bads s + length xs"
  shows "xs = [] \<or> active (snd (io_run upd xs s))"
  using assms
proof (induction xs arbitrary: s)
  case (Cons x xs)
  show ?case
  proof (cases "enter \<le> bads s + 1")
    case True
    then have "active (snd (upd x s))" using Cons.prems on by simp
    then show ?thesis using bad_run_stays Cons.prems by simp
  next
    case False
    then have "bads (snd (upd x s)) = bads s + 1" "\<not> active (snd (upd x s))"
      using Cons.prems bads_grow on by auto
    then have "xs = [] \<or> active (snd (io_run upd xs (snd (upd x s))))"
      using Cons.IH [of "snd (upd x s)"] Cons.prems by simp
    moreover have "xs \<noteq> []" using False Cons.prems by auto
    ultimately show ?thesis by simp
  qed
qed simp

lemma sustained_bad_activates:
  assumes "list_all bad ys" "enter \<le> length ys"
  shows "active (snd (io_run upd (xs @ ys) s))"
proof -
  let ?t = "snd (io_run upd xs s)"
  have "ys \<noteq> []" using assms(2) positive(1) by auto
  then show ?thesis
    using bad_run_stays [OF _ assms(1), of ?t] bad_run_from [OF assms(1), of ?t] assms(2)
    by (cases "active ?t") (auto simp: io_run_append)
qed

end

section \<open>Connection health\<close>

definition DEGRADED_LOSS_PCT :: f64 where "DEGRADED_LOSS_PCT = FNum 3"
definition DEGRADED_JITTER_MS :: f64 where "DEGRADED_JITTER_MS = FNum 30"
definition RECOVERED_LOSS_PCT :: f64 where "RECOVERED_LOSS_PCT = FNum 1"
definition RECOVERED_JITTER_MS :: f64 where "RECOVERED_JITTER_MS = FNum 15"
definition ENTER_SECS :: nat where "ENTER_SECS = 3"
definition RECOVER_SECS :: nat where "RECOVER_SECS = 5"
definition FALLBACK_LOSS_PCT :: f64 where "FALLBACK_LOSS_PCT = FNum 2"
definition FALLBACK_SECS :: nat where "FALLBACK_SECS = 5"
definition FALLBACK_RECOVER_LOSS_PCT :: f64 where "FALLBACK_RECOVER_LOSS_PCT = FNum (1 / 2)"
definition FALLBACK_RECOVER_SECS :: nat where "FALLBACK_RECOVER_SECS = 15"
definition FALLBACK_BITRATE :: nat where "FALLBACK_BITRATE = 256000"

lemmas health_consts =
  DEGRADED_LOSS_PCT_def DEGRADED_JITTER_MS_def RECOVERED_LOSS_PCT_def RECOVERED_JITTER_MS_def
  ENTER_SECS_def RECOVER_SECS_def FALLBACK_LOSS_PCT_def FALLBACK_SECS_def
  FALLBACK_RECOVER_LOSS_PCT_def FALLBACK_RECOVER_SECS_def

record QualityFallback =
  qf_active :: bool
  qf_bad_secs :: nat
  qf_good_secs :: nat

definition fallback_default :: QualityFallback where
  "fallback_default = \<lparr>qf_active = False, qf_bad_secs = 0, qf_good_secs = 0\<rparr>"

definition fallback_update :: "f64 \<Rightarrow> QualityFallback \<Rightarrow> bool \<times> QualityFallback" where
  "fallback_update loss_pct s =
     (let bad_secs = (if f64_less FALLBACK_LOSS_PCT loss_pct then sat_add32 (qf_bad_secs s) 1 else 0);
          good_secs = (if f64_less loss_pct FALLBACK_RECOVER_LOSS_PCT then sat_add32 (qf_good_secs s) 1 else 0);
          nxt = (if qf_active s then good_secs < FALLBACK_RECOVER_SECS else FALLBACK_SECS \<le> bad_secs);
          changed = (nxt \<noteq> qf_active s)
      in (changed,
          \<lparr>qf_active = nxt, qf_bad_secs = (if changed then 0 else bad_secs),
           qf_good_secs = (if changed then 0 else good_secs)\<rparr>))"

definition fallback_reset :: "QualityFallback \<Rightarrow> QualityFallback" where
  "fallback_reset s = fallback_default"

record LinkHealth =
  lh_degraded :: bool
  lh_bad_secs :: nat
  lh_good_secs :: nat

definition health_default :: LinkHealth where
  "health_default = \<lparr>lh_degraded = False, lh_bad_secs = 0, lh_good_secs = 0\<rparr>"

definition link_bad :: "f64 \<times> f64 \<Rightarrow> bool" where
  "link_bad m \<longleftrightarrow> f64_less DEGRADED_LOSS_PCT (fst m) \<or> f64_less DEGRADED_JITTER_MS (snd m)"

definition link_good :: "f64 \<times> f64 \<Rightarrow> bool" where
  "link_good m \<longleftrightarrow> f64_less (fst m) RECOVERED_LOSS_PCT \<and> f64_less (snd m) RECOVERED_JITTER_MS"

definition health_update :: "f64 \<times> f64 \<Rightarrow> LinkHealth \<Rightarrow> bool \<times> LinkHealth" where
  "health_update m s =
     (let bad_secs = (if link_bad m then sat_add32 (lh_bad_secs s) 1 else 0);
          good_secs = (if link_good m then sat_add32 (lh_good_secs s) 1 else 0);
          nxt = (if lh_degraded s then good_secs < RECOVER_SECS else ENTER_SECS \<le> bad_secs)
      in (nxt \<noteq> lh_degraded s,
          \<lparr>lh_degraded = nxt, lh_bad_secs = bad_secs, lh_good_secs = good_secs\<rparr>))"

lemma good_link_not_bad: "link_bad m \<Longrightarrow> \<not> link_good m"
  unfolding link_bad_def link_good_def health_consts
  using f64_less_trans [of "FNum 3" "fst m" "FNum 1"] f64_less_trans [of "FNum 30" "snd m" "FNum 15"] by auto

interpretation link_health: hysteresis health_update lh_degraded lh_bad_secs lh_good_secs
  link_bad link_good ENTER_SECS RECOVER_SECS
  using good_link_not_bad
  by unfold_locales
    (auto simp: health_update_def Let_def sat_add32_def u32_max_def ENTER_SECS_def RECOVER_SECS_def)

lemma fallback_exclusive:
  "f64_less FALLBACK_LOSS_PCT i \<Longrightarrow> \<not> f64_less i FALLBACK_RECOVER_LOSS_PCT"
  unfolding health_consts using f64_less_trans [of "FNum 2" i "FNum (1 / 2)"] by auto

interpretation fallback: hysteresis fallback_update qf_active qf_bad_secs qf_good_secs
  "f64_less FALLBACK_LOSS_PCT" "\<lambda>l. f64_less l FALLBACK_RECOVER_LOSS_PCT" FALLBACK_SECS FALLBACK_RECOVER_SECS
  using fallback_exclusive
  by unfold_locales
    (auto simp: fallback_update_def Let_def sat_add32_def u32_max_def FALLBACK_SECS_def FALLBACK_RECOVER_SECS_def)

text \<open>A connection is shown as degraded as soon as loss or jitter stayed bad for three consecutive seconds,
  becomes degraded only then, and recovers only after five consecutive good seconds; a lossless route
  falls back after five seconds of loss above 2 % and returns only after fifteen below 0.5 %.
  Measurements that are not a number are neither good nor bad.\<close>

theorem health_needs_sustained_change:
  assumes "list_all link_bad ys" "3 \<le> length ys" "list_all (f64_less FALLBACK_LOSS_PCT) ls" "5 \<le> length ls"
  shows "lh_degraded (snd (io_run health_update (xs @ ys) health_default)) \<and>
         (lh_degraded (snd (io_run health_update zs health_default)) \<and>
            \<not> lh_degraded (snd (io_run health_update (zs @ [z]) health_default)) \<longrightarrow>
          5 \<le> length (takeWhile link_good (rev (zs @ [z])))) \<and>
         (\<not> lh_degraded (snd (io_run health_update zs health_default)) \<and>
            lh_degraded (snd (io_run health_update (zs @ [z]) health_default)) \<longrightarrow>
          3 \<le> length (takeWhile link_bad (rev (zs @ [z])))) \<and>
         qf_active (snd (io_run fallback_update (ks @ ls) fallback_default)) \<and>
         (qf_active (snd (io_run fallback_update ws fallback_default)) \<and>
            \<not> qf_active (snd (io_run fallback_update (ws @ [w]) fallback_default)) \<longrightarrow>
          15 \<le> length (takeWhile (\<lambda>l. f64_less l FALLBACK_RECOVER_LOSS_PCT) (rev (ws @ [w]))))"
proof -
  have d: "lh_bad_secs health_default = 0" "lh_good_secs health_default = 0" "qf_good_secs fallback_default = 0"
    by (simp_all add: health_default_def fallback_default_def)
  have e: "ENTER_SECS = 3" "RECOVER_SECS = 5" "FALLBACK_SECS = 5" "FALLBACK_RECOVER_SECS = 15"
    by (simp_all add: health_consts)
  show ?thesis
    using link_health.sustained_bad_activates [OF assms(1), of xs health_default]
      link_health.switch_off_sustained [OF d(2), of zs z] link_health.switch_on_sustained [OF d(1), of zs z]
      fallback.sustained_bad_activates [OF assms(3), of ks fallback_default]
      fallback.switch_off_sustained [OF d(3), of ws w] assms(2,4)
    unfolding e by blast
qed

theorem health_needs_sustained_change_witness:
  "lh_degraded (snd (io_run health_update ([(FNum 0, FNum 0)] @ replicate 3 (FNum 5, FNaN)) health_default)) \<and>
   qf_active (snd (io_run fallback_update ([FNaN] @ replicate 5 (FNum 9)) fallback_default))"
proof -
  have "list_all link_bad (replicate 3 (FNum 5, FNaN))"
    by (simp add: list_all_iff link_bad_def health_consts)
  moreover have "list_all (f64_less FALLBACK_LOSS_PCT) (replicate 5 (FNum 9))"
    by (simp add: list_all_iff health_consts)
  ultimately show ?thesis
    using health_needs_sustained_change [of "replicate 3 (FNum 5, FNaN)" "replicate 5 (FNum 9)"
        "[(FNum 0, FNum 0)]" "[]" undefined "[FNaN]" "[]" undefined]
    by simp
qed

section \<open>Noise suppression\<close>

definition OVERRUN_LIMIT :: nat where "OVERRUN_LIMIT = 10"
definition RECOVERY_STEPS :: nat where "RECOVERY_STEPS = 20"

datatype DenoiseChange = Suspended | Resumed

record DenoiseSupervisor =
  dn_overruns :: "nat option"
  dn_healthy_steps :: nat
  dn_suspended :: bool

definition denoise_default :: DenoiseSupervisor where
  "denoise_default = \<lparr>dn_overruns = None, dn_healthy_steps = 0, dn_suspended = False\<rparr>"

definition denoise_reset :: "DenoiseSupervisor \<Rightarrow> DenoiseSupervisor" where
  "denoise_reset s = s\<lparr>dn_healthy_steps := 0, dn_suspended := False, dn_overruns := None\<rparr>"

definition denoise_step :: "nat \<times> bool \<Rightarrow> DenoiseSupervisor \<Rightarrow> DenoiseChange option \<times> DenoiseSupervisor" where
  "denoise_step inp s0 =
     (let (overruns, enabled) = inp;
          missed = overruns - (case dn_overruns s0 of Some x \<Rightarrow> x | None \<Rightarrow> overruns);
          s = s0\<lparr>dn_overruns := Some overruns\<rparr>
      in if \<not> enabled then (None, (denoise_reset s)\<lparr>dn_overruns := Some overruns\<rparr>)
         else if OVERRUN_LIMIT \<le> missed then
           (if dn_suspended s then None else Some Suspended,
            s\<lparr>dn_healthy_steps := 0, dn_suspended := True\<rparr>)
         else if \<not> dn_suspended s then (None, s)
         else if (dn_healthy_steps s + 1) mod 2 ^ 32 < RECOVERY_STEPS then
           (None, s\<lparr>dn_healthy_steps := (dn_healthy_steps s + 1) mod 2 ^ 32\<rparr>)
         else (Some Resumed, s\<lparr>dn_healthy_steps := 0, dn_suspended := False\<rparr>))"

text \<open>The counter stays below the limit, changes alternate, and a suspension lasts at least twenty steps.\<close>

definition denoise_ok :: "DenoiseSupervisor \<Rightarrow> bool" where
  "denoise_ok s \<longleftrightarrow> dn_healthy_steps s < RECOVERY_STEPS \<and> (\<not> dn_suspended s \<longrightarrow> dn_healthy_steps s = 0)"

lemma denoise_step_cases:
  "denoise_step (n, en) s =
     (let missed = n - (case dn_overruns s of Some x \<Rightarrow> x | None \<Rightarrow> n)
      in if \<not> en then (None, \<lparr>dn_overruns = Some n, dn_healthy_steps = 0, dn_suspended = False\<rparr>)
         else if OVERRUN_LIMIT \<le> missed then
           (if dn_suspended s then None else Some Suspended,
            \<lparr>dn_overruns = Some n, dn_healthy_steps = 0, dn_suspended = True\<rparr>)
         else if \<not> dn_suspended s then
           (None, \<lparr>dn_overruns = Some n, dn_healthy_steps = dn_healthy_steps s, dn_suspended = False\<rparr>)
         else if dn_healthy_steps s + 1 < RECOVERY_STEPS then
           (None, \<lparr>dn_overruns = Some n, dn_healthy_steps = dn_healthy_steps s + 1, dn_suspended = True\<rparr>)
         else (Some Resumed, \<lparr>dn_overruns = Some n, dn_healthy_steps = 0, dn_suspended = False\<rparr>))"
  if "denoise_ok s"
  using that by (cases s) (simp add: denoise_step_def denoise_reset_def denoise_ok_def RECOVERY_STEPS_def Let_def)

lemma denoise_invariant:
  assumes "denoise_ok s"
  shows "denoise_ok (snd (denoise_step i s))"
    and "fst (denoise_step i s) = Some Suspended \<longleftrightarrow> \<not> dn_suspended s \<and> dn_suspended (snd (denoise_step i s))"
    and "fst (denoise_step i s) = Some Resumed \<Longrightarrow>
           dn_suspended s \<and> \<not> dn_suspended (snd (denoise_step i s)) \<and> dn_healthy_steps s = RECOVERY_STEPS - 1"
  using assms
  by (cases i; simp add: denoise_step_cases Let_def denoise_ok_def RECOVERY_STEPS_def split: if_splits)+

end
