(* ===== verification/Stream_Profiles.thy ===== *)
theory Stream_Profiles
  imports Control_Messages Jitter_Buffer Link_Health
begin

text \<open>
  Stream parameters: the latency and quality profiles of \<open>sp-media/src/profile.rs\<close>, what the engine does to a
  profile a peer sent (\<open>sanitize_profile\<close> in \<open>actor.rs\<close>), the lossless fallback of \<open>actor/profiles.rs\<close>, and the
  bandwidth estimates. All numbers are the code's u32, at their width.
\<close>

section \<open>Local profiles\<close>

datatype LatencyProfile = LowLatency | Balanced | Stable | CustomLatency u32 u32

primrec latency_params :: "LatencyProfile \<Rightarrow> u32 \<times> u32 \<times> u32" where
  "latency_params LowLatency = (10, 40, 5000)"
| "latency_params Balanced = (20, 80, 10000)"
| "latency_params Stable = (60, 250, 20000)"
| "latency_params (CustomLatency min_ms max_ms) =
     (let lo = clamp min_ms 5 500 in (lo, clamp max_ms lo 1000, 10000))"

datatype Quality = QAuto | QOpus u32 | QLossless

definition codec_id :: "Codec \<Rightarrow> u32" where
  "codec_id c = ucast (codec_as_u8 c)"

definition build_profile :: "LatencyProfile \<Rightarrow> Quality \<Rightarrow> u32 \<Rightarrow> bool \<Rightarrow> StreamProfile" where
  "build_profile latency quality channels redundancy =
     (let (jitter_min_ms, jitter_max_ms, frame_us) = latency_params latency;
          (codec, bitrate, adaptive) =
            (case quality of
               QAuto \<Rightarrow> (Opus, 128000, True)
             | QOpus bps \<Rightarrow> (Opus, clamp bps 6000 510000, False)
             | QLossless \<Rightarrow> (PcmS16Le, 0, False));
          frame_us = (if codec = PcmS16Le then min frame_us (if 1 < channels then 5000 else 10000) else frame_us)
      in \<lparr>sp_codec = codec_id codec, sp_bitrate = bitrate, sp_channels = clamp channels 1 2,
          sp_frame_us = frame_us, sp_jitter_min_ms = jitter_min_ms, sp_jitter_max_ms = jitter_max_ms,
          sp_redundancy = redundancy, sp_adaptive_bitrate = adaptive, sp_denoise = False\<rparr>)"

section \<open>Profiles from a peer\<close>

definition FRAME_SIZES :: "u32 list" where
  "FRAME_SIZES = [2500, 5000, 10000, 20000]"

definition sanitize_profile :: "StreamProfile \<Rightarrow> StreamProfile" where
  "sanitize_profile p =
     (let channels = clamp (sp_channels p) 1 2;
          frame_us = (if sp_frame_us p \<in> set FRAME_SIZES then sp_frame_us p else 10000);
          frame_us = (if sp_codec p = codec_id PcmS16Le
                      then min frame_us (if channels = 2 then 5000 else 10000) else frame_us);
          codec = (if sp_codec p \<noteq> codec_id PcmS16Le \<and> sp_codec p \<noteq> codec_id Opus then codec_id Opus
                   else sp_codec p);
          jitter_min = clamp (sp_jitter_min_ms p) 5 500
      in p\<lparr>sp_channels := channels, sp_frame_us := frame_us, sp_codec := codec,
           sp_bitrate := clamp (sp_bitrate p) 6000 510000, sp_jitter_min_ms := jitter_min,
           sp_jitter_max_ms := clamp (sp_jitter_max_ms p) jitter_min 1000\<rparr>)"

definition apply_quality_fallback :: "StreamProfile \<Rightarrow> StreamProfile" where
  "apply_quality_fallback p =
     (if sp_codec p \<noteq> codec_id PcmS16Le then p
      else p\<lparr>sp_codec := codec_id Opus, sp_bitrate := word_of_nat FALLBACK_BITRATE, sp_adaptive_bitrate := False\<rparr>)"

definition encoding_changed :: "StreamProfile \<Rightarrow> StreamProfile \<Rightarrow> bool" where
  "encoding_changed a b \<longleftrightarrow>
     sp_codec a \<noteq> sp_codec b \<or> sp_channels a \<noteq> sp_channels b \<or> sp_frame_us a \<noteq> sp_frame_us b"

definition quality_changed :: "StreamProfile \<Rightarrow> StreamProfile \<Rightarrow> bool" where
  "quality_changed a b \<longleftrightarrow>
     encoding_changed a b \<or> sp_bitrate a \<noteq> sp_bitrate b \<or> sp_redundancy a \<noteq> sp_redundancy b
     \<or> sp_adaptive_bitrate a \<noteq> sp_adaptive_bitrate b"

section \<open>Estimates\<close>

definition PACKET_OVERHEAD_PCT :: u32 where "PACKET_OVERHEAD_PCT = 12"
definition ENCODER_CPU_PCT :: u32 where "ENCODER_CPU_PCT = 2"
definition PCM_ENCODER_CPU_PCT :: u32 where "PCM_ENCODER_CPU_PCT = 1"

definition profile_kbps :: "StreamProfile \<Rightarrow> u32" where
  "profile_kbps p =
     (let media = (if sp_codec p = codec_id PcmS16Le then 48 * 16 * clamp (sp_channels p) 1 2
                   else sp_bitrate p div 1000);
          media = (if sp_redundancy p then media * 2 else media)
      in media + media * PACKET_OVERHEAD_PCT div 100)"

definition encoder_cpu_pct :: "StreamProfile \<Rightarrow> u32" where
  "encoder_cpu_pct p = (if sp_codec p = codec_id PcmS16Le then PCM_ENCODER_CPU_PCT else ENCODER_CPU_PCT)"

section \<open>What a usable profile is\<close>

definition pcm_bytes :: "StreamProfile \<Rightarrow> nat" where
  "pcm_bytes p = samples_per_frame (unat (sp_frame_us p)) * unat (sp_channels p) * 2"

definition profile_ok :: "StreamProfile \<Rightarrow> bool" where
  "profile_ok p \<longleftrightarrow>
     (sp_codec p = codec_id PcmS16Le \<or> sp_codec p = codec_id Opus) \<and>
     sp_channels p \<in> {1, 2} \<and> sp_frame_us p \<in> set FRAME_SIZES \<and>
     5 \<le> sp_jitter_min_ms p \<and> sp_jitter_min_ms p \<le> 500 \<and>
     sp_jitter_min_ms p \<le> sp_jitter_max_ms p \<and> sp_jitter_max_ms p \<le> 1000 \<and>
     (sp_codec p = codec_id Opus \<longrightarrow> 6000 \<le> sp_bitrate p \<and> sp_bitrate p \<le> 510000) \<and>
     (sp_codec p = codec_id PcmS16Le \<longrightarrow> sp_frame_us p \<le> (if sp_channels p = 2 then 5000 else 10000))"

lemma codec_ids [simp]: "codec_id PcmS16Le = 1" "codec_id Opus = 2"
  by (simp_all add: codec_id_def codec_as_u8_def)

lemma clamp_one_two: "clamp (c::u32) 1 2 = (if c = 0 \<or> c = 1 then 1 else 2)"
  by (simp add: clamp_def word_less_nat_alt word_unat_eq_iff)

lemma clamp_le_hi: "lo \<le> hi \<Longrightarrow> clamp x lo hi \<le> hi" and clamp_ge_lo: "lo \<le> hi \<Longrightarrow> lo \<le> clamp x lo hi"
  using clamp_bounds by auto

lemma nested_clamp:
  assumes "(lo::'a::linorder) \<le> hi" "hi \<le> hh"
  shows "clamp x lo hi \<le> clamp y (clamp x lo hi) hh" "clamp y (clamp x lo hi) hh \<le> hh"
  using clamp_bounds [OF assms(1), of x] clamp_bounds [of "clamp x lo hi" hh y] assms by auto

lemma frame_sizes_min:
  "f \<in> set FRAME_SIZES \<Longrightarrow> min f 5000 \<in> set FRAME_SIZES" "f \<in> set FRAME_SIZES \<Longrightarrow> min f 10000 \<in> set FRAME_SIZES"
  by (auto simp: FRAME_SIZES_def min_def)

lemma sanitize_profile_ok: "profile_ok (sanitize_profile p)"
  using nested_clamp [where lo = "5::u32" and hi = 500 and hh = 1000 and x = "sp_jitter_min_ms p" and y = "sp_jitter_max_ms p"]
    clamp_bounds [of "5::u32" 500 "sp_jitter_min_ms p"] clamp_bounds [of "6000::u32" 510000 "sp_bitrate p"]
    frame_sizes_min [of "sp_frame_us p"]
  unfolding profile_ok_def sanitize_profile_def Let_def
  by (auto simp: clamp_one_two FRAME_SIZES_def)

lemma latency_params_ok:
  "latency_params latency = (lo, hi, f) \<Longrightarrow>
     5 \<le> lo \<and> lo \<le> 500 \<and> lo \<le> hi \<and> hi \<le> 1000 \<and> f \<in> set FRAME_SIZES"
proof (cases latency)
  case (CustomLatency a b)
  then show "latency_params latency = (lo, hi, f) \<Longrightarrow> ?thesis"
    using nested_clamp [where lo = "5::u32" and hi = 500 and hh = 1000 and x = a and y = b]
      clamp_bounds [of "5::u32" 500 a]
    by (auto simp: Let_def FRAME_SIZES_def)
qed (auto simp: FRAME_SIZES_def)

lemma min_frame: "min (f::u32) a \<le> a"
  by simp

lemma build_profile_ok: "profile_ok (build_profile latency quality channels redundancy)"
proof -
  obtain lo hi f where l: "latency_params latency = (lo, hi, f)" by (metis prod_cases3)
  note ok = latency_params_ok [OF l]
  have ch: "1 < channels \<longleftrightarrow> channels \<noteq> 0 \<and> channels \<noteq> 1"
    by (simp add: word_less_nat_alt word_unat_eq_iff) linarith
  show ?thesis
    using ok clamp_bounds [of "6000::u32" 510000] frame_sizes_min [of f]
    by (cases quality) (auto simp: build_profile_def l Let_def profile_ok_def clamp_one_two ch)
qed

text \<open>PCM at the frame sizes a profile allows fits a media payload.\<close>

lemma pcm_fits:
  assumes "profile_ok p" "sp_codec p = codec_id PcmS16Le"
  shows "pcm_bytes p \<le> 960 \<and> 0 < pcm_bytes p"
  using assms
  by (auto simp: profile_ok_def pcm_bytes_def FRAME_SIZES_def samples_per_frame_def SAMPLE_RATE_def)

lemma profile_ok_sanitize_id:
  "profile_ok p \<Longrightarrow> 6000 \<le> sp_bitrate p \<Longrightarrow> sp_bitrate p \<le> 510000 \<Longrightarrow> sanitize_profile p = p"
  by (cases p) (auto simp: profile_ok_def sanitize_profile_def Let_def clamp_one_two min_def)

lemma sanitize_profile_idem: "sanitize_profile (sanitize_profile p) = sanitize_profile p"
proof (rule profile_ok_sanitize_id [OF sanitize_profile_ok])
  show "6000 \<le> sp_bitrate (sanitize_profile p)" "sp_bitrate (sanitize_profile p) \<le> 510000"
    using clamp_bounds [of "6000::u32" 510000 "sp_bitrate p"] by (simp_all add: sanitize_profile_def Let_def)
qed

lemma fallback_profile:
  assumes "profile_ok p" "sp_codec p = codec_id PcmS16Le"
  shows "profile_ok (apply_quality_fallback p) \<and> encoding_changed p (apply_quality_fallback p)"
  using assms
  by (auto simp: profile_ok_def apply_quality_fallback_def encoding_changed_def FALLBACK_BITRATE_def)

text \<open>The bandwidth estimate of a usable profile does not wrap: at most two 1.5 Mb/s streams and their headers.\<close>

lemma kbps_step:
  assumes "unat (m::u32) \<le> 3072"
  shows "unat (m + m * PACKET_OVERHEAD_PCT div 100) = unat m + unat m * 12 div 100"
proof -
  have "unat (m * PACKET_OVERHEAD_PCT) = unat m * 12"
    using assms by (simp add: PACKET_OVERHEAD_PCT_def unat_word_ariths)
  then have d: "unat (m * PACKET_OVERHEAD_PCT div 100) = unat m * 12 div 100"
    by (simp add: unat_div)
  have "unat m + unat m * 12 div 100 < 2 ^ 32" using assms by (simp add: div_le_mono)
  then show ?thesis unfolding unat_word_ariths(1) d by simp
qed

definition media_kbps :: "StreamProfile \<Rightarrow> nat" where
  "media_kbps p = (if sp_codec p = codec_id PcmS16Le then 768 * unat (sp_channels p) else unat (sp_bitrate p) div 1000)
     * (if sp_redundancy p then 2 else 1)"

lemma media_word:
  assumes "profile_ok p"
  defines "m \<equiv> (if sp_codec p = codec_id PcmS16Le then 48 * 16 * clamp (sp_channels p) 1 2 else sp_bitrate p div 1000 :: u32)"
  shows "unat m = (if sp_codec p = codec_id PcmS16Le then 768 * unat (sp_channels p) else unat (sp_bitrate p) div 1000)"
    and "unat m \<le> 1536"
proof -
  show u: "unat m = (if sp_codec p = codec_id PcmS16Le then 768 * unat (sp_channels p) else unat (sp_bitrate p) div 1000)"
    using assms(1) by (auto simp: m_def profile_ok_def clamp_one_two unat_div)
  have "unat (sp_bitrate p) div 1000 \<le> 510" if "sp_codec p = codec_id Opus"
    using assms(1) that div_le_mono [of "unat (sp_bitrate p)" 510000 1000] by (auto simp: profile_ok_def word_le_nat_alt)
  then show "unat m \<le> 1536" using assms(1) u by (auto simp: profile_ok_def)
qed

lemma profile_kbps_exact:
  assumes "profile_ok p"
  shows "unat (profile_kbps p) = media_kbps p + media_kbps p * 12 div 100"
proof -
  define m :: u32 where "m = (if sp_codec p = codec_id PcmS16Le then 48 * 16 * clamp (sp_channels p) 1 2 else sp_bitrate p div 1000)"
  define w where "w = (if sp_redundancy p then m * 2 else m)"
  have "unat m \<le> 1536" and m: "media_kbps p = unat m * (if sp_redundancy p then 2 else 1)"
    using media_word [OF assms] by (simp_all add: m_def media_kbps_def)
  then have "unat w = media_kbps p" "unat w \<le> 3072"
    by (auto simp: w_def unat_word_ariths)
  moreover have "profile_kbps p = w + w * PACKET_OVERHEAD_PCT div 100"
    unfolding profile_kbps_def Let_def w_def m_def by simp
  ultimately show ?thesis using kbps_step [of w] by simp
qed

text \<open>Every stream runs on usable parameters: whatever the settings say and whatever a peer sends, the
  profile is in range, with a frame that fits one media packet when it is uncompressed, and a peer's profile
  is settled by one pass. The lossless fallback of such a profile is again usable, and a different encoding.
  The bandwidth estimate of a usable profile is exact: 32 bits never wrap.\<close>

theorem stream_profiles_usable:
  assumes "q = build_profile latency quality channels redundancy \<or> q = sanitize_profile p"
  shows "profile_ok q \<and> sanitize_profile (sanitize_profile p) = sanitize_profile p \<and>
    (if sp_codec q = codec_id PcmS16Le
     then pcm_bytes q \<le> MAX_MEDIA_PAYLOAD \<and> profile_ok (apply_quality_fallback q) \<and>
       encoding_changed q (apply_quality_fallback q)
     else apply_quality_fallback q = q) \<and>
    unat (profile_kbps q) = media_kbps q + media_kbps q * 12 div 100"
proof -
  have ok: "profile_ok q" using assms build_profile_ok sanitize_profile_ok by blast
  then show ?thesis
    using pcm_fits [OF ok] fallback_profile [OF ok] profile_kbps_exact [OF ok] sanitize_profile_idem
    by (auto simp: MAX_MEDIA_PAYLOAD_def apply_quality_fallback_def)
qed

theorem stream_profiles_usable_witness:
  "pcm_bytes (build_profile LowLatency QLossless 2 True) = 960 \<and>
   unat (profile_kbps (build_profile LowLatency QLossless 2 True)) = 3440"
proof -
  let ?q = "build_profile LowLatency QLossless 2 True"
  have q: "sp_codec ?q = 1" "sp_channels ?q = 2" "sp_frame_us ?q = 5000" "sp_redundancy ?q"
    by (simp_all add: build_profile_def Let_def clamp_one_two)
  have "unat (profile_kbps ?q) = media_kbps ?q + media_kbps ?q * 12 div 100"
    using stream_profiles_usable [of ?q LowLatency QLossless 2 True] by blast
  then show ?thesis
    by (simp add: q media_kbps_def pcm_bytes_def samples_per_frame_def SAMPLE_RATE_def)
qed

end
