(* ===== verification/Pairing.thy ===== *)
theory Pairing
  imports Identity Net_Address Byte_Reader "HOL-Library.List_Lexorder"
begin

text \<open>
  Pairing primitives (\<open>pairing.rs\<close>): the QR code payload with its text form, the selection of the
  addresses it carries, the proof of possession of its secret and the short authentication string.
  HMAC-SHA256 and SHA-256 are arguments. Text is UTF-8 bytes.
\<close>

datatype SecurityError =
    InvalidPairingPayload string
  | PairingExpired
  | PairingProofMismatch
  | Corrupted
  | SecIo
  | SecSerde
  | Certificate
  | InvalidCertificate

definition QR_PREFIX :: bytes where
  "QR_PREFIX = ascii ''SP1:''"

definition QR_VALIDITY_SECS :: nat where
  "QR_VALIDITY_SECS = 300"

definition MAX_QR_ADDRESSES :: nat where
  "MAX_QR_ADDRESSES = 3"

definition CODE_VERSION :: u8 where
  "CODE_VERSION = 1"

definition PROOF_LABEL :: bytes where
  "PROOF_LABEL = ascii ''soundpush-pair-v2''"

record QrPairingPayload =
  qr_device_id :: DeviceId
  qr_addresses :: "SocketAddr list"
  qr_secret :: bytes
  qr_expires_unix :: nat

section \<open>Addresses for a code\<close>

definition is_loopback :: "SocketAddr \<Rightarrow> bool" where
  "is_loopback a = (case sa_ip a of V4 ip \<Rightarrow> v4_is_loopback ip | V6 ip \<Rightarrow> v6_is_loopback ip)"

definition dialable_v4 :: "SocketAddr \<Rightarrow> bool" where
  "dialable_v4 a = (case sa_ip a of
       V4 ip \<Rightarrow> \<not> v4_is_loopback ip \<and> \<not> v4_is_unspecified ip \<and> \<not> v4_is_link_local ip
     | V6 _ \<Rightarrow> False)"

definition dialable_v6 :: "SocketAddr \<Rightarrow> bool" where
  "dialable_v6 a = (case sa_ip a of
       V4 _ \<Rightarrow> False
     | V6 ip \<Rightarrow> \<not> v6_is_loopback ip \<and> \<not> v6_is_unspecified ip \<and> v6_segment0 ip AND 0xffc0 \<noteq> 0xfe80)"

definition first_port :: "SocketAddr list \<Rightarrow> u16" where
  "first_port addrs = (case addrs of [] \<Rightarrow> 0 | a # _ \<Rightarrow> sa_port a)"

definition select_addresses :: "SocketAddr list \<Rightarrow> SocketAddr list" where
  "select_addresses addrs =
     (let same_port = filter (\<lambda>a. sa_port a = first_port addrs) addrs;
          v4 = filter dialable_v4 same_port;
          v6 = filter dialable_v6 same_port;
          loopback = filter is_loopback same_port;
          out = (if v4 @ v6 = [] then loopback else v4 @ v6)
      in take MAX_QR_ADDRESSES (remdups_adj out))"

definition qr_new :: "bytes \<Rightarrow> DeviceId \<Rightarrow> SocketAddr list \<Rightarrow> nat \<Rightarrow> QrPairingPayload" where
  "qr_new secret device_id addresses now_unix =
     \<lparr>qr_device_id = device_id, qr_addresses = select_addresses addresses, qr_secret = secret,
      qr_expires_unix = (now_unix + QR_VALIDITY_SECS) mod 2 ^ 64\<rparr>"

definition qr_is_expired :: "QrPairingPayload \<Rightarrow> nat \<Rightarrow> bool" where
  "qr_is_expired p now_unix \<longleftrightarrow> qr_expires_unix p < now_unix"

section \<open>The text of a code\<close>

fun ip_bytes :: "IpAddr \<Rightarrow> bytes" where
  "ip_bytes (V4 a) = 4 # v4_octets a"
| "ip_bytes (V6 a) = 6 # v6_octets a"

definition qr_ips :: "QrPairingPayload \<Rightarrow> IpAddr list" where
  "qr_ips p = take MAX_QR_ADDRESSES
     (map sa_ip (filter (\<lambda>a. sa_port a = first_port (qr_addresses p)) (qr_addresses p)))"

definition qr_bytes :: "QrPairingPayload \<Rightarrow> bytes" where
  "qr_bytes p =
     [CODE_VERSION] @ qr_device_id p @ qr_secret p @ put_u16 (first_port (qr_addresses p))
       @ [word_of_nat (length (qr_ips p))] @ concat (map ip_bytes (qr_ips p))"

definition to_uri :: "QrPairingPayload \<Rightarrow> bytes" where
  "to_uri p = QR_PREFIX @ base32_encode (qr_bytes p)"

abbreviation truncated :: SecurityError where
  "truncated \<equiv> InvalidPairingPayload ''truncated''"

fun read_addresses :: "nat \<Rightarrow> u16 \<Rightarrow> Reader \<Rightarrow> SecurityError + SocketAddr list \<times> Reader" where
  "read_addresses 0 port r = Inr ([], r)"
| "read_addresses (Suc n) port r =
     and_then (reader_u8 truncated r) (\<lambda>(t, r1).
     and_then
       (if t = 4 then and_then (reader_take truncated 4 r1) (\<lambda>(bs, r2). Inr (V4 (v4_from_octets bs), r2))
        else if t = 6 then and_then (reader_take truncated 16 r1) (\<lambda>(bs, r2). Inr (V6 (v6_from_octets bs), r2))
        else Inl (InvalidPairingPayload ''address type'')) (\<lambda>(ip, r3).
     and_then (read_addresses n port r3) (\<lambda>(rest, r4). Inr (socket_addr ip port # rest, r4))))"

definition qr_parse :: "bytes \<Rightarrow> SecurityError + QrPairingPayload" where
  "qr_parse bs =
     and_then (reader_u8 truncated \<lparr>rd_buf = bs, rd_pos = 0\<rparr>) (\<lambda>(version, r1).
     if version \<noteq> CODE_VERSION then Inl (InvalidPairingPayload ''unsupported version'') else
     and_then (reader_take truncated 16 r1) (\<lambda>(device_id, r2).
     and_then (reader_take truncated 16 r2) (\<lambda>(secret, r3).
     and_then (reader_take truncated 2 r3) (\<lambda>(port_bytes, r4).
     and_then (reader_u8 truncated r4) (\<lambda>(count, r5).
     if count = 0 \<or> MAX_QR_ADDRESSES < unat count \<or> get_u16 port_bytes = 0
     then Inl (InvalidPairingPayload ''addresses'') else
     and_then (read_addresses (unat count) (get_u16 port_bytes) r5) (\<lambda>(addresses, r6).
     if rd_pos r6 \<noteq> length bs then Inl (InvalidPairingPayload ''trailing data'')
     else Inr \<lparr>qr_device_id = device_id, qr_addresses = addresses, qr_secret = secret,
               qr_expires_unix = 0\<rparr>))))))"

definition from_uri :: "bytes \<Rightarrow> SecurityError + QrPairingPayload" where
  "from_uri text0 =
     (let text = trim text0
      in if 256 < length text then Inl (InvalidPairingPayload ''too long'')
         else if \<not> prefix QR_PREFIX text then Inl (InvalidPairingPayload ''not a SoundPush pairing code'')
         else (case base32_decode (drop (length QR_PREFIX) text) of
                 None \<Rightarrow> Inl (InvalidPairingPayload ''encoding'')
               | Some bs \<Rightarrow> qr_parse bs))"

section \<open>Round trip\<close>

lemma read_addresses_bytes:
  assumes "unread r = concat (map ip_bytes ips) @ rest" "rd_pos r \<le> length (rd_buf r)"
  shows "\<exists>r'. read_addresses (length ips) port r = Inr (map (\<lambda>ip. socket_addr ip port) ips, r')
           \<and> unread r' = rest \<and> rd_buf r' = rd_buf r \<and> rd_pos r' \<le> length (rd_buf r')"
  using assms
proof (induction ips arbitrary: r)
  case (Cons ip ips)
  have pos: "rd_pos (advance k r) \<le> length (rd_buf (advance k r))" if "k \<le> length (unread r)" for k
    using that Cons.prems(2) by (auto simp: unread_def)
  show ?case
  proof (cases ip)
    case (V4 a)
    have u: "unread r = 4 # v4_octets a @ concat (map ip_bytes ips) @ rest"
      using Cons.prems by (simp add: V4)
    have "reader_u8 truncated r = Inr (4, advance 1 r)"
      using u Cons.prems(2) by (rule reader_u8_unread)
    moreover have "reader_take truncated 4 (advance 1 r) = Inr (v4_octets a, advance 4 (advance 1 r))"
      using u pos [of 1] by (intro reader_take_unread) simp_all
    moreover obtain r' where "read_addresses (length ips) port (advance 4 (advance 1 r)) =
        Inr (map (\<lambda>ip. socket_addr ip port) ips, r')" "unread r' = rest"
        "rd_buf r' = rd_buf r" "rd_pos r' \<le> length (rd_buf r')"
      using Cons.IH [of "advance 4 (advance 1 r)"] u pos [of 5] by auto
    ultimately show ?thesis by (simp add: V4)
  next
    case (V6 a)
    have u: "unread r = 6 # v6_octets a @ concat (map ip_bytes ips) @ rest"
      using Cons.prems by (simp add: V6)
    have "reader_u8 truncated r = Inr (6, advance 1 r)"
      using u Cons.prems(2) by (rule reader_u8_unread)
    moreover have "reader_take truncated 16 (advance 1 r) = Inr (v6_octets a, advance 16 (advance 1 r))"
      using u pos [of 1] by (intro reader_take_unread) simp_all
    moreover obtain r' where "read_addresses (length ips) port (advance 16 (advance 1 r)) =
        Inr (map (\<lambda>ip. socket_addr ip port) ips, r')" "unread r' = rest"
        "rd_buf r' = rd_buf r" "rd_pos r' \<le> length (rd_buf r')"
      using Cons.IH [of "advance 16 (advance 1 r)"] u pos [of 17] by auto
    ultimately show ?thesis by (simp add: V6)
  qed
qed auto

lemma length_qr_ips: "length (qr_ips p) \<le> 3"
  by (simp add: qr_ips_def MAX_QR_ADDRESSES_def)

lemma qr_ips_nonempty: "qr_addresses p \<noteq> [] \<Longrightarrow> qr_ips p \<noteq> []"
  by (cases "qr_addresses p") (auto simp: qr_ips_def MAX_QR_ADDRESSES_def first_port_def)

text \<open>What the other side reads: the addresses with the first one's port, at most three, without
  scope, and no expiry.\<close>

definition qr_visible :: "QrPairingPayload \<Rightarrow> QrPairingPayload" where
  "qr_visible p = p\<lparr>qr_addresses := map (\<lambda>ip. socket_addr ip (first_port (qr_addresses p))) (qr_ips p),
                   qr_expires_unix := 0\<rparr>"

lemma qr_parse_bytes:
  assumes "length (qr_device_id p) = 16" "length (qr_secret p) = 16"
    and "qr_addresses p \<noteq> []" "first_port (qr_addresses p) \<noteq> 0"
  shows "qr_parse (qr_bytes p) = Inr (qr_visible p)"
proof -
  let ?port = "first_port (qr_addresses p)" and ?n = "word_of_nat (length (qr_ips p)) :: u8"
  let ?ips = "concat (map ip_bytes (qr_ips p))"
  have n: "unat ?n = length (qr_ips p)"
    using length_qr_ips [of p] by (simp add: unat_of_nat)
  have n0: "?n \<noteq> 0" using n qr_ips_nonempty [OF assms(3)] by (metis length_0_conv unat_0)
  define r0 where "r0 = \<lparr>rd_buf = qr_bytes p, rd_pos = 0\<rparr>"
  have u0: "unread r0 = CODE_VERSION # qr_device_id p @ qr_secret p @ put_u16 ?port @ ?n # ?ips"
    "rd_pos r0 \<le> length (rd_buf r0)"
    by (simp_all add: r0_def unread_def qr_bytes_def)
  define r1 where "r1 = advance 1 r0"
  have s1: "reader_u8 truncated r0 = Inr (CODE_VERSION, r1)"
    "unread r1 = qr_device_id p @ qr_secret p @ put_u16 ?port @ ?n # ?ips" "rd_pos r1 \<le> length (rd_buf r1)"
    using reader_u8_unread [OF u0, of truncated] u0 by (simp_all add: r1_def) (simp add: r0_def qr_bytes_def)
  define r2 where "r2 = advance 16 r1"
  note s2 = reader_steps [OF s1(2,3) assms(1) [symmetric], folded r2_def]
  define r3 where "r3 = advance 16 r2"
  note s3 = reader_steps [OF s2(2,3) assms(2) [symmetric], folded r3_def]
  define r4 where "r4 = advance 2 r3"
  note s4 = reader_steps [OF s3(2,3) length_puts(1) [symmetric], folded r4_def]
  define r5 where "r5 = advance 1 r4"
  have s5: "reader_u8 truncated r4 = Inr (?n, r5)" "unread r5 = ?ips @ []" "rd_pos r5 \<le> length (rd_buf r5)"
    using reader_u8_unread [OF s4(2,3)] reader_steps(3) [of r4 "[?n]" ?ips 1] s4 by (simp_all add: r5_def)
  obtain r6 where s6: "read_addresses (length (qr_ips p)) ?port r5 =
      Inr (map (\<lambda>ip. socket_addr ip ?port) (qr_ips p), r6)" "unread r6 = []" "rd_buf r6 = rd_buf r5"
      "rd_pos r6 \<le> length (rd_buf r6)"
    using read_addresses_bytes [OF s5(2,3)] by blast
  have "rd_buf r5 = qr_bytes p"
    by (simp add: r5_def r4_def r3_def r2_def r1_def r0_def)
  then have "rd_pos r6 = length (qr_bytes p)" using s6 unread_end [of r6] by simp
  then show ?thesis unfolding qr_parse_def
    using n n0 assms(4) length_qr_ips [of p] s1(1) s2(1) [of truncated] s3(1) [of truncated] s4(1) [of truncated] s5(1) s6(1)
    by (simp add: r0_def [symmetric] MAX_QR_ADDRESSES_def qr_visible_def)
qed

lemma length_ip_bytes: "length (ip_bytes ip) \<le> 17"
  by (cases ip) auto

lemma length_qr_bytes:
  assumes "length (qr_device_id p) = 16" "length (qr_secret p) = 16"
  shows "length (qr_bytes p) \<le> 87"
proof -
  have "length (concat (map ip_bytes ips)) \<le> 17 * length ips" for ips
  proof (induction ips)
    case (Cons ip ips)
    then show ?case using length_ip_bytes [of ip] by simp
  qed simp
  from this [of "qr_ips p"] show ?thesis
    using length_qr_ips [of p] assms by (simp add: qr_bytes_def)
qed

lemma to_uri_printable: "c \<in> set (to_uri p) \<Longrightarrow> 32 < c \<and> c < 128"
proof -
  have "\<forall>c\<in>set QR_PREFIX. 32 < c \<and> c < 128" by code_simp
  then show "c \<in> set (to_uri p) \<Longrightarrow> 32 < c \<and> c < 128"
    using base32_encode_printable by (auto simp: to_uri_def)
qed

lemma qr_text_roundtrip:
  assumes "length (qr_device_id p) = 16" "length (qr_secret p) = 16"
    and "qr_addresses p \<noteq> []" "first_port (qr_addresses p) \<noteq> 0"
  shows "from_uri (to_uri p) = Inr (qr_visible p)" and "length (to_uri p) \<le> 256"
proof -
  have len: "length (to_uri p) \<le> 256"
    using length_qr_bytes [OF assms(1,2)]
    by (simp add: to_uri_def base32_encode_length QR_PREFIX_def ascii_def)
  moreover have "trim (to_uri p) = to_uri p" by (rule trim_printable) (rule to_uri_printable)
  moreover have "prefix QR_PREFIX (to_uri p)"
    "drop (length QR_PREFIX) (to_uri p) = base32_encode (qr_bytes p)" by (simp_all add: to_uri_def)
  ultimately show "from_uri (to_uri p) = Inr (qr_visible p)"
    using qr_parse_bytes [OF assms] by (simp add: from_uri_def base32_roundtrip)
  show "length (to_uri p) \<le> 256" by (rule len)
qed

text \<open>A pairing code shown on one device and scanned on another carries the same device identifier, the
  same secret and the first three addresses that share the first address's port. The text is at most
  256 bytes of printable ASCII, so trimming white space from a scan and the length limit never reject
  or change it.\<close>

theorem qr_code_roundtrip:
  assumes "length (qr_device_id p) = 16" "length (qr_secret p) = 16"
    and "qr_addresses p \<noteq> []" "first_port (qr_addresses p) \<noteq> 0"
  shows "from_uri (to_uri p) = Inr (qr_visible p) \<and> length (to_uri p) \<le> 256"
  using qr_text_roundtrip [OF assms] by simp

theorem qr_code_roundtrip_witness:
  "from_uri (to_uri \<lparr>qr_device_id = replicate 16 7, qr_addresses = [SocketV4 0xC0A80102 47650],
       qr_secret = replicate 16 9, qr_expires_unix = 5\<rparr>) =
   Inr \<lparr>qr_device_id = replicate 16 7, qr_addresses = [SocketV4 0xC0A80102 47650],
       qr_secret = replicate 16 9, qr_expires_unix = 0\<rparr>"
proof -
  let ?p = "\<lparr>qr_device_id = replicate 16 7, qr_addresses = [SocketV4 0xC0A80102 47650],
       qr_secret = replicate 16 9, qr_expires_unix = 5\<rparr>"
  have "from_uri (to_uri ?p) = Inr (qr_visible ?p)"
    by (rule qr_code_roundtrip [THEN conjunct1]) (simp_all add: first_port_def)
  then show ?thesis
    by (simp add: qr_visible_def qr_ips_def first_port_def MAX_QR_ADDRESSES_def sa_ip_def socket_addr_def)
qed

section \<open>Selected addresses\<close>

lemma select_addresses_set:
  assumes "a \<in> set (select_addresses addrs)"
  shows "a \<in> set addrs" "sa_port a = first_port addrs"
    and "dialable_v4 a \<or> dialable_v6 a \<or>
           (is_loopback a \<and> (\<forall>b\<in>set addrs. sa_port b = first_port addrs \<longrightarrow> \<not> dialable_v4 b \<and> \<not> dialable_v6 b))"
  using assms
  by (auto simp: select_addresses_def Let_def filter_empty_conv split: if_splits dest!: in_set_takeD)

lemma select_addresses_length: "length (select_addresses addrs) \<le> MAX_QR_ADDRESSES"
  by (simp add: select_addresses_def Let_def)

lemma remdups_adj_Nil: "remdups_adj xs = [] \<longleftrightarrow> xs = []"
  by (cases xs rule: remdups_adj.cases) auto

lemma select_addresses_nonempty:
  assumes "b \<in> set addrs" "sa_port b = first_port addrs" "dialable_v4 b \<or> dialable_v6 b"
  shows "select_addresses addrs \<noteq> []"
proof -
  have "filter dialable_v4 (filter (\<lambda>a. sa_port a = first_port addrs) addrs) @
        filter dialable_v6 (filter (\<lambda>a. sa_port a = first_port addrs) addrs) \<noteq> []"
    using assms by (auto simp: filter_empty_conv)
  then show ?thesis
    by (auto simp: select_addresses_def Let_def remdups_adj_Nil MAX_QR_ADDRESSES_def)
qed

text \<open>When the device has an address a phone can dial on its listening port, the code made for it is
  valid for 300 seconds and reads back as one to three addresses, each one of the given addresses,
  on that port, and dialable: never loopback, unspecified or link-local.\<close>

theorem qr_new_is_dialable:
  assumes "length device_id = 16" "length secret = 16" "now + 300 < 2 ^ 64"
    and "b \<in> set addrs" "sa_port b = first_port addrs" "dialable_v4 b \<or> dialable_v6 b"
    and "first_port addrs \<noteq> 0"
  shows "(\<exists>q. from_uri (to_uri (qr_new secret device_id addrs now)) = Inr q \<and>
           qr_device_id q = device_id \<and> qr_secret q = secret \<and>
           qr_addresses q \<noteq> [] \<and> length (qr_addresses q) \<le> 3 \<and>
           (\<forall>a\<in>set (qr_addresses q). sa_port a = first_port addrs \<and> sa_ip a \<in> sa_ip ` set addrs \<and>
              (dialable_v4 a \<or> dialable_v6 a))) \<and>
         (qr_is_expired (qr_new secret device_id addrs now) t \<longleftrightarrow> now + 300 < t)"
proof (intro conjI)
  let ?p = "qr_new secret device_id addrs now"
  have sel: "qr_addresses ?p = select_addresses addrs" by (simp add: qr_new_def)
  have ne: "select_addresses addrs \<noteq> []" using assms by (intro select_addresses_nonempty)
  have good: "dialable_v4 a \<or> dialable_v6 a" "sa_port a = first_port addrs" "a \<in> set addrs"
    if "a \<in> set (select_addresses addrs)" for a
    using select_addresses_set [OF that] assms(4-6) by auto
  have port: "first_port (select_addresses addrs) = first_port addrs"
    using ne good(2) by (cases "select_addresses addrs") (auto simp: first_port_def [of "_ # _"])
  have "from_uri (to_uri ?p) = Inr (qr_visible ?p)"
    using assms ne port by (intro qr_text_roundtrip(1)) (simp_all add: qr_new_def)
  moreover have "\<forall>a\<in>set (qr_addresses (qr_visible ?p)). sa_port a = first_port addrs \<and>
      sa_ip a \<in> sa_ip ` set addrs \<and> (dialable_v4 a \<or> dialable_v6 a)"
    using good(2,3) good(1) [unfolded dialable_v4_def dialable_v6_def]
    by (fastforce simp: qr_visible_def sel port qr_ips_def dialable_v4_def dialable_v6_def dest!: in_set_takeD)
  ultimately show "\<exists>q. from_uri (to_uri ?p) = Inr q \<and> qr_device_id q = device_id \<and> qr_secret q = secret \<and>
      qr_addresses q \<noteq> [] \<and> length (qr_addresses q) \<le> 3 \<and>
      (\<forall>a\<in>set (qr_addresses q). sa_port a = first_port addrs \<and> sa_ip a \<in> sa_ip ` set addrs \<and>
         (dialable_v4 a \<or> dialable_v6 a))"
    using length_qr_ips [of ?p] qr_ips_nonempty [of ?p] ne
    by (intro exI [of _ "qr_visible ?p"]) (auto simp: qr_visible_def sel, auto simp: qr_new_def)
  show "qr_is_expired ?p t \<longleftrightarrow> now + 300 < t"
    using assms(3) by (simp add: qr_is_expired_def qr_new_def QR_VALIDITY_SECS_def)
qed

theorem qr_new_is_dialable_witness:
  "\<exists>q. from_uri (to_uri (qr_new (replicate 16 1) (replicate 16 2)
            [SocketV4 0x7F000001 47650, SocketV4 0xC0A80102 47650] 1000)) = Inr q \<and>
        qr_addresses q \<noteq> [] \<and> (\<forall>a\<in>set (qr_addresses q). dialable_v4 a \<or> dialable_v6 a)"
proof -
  have "dialable_v4 (SocketV4 0xC0A80102 47650)"
    by (simp add: dialable_v4_def sa_ip_def v4_is_loopback_def v4_is_unspecified_def v4_is_link_local_def
        v4_octet_def)
  then show ?thesis
    using qr_new_is_dialable [THEN conjunct1, of "replicate 16 2" "replicate 16 1" 1000 "SocketV4 0xC0A80102 47650"
        "[SocketV4 0x7F000001 47650, SocketV4 0xC0A80102 47650]"]
    by (fastforce simp: first_port_def)
qed

section \<open>Proof of the secret and short authentication string\<close>

definition proof_message :: "Fingerprint \<Rightarrow> DeviceId \<Rightarrow> bytes" where
  "proof_message scanner displayer = PROOF_LABEL @ scanner @ displayer"

text \<open>\<open>hmac key message\<close> is HMAC-SHA256.\<close>

definition pairing_proof :: "(bytes \<Rightarrow> bytes \<Rightarrow> bytes) \<Rightarrow> bytes \<Rightarrow> Fingerprint \<Rightarrow> DeviceId \<Rightarrow> bytes" where
  "pairing_proof hmac secret scanner displayer = hmac secret (proof_message scanner displayer)"

definition verify_pairing_proof ::
  "(bytes \<Rightarrow> bytes \<Rightarrow> bytes) \<Rightarrow> bytes \<Rightarrow> Fingerprint \<Rightarrow> DeviceId \<Rightarrow> bytes \<Rightarrow> SecurityError + unit" where
  "verify_pairing_proof hmac secret scanner displayer prf =
     (if hmac secret (proof_message scanner displayer) = prf then Inr ()
      else Inl PairingProofMismatch)"

definition decimal6 :: "nat \<Rightarrow> bytes" where
  "decimal6 n = map (\<lambda>k. word_of_nat (48 + n div 10 ^ k mod 10)) [5, 4, 3, 2, 1, 0]"

definition sas_code :: "(bytes \<Rightarrow> bytes) \<Rightarrow> bytes \<Rightarrow> Fingerprint \<Rightarrow> Fingerprint \<Rightarrow> bytes" where
  "sas_code sha256 exporter_secret a b =
     (let (first, second) = (if a \<le> b then (a, b) else (b, a));
          digest = sha256 (exporter_secret @ first @ second);
          n = be_decode (take 8 digest)
      in decimal6 (n mod 1000000))"

text \<open>Both devices compute the same six decimal digits, whichever of them is first, from the session's
  exporter secret; and the proof a scanner makes is accepted for its own fingerprint and the displaying
  device, while the message it authenticates is different for every other pair of identities.\<close>

theorem pairing_codes_agree:
  assumes "length s = 32" "length s' = 32"
  shows "sas_code sha256 e a b = sas_code sha256 e b a \<and>
         length (sas_code sha256 e a b) = 6 \<and> (\<forall>c\<in>set (sas_code sha256 e a b). 48 \<le> c \<and> c \<le> 57) \<and>
         verify_pairing_proof hmac k s d (pairing_proof hmac k s d) = Inr () \<and>
         ((s, d) \<noteq> (s', d') \<longrightarrow> proof_message s d \<noteq> proof_message s' d')"
proof (intro conjI)
  show "sas_code sha256 e a b = sas_code sha256 e b a"
    by (auto simp: sas_code_def dest: antisym)
  have digit: "48 \<le> (word_of_nat (48 + m mod 10) :: u8) \<and> word_of_nat (48 + m mod 10) \<le> (57 :: u8)" for m
  proof -
    have "m mod 10 < 10" by simp
    then have "unat (word_of_nat (48 + m mod 10) :: u8) = 48 + m mod 10" "m mod 10 \<le> 9"
      by (intro unat_of_byte, linarith)+ linarith
    then show ?thesis by (simp only: word_le_nat_alt) simp
  qed
  have "48 \<le> c \<and> c \<le> 57" if "c \<in> set (decimal6 n)" for c n
    using that digit by (auto simp: decimal6_def)
  then show "\<forall>c\<in>set (sas_code sha256 e a b). 48 \<le> c \<and> c \<le> 57"
    by (simp add: sas_code_def Let_def split_beta)
  show "length (sas_code sha256 e a b) = 6"
    by (simp add: sas_code_def Let_def split_beta decimal6_def)
  show "verify_pairing_proof hmac k s d (pairing_proof hmac k s d) = Inr ()"
    by (simp add: verify_pairing_proof_def pairing_proof_def)
  show "(s, d) \<noteq> (s', d') \<longrightarrow> proof_message s d \<noteq> proof_message s' d'"
    using assms by (auto simp: proof_message_def)
qed

theorem pairing_codes_agree_witness:
  "length (sas_code id (replicate 8 3) (replicate 32 1) (replicate 32 2)) = 6 \<and>
   proof_message (replicate 32 1) [5] \<noteq> proof_message (replicate 32 2) [5]"
proof -
  have "(replicate 32 1, [5]) \<noteq> (replicate 32 2 :: bytes, [5 :: u8])" by simp
  then show ?thesis
    using pairing_codes_agree [OF length_replicate length_replicate, of id "replicate 8 3" "replicate 32 1"
      "replicate 32 2" "\<lambda>k m. m" "[]" 1 "[5]" 2 "[5]"]
    by blast
qed

end
