(* ===== verification/Permissions.thy ===== *)
theory Permissions
  imports Prelude
begin

text \<open>
  Per-device permissions (\<open>permissions.rs\<close>): a policy for each of four kinds of access, and the
  two-bits-each form sent in the \<open>PermissionChanged\<close> control message.
\<close>

unbundle bit_operations_syntax

datatype Policy = Allow | Ask | Deny

definition policy_to_bits :: "Policy \<Rightarrow> u32" where
  "policy_to_bits p = (case p of Allow \<Rightarrow> 0 | Ask \<Rightarrow> 1 | Deny \<Rightarrow> 2)"

definition policy_from_bits :: "u32 \<Rightarrow> Policy" where
  "policy_from_bits b = (if b AND 3 = 0 then Allow else if b AND 3 = 1 then Ask else Deny)"

datatype PermissionKind = ReceiveMyAudio | UseMyMicrophone | SendAudioToMe | ControlMe

record Permissions =
  receive_my_audio :: Policy
  use_my_microphone :: Policy
  send_audio_to_me :: Policy
  control_me :: Policy

definition permissions_default :: Permissions where
  "permissions_default =
     \<lparr>receive_my_audio = Allow, use_my_microphone = Ask, send_audio_to_me = Allow, control_me = Allow\<rparr>"

definition policy_of :: "Permissions \<Rightarrow> PermissionKind \<Rightarrow> Policy" where
  "policy_of p kind = (case kind of
       ReceiveMyAudio \<Rightarrow> receive_my_audio p
     | UseMyMicrophone \<Rightarrow> use_my_microphone p
     | SendAudioToMe \<Rightarrow> send_audio_to_me p
     | ControlMe \<Rightarrow> control_me p)"

definition set_policy :: "PermissionKind \<Rightarrow> Policy \<Rightarrow> Permissions \<Rightarrow> Permissions" where
  "set_policy kind policy p = (case kind of
       ReceiveMyAudio \<Rightarrow> p\<lparr>receive_my_audio := policy\<rparr>
     | UseMyMicrophone \<Rightarrow> p\<lparr>use_my_microphone := policy\<rparr>
     | SendAudioToMe \<Rightarrow> p\<lparr>send_audio_to_me := policy\<rparr>
     | ControlMe \<Rightarrow> p\<lparr>control_me := policy\<rparr>)"

definition permissions_to_bits :: "Permissions \<Rightarrow> u32" where
  "permissions_to_bits p =
     policy_to_bits (receive_my_audio p)
       OR push_bit 2 (policy_to_bits (use_my_microphone p))
       OR push_bit 4 (policy_to_bits (send_audio_to_me p))
       OR push_bit 6 (policy_to_bits (control_me p))"

definition permissions_from_bits :: "u32 \<Rightarrow> Permissions" where
  "permissions_from_bits b =
     \<lparr>receive_my_audio = policy_from_bits b,
      use_my_microphone = policy_from_bits (drop_bit 2 b),
      send_audio_to_me = policy_from_bits (drop_bit 4 b),
      control_me = policy_from_bits (drop_bit 6 b)\<rparr>"

lemma policy_of_set_policy [simp]:
  "policy_of (set_policy kind policy p) kind' = (if kind' = kind then policy else policy_of p kind')"
  by (cases kind; cases kind') (simp_all add: policy_of_def set_policy_def)

lemma policy_of_from_bits:
  "policy_of (permissions_from_bits b) kind =
     policy_from_bits (drop_bit (case kind of ReceiveMyAudio \<Rightarrow> 0 | UseMyMicrophone \<Rightarrow> 2
                                            | SendAudioToMe \<Rightarrow> 4 | ControlMe \<Rightarrow> 6) b)"
  by (cases kind) (simp_all add: policy_of_def permissions_from_bits_def)

lemma permissions_eqI: "(\<And>kind. policy_of p kind = policy_of q kind) \<Longrightarrow> p = (q :: Permissions)"
proof -
  assume eq: "\<And>kind. policy_of p kind = policy_of q kind"
  show ?thesis
    using eq [of ReceiveMyAudio] eq [of UseMyMicrophone] eq [of SendAudioToMe] eq [of ControlMe]
    by (cases p; cases q) (simp add: policy_of_def)
qed

lemma bits_roundtrip_table:
  "policy_of (permissions_from_bits (permissions_to_bits
     \<lparr>receive_my_audio = a, use_my_microphone = b, send_audio_to_me = c, control_me = d\<rparr>)) kind =
   policy_of \<lparr>receive_my_audio = a, use_my_microphone = b, send_audio_to_me = c, control_me = d\<rparr> kind"
  by (cases a; cases b; cases c; cases d; cases kind)
     (simp_all add: policy_of_def permissions_from_bits_def permissions_to_bits_def policy_to_bits_def
        policy_from_bits_def)

text \<open>The bits sent to a peer read back as the same permissions; setting the policy of one kind of access
  changes that kind and no other; and a pair of bits that stands for no policy is read as Deny, never as
  an access right.\<close>

theorem permission_bits_faithful:
  "permissions_from_bits (permissions_to_bits p) = p \<and>
   policy_of (permissions_from_bits (permissions_to_bits (set_policy kind policy p))) kind' =
     (if kind' = kind then policy else policy_of p kind') \<and>
   (policy_from_bits b = Allow \<longleftrightarrow> \<not> bit b 0 \<and> \<not> bit b 1)"
proof (intro conjI)
  have rt: "permissions_from_bits (permissions_to_bits p) = p" for p :: Permissions
    by (rule permissions_eqI) (cases p, simp add: bits_roundtrip_table)
  show "permissions_from_bits (permissions_to_bits p) = p" by (rule rt)
  show "policy_of (permissions_from_bits (permissions_to_bits (set_policy kind policy p))) kind' =
          (if kind' = kind then policy else policy_of p kind')"
    by (simp add: rt)
  have three: "(3 :: u32) = mask 2" by (simp add: mask_eq_exp_minus_1)
  have "b AND 3 = 0 \<longleftrightarrow> \<not> bit b 0 \<and> \<not> bit b 1"
  proof -
    have "bit (b AND 3) n \<longleftrightarrow> bit b n \<and> n < 2" for n
      unfolding three by (auto simp: bit_simps dest: bit_imp_le_length)
    then have "b AND 3 = 0 \<longleftrightarrow> (\<forall>n < 2. \<not> bit b n)"
      by (metis bit_0_eq bit_eqI bot_apply bot_bool_def)
    then show ?thesis by (auto simp: numeral_2_eq_2 less_Suc_eq)
  qed
  then show "policy_from_bits b = Allow \<longleftrightarrow> \<not> bit b 0 \<and> \<not> bit b 1"
    by (simp add: policy_from_bits_def)
qed

end
