(* ===== verification/Trust_Store.thy ===== *)
theory Trust_Store
  imports Pairing Permissions Rust_Maps
begin

text \<open>
  Data at rest (\<open>secretbox.rs\<close>), the store of paired devices and the local identity (\<open>trust.rs\<close>).
  The cipher and the JSON library are third-party code and are arguments (\<open>Crypto\<close>, \<open>Serde\<close>); the
  file system is a map from paths to contents. What the operating system decides, the random nonce
  and whether a step of a write fails, is an argument too (\<open>IoChoice\<close>), so every property holds for
  every failure.
\<close>

section \<open>Files\<close>

datatype Path = Path (path_stem: string) (path_ext: "string option")

definition with_extension :: "string \<Rightarrow> Path \<Rightarrow> Path" where
  "with_extension e p = Path (path_stem p) (Some e)"

type_synonym Files = "Path \<rightharpoonup> bytes"

text \<open>The steps of an atomic write, in order; the one that fails, with the bytes that reached the
  temporary file, is chosen by the system.\<close>

datatype WriteStep = CreateDir | CreateTmp | WriteAll | SyncAll | Restrict | Rename

record IoChoice =
  io_nonce :: bytes
  io_write_fails :: "WriteStep option"
  io_partial :: nat
  io_read_fails :: bool
  io_move_fails :: bool
  io_secret :: bytes

definition write_atomic :: "IoChoice \<Rightarrow> Path \<Rightarrow> bytes \<Rightarrow> Files \<Rightarrow> (SecurityError + unit) \<times> Files" where
  "write_atomic io path data files =
     (let tmp = with_extension ''tmp'' path
      in case io_write_fails io of
           Some CreateDir \<Rightarrow> (Inl SecIo, files)
         | Some CreateTmp \<Rightarrow> (Inl SecIo, files)
         | Some WriteAll \<Rightarrow> (Inl SecIo, files(tmp \<mapsto> take (io_partial io) data))
         | Some SyncAll \<Rightarrow> (Inl SecIo, files(tmp \<mapsto> data))
         | Some Restrict \<Rightarrow> (Inl SecIo, files(tmp \<mapsto> data))
         | Some Rename \<Rightarrow> (Inl SecIo, files(tmp \<mapsto> data))
         | None \<Rightarrow> (Inr (), (files(tmp := None))(path \<mapsto> data)))"

text \<open>\<open>fs::rename\<close> to another extension, its result ignored.\<close>

definition move_aside :: "IoChoice \<Rightarrow> string \<Rightarrow> Path \<Rightarrow> Files \<Rightarrow> Files" where
  "move_aside io e path files =
     (if io_move_fails io then files
      else (files(path := None))(with_extension e path := files path))"

lemma write_atomic_all_or_nothing:
  assumes "path_ext path \<noteq> Some ''tmp''"
  shows "write_atomic io path data files = (Inr (), files') \<Longrightarrow> files' path = Some data"
    and "write_atomic io path data files = (Inl e, files') \<Longrightarrow> files' path = files path"
proof -
  have "with_extension ''tmp'' path \<noteq> path" using assms by (cases path) (auto simp: with_extension_def)
  then show "write_atomic io path data files = (Inr (), files') \<Longrightarrow> files' path = Some data"
    and "write_atomic io path data files = (Inl e, files') \<Longrightarrow> files' path = files path"
    by (auto simp: write_atomic_def Let_def split: option.splits WriteStep.splits)
qed

section \<open>Sealed data\<close>

record Crypto =
  encrypt_in_place :: "bytes \<Rightarrow> bytes \<Rightarrow> bytes \<Rightarrow> bytes \<Rightarrow> bytes option"
  decrypt_in_place :: "bytes \<Rightarrow> bytes \<Rightarrow> bytes \<Rightarrow> bytes \<Rightarrow> bytes option"

text \<open>What the documentation of the cipher promises: it encrypts, and decrypting with the same key, nonce
  and associated data gives the plaintext back.\<close>

definition cipher_correct :: "Crypto \<Rightarrow> bool" where
  "cipher_correct c \<longleftrightarrow>
     (\<forall>k n ad p. \<exists>x. encrypt_in_place c k n ad p = Some x \<and> decrypt_in_place c k n ad x = Some p)"

definition MAGIC :: bytes where
  "MAGIC = ascii ''SPSB1''"

definition NONCE_LEN :: nat where
  "NONCE_LEN = 12"

definition seal :: "Crypto \<Rightarrow> bytes \<Rightarrow> bytes \<Rightarrow> bytes \<Rightarrow> bytes \<Rightarrow> bytes" where
  "seal c nonce key associated plaintext =
     MAGIC @ nonce @ (case encrypt_in_place c key nonce associated plaintext of
                        Some body \<Rightarrow> body | None \<Rightarrow> [])"

definition open_sealed :: "Crypto \<Rightarrow> bytes \<Rightarrow> bytes \<Rightarrow> bytes \<Rightarrow> SecurityError + bytes" where
  "open_sealed c key associated sealed =
     (if length sealed < length MAGIC + NONCE_LEN \<or> take (length MAGIC) sealed \<noteq> MAGIC
      then Inl Corrupted
      else (let rest = drop (length MAGIC) sealed
            in case decrypt_in_place c key (take NONCE_LEN rest) associated (drop NONCE_LEN rest) of
                 Some body \<Rightarrow> Inr body
               | None \<Rightarrow> Inl Corrupted))"

lemma open_seal:
  "cipher_correct c \<Longrightarrow> length nonce = NONCE_LEN \<Longrightarrow> open_sealed c k ad (seal c nonce k ad p) = Inr p"
proof -
  assume "cipher_correct c" and n: "length nonce = NONCE_LEN"
  then obtain x where "encrypt_in_place c k nonce ad p = Some x" "decrypt_in_place c k nonce ad x = Some p"
    unfolding cipher_correct_def by blast
  then show ?thesis using n by (simp add: seal_def open_sealed_def)
qed

section \<open>The trust store\<close>

record TrustedDevice =
  td_device_id :: DeviceId
  td_public_key :: PublicKey
  td_name :: bytes
  td_alias :: "bytes option"
  td_platform :: bytes
  td_permissions :: Permissions
  td_auto_connect :: bool
  td_blocked :: bool
  td_paired_at_unix :: nat
  td_last_seen_unix :: nat
  td_last_addresses :: "bytes list"

definition display_name :: "TrustedDevice \<Rightarrow> bytes" where
  "display_name d = (case td_alias d of Some a \<Rightarrow> a | None \<Rightarrow> td_name d)"

record TrustFile =
  tf_version :: nat
  tf_devices :: "(bytes, TrustedDevice) bmap"

record Serde =
  to_vec :: "TrustFile \<Rightarrow> bytes option"
  from_slice :: "bytes \<Rightarrow> TrustFile option"

definition serde_correct :: "Serde \<Rightarrow> bool" where
  "serde_correct s \<longleftrightarrow> (\<forall>f j. to_vec s f = Some j \<longrightarrow> from_slice s j = Some f)"

record TrustStore =
  ts_path :: Path
  ts_key :: bytes
  ts_devices :: "(bytes, TrustedDevice) bmap"
  ts_dirty :: bool

definition TRUST_AD :: bytes where
  "TRUST_AD = ascii ''soundpush-trust-v1''"

definition IDENTITY_AD :: bytes where
  "IDENTITY_AD = ascii ''soundpush-identity-v1''"

definition read_file :: "IoChoice \<Rightarrow> Path \<Rightarrow> Files \<Rightarrow> SecurityError + bytes option" where
  "read_file io path files = (if io_read_fails io then Inl SecIo else Inr (files path))"

definition trust_load ::
  "Crypto \<Rightarrow> Serde \<Rightarrow> IoChoice \<Rightarrow> Path \<Rightarrow> bytes \<Rightarrow> Files \<Rightarrow> (SecurityError + TrustStore \<times> bool) \<times> Files" where
  "trust_load c s io path key files =
     (let mk = (\<lambda>ds. \<lparr>ts_path = path, ts_key = key, ts_devices = ds, ts_dirty = False\<rparr>)
      in case read_file io path files of
           Inl e \<Rightarrow> (Inl e, files)
         | Inr None \<Rightarrow> (Inr (mk [], False), files)
         | Inr (Some bs) \<Rightarrow>
             (case and_then (open_sealed c key TRUST_AD bs) (\<lambda>plain.
                     case from_slice s plain of Some f \<Rightarrow> Inr f | None \<Rightarrow> Inl SecSerde) of
                Inr file \<Rightarrow> (Inr (mk (tf_devices file), False), files)
              | Inl _ \<Rightarrow> (Inr (mk [], True), move_aside io ''corrupt'' path files)))"

definition trust_get :: "TrustStore \<Rightarrow> DeviceId \<Rightarrow> TrustedDevice option" where
  "trust_get st did = map_of (ts_devices st) (device_id_to_hex did)"

definition authorize :: "(bytes \<Rightarrow> bytes) \<Rightarrow> TrustStore \<Rightarrow> PublicKey \<Rightarrow> TrustedDevice option" where
  "authorize sha256 st pk = (case trust_get st (device_id_of sha256 pk) of
       Some d \<Rightarrow> if \<not> td_blocked d \<and> td_public_key d = pk then Some d else None
     | None \<Rightarrow> None)"

definition trust_save ::
  "Crypto \<Rightarrow> Serde \<Rightarrow> IoChoice \<Rightarrow> TrustStore \<Rightarrow> Files \<Rightarrow> (SecurityError + unit) \<times> TrustStore \<times> Files" where
  "trust_save c s io st files =
     (case to_vec s \<lparr>tf_version = 1, tf_devices = ts_devices st\<rparr> of
        None \<Rightarrow> (Inl SecSerde, st, files)
      | Some plain \<Rightarrow>
          (case write_atomic io (ts_path st) (seal c (io_nonce io) (ts_key st) TRUST_AD plain) files of
             (Inl e, files') \<Rightarrow> (Inl e, st, files')
           | (Inr _, files') \<Rightarrow> (Inr (), st\<lparr>ts_dirty := False\<rparr>, files')))"

definition trust_upsert ::
  "Crypto \<Rightarrow> Serde \<Rightarrow> IoChoice \<Rightarrow> TrustedDevice \<Rightarrow> TrustStore \<Rightarrow> Files
     \<Rightarrow> (SecurityError + unit) \<times> TrustStore \<times> Files" where
  "trust_upsert c s io d st files =
     trust_save c s io
       (st\<lparr>ts_devices := bm_insert (device_id_to_hex (td_device_id d)) d (ts_devices st)\<rparr>) files"

definition trust_update ::
  "Crypto \<Rightarrow> Serde \<Rightarrow> IoChoice \<Rightarrow> DeviceId \<Rightarrow> (TrustedDevice \<Rightarrow> TrustedDevice) \<Rightarrow> TrustStore \<Rightarrow> Files
     \<Rightarrow> (SecurityError + bool) \<times> TrustStore \<times> Files" where
  "trust_update c s io did f st files =
     (case trust_get st did of
        None \<Rightarrow> (Inr False, st, files)
      | Some d \<Rightarrow>
          (case trust_save c s io
                  (st\<lparr>ts_devices := bm_insert (device_id_to_hex did) (f d) (ts_devices st)\<rparr>) files of
             (Inl e, st', files') \<Rightarrow> (Inl e, st', files')
           | (Inr _, st', files') \<Rightarrow> (Inr True, st', files')))"

definition trust_remove ::
  "Crypto \<Rightarrow> Serde \<Rightarrow> IoChoice \<Rightarrow> DeviceId \<Rightarrow> TrustStore \<Rightarrow> Files
     \<Rightarrow> (SecurityError + bool) \<times> TrustStore \<times> Files" where
  "trust_remove c s io did st files =
     (if trust_get st did \<noteq> None then
        (case trust_save c s io
                (st\<lparr>ts_devices := AList.delete (device_id_to_hex did) (ts_devices st)\<rparr>) files of
           (Inl e, st', files') \<Rightarrow> (Inl e, st', files')
         | (Inr _, st', files') \<Rightarrow> (Inr True, st', files'))
      else (Inr False, st, files))"

definition update_hints ::
  "DeviceId \<Rightarrow> (TrustedDevice \<Rightarrow> TrustedDevice) \<Rightarrow> TrustStore \<Rightarrow> bool \<times> TrustStore" where
  "update_hints did f st =
     (case trust_get st did of
        None \<Rightarrow> (False, st)
      | Some d \<Rightarrow>
          (let d' = (f d)\<lparr>td_public_key := td_public_key d, td_blocked := td_blocked d,
                          td_permissions := td_permissions d\<rparr>
           in (True, st\<lparr>ts_devices := bm_insert (device_id_to_hex did) d' (ts_devices st),
                        ts_dirty := True\<rparr>)))"

definition trust_flush ::
  "Crypto \<Rightarrow> Serde \<Rightarrow> IoChoice \<Rightarrow> TrustStore \<Rightarrow> Files \<Rightarrow> (SecurityError + unit) \<times> TrustStore \<times> Files" where
  "trust_flush c s io st files =
     (if ts_dirty st then trust_save c s io st files else (Inr (), st, files))"

section \<open>The local identity\<close>

text \<open>An identity is its 32 secret bytes.\<close>

type_synonym DeviceIdentity = bytes

definition create_identity ::
  "Crypto \<Rightarrow> IoChoice \<Rightarrow> Path \<Rightarrow> bytes \<Rightarrow> Files \<Rightarrow> (SecurityError + DeviceIdentity) \<times> Files" where
  "create_identity c io path key files =
     (case write_atomic io path (seal c (io_nonce io) key IDENTITY_AD (io_secret io)) files of
        (Inl e, files') \<Rightarrow> (Inl e, files')
      | (Inr _, files') \<Rightarrow> (Inr (io_secret io), files'))"

definition load_or_create_identity ::
  "Crypto \<Rightarrow> IoChoice \<Rightarrow> Path \<Rightarrow> bytes \<Rightarrow> Files \<Rightarrow> (SecurityError + DeviceIdentity \<times> bool) \<times> Files" where
  "load_or_create_identity c io path key files =
     (case read_file io path files of
        Inl e \<Rightarrow> (Inl e, files)
      | Inr None \<Rightarrow>
          (case create_identity c io path key files of
             (Inl e, files') \<Rightarrow> (Inl e, files')
           | (Inr i, files') \<Rightarrow> (Inr (i, False), files'))
      | Inr (Some bs) \<Rightarrow>
          (case and_then (open_sealed c key IDENTITY_AD bs)
                  (\<lambda>plain. if length plain = 32 then Inr plain else Inl Corrupted) of
             Inr secret \<Rightarrow> (Inr (secret, False), files)
           | Inl _ \<Rightarrow>
               (case create_identity c io path key (move_aside io ''bin.bad'' path files) of
                  (Inl e, files') \<Rightarrow> (Inl e, files')
                | (Inr i, files') \<Rightarrow> (Inr (i, True), files'))))"

definition store_wf :: "TrustStore \<Rightarrow> bool" where
  "store_wf st \<longleftrightarrow> bm_wf (ts_devices st)"

section \<open>Example values\<close>

text \<open>A store with one device, a cipher that leaves the text as it is and a serializer for one file: what
  the assumptions of the properties are checked on.\<close>

definition example_crypto :: Crypto where
  "example_crypto = \<lparr>encrypt_in_place = (\<lambda>_ _ _ p. Some p), decrypt_in_place = (\<lambda>_ _ _ x. Some x)\<rparr>"

definition example_device :: TrustedDevice where
  "example_device =
     \<lparr>td_device_id = replicate 16 1, td_public_key = replicate 32 1, td_name = [80], td_alias = None,
      td_platform = [], td_permissions = permissions_default, td_auto_connect = True, td_blocked = False,
      td_paired_at_unix = 0, td_last_seen_unix = 0, td_last_addresses = []\<rparr>"

definition example_file :: TrustFile where
  "example_file = \<lparr>tf_version = 1, tf_devices = [(device_id_to_hex (replicate 16 1), example_device)]\<rparr>"

definition example_serde :: Serde where
  "example_serde =
     \<lparr>to_vec = (\<lambda>f. if f = example_file then Some [1] else None),
      from_slice = (\<lambda>j. if j = [1] then Some example_file else None)\<rparr>"

definition example_store :: TrustStore where
  "example_store =
     \<lparr>ts_path = Path ''trust'' (Some ''bin''), ts_key = replicate 32 9, ts_devices = [], ts_dirty = False\<rparr>"

definition example_io :: IoChoice where
  "example_io =
     \<lparr>io_nonce = replicate 12 0, io_write_fails = None, io_partial = 0, io_read_fails = False,
      io_move_fails = False, io_secret = replicate 32 5\<rparr>"

lemma example_correct:
  "cipher_correct example_crypto" "serde_correct example_serde" "store_wf example_store"
  by (simp_all add: cipher_correct_def serde_correct_def example_crypto_def example_serde_def
      example_store_def store_wf_def split: if_splits)

lemma example_upsert:
  "\<exists>st files. trust_upsert example_crypto example_serde example_io example_device example_store Map.empty
      = (Inr (), st, files) \<and> ts_devices st = tf_devices example_file"
  by (simp add: trust_upsert_def trust_save_def example_serde_def example_file_def example_store_def
      example_io_def write_atomic_def example_device_def)

section \<open>Authorization\<close>

lemma trust_save_store:
  "trust_save c s io st files = (r, st', files') \<Longrightarrow>
     ts_devices st' = ts_devices st \<and> ts_path st' = ts_path st \<and> ts_key st' = ts_key st"
  by (auto simp: trust_save_def split: option.splits prod.splits sum.splits)

lemma trust_get_insert:
  assumes "store_wf st" "ts_devices st' = bm_insert (device_id_to_hex did) d (ts_devices st)"
  shows "trust_get st' e = (if e = did then Some d else trust_get st e)"
  using assms by (simp add: trust_get_def store_wf_def map_of_bm_insert device_id_to_hex_def)

lemma trust_get_delete:
  assumes "ts_devices st' = AList.delete (device_id_to_hex did) (ts_devices st)"
  shows "trust_get st' e = (if e = did then None else trust_get st e)"
  using assms by (simp add: trust_get_def delete_conv' device_id_to_hex_def)

lemma upsert_devices:
  "trust_upsert c s io d st files = (r, st', files') \<Longrightarrow>
     ts_devices st' = bm_insert (device_id_to_hex (td_device_id d)) d (ts_devices st)"
  by (drule trust_save_store [OF trans [OF trust_upsert_def [symmetric]]]) simp

lemma remove_devices:
  assumes "trust_remove c s io did st files = (r, st', files')"
  shows "trust_get st' e = (if e = did then None else trust_get st e)"
proof (cases "trust_get st did")
  case None
  then show ?thesis using assms by (auto simp: trust_remove_def)
next
  case (Some d)
  then have "ts_devices st' = AList.delete (device_id_to_hex did) (ts_devices st)"
    using assms by (auto simp: trust_remove_def split: prod.splits sum.splits dest!: trust_save_store)
  then show ?thesis by (rule trust_get_delete)
qed

text \<open>C19: Trust decisions take effect at once, whether or not the store could be written. After a device is
  stored, exactly its own key is authorized for its identifier, and only while it is not blocked; after a
  device is removed, no key with its identifier is authorized; every other key is authorized as before.\<close>

theorem trust_changes_authorize:
  assumes "store_wf st"
  shows "(trust_upsert c s io d st files = (r, st', files') \<longrightarrow>
           authorize sha256 st' pk =
             (if device_id_of sha256 pk = td_device_id d
              then (if \<not> td_blocked d \<and> td_public_key d = pk then Some d else None)
              else authorize sha256 st pk)) \<and>
         (trust_remove c s io did st files = (r2, st'', files'') \<longrightarrow>
           authorize sha256 st'' pk =
             (if device_id_of sha256 pk = did then None else authorize sha256 st pk))"
  using trust_get_insert [OF assms upsert_devices] remove_devices [of c s io did st files r2 st'']
  by (auto simp: authorize_def split: option.splits)

theorem trust_changes_authorize_witness:
  "\<exists>st files. trust_upsert example_crypto example_serde example_io example_device example_store Map.empty
      = (Inr (), st, files) \<and>
     authorize (\<lambda>k. k) st (replicate 32 1) = Some example_device \<and>
     authorize (\<lambda>k. k) st (replicate 32 2) = None"
proof -
  obtain st files where up: "trust_upsert example_crypto example_serde example_io example_device
      example_store Map.empty = (Inr (), st, files)"
    using example_upsert by blast
  show ?thesis
    using up trust_changes_authorize [THEN conjunct1, THEN mp, OF example_correct(3) up, of "\<lambda>k. k" "replicate 32 1"]
      trust_changes_authorize [THEN conjunct1, THEN mp, OF example_correct(3) up, of "\<lambda>k. k" "replicate 32 2"]
    by (simp add: fp_device_id_def of_public_key_def example_device_def authorize_def trust_get_def
        example_store_def)
qed

lemma hints_get:
  assumes "store_wf st" and "update_hints did f st = (ok, st')"
  shows "trust_get st' e =
           (if e = did then map_option (\<lambda>d. (f d)\<lparr>td_public_key := td_public_key d,
              td_blocked := td_blocked d, td_permissions := td_permissions d\<rparr>) (trust_get st did)
            else trust_get st e)"
    and "store_wf st'"
proof -
  have "ts_devices st' = (case trust_get st did of None \<Rightarrow> ts_devices st | Some d \<Rightarrow>
      bm_insert (device_id_to_hex did) ((f d)\<lparr>td_public_key := td_public_key d,
              td_blocked := td_blocked d, td_permissions := td_permissions d\<rparr>) (ts_devices st))"
    using assms(2) by (auto simp: update_hints_def split: option.splits)
  then show "trust_get st' e =
           (if e = did then map_option (\<lambda>d. (f d)\<lparr>td_public_key := td_public_key d,
              td_blocked := td_blocked d, td_permissions := td_permissions d\<rparr>) (trust_get st did)
            else trust_get st e)"
    and "store_wf st'"
    using assms(1) trust_get_insert [OF assms(1), of st' did]
    by (auto simp: store_wf_def bm_insert_wf trust_get_def split: option.splits)
qed

text \<open>Changing hint fields, whatever the change does to a device record, never changes which keys are
  authorized, nor the permissions, key or blocked state of any device.\<close>

theorem hints_keep_authority:
  assumes "store_wf st" and "update_hints did f st = (ok, st')"
  shows "map_option (\<lambda>d. (td_public_key d, td_blocked d, td_permissions d)) (authorize sha256 st' pk) =
         map_option (\<lambda>d. (td_public_key d, td_blocked d, td_permissions d)) (authorize sha256 st pk) \<and>
         map_option td_permissions (trust_get st' e) = map_option td_permissions (trust_get st e) \<and>
         store_wf st'"
proof (intro conjI)
  show "map_option (\<lambda>d. (td_public_key d, td_blocked d, td_permissions d)) (authorize sha256 st' pk) =
        map_option (\<lambda>d. (td_public_key d, td_blocked d, td_permissions d)) (authorize sha256 st pk)"
    unfolding authorize_def hints_get(1) [OF assms]
    by (cases "trust_get st (device_id_of sha256 pk)") auto
  show "map_option td_permissions (trust_get st' e) = map_option td_permissions (trust_get st e)"
    unfolding hints_get(1) [OF assms] by (cases "trust_get st e") auto
  show "store_wf st'" by (rule hints_get(2) [OF assms])
qed

theorem hints_keep_authority_witness:
  "\<exists>ok st'. update_hints (replicate 16 1) (\<lambda>d. d\<lparr>td_blocked := True\<rparr>)
       (example_store\<lparr>ts_devices := tf_devices example_file\<rparr>) = (ok, st') \<and> ok \<and>
     authorize (\<lambda>k. k) st' (replicate 32 1) \<noteq> None"
proof -
  let ?st = "example_store\<lparr>ts_devices := tf_devices example_file\<rparr>"
  obtain ok st' where h: "update_hints (replicate 16 1) (\<lambda>d. d\<lparr>td_blocked := True\<rparr>) ?st = (ok, st')"
    by fastforce
  have wf: "store_wf ?st" by (simp add: store_wf_def example_file_def)
  have "ok" using h by (auto simp: update_hints_def trust_get_def example_file_def)
  moreover have "authorize (\<lambda>k. k) ?st (replicate 32 1) \<noteq> None"
    by (simp add: authorize_def trust_get_def example_file_def fp_device_id_def of_public_key_def
        example_device_def)
  ultimately show ?thesis
    using h hints_keep_authority [THEN conjunct1, OF wf h, of "\<lambda>k. k" "replicate 32 1"] by auto
qed

section \<open>Durability\<close>

lemma save_then_load:
  assumes "cipher_correct c" "serde_correct s" "length (io_nonce io) = NONCE_LEN"
    and "path_ext (ts_path st) \<noteq> Some ''tmp''" "\<not> io_read_fails io'"
    and "trust_save c s io st files = (Inr u, st', files')"
  shows "trust_load c s io' (ts_path st) (ts_key st) files' = (Inr (st', False), files')"
proof -
  obtain plain where plain: "to_vec s \<lparr>tf_version = 1, tf_devices = ts_devices st\<rparr> = Some plain"
    and w: "write_atomic io (ts_path st) (seal c (io_nonce io) (ts_key st) TRUST_AD plain) files = (Inr (), files')"
    and st': "st' = st\<lparr>ts_dirty := False\<rparr>"
    using assms(6) by (auto simp: trust_save_def split: option.splits prod.splits sum.splits)
  have "files' (ts_path st) = Some (seal c (io_nonce io) (ts_key st) TRUST_AD plain)"
    by (rule write_atomic_all_or_nothing(1) [OF assms(4) w])
  moreover have "from_slice s plain = Some \<lparr>tf_version = 1, tf_devices = ts_devices st\<rparr>"
    using assms(2) plain by (simp add: serde_correct_def)
  ultimately show ?thesis
    using assms(5) open_seal [OF assms(1,3)] by (simp add: trust_load_def read_file_def st')
qed

lemma failed_save_keeps_file:
  assumes "path_ext (ts_path st) \<noteq> Some ''tmp''" "trust_save c s io st files = (Inl e, st', files')"
  shows "files' (ts_path st) = files (ts_path st)"
  using assms write_atomic_all_or_nothing(2) [OF assms(1)]
  by (auto simp: trust_save_def split: option.splits prod.splits sum.splits)

lemma load_depends_on_file:
  "files' path = files path \<Longrightarrow>
     fst (trust_load c s io path key files') = fst (trust_load c s io path key files)"
  by (auto simp: trust_load_def read_file_def Let_def split: option.splits sum.splits)

text \<open>C20: Every change to the trust store that reports success is durable, and every one that reports a
  failure leaves the file as it was, at whatever step the write failed: after a success, loading the
  file gives exactly the store in memory, not marked as recovered; after a failure, loading gives what
  it gave before.\<close>

theorem trust_changes_durable:
  assumes "cipher_correct c" "serde_correct s" "length (io_nonce io) = NONCE_LEN"
    and "path_ext (ts_path st) \<noteq> Some ''tmp''" "\<not> io_read_fails io'"
  shows "(trust_upsert c s io d st files = (r1, st1, files1) \<longrightarrow>
           (case r1 of
              Inr _ \<Rightarrow> trust_load c s io' (ts_path st) (ts_key st) files1 = (Inr (st1, False), files1)
            | Inl _ \<Rightarrow> fst (trust_load c s io' (ts_path st) (ts_key st) files1) =
                       fst (trust_load c s io' (ts_path st) (ts_key st) files))) \<and>
         (trust_update c s io did f st files = (r2, st2, files2) \<longrightarrow>
           (case r2 of
              Inr found \<Rightarrow> found \<longrightarrow>
                 trust_load c s io' (ts_path st) (ts_key st) files2 = (Inr (st2, False), files2)
            | Inl _ \<Rightarrow> fst (trust_load c s io' (ts_path st) (ts_key st) files2) =
                       fst (trust_load c s io' (ts_path st) (ts_key st) files))) \<and>
         (trust_remove c s io did st files = (r3, st3, files3) \<longrightarrow>
           (case r3 of
              Inr found \<Rightarrow> found \<longrightarrow>
                 trust_load c s io' (ts_path st) (ts_key st) files3 = (Inr (st3, False), files3)
            | Inl _ \<Rightarrow> fst (trust_load c s io' (ts_path st) (ts_key st) files3) =
                       fst (trust_load c s io' (ts_path st) (ts_key st) files)))"
proof (intro conjI impI)
  have saved: "trust_load c s io' (ts_path st) (ts_key st) fs = (Inr (st', False), fs)"
    if "trust_save c s io (st\<lparr>ts_devices := ds\<rparr>) files = (Inr u, st', fs)" for ds u st' fs
    using save_then_load [OF assms(1-3) _ assms(5) that] assms(4) by simp
  have failed: "fst (trust_load c s io' (ts_path st) (ts_key st) fs) =
                fst (trust_load c s io' (ts_path st) (ts_key st) files)"
    if "trust_save c s io (st\<lparr>ts_devices := ds\<rparr>) files = (Inl e, st', fs)" for ds e st' fs
    using failed_save_keeps_file [OF _ that] assms(4) by (intro load_depends_on_file) simp
  show "trust_upsert c s io d st files = (r1, st1, files1) \<Longrightarrow>
           (case r1 of
              Inr _ \<Rightarrow> trust_load c s io' (ts_path st) (ts_key st) files1 = (Inr (st1, False), files1)
            | Inl _ \<Rightarrow> fst (trust_load c s io' (ts_path st) (ts_key st) files1) =
                       fst (trust_load c s io' (ts_path st) (ts_key st) files))"
    by (auto simp: trust_upsert_def dest: saved failed split: sum.splits)
  show "trust_update c s io did f st files = (r2, st2, files2) \<Longrightarrow>
           (case r2 of
              Inr found \<Rightarrow> found \<longrightarrow>
                 trust_load c s io' (ts_path st) (ts_key st) files2 = (Inr (st2, False), files2)
            | Inl _ \<Rightarrow> fst (trust_load c s io' (ts_path st) (ts_key st) files2) =
                       fst (trust_load c s io' (ts_path st) (ts_key st) files))"
    by (auto simp: trust_update_def dest: saved failed split: option.splits prod.splits sum.splits)
  show "trust_remove c s io did st files = (r3, st3, files3) \<Longrightarrow>
           (case r3 of
              Inr found \<Rightarrow> found \<longrightarrow>
                 trust_load c s io' (ts_path st) (ts_key st) files3 = (Inr (st3, False), files3)
            | Inl _ \<Rightarrow> fst (trust_load c s io' (ts_path st) (ts_key st) files3) =
                       fst (trust_load c s io' (ts_path st) (ts_key st) files))"
    by (auto simp: trust_remove_def dest: saved failed split: if_splits prod.splits sum.splits)
qed

theorem trust_changes_durable_witness:
  "\<exists>st files. trust_upsert example_crypto example_serde example_io example_device example_store Map.empty
      = (Inr (), st, files) \<and>
     trust_load example_crypto example_serde example_io (Path ''trust'' (Some ''bin'')) (replicate 32 9) files
      = (Inr (st, False), files)"
proof -
  obtain st files where up: "trust_upsert example_crypto example_serde example_io example_device
      example_store Map.empty = (Inr (), st, files)"
    using example_upsert by blast
  have "trust_load example_crypto example_serde example_io (ts_path example_store) (ts_key example_store) files
      = (Inr (st, False), files)"
    using trust_changes_durable [THEN conjunct1, THEN mp, OF example_correct(1,2) _ _ _ up, of example_io]
    by (simp add: example_io_def NONCE_LEN_def example_store_def)
  then show ?thesis using up by (auto simp: example_store_def)
qed

section \<open>A stable identity\<close>

lemma create_then_load:
  assumes "cipher_correct c" "length (io_nonce io) = NONCE_LEN" "length (io_secret io) = 32"
    and "path_ext path \<noteq> Some ''tmp''" "\<not> io_read_fails io'"
    and "create_identity c io path key files = (Inr i, files')"
  shows "load_or_create_identity c io' path key files' = (Inr (i, False), files')"
proof -
  have w: "write_atomic io path (seal c (io_nonce io) key IDENTITY_AD (io_secret io)) files = (Inr (), files')"
    and i: "i = io_secret io"
    using assms(6) by (auto simp: create_identity_def split: prod.splits sum.splits)
  have "files' path = Some (seal c (io_nonce io) key IDENTITY_AD (io_secret io))"
    by (rule write_atomic_all_or_nothing(1) [OF assms(4) w])
  then show ?thesis
    using assms(3,5) open_seal [OF assms(1,2)] i by (simp add: load_or_create_identity_def read_file_def)
qed

text \<open>Once the identity has been loaded or created, every later start with the same key reads back the
  same identity, without reporting a reset, and leaves the file alone; a device never changes its
  identity by restarting.\<close>

theorem identity_is_stable:
  assumes "cipher_correct c" "length (io_nonce io) = NONCE_LEN" "length (io_secret io) = 32"
    and "path_ext path \<noteq> Some ''tmp''" "\<not> io_read_fails io'"
    and "load_or_create_identity c io path key files = (Inr (i, reset), files')"
  shows "load_or_create_identity c io' path key files' = (Inr (i, False), files') \<and>
         (reset \<longrightarrow> files path \<noteq> None)"
proof -
  note create = create_then_load [OF assms(1-5)]
  have rd: "read_file io path files = Inr (files path)"
    using assms(6) by (cases "io_read_fails io") (simp_all add: load_or_create_identity_def read_file_def)
  have "load_or_create_identity c io' path key files' = (Inr (i, False), files') \<and> (reset \<longrightarrow> files path \<noteq> None)"
  proof (cases "files path")
    case None
    then have "create_identity c io path key files = (Inr i, files')" "\<not> reset"
      using assms(6) rd by (auto simp: load_or_create_identity_def split: prod.splits sum.splits)
    then show ?thesis using create by simp
  next
    case (Some bs)
    let ?r = "and_then (open_sealed c key IDENTITY_AD bs)
                (\<lambda>plain. if length plain = 32 then Inr plain else Inl Corrupted)"
    show ?thesis
    proof (cases ?r)
      case (Inl e)
      then obtain fs where "create_identity c io path key fs = (Inr i, files')"
        using assms(6) rd Some by (auto simp: load_or_create_identity_def split: prod.splits sum.splits)
      then show ?thesis using create Some by simp
    next
      case (Inr secret)
      then have "i = secret" "files' = files"
        using assms(6) rd Some by (auto simp: load_or_create_identity_def)
      then show ?thesis using Inr Some assms(5) by (simp add: load_or_create_identity_def read_file_def)
    qed
  qed
  then show ?thesis .
qed

theorem identity_is_stable_witness:
  "\<exists>i files. load_or_create_identity example_crypto example_io (Path ''identity'' (Some ''bin'')) [] Map.empty
       = (Inr (i, False), files) \<and>
     load_or_create_identity example_crypto example_io (Path ''identity'' (Some ''bin'')) [] files
       = (Inr (i, False), files)"
proof -
  obtain files where l: "load_or_create_identity example_crypto example_io (Path ''identity'' (Some ''bin'')) []
      Map.empty = (Inr (replicate 32 5, False), files)"
    by (simp add: load_or_create_identity_def read_file_def create_identity_def write_atomic_def example_io_def)
  have "load_or_create_identity example_crypto example_io (Path ''identity'' (Some ''bin'')) [] files
      = (Inr (replicate 32 5, False), files)"
    by (rule identity_is_stable [THEN conjunct1, OF example_correct(1) _ _ _ _ l])
      (simp_all add: example_io_def NONCE_LEN_def)
  with l show ?thesis by blast
qed

end
