(* ===== verification/Settings.thy ===== *)
theory Settings
  imports Stream_Profiles Trust_Store
begin

text \<open>
  The persistent settings (\<open>settings.rs\<close>): every structure and enumeration of the schema, their defaults,
  \<open>Settings::sanitize\<close>, per-device profiles, the debug logging window and the placement of noise suppression.
  Floating point fields are compared and clamped only. Reading and writing the file is in \<open>Settings_Store\<close>.
\<close>

section \<open>Enumerations\<close>

datatype Theme = ThemeSystem | ThemeLight | ThemeDark
datatype SettingsVisibility = VisEveryone | VisTrustedOnly | VisHidden
datatype TransportPin = PinQuic | PinTcp | PinUsb | PinAuto
datatype LatencyMode = ModeLowLatency | ModeBalanced | ModeStable | ModeCustom
datatype QualityMode = QualityAuto | QualityOpus | QualityLossless
datatype AudioFocusMode = FocusPause | FocusDuck | FocusMix | FocusMixDuringCalls
datatype MicMode =
    MicDefault | VoiceCommunication | MicRaw | VoicePerformance | VoiceRecognition | Camcorder | MicPlain
datatype RedundancyMode = RedundancyAuto | RedundancyOn | RedundancyOff
datatype DenoiseAt = AtSender | AtReceiver
datatype UpdateChannel = ChannelBeta | ChannelStable

definition SETTINGS_VERSION :: nat where "SETTINGS_VERSION = 3"
definition MAX_RECEIVERS_LIMIT :: u32 where "MAX_RECEIVERS_LIMIT = 16"
definition DEFAULT_MAX_RECEIVERS :: u32 where "DEFAULT_MAX_RECEIVERS = 8"
definition MAX_DEVICE_PROFILES :: nat where "MAX_DEVICE_PROFILES = 64"
definition DEBUG_LOGGING_SECS :: nat where "DEBUG_LOGGING_SECS = 24 * 3600"
definition MIX_GAIN_RANGE_DB :: "f32 \<times> f32" where "MIX_GAIN_RANGE_DB = (FNum (- 30), FNum 10)"

section \<open>Sections of the file\<close>

record StreamSettings =
  ss_latency :: LatencyMode
  ss_custom_min_ms :: u32
  ss_custom_max_ms :: u32
  ss_quality :: QualityMode
  ss_opus_bitrate :: u32
  ss_redundancy :: RedundancyMode

definition stream_default :: StreamSettings where
  "stream_default = \<lparr>ss_latency = ModeBalanced, ss_custom_min_ms = 30, ss_custom_max_ms = 120,
     ss_quality = QualityAuto, ss_opus_bitrate = 128000, ss_redundancy = RedundancyAuto\<rparr>"

definition redundancy_always :: "StreamSettings \<Rightarrow> bool" where
  "redundancy_always s \<longleftrightarrow> ss_redundancy s = RedundancyOn"

definition redundancy_auto :: "StreamSettings \<Rightarrow> bool" where
  "redundancy_auto s \<longleftrightarrow> ss_redundancy s = RedundancyAuto"

definition latency_profile :: "StreamSettings \<Rightarrow> LatencyProfile" where
  "latency_profile s = (case ss_latency s of
       ModeLowLatency \<Rightarrow> LowLatency | ModeBalanced \<Rightarrow> Balanced | ModeStable \<Rightarrow> Stable
     | ModeCustom \<Rightarrow> CustomLatency (ss_custom_min_ms s) (ss_custom_max_ms s))"

definition stream_quality :: "StreamSettings \<Rightarrow> Quality" where
  "stream_quality s = (case ss_quality s of
       QualityAuto \<Rightarrow> QAuto | QualityOpus \<Rightarrow> QOpus (ss_opus_bitrate s) | QualityLossless \<Rightarrow> QLossless)"

record OutputSettings =
  out_device :: "bytes option"
  out_volume :: f32
  out_balance :: f32
  out_mono :: bool
  out_av_offset_ms :: int
  out_compatibility_output :: bool
  out_output_effects :: bool
  out_pause_on_headset_disconnect :: bool
  out_audio_focus :: AudioFocusMode

definition output_default :: OutputSettings where
  "output_default = \<lparr>out_device = None, out_volume = FNum 1, out_balance = FNum 0, out_mono = False,
     out_av_offset_ms = 0, out_compatibility_output = False, out_output_effects = False,
     out_pause_on_headset_disconnect = True, out_audio_focus = FocusPause\<rparr>"

record MicSettings =
  mic_device :: "bytes option"
  mic_gain_db :: f32
  mic_noise_suppression :: bool
  mic_noise_suppression_at :: DenoiseAt
  mic_mode :: MicMode
  mic_system_agc :: bool
  mic_system_noise_suppression :: bool
  mic_system_echo_cancellation :: bool
  mic_monitor :: bool
  mic_high_pass :: bool
  mic_echo_ducking :: bool

definition mic_default :: MicSettings where
  "mic_default = \<lparr>mic_device = None, mic_gain_db = FNum 0, mic_noise_suppression = False,
     mic_noise_suppression_at = AtSender, mic_mode = VoiceCommunication, mic_system_agc = False,
     mic_system_noise_suppression = True, mic_system_echo_cancellation = True, mic_monitor = False,
     mic_high_pass = True, mic_echo_ducking = False\<rparr>"

text \<open>Where noise suppression runs: (this device, the other device).\<close>

definition denoise_placement :: "MicSettings \<Rightarrow> bool \<Rightarrow> bool \<times> bool" where
  "denoise_placement m peer_can_denoise =
     (if \<not> mic_noise_suppression m then (False, False)
      else if mic_noise_suppression_at m = AtReceiver \<and> peer_can_denoise then (False, True)
      else (True, False))"

record MixedSettings =
  mix_system_gain_db :: f32
  mix_mic_gain_db :: f32

definition mixed_default :: MixedSettings where
  "mixed_default = \<lparr>mix_system_gain_db = FNum 0, mix_mic_gain_db = FNum 0\<rparr>"

record CaptureSettings =
  cap_system_device :: "bytes option"
  cap_mute_local_speakers :: bool
  cap_app :: "bytes option"
  cap_exclude_app :: bool

definition capture_default :: CaptureSettings where
  "capture_default = \<lparr>cap_system_device = None, cap_mute_local_speakers = False, cap_app = None,
     cap_exclude_app = False\<rparr>"

record DesktopSettings =
  dt_launch_at_login :: bool
  dt_start_minimized :: bool
  dt_close_to_tray :: bool
  dt_prevent_sleep_while_streaming :: bool
  dt_mute_hotkey :: "bytes option"
  dt_push_to_talk_hotkey :: "bytes option"
  dt_virtual_mic_device :: "bytes option"
  dt_auto_start_mic :: bool
  dt_last_mic_peer :: "bytes option"
  dt_keep_window_in_memory :: bool
  dt_default_devices_while_active :: bool

definition desktop_default :: DesktopSettings where
  "desktop_default = \<lparr>dt_launch_at_login = True, dt_start_minimized = True, dt_close_to_tray = True,
     dt_prevent_sleep_while_streaming = False, dt_mute_hotkey = None, dt_push_to_talk_hotkey = None,
     dt_virtual_mic_device = None, dt_auto_start_mic = False, dt_last_mic_peer = None,
     dt_keep_window_in_memory = False, dt_default_devices_while_active = False\<rparr>"

record AdvancedSettings =
  adv_continuous_capture :: bool
  adv_keep_audio_devices_open :: bool
  adv_realtime_audio_priority :: bool

definition advanced_default :: AdvancedSettings where
  "advanced_default = \<lparr>adv_continuous_capture = False, adv_keep_audio_devices_open = False,
     adv_realtime_audio_priority = True\<rparr>"

definition advanced_is_default :: "AdvancedSettings \<Rightarrow> bool" where
  "advanced_is_default a \<longleftrightarrow> a = advanced_default"

record MobileSettings =
  mob_stay_available :: bool
  mob_remind_after_restart :: bool

definition mobile_default :: MobileSettings where
  "mobile_default = \<lparr>mob_stay_available = False, mob_remind_after_restart = False\<rparr>"

record SavedRoute =
  sr_peer_id :: bytes
  sr_kind :: RouteKind
  sr_keep :: bool

definition saved_matches :: "SavedRoute \<Rightarrow> bytes \<Rightarrow> RouteKind \<Rightarrow> bool" where
  "saved_matches s peer_id kind \<longleftrightarrow> sr_peer_id s = peer_id \<and> sr_kind s = kind"

section \<open>Device profiles\<close>

record DeviceProfile =
  dp_latency :: "LatencyMode option"
  dp_custom_min_ms :: "u32 option"
  dp_custom_max_ms :: "u32 option"
  dp_quality :: "QualityMode option"
  dp_opus_bitrate :: "u32 option"
  dp_redundancy :: "RedundancyMode option"

definition device_profile_default :: DeviceProfile where
  "device_profile_default = \<lparr>dp_latency = None, dp_custom_min_ms = None, dp_custom_max_ms = None,
     dp_quality = None, dp_opus_bitrate = None, dp_redundancy = None\<rparr>"

definition device_profile_is_empty :: "DeviceProfile \<Rightarrow> bool" where
  "device_profile_is_empty p \<longleftrightarrow> p = device_profile_default"

definition or_base :: "'a \<Rightarrow> 'a option \<Rightarrow> 'a" where
  "or_base b o1 = (case o1 of Some v \<Rightarrow> v | None \<Rightarrow> b)"

lemma or_base_simps [simp]: "or_base b (Some v) = v" "or_base b None = b"
  by (simp_all add: or_base_def)

definition clamp_stream :: "StreamSettings \<Rightarrow> StreamSettings" where
  "clamp_stream s =
     (let lo = clamp (ss_custom_min_ms s) 5 500
      in s\<lparr>ss_custom_min_ms := lo, ss_custom_max_ms := clamp (ss_custom_max_ms s) lo 1000,
           ss_opus_bitrate := clamp (ss_opus_bitrate s) 6000 510000\<rparr>)"

definition profile_apply :: "DeviceProfile \<Rightarrow> StreamSettings \<Rightarrow> StreamSettings" where
  "profile_apply p base = clamp_stream
     \<lparr>ss_latency = or_base (ss_latency base) (dp_latency p),
      ss_custom_min_ms = or_base (ss_custom_min_ms base) (dp_custom_min_ms p),
      ss_custom_max_ms = or_base (ss_custom_max_ms base) (dp_custom_max_ms p),
      ss_quality = or_base (ss_quality base) (dp_quality p),
      ss_opus_bitrate = or_base (ss_opus_bitrate base) (dp_opus_bitrate p),
      ss_redundancy = or_base (ss_redundancy base) (dp_redundancy p)\<rparr>"

definition profile_sanitize :: "DeviceProfile \<Rightarrow> DeviceProfile" where
  "profile_sanitize p = p\<lparr>
     dp_opus_bitrate := map_option (\<lambda>b. clamp b 6000 510000) (dp_opus_bitrate p),
     dp_custom_min_ms := map_option (\<lambda>v. clamp v 5 500) (dp_custom_min_ms p),
     dp_custom_max_ms := map_option (\<lambda>v. clamp v 5 1000) (dp_custom_max_ms p)\<rparr>"

section \<open>The settings\<close>

record Settings =
  set_version :: nat
  set_device_name :: bytes
  set_theme :: Theme
  set_language :: bytes
  set_visibility :: SettingsVisibility
  set_stream :: StreamSettings
  set_output :: OutputSettings
  set_mic :: MicSettings
  set_capture :: CaptureSettings
  set_mixed :: MixedSettings
  set_desktop :: DesktopSettings
  set_mobile :: MobileSettings
  set_auto_connect_trusted :: bool
  set_transport :: TransportPin
  set_max_receivers :: u32
  set_resume_routes_on_start :: bool
  set_saved_routes :: "SavedRoute list"
  set_dismissed_tips :: "bytes list"
  set_audio_cues :: bool
  set_device_profiles :: "(bytes, DeviceProfile) bmap"
  set_check_for_updates :: bool
  set_update_channel :: UpdateChannel
  set_debug_logging :: bool
  set_debug_logging_until_unix :: nat
  set_advanced :: AdvancedSettings

definition settings_default :: Settings where
  "settings_default = \<lparr>set_version = SETTINGS_VERSION, set_device_name = [], set_theme = ThemeSystem,
     set_language = ascii ''system'', set_visibility = VisTrustedOnly, set_stream = stream_default,
     set_output = output_default, set_mic = mic_default, set_capture = capture_default,
     set_mixed = mixed_default, set_desktop = desktop_default, set_mobile = mobile_default,
     set_auto_connect_trusted = True, set_transport = PinAuto, set_max_receivers = DEFAULT_MAX_RECEIVERS,
     set_resume_routes_on_start = False, set_saved_routes = [], set_dismissed_tips = [],
     set_audio_cues = False, set_device_profiles = [], set_check_for_updates = True,
     set_update_channel = ChannelStable, set_debug_logging = False, set_debug_logging_until_unix = 0,
     set_advanced = advanced_default\<rparr>"

text \<open>\<open>f32::clamp\<close>: a value that is not a number stays so.\<close>

definition f64_clamp :: "f64 \<Rightarrow> f64 \<Rightarrow> f64 \<Rightarrow> f64" where
  "f64_clamp x lo hi = (if f64_less x lo then lo else if f64_less hi x then hi else x)"

definition device_key_ok :: "bytes \<Rightarrow> bool" where
  "device_key_ok k \<longleftrightarrow> length k = 32 \<and> list_all (\<lambda>c. hex_digit c \<noteq> None) k"

function pop_last_while :: "('k, 'v) bmap \<Rightarrow> ('k, 'v) bmap" where
  "pop_last_while t = (if MAX_DEVICE_PROFILES < length t then pop_last_while (butlast t) else t)"
  by pat_completeness auto
termination
  by (relation "measure length") auto

declare pop_last_while.simps [simp del]

definition clean_app :: "bytes option \<Rightarrow> bytes option" where
  "clean_app app = (case map_option (trim_take 260) app of
     Some a \<Rightarrow> if a = [] then None else Some a | None \<Rightarrow> None)"

definition sanitize :: "Settings \<Rightarrow> Settings" where
  "sanitize s =
     (let o1 = set_output s; m = set_mic s; x = set_mixed s; c = set_capture s
      in s\<lparr>
        set_device_name := trim_take 64 (set_device_name s),
        set_output := o1\<lparr>out_volume := f64_clamp (out_volume o1) (FNum 0) (FNum 2),
          out_balance := f64_clamp (out_balance o1) (FNum (- 1)) (FNum 1),
          out_av_offset_ms := clamp (out_av_offset_ms o1) (- 500) 500\<rparr>,
        set_mic := m\<lparr>mic_gain_db := f64_clamp (mic_gain_db m) (FNum 0) (FNum 20)\<rparr>,
        set_mixed := x\<lparr>
          mix_system_gain_db := f64_clamp (mix_system_gain_db x) (fst MIX_GAIN_RANGE_DB) (snd MIX_GAIN_RANGE_DB),
          mix_mic_gain_db := f64_clamp (mix_mic_gain_db x) (fst MIX_GAIN_RANGE_DB) (snd MIX_GAIN_RANGE_DB)\<rparr>,
        set_stream := clamp_stream (set_stream s),
        set_max_receivers := clamp (set_max_receivers s) 1 MAX_RECEIVERS_LIMIT,
        set_capture := c\<lparr>cap_app := clean_app (cap_app c)\<rparr>,
        set_dismissed_tips := take 256 (set_dismissed_tips s),
        set_saved_routes := take 32 (set_saved_routes s),
        set_device_profiles := pop_last_while
          (map (\<lambda>(k, p). (k, profile_sanitize p))
            (hm_retain (\<lambda>k p. device_key_ok k \<and> \<not> device_profile_is_empty p) (set_device_profiles s))),
        set_version := SETTINGS_VERSION\<rparr>)"

definition schedule_debug_logging :: "bool \<Rightarrow> nat \<Rightarrow> Settings \<Rightarrow> Settings" where
  "schedule_debug_logging was_on now_unix s =
     (let latest = sat_add64 now_unix DEBUG_LOGGING_SECS
      in s\<lparr>set_debug_logging_until_unix :=
        (if \<not> set_debug_logging s then 0
         else if \<not> was_on then latest
         else if set_debug_logging_until_unix s = 0 then latest
         else min (set_debug_logging_until_unix s) latest)\<rparr>)"

definition expire_debug_logging :: "nat \<Rightarrow> Settings \<Rightarrow> bool \<times> Settings" where
  "expire_debug_logging now_unix s =
     (if set_debug_logging s \<and> set_debug_logging_until_unix s \<le> now_unix
      then (True, s\<lparr>set_debug_logging := False, set_debug_logging_until_unix := 0\<rparr>)
      else (False, s))"

definition stream_for :: "Settings \<Rightarrow> bytes \<Rightarrow> StreamSettings" where
  "stream_for s peer_id = (case map_of (set_device_profiles s) peer_id of
       Some profile \<Rightarrow> profile_apply profile (set_stream s)
     | None \<Rightarrow> set_stream s)"

section \<open>Well-formed settings\<close>

definition f64_within :: "f64 \<Rightarrow> f64 \<Rightarrow> f64 \<Rightarrow> bool" where
  "f64_within x lo hi \<longleftrightarrow> \<not> f64_less x lo \<and> \<not> f64_less hi x"

definition stream_ok :: "StreamSettings \<Rightarrow> bool" where
  "stream_ok s \<longleftrightarrow> 5 \<le> ss_custom_min_ms s \<and> ss_custom_min_ms s \<le> 500 \<and>
     ss_custom_min_ms s \<le> ss_custom_max_ms s \<and> ss_custom_max_ms s \<le> 1000 \<and>
     6000 \<le> ss_opus_bitrate s \<and> ss_opus_bitrate s \<le> 510000"

definition option_within :: "u32 option \<Rightarrow> u32 \<Rightarrow> u32 \<Rightarrow> bool" where
  "option_within o1 lo hi \<longleftrightarrow> (case o1 of None \<Rightarrow> True | Some v \<Rightarrow> lo \<le> v \<and> v \<le> hi)"

definition device_profile_ok :: "DeviceProfile \<Rightarrow> bool" where
  "device_profile_ok p \<longleftrightarrow> \<not> device_profile_is_empty p \<and> option_within (dp_opus_bitrate p) 6000 510000 \<and>
     option_within (dp_custom_min_ms p) 5 500 \<and> option_within (dp_custom_max_ms p) 5 1000"

definition profiles_ok :: "(bytes, DeviceProfile) bmap \<Rightarrow> bool" where
  "profiles_ok t \<longleftrightarrow> bm_wf t \<and> length t \<le> MAX_DEVICE_PROFILES \<and>
     (\<forall>(k, p)\<in>set t. device_key_ok k \<and> device_profile_ok p)"

definition settings_ok :: "Settings \<Rightarrow> bool" where
  "settings_ok s \<longleftrightarrow>
     set_version s = SETTINGS_VERSION \<and> utf8_valid (set_device_name s) \<and> char_count (set_device_name s) \<le> 64 \<and>
     f64_within (out_volume (set_output s)) (FNum 0) (FNum 2) \<and>
     f64_within (out_balance (set_output s)) (FNum (- 1)) (FNum 1) \<and>
     - 500 \<le> out_av_offset_ms (set_output s) \<and> out_av_offset_ms (set_output s) \<le> 500 \<and>
     f64_within (mic_gain_db (set_mic s)) (FNum 0) (FNum 20) \<and>
     f64_within (mix_system_gain_db (set_mixed s)) (FNum (- 30)) (FNum 10) \<and>
     f64_within (mix_mic_gain_db (set_mixed s)) (FNum (- 30)) (FNum 10) \<and>
     stream_ok (set_stream s) \<and> 1 \<le> set_max_receivers s \<and> set_max_receivers s \<le> MAX_RECEIVERS_LIMIT \<and>
     (\<forall>a. cap_app (set_capture s) = Some a \<longrightarrow> a \<noteq> [] \<and> utf8_valid a \<and> char_count a \<le> 260) \<and>
     length (set_dismissed_tips s) \<le> 256 \<and> length (set_saved_routes s) \<le> 32 \<and>
     profiles_ok (set_device_profiles s)"

text \<open>What the code can rely on before it sanitizes: maps are ordered and strings are UTF-8.\<close>

definition settings_raw_ok :: "Settings \<Rightarrow> bool" where
  "settings_raw_ok s \<longleftrightarrow> bm_wf (set_device_profiles s) \<and> utf8_valid (set_device_name s) \<and>
     (\<forall>a. cap_app (set_capture s) = Some a \<longrightarrow> utf8_valid a)"

named_theorems range_simps

lemma f64_clamp_within [range_simps]: "\<not> f64_less hi lo \<Longrightarrow> f64_within (f64_clamp x lo hi) lo hi"
  by (auto simp: f64_within_def f64_clamp_def dest: f64_less_asym)

lemma f64_clamp_id [range_simps]: "f64_within x lo hi \<Longrightarrow> f64_clamp x lo hi = x"
  by (simp add: f64_within_def f64_clamp_def)

lemma clamp_stream_ok [range_simps]: "stream_ok (clamp_stream s)"
  using nested_clamp [where lo = "5::u32" and hi = 500 and hh = 1000 and x = "ss_custom_min_ms s" and y = "ss_custom_max_ms s"]
    clamp_bounds [of "5::u32" 500 "ss_custom_min_ms s"] clamp_bounds [of "6000::u32" 510000 "ss_opus_bitrate s"]
  by (simp add: stream_ok_def clamp_stream_def Let_def)

lemma clamp_stream_id [range_simps]: "stream_ok s \<Longrightarrow> clamp_stream s = s"
  by (cases s) (simp add: stream_ok_def clamp_stream_def Let_def)

lemma pop_last_while_take: "pop_last_while t = take MAX_DEVICE_PROFILES t"
proof (induction t rule: pop_last_while.induct)
  case (1 t)
  show ?case
  proof (cases "MAX_DEVICE_PROFILES < length t")
    case True
    then have "take MAX_DEVICE_PROFILES (butlast t) = take MAX_DEVICE_PROFILES t"
      by (simp add: butlast_conv_take)
    then show ?thesis using 1 True by (simp add: pop_last_while.simps [of t])
  qed (simp add: pop_last_while.simps [of t])
qed

lemma profile_sanitize_empty [simp]: "device_profile_is_empty (profile_sanitize p) \<longleftrightarrow> device_profile_is_empty p"
  by (cases p) (auto simp: profile_sanitize_def device_profile_is_empty_def device_profile_default_def)

lemma profile_sanitize_ok: "\<not> device_profile_is_empty p \<Longrightarrow> device_profile_ok (profile_sanitize p)"
  using clamp_bounds [of "5::u32" 500] clamp_bounds [of "5::u32" 1000] clamp_bounds [of "6000::u32" 510000]
  by (auto simp: device_profile_ok_def option_within_def split: option.splits)
    (auto simp: profile_sanitize_def)

lemma profile_sanitize_id: "device_profile_ok p \<Longrightarrow> profile_sanitize p = p"
  by (cases p) (auto simp: profile_sanitize_def device_profile_ok_def option_within_def split: option.splits)

definition sanitize_profiles :: "(bytes, DeviceProfile) bmap \<Rightarrow> (bytes, DeviceProfile) bmap" where
  "sanitize_profiles t = take MAX_DEVICE_PROFILES (map (\<lambda>(k, p). (k, profile_sanitize p))
     (hm_retain (\<lambda>k p. device_key_ok k \<and> \<not> device_profile_is_empty p) t))"

lemma sorted_wrt_filter_map:
  "bm_wf t \<Longrightarrow> bm_wf (map (\<lambda>(k, p). (k, f p)) (hm_retain keep t))"
  unfolding hm_retain_def by (induction t) (auto simp: sorted_wrt_map)

lemma sanitize_profiles_ok: "bm_wf t \<Longrightarrow> profiles_ok (sanitize_profiles t)"
  using sorted_wrt_take [of "(<)" "map fst (map (\<lambda>(k, p). (k, profile_sanitize p))
     (hm_retain (\<lambda>k p. device_key_ok k \<and> \<not> device_profile_is_empty p) t))" MAX_DEVICE_PROFILES]
    sorted_wrt_filter_map [of t profile_sanitize "\<lambda>k p. device_key_ok k \<and> \<not> device_profile_is_empty p"]
  by (auto simp: profiles_ok_def sanitize_profiles_def take_map hm_retain_def profile_sanitize_ok
      dest!: in_set_takeD)

lemma sanitize_profiles_id: "profiles_ok t \<Longrightarrow> sanitize_profiles t = t"
proof -
  assume ok: "profiles_ok t"
  then have "hm_retain (\<lambda>k p. device_key_ok k \<and> \<not> device_profile_is_empty p) t = t"
    by (intro retain_all) (auto simp: profiles_ok_def device_profile_ok_def)
  moreover have "map (\<lambda>(k, p). (k, profile_sanitize p)) t = t"
    using ok by (intro map_idI) (auto simp: profiles_ok_def profile_sanitize_id)
  ultimately show ?thesis using ok by (simp add: sanitize_profiles_def profiles_ok_def)
qed

lemma clean_app_ok:
  "\<forall>a. app = Some a \<longrightarrow> utf8_valid a \<Longrightarrow> clean_app app = Some a \<Longrightarrow>
     a \<noteq> [] \<and> utf8_valid a \<and> char_count a \<le> 260"
  using trim_take_bounds(1) [of 260] trim_take_bounds(2) [of _ 260]
  by (auto simp: clean_app_def split: option.splits if_splits)

lemma clean_app_settles:
  "\<forall>a. app = Some a \<longrightarrow> utf8_valid a \<Longrightarrow> clean_app (clean_app (clean_app app)) = clean_app (clean_app app)"
  using trim_take_twice [of _ 260] by (auto simp: clean_app_def split: option.splits if_splits)

lemma sanitize_fields:
  "set_version (sanitize s) = SETTINGS_VERSION"
  "set_device_name (sanitize s) = trim_take 64 (set_device_name s)"
  "out_volume (set_output (sanitize s)) = f64_clamp (out_volume (set_output s)) (FNum 0) (FNum 2)"
  "out_balance (set_output (sanitize s)) = f64_clamp (out_balance (set_output s)) (FNum (- 1)) (FNum 1)"
  "out_av_offset_ms (set_output (sanitize s)) = clamp (out_av_offset_ms (set_output s)) (- 500) 500"
  "mic_gain_db (set_mic (sanitize s)) = f64_clamp (mic_gain_db (set_mic s)) (FNum 0) (FNum 20)"
  "mix_system_gain_db (set_mixed (sanitize s)) = f64_clamp (mix_system_gain_db (set_mixed s)) (FNum (- 30)) (FNum 10)"
  "mix_mic_gain_db (set_mixed (sanitize s)) = f64_clamp (mix_mic_gain_db (set_mixed s)) (FNum (- 30)) (FNum 10)"
  "set_stream (sanitize s) = clamp_stream (set_stream s)"
  "set_max_receivers (sanitize s) = clamp (set_max_receivers s) 1 MAX_RECEIVERS_LIMIT"
  "cap_app (set_capture (sanitize s)) = clean_app (cap_app (set_capture s))"
  "set_dismissed_tips (sanitize s) = take 256 (set_dismissed_tips s)"
  "set_saved_routes (sanitize s) = take 32 (set_saved_routes s)"
  "set_device_profiles (sanitize s) = sanitize_profiles (set_device_profiles s)"
  by (simp_all add: sanitize_def Let_def MIX_GAIN_RANGE_DB_def pop_last_while_take sanitize_profiles_def)

lemma sanitize_ok:
  assumes "settings_raw_ok s" shows "settings_ok (sanitize s)"
proof -
  note raw = assms [unfolded settings_raw_ok_def]
  have app: "\<forall>a. clean_app (cap_app (set_capture s)) = Some a \<longrightarrow> a \<noteq> [] \<and> utf8_valid a \<and> char_count a \<le> 260"
    using raw clean_app_ok by blast
  have prof: "profiles_ok (sanitize_profiles (set_device_profiles s))"
    and name: "utf8_valid (trim_take 64 (set_device_name s))"
    using raw sanitize_profiles_ok trim_take_bounds(2) by blast+
  have recv: "1 \<le> clamp (set_max_receivers s) 1 MAX_RECEIVERS_LIMIT \<and>
      clamp (set_max_receivers s) 1 MAX_RECEIVERS_LIMIT \<le> MAX_RECEIVERS_LIMIT"
    by (rule clamp_bounds) (simp add: MAX_RECEIVERS_LIMIT_def)
  have av: "- 500 \<le> clamp (out_av_offset_ms (set_output s)) (- 500) 500 \<and>
      clamp (out_av_offset_ms (set_output s)) (- 500) 500 \<le> 500"
    by (rule clamp_bounds) simp
  show ?thesis
    unfolding settings_ok_def sanitize_fields
    by (intro conjI f64_clamp_within app prof name recv [THEN conjunct1] recv [THEN conjunct2]
        av [THEN conjunct1] av [THEN conjunct2] clamp_stream_ok trim_take_bounds(1)) simp_all
qed

text \<open>Only the two strings can change when settings in range are sanitized again.\<close>

lemma sanitize_settled:
  assumes "settings_ok s" "trim_take 64 (set_device_name s) = set_device_name s"
    "clean_app (cap_app (set_capture s)) = cap_app (set_capture s)"
  shows "sanitize s = s"
  using assms sanitize_profiles_id [of "set_device_profiles s"]
  by (simp add: settings_ok_def sanitize_def Let_def range_simps MIX_GAIN_RANGE_DB_def pop_last_while_take
      flip: sanitize_profiles_def)

lemma settings_ok_raw: "settings_ok s \<Longrightarrow> settings_raw_ok s"
  by (simp add: settings_ok_def settings_raw_ok_def profiles_ok_def)

lemma sanitize_converges:
  assumes "settings_raw_ok s" shows "sanitize (sanitize (sanitize s)) = sanitize (sanitize s)"
proof (rule sanitize_settled)
  show "settings_ok (sanitize (sanitize s))" using sanitize_ok settings_ok_raw assms by blast
qed (use assms trim_take_twice clean_app_settles in \<open>auto simp: sanitize_fields settings_raw_ok_def\<close>)

lemma profile_apply_ok: "stream_ok (profile_apply p base)"
  by (simp add: profile_apply_def clamp_stream_ok)

lemma stream_for_ok: "stream_ok (set_stream s) \<Longrightarrow> stream_ok (stream_for s peer)"
  by (auto simp: stream_for_def profile_apply_ok split: option.splits)

lemma settings_default_ok: "settings_ok settings_default"
  by (simp add: settings_ok_def settings_default_def stream_default_def output_default_def mic_default_def
      mixed_default_def capture_default_def f64_within_def stream_ok_def profiles_ok_def char_count_def
      MAX_RECEIVERS_LIMIT_def DEFAULT_MAX_RECEIVERS_def)

lemma debug_keeps_ok [simp]:
  "settings_ok (schedule_debug_logging was_on now s) = settings_ok s"
  "settings_ok (snd (expire_debug_logging now s)) = settings_ok s"
  by (auto simp: settings_ok_def schedule_debug_logging_def expire_debug_logging_def Let_def)

text \<open>C38: Settings are always in range after they were sanitized, whatever a file or a client sent: every
  number within its bounds, at most 32 saved routes and 64 device profiles with well-formed keys, strings cut
  at whole characters. Defaults are in range, the debug logging window keeps them so, and the effective stream
  settings for any device are in range too. Cutting a string can uncover white space, so a second pass may
  still trim; the result of two passes never changes again.\<close>

theorem settings_in_range:
  assumes "settings_raw_ok s"
  shows "settings_ok (sanitize s) \<and> settings_ok settings_default \<and>
    settings_ok (schedule_debug_logging was_on now (sanitize s)) \<and>
    settings_ok (snd (expire_debug_logging now (sanitize s))) \<and>
    stream_ok (stream_for (sanitize s) peer) \<and>
    sanitize (sanitize (sanitize s)) = sanitize (sanitize s)"
  using sanitize_ok [OF assms] sanitize_converges [OF assms] stream_for_ok [of "sanitize s" peer]
  by (simp add: settings_default_ok) (simp add: settings_ok_def)

theorem settings_in_range_witness:
  "settings_ok (sanitize (settings_default\<lparr>set_max_receivers := 99, set_device_name := [32, 65, 32],
     set_stream := stream_default\<lparr>ss_custom_min_ms := 900, ss_custom_max_ms := 7\<rparr>\<rparr>))"
proof -
  have "utf8_valid [32, 65, 32]" by (rule ascii_valid) auto
  then show ?thesis
    by (intro settings_in_range [THEN conjunct1])
      (simp add: settings_raw_ok_def settings_default_def capture_default_def)
qed

text \<open>Debug logging never outlasts a day: when it is on after a change of settings its end is at most 24
  hours away and, while it was already on, never later than it was; from that moment on it is switched off by
  the next check, and not before.\<close>

theorem debug_logging_bounded:
  assumes "now + DEBUG_LOGGING_SECS \<le> u64_max" "set_debug_logging s"
  shows "let t = set_debug_logging_until_unix (schedule_debug_logging was_on now s)
    in t \<le> now + DEBUG_LOGGING_SECS \<and> 0 < t \<and>
       (was_on \<and> 0 < set_debug_logging_until_unix s \<longrightarrow> t \<le> set_debug_logging_until_unix s) \<and>
       (\<not> was_on \<longrightarrow> t = now + DEBUG_LOGGING_SECS) \<and>
       (\<forall>later. set_debug_logging (snd (expire_debug_logging later (schedule_debug_logging was_on now s))) \<longleftrightarrow> later < t)"
  using assms
  by (auto simp: schedule_debug_logging_def expire_debug_logging_def Let_def sat_add64_def DEBUG_LOGGING_SECS_def)

theorem debug_logging_bounded_witness:
  "set_debug_logging_until_unix (schedule_debug_logging False 1000 (settings_default\<lparr>set_debug_logging := True\<rparr>)) = 87400"
  using debug_logging_bounded [of 1000 "settings_default\<lparr>set_debug_logging := True\<rparr>" False]
  by (simp add: Let_def DEBUG_LOGGING_SECS_def u64_max_def)

end
