(* ===== verification/Engine_Errors.thy ===== *)
theory Engine_Errors
  imports Control_Messages Pairing
begin

text \<open>
  The engine's errors (\<open>error.rs\<close>): the taxonomy, the stable support codes and message keys, severity,
  whether retrying helps, the fix a user interface offers, and the conversions from the errors of the
  layers below.
\<close>

datatype Severity = SevInfo | SevWarning | SevError

datatype FixAction =
    OpenMicPermissionSettings | InstallVirtualMic | OpenFirewallFix | SwitchToUsb | UpdatePeerApp
  | RetryConnection | PairAgain | OpenBatterySettings | ChooseAnotherDevice

datatype EngineError =
    ErrDeviceNotFound
  | ErrUnreachable
  | ErrNetworkBlocked
  | ErrFirewallBlocked
  | ErrNotPaired
  | ErrPairingRejected
  | ErrPairingExpired
  | ErrPairingRateLimited
  | ErrRevoked
  | ErrIncompatibleVersion
  | ErrPeerDenied
  | ErrMicPermissionDenied
  | ErrAudioDevice string
  | ErrLoopbackUnsupported
  | ErrVirtualMicMissing
  | ErrVirtualMicBusy
  | ErrRouteNotFound
  | ErrTooManyReceivers
  | ErrInvalidInput string
  | ErrStorage string
  | ErrStopped
  | ErrStarting
  | ErrCancelled
  | ErrInternal string

primrec error_code :: "EngineError \<Rightarrow> string" where
  "error_code ErrDeviceNotFound = ''SP-NET-002''"
| "error_code ErrUnreachable = ''SP-NET-001''"
| "error_code ErrNetworkBlocked = ''SP-NET-004''"
| "error_code ErrFirewallBlocked = ''SP-NET-003''"
| "error_code ErrNotPaired = ''SP-SEC-001''"
| "error_code ErrPairingRejected = ''SP-SEC-002''"
| "error_code ErrPairingExpired = ''SP-SEC-003''"
| "error_code ErrPairingRateLimited = ''SP-SEC-004''"
| "error_code ErrRevoked = ''SP-SEC-005''"
| "error_code ErrIncompatibleVersion = ''SP-CMP-001''"
| "error_code ErrPeerDenied = ''SP-PRM-001''"
| "error_code ErrMicPermissionDenied = ''SP-PRM-002''"
| "error_code (ErrAudioDevice _) = ''SP-AUD-001''"
| "error_code ErrLoopbackUnsupported = ''SP-AUD-002''"
| "error_code ErrVirtualMicMissing = ''SP-AUD-003''"
| "error_code ErrVirtualMicBusy = ''SP-AUD-004''"
| "error_code ErrRouteNotFound = ''SP-CFG-001''"
| "error_code ErrTooManyReceivers = ''SP-CFG-003''"
| "error_code (ErrInvalidInput _) = ''SP-CFG-002''"
| "error_code (ErrStorage _) = ''SP-SYS-001''"
| "error_code ErrStopped = ''SP-SYS-002''"
| "error_code ErrStarting = ''SP-SYS-003''"
| "error_code ErrCancelled = ''SP-SYS-004''"
| "error_code (ErrInternal _) = ''SP-SYS-005''"

primrec error_key :: "EngineError \<Rightarrow> string" where
  "error_key ErrDeviceNotFound = ''error.device.notFound''"
| "error_key ErrUnreachable = ''error.network.unreachable''"
| "error_key ErrNetworkBlocked = ''error.network.blocked''"
| "error_key ErrFirewallBlocked = ''error.network.firewall''"
| "error_key ErrNotPaired = ''error.security.notPaired''"
| "error_key ErrPairingRejected = ''error.security.pairingRejected''"
| "error_key ErrPairingExpired = ''error.security.pairingExpired''"
| "error_key ErrPairingRateLimited = ''error.security.pairingRateLimited''"
| "error_key ErrRevoked = ''error.security.revoked''"
| "error_key ErrIncompatibleVersion = ''error.compat.version''"
| "error_key ErrPeerDenied = ''error.permission.peerDenied''"
| "error_key ErrMicPermissionDenied = ''error.permission.mic''"
| "error_key (ErrAudioDevice _) = ''error.audio.device''"
| "error_key ErrLoopbackUnsupported = ''error.audio.loopbackUnsupported''"
| "error_key ErrVirtualMicMissing = ''error.audio.virtualMicMissing''"
| "error_key ErrVirtualMicBusy = ''error.audio.virtualMicBusy''"
| "error_key ErrRouteNotFound = ''error.route.notFound''"
| "error_key ErrTooManyReceivers = ''error.route.tooManyReceivers''"
| "error_key (ErrInvalidInput _) = ''error.input.invalid''"
| "error_key (ErrStorage _) = ''error.storage''"
| "error_key ErrStopped = ''error.engine.stopped''"
| "error_key ErrStarting = ''error.engine.starting''"
| "error_key ErrCancelled = ''error.cancelled''"
| "error_key (ErrInternal _) = ''error.internal''"

definition error_severity :: "EngineError \<Rightarrow> Severity" where
  "error_severity e = (case e of
       ErrDeviceNotFound \<Rightarrow> SevWarning | ErrRouteNotFound \<Rightarrow> SevWarning | ErrTooManyReceivers \<Rightarrow> SevWarning
     | ErrInvalidInput _ \<Rightarrow> SevWarning | ErrPairingRateLimited \<Rightarrow> SevWarning | ErrVirtualMicBusy \<Rightarrow> SevWarning
     | ErrCancelled \<Rightarrow> SevWarning | _ \<Rightarrow> SevError)"

definition error_retryable :: "EngineError \<Rightarrow> bool" where
  "error_retryable e = (case e of
       ErrUnreachable \<Rightarrow> True | ErrNetworkBlocked \<Rightarrow> True | ErrFirewallBlocked \<Rightarrow> True | ErrAudioDevice _ \<Rightarrow> True
     | _ \<Rightarrow> False)"

definition error_fix :: "EngineError \<Rightarrow> FixAction option" where
  "error_fix e = (case e of
       ErrUnreachable \<Rightarrow> Some RetryConnection
     | ErrNetworkBlocked \<Rightarrow> Some SwitchToUsb
     | ErrFirewallBlocked \<Rightarrow> Some OpenFirewallFix
     | ErrNotPaired \<Rightarrow> Some PairAgain | ErrRevoked \<Rightarrow> Some PairAgain | ErrPairingExpired \<Rightarrow> Some PairAgain
     | ErrIncompatibleVersion \<Rightarrow> Some UpdatePeerApp
     | ErrMicPermissionDenied \<Rightarrow> Some OpenMicPermissionSettings
     | ErrAudioDevice _ \<Rightarrow> Some ChooseAnotherDevice
     | ErrVirtualMicMissing \<Rightarrow> Some InstallVirtualMic
     | _ \<Rightarrow> None)"

section \<open>Conversions\<close>

datatype AudioError =
    AudioDeviceNotFound string | NoDefaultDevice | AudioDeviceBusy | FormatUnsupported string
  | AudioLoopbackUnsupported | AudioPermissionDenied | AudioLost | AudioBackendError string

primrec audio_error_text :: "AudioError \<Rightarrow> string" where
  "audio_error_text (AudioDeviceNotFound d) = ''audio device not found: '' @ d"
| "audio_error_text NoDefaultDevice = ''no default audio device''"
| "audio_error_text AudioDeviceBusy = ''audio device is busy or used exclusively by another app''"
| "audio_error_text (FormatUnsupported d) = ''unsupported audio format: '' @ d"
| "audio_error_text AudioLoopbackUnsupported = ''system audio capture is not supported on this platform''"
| "audio_error_text AudioPermissionDenied = ''microphone permission denied''"
| "audio_error_text AudioLost = ''audio device disconnected''"
| "audio_error_text (AudioBackendError d) = ''audio backend error: '' @ d"

definition from_audio_error :: "AudioError \<Rightarrow> EngineError" where
  "from_audio_error e =
     (if e = AudioPermissionDenied then ErrMicPermissionDenied
      else if e = AudioLoopbackUnsupported then ErrLoopbackUnsupported
      else ErrAudioDevice (audio_error_text e))"

text \<open>The text of the remaining errors is only shown; it is an argument.\<close>

definition from_security_error :: "(SecurityError \<Rightarrow> string) \<Rightarrow> SecurityError \<Rightarrow> EngineError" where
  "from_security_error to_string e =
     (if e = PairingExpired then ErrPairingExpired
      else if e = PairingProofMismatch then ErrPairingRejected
      else ErrStorage (to_string e))"

primrec stop_reason_code :: "StopReason \<Rightarrow> string" where
  "stop_reason_code StopUnspecified = ''SP-SES-000''"
| "stop_reason_code UserStopped = ''SP-SES-001''"
| "stop_reason_code PeerStopped = ''SP-SES-002''"
| "stop_reason_code PermissionDenied = ''SP-SES-003''"
| "stop_reason_code PermissionRevoked = ''SP-SES-004''"
| "stop_reason_code DeviceBusy = ''SP-SES-005''"
| "stop_reason_code AudioDeviceLost = ''SP-SES-006''"
| "stop_reason_code CallInterruption = ''SP-SES-007''"
| "stop_reason_code Superseded = ''SP-SES-008''"
| "stop_reason_code IncompatibleVersion = ''SP-SES-009''"
| "stop_reason_code NetworkLost = ''SP-SES-010''"
| "stop_reason_code UnsupportedEndpoint = ''SP-SES-011''"
| "stop_reason_code StopTimeout = ''SP-SES-012''"
| "stop_reason_code RateLimited = ''SP-SES-013''"
| "stop_reason_code VirtualMicBusy = ''SP-SES-014''"

text \<open>A support code identifies one kind of failure, whatever detail it carries; so does a message key.\<close>

primrec error_detail :: "EngineError \<Rightarrow> string" where
  "error_detail ErrDeviceNotFound = []"
| "error_detail ErrUnreachable = []"
| "error_detail ErrNetworkBlocked = []"
| "error_detail ErrFirewallBlocked = []"
| "error_detail ErrNotPaired = []"
| "error_detail ErrPairingRejected = []"
| "error_detail ErrPairingExpired = []"
| "error_detail ErrPairingRateLimited = []"
| "error_detail ErrRevoked = []"
| "error_detail ErrIncompatibleVersion = []"
| "error_detail ErrPeerDenied = []"
| "error_detail ErrMicPermissionDenied = []"
| "error_detail (ErrAudioDevice d) = d"
| "error_detail ErrLoopbackUnsupported = []"
| "error_detail ErrVirtualMicMissing = []"
| "error_detail ErrVirtualMicBusy = []"
| "error_detail ErrRouteNotFound = []"
| "error_detail ErrTooManyReceivers = []"
| "error_detail (ErrInvalidInput d) = d"
| "error_detail (ErrStorage d) = d"
| "error_detail ErrStopped = []"
| "error_detail ErrStarting = []"
| "error_detail ErrCancelled = []"
| "error_detail (ErrInternal d) = d"

definition all_errors :: "string \<Rightarrow> EngineError list" where
  "all_errors d = [ErrDeviceNotFound, ErrUnreachable, ErrNetworkBlocked, ErrFirewallBlocked, ErrNotPaired, ErrPairingRejected, ErrPairingExpired, ErrPairingRateLimited, ErrRevoked, ErrIncompatibleVersion, ErrPeerDenied, ErrMicPermissionDenied, ErrAudioDevice d, ErrLoopbackUnsupported, ErrVirtualMicMissing, ErrVirtualMicBusy, ErrRouteNotFound, ErrTooManyReceivers, ErrInvalidInput d, ErrStorage d, ErrStopped, ErrStarting, ErrCancelled, ErrInternal d]"

lemma all_errors_complete: "e \<in> set (all_errors (error_detail e))"
  by (cases e) (simp_all add: all_errors_def)

lemma codes_distinct: "distinct (map error_code (all_errors d))" "distinct (map error_key (all_errors d))"
  by (simp_all add: all_errors_def)

lemma map_codes_const: "map error_code (all_errors d) = map error_code (all_errors d')"
  by (simp add: all_errors_def)

end
