(* ===== verification/Settings_Store.thy ===== *)
theory Settings_Store
  imports Settings Engine_Errors
begin

text \<open>
  Reading and writing the settings file (\<open>SettingsStore\<close>, \<open>migrate\<close>). The JSON library is third-party code:
  parsing bytes, turning a document into settings and printing settings are the arguments \<open>SettingsSerde\<close>; the
  document itself is a value of \<open>Value\<close>, an object being a list of its entries.
\<close>

section \<open>Documents\<close>

datatype Value =
    JNull | JBool bool | JU64 nat | JNumber f64 | JString bytes | JArray "Value list"
  | JObject "(bytes \<times> Value) list"

fun is_object :: "Value \<Rightarrow> bool" where
  "is_object (JObject _) = True"
| "is_object _ = False"

fun as_u64 :: "Value \<Rightarrow> nat option" where
  "as_u64 (JU64 n) = Some n"
| "as_u64 _ = None"

fun value_get :: "Value \<Rightarrow> bytes \<Rightarrow> Value option" where
  "value_get (JObject m) k = map_of m k"
| "value_get _ k = None"

fun obj_insert :: "bytes \<Rightarrow> Value \<Rightarrow> Value \<Rightarrow> Value" where
  "obj_insert k v (JObject m) = JObject (AList.update k v m)"
| "obj_insert k v d = d"

text \<open>A change of the value at a key in place, as through \<open>get_mut\<close>.\<close>

fun obj_modify :: "bytes \<Rightarrow> (Value \<Rightarrow> Value) \<Rightarrow> Value \<Rightarrow> Value" where
  "obj_modify k f (JObject m) =
     (case map_of m k of Some v \<Rightarrow> JObject (AList.update k (f v) m) | None \<Rightarrow> JObject m)"
| "obj_modify k f d = d"

section \<open>Migration\<close>

fun keep_default :: "Value \<Rightarrow> Value" where
  "keep_default (JObject m) =
     (if map_of m (ascii ''keep'') = None then JObject (AList.update (ascii ''keep'') (JBool True) m) else JObject m)"
| "keep_default v = v"

fun keep_defaults :: "Value \<Rightarrow> Value" where
  "keep_defaults (JArray routes) = JArray (map keep_default routes)"
| "keep_defaults v = v"

fun redundancy_bool_to_mode :: "Value \<Rightarrow> Value" where
  "redundancy_bool_to_mode (JObject m) =
     (case map_of m (ascii ''redundancy'') of
        Some (JBool on) \<Rightarrow>
          JObject (AList.update (ascii ''redundancy'') (JString (ascii (if on then ''on'' else ''auto''))) m)
      | _ \<Rightarrow> JObject m)"
| "redundancy_bool_to_mode v = v"

fun redundancy_in_profiles :: "Value \<Rightarrow> Value" where
  "redundancy_in_profiles (JObject m) = JObject (map (\<lambda>(k, v). (k, redundancy_bool_to_mode v)) m)"
| "redundancy_in_profiles v = v"

definition migrate_step :: "nat \<Rightarrow> Value \<Rightarrow> Value" where
  "migrate_step version doc =
     (if version = 1 then obj_modify (ascii ''savedRoutes'') keep_defaults doc
      else if version = 2 then
        obj_modify (ascii ''deviceProfiles'') redundancy_in_profiles
          (obj_modify (ascii ''stream'') redundancy_bool_to_mode doc)
      else doc)"

function migrate_from :: "nat \<Rightarrow> Value \<Rightarrow> nat \<times> Value" where
  "migrate_from version doc =
     (if version < SETTINGS_VERSION then migrate_from (version + 1) (migrate_step version doc) else (version, doc))"
  by pat_completeness auto
termination
  by (relation "measure (\<lambda>(v, d). SETTINGS_VERSION - v)") auto

declare migrate_from.simps [simp del]

definition migrate :: "Value \<Rightarrow> nat \<Rightarrow> bool \<times> Value" where
  "migrate doc from =
     (let version = max from 1
      in if SETTINGS_VERSION \<le> version then (False, doc)
         else (let (version, doc) = migrate_from version doc
               in (True, obj_insert (ascii ''version'') (JU64 version) doc)))"

section \<open>The store\<close>

record SettingsSerde =
  value_from_slice :: "bytes \<Rightarrow> Value option"
  settings_from_value :: "Value \<Rightarrow> Settings option"
  settings_to_vec :: "Settings \<Rightarrow> bytes option"

definition SETTINGS_PATH :: Path where
  "SETTINGS_PATH = Path ''settings'' (Some ''json'')"

definition settings_save :: "SettingsSerde \<Rightarrow> IoChoice \<Rightarrow> Settings \<Rightarrow> Files \<Rightarrow> (EngineError + unit) \<times> Files" where
  "settings_save j io s files =
     (case settings_to_vec j s of
        None \<Rightarrow> (Inl (ErrStorage ''json''), files)
      | Some json \<Rightarrow>
          (case write_atomic io SETTINGS_PATH json files of
             (Inl e, files') \<Rightarrow> (Inl (ErrStorage ''io''), files')
           | (Inr _, files') \<Rightarrow> (Inr (), files')))"

definition settings_recover :: "IoChoice \<Rightarrow> Files \<Rightarrow> (Settings \<times> bool) \<times> Files" where
  "settings_recover io files = ((settings_default, True), move_aside io ''json.bad'' SETTINGS_PATH files)"

definition doc_version :: "Value \<Rightarrow> nat" where
  "doc_version doc =
     (case Option.bind (value_get doc (ascii ''version'')) as_u64 of
        Some v \<Rightarrow> if v \<le> u32_max then v else u32_max
      | None \<Rightarrow> 1)"

definition settings_load :: "SettingsSerde \<Rightarrow> IoChoice \<Rightarrow> Files \<Rightarrow> (Settings \<times> bool) \<times> Files" where
  "settings_load j io files =
     (case read_file io SETTINGS_PATH files of
        Inl _ \<Rightarrow> ((settings_default, False), files)
      | Inr None \<Rightarrow> ((settings_default, False), files)
      | Inr (Some bs) \<Rightarrow>
          (case value_from_slice j bs of
             None \<Rightarrow> settings_recover io files
           | Some doc \<Rightarrow>
               if \<not> is_object doc then settings_recover io files
               else (let (migrated, doc') = migrate doc (doc_version doc)
                     in case settings_from_value j doc' of
                          None \<Rightarrow> settings_recover io files
                        | Some s \<Rightarrow>
                            (let s' = sanitize s
                             in ((s', False), if migrated then snd (settings_save j io s' files) else files)))))"

section \<open>What migration does\<close>

lemma key_simps [simp]:
  "ascii ''savedRoutes'' \<noteq> ascii ''stream''" "ascii ''savedRoutes'' \<noteq> ascii ''deviceProfiles''"
  "ascii ''savedRoutes'' \<noteq> ascii ''version''" "ascii ''stream'' \<noteq> ascii ''deviceProfiles''"
  "ascii ''stream'' \<noteq> ascii ''version''" "ascii ''deviceProfiles'' \<noteq> ascii ''version''"
  "ascii ''stream'' \<noteq> ascii ''savedRoutes''" "ascii ''deviceProfiles'' \<noteq> ascii ''savedRoutes''"
  "ascii ''version'' \<noteq> ascii ''savedRoutes''" "ascii ''deviceProfiles'' \<noteq> ascii ''stream''"
  "ascii ''version'' \<noteq> ascii ''stream''" "ascii ''version'' \<noteq> ascii ''deviceProfiles''"
  by (simp_all add: ascii_def)

lemma obj_modify_get:
  "is_object doc \<Longrightarrow> value_get (obj_modify k f doc) k' =
     (if k' = k then map_option f (value_get doc k) else value_get doc k')"
  by (cases doc) (auto simp: update_conv' split: option.splits)

lemma obj_insert_get:
  "is_object doc \<Longrightarrow> value_get (obj_insert k v doc) k' = (if k' = k then Some v else value_get doc k')"
  by (cases doc) (auto simp: update_conv')

lemma obj_kind [simp]: "is_object (obj_modify k f doc) = is_object doc" "is_object (obj_insert k v doc) = is_object doc"
  by (cases doc; simp split: option.splits)+

lemma migrate_from_unfold:
  "migrate_from 1 doc = (3, migrate_step 2 (migrate_step 1 doc))" "migrate_from 2 doc = (3, migrate_step 2 doc)"
  by (simp_all add: migrate_from.simps SETTINGS_VERSION_def numeral_eq_Suc)

lemma migrate_old:
  "max from 1 = v \<Longrightarrow> v < SETTINGS_VERSION \<Longrightarrow> migrate doc from =
     (True, obj_insert (ascii ''version'') (JU64 (fst (migrate_from v doc))) (snd (migrate_from v doc)))"
  by (simp add: migrate_def Let_def split_beta)

lemma one_old: "1 < SETTINGS_VERSION" and two_old: "2 < SETTINGS_VERSION"
  by (simp_all add: SETTINGS_VERSION_def)

text \<open>
  What the changes are, said of the entries a reader finds and not of how they are written: a saved route gets
  the \<open>keep\<close> entry it lacks, a holder of the \<open>redundancy\<close> switch gets its mode.
\<close>

definition keep_chosen :: "Value \<Rightarrow> Value \<Rightarrow> bool" where
  "keep_chosen r r' \<longleftrightarrow>
     (if is_object r
      then is_object r' \<and> value_get r' (ascii ''keep'') \<noteq> None \<and>
           (value_get r (ascii ''keep'') = None \<longrightarrow> value_get r' (ascii ''keep'') = Some (JBool True)) \<and>
           (\<forall>k v. value_get r k = Some v \<longrightarrow> value_get r' k = Some v) \<and>
           (\<forall>k. k \<noteq> ascii ''keep'' \<longrightarrow> value_get r' k = value_get r k)
      else r' = r)"

definition mode_chosen :: "Value \<Rightarrow> Value \<Rightarrow> bool" where
  "mode_chosen v v' \<longleftrightarrow>
     (if is_object v
      then is_object v' \<and>
           (value_get v (ascii ''redundancy'') = Some (JBool True) \<longrightarrow>
              value_get v' (ascii ''redundancy'') = Some (JString (ascii ''on''))) \<and>
           (value_get v (ascii ''redundancy'') = Some (JBool False) \<longrightarrow>
              value_get v' (ascii ''redundancy'') = Some (JString (ascii ''auto''))) \<and>
           (\<forall>k. k \<noteq> ascii ''redundancy'' \<or> value_get v k \<notin> {Some (JBool True), Some (JBool False)} \<longrightarrow>
              value_get v' k = value_get v k)
      else v' = v)"

definition routes_chosen :: "Value \<Rightarrow> Value \<Rightarrow> bool" where
  "routes_chosen v v' \<longleftrightarrow> (case v of
       JArray rs \<Rightarrow> (\<exists>rs'. v' = JArray rs' \<and> list_all2 keep_chosen rs rs')
     | _ \<Rightarrow> v' = v)"

definition profiles_chosen :: "Value \<Rightarrow> Value \<Rightarrow> bool" where
  "profiles_chosen v v' \<longleftrightarrow> (case v of
       JObject m \<Rightarrow> (\<exists>m'. v' = JObject m' \<and> list_all2 (\<lambda>e e'. fst e' = fst e \<and> mode_chosen (snd e) (snd e')) m m')
     | _ \<Rightarrow> v' = v)"

text \<open>A document and what becomes of it: under each key an entry stands in the relation of its key, and no
  other key appears or goes.\<close>

definition migrated_to_3 :: "nat \<Rightarrow> Value \<Rightarrow> Value \<Rightarrow> bool" where
  "migrated_to_3 from doc doc' \<longleftrightarrow> is_object doc' \<and> value_get doc' (ascii ''version'') = Some (JU64 3) \<and>
     rel_option (if from \<le> 1 then routes_chosen else (=))
       (value_get doc (ascii ''savedRoutes'')) (value_get doc' (ascii ''savedRoutes'')) \<and>
     rel_option mode_chosen (value_get doc (ascii ''stream'')) (value_get doc' (ascii ''stream'')) \<and>
     rel_option profiles_chosen (value_get doc (ascii ''deviceProfiles'')) (value_get doc' (ascii ''deviceProfiles'')) \<and>
     (\<forall>k. k \<notin> {ascii ''version'', ascii ''savedRoutes'', ascii ''stream'', ascii ''deviceProfiles''} \<longrightarrow>
        value_get doc' k = value_get doc k)"

lemma keep_default_chosen: "keep_chosen r (keep_default r)"
  by (cases r) (auto simp: keep_chosen_def update_conv')

lemma keep_defaults_chosen: "routes_chosen v (keep_defaults v)"
  by (cases v) (auto simp: routes_chosen_def list_all2_conv_all_nth keep_default_chosen)

lemma redundancy_mode_chosen: "mode_chosen v (redundancy_bool_to_mode v)"
proof (cases v)
  case (JObject m)
  show ?thesis
  proof (cases "map_of m (ascii ''redundancy'')")
    case (Some w)
    then show ?thesis by (cases w) (auto simp: JObject mode_chosen_def update_conv')
  qed (simp add: JObject mode_chosen_def)
qed (simp_all add: mode_chosen_def)

lemma redundancy_in_profiles_chosen: "profiles_chosen v (redundancy_in_profiles v)"
  by (cases v) (auto simp: profiles_chosen_def list_all2_conv_all_nth redundancy_mode_chosen split_beta)

lemma rel_option_map_self: "(\<And>v. R v (f v)) \<Longrightarrow> rel_option R x (map_option f x)"
  by (cases x) simp_all

lemma migrate_older:
  assumes "is_object doc" "from < SETTINGS_VERSION"
  shows "fst (migrate doc from) \<and> migrated_to_3 from doc (snd (migrate doc from))"
proof -
  note chosen = rel_option_map_self [of mode_chosen redundancy_bool_to_mode, OF redundancy_mode_chosen]
    rel_option_map_self [of profiles_chosen redundancy_in_profiles, OF redundancy_in_profiles_chosen]
    rel_option_map_self [of routes_chosen keep_defaults, OF keep_defaults_chosen]
  consider "from \<le> 1" "max from 1 = 1" | "from = 2" "max from 1 = 2"
    using assms(2) by (fastforce simp: SETTINGS_VERSION_def)
  then show ?thesis
  proof cases
    case 1
    note m = migrate_old [OF 1(2), unfolded migrate_from_unfold, OF one_old]
    show ?thesis
      using assms(1) 1(1) chosen unfolding m
      by (simp add: migrate_step_def obj_modify_get obj_insert_get migrated_to_3_def)
  next
    case 2
    note m = migrate_old [OF 2(2), unfolded migrate_from_unfold, OF two_old]
    show ?thesis
      using assms(1) 2(1) chosen unfolding m
      by (simp add: migrate_step_def obj_modify_get obj_insert_get migrated_to_3_def option.rel_refl)
  qed
qed

text \<open>C39: A settings document of an older version is brought to version 3 by exactly the documented changes: in
  a document of version 1 a saved route without a \<open>keep\<close> entry gets \<open>true\<close> and one that has it keeps it; in every
  older document the \<open>redundancy\<close> switch of the stream and of each device profile becomes the mode \<open>on\<close> when it
  was true and \<open>auto\<close> when it was false; the version is written, and every other entry reads as it did. A document
  of the current or a newer version is left alone, and the migrated one is never migrated again.\<close>

theorem migration_equals_reference:
  assumes "is_object doc"
  shows "(if from < 3 then fst (migrate doc from) \<and> migrated_to_3 from doc (snd (migrate doc from))
     else migrate doc from = (False, doc)) \<and>
    migrate (snd (migrate doc from)) (max from 3) = (False, snd (migrate doc from))"
  using migrate_older [OF assms, of "from"] by (simp add: SETTINGS_VERSION_def) (simp add: migrate_def SETTINGS_VERSION_def)

theorem migration_equals_reference_witness:
  "value_get (snd (migrate (JObject [(ascii ''stream'', JObject [(ascii ''redundancy'', JBool False)]),
      (ascii ''savedRoutes'', JArray [JObject []])]) 1)) (ascii ''version'') = Some (JU64 3) \<and>
   (\<exists>v. value_get (snd (migrate (JObject [(ascii ''stream'', JObject [(ascii ''redundancy'', JBool False)]),
      (ascii ''savedRoutes'', JArray [JObject []])]) 1)) (ascii ''stream'') = Some v \<and>
      value_get v (ascii ''redundancy'') = Some (JString (ascii ''auto''))) \<and>
   (\<exists>r. value_get (snd (migrate (JObject [(ascii ''stream'', JObject [(ascii ''redundancy'', JBool False)]),
      (ascii ''savedRoutes'', JArray [JObject []])]) 1)) (ascii ''savedRoutes'') = Some (JArray [r]) \<and>
      value_get r (ascii ''keep'') = Some (JBool True))"
proof -
  let ?d = "JObject [(ascii ''stream'', JObject [(ascii ''redundancy'', JBool False)]),
      (ascii ''savedRoutes'', JArray [JObject []])]"
  have "migrated_to_3 1 ?d (snd (migrate ?d 1))"
    using migration_equals_reference [of ?d 1] by simp
  then show ?thesis
    by (auto simp: migrated_to_3_def option_rel_Some1 mode_chosen_def routes_chosen_def keep_chosen_def list_all2_Cons1)
qed

section \<open>What survives on disk\<close>

text \<open>The JSON library delivers strings that are UTF-8 and maps in key order, and reads back what it wrote.\<close>

definition settings_serde_ok :: "SettingsSerde \<Rightarrow> bool" where
  "settings_serde_ok j \<longleftrightarrow> (\<forall>doc s. settings_from_value j doc = Some s \<longrightarrow> settings_raw_ok s)"

definition serde_roundtrips :: "SettingsSerde \<Rightarrow> Settings \<Rightarrow> bool" where
  "serde_roundtrips j s \<longleftrightarrow> (\<forall>json. settings_to_vec j s = Some json \<longrightarrow>
     (\<exists>doc. value_from_slice j json = Some doc \<and> is_object doc \<and> doc_version doc = set_version s \<and>
        settings_from_value j doc = Some s))"

lemma load_ok:
  "settings_serde_ok j \<Longrightarrow> settings_ok (fst (fst (settings_load j io files)))"
  by (auto simp: settings_load_def settings_recover_def settings_default_ok settings_serde_ok_def sanitize_ok
      Let_def split: sum.splits option.splits prod.splits)

lemma load_recovered:
  "snd (fst (settings_load j io files)) \<Longrightarrow>
     settings_load j io files = ((settings_default, True), move_aside io ''json.bad'' SETTINGS_PATH files)"
  by (auto simp: settings_load_def settings_recover_def Let_def split: sum.splits option.splits prod.splits if_splits)

lemma save_path: "path_ext SETTINGS_PATH \<noteq> Some ''tmp''"
  by (simp add: SETTINGS_PATH_def)

lemma save_outcome:
  "settings_save j io s files = (Inr (), files') \<Longrightarrow> \<exists>json. settings_to_vec j s = Some json \<and> files' SETTINGS_PATH = Some json"
  "settings_save j io s files = (Inl e, files') \<Longrightarrow> files' SETTINGS_PATH = files SETTINGS_PATH"
  using write_atomic_all_or_nothing [OF save_path, of io _ files]
  by (auto simp: settings_save_def split: option.splits sum.splits prod.splits)

lemma settings_save_then_load:
  assumes "serde_roundtrips j s" "settings_ok s" "sanitize s = s" "settings_save j io' s files = (Inr (), files')"
    "\<not> io_read_fails io"
  shows "settings_load j io files' = ((s, False), files')"
proof -
  obtain json where json: "settings_to_vec j s = Some json" "files' SETTINGS_PATH = Some json"
    using save_outcome(1) [OF assms(4)] by blast
  then obtain doc where doc: "value_from_slice j json = Some doc" "is_object doc" "doc_version doc = set_version s"
      "settings_from_value j doc = Some s"
    using assms(1) by (auto simp: serde_roundtrips_def)
  have "migrate doc (doc_version doc) = (False, doc)"
    using assms(2) doc(3) by (simp add: migrate_def settings_ok_def SETTINGS_VERSION_def)
  then show ?thesis
    using doc json assms(3,5) by (simp add: settings_load_def read_file_def)
qed

lemma load_missing:
  "io_read_fails io \<or> files SETTINGS_PATH = None \<Longrightarrow> settings_load j io files = ((settings_default, False), files)"
  by (auto simp: settings_load_def read_file_def)

lemma load_corrupted:
  assumes "\<not> io_read_fails io" "files SETTINGS_PATH = Some bs"
    and "\<forall>doc. value_from_slice j bs = Some doc \<longrightarrow>
      \<not> is_object doc \<or> settings_from_value j (snd (migrate doc (doc_version doc))) = None"
  shows "settings_load j io files = ((settings_default, True), move_aside io ''json.bad'' SETTINGS_PATH files)"
  using assms by (auto simp: settings_load_def read_file_def settings_recover_def split: option.split prod.split)

text \<open>C40: Loading never fails and never gives settings out of range: a missing or unreadable file gives the
  defaults, and one that is no document, no object or no settings is moved aside with the defaults reported as
  recovered. Settings in range that were saved come back unchanged, with the file untouched, when the JSON library
  reads back what it wrote; a save that fails leaves the previous file as it was.\<close>

theorem settings_survive:
  assumes "settings_serde_ok j"
  shows "settings_ok (fst (fst (settings_load j io files))) \<and>
    (io_read_fails io \<or> files SETTINGS_PATH = None \<longrightarrow> settings_load j io files = ((settings_default, False), files)) \<and>
    (\<not> io_read_fails io \<and> files SETTINGS_PATH = Some bs \<and>
       (\<forall>doc. value_from_slice j bs = Some doc \<longrightarrow>
          \<not> is_object doc \<or> settings_from_value j (snd (migrate doc (doc_version doc))) = None) \<longrightarrow>
       settings_load j io files = ((settings_default, True), move_aside io ''json.bad'' SETTINGS_PATH files)) \<and>
    (snd (fst (settings_load j io files)) \<longrightarrow>
       settings_load j io files = ((settings_default, True), move_aside io ''json.bad'' SETTINGS_PATH files)) \<and>
    (serde_roundtrips j s \<and> settings_ok s \<and> sanitize s = s \<and> \<not> io_read_fails io \<and>
       settings_save j io' s files = (Inr (), files') \<longrightarrow> settings_load j io files' = ((s, False), files')) \<and>
    (settings_save j io' s files = (Inl e, files') \<longrightarrow> files' SETTINGS_PATH = files SETTINGS_PATH)"
  by (intro conjI impI)
    (rule load_ok [OF assms] | (rule load_missing, assumption) | (elim conjE, rule load_corrupted, assumption+)
      | (rule load_recovered, assumption) | (elim conjE, rule settings_save_then_load, assumption+)
      | (rule save_outcome(2), assumption))+

text \<open>
  A JSON library for the settings that differ from the defaults in the device name alone: it prints the version
  and the name, and reads documents of that shape; a missing name takes its default.
\<close>

definition name_head :: bytes where
  "name_head = ascii ''{\"version\":3,\"deviceName\":\"''"

definition plain_name :: "bytes \<Rightarrow> bool" where
  "plain_name n \<longleftrightarrow> list_all (\<lambda>c. 32 \<le> c \<and> c < 127 \<and> c \<noteq> 34 \<and> c \<noteq> 92) n"

definition name_json :: SettingsSerde where
  "name_json =
     \<lparr>value_from_slice = (\<lambda>bs.
        if bs = ascii ''{}'' then Some (JObject [])
        else if take (length name_head) bs = name_head
        then let rest = drop (length name_head) bs; n = take (length rest - 2) rest
             in if rest = n @ ascii ''\"}'' \<and> plain_name n
                then Some (JObject [(ascii ''version'', JU64 3), (ascii ''deviceName'', JString n)]) else None
        else None),
      settings_from_value = (\<lambda>doc. case value_get doc (ascii ''deviceName'') of
          None \<Rightarrow> Some settings_default
        | Some (JString n) \<Rightarrow> if plain_name n then Some (settings_default\<lparr>set_device_name := n\<rparr>) else None
        | _ \<Rightarrow> None),
      settings_to_vec = (\<lambda>s.
        if s = settings_default\<lparr>set_device_name := set_device_name s\<rparr> \<and> plain_name (set_device_name s)
        then Some (name_head @ set_device_name s @ ascii ''\"}'') else None)\<rparr>"

lemma plain_name_utf8: "plain_name n \<Longrightarrow> utf8_valid n"
  by (rule ascii_valid) (auto simp: plain_name_def list_all_iff word_less_nat_alt)

lemma name_json_ok: "settings_serde_ok name_json"
  using plain_name_utf8
  by (auto simp: settings_serde_ok_def name_json_def settings_raw_ok_def settings_default_def capture_default_def
      split: option.splits Value.splits if_splits)

lemma name_json_roundtrips: "serde_roundtrips name_json s"
  unfolding serde_roundtrips_def
proof (intro allI impI)
  fix json assume json: "settings_to_vec name_json s = Some json"
  then have s: "s = settings_default\<lparr>set_device_name := set_device_name s\<rparr>" "plain_name (set_device_name s)"
    "json = name_head @ set_device_name s @ ascii ''\"}''"
    by (auto simp: name_json_def split: if_splits)
  have "json \<noteq> ascii ''{}''" by (simp add: s(3) name_head_def ascii_def)
  then have "value_from_slice name_json json =
      Some (JObject [(ascii ''version'', JU64 3), (ascii ''deviceName'', JString (set_device_name s))])"
    using s(2) by (simp add: name_json_def s(3) ascii_def)
  moreover have "set_version s = 3" by (subst s(1)) (simp add: settings_default_def SETTINGS_VERSION_def)
  moreover have "ascii ''deviceName'' \<noteq> ascii ''version''" by (simp add: ascii_def)
  ultimately show "\<exists>doc. value_from_slice name_json json = Some doc \<and> is_object doc \<and> doc_version doc = set_version s \<and>
      settings_from_value name_json doc = Some s"
    using s(1,2) by (simp add: doc_version_def name_json_def u32_max_def)
qed

definition desk :: Settings where
  "desk = settings_default\<lparr>set_device_name := ascii ''Desk''\<rparr>"

lemma desk_ok: "settings_ok desk" "sanitize desk = desk"
proof -
  have valid: "utf8_valid (ascii ''Desk'')" by (rule ascii_valid) (auto simp: ascii_def)
  have cut: "trim_take 64 (ascii ''Desk'') = ascii ''Desk''" by code_simp
  have count: "char_count (ascii ''Desk'') \<le> 64" by code_simp
  show ok: "settings_ok desk"
    using settings_default_ok valid count by (simp add: settings_ok_def desk_def)
  show "sanitize desk = desk"
    using cut by (intro sanitize_settled [OF ok]) (simp_all add: desk_def settings_default_def capture_default_def clean_app_def)
qed

theorem settings_survive_witness:
  "(\<exists>files. settings_save name_json example_io desk Map.empty = (Inr (), files) \<and>
       settings_load name_json example_io files = ((desk, False), files)) \<and>
   settings_load name_json example_io [SETTINGS_PATH \<mapsto> ascii ''{\"na''] =
     ((settings_default, True), move_aside example_io ''json.bad'' SETTINGS_PATH [SETTINGS_PATH \<mapsto> ascii ''{\"na'']) \<and>
   settings_load name_json example_io Map.empty = ((settings_default, False), Map.empty) \<and>
   snd (settings_save name_json (example_io\<lparr>io_write_fails := Some SyncAll\<rparr>) desk [SETTINGS_PATH \<mapsto> [1]]) SETTINGS_PATH
     = Some [1]"
proof -
  note th = settings_survive [OF name_json_ok]
  note missing = th [THEN conjunct2, THEN conjunct1, THEN mp]
    and corrupted = th [THEN conjunct2, THEN conjunct2, THEN conjunct1, THEN mp]
    and returned = th [THEN conjunct2, THEN conjunct2, THEN conjunct2, THEN conjunct2, THEN conjunct1, THEN mp]
    and kept = th [THEN conjunct2, THEN conjunct2, THEN conjunct2, THEN conjunct2, THEN conjunct2, THEN mp]
  have plain: "plain_name (ascii ''Desk'')" by (simp add: plain_name_def ascii_def)
  then have vec: "settings_to_vec name_json desk \<noteq> None" by (simp add: name_json_def desk_def)
  have reads: "\<not> io_read_fails example_io" by (simp add: example_io_def)
  obtain files where saved: "settings_save name_json example_io desk Map.empty = (Inr (), files)"
    using vec by (auto simp: settings_save_def write_atomic_def example_io_def Let_def)
  have loaded: "settings_load name_json example_io files = ((desk, False), files)"
    by (rule returned) (rule conjI name_json_roundtrips desk_ok reads saved)+
  have none: "value_from_slice name_json (ascii ''{\"na'') = None"
    by (simp add: name_json_def name_head_def ascii_def)
  have moved: "settings_load name_json example_io [SETTINGS_PATH \<mapsto> ascii ''{\"na''] =
     ((settings_default, True), move_aside example_io ''json.bad'' SETTINGS_PATH [SETTINGS_PATH \<mapsto> ascii ''{\"na''])"
    by (rule corrupted) (use none reads in \<open>auto intro!: exI\<close>)
  have empty: "settings_load name_json example_io Map.empty = ((settings_default, False), Map.empty)"
    by (rule missing) simp
  obtain e files' where failed:
    "settings_save name_json (example_io\<lparr>io_write_fails := Some SyncAll\<rparr>) desk [SETTINGS_PATH \<mapsto> [1]] = (Inl e, files')"
    using vec by (auto simp: settings_save_def write_atomic_def example_io_def Let_def)
  have "files' SETTINGS_PATH = Some [1]" using kept [OF failed] by simp
  then show ?thesis using saved loaded moved empty failed by simp
qed

end
