(* ===== verification/Resume_Tokens.thy ===== *)
theory Resume_Tokens
  imports Rust_Maps Identity
begin

text \<open>
  Session resume tokens (\<open>resume.rs\<close>): tokens issued to peers, tokens held from peers, and the
  short grants a redeemed token gives. Random token bytes are an argument of \<open>issue\<close>, the hash an
  argument of what derives a device identifier from a key.
\<close>

section \<open>State and operations\<close>

definition TOKEN_LEN :: nat where "TOKEN_LEN = 32"
definition TOKEN_LIFETIME :: duration where "TOKEN_LIFETIME = from_secs 600"
definition RESUME_GRANT :: duration where "RESUME_GRANT = from_secs 30"
definition MAX_TOKENS :: nat where "MAX_TOKENS = 64"

record Issued =
  is_peer_key :: PublicKey
  is_expires :: instant

record Held =
  hd_token :: bytes
  hd_expires :: instant

record ResumeTokens =
  rt_issued :: "(bytes, Issued) hmap"
  rt_held :: "(DeviceId, Held) hmap"
  rt_grants :: "(DeviceId, instant) hmap"

definition resume_empty :: ResumeTokens where
  "resume_empty = \<lparr>rt_issued = [], rt_held = [], rt_grants = []\<rparr>"

definition resume_prune :: "instant \<Rightarrow> ResumeTokens \<Rightarrow> ResumeTokens" where
  "resume_prune now st =
     \<lparr>rt_issued = hm_retain (\<lambda>_ i. now < is_expires i) (rt_issued st),
      rt_held = hm_retain (\<lambda>_ h. now < hd_expires h) (rt_held st),
      rt_grants = hm_retain (\<lambda>_ until. now < until) (rt_grants st)\<rparr>"

definition evict_oldest :: "(bytes, Issued) hmap \<Rightarrow> (bytes, Issued) hmap" where
  "evict_oldest issued =
     (if MAX_TOKENS \<le> length issued then
        (case min_by_key (\<lambda>(_, i). is_expires i) issued of
           Some (oldest, _) \<Rightarrow> AList.delete oldest issued
         | None \<Rightarrow> issued)
      else issued)"

definition resume_issue :: "PublicKey \<Rightarrow> instant \<Rightarrow> bytes \<Rightarrow> ResumeTokens \<Rightarrow> bytes \<times> ResumeTokens" where
  "resume_issue peer_key now token st =
     (let st1 = resume_prune now st;
          issued = evict_oldest (hm_retain (\<lambda>_ i. is_peer_key i \<noteq> peer_key) (rt_issued st1))
      in (token, st1\<lparr>rt_issued := AList.update token
            \<lparr>is_peer_key = peer_key, is_expires = now + TOKEN_LIFETIME\<rparr> issued\<rparr>))"

definition resume_redeem ::
  "(bytes \<Rightarrow> bytes) \<Rightarrow> PublicKey \<Rightarrow> bytes \<Rightarrow> instant \<Rightarrow> ResumeTokens \<Rightarrow> bool \<times> ResumeTokens" where
  "resume_redeem sha256 peer_key token now st =
     (if length token \<noteq> TOKEN_LEN then (False, st)
      else (case map_of (rt_issued st) token of
              None \<Rightarrow> (False, st)
            | Some issued \<Rightarrow>
                (let st1 = st\<lparr>rt_issued := AList.delete token (rt_issued st)\<rparr>;
                     valid = (is_peer_key issued = peer_key \<and> now < is_expires issued)
                 in (valid,
                     if valid then st1\<lparr>rt_grants := AList.update (device_id_of sha256 peer_key)
                                         (now + RESUME_GRANT) (rt_grants st1)\<rparr>
                     else st1))))"

definition resume_hold :: "DeviceId \<Rightarrow> bytes \<Rightarrow> nat \<Rightarrow> instant \<Rightarrow> ResumeTokens \<Rightarrow> ResumeTokens" where
  "resume_hold peer token lifetime_secs now st =
     (if length token \<noteq> TOKEN_LEN then st
      else if \<not> hm_contains (rt_held st) peer \<and> MAX_TOKENS \<le> length (rt_held st) then st
      else st\<lparr>rt_held := AList.update peer
                \<lparr>hd_token = token, hd_expires = now + min (from_secs lifetime_secs) TOKEN_LIFETIME\<rparr>
                (rt_held st)\<rparr>)"

definition held_for :: "DeviceId \<Rightarrow> instant \<Rightarrow> ResumeTokens \<Rightarrow> bytes option" where
  "held_for peer now st = (case map_of (rt_held st) peer of
       Some h \<Rightarrow> if now < hd_expires h then Some (hd_token h) else None
     | None \<Rightarrow> None)"

definition resumed_recently :: "DeviceId \<Rightarrow> instant \<Rightarrow> ResumeTokens \<Rightarrow> bool" where
  "resumed_recently peer now st =
     (case map_of (rt_grants st) peer of Some until \<Rightarrow> now < until | None \<Rightarrow> False)"

definition resume_forget :: "(bytes \<Rightarrow> bytes) \<Rightarrow> DeviceId \<Rightarrow> ResumeTokens \<Rightarrow> ResumeTokens" where
  "resume_forget sha256 peer st =
     \<lparr>rt_issued = hm_retain (\<lambda>_ i. device_id_of sha256 (is_peer_key i) \<noteq> peer) (rt_issued st),
      rt_held = AList.delete peer (rt_held st), rt_grants = AList.delete peer (rt_grants st)\<rparr>"

section \<open>Histories\<close>

datatype resume_op =
    IssueToken PublicKey instant bytes
  | Redeem PublicKey bytes instant
  | Hold DeviceId bytes nat instant
  | Forget DeviceId
  | Prune instant

fun resume_step :: "(bytes \<Rightarrow> bytes) \<Rightarrow> resume_op \<Rightarrow> ResumeTokens \<Rightarrow> ResumeTokens" where
  "resume_step sha256 (IssueToken k now tok) st = snd (resume_issue k now tok st)"
| "resume_step sha256 (Redeem k tok now) st = snd (resume_redeem sha256 k tok now st)"
| "resume_step sha256 (Hold peer tok secs now) st = resume_hold peer tok secs now st"
| "resume_step sha256 (Forget peer) st = resume_forget sha256 peer st"
| "resume_step sha256 (Prune now) st = resume_prune now st"

text \<open>The states reachable from an empty store, each with the operations that led there, newest first.\<close>

inductive resume_reachable :: "(bytes \<Rightarrow> bytes) \<Rightarrow> resume_op list \<Rightarrow> ResumeTokens \<Rightarrow> bool"
  for sha256 :: "bytes \<Rightarrow> bytes"
where
  reach_start: "resume_reachable sha256 [] resume_empty"
| reach_step: "resume_reachable sha256 h st \<Longrightarrow> resume_reachable sha256 (op # h) (resume_step sha256 op st)"

inductive_cases reach_startE: "resume_reachable sha256 [] st"
inductive_cases reach_stepE: "resume_reachable sha256 (op # h) st"

text \<open>The newest issue of \<open>tok\<close> went to \<open>k\<close>, to expire at \<open>ex\<close>, and since then the token has not been
  presented by anybody, the peer has not been forgotten and has not been issued another token.\<close>

fun live_token :: "(bytes \<Rightarrow> bytes) \<Rightarrow> bytes \<Rightarrow> PublicKey \<Rightarrow> instant \<Rightarrow> resume_op list \<Rightarrow> bool" where
  "live_token sha256 tok k ex [] \<longleftrightarrow> False"
| "live_token sha256 tok k ex (IssueToken k' now tok' # h) \<longleftrightarrow>
     (if tok' = tok then k' = k \<and> ex = now + TOKEN_LIFETIME else k' \<noteq> k \<and> live_token sha256 tok k ex h)"
| "live_token sha256 tok k ex (Redeem k' tok' now # h) \<longleftrightarrow>
     (tok' \<noteq> tok \<or> length tok' \<noteq> TOKEN_LEN) \<and> live_token sha256 tok k ex h"
| "live_token sha256 tok k ex (Forget peer # h) \<longleftrightarrow>
     device_id_of sha256 k \<noteq> peer \<and> live_token sha256 tok k ex h"
| "live_token sha256 tok k ex (Hold peer t secs now # h) \<longleftrightarrow> live_token sha256 tok k ex h"
| "live_token sha256 tok k ex (Prune now # h) \<longleftrightarrow> live_token sha256 tok k ex h"

text \<open>The newest grant of \<open>peer\<close> until \<open>until\<close>: a redeemed live token, and the peer not forgotten since.\<close>

fun live_grant :: "(bytes \<Rightarrow> bytes) \<Rightarrow> DeviceId \<Rightarrow> instant \<Rightarrow> resume_op list \<Rightarrow> bool" where
  "live_grant sha256 peer until [] \<longleftrightarrow> False"
| "live_grant sha256 peer until (Redeem k tok now # h) \<longleftrightarrow>
     (device_id_of sha256 k = peer \<and> until = now + RESUME_GRANT \<and> length tok = TOKEN_LEN \<and>
        (\<exists>ex. live_token sha256 tok k ex h \<and> now < ex))
     \<or> live_grant sha256 peer until h"
| "live_grant sha256 peer until (Forget p # h) \<longleftrightarrow> p \<noteq> peer \<and> live_grant sha256 peer until h"
| "live_grant sha256 peer until (_ # h) \<longleftrightarrow> live_grant sha256 peer until h"

definition resume_wf :: "ResumeTokens \<Rightarrow> bool" where
  "resume_wf st \<longleftrightarrow> hm_wf (rt_issued st) \<and> hm_wf (rt_held st) \<and> hm_wf (rt_grants st) \<and>
     length (rt_issued st) \<le> MAX_TOKENS \<and> length (rt_held st) \<le> MAX_TOKENS"

declare map_of_eq_Some_iff [simp del]

lemma evict_oldest_wf: "hm_wf t \<Longrightarrow> hm_wf (evict_oldest t)"
  by (auto simp: evict_oldest_def distinct_delete split: option.split)

lemma evict_oldest_sub: "hm_wf t \<Longrightarrow> map_of (evict_oldest t) k = Some v \<Longrightarrow> map_of t k = Some v"
  by (auto simp: evict_oldest_def delete_conv' split: if_splits option.splits)

lemma evict_oldest_length:
  assumes "hm_wf t" "length t \<le> MAX_TOKENS" shows "length (evict_oldest t) < MAX_TOKENS"
proof (cases "MAX_TOKENS \<le> length t")
  case True
  then have "t \<noteq> []" by (auto simp: MAX_TOKENS_def)
  then obtain old i where m: "min_by_key (\<lambda>(_, i). is_expires i) t = Some (old, i)"
    by (cases "min_by_key (\<lambda>(_, i). is_expires i) t") auto
  then have "map_of t old = Some i" using min_by_key_Some [OF m] assms(1) by (simp add: map_of_eq_Some_iff)
  then have "length (AList.delete old t) = length t - 1" using hash_map.count_remove [OF assms(1), of old] by simp
  then show ?thesis using True assms(2) m by (simp add: evict_oldest_def MAX_TOKENS_def)
qed (simp add: evict_oldest_def)

lemma prune_wf: "resume_wf st \<Longrightarrow> resume_wf (resume_prune now st)"
  by (auto simp: resume_wf_def resume_prune_def intro: order.trans [OF length_retain])

lemma issue_wf:
  assumes "resume_wf st" shows "resume_wf (snd (resume_issue k now tok st))"
proof -
  let ?t = "hm_retain (\<lambda>_ i. is_peer_key i \<noteq> k) (rt_issued (resume_prune now st))"
  have wf: "resume_wf (resume_prune now st)" by (rule prune_wf [OF assms])
  then have t: "hm_wf ?t" "length ?t \<le> MAX_TOKENS"
    using length_retain [of "\<lambda>_ i. is_peer_key i \<noteq> k" "rt_issued (resume_prune now st)"]
    by (auto simp: resume_wf_def)
  have "length (AList.update tok v (evict_oldest ?t)) \<le> MAX_TOKENS" for v
    using evict_oldest_length [OF t] evict_oldest_wf [OF t(1)] by (intro hash_map.insert_with_room) auto
  then show ?thesis using wf t evict_oldest_wf [OF t(1)]
    by (auto simp: resume_issue_def Let_def resume_wf_def distinct_update)
qed

lemma redeem_wf: "resume_wf st \<Longrightarrow> resume_wf (snd (resume_redeem sha256 k tok now st))"
  using length_delete_le [of tok "rt_issued st"]
  by (auto simp: resume_redeem_def Let_def resume_wf_def distinct_update distinct_delete split: option.split)

lemma hold_wf: "resume_wf st \<Longrightarrow> resume_wf (resume_hold peer tok secs now st)"
  using hash_map.insert_with_room [of "rt_held st" MAX_TOKENS peer]
  by (auto simp: resume_hold_def resume_wf_def distinct_update)

lemma forget_wf: "resume_wf st \<Longrightarrow> resume_wf (resume_forget sha256 peer st)"
  using length_delete_le [of peer "rt_held st"]
  by (auto simp: resume_forget_def resume_wf_def distinct_delete intro: order.trans [OF length_retain])

lemma reachable_wf: "resume_reachable sha256 h st \<Longrightarrow> resume_wf st"
proof (induction rule: resume_reachable.induct)
  case (reach_step h st op)
  then show ?case by (cases op) (simp_all add: issue_wf redeem_wf hold_wf forget_wf prune_wf)
qed (simp add: resume_wf_def resume_empty_def)

text \<open>Every stored token is live, every stored grant comes from one.\<close>

lemma issued_live:
  "resume_reachable sha256 h st \<Longrightarrow> map_of (rt_issued st) tok = Some i \<Longrightarrow>
     live_token sha256 tok (is_peer_key i) (is_expires i) h"
proof (induction arbitrary: i rule: resume_reachable.induct)
  case (reach_step h st op)
  have wf: "resume_wf st" using reach_step by (intro reachable_wf)
  then have wfi: "hm_wf (rt_issued st)" by (simp add: resume_wf_def)
  show ?case
  proof (cases op)
    case (IssueToken k now tok')
    let ?p = "rt_issued (resume_prune now st)"
    let ?t = "hm_retain (\<lambda>_ i. is_peer_key i \<noteq> k) ?p"
    have wfp: "hm_wf ?p" using prune_wf [OF wf] by (simp add: resume_wf_def)
    show ?thesis
    proof (cases "tok' = tok")
      case False
      then have "map_of (evict_oldest ?t) tok = Some i"
        using reach_step.prems IssueToken by (simp add: resume_issue_def Let_def update_conv')
      then have "map_of ?t tok = Some i" by (rule evict_oldest_sub [OF hm_retain_wf [OF wfp]])
      then have "is_peer_key i \<noteq> k" "map_of (rt_issued st) tok = Some i"
        using wfp wfi by (auto simp: map_of_retain resume_prune_def split: option.splits if_splits)
      then show ?thesis using reach_step.IH IssueToken False by simp
    qed (use reach_step.prems IssueToken in \<open>auto simp: resume_issue_def Let_def update_conv'\<close>)
  next
    case (Redeem k tok' now)
    then show ?thesis using reach_step
      by (auto simp: resume_redeem_def Let_def delete_conv' split: if_splits option.splits)
  next
    case (Hold peer t secs now)
    then show ?thesis using reach_step by (auto simp: resume_hold_def split: if_splits)
  next
    case (Forget peer)
    then show ?thesis using reach_step wfi
      by (auto simp: resume_forget_def map_of_retain split: if_splits option.splits)
  next
    case (Prune now)
    then show ?thesis using reach_step wfi
      by (auto simp: resume_prune_def map_of_retain split: if_splits option.splits)
  qed
qed (simp add: resume_empty_def)

text \<open>C26: In every reachable state, a token is redeemed only by the very key it was issued to, before its ten
  minutes are over, and only while it is live: never presented before by anybody, not replaced by a newer
  token for the same peer, and the peer not forgotten since. Redeeming it, whatever the answer, ends it:
  no later attempt with it succeeds before it is issued again.\<close>

theorem resume_tokens_sound:
  assumes "resume_reachable sha256 h st"
  shows "(fst (resume_redeem sha256 k tok now st) \<longrightarrow> (\<exists>ex. live_token sha256 tok k ex h \<and> now < ex)) \<and>
         \<not> fst (resume_redeem sha256 k' tok now' (snd (resume_redeem sha256 k tok now st))) \<and>
         length (rt_issued st) \<le> MAX_TOKENS \<and> length (rt_held st) \<le> MAX_TOKENS"
proof -
  have "fst (resume_redeem sha256 k tok now st) \<longrightarrow> (\<exists>ex. live_token sha256 tok k ex h \<and> now < ex)"
    using issued_live [OF assms, of tok]
    by (auto simp: resume_redeem_def Let_def split: if_splits option.splits)
  moreover have "\<not> fst (resume_redeem sha256 k' tok now' (snd (resume_redeem sha256 k tok now st)))"
    by (auto simp: resume_redeem_def Let_def delete_conv' split: option.splits)
  ultimately show ?thesis using reachable_wf [OF assms] by (simp add: resume_wf_def)
qed

definition example_token :: bytes where
  "example_token = replicate 32 7"

theorem resume_tokens_sound_witness:
  "\<exists>st. resume_reachable (\<lambda>x. x) [IssueToken [1] 0 example_token] st \<and>
     fst (resume_redeem (\<lambda>x. x) [1] example_token 5 st) \<and>
     \<not> fst (resume_redeem (\<lambda>x. x) [1] example_token 6 (snd (resume_redeem (\<lambda>x. x) [1] example_token 5 st)))"
proof -
  let ?st = "resume_step (\<lambda>x. x) (IssueToken [1] 0 example_token) resume_empty"
  have r: "resume_reachable (\<lambda>x. x) [IssueToken [1] 0 example_token] ?st"
    by (rule reach_step [OF reach_start])
  moreover have "fst (resume_redeem (\<lambda>x. x) [1] example_token 5 ?st)"
    by (simp add: resume_redeem_def resume_issue_def resume_empty_def resume_prune_def hm_retain_def
        evict_oldest_def MAX_TOKENS_def example_token_def TOKEN_LEN_def TOKEN_LIFETIME_def from_secs_def Let_def)
  ultimately show ?thesis
    using resume_tokens_sound [OF r, of "[1]" example_token 5 "[1]" 6] by blast
qed

lemma grants_live:
  "resume_reachable sha256 h st \<Longrightarrow> map_of (rt_grants st) peer = Some until \<Longrightarrow>
     live_grant sha256 peer until h"
proof (induction arbitrary: until rule: resume_reachable.induct)
  case (reach_step h st op)
  have wfg: "hm_wf (rt_grants st)" using reachable_wf [OF reach_step.hyps] by (simp add: resume_wf_def)
  show ?case
  proof (cases op)
    case (Redeem k tok now)
    show ?thesis
    proof (cases "map_of (rt_grants st) peer = Some until")
      case False
      then obtain i where "length tok = TOKEN_LEN" "map_of (rt_issued st) tok = Some i" "is_peer_key i = k"
        "now < is_expires i" "device_id_of sha256 k = peer" "until = now + RESUME_GRANT"
        using reach_step.prems Redeem
        by (auto simp: resume_redeem_def Let_def update_conv' split: if_splits option.splits)
      then show ?thesis using issued_live [OF reach_step.hyps] Redeem by auto
    qed (use reach_step.IH Redeem in simp)
  next
    case (IssueToken k now tok)
    then show ?thesis using reach_step wfg
      by (auto simp: resume_issue_def resume_prune_def Let_def map_of_retain split: option.splits if_splits)
  next
    case (Hold p t secs now)
    then show ?thesis using reach_step by (auto simp: resume_hold_def split: if_splits)
  next
    case (Forget p)
    then show ?thesis using reach_step by (auto simp: resume_forget_def delete_conv' split: if_splits)
  next
    case (Prune now)
    then show ?thesis using reach_step wfg
      by (auto simp: resume_prune_def map_of_retain split: option.splits if_splits)
  qed
qed (simp add: resume_empty_def)

text \<open>Routes may restart without asking again only for a peer that redeemed a live token of its own within
  the last 30 seconds and has not been forgotten since; forgetting a peer ends its grant, its held token
  and every token issued to its key at once.\<close>

theorem resume_grant_justified:
  assumes "resume_reachable sha256 h st"
  shows "(resumed_recently peer now st \<longrightarrow> (\<exists>until. live_grant sha256 peer until h \<and> now < until)) \<and>
         \<not> resumed_recently peer now (resume_forget sha256 peer st) \<and>
         held_for peer now (resume_forget sha256 peer st) = None \<and>
         (device_id_of sha256 k = peer \<longrightarrow> \<not> fst (resume_redeem sha256 k tok now (resume_forget sha256 peer st)))"
proof -
  have wf: "hm_wf (rt_issued st)" using reachable_wf [OF assms] by (simp add: resume_wf_def)
  have "resumed_recently peer now st \<longrightarrow> (\<exists>until. live_grant sha256 peer until h \<and> now < until)"
    using grants_live [OF assms, of peer] by (auto simp: resumed_recently_def split: option.splits)
  moreover have "device_id_of sha256 k = peer \<longrightarrow>
      \<not> fst (resume_redeem sha256 k tok now (resume_forget sha256 peer st))"
    using wf by (auto simp: resume_redeem_def resume_forget_def map_of_retain Let_def split: option.splits)
  ultimately show ?thesis
    by (simp add: resumed_recently_def held_for_def resume_forget_def delete_conv')
qed

theorem resume_grant_justified_witness:
  "\<not> fst (resume_redeem (\<lambda>x. x) [1] example_token 5 (resume_forget (\<lambda>x. x) [1]
     (resume_step (\<lambda>x. x) (IssueToken [1] 0 example_token) resume_empty)))"
  using resume_grant_justified [OF reach_step [OF reach_start [of "\<lambda>x. x"], of "IssueToken [1] 0 example_token"],
      of "[1]" 5 "[1]" example_token]
  by (simp add: fp_device_id_def of_public_key_def del: resume_step.simps)

end
