(* ===== verification/Rate_Limits.thy ===== *)
theory Rate_Limits
  imports Rust_Maps Net_Address
begin

text \<open>
  The guards of the engine that count events in time: the pairing rate limit per remote address
  (\<open>pairing_limit.rs\<close>), the report of handshakes that never finish (\<open>refused.rs\<close>), the reconnect
  backoff and the flap detector (\<open>reconnect.rs\<close>). The pairing limiter and the flap detector are
  shown to answer as if they kept the whole history of events.
\<close>

section \<open>Pairing rate limit\<close>

definition ATTEMPTS_PER_WINDOW :: nat where
  "ATTEMPTS_PER_WINDOW = 5"

definition PAIRING_WINDOW :: duration where
  "PAIRING_WINDOW = from_secs 60"

definition PAIRING_MAX_SOURCES :: nat where
  "PAIRING_MAX_SOURCES = 256"

datatype Decision = Allowed | Refused bool

record limit_source =
  ls_attempts :: "instant list"
  ls_refused_reported :: bool
  ls_last_seen :: instant

type_synonym PairingLimiter = "(IpAddr, limit_source) hmap"

text \<open>Making room for a new address: expired sources go, and if none was, the least recently seen.\<close>

definition pairing_make_room :: "instant \<Rightarrow> PairingLimiter \<Rightarrow> PairingLimiter" where
  "pairing_make_room now sources =
     (let kept = hm_retain
                   (\<lambda>_ s. ls_attempts s \<noteq> [] \<and> now - last (ls_attempts s) < PAIRING_WINDOW) sources
      in if PAIRING_MAX_SOURCES \<le> length kept then
           (case min_by_key (\<lambda>(_, s). ls_last_seen s) kept of
              Some (oldest, _) \<Rightarrow> AList.delete oldest kept
            | None \<Rightarrow> kept)
         else kept)"

text \<open>One attempt of a source: forget attempts that left the window, then refuse or count.\<close>

definition source_attempt :: "instant \<Rightarrow> limit_source \<Rightarrow> Decision \<times> limit_source" where
  "source_attempt now s =
     (let recent = dropWhile (\<lambda>t. PAIRING_WINDOW \<le> now - t) (ls_attempts s);
          s' = s\<lparr>ls_last_seen := now, ls_attempts := recent\<rparr>
      in if ATTEMPTS_PER_WINDOW \<le> length recent
         then (Refused (\<not> ls_refused_reported s), s'\<lparr>ls_refused_reported := True\<rparr>)
         else (Allowed, s'\<lparr>ls_refused_reported := False, ls_attempts := recent @ [now]\<rparr>))"

definition pairing_check :: "IpAddr \<times> instant \<Rightarrow> PairingLimiter \<Rightarrow> Decision \<times> PairingLimiter" where
  "pairing_check req sources =
     (let (addr, now) = req;
          ip = canonical addr;
          sources1 = (if \<not> hm_contains sources ip \<and> PAIRING_MAX_SOURCES \<le> length sources
                      then pairing_make_room now sources else sources);
          source = (case map_of sources1 ip of
                      Some s \<Rightarrow> s
                    | None \<Rightarrow> \<lparr>ls_attempts = [], ls_refused_reported = False, ls_last_seen = now\<rparr>);
          (d, s') = source_attempt now source
      in (d, AList.update ip s' sources1))"

subsection \<open>The specification: a log of all attempts\<close>

text \<open>Each entry is an address, a time, and whether the attempt was allowed.\<close>

type_synonym attempt_log = "(IpAddr \<times> instant \<times> bool) list"

definition log_of :: "IpAddr \<Rightarrow> attempt_log \<Rightarrow> (instant \<times> bool) list" where
  "log_of ip h = map snd (filter (\<lambda>e. fst e = ip) h)"

definition allowed_times :: "IpAddr \<Rightarrow> attempt_log \<Rightarrow> instant list" where
  "allowed_times ip h = map fst (filter snd (log_of ip h))"

definition last_refused :: "IpAddr \<Rightarrow> attempt_log \<Rightarrow> bool" where
  "last_refused ip h \<longleftrightarrow> log_of ip h \<noteq> [] \<and> \<not> snd (last (log_of ip h))"

definition window_check :: "IpAddr \<times> instant \<Rightarrow> attempt_log \<Rightarrow> Decision \<times> attempt_log" where
  "window_check req h =
     (let (addr, now) = req; ip = canonical addr;
          recent = filter (\<lambda>t. now - t < PAIRING_WINDOW) (allowed_times ip h);
          ok = length recent < ATTEMPTS_PER_WINDOW
      in (if ok then Allowed else Refused (\<not> last_refused ip h), h @ [(ip, now, ok)]))"

text \<open>
  The calls considered: time does not run backwards, and within a window the table can hold the hosts that
  came. An attempt has left the window once the log reaches 60 seconds past it.
\<close>

definition recent_hosts :: "instant \<Rightarrow> attempt_log \<Rightarrow> IpAddr set" where
  "recent_hosts now h = fst ` set (filter (\<lambda>e. now - fst (snd e) < PAIRING_WINDOW) h)"

definition orderly_attempt :: "IpAddr \<times> instant \<Rightarrow> attempt_log \<Rightarrow> bool" where
  "orderly_attempt req h \<longleftrightarrow>
     (\<forall>e\<in>set h. fst (snd e) \<le> snd req) \<and>
     card (insert (canonical (fst req)) (recent_hosts (snd req) h)) \<le> PAIRING_MAX_SOURCES"

definition log_expired :: "attempt_log \<Rightarrow> instant \<Rightarrow> bool" where
  "log_expired h t \<longleftrightarrow> (\<exists>e\<in>set h. PAIRING_WINDOW \<le> fst (snd e) - t)"

definition all_expired :: "attempt_log \<Rightarrow> IpAddr \<Rightarrow> bool" where
  "all_expired h ip \<longleftrightarrow> (\<forall>t\<in>set (allowed_times ip h). log_expired h t)"

text \<open>What the table keeps of a host is the end of its log; the rest has left the window. The flag of a refusal
  may be forgotten together with the last attempt, when the next answer allows the host anyway.\<close>

definition source_matches :: "attempt_log \<Rightarrow> IpAddr \<Rightarrow> limit_source \<Rightarrow> bool" where
  "source_matches h ip s \<longleftrightarrow>
     (ls_refused_reported s = last_refused ip h \<or> all_expired h ip) \<and>
     (\<exists>old. allowed_times ip h = old @ ls_attempts s \<and> (\<forall>t\<in>set old. log_expired h t))"

definition limiter_rel :: "PairingLimiter \<Rightarrow> attempt_log \<Rightarrow> bool" where
  "limiter_rel sources h \<longleftrightarrow>
     hm_wf sources \<and> sorted (map (fst \<circ> snd) h) \<and>
     (\<forall>ip. case map_of sources ip of
        Some s \<Rightarrow> source_matches h ip s
      | None \<Rightarrow> all_expired h ip)"

lemma log_of_snoc [simp]: "log_of ip (h @ [(ip', e)]) = log_of ip h @ (if ip' = ip then [e] else [])"
  by (simp add: log_of_def)

lemma allowed_times_snoc [simp]:
  "allowed_times ip (h @ [(ip', t, ok)]) = allowed_times ip h @ (if ip' = ip \<and> ok then [t] else [])"
  by (simp add: allowed_times_def)

lemma last_refused_snoc [simp]:
  "last_refused ip (h @ [(ip', t, ok)]) = (if ip' = ip then \<not> ok else last_refused ip h)"
  by (simp add: last_refused_def)

lemma allowed_times_log: "t \<in> set (allowed_times ip h) \<Longrightarrow> (ip, t, True) \<in> set h"
  by (auto simp: allowed_times_def log_of_def)

lemma sorted_allowed_times:
  assumes "sorted (map (fst \<circ> snd) h)" shows "sorted (allowed_times ip h)"
proof -
  have "allowed_times ip h = map (fst \<circ> snd) (filter (\<lambda>e. fst e = ip \<and> snd (snd e)) h)"
    by (induction h) (auto simp: allowed_times_def log_of_def)
  then show ?thesis using assms by (simp only: sorted_filter)
qed

text \<open>On a sorted list, dropping the expired front keeps exactly what is recent.\<close>

lemma dropWhile_expired:
  "sorted ts \<Longrightarrow> dropWhile (\<lambda>t. w \<le> now - t) ts = filter (\<lambda>t. now - t < w) (ts :: nat list)"
proof (induction ts)
  case (Cons t ts)
  then show ?case by (auto simp: filter_id_conv intro!: filter_True [symmetric])
qed simp

lemma expired_not_recent: "log_expired h t \<Longrightarrow> \<forall>e\<in>set h. fst (snd e) \<le> now \<Longrightarrow> PAIRING_WINDOW \<le> now - t"
  unfolding log_expired_def by (meson diff_le_mono order.trans)

lemma log_expired_snoc [simp]: "log_expired (h @ [(ip, now, ok)]) t \<longleftrightarrow> log_expired h t \<or> PAIRING_WINDOW \<le> now - t"
  by (auto simp: log_expired_def)

lemma recent_attempts:
  assumes m: "source_matches h ip s" and s: "sorted (map (fst \<circ> snd) h)"
    and now: "\<forall>e\<in>set h. fst (snd e) \<le> now"
  shows "dropWhile (\<lambda>t. PAIRING_WINDOW \<le> now - t) (ls_attempts s) =
         filter (\<lambda>t. now - t < PAIRING_WINDOW) (allowed_times ip h)"
proof -
  obtain old where old: "allowed_times ip h = old @ ls_attempts s" "\<forall>t\<in>set old. log_expired h t"
    using m by (auto simp: source_matches_def)
  have "filter (\<lambda>t. now - t < PAIRING_WINDOW) old = []"
    using old(2) expired_not_recent [OF _ now] by (intro filter_False) (simp add: not_less)
  moreover have "sorted (ls_attempts s)"
    using sorted_allowed_times [OF s, of ip] old(1) by (simp add: sorted_append)
  ultimately show ?thesis using old(1) by (simp add: dropWhile_expired)
qed

lemma all_expired_none:
  "all_expired h ip \<Longrightarrow> \<forall>e\<in>set h. fst (snd e) \<le> now \<Longrightarrow> filter (\<lambda>t. now - t < PAIRING_WINDOW) (allowed_times ip h) = []"
  using expired_not_recent [of h _ now] by (intro filter_False) (auto simp: all_expired_def not_less)

lemma all_expired_snoc: "all_expired h ip \<Longrightarrow> ip' \<noteq> ip \<Longrightarrow> all_expired (h @ [(ip', e)]) ip"
  by (cases e) (simp add: all_expired_def)

lemma source_matches_other:
  "source_matches h ip s \<Longrightarrow> ip' \<noteq> ip \<Longrightarrow> source_matches (h @ [(ip', e)]) ip s"
  by (cases e) (fastforce simp: source_matches_def all_expired_def)

lemma source_attempt_matches:
  assumes m: "source_matches h ip s" and s: "sorted (map (fst \<circ> snd) h)"
    and now: "\<forall>e\<in>set h. fst (snd e) \<le> now"
    and ok: "ok = (length (filter (\<lambda>t. now - t < PAIRING_WINDOW) (allowed_times ip h))
                     < ATTEMPTS_PER_WINDOW)"
  shows "fst (source_attempt now s) = (if ok then Allowed else Refused (\<not> last_refused ip h))"
    and "source_matches (h @ [(ip, now, ok)]) ip (snd (source_attempt now s))"
proof -
  note rec = recent_attempts [OF m s now]
  let ?expired = "takeWhile (\<lambda>t. PAIRING_WINDOW \<le> now - t) (ls_attempts s)"
  let ?recent = "dropWhile (\<lambda>t. PAIRING_WINDOW \<le> now - t) (ls_attempts s)"
  have rep: "ls_refused_reported s = last_refused ip h" if "\<not> ok"
    using m that all_expired_none [OF _ now, of ip] by (auto simp: source_matches_def ok ATTEMPTS_PER_WINDOW_def)
  then show "fst (source_attempt now s) = (if ok then Allowed else Refused (\<not> last_refused ip h))"
    by (auto simp: source_attempt_def Let_def rec ok)
  obtain old where old: "allowed_times ip h = old @ ls_attempts s" "\<forall>t\<in>set old. log_expired h t"
    using m by (auto simp: source_matches_def)
  have cut: "allowed_times ip h = (old @ ?expired) @ ?recent" using old(1) by simp
  have exp: "\<forall>t\<in>set (old @ ?expired). log_expired (h @ [(ip, now, ok)]) t"
    using old(2) by (auto dest: set_takeWhileD)
  have att: "ls_attempts (snd (source_attempt now s)) = ?recent @ (if ok then [now] else [])"
    by (simp add: source_attempt_def Let_def rec ok)
  have rep': "ls_refused_reported (snd (source_attempt now s)) = (\<not> ok)"
    by (simp add: source_attempt_def Let_def rec ok)
  show "source_matches (h @ [(ip, now, ok)]) ip (snd (source_attempt now s))"
    unfolding source_matches_def
  proof (intro conjI exI [of _ "old @ ?expired"])
    show "allowed_times ip (h @ [(ip, now, ok)]) =
          (old @ ?expired) @ ls_attempts (snd (source_attempt now s))"
      unfolding att by (simp add: cut del: takeWhile_dropWhile_id)
  qed (use exp rep' in auto)
qed

lemma fresh_source_matches:
  "all_expired h ip \<Longrightarrow> source_matches h ip \<lparr>ls_attempts = [], ls_refused_reported = False, ls_last_seen = now\<rparr>"
  by (simp add: source_matches_def all_expired_def)

text \<open>The sources that room is made of have nothing left in the window, and so the full table has room.\<close>

definition live_source :: "instant \<Rightarrow> limit_source \<Rightarrow> bool" where
  "live_source now s \<longleftrightarrow> ls_attempts s \<noteq> [] \<and> now - last (ls_attempts s) < PAIRING_WINDOW"

lemma dead_source:
  assumes "source_matches h ip s" "sorted (map (fst \<circ> snd) h)" "\<not> live_source now s" "ip' \<noteq> ip"
  shows "all_expired (h @ [(ip', now, ok)]) ip"
proof -
  obtain old where old: "allowed_times ip h = old @ ls_attempts s" "\<forall>t\<in>set old. log_expired h t"
    using assms(1) by (auto simp: source_matches_def)
  have "PAIRING_WINDOW \<le> now - t" if t: "t \<in> set (ls_attempts s)" for t
  proof -
    have "sorted (ls_attempts s)"
      using sorted_allowed_times [OF assms(2), of ip] old(1) by (simp add: sorted_append)
    then have "t \<le> last (ls_attempts s)"
      using t by (cases "ls_attempts s" rule: rev_cases) (auto simp: sorted_append)
    moreover have "PAIRING_WINDOW \<le> now - last (ls_attempts s)"
      using assms(3) t by (auto simp: live_source_def)
    ultimately show ?thesis by linarith
  qed
  then show ?thesis using old assms(4) by (auto simp: all_expired_def)
qed

lemma live_source_recent:
  assumes "source_matches h ip s" "live_source now s"
  shows "ip \<in> recent_hosts now h"
proof -
  have "last (ls_attempts s) \<in> set (allowed_times ip h)"
    using assms by (auto simp: source_matches_def live_source_def)
  then show ?thesis
    using assms(2) allowed_times_log [of "last (ls_attempts s)" ip h] by (force simp: recent_hosts_def live_source_def)
qed

lemma room_made:
  assumes rel: "limiter_rel sources h" and en: "orderly_attempt (addr, now) h"
    and new: "map_of sources (canonical addr) = None"
  shows "pairing_make_room now sources = hm_retain (\<lambda>_ s. live_source now s) sources"
proof -
  let ?kept = "hm_retain (\<lambda>_ s. live_source now s) sources"
  have wf: "hm_wf sources" using rel by (simp add: limiter_rel_def)
  have "fst ` set ?kept \<subseteq> recent_hosts now h - {canonical addr}"
  proof
    fix ip assume "ip \<in> fst ` set ?kept"
    then obtain s where "(ip, s) \<in> set sources" and live: "live_source now s" by (auto simp: hm_retain_def)
    then have s: "map_of sources ip = Some s" using wf by simp
    then have "source_matches h ip s" using rel by (auto simp: limiter_rel_def dest: spec [of _ ip])
    then show "ip \<in> recent_hosts now h - {canonical addr}" using live_source_recent live s new by auto
  qed
  then have "card (fst ` set ?kept) \<le> card (recent_hosts now h - {canonical addr})"
    by (intro card_mono) (auto simp: recent_hosts_def)
  moreover have "card (fst ` set ?kept) = length ?kept"
    using hm_retain_wf [OF wf] by (metis distinct_card length_map list.set_map)
  moreover have "card (insert (canonical addr) (recent_hosts now h)) = Suc (card (recent_hosts now h - {canonical addr}))"
    by (rule card.insert_remove) (simp add: recent_hosts_def)
  ultimately have "length ?kept < PAIRING_MAX_SOURCES" using en by (simp add: orderly_attempt_def)
  then show ?thesis by (simp add: pairing_make_room_def Let_def flip: live_source_def)
qed

text \<open>The table entry used by a call, and the call in terms of it.\<close>

definition source_for :: "PairingLimiter \<Rightarrow> IpAddr \<Rightarrow> instant \<Rightarrow> limit_source" where
  "source_for sources ip now = (case map_of sources ip of
       Some s \<Rightarrow> s
     | None \<Rightarrow> \<lparr>ls_attempts = [], ls_refused_reported = False, ls_last_seen = now\<rparr>)"

definition room_for :: "IpAddr \<Rightarrow> instant \<Rightarrow> PairingLimiter \<Rightarrow> PairingLimiter" where
  "room_for ip now sources =
     (if \<not> hm_contains sources ip \<and> PAIRING_MAX_SOURCES \<le> length sources then pairing_make_room now sources else sources)"

lemma pairing_check_parts:
  "pairing_check (addr, now) sources =
     (let r = source_attempt now (source_for (room_for (canonical addr) now sources) (canonical addr) now)
      in (fst r, AList.update (canonical addr) (snd r) (room_for (canonical addr) now sources)))"
  by (simp add: pairing_check_def Let_def split_beta source_for_def room_for_def)

lemma room_for_same:
  assumes "limiter_rel sources h" "orderly_attempt (addr, now) h"
  shows "hm_wf (room_for (canonical addr) now sources)"
    "source_for (room_for (canonical addr) now sources) (canonical addr) now = source_for sources (canonical addr) now"
    "ip \<noteq> canonical addr \<Longrightarrow> (case map_of (room_for (canonical addr) now sources) ip of
        Some s \<Rightarrow> source_matches (h @ [(canonical addr, now, ok)]) ip s
      | None \<Rightarrow> all_expired (h @ [(canonical addr, now, ok)]) ip)"
proof -
  have wf: "hm_wf sources" and sorted: "sorted (map (fst \<circ> snd) h)"
    and ips: "case map_of sources ip of Some s \<Rightarrow> source_matches h ip s | None \<Rightarrow> all_expired h ip" for ip
    using assms(1) by (auto simp: limiter_rel_def)
  have room: "room_for (canonical addr) now sources = sources \<or>
      room_for (canonical addr) now sources = hm_retain (\<lambda>_ s. live_source now s) sources \<and> map_of sources (canonical addr) = None"
    using room_made [OF assms] by (simp add: room_for_def)
  then show "hm_wf (room_for (canonical addr) now sources)"
    "source_for (room_for (canonical addr) now sources) (canonical addr) now = source_for sources (canonical addr) now"
    by (elim disjE conjE; simp add: source_for_def map_of_retain wf)+
  assume ip: "ip \<noteq> canonical addr"
  show "case map_of (room_for (canonical addr) now sources) ip of
        Some s \<Rightarrow> source_matches (h @ [(canonical addr, now, ok)]) ip s
      | None \<Rightarrow> all_expired (h @ [(canonical addr, now, ok)]) ip"
  proof (cases "map_of sources ip")
    case None
    then have "all_expired (h @ [(canonical addr, now, ok)]) ip" using ips [of ip] ip by (simp add: all_expired_snoc)
    then show ?thesis using room by (elim disjE conjE) (simp_all add: None wf map_of_retain)
  next
    case (Some s)
    then have s: "source_matches h ip s" using ips [of ip] by simp
    show ?thesis
      using room source_matches_other [OF s] dead_source [OF s sorted] ip
      by (elim disjE conjE) (auto simp: Some wf map_of_retain)
  qed
qed

lemma source_for_matches:
  "limiter_rel sources h \<Longrightarrow> source_matches h ip (source_for sources ip now)"
  by (cases "map_of sources ip")
    (use fresh_source_matches [of h ip now] in \<open>auto simp: source_for_def limiter_rel_def dest!: spec [of _ ip]\<close>)

interpretation limiter: io_refinement pairing_check window_check orderly_attempt limiter_rel
proof unfold_locales
  fix sources h and i :: "IpAddr \<times> instant"
  assume rel: "limiter_rel sources h" and en: "orderly_attempt i h"
  obtain addr now where i: "i = (addr, now)" by (cases i)
  let ?ip = "canonical addr" and ?s = "source_for sources (canonical addr) now"
  define ok where "ok = (length (filter (\<lambda>t. now - t < PAIRING_WINDOW) (allowed_times ?ip h))
                           < ATTEMPTS_PER_WINDOW)"
  have sorted: "sorted (map (fst \<circ> snd) h)" and past: "\<forall>e\<in>set h. fst (snd e) \<le> now"
    using rel en by (auto simp: limiter_rel_def orderly_attempt_def i)
  note step = source_attempt_matches [OF source_for_matches [OF rel] sorted past ok_def]
  note room = room_for_same [OF rel en [unfolded i]]
  have spec: "window_check i h =
      (if ok then Allowed else Refused (\<not> last_refused ?ip h), h @ [(?ip, now, ok)])"
    by (simp add: window_check_def i Let_def ok_def)
  show "fst (pairing_check i sources) = fst (window_check i h)"
    unfolding spec using step(1) by (simp add: i pairing_check_parts room(2) Let_def)
  have log: "snd (window_check i h) = h @ [(?ip, now, ok)]" by (simp add: spec)
  show "limiter_rel (snd (pairing_check i sources)) (snd (window_check i h))"
    unfolding log limiter_rel_def
  proof (intro conjI allI)
    fix ip
    show "case map_of (snd (pairing_check i sources)) ip of
        Some s \<Rightarrow> source_matches (h @ [(?ip, now, ok)]) ip s
      | None \<Rightarrow> all_expired (h @ [(?ip, now, ok)]) ip"
      using step(2) room(3) [of ip ok] by (cases "ip = ?ip") (simp_all add: i pairing_check_parts room(2) Let_def update_conv')
  qed (use room(1) sorted past in \<open>auto simp: i pairing_check_parts Let_def distinct_update sorted_append\<close>)
qed

subsection \<open>The table stays bounded\<close>

definition pairing_table_ok :: "PairingLimiter \<Rightarrow> bool" where
  "pairing_table_ok sources \<longleftrightarrow> hm_wf sources \<and> length sources \<le> PAIRING_MAX_SOURCES"

lemma pairing_make_room_ok:
  assumes "pairing_table_ok sources"
  shows "hm_wf (pairing_make_room now sources)" "length (pairing_make_room now sources) < PAIRING_MAX_SOURCES"
proof -
  let ?keep = "\<lambda>_ s. ls_attempts s \<noteq> [] \<and> now - last (ls_attempts s) < PAIRING_WINDOW"
  let ?kept = "hm_retain ?keep sources"
  have wf: "hm_wf ?kept" and le: "length ?kept \<le> PAIRING_MAX_SOURCES"
    using assms length_retain [of ?keep sources] by (auto simp: pairing_table_ok_def)
  show "hm_wf (pairing_make_room now sources)"
    using wf by (auto simp: pairing_make_room_def Let_def distinct_delete split: option.split)
  show "length (pairing_make_room now sources) < PAIRING_MAX_SOURCES"
  proof (cases "PAIRING_MAX_SOURCES \<le> length ?kept")
    case True
    then have "?kept \<noteq> []" by (auto simp: PAIRING_MAX_SOURCES_def)
    then obtain old s where m: "min_by_key (\<lambda>(_, s). ls_last_seen s) ?kept = Some (old, s)"
      by (cases "min_by_key (\<lambda>(_, s). ls_last_seen s) ?kept") auto
    then have "map_of ?kept old = Some s" using min_by_key_Some [OF m] wf by simp
    then have "length (AList.delete old ?kept) = length ?kept - 1"
      using hash_map.count_remove [OF wf, of old] by simp
    then show ?thesis using True le m
      by (simp add: pairing_make_room_def Let_def PAIRING_MAX_SOURCES_def)
  qed (simp add: pairing_make_room_def Let_def)
qed

lemma pairing_check_table:
  assumes "pairing_table_ok sources" shows "pairing_table_ok (snd (pairing_check r sources))"
proof -
  obtain addr now where r: "r = (addr, now)" by (cases r)
  define s1 where "s1 = (if \<not> hm_contains sources (canonical addr) \<and> PAIRING_MAX_SOURCES \<le> length sources
                         then pairing_make_room now sources else sources)"
  have s1: "hm_wf s1" "length s1 \<le> PAIRING_MAX_SOURCES"
    "map_of s1 (canonical addr) = None \<Longrightarrow> length s1 < PAIRING_MAX_SOURCES"
    using assms pairing_make_room_ok [OF assms, of now]
    by (auto simp: s1_def pairing_table_ok_def split: if_splits)
  have "\<exists>s'. snd (pairing_check r sources) = AList.update (canonical addr) s' s1"
    by (auto simp: pairing_check_def Let_def split_beta r s1_def)
  then show ?thesis
    using s1 hash_map.insert_with_room [OF s1] by (auto simp: pairing_table_ok_def distinct_update)
qed

subsection \<open>What the limiter promises\<close>

lemma window_check_log:
  "\<exists>ok. snd (window_check (addr, now) h) = h @ [(canonical addr, now, ok)]
      \<and> (ok \<longleftrightarrow> fst (window_check (addr, now) h) = Allowed)"
  by (auto simp: window_check_def Let_def)

lemma window_check_eval:
  "window_check (addr, now) h =
     (if length (filter (\<lambda>t. now - t < PAIRING_WINDOW) (allowed_times (canonical addr) h))
           < ATTEMPTS_PER_WINDOW
      then (Allowed, h @ [(canonical addr, now, True)])
      else (Refused (\<not> last_refused (canonical addr) h), h @ [(canonical addr, now, False)]))"
  by (simp add: window_check_def Let_def)

text \<open>The hosts of a window among the requests up to the \<open>n\<close>-th.\<close>

definition hosts_in_window :: "(IpAddr \<times> instant) list \<Rightarrow> nat \<Rightarrow> IpAddr set" where
  "hosts_in_window reqs n =
     (\<lambda>r. canonical (fst r)) ` set (filter (\<lambda>r. snd (reqs ! n) - snd r < PAIRING_WINDOW) (take (Suc n) reqs))"

lemma orderly_run:
  assumes "sorted (map snd reqs)" "\<forall>e\<in>set h. \<forall>r\<in>set reqs. fst (snd e) \<le> snd r"
    and "\<forall>n<length reqs. card (hosts_in_window reqs n \<union> recent_hosts (snd (reqs ! n)) h) \<le> PAIRING_MAX_SOURCES"
  shows "run_enabled window_check orderly_attempt reqs h"
  using assms
proof (induction reqs arbitrary: h)
  case (Cons r reqs)
  obtain addr now where r: "r = (addr, now)" by (cases r)
  obtain ok where h': "snd (window_check r h) = h @ [(canonical addr, now, ok)]"
    using window_check_log r by blast
  have "hosts_in_window (r # reqs) 0 = {canonical addr}"
    by (auto simp: hosts_in_window_def r PAIRING_WINDOW_def from_secs_def)
  then have "orderly_attempt r h"
    using Cons.prems(2) Cons.prems(3) [rule_format, of 0] by (auto simp: orderly_attempt_def r)
  moreover have "hosts_in_window reqs n \<union> recent_hosts (snd (reqs ! n)) (h @ [(canonical addr, now, ok)]) =
      hosts_in_window (r # reqs) (Suc n) \<union> recent_hosts (snd ((r # reqs) ! Suc n)) h" for n
    by (auto simp: hosts_in_window_def recent_hosts_def r)
  then have "run_enabled window_check orderly_attempt reqs (snd (window_check r h))"
    unfolding h' using Cons.prems by (intro Cons.IH) (auto simp: r)
  ultimately show ?case by simp
qed simp

lemma limiter_exact_helper:
  assumes "sorted (map snd reqs)" and "\<forall>n<length reqs. card (hosts_in_window reqs n) \<le> 256"
  shows "fst (io_run pairing_check reqs []) = fst (io_run window_check reqs [])"
proof (rule limiter.same_answers)
  show "limiter_rel [] []" by (simp add: limiter_rel_def all_expired_def allowed_times_def log_of_def)
  show "run_enabled window_check orderly_attempt reqs []"
    using assms by (intro orderly_run) (simp_all add: PAIRING_MAX_SOURCES_def recent_hosts_def)
qed

lemma few_in_window:
  assumes "card ((\<lambda>r. canonical (fst r)) ` set reqs) \<le> k" "n < length reqs"
  shows "card (hosts_in_window reqs n) \<le> k"
proof -
  have "card (hosts_in_window reqs n) \<le> card ((\<lambda>r. canonical (fst r)) ` set reqs)"
    by (intro card_mono) (auto simp: hosts_in_window_def dest: in_set_takeD)
  then show ?thesis using assms(1) by simp
qed

subsection \<open>With more hosts than the table holds\<close>

text \<open>
  Whatever is evicted, the times kept of a host are the latest of its allowed attempts, and so a refusal is
  always owed to five attempts the limiter allowed itself.
\<close>

definition answer_log :: "(IpAddr \<times> instant) list \<Rightarrow> Decision list \<Rightarrow> attempt_log" where
  "answer_log reqs ds = map (\<lambda>((addr, now), d). (canonical addr, now, d = Allowed)) (zip reqs ds)"

definition keeps_own :: "PairingLimiter \<Rightarrow> attempt_log \<Rightarrow> bool" where
  "keeps_own sources h \<longleftrightarrow> hm_wf sources \<and>
     (\<forall>ip s. map_of sources ip = Some s \<longrightarrow> (\<exists>old. allowed_times ip h = old @ ls_attempts s))"

lemma make_room_keeps:
  assumes "hm_wf sources" shows "hm_wf (pairing_make_room now sources)"
    "map_of (pairing_make_room now sources) ip = Some s \<Longrightarrow> map_of sources ip = Some s"
proof -
  let ?kept = "hm_retain (\<lambda>_ s. ls_attempts s \<noteq> [] \<and> now - last (ls_attempts s) < PAIRING_WINDOW) sources"
  have kept: "hm_wf ?kept" "map_of ?kept ip = Some s \<Longrightarrow> map_of sources ip = Some s"
    using assms by (auto simp: map_of_retain split: option.splits if_splits)
  then show "hm_wf (pairing_make_room now sources)"
    by (auto simp: pairing_make_room_def Let_def distinct_delete split: option.split)
  show "map_of (pairing_make_room now sources) ip = Some s \<Longrightarrow> map_of sources ip = Some s"
    using kept by (auto simp: pairing_make_room_def Let_def delete_conv' split: if_splits option.splits)
qed

lemma own_source:
  assumes "keeps_own sources h"
  shows "hm_wf (room_for ip now sources)"
    "\<exists>old. allowed_times ip' h = old @ ls_attempts (source_for (room_for ip now sources) ip' now)"
    "map_of (room_for ip now sources) ip' = Some s \<Longrightarrow> \<exists>old. allowed_times ip' h = old @ ls_attempts s"
proof -
  have kept: "map_of (room_for ip now sources) ip' = Some s \<Longrightarrow> \<exists>old. allowed_times ip' h = old @ ls_attempts s" for s
    using assms make_room_keeps(2) [of sources now ip' s] by (auto simp: room_for_def keeps_own_def split: if_splits)
  then show "map_of (room_for ip now sources) ip' = Some s \<Longrightarrow> \<exists>old. allowed_times ip' h = old @ ls_attempts s" .
  show "\<exists>old. allowed_times ip' h = old @ ls_attempts (source_for (room_for ip now sources) ip' now)"
    using kept by (auto simp: source_for_def split: option.splits)
  show "hm_wf (room_for ip now sources)"
    using assms make_room_keeps(1) by (simp add: room_for_def keeps_own_def)
qed

lemma own_step:
  assumes own: "keeps_own sources h" and sorted: "sorted (map (fst \<circ> snd) h)" and now: "\<forall>e\<in>set h. fst (snd e) \<le> now"
  shows "fst (pairing_check (addr, now) sources) \<noteq> Allowed \<Longrightarrow>
      ATTEMPTS_PER_WINDOW \<le> length (filter (\<lambda>t. now - t < PAIRING_WINDOW) (allowed_times (canonical addr) h))"
    and "keeps_own (snd (pairing_check (addr, now) sources))
      (h @ [(canonical addr, now, fst (pairing_check (addr, now) sources) = Allowed)])"
proof -
  let ?ip = "canonical addr"
  let ?t = "room_for ?ip now sources"
  let ?s = "source_for ?t ?ip now"
  let ?recent = "dropWhile (\<lambda>t. PAIRING_WINDOW \<le> now - t) (ls_attempts ?s)"
  obtain old where old: "allowed_times ?ip h = old @ ls_attempts ?s" using own_source(2) [OF own] by blast
  have "sorted (ls_attempts ?s)" using sorted_allowed_times [OF sorted, of ?ip] old by (simp add: sorted_append)
  then have "length ?recent \<le> length (filter (\<lambda>t. now - t < PAIRING_WINDOW) (allowed_times ?ip h))"
    by (simp add: dropWhile_expired old)
  then show "fst (pairing_check (addr, now) sources) \<noteq> Allowed \<Longrightarrow>
      ATTEMPTS_PER_WINDOW \<le> length (filter (\<lambda>t. now - t < PAIRING_WINDOW) (allowed_times ?ip h))"
    by (auto simp: pairing_check_parts source_attempt_def Let_def split: if_splits)
  have cut: "allowed_times ?ip h = (old @ takeWhile (\<lambda>t. PAIRING_WINDOW \<le> now - t) (ls_attempts ?s)) @ ?recent"
    by (simp add: old)
  show "keeps_own (snd (pairing_check (addr, now) sources))
      (h @ [(?ip, now, fst (pairing_check (addr, now) sources) = Allowed)])"
    unfolding keeps_own_def
  proof (intro conjI allI impI)
    show "hm_wf (snd (pairing_check (addr, now) sources))"
      using own_source(1) [OF own] by (simp add: pairing_check_parts Let_def distinct_update)
    fix ip s assume s: "map_of (snd (pairing_check (addr, now) sources)) ip = Some s"
    show "\<exists>old. allowed_times ip (h @ [(?ip, now, fst (pairing_check (addr, now) sources) = Allowed)]) = old @ ls_attempts s"
    proof (cases "ip = ?ip")
      case True
      then have "ls_attempts s = ?recent @ (if fst (pairing_check (addr, now) sources) = Allowed then [now] else [])"
        using s by (auto simp: pairing_check_parts source_attempt_def Let_def update_conv')
      then show ?thesis
        by (intro exI [of _ "old @ takeWhile (\<lambda>t. PAIRING_WINDOW \<le> now - t) (ls_attempts ?s)"])
          (simp add: True cut del: takeWhile_dropWhile_id)
    next
      case False
      then have "map_of ?t ip = Some s" using s by (simp add: pairing_check_parts Let_def update_conv')
      then show ?thesis using own_source(3) [OF own] False by simp
    qed
  qed
qed

lemma own_run:
  assumes "keeps_own sources h" "sorted (map (fst \<circ> snd) h)" "sorted (map snd reqs)"
    and "\<forall>e\<in>set h. \<forall>r\<in>set reqs. fst (snd e) \<le> snd r" "n < length reqs"
    and "fst (io_run pairing_check reqs sources) ! n \<noteq> Allowed"
  shows "ATTEMPTS_PER_WINDOW \<le> length (filter (\<lambda>t. snd (reqs ! n) - t < PAIRING_WINDOW)
      (allowed_times (canonical (fst (reqs ! n)))
        (h @ answer_log (take n reqs) (take n (fst (io_run pairing_check reqs sources))))))"
  using assms
proof (induction reqs arbitrary: sources h n)
  case (Cons r reqs)
  obtain addr now where r: "r = (addr, now)" by (cases r)
  have past: "\<forall>e\<in>set h. fst (snd e) \<le> now" using Cons.prems(4) by (auto simp: r)
  note own = own_step [OF Cons.prems(1,2) past, of addr]
  let ?h = "h @ [(canonical addr, now, fst (pairing_check r sources) = Allowed)]"
  show ?case
  proof (cases n)
    case 0
    then show ?thesis using own(1) Cons.prems(6) by (simp add: r io_run_Cons answer_log_def)
  next
    case (Suc m)
    have "sorted (map (fst \<circ> snd) ?h)" "\<forall>e\<in>set ?h. \<forall>r\<in>set reqs. fst (snd e) \<le> snd r"
      using Cons.prems(2-4) past by (auto simp: sorted_append r comp_def)
    note ih = Cons.IH [OF own(2) [folded r] this(1) _ this(2), of m]
    show ?thesis
      using ih Cons.prems(3,5,6) by (simp add: Suc r io_run_Cons answer_log_def)
  qed
qed simp

lemma table_run: "pairing_table_ok sources \<Longrightarrow> pairing_table_ok (snd (io_run pairing_check reqs sources))"
  by (induction reqs arbitrary: sources) (simp_all add: io_run_Cons pairing_check_table)

text \<open>C27: Take any connection attempts in the order of time. While no more than 256 hosts make attempts within
  60 seconds, the limiter gives exactly the answers of a limiter that remembers every attempt ever made, however
  many hosts there are in all: an attempt is allowed when fewer than five were allowed from the same host (an
  IPv4-mapped IPv6 address counts as its IPv4 host) in the last 60 seconds, refused otherwise, and a refusal is
  flagged as the first exactly when the host's previous attempt was allowed. With more hosts than that, when the
  least recently seen are forgotten, the table still holds at most 256 entries, and every refusal is justified:
  five attempts of that host that the limiter allowed lie in the last 60 seconds.\<close>

theorem pairing_limiter_exact:
  assumes "sorted (map snd reqs)"
  shows "((\<forall>n<length reqs. card (hosts_in_window reqs n) \<le> 256) \<longrightarrow>
       fst (io_run pairing_check reqs []) = fst (io_run window_check reqs []))
    \<and> length (snd (io_run pairing_check reqs [])) \<le> 256
    \<and> (\<forall>n<length reqs. fst (io_run pairing_check reqs []) ! n \<noteq> Allowed \<longrightarrow>
         5 \<le> length (filter (\<lambda>t. snd (reqs ! n) - t < from_secs 60)
           (allowed_times (canonical (fst (reqs ! n)))
             (answer_log (take n reqs) (take n (fst (io_run pairing_check reqs [])))))))"
  using limiter_exact_helper [OF assms] table_run [of "[]" reqs] own_run [of "[]" "[]" reqs] assms
  by (simp add: pairing_table_ok_def keeps_own_def PAIRING_MAX_SOURCES_def ATTEMPTS_PER_WINDOW_def PAIRING_WINDOW_def)

lemma few_hosts:
  assumes "length reqs \<le> k" "n < length reqs" shows "card (hosts_in_window reqs n) \<le> k"
proof (rule few_in_window [OF _ assms(2)])
  have "card ((\<lambda>r. canonical (fst r)) ` set reqs) = card (set (map (\<lambda>r. canonical (fst r)) reqs))" by simp
  also have "\<dots> \<le> length reqs" by (metis card_length length_map)
  finally show "card ((\<lambda>r. canonical (fst r)) ` set reqs) \<le> k" using assms(1) by simp
qed

theorem pairing_limiter_exact_witness:
  "fst (io_run pairing_check
      [(V4 1, 0), (V6 0xffff00000001, 0), (V4 1, 1), (V4 1, 2), (V4 1, 3), (V4 1, 4), (V4 1, 5),
       (V4 1, 60000000000)] []) =
   [Allowed, Allowed, Allowed, Allowed, Allowed, Refused True, Refused False, Allowed]"
proof -
  let ?r = "[(V4 1, 0), (V6 0xffff00000001, 0), (V4 1, 1), (V4 1, 2), (V4 1, 3), (V4 1, 4), (V4 1, 5),
       (V4 1, 60000000000)] :: (IpAddr \<times> instant) list"
  have "fst (io_run pairing_check ?r []) = fst (io_run window_check ?r [])"
    by (rule pairing_limiter_exact [THEN conjunct1, rule_format]) (simp, rule few_hosts, simp, simp)
  also have "\<dots> = [Allowed, Allowed, Allowed, Allowed, Allowed, Refused True, Refused False, Allowed]"
    by (simp add: window_check_eval canonical_def to_ipv4_mapped_def PAIRING_WINDOW_def
        from_secs_def ATTEMPTS_PER_WINDOW_def allowed_times_def log_of_def last_refused_def)
  finally show ?thesis .
qed

text \<open>In the log of every attempt, no host is allowed more than five times in any window.\<close>

definition log_within_rate :: "attempt_log \<Rightarrow> bool" where
  "log_within_rate h \<longleftrightarrow> sorted (map (fst \<circ> snd) h) \<and>
     (\<forall>ip t. length (filter (\<lambda>x. t \<le> x \<and> x < t + PAIRING_WINDOW) (allowed_times ip h))
               \<le> ATTEMPTS_PER_WINDOW)"

lemma window_check_within_rate:
  assumes "log_within_rate h" "\<forall>e\<in>set h. fst (snd e) \<le> snd r"
  shows "log_within_rate (snd (window_check r h))"
proof -
  obtain addr now where r: "r = (addr, now)" by (cases r)
  let ?ip = "canonical addr" and ?in = "\<lambda>t x. t \<le> x \<and> x < t + PAIRING_WINDOW"
  let ?ok = "length (filter (\<lambda>x. now - x < PAIRING_WINDOW) (allowed_times ?ip h)) < ATTEMPTS_PER_WINDOW"
  have h': "snd (window_check r h) = h @ [(?ip, now, ?ok)]"
    by (simp add: window_check_def r Let_def)
  have fits: "length (filter (?in t) (allowed_times ?ip h)) < ATTEMPTS_PER_WINDOW" if "?ok" "?in t now" for t
  proof -
    have "length (filter (?in t) (allowed_times ?ip h)) \<le>
          length (filter (\<lambda>x. now - x < PAIRING_WINDOW) (allowed_times ?ip h))"
    proof (rule length_filter_mono)
      fix x assume "x \<in> set (allowed_times ?ip h)" "?in t x"
      then show "now - x < PAIRING_WINDOW" using that(2) by linarith
    qed
    then show ?thesis using that(1) by simp
  qed
  show ?thesis unfolding log_within_rate_def h'
  proof (intro conjI allI)
    show "sorted (map (fst \<circ> snd) (h @ [(?ip, now, ?ok)]))"
      using assms by (auto simp: log_within_rate_def sorted_append r)
    fix ip t
    show "length (filter (?in t) (allowed_times ip (h @ [(?ip, now, ?ok)]))) \<le> ATTEMPTS_PER_WINDOW"
      using assms(1) fits [of t] by (auto simp: log_within_rate_def Suc_le_eq)
  qed
qed

lemma window_run_within_rate:
  assumes "log_within_rate h" "sorted (map snd reqs)" "\<forall>e\<in>set h. \<forall>r\<in>set reqs. fst (snd e) \<le> snd r"
  shows "log_within_rate (snd (io_run window_check reqs h))"
  using assms
proof (induction reqs arbitrary: h)
  case (Cons r reqs)
  obtain addr now ok where h': "snd (window_check r h) = h @ [(canonical addr, now, ok)]" "r = (addr, now)"
    using window_check_log by (metis surj_pair)
  have "log_within_rate (snd (window_check r h))"
    using Cons.prems by (intro window_check_within_rate) auto
  then show ?case using Cons.prems
    by (simp only: io_run_Cons, intro Cons.IH) (auto simp: h'(1), auto simp: h'(2))
qed simp

text \<open>The log of a run is the list of its requests with their decisions.\<close>

lemma window_run_log:
  "snd (io_run window_check reqs h) =
     h @ map (\<lambda>((addr, now), d). (canonical addr, now, d = Allowed)) (zip reqs (fst (io_run window_check reqs h)))"
proof (induction reqs arbitrary: h)
  case (Cons r reqs)
  obtain addr now where r: "r = (addr, now)" by (cases r)
  obtain ok where ok: "snd (window_check r h) = h @ [(canonical addr, now, ok)]"
    "ok \<longleftrightarrow> fst (window_check r h) = Allowed"
    using window_check_log [of addr now h] r by blast
  show ?case unfolding io_run_Cons Cons by (simp add: ok(1)) (simp add: ok(2) r)
qed simp

lemma allowed_times_run:
  "allowed_times ip (map (\<lambda>((addr, now), d). (canonical addr, now, d = Allowed)) xs) =
     map (\<lambda>((addr, now), d). now) (filter (\<lambda>((addr, now), d). canonical addr = ip \<and> d = Allowed) xs)"
  by (induction xs) (auto simp: allowed_times_def log_of_def)

text \<open>While at most 256 hosts make attempts within 60 seconds, no host is allowed more than five pairing
  attempts in any period of 60 seconds.\<close>

theorem pairing_rate_bounded:
  assumes "sorted (map snd reqs)" and "\<forall>n<length reqs. card (hosts_in_window reqs n) \<le> 256"
  shows "length (filter (\<lambda>((addr, now), d). canonical addr = canonical host \<and> d = Allowed
                            \<and> t \<le> now \<and> now < t + PAIRING_WINDOW)
                   (zip reqs (fst (io_run pairing_check reqs [])))) \<le> ATTEMPTS_PER_WINDOW"
proof -
  let ?z = "zip reqs (fst (io_run window_check reqs []))"
  have "fst (io_run pairing_check reqs []) = fst (io_run window_check reqs [])"
    using assms by (rule limiter_exact_helper)
  moreover have "log_within_rate (snd (io_run window_check reqs []))"
    using assms by (intro window_run_within_rate)
      (simp_all add: log_within_rate_def allowed_times_def log_of_def)
  then have "length (filter (\<lambda>x. t \<le> x \<and> x < t + PAIRING_WINDOW)
      (allowed_times (canonical host) (snd (io_run window_check reqs [])))) \<le> ATTEMPTS_PER_WINDOW"
    by (simp add: log_within_rate_def)
  moreover have "allowed_times (canonical host) (snd (io_run window_check reqs [])) =
      map (\<lambda>((addr, now), d). now)
        (filter (\<lambda>((addr, now), d). canonical addr = canonical host \<and> d = Allowed) ?z)"
    by (simp only: window_run_log append_Nil allowed_times_run)
  ultimately show ?thesis
    by (simp add: filter_map comp_def case_prod_unfold conj_ac)
qed

theorem pairing_rate_bounded_witness:
  "length (filter (\<lambda>((addr, now), d). canonical addr = canonical (V4 7) \<and> d = Allowed
                      \<and> 1 \<le> now \<and> now < 1 + PAIRING_WINDOW)
             (zip [(V4 7, 1), (V4 7, 2)] (fst (io_run pairing_check [(V4 7, 1), (V4 7, 2)] []))))
     \<le> ATTEMPTS_PER_WINDOW"
  by (rule pairing_rate_bounded) (simp, intro allI impI few_hosts, simp_all)

section \<open>Handshakes that never finish\<close>

definition BEFORE_NOTICE :: nat where
  "BEFORE_NOTICE = 3"

definition REFUSED_WINDOW :: duration where
  "REFUSED_WINDOW = from_secs 600"

definition REFUSED_MAX_SOURCES :: nat where
  "REFUSED_MAX_SOURCES = 64"

text \<open>Per address, the time of the first failure of the run and the failures counted since.\<close>

type_synonym RefusedHandshakes = "(IpAddr, instant \<times> nat) hmap"

definition refused_record :: "IpAddr \<times> instant \<Rightarrow> RefusedHandshakes \<Rightarrow> bool \<times> RefusedHandshakes" where
  "refused_record req sources =
     (let (addr, now) = req;
          ip = canonical addr;
          kept = hm_retain (\<lambda>_ (at, _). now - at < REFUSED_WINDOW) sources
      in if \<not> hm_contains kept ip \<and> REFUSED_MAX_SOURCES \<le> length kept then (False, kept)
         else (let (at, count) = (case map_of kept ip of Some e \<Rightarrow> e | None \<Rightarrow> (now, 0));
                   count' = (count + 1) mod 2 ^ 32
               in (count' = BEFORE_NOTICE, AList.update ip (at, count') kept)))"

definition refused_table_ok :: "RefusedHandshakes \<Rightarrow> bool" where
  "refused_table_ok sources \<longleftrightarrow> hm_wf sources \<and> length sources \<le> REFUSED_MAX_SOURCES"

lemma refused_record_table:
  assumes "refused_table_ok sources" shows "refused_table_ok (snd (refused_record r sources))"
proof -
  obtain addr now where r: "r = (addr, now)" by (cases r)
  let ?keep = "\<lambda>(_::IpAddr) (at, _). now - at < REFUSED_WINDOW"
  let ?kept = "hm_retain ?keep sources"
  have kept: "hm_wf ?kept" "length ?kept \<le> REFUSED_MAX_SOURCES"
    using assms length_retain [of ?keep sources] by (auto simp: refused_table_ok_def)
  show ?thesis
  proof (cases "\<not> hm_contains ?kept (canonical addr) \<and> REFUSED_MAX_SOURCES \<le> length ?kept")
    case True
    then show ?thesis using kept by (simp add: refused_record_def r refused_table_ok_def)
  next
    case False
    then have "length (AList.update (canonical addr) v ?kept) \<le> REFUSED_MAX_SOURCES" for v
      by (intro hash_map.insert_with_room [OF kept]) auto
    then show ?thesis using False kept
      by (auto simp: refused_record_def r refused_table_ok_def Let_def split_beta distinct_update)
  qed
qed

text \<open>A run of failures is reported once, on its third failure, and not again while the run lasts.\<close>

lemma refused_within_run:
  assumes "hm_wf sources" "map_of sources (canonical addr) = Some (at, n)" "now - at < REFUSED_WINDOW"
    and "n + 1 < 2 ^ 32"
  shows "fst (refused_record (addr, now) sources) = (n + 1 = BEFORE_NOTICE)"
    and "map_of (snd (refused_record (addr, now) sources)) (canonical addr) = Some (at, n + 1)"
    and "hm_wf (snd (refused_record (addr, now) sources))"
  using assms by (auto simp: refused_record_def Let_def map_simps distinct_update)

lemma refused_run_starts:
  assumes "hm_wf sources" "length sources < REFUSED_MAX_SOURCES"
    and "\<And>at n. map_of sources (canonical addr) = Some (at, n) \<Longrightarrow> REFUSED_WINDOW \<le> now - at"
  shows "fst (refused_record (addr, now) sources) = False"
    and "map_of (snd (refused_record (addr, now) sources)) (canonical addr) = Some (now, 1)"
proof -
  let ?keep = "\<lambda>(_::IpAddr) (at, _). now - at < REFUSED_WINDOW"
  have none: "map_of (hm_retain ?keep sources) (canonical addr) = None"
  proof (cases "map_of sources (canonical addr)")
    case (Some e)
    then show ?thesis using assms(1) assms(3) [of "fst e" "snd e"] by (auto simp: map_simps split_beta)
  qed (simp add: assms(1) map_simps)
  have "length (hm_retain ?keep sources) < REFUSED_MAX_SOURCES"
    using assms(2) length_retain [of ?keep sources] by linarith
  with none show "fst (refused_record (addr, now) sources) = False"
    and "map_of (snd (refused_record (addr, now) sources)) (canonical addr) = Some (now, 1)"
    by (simp_all add: refused_record_def Let_def BEFORE_NOTICE_def update_conv')
qed

lemma refused_record_eval:
  "refused_record (V4 ip, now) [] = (False, [(V4 ip, now, 1)])"
  "refused_record (V4 ip, now) [(V4 ip, at, n)] =
     (if now - at < REFUSED_WINDOW
      then ((n + 1) mod 2 ^ 32 = BEFORE_NOTICE, [(V4 ip, at, (n + 1) mod 2 ^ 32)])
      else (False, [(V4 ip, now, 1)]))"
  by (auto simp: refused_record_def Let_def canonical_def hm_retain_def REFUSED_MAX_SOURCES_def
      BEFORE_NOTICE_def)

text \<open>The run is dated by its first failure, which later failures do not refresh. A device that keeps
  retrying once a minute, never quiet for anything near ten minutes, starts a new run ten minutes
  after the first failure and is reported a second time.\<close>

theorem refused_reports_again_while_retrying:
  "fst (io_run refused_record (map (\<lambda>k. (V4 ip, from_secs (60 * k))) [0..<13]) []) =
     [False, False, True, False, False, False, False, False, False, False, False, False, True]"
  by (simp add: upt_rec refused_record_eval REFUSED_WINDOW_def BEFORE_NOTICE_def from_secs_def)

section \<open>Reconnecting\<close>

record Backoff =
  bo_attempt :: nat
  bo_base :: duration
  bo_cap :: duration
  bo_fast_attempts :: nat
  bo_slow_interval :: duration

definition backoff_default :: Backoff where
  "backoff_default =
     \<lparr>bo_attempt = 0, bo_base = from_millis 500, bo_cap = from_secs 8, bo_fast_attempts = 10,
      bo_slow_interval = from_secs 30\<rparr>"

definition duration_max :: duration where
  "duration_max = from_secs u64_max + 999999999"

text \<open>\<open>gen_range lo hi\<close> stands for the random number generator's inclusive range, in milliseconds.\<close>

definition next_delay :: "(nat \<Rightarrow> nat \<Rightarrow> nat) \<Rightarrow> Backoff \<Rightarrow> duration \<times> Backoff" where
  "next_delay gen_range b =
     (let b' = b\<lparr>bo_attempt := sat_add32 (bo_attempt b) 1\<rparr>
      in if bo_fast_attempts b' < bo_attempt b' then (bo_slow_interval b', b')
         else (let exp = min (bo_base b' * 2 ^ (min (bo_attempt b' - 1) 16)) duration_max;
                   mx = min exp (bo_cap b');
                   millis = gen_range (mx div 1000000 div 2) (mx div 1000000)
               in (from_millis millis, b')))"

definition in_slow_phase :: "Backoff \<Rightarrow> bool" where
  "in_slow_phase b \<longleftrightarrow> bo_fast_attempts b \<le> bo_attempt b"

definition backoff_reset :: "Backoff \<Rightarrow> Backoff" where
  "backoff_reset b = b\<lparr>bo_attempt := 0\<rparr>"

text \<open>The delay before the \<open>n\<close>-th attempt: half to all of \<open>0.5 s * 2^(n-1)\<close>, at most 8 s, for ten
  attempts, then 30 s.\<close>

definition delay_between :: "nat \<Rightarrow> duration \<Rightarrow> bool" where
  "delay_between n d \<longleftrightarrow>
     (if n \<le> 10 then from_millis (min (500 * 2 ^ (n - 1)) 8000 div 2) \<le> d
                   \<and> d \<le> from_millis (min (500 * 2 ^ (n - 1)) 8000)
      else d = from_secs 30)"

definition next_delays :: "(nat \<Rightarrow> nat \<Rightarrow> nat \<Rightarrow> nat) \<Rightarrow> nat list \<Rightarrow> Backoff \<Rightarrow> duration list \<times> Backoff" where
  "next_delays rng = io_run (\<lambda>k. next_delay (rng k))"

lemma next_delay_attempt:
  "snd (next_delay g b) = b\<lparr>bo_attempt := sat_add32 (bo_attempt b) 1\<rparr>"
  by (simp add: next_delay_def Let_def)

lemma small_power: "k < 10 \<Longrightarrow> (2::nat) ^ k \<le> 512"
  using power_increasing [of k 9 "2::nat"] by simp

lemma next_delay_range:
  assumes "\<And>lo hi. lo \<le> hi \<Longrightarrow> lo \<le> g lo hi \<and> g lo hi \<le> hi"
    and "sat_add32 a 1 = n" "0 < n"
  shows "delay_between n (fst (next_delay g (backoff_default\<lparr>bo_attempt := a\<rparr>)))"
proof (cases "n \<le> 10")
  case True
  let ?m = "min (500 * 2 ^ (n - 1)) 8000 :: nat"
  have "2 ^ (n - 1) \<le> (512::nat)" using True assms(3) by (intro small_power) auto
  then have "min (min (500000000 * 2 ^ (n - 1)) duration_max) 8000000000 = 1000000 * ?m"
    by (auto simp: duration_max_def from_secs_def u64_max_def)
  moreover have "min (n - 1) 16 = n - 1" using True by auto
  ultimately have "fst (next_delay g (backoff_default\<lparr>bo_attempt := a\<rparr>)) = from_millis (g (?m div 2) ?m)"
    using True assms(2) by (simp add: next_delay_def backoff_default_def Let_def from_secs_def from_millis_def)
  moreover have "?m div 2 \<le> g (?m div 2) ?m \<and> g (?m div 2) ?m \<le> ?m"
    by (rule assms(1)) (rule div_le_dividend)
  ultimately show ?thesis using True by (simp add: delay_between_def from_millis_def)
next
  case False
  then show ?thesis using assms(2)
    by (simp add: next_delay_def backoff_default_def delay_between_def)
qed

lemma next_delays_state:
  "snd (next_delays rng ks (backoff_default\<lparr>bo_attempt := a\<rparr>)) =
     backoff_default\<lparr>bo_attempt := (if ks = [] then a else min (a + length ks) u32_max)\<rparr>"
proof (induction ks arbitrary: a)
  case (Cons k ks)
  show ?case using Cons.IH [of "sat_add32 a 1"] unfolding next_delays_def io_run_Cons next_delay_attempt
    by (auto simp: sat_add32_def)
qed (simp add: next_delays_def)

text \<open>Whatever the random numbers (\<open>gen_range\<close> stays in its range), the \<open>n\<close>-th delay after a success is
  between half and all of 500 ms doubled \<open>n - 1\<close> times, never above 8 s, for the first ten attempts, and
  exactly 30 s for every later one; the slow phase is reported from the tenth attempt on.\<close>

theorem backoff_schedule:
  assumes "\<And>k lo hi. lo \<le> hi \<Longrightarrow> lo \<le> rng k lo hi \<and> rng k lo hi \<le> hi"
    and "n < length ks" "length ks \<le> u32_max"
  shows "delay_between (Suc n) (fst (next_delays rng ks (backoff_reset backoff_default)) ! n) \<and>
         (in_slow_phase (snd (next_delays rng ks (backoff_reset backoff_default))) \<longleftrightarrow> 10 \<le> length ks)"
proof (intro conjI)
  have default: "backoff_reset backoff_default = backoff_default\<lparr>bo_attempt := 0\<rparr>"
    by (simp add: backoff_reset_def)
  obtain xs k ys where ks: "ks = xs @ k # ys" and n: "length xs = n"
    using assms(2) by (metis id_take_nth_drop length_take min.absorb4)
  have state: "snd (next_delays rng xs (backoff_default\<lparr>bo_attempt := 0\<rparr>)) = backoff_default\<lparr>bo_attempt := n\<rparr>"
    using next_delays_state [of rng xs 0] assms(2,3) n by auto
  have "fst (next_delays rng ks (backoff_default\<lparr>bo_attempt := 0\<rparr>)) ! n =
        fst (next_delay (rng k) (backoff_default\<lparr>bo_attempt := n\<rparr>))"
    using state n by (simp add: next_delays_def ks io_run_append io_run_Cons nth_append)
  moreover have "delay_between (Suc n) (fst (next_delay (rng k) (backoff_default\<lparr>bo_attempt := n\<rparr>)))"
    using assms by (intro next_delay_range) (auto simp: sat_add32_def)
  ultimately show "delay_between (Suc n) (fst (next_delays rng ks (backoff_reset backoff_default)) ! n)"
    by (simp add: default)
  show "in_slow_phase (snd (next_delays rng ks (backoff_reset backoff_default))) \<longleftrightarrow> 10 \<le> length ks"
    unfolding default next_delays_state using assms(2,3)
    by (auto simp: in_slow_phase_def backoff_default_def)
qed

theorem backoff_schedule_witness:
  "delay_between 11 (fst (next_delays (\<lambda>k lo hi. hi) [0..<12] (backoff_reset backoff_default)) ! 10)
   \<and> in_slow_phase (snd (next_delays (\<lambda>k lo hi. hi) [0..<12] (backoff_reset backoff_default)))"
  using backoff_schedule [of "\<lambda>k lo hi. hi" 10 "[0..<12]"] by (simp add: u32_max_def)

subsection \<open>Flap detection\<close>

definition FLAP_WINDOW :: duration where
  "FLAP_WINDOW = from_secs 120"

definition FLAP_LIMIT :: nat where
  "FLAP_LIMIT = 5"

type_synonym FlapDetector = "instant list"

definition flap_record :: "instant \<Rightarrow> FlapDetector \<Rightarrow> bool \<times> FlapDetector" where
  "flap_record now events =
     (let events1 = filter (\<lambda>t. now - t < FLAP_WINDOW) events @ [now];
          events2 = (if FLAP_LIMIT + 1 < length events1 then tl events1 else events1)
      in (FLAP_LIMIT < length events2, events2))"

text \<open>The specification counts every reconnect of the window.\<close>

definition flap_spec :: "instant \<Rightarrow> instant list \<Rightarrow> bool \<times> instant list" where
  "flap_spec now h =
     (FLAP_LIMIT < length (filter (\<lambda>t. now - t < FLAP_WINDOW) (h @ [now])), h @ [now])"

definition flap_rel :: "FlapDetector \<Rightarrow> instant list \<Rightarrow> bool" where
  "flap_rel events h \<longleftrightarrow> sorted h \<and> length events \<le> FLAP_LIMIT + 1 \<and>
     (\<exists>old. h = old @ events \<and>
        (length events \<le> FLAP_LIMIT \<longrightarrow> (\<forall>t\<in>set old. \<exists>u\<in>set h. FLAP_WINDOW \<le> u - t)))"

lemma flap_old_expired:
  assumes "flap_rel events h" "\<forall>t\<in>set h. t \<le> now" "h = old @ events"
    and "length (filter (\<lambda>t. now - t < FLAP_WINDOW) events) \<le> FLAP_LIMIT"
  shows "filter (\<lambda>t. now - t < FLAP_WINDOW) old = []"
proof (cases "length events \<le> FLAP_LIMIT")
  case True
  then have old: "\<forall>t\<in>set old. \<exists>u\<in>set h. FLAP_WINDOW \<le> u - t"
    using assms(1,3) by (auto simp: flap_rel_def)
  have "FLAP_WINDOW \<le> now - t" if "t \<in> set old" for t
    using old that assms(2) by (meson diff_le_mono order.trans)
  then show ?thesis by (intro filter_False) (simp add: not_less)
next
  case False
  then obtain e where e: "e \<in> set events" "FLAP_WINDOW \<le> now - e"
    using assms(4) filter_True [of events "\<lambda>t. now - t < FLAP_WINDOW"] by (metis not_less)
  moreover have "t \<le> e" if "t \<in> set old" for t
    using that e(1) assms(1,3) by (auto simp: flap_rel_def sorted_append)
  ultimately show ?thesis
    by (intro filter_False) (auto simp: not_less intro: order.trans diff_le_mono2)
qed

interpretation flap: io_refinement flap_record flap_spec "\<lambda>now h. \<forall>t\<in>set h. t \<le> now" flap_rel
proof unfold_locales
  fix events h and now :: instant
  assume rel: "flap_rel events h" and now: "\<forall>t\<in>set h. t \<le> now"
  let ?P = "\<lambda>t. now - t < FLAP_WINDOW"
  obtain old where h: "h = old @ events" using rel by (auto simp: flap_rel_def)
  have sorted: "sorted h" "sorted events" and len: "length events \<le> FLAP_LIMIT + 1"
    using rel h by (auto simp: flap_rel_def sorted_append)
  have now_in: "?P now" by (simp add: FLAP_WINDOW_def from_secs_def)
  have sorted': "sorted (h @ [now])" using sorted(1) now by (simp add: sorted_append)
  have "fst (flap_record now events) = fst (flap_spec now h) \<and>
        flap_rel (snd (flap_record now events)) (snd (flap_spec now h))"
  proof (cases "length (filter ?P events) \<le> FLAP_LIMIT")
    case True
    have old: "filter ?P old = []" by (rule flap_old_expired [OF rel now h True])
    let ?old' = "old @ takeWhile (\<lambda>t. FLAP_WINDOW \<le> now - t) events"
    have keep: "dropWhile (\<lambda>t. FLAP_WINDOW \<le> now - t) events = filter ?P events"
      by (rule dropWhile_expired [OF sorted(2)])
    have "h @ [now] = ?old' @ (filter ?P events @ [now])"
      by (simp add: h flip: keep)
    moreover have "\<forall>t\<in>set ?old'. FLAP_WINDOW \<le> now - t"
      using old by (auto simp: filter_empty_conv not_less dest: set_takeWhileD)
    moreover have "now \<in> set (h @ [now])" by simp
    ultimately have "flap_rel (filter ?P events @ [now]) (h @ [now])"
      using sorted' True by (simp only: flap_rel_def) fastforce
    then show ?thesis using True old now_in h
      by (simp add: flap_record_def flap_spec_def Let_def)
  next
    case False
    then have "\<not> length (filter ?P events) < length events" using len by simp
    then have all: "filter ?P events = events"
      by (metis filter_True length_filter_less)
    have six: "length events = FLAP_LIMIT + 1" using False len all by simp
    have cons: "events = hd events # tl events" using six by (cases events) auto
    have "flap_rel (tl (events @ [now])) (h @ [now])"
      unfolding flap_rel_def
    proof (intro conjI exI [of _ "old @ [hd events]"])
      show "h @ [now] = (old @ [hd events]) @ tl (events @ [now])"
        using h cons by (metis append.assoc append_Cons append_Nil list.sel(3))
    qed (use six sorted' in auto)
    then show ?thesis using six all now_in h
      by (simp add: flap_record_def flap_spec_def Let_def)
  qed
  then show "fst (flap_record now events) = fst (flap_spec now h)"
    and "flap_rel (snd (flap_record now events)) (snd (flap_spec now h))" by auto
qed

lemma flap_run_enabled:
  "sorted (h @ ts) \<Longrightarrow> run_enabled flap_spec (\<lambda>now h. \<forall>t\<in>set h. t \<le> now) ts h"
  by (induction ts arbitrary: h) (auto simp: flap_spec_def sorted_append)

text \<open>Although it keeps only the six newest reconnect times, the flap detector answers as if it kept all:
  for reconnects in the order of time, it reports flapping exactly when more than five of all reconnects
  so far, this one included, lie within the last 120 seconds.\<close>

theorem flap_detector_exact:
  assumes "sorted ts" "n < length ts"
  shows "fst (io_run flap_record ts []) ! n =
           (FLAP_LIMIT < length (filter (\<lambda>t. ts ! n - t < FLAP_WINDOW) (take (Suc n) ts))) \<and>
         length (snd (io_run flap_record ts [])) \<le> FLAP_LIMIT + 1"
proof (intro conjI)
  have rel: "flap_rel [] []" by (simp add: flap_rel_def)
  have en: "run_enabled flap_spec (\<lambda>now h. \<forall>t\<in>set h. t \<le> now) ts []"
    using assms(1) by (intro flap_run_enabled) simp
  have spec: "fst (io_run flap_spec ts h) ! n =
      (FLAP_LIMIT < length (filter (\<lambda>t. ts ! n - t < FLAP_WINDOW) (h @ take (Suc n) ts)))"
    if "n < length ts" for h n and ts :: "instant list"
    using that
  proof (induction ts arbitrary: h n)
    case (Cons t ts)
    show ?case
    proof (cases n)
      case 0
      then show ?thesis by (simp add: io_run_Cons flap_spec_def)
    next
      case (Suc m)
      then show ?thesis using Cons.IH [of m "h @ [t]"] Cons.prems
        by (simp add: io_run_Cons flap_spec_def)
    qed
  qed simp
  show "fst (io_run flap_record ts []) ! n =
          (FLAP_LIMIT < length (filter (\<lambda>t. ts ! n - t < FLAP_WINDOW) (take (Suc n) ts)))"
    using spec [OF assms(2), of "[]"] flap.same_answers [OF rel en] by simp
  show "length (snd (io_run flap_record ts [])) \<le> FLAP_LIMIT + 1"
    using flap.rel_run [OF rel en] by (simp add: flap_rel_def)
qed

theorem flap_detector_exact_witness:
  "fst (io_run flap_record [0, 1, 2, 3, 4, 5, 6] []) ! 6 \<and>
   length (snd (io_run flap_record [0, 1, 2, 3, 4, 5, 6] [])) \<le> FLAP_LIMIT + 1"
  using flap_detector_exact [of "[0, 1, 2, 3, 4, 5, 6]" 6]
  by (simp add: FLAP_LIMIT_def FLAP_WINDOW_def from_secs_def)

end
