(* ===== verification/Engine_State.thy ===== *)
theory Engine_State
  imports Settings_Store Resume_Tokens Rate_Limits Pairing Link_Health
begin

text \<open>
  The state of the engine actor (\<open>actor.rs\<close>) as far as sessions, pairing, routes, prompts and permissions
  depend on it, the messages and calls it makes, and the small helpers the handlers share. Everything a handler
  does outside its own state is an \<open>Effect\<close>, appended to \<open>ac_out\<close> in the order the code does it. What the
  platform answers, the time and the file system's choices are the \<open>Env\<close> of a call. A connection is named by
  its id, so sending through a session's channel is an effect with that id. A route key is compared only for
  equality, so it is the pair the source formats into a string. Of the controls shared with audio threads only
  their existence is kept; the statistics of a route, the texts of notices and the running network tests are left out; a call into the network tests is an
  effect. Texts built only for people (peer names, addresses in the security log) are left out of the effects.
\<close>

section \<open>Audio sources and encoder groups\<close>

datatype CaptureSource = DefaultInput | InputDevice bytes | SystemLoopback "bytes option" | Application bytes bool
datatype RenderTarget = DefaultOutput | OutputDevice bytes

datatype SourceKey =
    KeySystem "bytes option" | KeyApplication bytes bool | KeyApps | KeyMic "bytes option"
  | KeyMixed SourceKey SourceKey

definition source_key_of :: "CaptureSource \<Rightarrow> bool \<Rightarrow> bool \<Rightarrow> SourceKey" where
  "source_key_of source is_mic_route apps =
     (if apps then KeyApps
      else case source of
        SystemLoopback device \<Rightarrow> KeySystem device
      | Application process exclude \<Rightarrow> KeyApplication process exclude
      | InputDevice device \<Rightarrow> if is_mic_route then KeyMic (Some device) else KeySystem (Some device)
      | DefaultInput \<Rightarrow> KeyMic None)"

record EncoderKey =
  ek_source :: SourceKey
  ek_codec :: u32
  ek_bitrate :: u32
  ek_channels :: u32
  ek_frame_us :: u32

definition encoder_key :: "CaptureSource \<Rightarrow> CaptureSource option \<Rightarrow> bool \<Rightarrow> bool \<Rightarrow> StreamProfile \<Rightarrow> EncoderKey" where
  "encoder_key source mix is_mic_route apps profile =
     (let first = source_key_of source is_mic_route apps
      in \<lparr>ek_source = (case mix of Some mic \<Rightarrow> KeyMixed first (source_key_of mic True False) | None \<Rightarrow> first),
          ek_codec = sp_codec profile, ek_bitrate = sp_bitrate profile,
          ek_channels = sp_channels profile, ek_frame_us = sp_frame_us profile\<rparr>)"

text \<open>A running sender is named by the start that produced it; a subscription names its sender.\<close>

datatype EncoderSlot = SlotStarting nat "(DeviceId \<times> u8) list" | SlotRunning nat

section \<open>Routes, sessions and prompts\<close>

type_synonym RouteKey = "DeviceId \<times> u8"

record Route =
  rt_peer :: DeviceId
  rt_id :: u8
  rt_kind :: RouteKind
  rt_status :: RouteStatus
  rt_requested_locally :: bool
  rt_profile :: "StreamProfile option"
  rt_encoder :: "EncoderKey option"
  rt_subscription :: "nat option"
  rt_receiver :: bool
  rt_start_id :: nat
  rt_sender_controls :: bool
  rt_receiver_controls :: bool
  rt_keep_running :: bool
  rt_volume :: f32
  rt_muted :: bool
  rt_reply :: "nat option"
  rt_fallback :: QualityFallback
  rt_paused_at :: "instant option"
  rt_deadline :: "instant option"

definition route_key :: "Route \<Rightarrow> RouteKey" where
  "route_key r = (rt_peer r, rt_id r)"

definition new_route :: "DeviceId \<Rightarrow> u8 \<Rightarrow> RouteKind \<Rightarrow> bool \<Rightarrow> f32 \<Rightarrow> Route" where
  "new_route peer rid kind requested_locally volume =
     \<lparr>rt_peer = peer, rt_id = rid, rt_kind = kind, rt_status = Starting, rt_requested_locally = requested_locally,
      rt_profile = None, rt_encoder = None, rt_subscription = None, rt_receiver = False, rt_start_id = 0,
      rt_sender_controls = False, rt_receiver_controls = False, rt_keep_running = False, rt_volume = volume, rt_muted = False, rt_reply = None,
      rt_fallback = fallback_default, rt_paused_at = None, rt_deadline = None\<rparr>"

record PeerSession =
  ps_conn_id :: nat
  ps_public_key :: PublicKey
  ps_hello :: Hello
  ps_dialed :: bool
  ps_next_route :: u8
  ps_connected_at :: instant

definition alloc_route :: "PeerSession \<Rightarrow> u8 \<times> PeerSession" where
  "alloc_route s =
     (let rid = ps_next_route s; nxt = rid + 2; nxt = (if nxt < 2 then nxt + 2 else nxt)
      in (rid, s\<lparr>ps_next_route := nxt\<rparr>))"

record PendingRequest =
  pr_peer :: DeviceId
  pr_request :: RouteRequest
  pr_kind :: RouteKind
  pr_expires :: instant

section \<open>Connections being paired, and dials\<close>

record Established =
  es_conn_id :: nat
  es_public_key :: PublicKey
  es_remote :: SocketAddr
  es_exporter :: "bytes option"
  es_hello :: Hello
  es_dialed :: bool

record PendingPairing =
  pp_est :: Established
  pp_code :: bytes
  pp_local_confirmed :: bool
  pp_peer_confirmed :: bool
  pp_qr_scanner :: bool
  pp_created :: instant

record DialState =
  ds_backoff :: Backoff
  ds_next_attempt :: instant
  ds_in_flight :: bool

section \<open>This device's own audio\<close>

record IdleAudio =
  ia_since :: "instant option"
  ia_closed :: bool

record LocalAudio =
  la_last_poll :: "instant option"
  la_handled_use :: bool
  la_auto_route :: "RouteKey option"
  la_idle_since :: "instant option"
  la_reopened :: "(RouteKey, instant) hmap"
  la_audio_idle :: IdleAudio

section \<open>Effects and environment\<close>

datatype AuditKind =
    PairingAttempt | PairingSucceeded | AuditPairingRejected | AuditPairingRateLimited | DeviceForgotten
  | DeviceBlocked | DeviceUnblocked | AuditPermissionChanged | RouteApproved | RouteDenied | RouteStarted
  | RouteStopped | ConnectionRefused | LogCleared

record KeepAlive =
  ka_playback :: bool
  ka_microphone :: bool
  ka_app_audio_capture :: bool

definition keep_alive_default :: KeepAlive where
  "keep_alive_default = \<lparr>ka_playback = False, ka_microphone = False, ka_app_audio_capture = False\<rparr>"

datatype Effect =
    SendMsg nat Body
  | CloseConn nat StopReason
  | AddSink nat u8
  | RemoveSink nat u8
  | Answer nat "EngineError + RouteKey"
  | Audit AuditKind DeviceId "RouteKind option" string
  | ErrorNotice EngineError
  | NoticeShown string
  | AttentionNeeded string DeviceId
  | MuteSpeakers bool
  | KeepAliveChanged KeepAlive
  | SaveSettings
  | OpenCapture EncoderKey nat
  | OpenPlayback DeviceId u8 nat RenderTarget
  | UpdateDiscovery
  | EndNetworkTest DeviceId EngineError
  | ForgetNetworkTest DeviceId
  | NetworkTestMsg DeviceId Body
  | AbortDial DeviceId
  | StartDial nat "SocketAddr list" "DeviceId option" "u16 option" "PairRequest option"
  | BackendsIdle bool

record Env =
  en_now :: instant
  en_unix :: nat
  en_loopback :: bool
  en_app_audio :: "CaptureSource option"
  en_virtual_mic :: "bytes option \<Rightarrow> RenderTarget option"
  en_virtual_mic_in_use :: bool
  en_microphone_permitted :: bool
  en_can_mute_speakers :: bool
  en_monitor_error :: "EngineError option"
  en_loss_pct :: "RouteKey \<Rightarrow> f64"
  en_platform :: string
  en_include_loopback :: bool
  en_own_addresses :: "SocketAddr list"
  en_local_addresses :: "SocketAddr list"
  en_sha256 :: "bytes \<Rightarrow> bytes"
  en_hmac :: "bytes \<Rightarrow> bytes \<Rightarrow> bytes"
  en_crypto :: Crypto
  en_serde :: Serde
  en_io :: IoChoice
  en_token :: bytes
  en_gen_range :: "nat \<Rightarrow> nat \<Rightarrow> nat"
  en_show_addr :: "SocketAddr \<Rightarrow> bytes"
  en_parse_addr :: "bytes \<Rightarrow> SocketAddr option"
  en_security_text :: "SecurityError \<Rightarrow> string"

record Actor =
  ac_device_id :: DeviceId
  ac_fingerprint :: Fingerprint
  ac_trust :: TrustStore
  ac_files :: Files
  ac_settings :: Settings
  ac_sessions :: "(DeviceId, PeerSession) hmap"
  ac_conn_index :: "(nat, DeviceId) hmap"
  ac_pairings :: "(DeviceId, PendingPairing) hmap"
  ac_unpaired :: "(nat, Established \<times> instant) hmap"
  ac_dials :: "(DeviceId, DialState) hmap"
  ac_dial_targets :: "(nat, DeviceId) hmap"
  ac_pair_dials :: "(nat, bool) hmap"
  ac_next_conn_id :: nat
  ac_discovered :: "(DeviceId, SocketAddr list) hmap"
  ac_routes :: "Route list"
  ac_requests :: "(nat, PendingRequest) hmap"
  ac_next_request_id :: nat
  ac_qr :: "QrPairingPayload option"
  ac_limiter :: PairingLimiter
  ac_refused_audited :: "(DeviceId, instant) hmap"
  ac_resume :: ResumeTokens
  ac_flaps :: "(DeviceId, FlapDetector) hmap"
  ac_stabilized :: "(DeviceId, instant) hmap"
  ac_prefer_lossless :: bool
  ac_foreground :: bool
  ac_encoders :: "(EncoderKey, EncoderSlot) hmap"
  ac_next_start_id :: nat
  ac_peer_speakers_muted :: "(DeviceId, bool) hmap"
  ac_speakers_muted_by :: "DeviceId list"
  ac_monitor :: bool
  ac_keep_alive :: KeepAlive
  ac_local_audio :: LocalAudio
  ac_trust_flushed_at :: instant
  ac_out :: "Effect list"

definition emit :: "Effect \<Rightarrow> Actor \<Rightarrow> Actor" where
  "emit e a = a\<lparr>ac_out := ac_out a @ [e]\<rparr>"

text \<open>Something goes to the session with a device, if there is one.\<close>

definition tell :: "DeviceId \<Rightarrow> (nat \<Rightarrow> Effect) \<Rightarrow> Actor \<Rightarrow> Actor" where
  "tell peer e a = (case map_of (ac_sessions a) peer of Some s \<Rightarrow> emit (e (ps_conn_id s)) a | None \<Rightarrow> a)"

abbreviation send_to :: "DeviceId \<Rightarrow> Body \<Rightarrow> Actor \<Rightarrow> Actor" where
  "send_to peer b \<equiv> tell peer (\<lambda>c. SendMsg c b)"

definition answer :: "nat option \<Rightarrow> EngineError + RouteKey \<Rightarrow> Actor \<Rightarrow> Actor" where
  "answer reply r a = (case reply of Some n \<Rightarrow> emit (Answer n r) a | None \<Rightarrow> a)"

section \<open>The paired devices\<close>

definition trusted :: "Actor \<Rightarrow> DeviceId \<Rightarrow> TrustedDevice option" where
  "trusted a did = trust_get (ac_trust a) did"

definition set_trust :: "TrustStore \<times> Files \<Rightarrow> Actor \<Rightarrow> Actor" where
  "set_trust tf a = a\<lparr>ac_trust := fst tf, ac_files := snd tf\<rparr>"

definition update_trust :: "Env \<Rightarrow> DeviceId \<Rightarrow> (TrustedDevice \<Rightarrow> TrustedDevice) \<Rightarrow> Actor \<Rightarrow> Actor" where
  "update_trust env did f a =
     set_trust (snd (trust_update (en_crypto env) (en_serde env) (en_io env) did f (ac_trust a) (ac_files a))) a"

definition route_permission :: "RouteKind \<Rightarrow> PermissionKind" where
  "route_permission kind =
     (if local_is_source kind then (if is_mic kind then UseMyMicrophone else ReceiveMyAudio) else SendAudioToMe)"

definition policy_for :: "Actor \<Rightarrow> DeviceId \<Rightarrow> PermissionKind \<Rightarrow> Policy" where
  "policy_for a peer kind = (case trusted a peer of Some d \<Rightarrow> policy_of (td_permissions d) kind | None \<Rightarrow> Deny)"

section \<open>What this device can do\<close>

record LocalCapabilities =
  lc_system_audio :: bool
  lc_app_audio :: bool
  lc_microphone :: bool
  lc_mixed :: bool
  lc_speaker :: bool
  lc_virtual_mic :: bool

definition local_capabilities :: "Env \<Rightarrow> Actor \<Rightarrow> LocalCapabilities" where
  "local_capabilities env a =
     \<lparr>lc_system_audio = en_loopback env, lc_app_audio = (en_app_audio env \<noteq> None), lc_microphone = True,
      lc_mixed = en_loopback env, lc_speaker = True,
      lc_virtual_mic = (en_virtual_mic env (dt_virtual_mic_device (set_desktop (ac_settings a))) \<noteq> None)\<rparr>"

definition mic_source :: "Actor \<Rightarrow> CaptureSource" where
  "mic_source a = (case mic_device (set_mic (ac_settings a)) of Some d \<Rightarrow> InputDevice d | None \<Rightarrow> DefaultInput)"

definition speaker_target :: "Actor \<Rightarrow> RenderTarget" where
  "speaker_target a =
     (case out_device (set_output (ac_settings a)) of Some d \<Rightarrow> OutputDevice d | None \<Rightarrow> DefaultOutput)"

definition system_audio_source :: "Actor \<Rightarrow> CaptureSource" where
  "system_audio_source a =
     (let c = set_capture (ac_settings a)
      in case cap_app c of
           Some process \<Rightarrow> Application process (cap_exclude_app c)
         | None \<Rightarrow> SystemLoopback (cap_system_device c))"

definition source_of :: "RouteKind \<Rightarrow> string" where
  "source_of kind = fst (endpoints kind)"

definition sink_of :: "RouteKind \<Rightarrow> string" where
  "sink_of kind = snd (endpoints kind)"

section \<open>Lists\<close>

fun map_first :: "('a \<Rightarrow> bool) \<Rightarrow> ('a \<Rightarrow> 'a) \<Rightarrow> 'a list \<Rightarrow> 'a list" where
  "map_first P f [] = []"
| "map_first P f (x # xs) = (if P x then f x # xs else x # map_first P f xs)"

fun take_first :: "('a \<Rightarrow> bool) \<Rightarrow> 'a list \<Rightarrow> ('a \<times> 'a list) option" where
  "take_first P [] = None"
| "take_first P (x # xs) =
     (if P x then Some (x, xs) else map_option (\<lambda>(y, ys). (y, x # ys)) (take_first P xs))"

lemma set_map_first: "set (map_first P f xs) \<subseteq> set xs \<union> f ` {x \<in> set xs. P x}"
  by (induction xs) auto

lemma take_first_Some:
  "take_first P xs = Some (y, ys) \<Longrightarrow> P y \<and> y \<in> set xs \<and> set ys \<subseteq> set xs \<and> set xs = insert y (set ys) \<and> length xs = Suc (length ys)"
  by (induction xs arbitrary: y ys) (auto split: if_splits)

lemma take_first_None [simp]: "take_first P xs = None \<longleftrightarrow> (\<forall>x\<in>set xs. \<not> P x)"
  by (induction xs) auto

end
