(* ===== verification/Pipelines.thy ===== *)
theory Pipelines
  imports Engine_State
begin

text \<open>
  Route pipelines (\<open>actor/pipelines.rs\<close>): encoder groups shared by routes and audio devices opened off the
  actor. Opening a device is an effect that carries a start id; its result comes back as a call of
  \<open>on_sender_ready\<close> or \<open>on_receiver_ready\<close> with that id. A running sender is named by the start that produced
  it, and its subscribers are the routes whose subscription names it.
\<close>

section \<open>Keep-alive\<close>

definition keep_alive_add :: "RouteKind \<Rightarrow> KeepAlive \<Rightarrow> KeepAlive" where
  "keep_alive_add kind ka =
     (if kind \<in> {SendMicToSpeaker, SendMicToVirtualMic, SendMixed} then ka\<lparr>ka_microphone := True\<rparr>
      else if kind = SendAppAudio then ka\<lparr>ka_app_audio_capture := True\<rparr>
      else if kind = SendSystemAudio then ka
      else ka\<lparr>ka_playback := True\<rparr>)"

definition update_keep_alive :: "Actor \<Rightarrow> Actor" where
  "update_keep_alive a =
     (let ka = fold (\<lambda>r ka. if rt_status r \<noteq> Active then ka else keep_alive_add (rt_kind r) ka)
                 (ac_routes a) keep_alive_default;
          ka = (if ac_monitor a then ka\<lparr>ka_microphone := True\<rparr> else ka)
      in if ka \<noteq> ac_keep_alive a then emit (KeepAliveChanged ka) (a\<lparr>ac_keep_alive := ka\<rparr>) else a)"

section \<open>Encoder groups\<close>

definition subscribers :: "Actor \<Rightarrow> nat \<Rightarrow> nat" where
  "subscribers a sender = length (filter (\<lambda>r. rt_subscription r = Some sender) (ac_routes a))"

definition prune_encoders :: "Actor \<Rightarrow> Actor" where
  "prune_encoders a = a\<lparr>ac_encoders :=
     hm_retain (\<lambda>_ slot. case slot of SlotRunning s \<Rightarrow> subscribers a s \<noteq> 0 | SlotStarting _ _ \<Rightarrow> True)
       (ac_encoders a)\<rparr>"

definition close_encoder :: "EncoderKey \<Rightarrow> Actor \<Rightarrow> Actor" where
  "close_encoder key a =
     (case map_of (ac_encoders a) key of
        Some (SlotRunning _) \<Rightarrow> a\<lparr>ac_encoders := AList.delete key (ac_encoders a)\<rparr>
      | _ \<Rightarrow> a)"

text \<open>\<open>take_pipelines\<close> and \<open>finish_release\<close>; the route has been taken off the list, or its entry there is the
  one replaced.\<close>

definition take_pipelines :: "Route \<Rightarrow> Route" where
  "take_pipelines r = r\<lparr>rt_start_id := 0, rt_encoder := None, rt_subscription := None, rt_receiver := False\<rparr>"

definition finish_release :: "DeviceId \<Rightarrow> u8 \<Rightarrow> bool \<Rightarrow> Actor \<Rightarrow> Actor" where
  "finish_release peer rid had_receiver a =
     prune_encoders (if had_receiver then tell peer (\<lambda>c. RemoveSink c rid) a else a)"

definition release_pipelines :: "Route \<Rightarrow> Actor \<Rightarrow> Route \<times> Actor" where
  "release_pipelines r a = (take_pipelines r, finish_release (rt_peer r) (rt_id r) (rt_receiver r) a)"

definition release_pipelines_at :: "nat \<Rightarrow> Actor \<Rightarrow> Actor" where
  "release_pipelines_at i a =
     (if i < length (ac_routes a)
      then let r = ac_routes a ! i
           in finish_release (rt_peer r) (rt_id r) (rt_receiver r)
                (a\<lparr>ac_routes := (ac_routes a)[i := take_pipelines r]\<rparr>)
      else a)"

section \<open>Starting a pipeline\<close>

definition take_start_id :: "Actor \<Rightarrow> nat \<times> Actor" where
  "take_start_id a = (ac_next_start_id a + 1, a\<lparr>ac_next_start_id := ac_next_start_id a + 1\<rparr>)"

definition begin_receiver :: "Env \<Rightarrow> Route \<Rightarrow> Actor \<Rightarrow> (EngineError + bool) \<times> Route \<times> Actor" where
  "begin_receiver env r a =
     (case (if sink_of (rt_kind r) = ''virtual-mic''
            then en_virtual_mic env (dt_virtual_mic_device (set_desktop (ac_settings a)))
            else Some (speaker_target a)) of
        None \<Rightarrow> (Inl ErrVirtualMicMissing, r, a)
      | Some target \<Rightarrow>
          (let (start, a1) = take_start_id a
           in (Inr False, r\<lparr>rt_start_id := start, rt_receiver_controls := True\<rparr>,
               emit (OpenPlayback (rt_peer r) (rt_id r) start target) a1)))"

text \<open>A route joins the running capture of its group, waits for one that is opening, or opens it.\<close>

definition join_group :: "EncoderKey \<Rightarrow> Route \<Rightarrow> Actor \<Rightarrow> (EngineError + bool) \<times> Route \<times> Actor" where
  "join_group key r a =
     (case map_of (ac_encoders a) key of
        Some (SlotRunning sender) \<Rightarrow>
          if \<not> hm_contains (ac_sessions a) (rt_peer r) then (Inl ErrUnreachable, r, a)
          else (Inr True, r\<lparr>rt_subscription := Some sender\<rparr>, a)
      | Some (SlotStarting start waiting) \<Rightarrow>
          (Inr False, r, a\<lparr>ac_encoders := AList.update key (SlotStarting start (waiting @ [route_key r]))
                                            (ac_encoders a)\<rparr>)
      | None \<Rightarrow>
          (let (start, a1) = take_start_id a
           in (Inr False, r, emit (OpenCapture key start)
                 (a1\<lparr>ac_encoders := AList.update key (SlotStarting start [route_key r]) (ac_encoders a1)\<rparr>))))"

definition capture_source :: "Env \<Rightarrow> RouteKind \<Rightarrow> Actor \<Rightarrow> CaptureSource option" where
  "capture_source env kind a =
     (if source_of kind = ''system'' \<or> source_of kind = ''mixed'' then Some (system_audio_source a)
      else if source_of kind = ''apps'' then en_app_audio env
      else Some (mic_source a))"

definition begin_sender :: "Env \<Rightarrow> StreamProfile \<Rightarrow> Route \<Rightarrow> Actor \<Rightarrow> (EngineError + bool) \<times> Route \<times> Actor" where
  "begin_sender env profile r a =
     (let kind = rt_kind r
      in case capture_source env kind a of
           None \<Rightarrow> (Inl ErrLoopbackUnsupported, r, a)
         | Some source \<Rightarrow>
             (let mix = (if kind = SendMixed then Some (mic_source a) else None);
                  key = encoder_key source mix (is_mic kind) (source_of kind = ''apps'') profile
              in join_group key (r\<lparr>rt_encoder := Some key, rt_subscription := None, rt_sender_controls := True\<rparr>)
                   (if kind = SendSystemAudio \<and> cap_mute_local_speakers (set_capture (ac_settings a))
                    then emit (MuteSpeakers True) a else a)))"

definition begin_pipelines :: "Env \<Rightarrow> Route \<Rightarrow> Actor \<Rightarrow> (EngineError + bool) \<times> Route \<times> Actor" where
  "begin_pipelines env r a =
     (if \<not> hm_contains (ac_sessions a) (rt_peer r) then (Inl ErrUnreachable, r, a)
      else case rt_profile r of
             None \<Rightarrow> (Inl (ErrInternal ''missing profile''), r, a)
           | Some profile \<Rightarrow>
               if local_is_source (rt_kind r) then begin_sender env profile r a else begin_receiver env r a)"

section \<open>A pipeline is ready, or failed\<close>

definition save_route :: "DeviceId \<Rightarrow> RouteKind \<Rightarrow> Actor \<Rightarrow> Actor" where
  "save_route peer kind a =
     (let pid = device_id_to_hex peer; st = ac_settings a
      in if \<exists>s\<in>set (set_saved_routes st). saved_matches s pid kind then a
         else emit SaveSettings (a\<lparr>ac_settings := st\<lparr>set_saved_routes :=
                set_saved_routes st @ [\<lparr>sr_peer_id = pid, sr_kind = kind, sr_keep = False\<rparr>]\<rparr>\<rparr>))"

definition activate_route :: "DeviceId \<Rightarrow> u8 \<Rightarrow> Actor \<Rightarrow> Actor" where
  "activate_route peer rid a =
     (case find (\<lambda>r. route_key r = (peer, rid)) (ac_routes a) of
        None \<Rightarrow> a
      | Some r \<Rightarrow>
          if rt_status r \<noteq> Starting then a
          else
            (let answered = rt_requested_locally r;
                 a1 = a\<lparr>ac_routes := map_first (\<lambda>r. route_key r = (peer, rid))
                        (\<lambda>r. r\<lparr>rt_status := Active, rt_deadline := None,
                               rt_reply := (if answered then None else rt_reply r)\<rparr>) (ac_routes a)\<rparr>;
                 a2 = (if answered then answer (rt_reply r) (Inr (peer, rid)) a1
                       else send_to peer (BRouteAccept \<lparr>ra_route = ucast rid, ra_profile = rt_profile r\<rparr>) a1);
                 a3 = emit (Audit RouteStarted peer (Some (rt_kind r)) (if answered then ''local'' else ''peer'')) a2;
                 a4 = (if answered \<and> set_resume_routes_on_start (ac_settings a3)
                       then save_route peer (rt_kind r) a3 else a3)
             in update_keep_alive a4))"

definition reject :: "DeviceId \<Rightarrow> u32 \<Rightarrow> StopReason \<Rightarrow> Actor \<Rightarrow> Actor" where
  "reject peer route reason a =
     send_to peer (BRouteReject \<lparr>rr_route = route, rr_reason = stop_reason_as_i32 reason\<rparr>) a"

definition start_failure :: "EngineError \<Rightarrow> StopReason" where
  "start_failure e = (case e of
       ErrMicPermissionDenied \<Rightarrow> PermissionDenied
     | ErrVirtualMicMissing \<Rightarrow> UnsupportedEndpoint
     | ErrLoopbackUnsupported \<Rightarrow> UnsupportedEndpoint
     | _ \<Rightarrow> AudioDeviceLost)"

text \<open>The speakers muted while this computer's audio is sent come back, unless a peer holds them muted.\<close>

definition unmute_after :: "Route \<Rightarrow> Actor \<Rightarrow> Actor" where
  "unmute_after r a =
     (if rt_kind r = SendSystemAudio \<and> cap_mute_local_speakers (set_capture (ac_settings a))
         \<and> ac_speakers_muted_by a = []
      then emit (MuteSpeakers False) a else a)"

definition send_route_stop :: "DeviceId \<Rightarrow> u32 \<Rightarrow> StopReason \<Rightarrow> Actor \<Rightarrow> Actor" where
  "send_route_stop peer route reason a =
     send_to peer (BRouteStop \<lparr>rs_route = route, rs_reason = stop_reason_as_i32 reason\<rparr>) a"

definition fail_route :: "DeviceId \<Rightarrow> u8 \<Rightarrow> EngineError \<Rightarrow> Actor \<Rightarrow> Actor" where
  "fail_route peer rid e a =
     (case take_first (\<lambda>r. route_key r = (peer, rid)) (ac_routes a) of
        None \<Rightarrow> a
      | Some (r, rest) \<Rightarrow>
          (let (r, a1) = release_pipelines r (a\<lparr>ac_routes := rest\<rparr>);
               a2 = (if rt_requested_locally r \<or> rt_status r = Active
                     then send_route_stop peer (ucast rid) AudioDeviceLost a1
                     else reject peer (ucast rid) (start_failure e) a1);
               a3 = answer (rt_reply r) (Inl e) a2;
               a4 = emit (ErrorNotice e) (unmute_after r a3)
           in update_keep_alive a4))"

definition subscribe_waiting :: "EncoderKey \<Rightarrow> nat \<Rightarrow> RouteKey \<Rightarrow> RouteKey list \<times> Actor \<Rightarrow> RouteKey list \<times> Actor" where
  "subscribe_waiting key sender w st =
     (let (ready, a) = st;
          waits = (\<lambda>r. route_key r = w \<and> rt_encoder r = Some key \<and> rt_subscription r = None)
      in if (\<exists>r\<in>set (ac_routes a). waits r) \<and> hm_contains (ac_sessions a) (fst w)
         then (ready @ [w], a\<lparr>ac_routes :=
                 map_first waits (\<lambda>r. r\<lparr>rt_subscription := Some sender\<rparr>) (ac_routes a)\<rparr>)
         else st)"

definition on_sender_ready :: "EncoderKey \<Rightarrow> nat \<Rightarrow> EngineError option \<Rightarrow> Actor \<Rightarrow> Actor" where
  "on_sender_ready key start failure a =
     (case map_of (ac_encoders a) key of
        Some (SlotStarting s waiting) \<Rightarrow>
          if s \<noteq> start then a
          else
            (let a1 = a\<lparr>ac_encoders := AList.delete key (ac_encoders a)\<rparr>
             in case failure of
                  None \<Rightarrow>
                    (let (ready, a2) = fold (subscribe_waiting key start) waiting ([], a1);
                         a3 = a2\<lparr>ac_encoders := AList.update key (SlotRunning start) (ac_encoders a2)\<rparr>
                     in prune_encoders (fold (\<lambda>(peer, rid). activate_route peer rid) ready a3))
                | Some e \<Rightarrow>
                    fold (\<lambda>(peer, rid) a.
                        if \<exists>r\<in>set (ac_routes a). route_key r = (peer, rid) \<and> rt_encoder r = Some key
                        then fail_route peer rid e a else a) waiting a1)
      | _ \<Rightarrow> a)"

definition on_receiver_ready :: "DeviceId \<Rightarrow> u8 \<Rightarrow> nat \<Rightarrow> EngineError option \<Rightarrow> Actor \<Rightarrow> Actor" where
  "on_receiver_ready peer rid start failure a =
     (let this = (\<lambda>r. route_key r = (peer, rid) \<and> rt_start_id r = start)
      in if \<not> (\<exists>r\<in>set (ac_routes a). this r) then a
         else case failure of
                Some e \<Rightarrow> fail_route peer rid e a
              | None \<Rightarrow>
                  if \<not> hm_contains (ac_sessions a) peer
                  then a\<lparr>ac_routes := map_first this (\<lambda>r. r\<lparr>rt_start_id := 0\<rparr>) (ac_routes a)\<rparr>
                  else activate_route peer rid
                         ((tell peer (\<lambda>c. AddSink c rid) a)\<lparr>ac_routes :=
                            map_first this (\<lambda>r. r\<lparr>rt_start_id := 0, rt_receiver := True\<rparr>) (ac_routes a)\<rparr>))"

end
