(* ===== verification/Route_Control.thy ===== *)
theory Route_Control
  imports Pipelines
begin

text \<open>
  The route handlers of \<open>actor.rs\<close>: starting a route, a peer's request with the permission check, the prompt's
  answer, acceptance and rejection, stopping, pausing while a connection is away, resuming after it, and what
  revoking a permission does to running routes.
\<close>

section \<open>Limits and profiles\<close>

definition PIPELINE_START_DEADLINE :: duration where "PIPELINE_START_DEADLINE = from_secs 20"
definition REQUEST_DEADLINE :: duration where "REQUEST_DEADLINE = from_secs 35"
definition PROMPT_EXPIRY :: duration where "PROMPT_EXPIRY = from_secs 30"
definition PAUSED_EXPIRY :: duration where "PAUSED_EXPIRY = from_secs 120"

definition live_route :: "Route \<Rightarrow> bool" where
  "live_route r \<longleftrightarrow> rt_status r \<noteq> Stopped \<and> rt_status r \<noteq> Paused"

definition receivers_of :: "Actor \<Rightarrow> string \<Rightarrow> u32" where
  "receivers_of a source = word_of_nat (length
     (filter (\<lambda>r. live_route r \<and> local_is_source (rt_kind r) \<and> source_of (rt_kind r) = source) (ac_routes a)))"

definition virtual_mic_feed :: "Actor \<Rightarrow> DeviceId option \<Rightarrow> RouteKey option" where
  "virtual_mic_feed a except = map_option route_key
     (find (\<lambda>r. rt_kind r = ReceiveMicToVirtualMic \<and> rt_status r \<noteq> Stopped \<and> Some (rt_peer r) \<noteq> except)
       (ac_routes a))"

definition check_local_capability :: "Env \<Rightarrow> RouteKind \<Rightarrow> Actor \<Rightarrow> EngineError + unit" where
  "check_local_capability env kind a =
     (let caps = local_capabilities env a
      in if local_is_source kind \<and> set_max_receivers (ac_settings a) \<le> receivers_of a (source_of kind)
         then Inl ErrTooManyReceivers
         else if kind = SendSystemAudio \<and> \<not> lc_system_audio caps then Inl ErrLoopbackUnsupported
         else if kind = SendAppAudio \<and> \<not> lc_app_audio caps then Inl ErrLoopbackUnsupported
         else if kind = SendMixed \<and> \<not> lc_mixed caps then Inl ErrLoopbackUnsupported
         else if kind = SendMixed \<and> \<not> en_microphone_permitted env then Inl ErrMicPermissionDenied
         else if kind = ReceiveMicToVirtualMic \<and> \<not> lc_virtual_mic caps then Inl ErrVirtualMicMissing
         else if (kind = SendMicToVirtualMic \<or> kind = SendMicToSpeaker) \<and> \<not> en_microphone_permitted env
         then Inl ErrMicPermissionDenied
         else Inr ())"

definition denoise_at_peer :: "RouteKind \<Rightarrow> DeviceId \<Rightarrow> Actor \<Rightarrow> bool" where
  "denoise_at_peer kind peer a =
     (if \<not> is_mic kind \<or> \<not> local_is_source kind then False
      else let peer_can = (case map_of (ac_sessions a) peer of
                 Some s \<Rightarrow> capability_has (Capabilities (capabilities (ps_hello s))) FEATURE_RECEIVER_DENOISE
               | None \<Rightarrow> False)
           in snd (denoise_placement (set_mic (ac_settings a)) peer_can))"

definition profile_for :: "RouteKind \<Rightarrow> DeviceId \<Rightarrow> Actor \<Rightarrow> StreamProfile" where
  "profile_for kind peer a =
     (let s = stream_for (ac_settings a) (device_id_to_hex peer);
          s = (if hm_contains (ac_stabilized a) peer \<and> ss_latency s \<noteq> ModeCustom
               then s\<lparr>ss_latency := ModeStable\<rparr> else s);
          channels = (if is_mic kind then 1 else 2);
          quality = (if stream_quality s = QAuto \<and> ac_prefer_lossless a then QLossless else stream_quality s);
          p = build_profile (latency_profile s) quality channels (redundancy_always s);
          p = (if is_mic kind \<and> sp_frame_us p < 10000 then p\<lparr>sp_frame_us := 10000\<rparr> else p)
      in p\<lparr>sp_denoise := denoise_at_peer kind peer a\<rparr>)"

section \<open>Stopping a route\<close>

definition stop_reason_name :: "StopReason \<Rightarrow> string" where
  "stop_reason_name r = (case r of StopUnspecified \<Rightarrow> ''Unspecified'' | UserStopped \<Rightarrow> ''UserStopped''
     | PeerStopped \<Rightarrow> ''PeerStopped'' | PermissionDenied \<Rightarrow> ''PermissionDenied''
     | PermissionRevoked \<Rightarrow> ''PermissionRevoked'' | DeviceBusy \<Rightarrow> ''DeviceBusy''
     | AudioDeviceLost \<Rightarrow> ''AudioDeviceLost'' | CallInterruption \<Rightarrow> ''CallInterruption''
     | Superseded \<Rightarrow> ''Superseded'' | IncompatibleVersion \<Rightarrow> ''IncompatibleVersion''
     | NetworkLost \<Rightarrow> ''NetworkLost'' | UnsupportedEndpoint \<Rightarrow> ''UnsupportedEndpoint''
     | StopTimeout \<Rightarrow> ''Timeout'' | RateLimited \<Rightarrow> ''RateLimited'' | VirtualMicBusy \<Rightarrow> ''VirtualMicBusy'')"

definition forget_saved :: "DeviceId \<Rightarrow> RouteKind \<Rightarrow> StopReason \<Rightarrow> Actor \<Rightarrow> Actor" where
  "forget_saved peer kind reason a =
     (let st = ac_settings a;
          kept = filter (\<lambda>s. \<not> (saved_matches s (device_id_to_hex peer) kind \<and>
                                (\<not> sr_keep s \<or> reason = UserStopped))) (set_saved_routes st);
          a1 = a\<lparr>ac_settings := st\<lparr>set_saved_routes := kept\<rparr>\<rparr>
      in if length kept \<noteq> length (set_saved_routes st) then emit SaveSettings a1 else a1)"

definition stop_route_by_key :: "RouteKey \<Rightarrow> StopReason \<Rightarrow> bool \<Rightarrow> Actor \<Rightarrow> Actor" where
  "stop_route_by_key key reason notify_peer a =
     (case take_first (\<lambda>r. route_key r = key) (ac_routes a) of
        None \<Rightarrow> a
      | Some (r, rest) \<Rightarrow>
          (let (r, a1) = release_pipelines r (a\<lparr>ac_routes := rest\<rparr>);
               a2 = (if rt_status r = Active \<or> rt_status r = Paused
                     then emit (Audit RouteStopped (rt_peer r) (Some (rt_kind r)) (stop_reason_name reason)) a1
                     else a1);
               a3 = (if notify_peer then send_route_stop (rt_peer r) (ucast (rt_id r)) reason a2 else a2);
               a4 = unmute_after r (answer (rt_reply r) (Inl ErrRouteNotFound) a3);
               a5 = (if reason \<noteq> Superseded \<and> reason \<noteq> StopUnspecified
                     then forget_saved (rt_peer r) (rt_kind r) reason a4 else a4)
           in update_keep_alive a5))"

definition remove_routes_for :: "DeviceId \<Rightarrow> Actor \<Rightarrow> Actor" where
  "remove_routes_for peer a =
     fold (\<lambda>k. stop_route_by_key k StopUnspecified False)
       (map route_key (filter (\<lambda>r. rt_peer r = peer) (ac_routes a))) a"

section \<open>Starting a route\<close>

text \<open>The request to the peer, once nothing here stands against it.\<close>

definition requested_route ::
  "Env \<Rightarrow> DeviceId \<Rightarrow> u8 \<Rightarrow> RouteKind \<Rightarrow> StreamProfile \<Rightarrow> nat option \<Rightarrow> QualityFallback \<Rightarrow> Actor \<Rightarrow> Route" where
  "requested_route env peer rid kind profile reply fallback a =
     (new_route peer rid kind True (out_volume (set_output (ac_settings a))))
       \<lparr>rt_status := Requesting, rt_profile := Some profile, rt_fallback := fallback,
        rt_reply := reply, rt_deadline := Some (en_now env + REQUEST_DEADLINE)\<rparr>"

definition request_route ::
  "Env \<Rightarrow> DeviceId \<Rightarrow> RouteKind \<Rightarrow> bool \<Rightarrow> nat option \<Rightarrow> QualityFallback \<Rightarrow> Actor \<Rightarrow> Actor" where
  "request_route env peer kind replace reply fallback a =
     (let profile = profile_for kind peer a;
          profile = (if qf_active fallback then apply_quality_fallback profile else profile)
      in case map_of (ac_sessions a) peer of
           None \<Rightarrow> answer reply (Inl (if trusted a peer \<noteq> None then ErrUnreachable else ErrNotPaired)) a
         | Some s \<Rightarrow>
             (let (rid, s') = alloc_route s;
                  a1 = emit (SendMsg (ps_conn_id s) (BRouteRequest
                         \<lparr>rq_route = ucast rid, rq_source_endpoint = ascii (source_of kind),
                          rq_sink_endpoint = ascii (sink_of kind),
                          rq_requester_is_source = local_is_source kind,
                          rq_profile = Some profile, rq_replace = replace\<rparr>))
                       (a\<lparr>ac_sessions := AList.update peer s' (ac_sessions a)\<rparr>)
              in a1\<lparr>ac_routes := ac_routes a1 @ [requested_route env peer rid kind profile reply fallback a1]\<rparr>))"

definition stop_feed :: "RouteKey option \<Rightarrow> Actor \<Rightarrow> Actor" where
  "stop_feed current a = (case current of Some key \<Rightarrow> stop_route_by_key key Superseded True a | None \<Rightarrow> a)"

definition other_feed :: "RouteKind \<Rightarrow> DeviceId \<Rightarrow> Actor \<Rightarrow> RouteKey option" where
  "other_feed kind peer a = (if kind = ReceiveMicToVirtualMic then virtual_mic_feed a (Some peer) else None)"

definition start_route_keeping ::
  "Env \<Rightarrow> DeviceId \<Rightarrow> RouteKind \<Rightarrow> bool \<Rightarrow> nat option \<Rightarrow> QualityFallback \<Rightarrow> Actor \<Rightarrow> Actor" where
  "start_route_keeping env peer kind replace reply fallback a =
     (case find (\<lambda>r. rt_peer r = peer \<and> rt_kind r = kind \<and> rt_status r \<noteq> Stopped) (ac_routes a) of
        Some r \<Rightarrow> answer reply (Inr (route_key r)) a
      | None \<Rightarrow>
      (case check_local_capability env kind a of
        Inl e \<Rightarrow> answer reply (Inl e) a
      | Inr _ \<Rightarrow>
          (let feed = other_feed kind peer a
           in if feed \<noteq> None \<and> \<not> replace then answer reply (Inl ErrVirtualMicBusy) a
              else request_route env peer kind replace reply fallback (stop_feed feed a))))"

definition start_route :: "Env \<Rightarrow> DeviceId \<Rightarrow> RouteKind \<Rightarrow> bool \<Rightarrow> nat option \<Rightarrow> Actor \<Rightarrow> Actor" where
  "start_route env peer kind replace reply a = start_route_keeping env peer kind replace reply fallback_default a"

section \<open>A peer asks for a route\<close>

definition text_of :: "bytes \<Rightarrow> string" where
  "text_of bs = map (\<lambda>w. char_of (unat w)) bs"

definition local_profile :: "RouteKind \<Rightarrow> DeviceId \<Rightarrow> StreamProfile option \<Rightarrow> Actor \<Rightarrow> StreamProfile" where
  "local_profile kind peer requested a =
     (let p = sanitize_profile (case requested of Some p \<Rightarrow> p | None \<Rightarrow> profile_for kind peer a)
      in if local_is_source kind then p\<lparr>sp_denoise := denoise_at_peer kind peer a\<rparr>
         else let local = profile_for kind peer a
              in p\<lparr>sp_jitter_min_ms := sp_jitter_min_ms local, sp_jitter_max_ms := sp_jitter_max_ms local\<rparr>)"

text \<open>What both ends do with a route whose pipeline was begun: it is listed, and active at once if it joined
  a running capture; otherwise it is dropped and somebody is told.\<close>

definition finish_begin ::
  "(EngineError \<Rightarrow> Route \<Rightarrow> Actor \<Rightarrow> Actor) \<Rightarrow> (EngineError + bool) \<times> Route \<times> Actor \<Rightarrow> Actor" where
  "finish_begin failed res =
     (case res of
        (Inr ready, r, a) \<Rightarrow>
          (let a1 = a\<lparr>ac_routes := ac_routes a @ [r]\<rparr>
           in if ready then activate_route (rt_peer r) (rt_id r) a1 else a1)
      | (Inl e, r, a) \<Rightarrow> failed e r a)"

definition accepted_route :: "Env \<Rightarrow> DeviceId \<Rightarrow> u8 \<Rightarrow> RouteKind \<Rightarrow> StreamProfile \<Rightarrow> Actor \<Rightarrow> Route" where
  "accepted_route env peer rid kind profile a =
     (new_route peer rid kind False (out_volume (set_output (ac_settings a))))
       \<lparr>rt_profile := Some profile, rt_deadline := Some (en_now env + PIPELINE_START_DEADLINE)\<rparr>"

definition accept_route :: "Env \<Rightarrow> DeviceId \<Rightarrow> RouteRequest \<Rightarrow> RouteKind \<Rightarrow> Actor \<Rightarrow> Actor" where
  "accept_route env peer req kind a =
     (let profile = local_profile kind peer (rq_profile req) a;
          rid = ucast (rq_route req);
          a1 = a\<lparr>ac_routes := filter (\<lambda>r. \<not> (rt_peer r = peer \<and> rt_status r = Paused \<and>
                                              (rt_kind r = kind \<or> rt_id r = rid))) (ac_routes a)\<rparr>
      in if \<exists>r\<in>set (ac_routes a1). rt_peer r = peer \<and> rt_id r = rid then a1
         else
           finish_begin (\<lambda>e _ a. emit (ErrorNotice e) (reject peer (rq_route req) (start_failure e) a))
             (begin_pipelines env (accepted_route env peer rid kind profile a1) a1))"

definition refuse_capability :: "DeviceId \<Rightarrow> RouteRequest \<Rightarrow> RouteKind \<Rightarrow> EngineError \<Rightarrow> Actor \<Rightarrow> Actor" where
  "refuse_capability peer req kind e a =
     (let reason = (case e of ErrMicPermissionDenied \<Rightarrow> PermissionDenied
                      | ErrTooManyReceivers \<Rightarrow> DeviceBusy | _ \<Rightarrow> UnsupportedEndpoint);
          a1 = (if e = ErrTooManyReceivers
                then emit (ErrorNotice e) (emit (Audit RouteDenied peer (Some kind) ''limit'') a) else a)
      in reject peer (rq_route req) reason a1)"

definition ask_user :: "Env \<Rightarrow> DeviceId \<Rightarrow> RouteRequest \<Rightarrow> RouteKind \<Rightarrow> Actor \<Rightarrow> Actor" where
  "ask_user env peer req kind a =
     emit (AttentionNeeded ''route.request'' peer)
       (a\<lparr>ac_next_request_id := ac_next_request_id a + 1,
          ac_requests := AList.update (ac_next_request_id a)
            \<lparr>pr_peer = peer, pr_request = req, pr_kind = kind, pr_expires = en_now env + PROMPT_EXPIRY\<rparr>
            (ac_requests a)\<rparr>)"

definition resumed :: "Env \<Rightarrow> DeviceId \<Rightarrow> RouteKind \<Rightarrow> Actor \<Rightarrow> bool" where
  "resumed env peer kind a \<longleftrightarrow>
     resumed_recently peer (en_now env) (ac_resume a) \<and>
     (\<exists>r\<in>set (ac_routes a). rt_peer r = peer \<and> rt_kind r = kind \<and> rt_status r = Paused \<and>
        \<not> rt_requested_locally r)"

definition decide_request :: "Env \<Rightarrow> DeviceId \<Rightarrow> RouteRequest \<Rightarrow> RouteKind \<Rightarrow> Actor \<Rightarrow> Actor" where
  "decide_request env peer req kind a =
     (case policy_for a peer (route_permission kind) of
        Allow \<Rightarrow> accept_route env peer req kind a
      | Deny \<Rightarrow> reject peer (rq_route req) PermissionDenied
                 (emit (Audit RouteDenied peer (Some kind) ''permission'') a)
      | Ask \<Rightarrow> if resumed env peer kind a then accept_route env peer req kind a
               else ask_user env peer req kind a)"

definition on_route_request :: "Env \<Rightarrow> DeviceId \<Rightarrow> RouteRequest \<Rightarrow> Actor \<Rightarrow> Actor" where
  "on_route_request env peer req a =
     (case from_endpoints (text_of (rq_source_endpoint req)) (text_of (rq_sink_endpoint req))
             (\<not> rq_requester_is_source req) of
        None \<Rightarrow> reject peer (rq_route req) UnsupportedEndpoint a
      | Some kind \<Rightarrow>
      (case check_local_capability env kind a of
        Inl e \<Rightarrow> refuse_capability peer req kind e a
      | Inr _ \<Rightarrow>
          (let feed = other_feed kind peer a
           in if feed \<noteq> None \<and> \<not> rq_replace req then reject peer (rq_route req) VirtualMicBusy a
              else decide_request env peer req kind (stop_feed feed a))))"

definition policy_text :: "PermissionKind \<Rightarrow> Policy \<Rightarrow> string" where
  "policy_text kind policy =
     (case kind of ReceiveMyAudio \<Rightarrow> ''receiveMyAudio'' | UseMyMicrophone \<Rightarrow> ''useMyMicrophone''
        | SendAudioToMe \<Rightarrow> ''sendAudioToMe'' | ControlMe \<Rightarrow> ''controlMe'')
     @ ''='' @ (case policy of Allow \<Rightarrow> ''allow'' | Ask \<Rightarrow> ''ask'' | Deny \<Rightarrow> ''deny'')"

definition set_permission :: "PermissionKind \<Rightarrow> Policy \<Rightarrow> TrustedDevice \<Rightarrow> TrustedDevice" where
  "set_permission kind policy d = d\<lparr>td_permissions := set_policy kind policy (td_permissions d)\<rparr>"

definition audit_permission :: "DeviceId \<Rightarrow> PermissionKind \<Rightarrow> Policy \<Rightarrow> Actor \<Rightarrow> Actor" where
  "audit_permission peer kind policy a = emit (Audit AuditPermissionChanged peer None (policy_text kind policy)) a"

definition respond_request :: "Env \<Rightarrow> nat \<Rightarrow> bool \<Rightarrow> bool \<Rightarrow> Actor \<Rightarrow> Actor" where
  "respond_request env request accept remember a =
     (case map_of (ac_requests a) request of
        None \<Rightarrow> a
      | Some p \<Rightarrow>
          (let a1 = a\<lparr>ac_requests := AList.delete request (ac_requests a)\<rparr>;
               permission = route_permission (pr_kind p);
               policy = (if accept then Allow else Deny);
               a2 = (if remember
                     then audit_permission (pr_peer p) permission policy
                            (update_trust env (pr_peer p) (set_permission permission policy) a1)
                     else a1);
               a3 = emit (Audit (if accept then RouteApproved else RouteDenied) (pr_peer p)
                            (Some (pr_kind p)) ''user'') a2
           in if accept then accept_route env (pr_peer p) (pr_request p) (pr_kind p) a3
              else reject (pr_peer p) (rq_route (pr_request p)) PermissionDenied a3))"

section \<open>The peer's answer\<close>

definition on_route_accept :: "Env \<Rightarrow> DeviceId \<Rightarrow> RouteAccept \<Rightarrow> Actor \<Rightarrow> Actor" where
  "on_route_accept env peer acc a =
     (case take_first (\<lambda>r. route_key r = (peer, ucast (ra_route acc)) \<and> rt_status r = Requesting) (ac_routes a) of
        None \<Rightarrow> a
      | Some (r, rest) \<Rightarrow>
          (let r = (case ra_profile acc of Some p \<Rightarrow> r\<lparr>rt_profile := Some (sanitize_profile p)\<rparr> | None \<Rightarrow> r);
               r = r\<lparr>rt_status := Starting, rt_deadline := Some (en_now env + PIPELINE_START_DEADLINE)\<rparr>
           in finish_begin
                (\<lambda>e r a. emit (ErrorNotice e) (answer (rt_reply r) (Inl e)
                           (send_route_stop peer (ra_route acc) AudioDeviceLost a)))
                (begin_pipelines env r (a\<lparr>ac_routes := rest\<rparr>))))"

definition reject_error :: "StopReason \<Rightarrow> EngineError" where
  "reject_error reason = (case reason of
       PermissionDenied \<Rightarrow> ErrPeerDenied
     | UnsupportedEndpoint \<Rightarrow> ErrVirtualMicMissing
     | DeviceBusy \<Rightarrow> ErrTooManyReceivers
     | VirtualMicBusy \<Rightarrow> ErrVirtualMicBusy
     | AudioDeviceLost \<Rightarrow> ErrAudioDevice ''remote''
     | _ \<Rightarrow> ErrPeerDenied)"

definition on_route_reject :: "DeviceId \<Rightarrow> RouteReject \<Rightarrow> Actor \<Rightarrow> Actor" where
  "on_route_reject peer rej a =
     (let reason = (case stop_reason_try_from (rr_reason rej) of Some r \<Rightarrow> r | None \<Rightarrow> PeerStopped)
      in case take_first (\<lambda>r. route_key r = (peer, ucast (rr_route rej))) (ac_routes a) of
           None \<Rightarrow> a
         | Some (r, rest) \<Rightarrow>
             emit (ErrorNotice (reject_error reason))
               (answer (rt_reply r) (Inl (reject_error reason)) (a\<lparr>ac_routes := rest\<rparr>)))"

definition on_route_stop :: "DeviceId \<Rightarrow> RouteStop \<Rightarrow> Actor \<Rightarrow> Actor" where
  "on_route_stop peer stop a = stop_route_by_key (peer, ucast (rs_route stop)) PeerStopped False a"

section \<open>A connection goes away and comes back\<close>

definition pause_route :: "instant \<Rightarrow> nat \<Rightarrow> Actor \<Rightarrow> Actor" where
  "pause_route now i a0 =
     (let a = release_pipelines_at i a0;
          r = ac_routes a ! i;
          paused = r\<lparr>rt_status := Paused, rt_paused_at := Some now\<rparr>
      in if rt_status r = Active then a\<lparr>ac_routes := (ac_routes a)[i := paused]\<rparr>
         else if rt_status r = Paused then a
         else
           (let a1 = answer (rt_reply r) (Inl ErrUnreachable) a
            in a1\<lparr>ac_routes := (ac_routes a1)[i :=
                 (if rt_requested_locally r then paused else r\<lparr>rt_status := Stopped\<rparr>)\<lparr>rt_reply := None\<rparr>]\<rparr>))"

definition pause_routes_for :: "Env \<Rightarrow> DeviceId \<Rightarrow> Actor \<Rightarrow> Actor" where
  "pause_routes_for env peer a =
     (let a1 = fold (\<lambda>i a. if rt_peer (ac_routes a ! i) \<noteq> peer then a else pause_route (en_now env) i a)
                 [0..<length (ac_routes a)] a
      in update_keep_alive (a1\<lparr>ac_routes := filter (\<lambda>r. rt_status r \<noteq> Stopped) (ac_routes a1)\<rparr>))"

text \<open>\<open>rev\<close> and \<open>find\<close>: the last route of the device and kind.\<close>

definition map_last :: "('a \<Rightarrow> bool) \<Rightarrow> ('a \<Rightarrow> 'a) \<Rightarrow> 'a list \<Rightarrow> 'a list" where
  "map_last P f xs = rev (map_first P f (rev xs))"

definition keep_saved :: "DeviceId \<Rightarrow> RouteKind \<Rightarrow> Actor \<Rightarrow> bool" where
  "keep_saved peer kind a \<longleftrightarrow>
     (\<exists>s\<in>set (set_saved_routes (ac_settings a)). saved_matches s (device_id_to_hex peer) kind \<and> sr_keep s)"

definition resume_kind :: "Env \<Rightarrow> DeviceId \<Rightarrow> RouteKind \<Rightarrow> Route list \<times> Actor \<Rightarrow> Route list \<times> Actor" where
  "resume_kind env peer kind st =
     (let (paused, a0) = st;
          a = start_route env peer kind False None a0;
          this = (\<lambda>r. rt_peer r = peer \<and> rt_kind r = kind)
      in if \<exists>r\<in>set (ac_routes a). this r
         then (paused, a\<lparr>ac_routes :=
                 map_last this (\<lambda>r. r\<lparr>rt_keep_running := keep_saved peer kind a\<rparr>) (ac_routes a)\<rparr>)
         else case take_first (\<lambda>r. rt_kind r = kind) paused of
                Some (r, rest) \<Rightarrow> (rest, a\<lparr>ac_routes := ac_routes a @ [r]\<rparr>)
              | None \<Rightarrow> (paused, a))"

definition paused_here :: "DeviceId \<Rightarrow> Route \<Rightarrow> bool" where
  "paused_here peer r \<longleftrightarrow> rt_peer r = peer \<and> rt_status r = Paused \<and> rt_requested_locally r"

definition resume_kinds :: "DeviceId \<Rightarrow> Actor \<Rightarrow> RouteKind list" where
  "resume_kinds peer a =
     fold (\<lambda>s kinds. if sr_peer_id s = device_id_to_hex peer
                       \<and> (sr_keep s \<or> set_resume_routes_on_start (ac_settings a))
                       \<and> sr_kind s \<notin> set kinds
                     then kinds @ [sr_kind s] else kinds)
       (set_saved_routes (ac_settings a)) (map rt_kind (filter (paused_here peer) (ac_routes a)))"

definition resume_routes :: "Env \<Rightarrow> DeviceId \<Rightarrow> Actor \<Rightarrow> Actor" where
  "resume_routes env peer a =
     snd (fold (resume_kind env peer) (resume_kinds peer a)
       (filter (paused_here peer) (ac_routes a),
        a\<lparr>ac_routes := filter (\<lambda>r. \<not> paused_here peer r) (ac_routes a)\<rparr>))"

section \<open>Revoking\<close>

definition enforce_permissions :: "DeviceId \<Rightarrow> Actor \<Rightarrow> Actor" where
  "enforce_permissions peer a =
     (case trusted a peer of
        None \<Rightarrow> a
      | Some d \<Rightarrow>
          fold (\<lambda>k. stop_route_by_key k PermissionRevoked True)
            (map route_key (filter (\<lambda>r. rt_peer r = peer \<and> \<not> rt_requested_locally r \<and>
                policy_of (td_permissions d) (route_permission (rt_kind r)) = Deny) (ac_routes a))) a)"

end
