(* ===== verification/Live_Profiles.thy ===== *)
theory Live_Profiles
  imports Route_Control
begin

text \<open>
  Changes to running routes: stream profiles re-applied or updated by the peer (\<open>actor/profiles.rs\<close>), the
  fallback from lossless, and this device's own audio (\<open>actor/local_audio.rs\<close>): routes following the default
  device, the audio back ends closed when idle, and the phone microphone started when an app opens the virtual
  microphone. The gain, mute and denoise controls shared with audio threads are left out.
\<close>

section \<open>Profiles of running routes\<close>

definition find_route :: "RouteKey \<Rightarrow> Actor \<Rightarrow> Route option" where
  "find_route key a = find (\<lambda>r. route_key r = key) (ac_routes a)"

definition change_route :: "RouteKey \<Rightarrow> (Route \<Rightarrow> Route) \<Rightarrow> Actor \<Rightarrow> Actor" where
  "change_route key f a = a\<lparr>ac_routes := map_first (\<lambda>r. route_key r = key) f (ac_routes a)\<rparr>"

definition apply_profile :: "Env \<Rightarrow> RouteKey \<Rightarrow> StreamProfile \<Rightarrow> Actor \<Rightarrow> Actor" where
  "apply_profile env key nxt a =
     (case find_route key a of
        None \<Rightarrow> a
      | Some r \<Rightarrow>
          (let rebuild = (case rt_profile r of Some c \<Rightarrow> encoding_changed c nxt | None \<Rightarrow> False);
               a1 = change_route key (\<lambda>r. r\<lparr>rt_profile := Some nxt\<rparr>) a
           in if \<not> rebuild \<or> rt_status r \<noteq> Active then a1
              else case take_first (\<lambda>r. route_key r = key) (ac_routes a1) of
                     None \<Rightarrow> a1
                   | Some (r, rest) \<Rightarrow>
                       (let (r, a2) = release_pipelines r (a1\<lparr>ac_routes := rest\<rparr>);
                            (started, r, a3) = begin_pipelines env r a2;
                            a4 = a3\<lparr>ac_routes := ac_routes a3 @ [r]\<rparr>
                        in case started of Inl e \<Rightarrow> fail_route (rt_peer r) (rt_id r) e a4 | Inr _ \<Rightarrow> a4)))"

definition restart_route :: "Env \<Rightarrow> RouteKey \<Rightarrow> Actor \<Rightarrow> Actor" where
  "restart_route env key a =
     (case find_route key a of
        None \<Rightarrow> a
      | Some r \<Rightarrow>
          if \<not> hm_contains (ac_sessions a) (rt_peer r) then a
          else
            (let a1 = stop_route_by_key key Superseded True a
             in if \<not> rt_requested_locally r then a1
                else
                  (let a2 = start_route_keeping env (rt_peer r) (rt_kind r) False None (rt_fallback r) a1
                   in a2\<lparr>ac_routes := map_last (\<lambda>x. rt_peer x = rt_peer r \<and> rt_kind x = rt_kind r)
                            (\<lambda>x. x\<lparr>rt_keep_running := rt_keep_running r\<rparr>) (ac_routes a2)\<rparr>)))"

text \<open>The profile a route should have now: the local latency on routes received here, the local quality on
  routes asked for here, the local noise suppression on routes sent from here.\<close>

definition merge_profile :: "bool \<Rightarrow> bool \<Rightarrow> StreamProfile \<Rightarrow> StreamProfile \<Rightarrow> StreamProfile" where
  "merge_profile local_source requested_locally wanted current =
     (let p = current;
          p = (if \<not> local_source then p\<lparr>sp_jitter_min_ms := sp_jitter_min_ms wanted,
                                           sp_jitter_max_ms := sp_jitter_max_ms wanted\<rparr> else p);
          p = (if requested_locally
               then p\<lparr>sp_codec := sp_codec wanted, sp_bitrate := sp_bitrate wanted,
                      sp_channels := sp_channels wanted, sp_frame_us := sp_frame_us wanted,
                      sp_redundancy := sp_redundancy wanted,
                      sp_adaptive_bitrate := sp_adaptive_bitrate wanted\<rparr> else p);
          p = (if local_source then p\<lparr>sp_denoise := sp_denoise wanted\<rparr> else p)
      in sanitize_profile p)"

definition peer_has :: "u64 \<Rightarrow> DeviceId \<Rightarrow> Actor \<Rightarrow> bool" where
  "peer_has feature peer a = (case map_of (ac_sessions a) peer of
       Some s \<Rightarrow> capability_has (Capabilities (capabilities (ps_hello s))) feature | None \<Rightarrow> False)"

definition reconfigure_route :: "Env \<Rightarrow> RouteKey \<Rightarrow> Actor \<Rightarrow> Actor" where
  "reconfigure_route env key a =
     (case find_route key a of
        None \<Rightarrow> a
      | Some r \<Rightarrow>
          if \<not> hm_contains (ac_sessions a) (rt_peer r) then a
          else (case rt_profile r of
            None \<Rightarrow> a
          | Some current \<Rightarrow>
            (let kind = rt_kind r; peer = rt_peer r;
                 wanted0 = profile_for kind peer a;
                 pcm = (sp_codec wanted0 = codec_id PcmS16Le);
                 wanted = (if pcm \<and> qf_active (rt_fallback r) then apply_quality_fallback wanted0 else wanted0);
                 a1 = (if pcm then a else change_route key (\<lambda>r. r\<lparr>rt_fallback := fallback_reset (rt_fallback r)\<rparr>) a);
                 nxt = merge_profile (local_is_source kind) (rt_requested_locally r) wanted current
             in if nxt = current then a1
                else if encoding_changed current nxt \<and> \<not> peer_has FEATURE_ROUTE_RECONFIGURE peer a1
                then restart_route env key a1
                else
                  (let send_update = ((rt_requested_locally r \<and> quality_changed current nxt)
                                      \<or> (local_is_source kind \<and> sp_denoise current \<noteq> sp_denoise nxt));
                       a2 = apply_profile env key nxt a1
                   in if send_update
                      then send_to peer (BRouteUpdate \<lparr>ru_route = ucast (rt_id r), ru_profile = Some nxt\<rparr>) a2
                      else a2))))"

definition reconfigure_routes :: "Env \<Rightarrow> Settings \<Rightarrow> Actor \<Rightarrow> Actor" where
  "reconfigure_routes env old a =
     fold (reconfigure_route env)
       (map route_key (filter (\<lambda>r. rt_status r = Active \<and>
          (let peer = device_id_to_hex (rt_peer r)
           in stream_for old peer \<noteq> stream_for (ac_settings a) peer \<or>
              (is_mic (rt_kind r) \<and> local_is_source (rt_kind r) \<and> set_mic old \<noteq> set_mic (ac_settings a))))
         (ac_routes a))) a"

definition on_route_update :: "Env \<Rightarrow> DeviceId \<Rightarrow> RouteUpdate \<Rightarrow> Actor \<Rightarrow> Actor" where
  "on_route_update env peer update a =
     (let key = (peer, ucast (ru_route update))
      in case (find_route key a, ru_profile update) of
           (Some r, Some p) \<Rightarrow>
             (case rt_profile r of
                None \<Rightarrow> a
              | Some current \<Rightarrow>
                  (let p = sanitize_profile p;
                       nxt = (if local_is_source (rt_kind r) then p\<lparr>sp_denoise := sp_denoise current\<rparr>
                              else p\<lparr>sp_jitter_min_ms := sp_jitter_min_ms current,
                                     sp_jitter_max_ms := sp_jitter_max_ms current\<rparr>)
                   in if nxt \<noteq> current then apply_profile env key nxt a else a))
         | _ \<Rightarrow> a)"

definition set_prefer_lossless :: "Env \<Rightarrow> bool \<Rightarrow> Actor \<Rightarrow> Actor" where
  "set_prefer_lossless env prefer a =
     (if ac_prefer_lossless a = prefer then a
      else let a1 = a\<lparr>ac_prefer_lossless := prefer\<rparr>
           in fold (reconfigure_route env)
                (map route_key (filter (\<lambda>r. rt_status r = Active \<and> rt_requested_locally r) (ac_routes a1))) a1)"

text \<open>The measured loss of a route comes from the environment.\<close>

definition fallback_watched :: "Route \<Rightarrow> bool" where
  "fallback_watched r \<longleftrightarrow> rt_requested_locally r \<and> rt_status r = Active \<and>
     (qf_active (rt_fallback r) \<or> (case rt_profile r of Some p \<Rightarrow> sp_codec p = codec_id PcmS16Le | None \<Rightarrow> False))"

definition update_quality_fallback :: "Env \<Rightarrow> Actor \<Rightarrow> Actor" where
  "update_quality_fallback env a =
     (let upd = (\<lambda>r. fallback_update (en_loss_pct env (route_key r)) (rt_fallback r));
          changed = map (\<lambda>r. (route_key r, qf_active (snd (upd r))))
                      (filter (\<lambda>r. fallback_watched r \<and> fst (upd r)) (ac_routes a));
          a1 = a\<lparr>ac_routes := map (\<lambda>r. if fallback_watched r then r\<lparr>rt_fallback := snd (upd r)\<rparr> else r)
                               (ac_routes a)\<rparr>
      in fold (\<lambda>(key, active) a. emit (NoticeShown (if active then ''notice.qualityFallback''
                                                      else ''notice.qualityRestored''))
                 (reconfigure_route env key a)) changed a1)"

section \<open>Following the default device\<close>

definition follows_default :: "RouteKind \<Rightarrow> Settings \<Rightarrow> bool \<Rightarrow> bool \<Rightarrow> bool" where
  "follows_default kind st input_changed output_changed =
     (if local_is_source kind
      then if source_of kind = ''system''
           then output_changed \<and> cap_system_device (set_capture st) = None \<and> cap_app (set_capture st) = None
           else if source_of kind = ''mic'' then input_changed \<and> mic_device (set_mic st) = None
           else False
      else sink_of kind = ''speaker'' \<and> output_changed \<and> out_device (set_output st) = None)"

definition REOPEN_BACKOFF :: duration where "REOPEN_BACKOFF = from_secs 3"

fun index_of :: "('a \<Rightarrow> bool) \<Rightarrow> 'a list \<Rightarrow> nat" where
  "index_of P [] = 0"
| "index_of P (x # xs) = (if P x then 0 else Suc (index_of P xs))"

definition insert_at :: "nat \<Rightarrow> 'a \<Rightarrow> 'a list \<Rightarrow> 'a list" where
  "insert_at i x xs = take i xs @ x # drop i xs"

definition reopen_route_audio :: "Env \<Rightarrow> RouteKey \<Rightarrow> Actor \<Rightarrow> bool \<times> Actor" where
  "reopen_route_audio env key a =
     (case take_first (\<lambda>r. route_key r = key) (ac_routes a) of
        None \<Rightarrow> (False, a)
      | Some (r, rest) \<Rightarrow>
          (let pos = index_of (\<lambda>r. route_key r = key) (ac_routes a);
               a1 = a\<lparr>ac_routes := rest\<rparr>;
               a2 = (case rt_encoder r of Some e \<Rightarrow> close_encoder e a1 | None \<Rightarrow> a1);
               (r, a3) = release_pipelines r a2;
               (result, r, a4) = begin_pipelines env r a3;
               a5 = a4\<lparr>ac_routes := insert_at pos r (ac_routes a4)\<rparr>
           in case result of
                Inr _ \<Rightarrow> (True, a5)
              | Inl e \<Rightarrow> (False, stop_route_by_key key AudioDeviceLost True (emit (ErrorNotice e) a5))))"

definition reopen_on_default_device :: "Env \<Rightarrow> RouteKey \<Rightarrow> Actor \<Rightarrow> bool \<times> Actor" where
  "reopen_on_default_device env key a =
     (case find_route key a of
        None \<Rightarrow> (False, a)
      | Some r \<Rightarrow>
          if rt_status r \<noteq> Active \<or> \<not> follows_default (rt_kind r) (ac_settings a) True True then (False, a)
          else
            (let la = ac_local_audio a;
                 reopened = hm_retain (\<lambda>_ t. en_now env - t < REOPEN_BACKOFF) (la_reopened la)
             in if hm_contains reopened key then (False, a\<lparr>ac_local_audio := la\<lparr>la_reopened := reopened\<rparr>\<rparr>)
                else reopen_route_audio env key (a\<lparr>ac_local_audio :=
                       la\<lparr>la_reopened := AList.update key (en_now env) reopened\<rparr>\<rparr>)))"

definition on_audio_failed :: "Env \<Rightarrow> RouteKey \<Rightarrow> EngineError \<Rightarrow> Actor \<Rightarrow> Actor" where
  "on_audio_failed env key e a =
     (let (reopened, a1) = reopen_on_default_device env key a
      in if reopened then a1
         else stop_route_by_key key AudioDeviceLost True (emit (ErrorNotice e) a1))"

definition encoder_lost :: "Env \<Rightarrow> EngineError \<Rightarrow> RouteKey \<Rightarrow> bool \<times> Actor \<Rightarrow> bool \<times> Actor" where
  "encoder_lost env e key st =
     (let (notified, a) = st;
          (reopened, a1) = reopen_on_default_device env key a
      in if reopened \<or> find_route key a1 = None then (notified, a1)
         else (True, stop_route_by_key key AudioDeviceLost True
                       (if notified then a1 else emit (ErrorNotice e) a1)))"

definition on_encoder_failed :: "Env \<Rightarrow> EncoderKey \<Rightarrow> EngineError \<Rightarrow> Actor \<Rightarrow> Actor" where
  "on_encoder_failed env key e a =
     (let a1 = close_encoder key a;
          affected = map route_key (filter (\<lambda>r. rt_encoder r = Some key) (ac_routes a1))
      in snd (fold (encoder_lost env e) affected (False, a1)))"

definition set_monitor :: "Env \<Rightarrow> bool \<Rightarrow> Actor \<Rightarrow> Actor" where
  "set_monitor env enabled a =
     (let a1 = a\<lparr>ac_monitor := False\<rparr>;
          a2 = (if enabled
                then (case en_monitor_error env of
                        None \<Rightarrow> a1\<lparr>ac_monitor := True\<rparr> | Some e \<Rightarrow> emit (ErrorNotice e) a1)
                else a1)
      in update_keep_alive a2)"

definition on_audio_devices_changed :: "Env \<Rightarrow> bool \<Rightarrow> bool \<Rightarrow> Actor \<Rightarrow> Actor" where
  "on_audio_devices_changed env input_changed output_changed a =
     (if \<not> input_changed \<and> \<not> output_changed then a
      else
        (let keys = map route_key (filter (\<lambda>r. rt_status r = Active \<and>
                      follows_default (rt_kind r) (ac_settings a) input_changed output_changed) (ac_routes a));
             a1 = fold (\<lambda>k a. snd (reopen_route_audio env k a)) keys a;
             follows = ((input_changed \<and> mic_device (set_mic (ac_settings a1)) = None)
                        \<or> (output_changed \<and> out_device (set_output (ac_settings a1)) = None))
         in if ac_monitor a1 \<and> follows then set_monitor env True a1 else a1))"

section \<open>Closing idle audio back ends\<close>

definition AUDIO_IDLE :: duration where "AUDIO_IDLE = from_secs 60"

datatype IdleChange = IdleClose | IdleReopen

definition idle_update :: "bool \<Rightarrow> instant \<Rightarrow> duration \<Rightarrow> IdleAudio \<Rightarrow> IdleChange option \<times> IdleAudio" where
  "idle_update in_use now after s =
     (if in_use then ((if ia_closed s then Some IdleReopen else None), s\<lparr>ia_since := None, ia_closed := False\<rparr>)
      else
        (let since = (case ia_since s of Some t \<Rightarrow> t | None \<Rightarrow> now);
             s1 = s\<lparr>ia_since := Some since\<rparr>
         in if ia_closed s1 \<or> now - since < after then (None, s1)
            else (Some IdleClose, s1\<lparr>ia_closed := True\<rparr>)))"

definition check_audio_idle :: "instant \<Rightarrow> Actor \<Rightarrow> Actor" where
  "check_audio_idle now a =
     (let in_use = (ac_monitor a \<or> ac_encoders a \<noteq> [] \<or> (\<exists>r\<in>set (ac_routes a). rt_status r \<noteq> Stopped \<or> rt_receiver_controls r));
          after = (if adv_keep_audio_devices_open (set_advanced (ac_settings a)) then duration_max else AUDIO_IDLE);
          (change, idle) = idle_update in_use now after (la_audio_idle (ac_local_audio a));
          a1 = a\<lparr>ac_local_audio := (ac_local_audio a)\<lparr>la_audio_idle := idle\<rparr>\<rparr>
      in case change of
           Some IdleClose \<Rightarrow> emit (BackendsIdle True) a1
         | Some IdleReopen \<Rightarrow> emit (BackendsIdle False) a1
         | None \<Rightarrow> a1)"

section \<open>The phone microphone started on demand\<close>

definition IN_USE_POLL :: duration where "IN_USE_POLL = from_secs 2"
definition AUTO_MIC_IDLE :: duration where "AUTO_MIC_IDLE = from_secs 15"

definition mic_candidates :: "Actor \<Rightarrow> DeviceId list" where
  "mic_candidates a = map fst (filter (\<lambda>(did, s).
     (case trusted a did of Some d \<Rightarrow> \<not> td_blocked d | None \<Rightarrow> False) \<and>
     capability_has (Capabilities (capabilities (ps_hello s))) SOURCE_MICROPHONE) (ac_sessions a))"

definition remember_mic_peer :: "Actor \<Rightarrow> Actor" where
  "remember_mic_peer a =
     (case find (\<lambda>r. rt_kind r = ReceiveMicToVirtualMic \<and> rt_status r = Active) (ac_routes a) of
        None \<Rightarrow> a
      | Some r \<Rightarrow>
          (let st = ac_settings a; h = device_id_to_hex (rt_peer r)
           in if dt_last_mic_peer (set_desktop st) = Some h then a
              else emit SaveSettings (a\<lparr>ac_settings :=
                     st\<lparr>set_desktop := (set_desktop st)\<lparr>dt_last_mic_peer := Some h\<rparr>\<rparr>\<rparr>)))"

definition choose_mic_peer :: "Actor \<Rightarrow> DeviceId option" where
  "choose_mic_peer a =
     (let cs = mic_candidates a
      in case Option.bind (dt_last_mic_peer (set_desktop (ac_settings a))) device_id_from_hex of
           Some did \<Rightarrow> if did \<in> set cs then Some did else if length cs = 1 then Some (hd cs) else None
         | None \<Rightarrow> if length cs = 1 then Some (hd cs) else None)"

definition auto_start_mic :: "Env \<Rightarrow> Actor \<Rightarrow> bool \<times> Actor" where
  "auto_start_mic env a =
     (if \<not> lc_virtual_mic (local_capabilities env a) then (False, a)
      else case choose_mic_peer a of
             None \<Rightarrow> (False, a)
           | Some peer \<Rightarrow>
               (let a1 = start_route env peer ReceiveMicToVirtualMic False None a;
                    auto = map_option route_key (find (\<lambda>r. rt_peer r = peer \<and> rt_kind r = ReceiveMicToVirtualMic)
                             (rev (ac_routes a1)))
                in (True, emit (NoticeShown ''notice.autoMicStarted'')
                      (a1\<lparr>ac_local_audio := (ac_local_audio a1)\<lparr>la_auto_route := auto\<rparr>\<rparr>))))"

definition set_local_audio :: "(LocalAudio \<Rightarrow> LocalAudio) \<Rightarrow> Actor \<Rightarrow> Actor" where
  "set_local_audio f a = a\<lparr>ac_local_audio := f (ac_local_audio a)\<rparr>"

definition mic_use_ended :: "instant \<Rightarrow> Actor \<Rightarrow> Actor" where
  "mic_use_ended now a =
     (let a1 = set_local_audio (\<lambda>l. l\<lparr>la_handled_use := False\<rparr>) a
      in case la_auto_route (ac_local_audio a1) of
           None \<Rightarrow> a1
         | Some key \<Rightarrow>
             (let since = (case la_idle_since (ac_local_audio a1) of Some t \<Rightarrow> t | None \<Rightarrow> now);
                  a2 = set_local_audio (\<lambda>l. l\<lparr>la_idle_since := Some since\<rparr>) a1
              in if AUTO_MIC_IDLE \<le> now - since
                 then stop_route_by_key key UserStopped True
                        (set_local_audio (\<lambda>l. l\<lparr>la_auto_route := None, la_idle_since := None\<rparr>) a2)
                 else a2))"

definition check_virtual_mic_use :: "Env \<Rightarrow> Actor \<Rightarrow> Actor" where
  "check_virtual_mic_use env a0 =
     (let a = remember_mic_peer a0; now = en_now env; la = ac_local_audio a
      in if \<not> dt_auto_start_mic (set_desktop (ac_settings a))
         then set_local_audio (\<lambda>l. l\<lparr>la_auto_route := None, la_handled_use := False\<rparr>) a
         else if la_auto_route la = None \<and> mic_candidates a = []
         then set_local_audio (\<lambda>l. l\<lparr>la_handled_use := False\<rparr>) a
         else if (case la_last_poll la of Some t \<Rightarrow> now - t < IN_USE_POLL | None \<Rightarrow> False) then a
         else
           (let mic_route = map_option route_key (find (\<lambda>r. rt_kind r = ReceiveMicToVirtualMic
                              \<and> rt_status r \<noteq> Stopped) (ac_routes a));
                a1 = set_local_audio (\<lambda>l. l\<lparr>la_last_poll := Some now,
                       la_auto_route := (if la_auto_route l \<noteq> None \<and> la_auto_route l \<noteq> mic_route
                                         then None else la_auto_route l)\<rparr>) a
            in if en_virtual_mic_in_use env
               then
                 (let a2 = set_local_audio (\<lambda>l. l\<lparr>la_idle_since := None\<rparr>) a1
                  in if la_handled_use (ac_local_audio a2) then a2
                     else if mic_route \<noteq> None then set_local_audio (\<lambda>l. l\<lparr>la_handled_use := True\<rparr>) a2
                     else let (started, a3) = auto_start_mic env a2
                          in set_local_audio (\<lambda>l. l\<lparr>la_handled_use := started\<rparr>) a3)
               else mic_use_ended now a1))"

end
