(* ===== verification/Dialing.thy ===== *)
theory Dialing
  imports Engine_State
begin

text \<open>
  Dialling: the candidate addresses and their race (\<open>net.rs\<close>), and the dial state of the engine
  (\<open>actor.rs\<close>): one dial in flight per device, spaced by its backoff, cancelled when a session exists. The
  connection attempts themselves run outside the actor; starting them is an effect.
\<close>

unbundle bit_operations_syntax

section \<open>Candidates\<close>

definition MAX_CANDIDATES :: nat where "MAX_CANDIDATES = 8"
definition DEFAULT_PORT :: u16 where "DEFAULT_PORT = 47650"

definition unusable_link_local :: "SocketAddr \<Rightarrow> bool" where
  "unusable_link_local a = (case a of
       SocketV6 ip _ _ scope \<Rightarrow> v6_segment0 ip AND 0xffc0 = 0xfe80 \<and> scope = 0
     | SocketV4 _ _ \<Rightarrow> False)"

definition dial_rank :: "SocketAddr \<Rightarrow> nat" where
  "dial_rank a = (if is_loopback a then 254 else rank a)"

definition sort_candidates :: "bool \<Rightarrow> SocketAddr list \<Rightarrow> SocketAddr list" where
  "sort_candidates include_loopback addrs =
     remdups_adj (sort_key dial_rank (filter (\<lambda>a. sa_port a \<noteq> 0 \<and> \<not> unusable_link_local a
        \<and> (include_loopback \<or> \<not> is_loopback a)) addrs))"

definition drop_own_addresses :: "SocketAddr list \<Rightarrow> SocketAddr list \<Rightarrow> SocketAddr list" where
  "drop_own_addresses own addrs = filter (\<lambda>a. a \<notin> set own) addrs"

text \<open>The race, as the sequence in which the attempts end (rank of the candidate, outcome).\<close>

definition race_error :: "nat \<Rightarrow> EngineError \<Rightarrow> (nat \<times> EngineError) option \<Rightarrow> (nat \<times> EngineError) option" where
  "race_error i e best = (case best of None \<Rightarrow> Some (i, e) | Some (j, _) \<Rightarrow> if i < j then Some (i, e) else best)"

fun race_from :: "(nat \<times> EngineError) option \<Rightarrow> (nat \<times> (EngineError + 'a)) list \<Rightarrow> EngineError + 'a" where
  "race_from best [] = Inl (case best of None \<Rightarrow> ErrUnreachable | Some (_, e) \<Rightarrow> e)"
| "race_from best ((i, Inr v) # ends) = Inr v"
| "race_from best ((i, Inl e) # ends) = race_from (race_error i e best) ends"

definition race_candidates :: "(nat \<times> (EngineError + 'a)) list \<Rightarrow> EngineError + 'a" where
  "race_candidates ends = race_from None ends"

section \<open>Dial state\<close>

definition new_dial :: "instant \<Rightarrow> DialState" where
  "new_dial now = \<lparr>ds_backoff = backoff_default, ds_next_attempt = now, ds_in_flight = False\<rparr>"

definition cancel_dial :: "DeviceId \<Rightarrow> Actor \<Rightarrow> Actor" where
  "cancel_dial did a =
     (let a1 = (case map_of (ac_dials a) did of
                  Some d \<Rightarrow> emit (AbortDial did)
                     (a\<lparr>ac_dials := AList.update did (d\<lparr>ds_in_flight := False\<rparr>) (ac_dials a)\<rparr>)
                | None \<Rightarrow> a)
      in a1\<lparr>ac_dial_targets := hm_retain (\<lambda>_ target. target \<noteq> did) (ac_dial_targets a1)\<rparr>)"

definition dial ::
  "Env \<Rightarrow> SocketAddr list \<Rightarrow> DeviceId option \<Rightarrow> PairRequest option \<Rightarrow> DeviceId option \<Rightarrow> u16 option
     \<Rightarrow> Actor \<Rightarrow> nat \<times> Actor" where
  "dial env addrs pinned pair target usb_port a =
     (let pin = set_transport (ac_settings a);
          addrs = drop_own_addresses (en_own_addresses env) (sort_candidates (en_include_loopback env) addrs);
          addrs = (if pin = PinUsb then [] else addrs);
          usb = (if pin = PinQuic then None else usb_port);
          conn_id = ac_next_conn_id a;
          a1 = emit (StartDial conn_id addrs pinned usb pair) (a\<lparr>ac_next_conn_id := conn_id + 1\<rparr>)
      in (conn_id, case target of
            Some did \<Rightarrow> a1\<lparr>ac_dial_targets := AList.update conn_id did (ac_dial_targets a1)\<rparr>
          | None \<Rightarrow> a1))"

definition usb_port :: "Env \<Rightarrow> bytes option \<Rightarrow> SocketAddr list \<Rightarrow> u16 option" where
  "usb_port env peer_platform addrs =
     (let desktop_peer = (case peer_platform of None \<Rightarrow> True
            | Some p \<Rightarrow> p = ascii ''windows'' \<or> p = ascii ''macos'' \<or> p = ascii ''linux'')
      in if en_platform env \<noteq> ''android'' \<or> \<not> desktop_peer then None
         else Some (case find (\<lambda>p. p \<noteq> 0) (map sa_port addrs) of Some p \<Rightarrow> p | None \<Rightarrow> DEFAULT_PORT))"

definition dial_state :: "instant \<Rightarrow> DeviceId \<Rightarrow> Actor \<Rightarrow> DialState" where
  "dial_state now did a = (case map_of (ac_dials a) did of Some d \<Rightarrow> d | None \<Rightarrow> new_dial now)"

definition set_dial :: "DeviceId \<Rightarrow> DialState \<Rightarrow> Actor \<Rightarrow> Actor" where
  "set_dial did d a = a\<lparr>ac_dials := AList.update did d (ac_dials a)\<rparr>"

text \<open>The wait after a failure, from the device's backoff.\<close>

definition back_off :: "Env \<Rightarrow> DialState \<Rightarrow> DialState" where
  "back_off env d = (let (wait, b) = next_delay (en_gen_range env) (ds_backoff d)
                     in d\<lparr>ds_backoff := b, ds_next_attempt := en_now env + wait\<rparr>)"

definition dial_addresses :: "Env \<Rightarrow> DeviceId \<Rightarrow> TrustedDevice \<Rightarrow> Actor \<Rightarrow> SocketAddr list" where
  "dial_addresses env did d a =
     (case map_of (ac_discovered a) did of Some addrs \<Rightarrow> addrs | None \<Rightarrow> [])
       @ List.map_filter (en_parse_addr env) (td_last_addresses d)"

definition try_dial_trusted :: "Env \<Rightarrow> DeviceId \<Rightarrow> Actor \<Rightarrow> Actor" where
  "try_dial_trusted env did a =
     (if hm_contains (ac_sessions a) did then a
      else case trusted a did of
        None \<Rightarrow> a
      | Some device \<Rightarrow>
          if td_blocked device then a
          else
            (let addrs = dial_addresses env did device a;
                 usb = usb_port env (Some (td_platform device)) addrs;
                 d = dial_state (en_now env) did a;
                 a1 = set_dial did d a
             in if ds_in_flight d \<or> en_now env < ds_next_attempt d then a1
                else if addrs = [] \<and> usb = None then set_dial did (back_off env d) a1
                else snd (dial env addrs (Some did) None (Some did) usb
                       (set_dial did (d\<lparr>ds_in_flight := True\<rparr>) a1))))"

definition on_dial_failed :: "Env \<Rightarrow> nat \<Rightarrow> DeviceId option \<Rightarrow> EngineError \<Rightarrow> Actor \<Rightarrow> Actor" where
  "on_dial_failed env conn_id target e a =
     (let a1 = a\<lparr>ac_pair_dials := AList.delete conn_id (ac_pair_dials a),
                 ac_dial_targets := AList.delete conn_id (ac_dial_targets a)\<rparr>
      in case target of
           Some did \<Rightarrow>
             if trusted a1 did \<noteq> None
             then set_dial did (back_off env ((dial_state (en_now env) did a1)\<lparr>ds_in_flight := False\<rparr>)) a1
             else emit (ErrorNotice e) a1
         | None \<Rightarrow> emit (ErrorNotice e) a1)"

definition on_discovered :: "Env \<Rightarrow> DeviceId \<Rightarrow> SocketAddr list \<Rightarrow> Actor \<Rightarrow> Actor" where
  "on_discovered env did addrs a =
     (let a1 = a\<lparr>ac_discovered := AList.update did addrs (ac_discovered a)\<rparr>
      in case map_of (ac_dials a1) did of
           Some d \<Rightarrow> if ds_in_flight d then a1
                     else set_dial did (d\<lparr>ds_backoff := backoff_reset (ds_backoff d),
                                          ds_next_attempt := en_now env\<rparr>) a1
         | None \<Rightarrow> a1)"

definition connect_device :: "Env \<Rightarrow> DeviceId \<Rightarrow> Actor \<Rightarrow> Actor" where
  "connect_device env did a =
     (let d = dial_state (en_now env) did a
      in try_dial_trusted env did
           (set_dial did (d\<lparr>ds_next_attempt := en_now env, ds_backoff := backoff_reset (ds_backoff d)\<rparr>) a))"

definition retry_dials :: "Env \<Rightarrow> Actor \<Rightarrow> Actor" where
  "retry_dials env a = a\<lparr>ac_dials := map (\<lambda>(k, d). (k, d\<lparr>ds_backoff := backoff_reset (ds_backoff d),
     ds_next_attempt := en_now env\<rparr>)) (ac_dials a)\<rparr>"

definition network_changed :: "Env \<Rightarrow> Actor \<Rightarrow> Actor" where
  "network_changed env a = emit UpdateDiscovery (retry_dials env a)"

definition auto_connect :: "Env \<Rightarrow> Actor \<Rightarrow> Actor" where
  "auto_connect env a =
     (if \<not> set_auto_connect_trusted (ac_settings a) then a
      else fold (try_dial_trusted env)
        (map td_device_id (filter (\<lambda>d. td_auto_connect d \<and> \<not> td_blocked d
           \<and> \<not> hm_contains (ac_sessions a) (td_device_id d)) (map snd (ts_devices (ac_trust a))))) a)"

end
