(* ===== verification/Session_Control.thy ===== *)
theory Session_Control
  imports Live_Profiles Dialing
begin

text \<open>
  Sessions and pairing in the engine actor (\<open>actor.rs\<close>): what happens to an authenticated connection, the
  pairing handshake with its two confirmations or QR proof, the session that replaces another one, the end of
  a session, and the commands that change what a device may do. The identity of a connection is the key its
  transport authenticated.
\<close>

section \<open>Small steps\<close>

definition REFUSED_AUDIT_INTERVAL :: duration where "REFUSED_AUDIT_INTERVAL = from_secs 600"
definition STABLE_HOLD :: duration where "STABLE_HOLD = from_secs 600"
definition TIE_BREAK_WINDOW :: duration where "TIE_BREAK_WINDOW = from_secs 5"

definition est_fingerprint :: "Env \<Rightarrow> Established \<Rightarrow> Fingerprint" where
  "est_fingerprint env est = of_public_key (en_sha256 env) (es_public_key est)"

definition est_device :: "Env \<Rightarrow> Established \<Rightarrow> DeviceId" where
  "est_device env est = fp_device_id (est_fingerprint env est)"

definition close_est :: "Established \<Rightarrow> StopReason \<Rightarrow> Actor \<Rightarrow> Actor" where
  "close_est est reason a = emit (CloseConn (es_conn_id est) reason) a"

definition audit_refused :: "Env \<Rightarrow> DeviceId \<Rightarrow> string \<Rightarrow> Actor \<Rightarrow> Actor" where
  "audit_refused env did detail a =
     (if (case map_of (ac_refused_audited a) did of Some t \<Rightarrow> en_now env - t < REFUSED_AUDIT_INTERVAL
            | None \<Rightarrow> False) then a
      else emit (Audit ConnectionRefused did None detail)
             (a\<lparr>ac_refused_audited := AList.update did (en_now env) (ac_refused_audited a)\<rparr>))"

definition forget_speaker_mutes :: "DeviceId \<Rightarrow> Actor \<Rightarrow> Actor" where
  "forget_speaker_mutes did a =
     (let a1 = a\<lparr>ac_peer_speakers_muted := AList.delete did (ac_peer_speakers_muted a),
                 ac_speakers_muted_by := removeAll did (ac_speakers_muted_by a)\<rparr>
      in if did \<in> set (ac_speakers_muted_by a) \<and> ac_speakers_muted_by a1 = []
            \<and> \<not> (cap_mute_local_speakers (set_capture (ac_settings a1))
                 \<and> (\<exists>r\<in>set (ac_routes a1). rt_kind r = SendSystemAudio))
         then emit (MuteSpeakers False) a1 else a1)"

section \<open>A session begins\<close>

definition touch_device :: "Env \<Rightarrow> Established \<Rightarrow> TrustedDevice \<Rightarrow> TrustedDevice" where
  "touch_device env est d =
     (let addr = en_show_addr env (es_remote est)
      in d\<lparr>td_last_seen_unix := en_unix env, td_name := device_name (es_hello est),
           td_last_addresses := take 4 (addr # filter (\<lambda>x. x \<noteq> addr) (td_last_addresses d))\<rparr>)"

definition end_session_for_newer :: "Env \<Rightarrow> DeviceId \<Rightarrow> PeerSession \<Rightarrow> Actor \<Rightarrow> Actor" where
  "end_session_for_newer env did old a =
     emit (EndNetworkTest did ErrUnreachable)
       (pause_routes_for env did
         (emit (CloseConn (ps_conn_id old) Superseded)
           (a\<lparr>ac_sessions := AList.delete did (ac_sessions a),
              ac_conn_index := AList.delete (ps_conn_id old) (ac_conn_index a)\<rparr>)))"

definition issue_ticket :: "Env \<Rightarrow> PeerSession \<Rightarrow> Actor \<Rightarrow> Actor" where
  "issue_ticket env s a =
     (if capability_has (Capabilities (capabilities (ps_hello s))) FEATURE_SESSION_RESUME
      then let (token, resume) = resume_issue (ps_public_key s) (en_now env) (en_token env) (ac_resume a)
           in emit (SendMsg (ps_conn_id s) (BSessionTicket \<lparr>ticket_token = token, ticket_lifetime_secs = 600\<rparr>))
                (a\<lparr>ac_resume := resume\<rparr>)
      else a)"

definition open_session :: "Env \<Rightarrow> DeviceId \<Rightarrow> Established \<Rightarrow> Actor \<Rightarrow> Actor" where
  "open_session env did est a =
     (let a1 = a\<lparr>ac_trust := snd (update_hints did (touch_device env est) (ac_trust a))\<rparr>;
          a2 = cancel_dial did a1;
          a3 = (case map_of (ac_dials a2) did of
                  Some d \<Rightarrow> set_dial did (d\<lparr>ds_backoff := backoff_reset (ds_backoff d)\<rparr>) a2 | None \<Rightarrow> a2);
          a4 = a3\<lparr>ac_conn_index := AList.update (es_conn_id est) did (ac_conn_index a3)\<rparr>;
          s = \<lparr>ps_conn_id = es_conn_id est, ps_public_key = es_public_key est, ps_hello = es_hello est,
               ps_dialed = es_dialed est, ps_next_route = (if es_dialed est then 2 else 1),
               ps_connected_at = en_now env\<rparr>;
          a5 = issue_ticket env s a4
      in resume_routes env did (a5\<lparr>ac_sessions := AList.update did s (ac_sessions a5)\<rparr>))"

definition promote_session :: "Env \<Rightarrow> DeviceId \<Rightarrow> Established \<Rightarrow> Actor \<Rightarrow> Actor" where
  "promote_session env did est a =
     (case map_of (ac_sessions a) did of
        None \<Rightarrow> open_session env did est a
      | Some old \<Rightarrow>
          (let local_lower = (ac_device_id a < did);
               old_preferred = (ps_dialed old = local_lower);
               new_preferred = (es_dialed est = local_lower)
           in if old_preferred \<and> \<not> new_preferred \<and> en_now env - ps_connected_at old < TIE_BREAK_WINDOW
              then cancel_dial did (close_est est Superseded a)
              else open_session env did est (end_session_for_newer env did old a)))"

section \<open>Pairing\<close>

definition begin_pairing :: "Env \<Rightarrow> DeviceId \<Rightarrow> Established \<Rightarrow> bool \<Rightarrow> Actor \<Rightarrow> Actor" where
  "begin_pairing env did est qr_scanner a =
     (case es_exporter est of
        None \<Rightarrow> emit (ErrorNotice (ErrInternal ''pairing code unavailable'')) (close_est est StopUnspecified a)
      | Some exporter \<Rightarrow>
          (let code = sas_code (en_sha256 env) exporter (ac_fingerprint a) (est_fingerprint env est);
               a1 = (case map_of (ac_pairings a) did of
                       Some old \<Rightarrow> close_est (pp_est old) Superseded a | None \<Rightarrow> a);
               a2 = a1\<lparr>ac_pairings := AList.update did
                         \<lparr>pp_est = est, pp_code = code, pp_local_confirmed = False, pp_peer_confirmed = False,
                          pp_qr_scanner = qr_scanner, pp_created = en_now env\<rparr> (ac_pairings a1)\<rparr>
           in if ac_foreground a2 then a2 else emit (AttentionNeeded ''pairing.prompt'' did) a2))"

definition platform_name :: "int \<Rightarrow> bytes" where
  "platform_name p = ascii (if p = 1 then ''windows'' else if p = 2 then ''linux'' else if p = 3 then ''macos''
     else if p = 4 then ''android'' else if p = 5 then ''ios'' else ''unknown'')"

definition paired_device :: "Env \<Rightarrow> DeviceId \<Rightarrow> Established \<Rightarrow> TrustedDevice" where
  "paired_device env did est =
     \<lparr>td_device_id = did, td_public_key = es_public_key est, td_name = device_name (es_hello est),
      td_alias = None, td_platform = platform_name (hello_platform (es_hello est)),
      td_permissions = permissions_default, td_auto_connect = True, td_blocked = False,
      td_paired_at_unix = en_unix env, td_last_seen_unix = en_unix env,
      td_last_addresses = [en_show_addr env (es_remote est)]\<rparr>"

definition complete_pairing :: "Env \<Rightarrow> DeviceId \<Rightarrow> Actor \<Rightarrow> Actor" where
  "complete_pairing env did a =
     (case map_of (ac_pairings a) did of
        None \<Rightarrow> a
      | Some p \<Rightarrow>
          (let a1 = a\<lparr>ac_pairings := AList.delete did (ac_pairings a)\<rparr>;
               (saved, tf) = trust_upsert (en_crypto env) (en_serde env) (en_io env)
                               (paired_device env did (pp_est p)) (ac_trust a1) (ac_files a1);
               a2 = set_trust tf a1
           in case saved of
                Inl e \<Rightarrow> emit (ErrorNotice (from_security_error (en_security_text env) e)) a2
              | Inr _ \<Rightarrow> promote_session env did (pp_est p)
                  (emit (NoticeShown ''notice.pairingSuccess'') (emit (Audit PairingSucceeded did None '''') a2))))"

definition set_pairing :: "DeviceId \<Rightarrow> PendingPairing \<Rightarrow> Actor \<Rightarrow> Actor" where
  "set_pairing did p a = a\<lparr>ac_pairings := AList.update did p (ac_pairings a)\<rparr>"

definition confirm_pairing :: "Env \<Rightarrow> DeviceId \<Rightarrow> bool \<Rightarrow> Actor \<Rightarrow> Actor" where
  "confirm_pairing env did accept a =
     (case map_of (ac_pairings a) did of
        None \<Rightarrow> a
      | Some p \<Rightarrow>
          (let a1 = emit (SendMsg (es_conn_id (pp_est p)) (BPairResult \<lparr>pair_accepted = accept\<rparr>))
                      (set_pairing did (p\<lparr>pp_local_confirmed := accept\<rparr>) a)
           in if \<not> accept
              then close_est (pp_est p) PermissionDenied
                     (let a2 = emit (Audit AuditPairingRejected did None ''local'') a1
                      in a2\<lparr>ac_pairings := AList.delete did (ac_pairings a2)\<rparr>)
              else if pp_peer_confirmed p then complete_pairing env did a1 else a1))"

definition on_pair_result :: "Env \<Rightarrow> DeviceId \<Rightarrow> PendingPairing \<Rightarrow> PairResult \<Rightarrow> Actor \<Rightarrow> Actor" where
  "on_pair_result env did p result a =
     (if \<not> pair_accepted result
      then emit (ErrorNotice ErrPairingRejected)
             (close_est (pp_est p) PermissionDenied
               (let a1 = emit (Audit AuditPairingRejected did None ''peer'') a
                in a1\<lparr>ac_pairings := AList.delete did (ac_pairings a1)\<rparr>))
      else
        (let a1 = set_pairing did (p\<lparr>pp_peer_confirmed := True\<rparr>) a
         in if pp_qr_scanner p
            then complete_pairing env did
                   (emit (SendMsg (es_conn_id (pp_est p)) (BPairResult \<lparr>pair_accepted = True\<rparr>)) a1)
            else if pp_local_confirmed p then complete_pairing env did a1
            else a1))"

definition refuse_pairing :: "Env \<Rightarrow> Established \<Rightarrow> string \<Rightarrow> Actor \<Rightarrow> Actor" where
  "refuse_pairing env est detail a =
     close_est est PermissionDenied (emit (Audit AuditPairingRejected (est_device env est) None detail) a)"

definition accept_qr_proof :: "Env \<Rightarrow> Established \<Rightarrow> Actor \<Rightarrow> Actor" where
  "accept_qr_proof env est a =
     (let did = est_device env est;
          a1 = begin_pairing env did est False (emit UpdateDiscovery (a\<lparr>ac_qr := None\<rparr>));
          a2 = (case map_of (ac_pairings a1) did of
                  Some p \<Rightarrow> set_pairing did (p\<lparr>pp_local_confirmed := True, pp_peer_confirmed := True\<rparr>) a1
                | None \<Rightarrow> a1)
      in complete_pairing env did
           (emit (SendMsg (es_conn_id est) (BPairResult \<lparr>pair_accepted = True\<rparr>)) a2))"

definition on_pair_request :: "Env \<Rightarrow> Established \<Rightarrow> PairRequest \<Rightarrow> Actor \<Rightarrow> Actor" where
  "on_pair_request env est req a0 =
     (let did = est_device env est;
          a = emit (Audit PairingAttempt did None '''') a0
      in case (qr_proof req, ac_qr a) of
           (Some prf, Some qr) \<Rightarrow>
             if qr_is_expired qr (en_unix env) then refuse_pairing env est ''proof'' a
             else (case verify_pairing_proof (en_hmac env) (qr_secret qr) (est_fingerprint env est)
                          (ac_device_id a) prf of
                     Inl _ \<Rightarrow> refuse_pairing env est ''proof'' a
                   | Inr _ \<Rightarrow> accept_qr_proof env est a)
         | (None, Some _) \<Rightarrow> begin_pairing env did est False a
         | (_, None) \<Rightarrow> refuse_pairing env est ''closed'' a)"

section \<open>An authenticated connection\<close>

definition redeem_token :: "Env \<Rightarrow> Established \<Rightarrow> Actor \<Rightarrow> Actor" where
  "redeem_token env est a =
     (case resume_token (es_hello est) of
        Some token \<Rightarrow> a\<lparr>ac_resume := snd (resume_redeem (en_sha256 env) (es_public_key est) token (en_now env)
                                            (ac_resume a))\<rparr>
      | None \<Rightarrow> a)"

definition await_pair_request :: "Env \<Rightarrow> Established \<Rightarrow> Actor \<Rightarrow> Actor" where
  "await_pair_request env est a =
     (let (decision, limiter) = pairing_check (canonical (sa_ip (es_remote est)), en_now env) (ac_limiter a);
          a1 = a\<lparr>ac_limiter := limiter\<rparr>
      in case decision of
           Refused first \<Rightarrow>
             (let a2 = close_est est RateLimited a1
              in if first then emit (NoticeShown ''notice.pairingRateLimited'')
                                (emit (Audit AuditPairingRateLimited (est_device env est) None '''') a2)
                 else a2)
         | Allowed \<Rightarrow> a1\<lparr>ac_unpaired := AList.update (es_conn_id est) (est, en_now env) (ac_unpaired a1)\<rparr>)"

definition on_established :: "Env \<Rightarrow> Established \<Rightarrow> Actor \<Rightarrow> Actor" where
  "on_established env est a0 =
     (let pair_dial = map_of (ac_pair_dials a0) (es_conn_id est);
          a = a0\<lparr>ac_dial_targets := AList.delete (es_conn_id est) (ac_dial_targets a0),
                 ac_pair_dials := AList.delete (es_conn_id est) (ac_pair_dials a0)\<rparr>;
          did = est_device env est
      in case trusted a did of
           Some d \<Rightarrow>
             if td_blocked d \<or> td_public_key d \<noteq> es_public_key est
             then audit_refused env did (if td_blocked d then ''blocked'' else ''keyChanged'')
                    (close_est est PermissionDenied a)
             else promote_session env did est (redeem_token env est a)
         | None \<Rightarrow>
             if es_dialed est
             then (case pair_dial of
                     Some qr_scanner \<Rightarrow> begin_pairing env did est qr_scanner a
                   | None \<Rightarrow> close_est est PermissionDenied a)
             else await_pair_request env est a)"

definition on_handshake_failed :: "Env \<Rightarrow> nat \<Rightarrow> bool \<Rightarrow> Actor \<Rightarrow> Actor" where
  "on_handshake_failed env conn_id incompatible a0 =
     (let target = map_of (ac_dial_targets a0) conn_id;
          a = a0\<lparr>ac_pair_dials := AList.delete conn_id (ac_pair_dials a0),
                 ac_dial_targets := AList.delete conn_id (ac_dial_targets a0)\<rparr>;
          a1 = (case target of
                  None \<Rightarrow> a
                | Some did \<Rightarrow> (case map_of (ac_dials a) did of
                      Some d \<Rightarrow> set_dial did (back_off env (d\<lparr>ds_in_flight := False\<rparr>)) a | None \<Rightarrow> a))
      in if incompatible then emit (ErrorNotice ErrIncompatibleVersion) a1 else a1)"

section \<open>A session ends\<close>

definition record_reconnect :: "Env \<Rightarrow> DeviceId \<Rightarrow> Actor \<Rightarrow> Actor" where
  "record_reconnect env did a =
     (let (flapping, events) = flap_record (en_now env)
            (case map_of (ac_flaps a) did of Some f \<Rightarrow> f | None \<Rightarrow> []);
          a1 = a\<lparr>ac_flaps := AList.update did events (ac_flaps a)\<rparr>
      in if hm_contains (ac_stabilized a1) did \<or> flapping
         then let a2 = a1\<lparr>ac_stabilized := AList.update did (en_now env) (ac_stabilized a1)\<rparr>
              in if hm_contains (ac_stabilized a1) did then a2 else emit (NoticeShown ''notice.unstableConnection'') a2
         else a1)"

definition set_auto_connect :: "Env \<Rightarrow> DeviceId \<Rightarrow> bool \<Rightarrow> Actor \<Rightarrow> Actor" where
  "set_auto_connect env did enabled a = update_trust env did (\<lambda>d. d\<lparr>td_auto_connect := enabled\<rparr>) a"

definition drop_dial :: "DeviceId \<Rightarrow> Actor \<Rightarrow> Actor" where
  "drop_dial did a = (let a1 = cancel_dial did a in a1\<lparr>ac_dials := AList.delete did (ac_dials a1)\<rparr>)"

definition after_close :: "Env \<Rightarrow> DeviceId \<Rightarrow> StopReason \<Rightarrow> Actor \<Rightarrow> Actor" where
  "after_close env did reason a =
     (if reason = PermissionDenied \<or> reason = PermissionRevoked
      then emit (NoticeShown ''notice.peerForgotUs'')
             (set_auto_connect env did False (drop_dial did (remove_routes_for did a)))
      else if reason = UserStopped then remove_routes_for did a
      else
        (let a1 = pause_routes_for env did a;
             a2 = (if reason \<noteq> Superseded then record_reconnect env did a1 else a1)
         in case trusted a2 did of
              Some d \<Rightarrow>
                if td_auto_connect d
                then let s = dial_state (en_now env) did a2
                     in set_dial did (s\<lparr>ds_in_flight := False, ds_backoff := backoff_reset (ds_backoff s),
                                        ds_next_attempt := en_now env + from_millis 300\<rparr>) a2
                else a2
            | None \<Rightarrow> a2))"

definition drop_pairing_of :: "nat \<Rightarrow> StopReason \<Rightarrow> Actor \<Rightarrow> Actor" where
  "drop_pairing_of conn_id reason a =
     (case find (\<lambda>(_, p). es_conn_id (pp_est p) = conn_id) (ac_pairings a) of
        None \<Rightarrow> a
      | Some (did, _) \<Rightarrow>
          (let a1 = a\<lparr>ac_pairings := AList.delete did (ac_pairings a)\<rparr>
           in if reason = PermissionDenied then emit (ErrorNotice ErrPairingRejected) a1
              else if reason = RateLimited then emit (ErrorNotice ErrPairingRateLimited) a1
              else a1))"

definition on_closed :: "Env \<Rightarrow> nat \<Rightarrow> StopReason \<Rightarrow> Actor \<Rightarrow> Actor" where
  "on_closed env conn_id reason a0 =
     (let a = drop_pairing_of conn_id reason (a0\<lparr>ac_unpaired := AList.delete conn_id (ac_unpaired a0)\<rparr>);
          a1 = a\<lparr>ac_conn_index := AList.delete conn_id (ac_conn_index a)\<rparr>
      in case map_of (ac_conn_index a) conn_id of
           None \<Rightarrow> a1
         | Some did \<Rightarrow>
             if map_option ps_conn_id (map_of (ac_sessions a1) did) \<noteq> Some conn_id then a1
             else after_close env did reason
                    (emit (EndNetworkTest did ErrUnreachable)
                      (forget_speaker_mutes did (a1\<lparr>ac_sessions := AList.delete did (ac_sessions a1)\<rparr>))))"

section \<open>Revoking a device\<close>

definition end_session_with :: "DeviceId \<Rightarrow> StopReason \<Rightarrow> Actor \<Rightarrow> Actor" where
  "end_session_with did reason a =
     (case map_of (ac_sessions a) did of
        None \<Rightarrow> a
      | Some s \<Rightarrow> emit (CloseConn (ps_conn_id s) reason)
          (a\<lparr>ac_sessions := AList.delete did (ac_sessions a),
             ac_conn_index := AList.delete (ps_conn_id s) (ac_conn_index a)\<rparr>))"

definition forget_flaps :: "DeviceId \<Rightarrow> Actor \<Rightarrow> Actor" where
  "forget_flaps did a =
     a\<lparr>ac_flaps := AList.delete did (ac_flaps a), ac_stabilized := AList.delete did (ac_stabilized a)\<rparr>"

definition revoke :: "Env \<Rightarrow> DeviceId \<Rightarrow> Actor \<Rightarrow> Actor" where
  "revoke env did a =
     (let a1 = drop_dial did (remove_routes_for did (forget_flaps did a));
          a2 = emit (EndNetworkTest did ErrRevoked)
                 (a1\<lparr>ac_resume := resume_forget (en_sha256 env) did (ac_resume a1)\<rparr>)
      in forget_speaker_mutes did (end_session_with did PermissionRevoked a2))"

definition disconnect_device :: "Env \<Rightarrow> DeviceId \<Rightarrow> Actor \<Rightarrow> Actor" where
  "disconnect_device env did a =
     set_auto_connect env did False
       (forget_flaps did
         (emit (EndNetworkTest did ErrUnreachable)
           (remove_routes_for did
             (forget_speaker_mutes did (end_session_with did UserStopped (drop_dial did a))))))"

definition forget_device :: "Env \<Rightarrow> DeviceId \<Rightarrow> Actor \<Rightarrow> Actor" where
  "forget_device env did a =
     (let a1 = revoke env did a;
          a2 = (if trusted a1 did \<noteq> None then emit (Audit DeviceForgotten did None '''') a1 else a1);
          a3 = emit (ForgetNetworkTest did) (set_trust (snd (trust_remove (en_crypto env) (en_serde env) (en_io env)
                 did (ac_trust a2) (ac_files a2))) a2);
          pid = device_id_to_hex did;
          st = ac_settings a3;
          st' = st\<lparr>set_device_profiles := AList.delete pid (set_device_profiles st),
                   set_saved_routes := filter (\<lambda>s. sr_peer_id s \<noteq> pid) (set_saved_routes st)\<rparr>;
          a4 = a3\<lparr>ac_settings := st'\<rparr>
      in if hm_contains (set_device_profiles st) pid
            \<or> length (set_saved_routes st) \<noteq> length (set_saved_routes st')
         then emit SaveSettings a4 else a4)"

definition set_blocked :: "Env \<Rightarrow> DeviceId \<Rightarrow> bool \<Rightarrow> Actor \<Rightarrow> Actor" where
  "set_blocked env did blocked a =
     (let a1 = update_trust env did (\<lambda>d. d\<lparr>td_blocked := blocked\<rparr>) a;
          a2 = (if blocked then revoke env did a1 else a1)
      in if trusted a2 did \<noteq> None
         then emit (Audit (if blocked then DeviceBlocked else DeviceUnblocked) did None '''') a2 else a2)"

definition set_device_permission :: "Env \<Rightarrow> DeviceId \<Rightarrow> PermissionKind \<Rightarrow> Policy \<Rightarrow> Actor \<Rightarrow> Actor" where
  "set_device_permission env did kind policy a =
     (let a1 = update_trust env did (set_permission kind policy) a;
          a2 = (if trusted a1 did \<noteq> None then audit_permission did kind policy a1 else a1)
      in if policy = Deny then enforce_permissions did a2 else a2)"

definition rename_device :: "Env \<Rightarrow> DeviceId \<Rightarrow> bytes option \<Rightarrow> Actor \<Rightarrow> Actor" where
  "rename_device env did alias a =
     (let alias = (case map_option (\<lambda>s. take_chars 64 (trim s)) alias of
                     Some [] \<Rightarrow> None | x \<Rightarrow> x)
      in update_trust env did (\<lambda>d. d\<lparr>td_alias := alias\<rparr>) a)"

definition set_keep_running :: "RouteKey \<Rightarrow> bool \<Rightarrow> Actor \<Rightarrow> Actor" where
  "set_keep_running key keep a =
     (case find_route key a of
        None \<Rightarrow> a
      | Some r \<Rightarrow>
          (let pid = device_id_to_hex (rt_peer r);
               a1 = change_route key (\<lambda>r. r\<lparr>rt_keep_running := keep\<rparr>) a;
               st = ac_settings a1;
               auto = (rt_requested_locally r \<and> set_resume_routes_on_start st);
               kept = filter (\<lambda>s. \<not> saved_matches s pid (rt_kind r)) (set_saved_routes st);
               saved = (if keep \<or> auto then kept @ [\<lparr>sr_peer_id = pid, sr_kind = rt_kind r, sr_keep = keep\<rparr>]
                        else kept)
           in emit SaveSettings (a1\<lparr>ac_settings := st\<lparr>set_saved_routes := saved\<rparr>\<rparr>)))"

definition start_pairing :: "Env \<Rightarrow> bytes \<Rightarrow> Actor \<Rightarrow> Actor" where
  "start_pairing env secret a =
     emit UpdateDiscovery
       (a\<lparr>ac_qr := Some (qr_new secret (ac_device_id a) (en_local_addresses env) (en_unix env))\<rparr>)"

definition stop_pairing :: "Actor \<Rightarrow> Actor" where
  "stop_pairing a = emit UpdateDiscovery (a\<lparr>ac_qr := None\<rparr>)"

definition pair_with_qr :: "Env \<Rightarrow> bytes \<Rightarrow> Actor \<Rightarrow> (EngineError + unit) \<times> Actor" where
  "pair_with_qr env uri a =
     (case from_uri uri of
        Inl _ \<Rightarrow> (Inl (ErrInvalidInput ''pairing code''), a)
      | Inr payload \<Rightarrow>
          if qr_device_id payload = ac_device_id a
          then (Inl (ErrInvalidInput ''this is your own pairing code''), a)
          else
            (let prf = pairing_proof (en_hmac env) (qr_secret payload) (ac_fingerprint a) (qr_device_id payload);
                 (conn_id, a1) = dial env (qr_addresses payload) (Some (qr_device_id payload))
                    (Some \<lparr>qr_proof = Some prf\<rparr>) (Some (qr_device_id payload))
                    (usb_port env None (qr_addresses payload)) a
             in (Inr (), a1\<lparr>ac_pair_dials := AList.update conn_id True (ac_pair_dials a1)\<rparr>)))"

definition pair_with_device :: "Env \<Rightarrow> DeviceId \<Rightarrow> Actor \<Rightarrow> (EngineError + unit) \<times> Actor" where
  "pair_with_device env did a =
     (case map_of (ac_discovered a) did of
        None \<Rightarrow> (Inl ErrDeviceNotFound, a)
      | Some addrs \<Rightarrow>
          (let (conn_id, a1) = dial env addrs None (Some \<lparr>qr_proof = None\<rparr>) None None a
           in (Inr (), a1\<lparr>ac_pair_dials := AList.update conn_id False (ac_pair_dials a1)\<rparr>)))"

text \<open>Pairing with an address that was typed in, once it was resolved; on a phone a loopback address is a USB forward.\<close>

definition pair_with_address :: "Env \<Rightarrow> SocketAddr list \<Rightarrow> Actor \<Rightarrow> (EngineError + unit) \<times> Actor" where
  "pair_with_address env addrs a =
     (if addrs = [] then (Inl (ErrInvalidInput ''address''), a)
      else
        (let usb = (if en_platform env = ''android'' then map_option sa_port (find is_loopback addrs) else None);
             (conn_id, a1) = dial env addrs None (Some \<lparr>qr_proof = None\<rparr>) None usb a
         in (Inr (), a1\<lparr>ac_pair_dials := AList.update conn_id False (ac_pair_dials a1)\<rparr>)))"

section \<open>Volume and mute from this device\<close>

text \<open>A route played here is set here; otherwise the peer that plays it is told.\<close>

definition set_route_volume :: "RouteKey \<Rightarrow> f32 \<Rightarrow> Actor \<Rightarrow> Actor" where
  "set_route_volume key volume a =
     (let volume = f64_clamp volume (FNum 0) (FNum 2)
      in case find_route key a of
           None \<Rightarrow> a
         | Some r \<Rightarrow>
             (let a1 = change_route key (\<lambda>r. r\<lparr>rt_volume := volume\<rparr>) a
              in if rt_receiver_controls r then a1
                 else send_to (rt_peer r) (BVolumeSet \<lparr>vs_route = ucast (rt_id r),
                        vs_target = control_target_as_i32 RouteStream, vs_gain = volume\<rparr>) a1))"

definition set_route_muted :: "RouteKey \<Rightarrow> bool \<Rightarrow> Actor \<Rightarrow> Actor" where
  "set_route_muted key muted a =
     (case find_route key a of
        None \<Rightarrow> a
      | Some r \<Rightarrow>
          (let a1 = change_route key (\<lambda>r. r\<lparr>rt_muted := muted\<rparr>) a
           in if rt_receiver_controls r then a1
              else send_to (rt_peer r) (BMuteSet \<lparr>ms_route = ucast (rt_id r),
                     ms_target = control_target_as_i32 RouteStream, ms_muted = muted\<rparr>) a1))"

definition set_peer_speakers_muted :: "DeviceId \<Rightarrow> bool \<Rightarrow> Actor \<Rightarrow> Actor" where
  "set_peer_speakers_muted did muted a =
     (if hm_contains (ac_sessions a) did
      then let a1 = send_to did (BMuteSet \<lparr>ms_route = 0, ms_target = control_target_as_i32 DeviceSpeakers,
                                         ms_muted = muted\<rparr>) a
           in a1\<lparr>ac_peer_speakers_muted := AList.update did muted (ac_peer_speakers_muted a1)\<rparr>
      else a)"

end
