(* ===== verification/Engine_Steps.thy ===== *)
theory Engine_Steps
  imports Session_Control
begin

text \<open>
  The engine actor as a state machine: what it does with each control message, command, audio result and tick
  (\<open>actor.rs\<close>), dispatched to the handlers of the other theories, and the states it can reach. Messages of the
  network tests are handed on; statistics reports, notices and pings change nothing that is modelled.
  Not among the events: handshakes that were refused before a key was known (the count is \<open>refused_record\<close> of
  \<open>Rate_Limits\<close>) and dialled addresses that turn out to be this device, the mute of this device's microphone
  (an atomic of the running pipelines), the lists of audio devices, dismissed notices, the network tests
  (\<open>Network_Test\<close>), the security log (\<open>Security_Log\<close>), the simulated loss of a connection, which closes the
  connection and reaches the engine as \<open>EvClosed\<close>, and the shutdown, which ends every run. None of the others
  opens a session, adds a route or a pairing, or changes a permission.
\<close>

section \<open>Remote volume and mute\<close>

definition peer_may_control :: "DeviceId \<Rightarrow> Actor \<Rightarrow> bool" where
  "peer_may_control peer a \<longleftrightarrow> policy_for a peer ControlMe = Allow"

definition on_remote_volume :: "DeviceId \<Rightarrow> VolumeSet \<Rightarrow> Actor \<Rightarrow> Actor" where
  "on_remote_volume peer v a =
     (if \<not> peer_may_control peer a then a
      else change_route (peer, ucast (vs_route v))
             (\<lambda>r. r\<lparr>rt_volume := f64_clamp (vs_gain v) (FNum 0) (FNum 2)\<rparr>) a)"

definition on_remote_mute :: "Env \<Rightarrow> DeviceId \<Rightarrow> MuteSet \<Rightarrow> Actor \<Rightarrow> Actor" where
  "on_remote_mute env peer m a =
     (if \<not> peer_may_control peer a then a
      else if ms_target m = control_target_as_i32 DeviceSpeakers
      then let a1 = emit (MuteSpeakers (ms_muted m)) (a\<lparr>ac_speakers_muted_by :=
                      (if ms_muted m then List.insert peer (ac_speakers_muted_by a)
                       else removeAll peer (ac_speakers_muted_by a))\<rparr>)
           in if en_can_mute_speakers env then a1 else emit (NoticeShown ''notice.muteSpeakersUnsupported'') a1
      else change_route (peer, ucast (ms_route m)) (\<lambda>r. r\<lparr>rt_muted := ms_muted m\<rparr>) a)"

section \<open>Control messages\<close>

definition on_hello :: "nat \<Rightarrow> DeviceId \<Rightarrow> Hello \<Rightarrow> Actor \<Rightarrow> Actor" where
  "on_hello conn_id peer h a =
     (case map_of (ac_sessions a) peer of
        Some s \<Rightarrow>
          if ps_conn_id s = conn_id \<and> hello_device_id h = hello_device_id (ps_hello s)
          then a\<lparr>ac_sessions := AList.update peer
                 (s\<lparr>ps_hello := (ps_hello s)\<lparr>capabilities := capabilities h,
                                               hello_endpoints := hello_endpoints h\<rparr>\<rparr>) (ac_sessions a)\<rparr>
          else a
      | None \<Rightarrow> a)"

definition on_ticket :: "Env \<Rightarrow> nat \<Rightarrow> DeviceId \<Rightarrow> SessionTicket \<Rightarrow> Actor \<Rightarrow> Actor" where
  "on_ticket env conn_id peer t a =
     (case map_of (ac_sessions a) peer of
        Some s \<Rightarrow> if ps_conn_id s = conn_id
                  then a\<lparr>ac_resume := resume_hold peer (ticket_token t) (unat (ticket_lifetime_secs t))
                                        (en_now env) (ac_resume a)\<rparr>
                  else a
      | None \<Rightarrow> a)"

definition peer_message :: "Env \<Rightarrow> nat \<Rightarrow> DeviceId \<Rightarrow> Body \<Rightarrow> Actor \<Rightarrow> Actor" where
  "peer_message env conn_id peer b a = (case b of
       BRouteRequest req \<Rightarrow> on_route_request env peer req a
     | BRouteAccept acc \<Rightarrow> on_route_accept env peer acc a
     | BRouteReject rej \<Rightarrow> on_route_reject peer rej a
     | BRouteStop stop \<Rightarrow> on_route_stop peer stop a
     | BRouteUpdate upd \<Rightarrow> on_route_update env peer upd a
     | BVolumeSet v \<Rightarrow> on_remote_volume peer v a
     | BMuteSet m \<Rightarrow> on_remote_mute env peer m a
     | BHello h \<Rightarrow> on_hello conn_id peer h a
     | BSessionTicket t \<Rightarrow> on_ticket env conn_id peer t a
     | BNetTestStart _ \<Rightarrow> emit (NetworkTestMsg peer b) a
     | BNetTestReady _ \<Rightarrow> emit (NetworkTestMsg peer b) a
     | BNetTestStop _ \<Rightarrow> emit (NetworkTestMsg peer b) a
     | _ \<Rightarrow> a)"

definition on_control :: "Env \<Rightarrow> nat \<Rightarrow> ControlMsg \<Rightarrow> Actor \<Rightarrow> Actor" where
  "on_control env conn_id msg a =
     (case body msg of
        None \<Rightarrow> a
      | Some b \<Rightarrow>
      (case map_of (ac_unpaired a) conn_id of
        Some (est, _) \<Rightarrow>
          (let a1 = a\<lparr>ac_unpaired := AList.delete conn_id (ac_unpaired a)\<rparr>
           in case b of
                BPairRequest req \<Rightarrow> on_pair_request env est req a1
              | _ \<Rightarrow> close_est est PermissionDenied a1)
      | None \<Rightarrow>
      (case find (\<lambda>(_, p). es_conn_id (pp_est p) = conn_id) (ac_pairings a) of
        Some (did, p) \<Rightarrow> (case b of BPairResult result \<Rightarrow> on_pair_result env did p result a | _ \<Rightarrow> a)
      | None \<Rightarrow>
      (case map_of (ac_conn_index a) conn_id of
        None \<Rightarrow> a
      | Some peer \<Rightarrow> peer_message env conn_id peer b a))))"

section \<open>Settings\<close>

definition sync_resumable_routes :: "Actor \<Rightarrow> Actor" where
  "sync_resumable_routes a =
     (let st = ac_settings a;
          add = (\<lambda>r saved. if \<exists>s\<in>set saved. saved_matches s (device_id_to_hex (rt_peer r)) (rt_kind r) then saved
                  else saved @ [\<lparr>sr_peer_id = device_id_to_hex (rt_peer r), sr_kind = rt_kind r, sr_keep = False\<rparr>]);
          saved = (if set_resume_routes_on_start st
                   then take 32 (fold add (filter (\<lambda>r. rt_requested_locally r \<and> rt_status r = Active) (ac_routes a))
                                  (set_saved_routes st))
                   else filter sr_keep (set_saved_routes st))
      in emit SaveSettings (a\<lparr>ac_settings := st\<lparr>set_saved_routes := saved\<rparr>\<rparr>))"

definition apply_settings :: "Env \<Rightarrow> Settings \<Rightarrow> Actor \<Rightarrow> Actor" where
  "apply_settings env old a =
     (let new = ac_settings a;
          a1 = (if set_device_name old \<noteq> set_device_name new \<or> set_visibility old \<noteq> set_visibility new
                   \<or> dt_virtual_mic_device (set_desktop old) \<noteq> dt_virtual_mic_device (set_desktop new)
                then emit UpdateDiscovery a else a);
          a2 = (if set_transport old \<noteq> set_transport new then retry_dials env a1 else a1);
          mute = cap_mute_local_speakers (set_capture new);
          a3 = (if cap_mute_local_speakers (set_capture old) \<noteq> mute \<and> ac_speakers_muted_by a2 = []
                   \<and> (\<exists>r\<in>set (ac_routes a2). rt_kind r = SendSystemAudio \<and> rt_sender_controls r)
                then emit (MuteSpeakers mute) a2 else a2);
          a4 = reconfigure_routes env old a3;
          a5 = (if set_resume_routes_on_start old \<noteq> set_resume_routes_on_start new
                then sync_resumable_routes a4 else a4)
      in if mic_monitor (set_mic old) \<noteq> mic_monitor (set_mic new)
         then set_monitor env (mic_monitor (set_mic new)) a5 else a5)"

definition update_settings :: "Env \<Rightarrow> Settings \<Rightarrow> Actor \<Rightarrow> Actor" where
  "update_settings env settings a =
     (let old = ac_settings a;
          s = sanitize settings;
          s = (if set_device_name s = [] then s\<lparr>set_device_name := set_device_name old\<rparr> else s);
          s = schedule_debug_logging (set_debug_logging old) (en_unix env) s
      in apply_settings env old (emit SaveSettings (a\<lparr>ac_settings := s\<rparr>)))"

definition set_device_profile :: "Env \<Rightarrow> DeviceId \<Rightarrow> DeviceProfile option \<Rightarrow> Actor \<Rightarrow> Actor" where
  "set_device_profile env did profile a =
     (let old = ac_settings a; pid = device_id_to_hex did;
          profiles = (case profile of
              Some p \<Rightarrow> if device_profile_is_empty p then AList.delete pid (set_device_profiles old)
                        else bm_insert pid p (set_device_profiles old)
            | None \<Rightarrow> AList.delete pid (set_device_profiles old))
      in apply_settings env old
           (emit SaveSettings (a\<lparr>ac_settings := sanitize (old\<lparr>set_device_profiles := profiles\<rparr>)\<rparr>)))"

section \<open>The tick\<close>

definition TRUST_FLUSH_INTERVAL :: duration where "TRUST_FLUSH_INTERVAL = from_secs 30"

definition flush_trust :: "Env \<Rightarrow> Actor \<Rightarrow> Actor" where
  "flush_trust env a =
     (set_trust (snd (trust_flush (en_crypto env) (en_serde env) (en_io env) (ac_trust a) (ac_files a))) a)
       \<lparr>ac_trust_flushed_at := en_now env\<rparr>"

definition route_expired :: "instant \<Rightarrow> Route \<Rightarrow> bool" where
  "route_expired now r \<longleftrightarrow>
     (case rt_deadline r of Some d \<Rightarrow> d < now | None \<Rightarrow> False)
     \<or> (rt_status r = Paused \<and> \<not> rt_keep_running r
        \<and> (case rt_paused_at r of Some p \<Rightarrow> PAUSED_EXPIRY < now - p | None \<Rightarrow> False))"

definition expire_route :: "RouteKey \<Rightarrow> Actor \<Rightarrow> Actor" where
  "expire_route key a =
     (case find_route key a of
        None \<Rightarrow> stop_route_by_key key StopTimeout True a
      | Some r \<Rightarrow> stop_route_by_key key StopTimeout True
                    (change_route key (\<lambda>r. r\<lparr>rt_reply := None\<rparr>) (answer (rt_reply r) (Inl ErrUnreachable) a)))"

definition expire_routes :: "Env \<Rightarrow> Actor \<Rightarrow> Actor" where
  "expire_routes env a =
     fold expire_route (map route_key (filter (route_expired (en_now env)) (ac_routes a))) a"

definition expire_requests :: "Env \<Rightarrow> Actor \<Rightarrow> Actor" where
  "expire_requests env a =
     fold (\<lambda>(k, p) a. reject (pr_peer p) (rq_route (pr_request p)) StopTimeout
             (a\<lparr>ac_requests := AList.delete k (ac_requests a)\<rparr>))
       (filter (\<lambda>(k, p). pr_expires p < en_now env) (ac_requests a)) a"

definition expire_unpaired :: "Env \<Rightarrow> Actor \<Rightarrow> Actor" where
  "expire_unpaired env a =
     fold (\<lambda>(k, est, _) a. close_est est StopTimeout (a\<lparr>ac_unpaired := AList.delete k (ac_unpaired a)\<rparr>))
       (filter (\<lambda>(k, _, t). from_secs 30 < en_now env - t) (ac_unpaired a)) a"

definition expire_pairings :: "Env \<Rightarrow> Actor \<Rightarrow> Actor" where
  "expire_pairings env a =
     fold (\<lambda>(did, p) a. close_est (pp_est p) StopTimeout (a\<lparr>ac_pairings := AList.delete did (ac_pairings a)\<rparr>))
       (filter (\<lambda>(did, p). from_secs 120 < en_now env - pp_created p) (ac_pairings a)) a"

definition expire_qr :: "Env \<Rightarrow> Actor \<Rightarrow> Actor" where
  "expire_qr env a =
     (case ac_qr a of
        Some q \<Rightarrow> if qr_is_expired q (en_unix env) then emit UpdateDiscovery (a\<lparr>ac_qr := None\<rparr>) else a
      | None \<Rightarrow> a)"

definition expire_stable_hold :: "Env \<Rightarrow> DeviceId \<Rightarrow> Actor \<Rightarrow> Actor" where
  "expire_stable_hold env did a =
     (let a1 = forget_flaps did a
      in fold (reconfigure_route env)
           (map route_key (filter (\<lambda>r. rt_peer r = did \<and> rt_status r = Active) (ac_routes a1))) a1)"

definition expire_stable_holds :: "Env \<Rightarrow> Actor \<Rightarrow> Actor" where
  "expire_stable_holds env a =
     fold (expire_stable_hold env)
       (map fst (filter (\<lambda>(_, since). STABLE_HOLD \<le> en_now env - since) (ac_stabilized a))) a"

definition expire_logging :: "Env \<Rightarrow> Actor \<Rightarrow> Actor" where
  "expire_logging env a =
     (let (expired, st) = expire_debug_logging (en_unix env) (ac_settings a)
      in if expired then emit SaveSettings (a\<lparr>ac_settings := st\<rparr>) else a)"

definition tick :: "Env \<Rightarrow> Actor \<Rightarrow> Actor" where
  "tick env a0 =
     (let now = en_now env;
          a1 = prune_encoders (a0\<lparr>ac_resume := resume_prune now (ac_resume a0)\<rparr>);
          a2 = (if TRUST_FLUSH_INTERVAL \<le> now - ac_trust_flushed_at a1 then flush_trust env a1 else a1);
          a3 = expire_stable_holds env (update_quality_fallback env (expire_routes env a2));
          a4 = expire_logging env (a3\<lparr>ac_refused_audited :=
                 hm_retain (\<lambda>_ t. now - t < REFUSED_AUDIT_INTERVAL) (ac_refused_audited a3)\<rparr>);
          a5 = check_audio_idle now (check_virtual_mic_use env a4);
          a6 = expire_qr env (expire_pairings env (expire_unpaired env (expire_requests env a5)))
      in auto_connect env a6)"

section \<open>The step function\<close>

datatype Event =
    EvEstablished Established
  | EvControl nat ControlMsg
  | EvClosed nat StopReason
  | EvHandshakeFailed nat bool
  | EvDialFailed nat "DeviceId option" EngineError
  | EvDiscovered DeviceId "SocketAddr list"
  | EvDiscoveryLost DeviceId
  | EvPairAddress "SocketAddr list"
  | EvSenderReady EncoderKey nat "EngineError option"
  | EvReceiverReady DeviceId u8 nat "EngineError option"
  | EvEncoderFailed EncoderKey EngineError
  | EvAudioFailed DeviceId u8 EngineError
  | CmdStartPairing bytes
  | CmdStopPairing
  | CmdPairWithQr bytes
  | CmdPairWithDevice DeviceId
  | CmdConfirmPairing DeviceId bool
  | CmdConnect DeviceId
  | CmdDisconnect DeviceId
  | CmdForgetDevice DeviceId
  | CmdSetBlocked DeviceId bool
  | CmdRenameDevice DeviceId "bytes option"
  | CmdSetAutoConnect DeviceId bool
  | CmdSetPermission DeviceId PermissionKind Policy
  | CmdStartRoute DeviceId RouteKind bool nat
  | CmdStopRoute RouteKey
  | CmdRouteVolume RouteKey f32
  | CmdRouteMuted RouteKey bool
  | CmdPeerSpeakersMuted DeviceId bool
  | CmdKeepRunning RouteKey bool
  | CmdRespond nat bool bool
  | CmdSetMonitor bool
  | CmdDevicesChanged bool bool
  | CmdUpdateSettings Settings
  | CmdSetDeviceProfile DeviceId "DeviceProfile option"
  | CmdNetworkChanged
  | CmdForeground bool
  | CmdPreferLossless bool
  | Tick

fun engine_step :: "Env \<Rightarrow> Event \<Rightarrow> Actor \<Rightarrow> Actor" where
  "engine_step env (EvEstablished est) a = on_established env est a"
| "engine_step env (EvControl conn_id msg) a = on_control env conn_id msg a"
| "engine_step env (EvClosed conn_id reason) a = on_closed env conn_id reason a"
| "engine_step env (EvHandshakeFailed conn_id incompatible) a = on_handshake_failed env conn_id incompatible a"
| "engine_step env (EvDialFailed conn_id target e) a = on_dial_failed env conn_id target e a"
| "engine_step env (EvDiscovered did addrs) a = on_discovered env did addrs a"
| "engine_step env (EvDiscoveryLost did) a = a\<lparr>ac_discovered := AList.delete did (ac_discovered a)\<rparr>"
| "engine_step env (EvPairAddress addrs) a = snd (pair_with_address env addrs a)"
| "engine_step env (EvSenderReady key start failure) a = on_sender_ready key start failure a"
| "engine_step env (EvReceiverReady peer rid start failure) a = on_receiver_ready peer rid start failure a"
| "engine_step env (EvEncoderFailed key e) a = on_encoder_failed env key e a"
| "engine_step env (EvAudioFailed peer rid e) a = on_audio_failed env (peer, rid) e a"
| "engine_step env (CmdStartPairing secret) a = start_pairing env secret a"
| "engine_step env CmdStopPairing a = stop_pairing a"
| "engine_step env (CmdPairWithQr uri) a = snd (pair_with_qr env uri a)"
| "engine_step env (CmdPairWithDevice did) a = snd (pair_with_device env did a)"
| "engine_step env (CmdConfirmPairing did accept) a = confirm_pairing env did accept a"
| "engine_step env (CmdConnect did) a = connect_device env did a"
| "engine_step env (CmdDisconnect did) a = disconnect_device env did a"
| "engine_step env (CmdForgetDevice did) a = forget_device env did a"
| "engine_step env (CmdSetBlocked did blocked) a = set_blocked env did blocked a"
| "engine_step env (CmdRenameDevice did alias) a = rename_device env did alias a"
| "engine_step env (CmdSetAutoConnect did enabled) a = set_auto_connect env did enabled a"
| "engine_step env (CmdSetPermission did kind policy) a = set_device_permission env did kind policy a"
| "engine_step env (CmdStartRoute did kind replace reply) a = start_route env did kind replace (Some reply) a"
| "engine_step env (CmdStopRoute key) a = stop_route_by_key key UserStopped True a"
| "engine_step env (CmdRouteVolume key volume) a = set_route_volume key volume a"
| "engine_step env (CmdRouteMuted key muted) a = set_route_muted key muted a"
| "engine_step env (CmdPeerSpeakersMuted did muted) a = set_peer_speakers_muted did muted a"
| "engine_step env (CmdKeepRunning key keep) a = set_keep_running key keep a"
| "engine_step env (CmdRespond request accept remember) a = respond_request env request accept remember a"
| "engine_step env (CmdSetMonitor enabled) a = set_monitor env enabled a"
| "engine_step env (CmdDevicesChanged inp out) a = on_audio_devices_changed env inp out a"
| "engine_step env (CmdUpdateSettings settings) a = update_settings env settings a"
| "engine_step env (CmdSetDeviceProfile did profile) a = set_device_profile env did profile a"
| "engine_step env CmdNetworkChanged a = network_changed env a"
| "engine_step env (CmdForeground foreground) a =
     (let a1 = a\<lparr>ac_foreground := foreground\<rparr> in if foreground then a1 else flush_trust env a1)"
| "engine_step env (CmdPreferLossless prefer) a = set_prefer_lossless env prefer a"
| "engine_step env Tick a = tick env a"

end
