(* ===== verification/Engine_View.thy ===== *)
theory Engine_View
  imports Engine_Steps
begin

text \<open>
  What a handler may do to the parts of the state that carry authority: the permissions and block of every
  paired device, the keys of the sessions, who owns which route, and the pairings under way. \<open>calm N G a b\<close>
  says that between \<open>a\<close> and \<open>b\<close> no device gained authority, sessions were opened only as \<open>N\<close> lists them, and
  routes were added only for this device's own requests to devices with a session, or as \<open>G\<close> grants them.
\<close>

section \<open>The view\<close>

type_synonym TrustView = "DeviceId \<Rightarrow> (PublicKey \<times> bool \<times> Permissions) option"

definition trust_view :: "Actor \<Rightarrow> TrustView" where
  "trust_view a did =
     map_option (\<lambda>d. (td_public_key d, td_blocked d, td_permissions d)) (trusted a did)"

definition sess_keys :: "Actor \<Rightarrow> (DeviceId \<times> PublicKey) set" where
  "sess_keys a = {(did, ps_public_key s) | did s. map_of (ac_sessions a) did = Some s}"

definition route_owner :: "Route \<Rightarrow> DeviceId \<times> RouteKind \<times> bool" where
  "route_owner r = (rt_peer r, rt_kind r, rt_requested_locally r)"

definition route_owners :: "Actor \<Rightarrow> (DeviceId \<times> RouteKind \<times> bool) set" where
  "route_owners a = route_owner ` set (ac_routes a)"

text \<open>The routes there may be after a calm step from \<open>a\<close>.\<close>

definition allowed ::
  "(DeviceId \<times> PublicKey) set \<Rightarrow> (DeviceId \<times> RouteKind) set \<Rightarrow> Actor \<Rightarrow> (DeviceId \<times> RouteKind \<times> bool) set" where
  "allowed N G a = route_owners a \<union> {(p, k, l). p \<in> fst ` (sess_keys a \<union> N) \<and> (l \<or> (p, k) \<in> G)}"

definition trust_kept :: "Actor \<Rightarrow> Actor \<Rightarrow> bool" where
  "trust_kept a b \<longleftrightarrow>
     (store_wf (ac_trust a) \<longrightarrow> trust_view b = trust_view a \<and> store_wf (ac_trust b))"

definition calm ::
  "(DeviceId \<times> PublicKey) set \<Rightarrow> (DeviceId \<times> RouteKind) set \<Rightarrow> Actor \<Rightarrow> Actor \<Rightarrow> bool" where
  "calm N G a b \<longleftrightarrow>
     trust_kept a b \<and> sess_keys b \<subseteq> sess_keys a \<union> N \<and>
     route_owners b \<subseteq> allowed N G a \<and> set (ac_pairings b) \<subseteq> set (ac_pairings a)"

named_theorems calm_intro

lemma trust_kept_trans: "trust_kept a b \<Longrightarrow> trust_kept b c \<Longrightarrow> trust_kept a c"
  by (simp add: trust_kept_def)

lemma calm_refl [simp, calm_intro]: "calm N G a a"
  by (auto simp: calm_def allowed_def trust_kept_def)

lemma allowed_mono:
  assumes "route_owners b \<subseteq> allowed N G a" "sess_keys b \<subseteq> sess_keys a \<union> N"
  shows "allowed N G b \<subseteq> allowed N G a"
  using assms unfolding allowed_def by blast

lemma calm_trans [trans]: "calm N G a b \<Longrightarrow> calm N G b c \<Longrightarrow> calm N G a c"
  unfolding calm_def
proof (elim conjE, intro conjI)
  assume "route_owners b \<subseteq> allowed N G a" "sess_keys b \<subseteq> sess_keys a \<union> N" "route_owners c \<subseteq> allowed N G b"
  then show "route_owners c \<subseteq> allowed N G a" using allowed_mono [of b N G a] by blast
qed (blast intro: trust_kept_trans, blast, blast)

lemma calm_mono: "calm N G a b \<Longrightarrow> N \<subseteq> N' \<Longrightarrow> G \<subseteq> G' \<Longrightarrow> calm N' G' a b"
  unfolding calm_def allowed_def by (elim conjE, intro conjI) (assumption, blast, blast, assumption)

text \<open>A state that agrees on the four parts is as good as another.\<close>

definition same_view :: "Actor \<Rightarrow> Actor \<Rightarrow> bool" where
  "same_view b c \<longleftrightarrow> ac_trust c = ac_trust b \<and> ac_sessions c = ac_sessions b
     \<and> ac_routes c = ac_routes b \<and> ac_pairings c = ac_pairings b"

lemma view_cong:
  "ac_trust c = ac_trust b \<Longrightarrow> trust_view c = trust_view b"
  "ac_sessions c = ac_sessions b \<Longrightarrow> sess_keys c = sess_keys b"
  "ac_routes c = ac_routes b \<Longrightarrow> route_owners c = route_owners b"
  by (auto simp: fun_eq_iff trust_view_def trusted_def sess_keys_def route_owners_def)

lemma calm_same: "calm N G a b \<Longrightarrow> same_view b c \<Longrightarrow> calm N G a c"
  using view_cong(1) [of c b] view_cong(2) [of c b] view_cong(3) [of c b]
  unfolding calm_def same_view_def trust_kept_def by (elim conjE) simp

lemma same_view_fields [simp]:
  "same_view b (b\<lparr>ac_out := o1\<rparr>)" "same_view b (b\<lparr>ac_settings := st\<rparr>)" "same_view b (b\<lparr>ac_files := fs\<rparr>)"
  "same_view b (b\<lparr>ac_conn_index := ci\<rparr>)" "same_view b (b\<lparr>ac_unpaired := up\<rparr>)"
  "same_view b (b\<lparr>ac_dials := ds\<rparr>)" "same_view b (b\<lparr>ac_dial_targets := dt\<rparr>)"
  "same_view b (b\<lparr>ac_pair_dials := pd\<rparr>)" "same_view b (b\<lparr>ac_next_conn_id := n1\<rparr>)"
  "same_view b (b\<lparr>ac_discovered := dc\<rparr>)" "same_view b (b\<lparr>ac_requests := rq\<rparr>)"
  "same_view b (b\<lparr>ac_next_request_id := n2\<rparr>)" "same_view b (b\<lparr>ac_qr := qr\<rparr>)"
  "same_view b (b\<lparr>ac_limiter := lm\<rparr>)" "same_view b (b\<lparr>ac_refused_audited := ra\<rparr>)"
  "same_view b (b\<lparr>ac_resume := rs\<rparr>)" "same_view b (b\<lparr>ac_flaps := fl\<rparr>)"
  "same_view b (b\<lparr>ac_stabilized := sb\<rparr>)" "same_view b (b\<lparr>ac_prefer_lossless := pl\<rparr>)"
  "same_view b (b\<lparr>ac_foreground := fg\<rparr>)" "same_view b (b\<lparr>ac_encoders := en\<rparr>)"
  "same_view b (b\<lparr>ac_next_start_id := n3\<rparr>)" "same_view b (b\<lparr>ac_peer_speakers_muted := pm\<rparr>)"
  "same_view b (b\<lparr>ac_speakers_muted_by := sm\<rparr>)" "same_view b (b\<lparr>ac_monitor := mo\<rparr>)"
  "same_view b (b\<lparr>ac_keep_alive := ka\<rparr>)" "same_view b (b\<lparr>ac_local_audio := la\<rparr>)"
  "same_view b (b\<lparr>ac_trust_flushed_at := tf\<rparr>)"
  by (simp_all add: same_view_def)

lemmas calm_fields [calm_intro] = same_view_fields [THEN calm_same [rotated]]

lemma same_view_refl [simp]: "same_view b b" by (simp add: same_view_def)
lemma same_view_trans: "same_view a b \<Longrightarrow> same_view b c \<Longrightarrow> same_view a c" by (simp add: same_view_def)

lemma calm_emit [calm_intro]: "calm N G a b \<Longrightarrow> calm N G a (emit e b)"
  by (simp add: emit_def calm_intro)

lemma calm_tell [calm_intro]: "calm N G a b \<Longrightarrow> calm N G a (tell peer e b)"
  by (auto simp: tell_def split: option.split intro: calm_emit)

lemma calm_answer [calm_intro]: "calm N G a b \<Longrightarrow> calm N G a (answer reply res b)"
  by (auto simp: answer_def split: option.split intro: calm_emit)

lemma calm_fold:
  "(\<And>x b. calm N G a b \<Longrightarrow> calm N G a (f x b)) \<Longrightarrow> calm N G a b \<Longrightarrow> calm N G a (fold f xs b)"
  by (induction xs arbitrary: b) auto

section \<open>Route lists\<close>

text \<open>Routes whose owners are all known.\<close>

definition owned :: "(DeviceId \<times> PublicKey) set \<Rightarrow> (DeviceId \<times> RouteKind) set \<Rightarrow> Actor \<Rightarrow> Route \<Rightarrow> bool" where
  "owned N G a r \<longleftrightarrow> route_owner r \<in> allowed N G a"

lemma calm_owned: "calm N G a b \<Longrightarrow> r \<in> set (ac_routes b) \<Longrightarrow> owned N G a r"
  by (auto simp: calm_def owned_def route_owners_def)

lemma calm_routes:
  assumes "calm N G a b" "\<And>r. r \<in> set rs \<Longrightarrow> owned N G a r"
  shows "calm N G a (b\<lparr>ac_routes := rs\<rparr>)"
proof -
  have "route_owners (b\<lparr>ac_routes := rs\<rparr>) \<subseteq> allowed N G a"
    using assms(2) by (auto simp: route_owners_def owned_def)
  moreover have "trust_view (b\<lparr>ac_routes := rs\<rparr>) = trust_view b" "sess_keys (b\<lparr>ac_routes := rs\<rparr>) = sess_keys b"
    by (rule view_cong, simp)+
  ultimately show ?thesis using assms(1) unfolding calm_def trust_kept_def by simp
qed

lemma owned_same:
  "owned N G a r \<Longrightarrow> route_owner r' = route_owner r \<Longrightarrow> owned N G a r'"
  by (simp add: owned_def)

lemma owned_new:
  "(rt_peer r, pk) \<in> sess_keys a \<union> N \<Longrightarrow> rt_requested_locally r \<or> (rt_peer r, rt_kind r) \<in> G \<Longrightarrow> owned N G a r"
  unfolding owned_def allowed_def route_owner_def by force

lemma calm_filter [calm_intro]: "calm N G a b \<Longrightarrow> calm N G a (b\<lparr>ac_routes := filter P (ac_routes b)\<rparr>)"
  by (rule calm_routes) (auto intro: calm_owned)

lemma calm_subset: "calm N G a b \<Longrightarrow> set rs \<subseteq> set (ac_routes b) \<Longrightarrow> calm N G a (b\<lparr>ac_routes := rs\<rparr>)"
  by (rule calm_routes) (auto intro: calm_owned)

lemma calm_map_first:
  "calm N G a b \<Longrightarrow> (\<And>r. route_owner (f r) = route_owner r)
     \<Longrightarrow> calm N G a (b\<lparr>ac_routes := map_first P f (ac_routes b)\<rparr>)"
  using set_map_first [of P f "ac_routes b"]
  by (intro calm_routes) (auto dest!: subsetD intro: calm_owned owned_same)

lemma calm_map_last:
  "calm N G a b \<Longrightarrow> (\<And>r. route_owner (f r) = route_owner r)
     \<Longrightarrow> calm N G a (b\<lparr>ac_routes := map_last P f (ac_routes b)\<rparr>)"
  using set_map_first [of P f "rev (ac_routes b)"]
  by (intro calm_routes) (auto simp: map_last_def dest!: subsetD intro: calm_owned owned_same)

lemma calm_take: "calm N G a b \<Longrightarrow> take_first P (ac_routes b) = Some (r, rest)
     \<Longrightarrow> calm N G a (b\<lparr>ac_routes := rest\<rparr>) \<and> owned N G a r"
  using take_first_Some [of P "ac_routes b" r rest] by (auto intro: calm_subset calm_owned)

end
