(* ===== verification/Engine_Calm.thy ===== *)
theory Engine_Calm
  imports Engine_View
begin

text \<open>
  Every handler of routes and sessions, one lemma each: what it adds to the authority recorded in the state.
\<close>

section \<open>Pipelines\<close>

lemma calm_update_keep_alive [calm_intro]: "calm N G a b \<Longrightarrow> calm N G a (update_keep_alive b)"
  by (simp add: update_keep_alive_def Let_def calm_intro)

lemma calm_prune [calm_intro]: "calm N G a b \<Longrightarrow> calm N G a (prune_encoders b)"
  by (simp add: prune_encoders_def calm_intro)

lemma calm_close_encoder [calm_intro]: "calm N G a b \<Longrightarrow> calm N G a (close_encoder key b)"
  by (simp add: close_encoder_def calm_intro split: option.split EncoderSlot.split)

lemma calm_finish_release [calm_intro]: "calm N G a b \<Longrightarrow> calm N G a (finish_release peer rid had b)"
  by (simp add: finish_release_def calm_intro)

lemma owner_take_pipelines [simp]: "route_owner (take_pipelines r) = route_owner r"
  by (simp add: take_pipelines_def route_owner_def)

lemma calm_release [calm_intro]: "calm N G a b \<Longrightarrow> calm N G a (snd (release_pipelines r b))"
  by (simp add: release_pipelines_def calm_intro)

lemma release_fst: "fst (release_pipelines r b) = take_pipelines r"
  by (simp add: release_pipelines_def)

lemma calm_list_update:
  assumes "calm N G a b" "i < length (ac_routes b) \<Longrightarrow> route_owner r' = route_owner (ac_routes b ! i)"
  shows "calm N G a (b\<lparr>ac_routes := (ac_routes b)[i := r']\<rparr>)"
proof (rule calm_routes [OF assms(1)])
  fix r assume "r \<in> set ((ac_routes b)[i := r'])"
  then consider "r \<in> set (ac_routes b)" | "i < length (ac_routes b)" "r = r'"
    using set_update_subset_insert [of "ac_routes b" i r'] by (cases "i < length (ac_routes b)") (auto simp: list_update_beyond)
  then show "owned N G a r"
    using assms(2) by cases (auto intro: calm_owned [OF assms(1)] owned_same [OF calm_owned [OF assms(1) nth_mem]])
qed

lemma calm_release_at [calm_intro]: "calm N G a b \<Longrightarrow> calm N G a (release_pipelines_at i b)"
  by (simp add: release_pipelines_at_def Let_def calm_intro calm_list_update)

lemma calm_take_start [calm_intro]: "calm N G a b \<Longrightarrow> calm N G a (snd (take_start_id b))"
  by (simp add: take_start_id_def calm_intro)

lemma calm_begin_receiver:
  "calm N G a b \<Longrightarrow> calm N G a (snd (snd (begin_receiver env r b)))"
  "route_owner (fst (snd (begin_receiver env r b))) = route_owner r"
  by (simp_all add: begin_receiver_def case_prod_beta Let_def route_owner_def calm_intro split: option.split)

lemma calm_join_group:
  "calm N G a b \<Longrightarrow> calm N G a (snd (snd (join_group key r b)))"
  "route_owner (fst (snd (join_group key r b))) = route_owner r"
  by (simp_all add: join_group_def case_prod_beta Let_def route_owner_def calm_intro
      split: option.split EncoderSlot.split)

lemma calm_begin_sender:
  "calm N G a b \<Longrightarrow> calm N G a (snd (snd (begin_sender env profile r b)))"
  "route_owner (fst (snd (begin_sender env profile r b))) = route_owner r"
  by (simp_all add: begin_sender_def Let_def calm_join_group calm_intro split: option.split)
    (simp_all add: route_owner_def)

lemma calm_begin [calm_intro]: "calm N G a b \<Longrightarrow> calm N G a (snd (snd (begin_pipelines env r b)))"
  by (simp add: begin_pipelines_def calm_begin_receiver calm_begin_sender split: option.split)

lemma owner_begin [simp]: "route_owner (fst (snd (begin_pipelines env r b))) = route_owner r"
  by (simp add: begin_pipelines_def calm_begin_receiver calm_begin_sender split: option.split)

lemma calm_save_route [calm_intro]: "calm N G a b \<Longrightarrow> calm N G a (save_route peer kind b)"
  by (simp add: save_route_def Let_def calm_intro)

lemma calm_change:
  "calm N G a b \<Longrightarrow> (\<And>r. route_owner (f r) = route_owner r) \<Longrightarrow> calm N G a (change_route key f b)"
  by (simp add: change_route_def calm_map_first)

lemma calm_activate [calm_intro]: "calm N G a b \<Longrightarrow> calm N G a (activate_route peer rid b)"
  by (simp add: activate_route_def Let_def calm_intro calm_map_first route_owner_def split: option.split)

lemma calm_reject [calm_intro]: "calm N G a b \<Longrightarrow> calm N G a (reject peer route reason b)"
  by (simp add: reject_def calm_intro)

lemma calm_route_stop [calm_intro]: "calm N G a b \<Longrightarrow> calm N G a (send_route_stop peer route reason b)"
  by (simp add: send_route_stop_def calm_intro)

lemma calm_unmute [calm_intro]: "calm N G a b \<Longrightarrow> calm N G a (unmute_after r b)"
  by (simp add: unmute_after_def calm_intro)

lemma calm_fail_route [calm_intro]:
  assumes "calm N G a b" shows "calm N G a (fail_route peer rid e b)"
proof (cases "take_first (\<lambda>r. route_key r = (peer, rid)) (ac_routes b)")
  case (Some p)
  then have "calm N G a (b\<lparr>ac_routes := snd p\<rparr>)" using calm_take [OF assms, of _ "fst p" "snd p"] by simp
  then show ?thesis
    by (simp add: fail_route_def Some case_prod_beta Let_def calm_intro)
next
  case None
  then show ?thesis using assms by (simp add: fail_route_def del: take_first_None)
qed

lemma calm_subscribe:
  assumes "calm N G a (snd st)" shows "calm N G a (snd (subscribe_waiting key sender w st))"
  using calm_map_first [OF assms, of "\<lambda>r. r\<lparr>rt_subscription := Some sender\<rparr>"] assms
  by (simp add: subscribe_waiting_def case_prod_beta Let_def route_owner_def)

lemma calm_fold_snd:
  "(\<And>x st. calm N G a (snd st) \<Longrightarrow> calm N G a (snd (f x st))) \<Longrightarrow> calm N G a (snd st)
     \<Longrightarrow> calm N G a (snd (fold f xs st))"
  by (induction xs arbitrary: st) auto

lemma calm_sender_ready [calm_intro]:
  assumes "calm N G a b" shows "calm N G a (on_sender_ready key start failure b)"
proof -
  let ?b = "b\<lparr>ac_encoders := AList.delete key (ac_encoders b)\<rparr>"
  have b: "calm N G a ?b" using assms by (simp add: calm_intro)
  have sub: "calm N G a (snd (fold (subscribe_waiting key start) w ([], ?b)))" for w
    by (rule calm_fold_snd) (use b in \<open>simp_all add: calm_subscribe\<close>)
  show ?thesis
    using assms by (auto simp: on_sender_ready_def case_prod_beta Let_def intro!: calm_prune calm_fold calm_fields sub
        calm_activate calm_fail_route split: option.split EncoderSlot.split)
qed

lemma tell_fields [simp]:
  "ac_routes (tell peer e b) = ac_routes b" "ac_sessions (tell peer e b) = ac_sessions b"
  by (simp_all add: tell_def emit_def split: option.split)

lemma calm_map_first_of:
  "calm N G a c \<Longrightarrow> ac_routes c = rs \<Longrightarrow> (\<And>r. route_owner (f r) = route_owner r)
     \<Longrightarrow> calm N G a (c\<lparr>ac_routes := map_first P f rs\<rparr>)"
  using calm_map_first by blast

lemma calm_receiver_ready [calm_intro]: "calm N G a b \<Longrightarrow> calm N G a (on_receiver_ready peer rid start failure b)"
  by (simp add: on_receiver_ready_def Let_def calm_intro calm_map_first calm_map_first_of route_owner_def
      split: option.split)

section \<open>Stopping and starting routes\<close>

lemma calm_forget_saved [calm_intro]: "calm N G a b \<Longrightarrow> calm N G a (forget_saved peer kind reason b)"
  by (simp add: forget_saved_def Let_def calm_intro)

lemma calm_stop [calm_intro]:
  assumes "calm N G a b" shows "calm N G a (stop_route_by_key key reason notify b)"
proof (cases "take_first (\<lambda>r. route_key r = key) (ac_routes b)")
  case (Some p)
  then have "calm N G a (b\<lparr>ac_routes := snd p\<rparr>)" using calm_take [OF assms, of _ "fst p" "snd p"] by simp
  then show ?thesis
    by (simp add: stop_route_by_key_def Some case_prod_beta Let_def calm_intro)
next
  case None
  then show ?thesis using assms by (simp add: stop_route_by_key_def del: take_first_None)
qed

lemma calm_remove_routes [calm_intro]: "calm N G a b \<Longrightarrow> calm N G a (remove_routes_for peer b)"
  by (simp add: remove_routes_for_def calm_fold calm_stop)

lemma calm_sess: "calm N G a b \<Longrightarrow> (p, k) \<in> sess_keys b \<Longrightarrow> (p, k) \<in> sess_keys a \<union> N"
  by (auto simp: calm_def)

lemma in_sess_keys: "map_of (ac_sessions b) p = Some s \<Longrightarrow> (p, ps_public_key s) \<in> sess_keys b"
  by (auto simp: sess_keys_def)

lemma calm_set_session:
  assumes "calm N G a b" "map_of (ac_sessions b) p = Some s" "ps_public_key s' = ps_public_key s"
  shows "calm N G a (b\<lparr>ac_sessions := AList.update p s' (ac_sessions b)\<rparr>)"
proof -
  have "sess_keys (b\<lparr>ac_sessions := AList.update p s' (ac_sessions b)\<rparr>) \<subseteq> sess_keys b"
    using assms(2,3) by (auto simp: sess_keys_def update_conv' split: if_splits)
  then show ?thesis
    using assms(1) view_cong [of "b\<lparr>ac_sessions := AList.update p s' (ac_sessions b)\<rparr>" b]
    unfolding calm_def trust_kept_def by auto
qed

lemma calm_append:
  "calm N G a b \<Longrightarrow> owned N G a r \<Longrightarrow> calm N G a (b\<lparr>ac_routes := ac_routes b @ [r]\<rparr>)"
  by (rule calm_routes) (auto intro: calm_owned)

lemma alloc_key: "ps_public_key (snd (alloc_route s)) = ps_public_key s"
  by (simp add: alloc_route_def Let_def)

lemma calm_request_route [calm_intro]:
  assumes b: "calm N G a b" shows "calm N G a (request_route env peer kind replace reply fallback b)"
proof (cases "map_of (ac_sessions b) peer")
  case (Some s)
  have new: "owned N G a (requested_route env peer rid kind profile reply fallback c)" for rid profile c
    using calm_sess [OF b in_sess_keys [OF Some]]
    by (auto simp: requested_route_def new_route_def intro!: owned_new)
  show ?thesis
    using calm_set_session [OF b Some alloc_key]
    by (simp add: request_route_def Some Let_def case_prod_beta calm_append calm_emit new)
qed (simp add: request_route_def b calm_intro)

lemma calm_stop_feed [calm_intro]: "calm N G a b \<Longrightarrow> calm N G a (stop_feed current b)"
  by (simp add: stop_feed_def calm_intro split: option.split)

lemma calm_start_keeping [calm_intro]:
  "calm N G a b \<Longrightarrow> calm N G a (start_route_keeping env peer kind replace reply fallback b)"
  by (simp add: start_route_keeping_def Let_def calm_intro split: option.split sum.split)

lemma calm_start [calm_intro]: "calm N G a b \<Longrightarrow> calm N G a (start_route env peer kind replace reply b)"
  by (simp add: start_route_def calm_intro)

section \<open>Requests and answers\<close>

lemma begin_ok_session:
  "begin_pipelines env r b = (Inr ready, r', c) \<Longrightarrow> \<exists>s. map_of (ac_sessions b) (rt_peer r) = Some s"
  by (auto simp: begin_pipelines_def split: if_splits)

lemma calm_finish_begin:
  assumes b: "calm N G a b" and r: "owned N G a r \<or> rt_requested_locally r \<or> (rt_peer r, rt_kind r) \<in> G"
    and failed: "\<And>e r c. calm N G a c \<Longrightarrow> calm N G a (failed e r c)"
  shows "calm N G a (finish_begin failed (begin_pipelines env r b))"
proof -
  obtain res r' c where res: "begin_pipelines env r b = (res, r', c)" by (cases "begin_pipelines env r b")
  have c: "calm N G a c" and owner: "route_owner r' = route_owner r"
    using calm_begin [OF b, of env r] owner_begin [of env r b] res by simp_all
  show ?thesis
  proof (cases res)
    case (Inr ready)
    then obtain s where "map_of (ac_sessions b) (rt_peer r) = Some s" using begin_ok_session res by blast
    from calm_sess [OF b in_sess_keys [OF this]] have "owned N G a r"
      using r by (auto intro: owned_new)
    then have "owned N G a r'" using owner by (rule owned_same)
    then show ?thesis using c by (simp add: finish_begin_def res Inr Let_def calm_append calm_activate)
  qed (simp add: finish_begin_def res c failed)
qed

lemma calm_accept:
  assumes b: "calm N G a b" and G: "(peer, kind) \<in> G"
  shows "calm N G a (accept_route env peer req kind b)"
  using b G
  by (auto simp: accept_route_def Let_def accepted_route_def new_route_def
      intro!: calm_finish_begin calm_filter calm_emit calm_reject)

text \<open>When a peer's request is granted without asking.\<close>

definition granted :: "Env \<Rightarrow> Actor \<Rightarrow> (DeviceId \<times> RouteKind) set" where
  "granted env a = {(p, k). policy_for a p (route_permission k) = Allow \<or>
     (policy_for a p (route_permission k) = Ask \<and> resumed_recently p (en_now env) (ac_resume a) \<and>
      (\<exists>r\<in>set (ac_routes a). route_owner r = (p, k, False) \<and> rt_status r = Paused))}"

end
