(* ===== verification/Session_Calm.thy ===== *)
theory Session_Calm
  imports Engine_Calm
begin

text \<open>
  The remaining handlers: requests, live changes, the end and the beginning of sessions, pairing. What each adds
  to the authority recorded in the state.
\<close>

section \<open>What the small steps leave alone\<close>

definition same_rest :: "Actor \<Rightarrow> Actor \<Rightarrow> bool" where
  "same_rest a b \<longleftrightarrow> ac_trust b = ac_trust a \<and> ac_resume b = ac_resume a \<and> ac_sessions b = ac_sessions a
     \<and> ac_requests b = ac_requests a \<and> ac_pairings b = ac_pairings a"

lemma same_rest_trans: "same_rest a b \<Longrightarrow> same_rest b c \<Longrightarrow> same_rest a c"
  by (simp add: same_rest_def)

lemma small_steps_routes [simp]:
  "ac_routes (emit e a) = ac_routes a" "ac_routes (answer reply res a) = ac_routes a"
  "ac_routes (update_keep_alive a) = ac_routes a" "ac_routes (prune_encoders a) = ac_routes a"
  "ac_routes (finish_release peer rid had a) = ac_routes a" "ac_routes (forget_saved peer kind reason a) = ac_routes a"
  "ac_routes (unmute_after r a) = ac_routes a" "ac_routes (send_route_stop peer route reason a) = ac_routes a"
  "ac_routes (reject peer route reason a) = ac_routes a" "ac_routes (close_encoder key a) = ac_routes a"
  by (simp_all add: emit_def answer_def update_keep_alive_def prune_encoders_def finish_release_def
      forget_saved_def unmute_after_def send_route_stop_def reject_def close_encoder_def Let_def
      split: option.split EncoderSlot.split)

lemma tell_rest [simp]:
  "ac_trust (tell peer e b) = ac_trust b" "ac_resume (tell peer e b) = ac_resume b"
  "ac_requests (tell peer e b) = ac_requests b" "ac_pairings (tell peer e b) = ac_pairings b"
  by (simp_all add: tell_def emit_def split: option.split)

lemma small_steps_rest [simp]:
  "same_rest a (emit e a)" "same_rest a (answer reply res a)" "same_rest a (update_keep_alive a)"
  "same_rest a (prune_encoders a)" "same_rest a (finish_release peer rid had a)"
  "same_rest a (forget_saved peer kind reason a)" "same_rest a (unmute_after r a)"
  "same_rest a (send_route_stop peer route reason a)" "same_rest a (reject peer route reason a)"
  "same_rest a (a\<lparr>ac_routes := rs\<rparr>)"
  by (simp_all add: same_rest_def emit_def answer_def update_keep_alive_def prune_encoders_def finish_release_def
      forget_saved_def unmute_after_def send_route_stop_def reject_def Let_def split: option.split)

lemmas rest_intro = small_steps_rest [THEN same_rest_trans [rotated]]

lemma same_rest_refl: "same_rest a a" by (simp add: same_rest_def)

lemma release_fields: "release_pipelines r a = (take_pipelines r, finish_release (rt_peer r) (rt_id r) (rt_receiver r) a)"
  by (simp add: release_pipelines_def)

text \<open>Stopping takes the first route with the key off the list and leaves the rest of the state alone.\<close>

lemma stop_routes:
  "ac_routes (stop_route_by_key key reason notify a) =
     (case take_first (\<lambda>r. route_key r = key) (ac_routes a) of None \<Rightarrow> ac_routes a | Some (r, rest) \<Rightarrow> rest)"
  by (simp add: stop_route_by_key_def release_fields Let_def case_prod_beta del: take_first_None split: option.split)

lemma stop_routes_subset: "set (ac_routes (stop_route_by_key key reason notify a)) \<subseteq> set (ac_routes a)"
  by (auto simp: stop_routes dest!: take_first_Some split: option.splits)

lemma stop_rest: "same_rest a (stop_route_by_key key reason notify a)"
proof (cases "take_first (\<lambda>r. route_key r = key) (ac_routes a)")
  case (Some p)
  show ?thesis
    by (simp add: stop_route_by_key_def Some release_fields Let_def case_prod_beta)
      (simp add: rest_intro same_rest_refl)
next
  case None
  then show ?thesis by (simp add: stop_route_by_key_def same_rest_def del: take_first_None)
qed

lemma stop_feed_rest: "same_rest a (stop_feed current a)" "set (ac_routes (stop_feed current a)) \<subseteq> set (ac_routes a)"
  using stop_rest stop_routes_subset by (auto simp: stop_feed_def same_rest_def split: option.split)

section \<open>Requests from a peer\<close>

lemma policy_view:
  "policy_for a p k = (case trust_view a p of Some (_, _, perms) \<Rightarrow> policy_of perms k | None \<Rightarrow> Deny)"
  by (simp add: policy_for_def trust_view_def split: option.split)

lemma granted_stop_feed: "granted env (stop_feed current a) \<subseteq> granted env a"
proof -
  have "trust_view (stop_feed current a) = trust_view a"
    using stop_feed_rest(1) [of a current] by (intro view_cong) (simp add: same_rest_def)
  moreover have "ac_resume (stop_feed current a) = ac_resume a"
    using stop_feed_rest(1) [of a current] by (simp add: same_rest_def)
  ultimately show ?thesis
    using stop_feed_rest(2) [of current a] by (auto simp: granted_def policy_view)
qed

lemma calm_ask_user [calm_intro]: "calm N G a b \<Longrightarrow> calm N G a (ask_user env peer req kind b)"
  unfolding ask_user_def by (rule calm_emit, erule calm_same) (simp add: same_view_def)

lemma calm_decide:
  assumes b: "calm N G a b" and G: "(peer, kind) \<in> granted env b \<Longrightarrow> (peer, kind) \<in> G"
  shows "calm N G a (decide_request env peer req kind b)"
proof (cases "policy_for b peer (route_permission kind)")
  case Allow
  then have "(peer, kind) \<in> G" using G by (auto simp: granted_def)
  then show ?thesis using calm_accept [OF b] Allow by (simp add: decide_request_def)
next
  case Ask
  show ?thesis
  proof (cases "resumed env peer kind b")
    case True
    then have "(peer, kind) \<in> G" using G Ask
      by (auto simp: granted_def resumed_def route_owner_def)
    then show ?thesis using calm_accept [OF b] Ask True by (simp add: decide_request_def)
  qed (simp add: decide_request_def Ask b calm_intro)
qed (simp add: decide_request_def b calm_intro)

text \<open>The kind of route a request asks for, as this device names it.\<close>

definition request_kind :: "RouteRequest \<Rightarrow> RouteKind option" where
  "request_kind req =
     from_endpoints (text_of (rq_source_endpoint req)) (text_of (rq_sink_endpoint req)) (\<not> rq_requester_is_source req)"

lemma calm_route_request:
  assumes b: "calm N G a b"
    and G: "\<And>k. request_kind req = Some k \<Longrightarrow> (peer, k) \<in> granted env b \<Longrightarrow> (peer, k) \<in> G"
  shows "calm N G a (on_route_request env peer req b)"
proof -
  have "calm N G a (decide_request env peer req kind (stop_feed current b))"
    if "request_kind req = Some kind" for kind current
    using that granted_stop_feed [of env current b] G by (intro calm_decide calm_stop_feed b) blast
  then show ?thesis
    using b by (simp add: on_route_request_def request_kind_def refuse_capability_def Let_def calm_intro
        split: option.split sum.split EngineError.split)
qed

lemma calm_route_accept [calm_intro]:
  assumes b: "calm N G a b" shows "calm N G a (on_route_accept env peer acc b)"
proof (cases "take_first (\<lambda>r. route_key r = (peer, ucast (ra_route acc)) \<and> rt_status r = Requesting) (ac_routes b)")
  case (Some p)
  then have taken: "calm N G a (b\<lparr>ac_routes := snd p\<rparr>)" "owned N G a (fst p)"
    using calm_take [OF b, of _ "fst p" "snd p"] by simp_all
  have own: "owned N G a (r\<lparr>rt_status := Starting, rt_deadline := d\<rparr>)" "owned N G a
      (r\<lparr>rt_profile := q, rt_status := Starting, rt_deadline := d\<rparr>)" if "owned N G a r" for r d q
    using that by (auto intro: owned_same simp: route_owner_def)
  show ?thesis
    using taken own [OF taken(2)]
    by (auto simp: on_route_accept_def Some case_prod_beta Let_def
        intro!: calm_finish_begin calm_emit calm_answer calm_route_stop split: option.split)
next
  case None
  then show ?thesis using b by (simp add: on_route_accept_def del: take_first_None)
qed

lemma calm_route_reject [calm_intro]:
  assumes b: "calm N G a b" shows "calm N G a (on_route_reject peer rej b)"
proof (cases "take_first (\<lambda>r. route_key r = (peer, ucast (rr_route rej))) (ac_routes b)")
  case (Some p)
  then have "calm N G a (b\<lparr>ac_routes := snd p\<rparr>)" using calm_take [OF b, of _ "fst p" "snd p"] by simp
  then show ?thesis by (simp add: on_route_reject_def Some case_prod_beta Let_def calm_intro)
next
  case None
  then show ?thesis using b by (simp add: on_route_reject_def del: take_first_None)
qed

lemma calm_on_route_stop [calm_intro]: "calm N G a b \<Longrightarrow> calm N G a (on_route_stop peer stop b)"
  by (simp add: on_route_stop_def calm_intro)

section \<open>Changes to running routes\<close>

lemma find_route_owned: "calm N G a b \<Longrightarrow> find_route key b = Some r \<Longrightarrow> owned N G a r"
  by (auto simp: find_route_def find_Some_iff intro: calm_owned)

lemma calm_rebegin:
  assumes b: "calm N G a b" and r: "owned N G a r"
  shows "calm N G a ((snd (snd (begin_pipelines env r b)))\<lparr>ac_routes := insert_at i
      (fst (snd (begin_pipelines env r b))) (ac_routes (snd (snd (begin_pipelines env r b))))\<rparr>)"
proof (rule calm_routes [OF calm_begin [OF b]])
  fix x assume "x \<in> set (insert_at i (fst (snd (begin_pipelines env r b)))
      (ac_routes (snd (snd (begin_pipelines env r b)))))"
  then consider "x = fst (snd (begin_pipelines env r b))" | "x \<in> set (ac_routes (snd (snd (begin_pipelines env r b))))"
    by (auto simp: insert_at_def dest: in_set_takeD in_set_dropD)
  then show "owned N G a x"
    using owned_same [OF r owner_begin] calm_owned [OF calm_begin [OF b]] by cases auto
qed

lemma append_insert_at: "xs @ [x] = insert_at (length xs) x xs"
  by (simp add: insert_at_def)

lemma calm_apply_profile [calm_intro]:
  assumes b: "calm N G a b" shows "calm N G a (apply_profile env key nxt b)"
proof -
  let ?c = "change_route key (\<lambda>r. r\<lparr>rt_profile := Some nxt\<rparr>) b"
  have c: "calm N G a ?c" by (rule calm_change [OF b]) (simp add: route_owner_def)
  have taken: "calm N G a (finish_release p i h (?c\<lparr>ac_routes := rest\<rparr>)) \<and> owned N G a (take_pipelines r)"
    if "take_first (\<lambda>r. route_key r = key) (ac_routes ?c) = Some (r, rest)" for r rest p i h
    using calm_take [OF c that] by (auto intro: calm_finish_release owned_same)
  show ?thesis
    using b c taken
    by (auto simp: apply_profile_def release_fields case_prod_beta Let_def append_insert_at
        simp del: take_first_None intro!: calm_fail_route calm_rebegin split: option.split sum.split)
qed

lemma calm_restart [calm_intro]: "calm N G a b \<Longrightarrow> calm N G a (restart_route env key b)"
  by (auto simp: restart_route_def Let_def route_owner_def
      intro!: calm_map_last calm_start_keeping calm_stop split: option.split)

lemma calm_reconfigure [calm_intro]: "calm N G a b \<Longrightarrow> calm N G a (reconfigure_route env key b)"
  by (simp add: reconfigure_route_def Let_def calm_intro calm_change route_owner_def split: option.split)

lemma calm_reconfigure_routes [calm_intro]: "calm N G a b \<Longrightarrow> calm N G a (reconfigure_routes env old b)"
  by (simp add: reconfigure_routes_def calm_fold calm_reconfigure)

lemma calm_route_update [calm_intro]: "calm N G a b \<Longrightarrow> calm N G a (on_route_update env peer upd b)"
  by (simp add: on_route_update_def Let_def calm_intro split: option.split)

lemma calm_prefer [calm_intro]: "calm N G a b \<Longrightarrow> calm N G a (set_prefer_lossless env prefer b)"
  by (simp add: set_prefer_lossless_def Let_def calm_fold calm_reconfigure calm_fields)

lemma calm_quality_fallback [calm_intro]:
  assumes b: "calm N G a b" shows "calm N G a (update_quality_fallback env b)"
proof -
  have "calm N G a (b\<lparr>ac_routes := map f (ac_routes b)\<rparr>)" if "\<And>r. route_owner (f r) = route_owner r" for f
    using that by (intro calm_routes [OF b]) (auto intro: owned_same calm_owned [OF b])
  then show ?thesis
    by (auto simp: update_quality_fallback_def Let_def route_owner_def
        intro!: calm_fold calm_emit calm_reconfigure)
qed

lemma calm_reopen_audio [calm_intro]:
  assumes b: "calm N G a b" shows "calm N G a (snd (reopen_route_audio env key b))"
proof (cases "take_first (\<lambda>r. route_key r = key) (ac_routes b)")
  case (Some p)
  then have taken: "calm N G a (b\<lparr>ac_routes := snd p\<rparr>)" "owned N G a (fst p)"
    using calm_take [OF b, of _ "fst p" "snd p"] by simp_all
  then have "owned N G a (take_pipelines (fst p))" by (auto intro: owned_same)
  then show ?thesis
    using taken(1)
    by (auto simp: reopen_route_audio_def Some release_fields case_prod_beta Let_def
        intro!: calm_stop calm_emit calm_rebegin calm_finish_release calm_close_encoder split: option.split sum.split)
next
  case None
  then show ?thesis using b by (simp add: reopen_route_audio_def del: take_first_None)
qed

lemma calm_reopen_default [calm_intro]:
  "calm N G a b \<Longrightarrow> calm N G a (snd (reopen_on_default_device env key b))"
  by (simp add: reopen_on_default_device_def Let_def calm_intro split: option.split)

lemma calm_audio_failed [calm_intro]: "calm N G a b \<Longrightarrow> calm N G a (on_audio_failed env key e b)"
  by (simp add: on_audio_failed_def case_prod_beta Let_def calm_intro)

lemma calm_encoder_lost: "calm N G a (snd st) \<Longrightarrow> calm N G a (snd (encoder_lost env e key st))"
  by (simp add: encoder_lost_def case_prod_beta Let_def calm_intro)

lemma calm_encoder_failed [calm_intro]: "calm N G a b \<Longrightarrow> calm N G a (on_encoder_failed env key e b)"
  unfolding on_encoder_failed_def Let_def by (rule calm_fold_snd) (simp_all add: calm_encoder_lost calm_close_encoder)

lemma calm_set_monitor [calm_intro]: "calm N G a b \<Longrightarrow> calm N G a (set_monitor env enabled b)"
  by (simp add: set_monitor_def Let_def calm_intro split: option.split)

lemma calm_devices_changed [calm_intro]: "calm N G a b \<Longrightarrow> calm N G a (on_audio_devices_changed env i o1 b)"
  by (simp add: on_audio_devices_changed_def Let_def calm_intro calm_fold calm_reopen_audio)

lemma calm_audio_idle [calm_intro]: "calm N G a b \<Longrightarrow> calm N G a (check_audio_idle now b)"
  by (simp add: check_audio_idle_def case_prod_beta Let_def calm_intro split: option.split IdleChange.split)

lemma calm_local_audio [calm_intro]: "calm N G a b \<Longrightarrow> calm N G a (set_local_audio f b)"
  by (simp add: set_local_audio_def calm_intro)

lemma calm_remember_mic [calm_intro]: "calm N G a b \<Longrightarrow> calm N G a (remember_mic_peer b)"
  by (simp add: remember_mic_peer_def Let_def calm_intro split: option.split)

lemma calm_auto_mic [calm_intro]: "calm N G a b \<Longrightarrow> calm N G a (snd (auto_start_mic env b))"
  by (simp add: auto_start_mic_def Let_def calm_intro split: option.split)

lemma calm_mic_ended [calm_intro]: "calm N G a b \<Longrightarrow> calm N G a (mic_use_ended now b)"
  by (simp add: mic_use_ended_def Let_def calm_intro split: option.split)

lemma calm_virtual_mic [calm_intro]: "calm N G a b \<Longrightarrow> calm N G a (check_virtual_mic_use env b)"
  by (simp add: check_virtual_mic_use_def case_prod_beta Let_def calm_intro)

section \<open>Pausing and resuming\<close>

lemma calm_pause_route:
  assumes b: "calm N G a b" shows "calm N G a (pause_route now i b)"
proof -
  let ?c = "release_pipelines_at i b"
  have c: "calm N G a ?c" using b by (rule calm_release_at)
  have upd: "calm N G a (d\<lparr>ac_routes := (ac_routes ?c)[i := x]\<rparr>)"
    if "calm N G a d" "ac_routes d = ac_routes ?c" "route_owner x = route_owner (ac_routes ?c ! i)" for d x
    using calm_list_update [OF that(1), of i x] that(2,3) by simp
  show ?thesis
    using c by (auto simp: pause_route_def Let_def route_owner_def intro!: upd calm_answer)
qed

lemma calm_pause_routes [calm_intro]: "calm N G a b \<Longrightarrow> calm N G a (pause_routes_for env peer b)"
  by (auto simp: pause_routes_for_def Let_def
      intro!: calm_update_keep_alive calm_filter calm_fold calm_pause_route)

lemma calm_resume_kind:
  assumes b: "calm N G a (snd st)" and paused: "\<And>r. r \<in> set (fst st) \<Longrightarrow> owned N G a r"
  shows "calm N G a (snd (resume_kind env peer kind st)) \<and>
         (\<forall>r\<in>set (fst (resume_kind env peer kind st)). owned N G a r)"
proof -
  let ?c = "start_route env peer kind False None (snd st)"
  have c: "calm N G a ?c" using b by (rule calm_start)
  have kept: "calm N G a (?c\<lparr>ac_routes := map_last P (\<lambda>r. r\<lparr>rt_keep_running := k\<rparr>) (ac_routes ?c)\<rparr>)" for P k
    by (rule calm_map_last [OF c]) (simp add: route_owner_def)
  have returned: "calm N G a (?c\<lparr>ac_routes := ac_routes ?c @ [r]\<rparr>)" "\<forall>x\<in>set rest. owned N G a x"
    if "take_first P (fst st) = Some (r, rest)" for P r rest
    using take_first_Some [OF that] paused calm_append [OF c] by auto
  show ?thesis
    using c kept returned paused
    by (auto simp: resume_kind_def case_prod_beta Let_def simp del: take_first_None split: option.split)
qed

lemma calm_resume_fold:
  assumes "calm N G a (snd st)" "\<forall>r\<in>set (fst st). owned N G a r"
  shows "calm N G a (snd (fold (resume_kind env peer) ks st))"
  using assms
proof (induction ks arbitrary: st)
  case (Cons k ks)
  have "calm N G a (snd (resume_kind env peer k st)) \<and> (\<forall>r\<in>set (fst (resume_kind env peer k st)). owned N G a r)"
    using Cons.prems by (intro calm_resume_kind) auto
  then have "calm N G a (snd (fold (resume_kind env peer) ks (resume_kind env peer k st)))"
    by (intro Cons.IH) simp_all
  then show ?case by (simp only: fold_simps o_apply fold_Cons)
qed simp

lemma calm_resume [calm_intro]:
  assumes b: "calm N G a b" shows "calm N G a (resume_routes env peer b)"
  unfolding resume_routes_def
  by (rule calm_resume_fold) (use calm_owned [OF b] calm_filter [OF b] in simp_all)

lemma calm_enforce [calm_intro]: "calm N G a b \<Longrightarrow> calm N G a (enforce_permissions peer b)"
  by (simp add: enforce_permissions_def calm_fold calm_stop split: option.split)

end
