(* ===== verification/Engine_Authority.thy ===== *)
theory Engine_Authority
  imports Session_Calm
begin

text \<open>
  Who may do what, over every run of the engine: sessions and routes only with paired devices that are not
  blocked, routes for a peer only where a permission, a resumed approval or the user allows them, and new
  paired devices only out of a completed pairing.
\<close>

section \<open>Dials and housekeeping\<close>

lemma calm_cancel_dial [calm_intro]: "calm N G a b \<Longrightarrow> calm N G a (cancel_dial did b)"
  by (simp add: cancel_dial_def Let_def calm_intro split: option.split)

lemma calm_set_dial [calm_intro]: "calm N G a b \<Longrightarrow> calm N G a (set_dial did d b)"
  by (simp add: set_dial_def calm_intro)

lemma calm_drop_dial [calm_intro]: "calm N G a b \<Longrightarrow> calm N G a (drop_dial did b)"
  by (simp add: drop_dial_def Let_def calm_intro)

lemma calm_dial [calm_intro]: "calm N G a b \<Longrightarrow> calm N G a (snd (dial env addrs pinned pair target usb b))"
  by (simp add: dial_def Let_def calm_intro split: option.split)

lemma calm_try_dial [calm_intro]: "calm N G a b \<Longrightarrow> calm N G a (try_dial_trusted env did b)"
  by (simp add: try_dial_trusted_def Let_def calm_intro split: option.split)

lemma calm_dial_failed [calm_intro]: "calm N G a b \<Longrightarrow> calm N G a (on_dial_failed env conn target e b)"
  by (simp add: on_dial_failed_def Let_def calm_intro split: option.split)

lemma calm_discovered [calm_intro]: "calm N G a b \<Longrightarrow> calm N G a (on_discovered env did addrs b)"
  by (simp add: on_discovered_def Let_def calm_intro split: option.split)

lemma calm_connect [calm_intro]: "calm N G a b \<Longrightarrow> calm N G a (connect_device env did b)"
  by (simp add: connect_device_def Let_def calm_intro)

lemma calm_retry_dials [calm_intro]: "calm N G a b \<Longrightarrow> calm N G a (retry_dials env b)"
  by (simp add: retry_dials_def calm_intro)

lemma calm_network_changed [calm_intro]: "calm N G a b \<Longrightarrow> calm N G a (network_changed env b)"
  by (simp add: network_changed_def calm_intro)

lemma calm_auto_connect [calm_intro]: "calm N G a b \<Longrightarrow> calm N G a (auto_connect env b)"
  by (simp add: auto_connect_def calm_fold calm_try_dial)

lemma calm_close_est [calm_intro]: "calm N G a b \<Longrightarrow> calm N G a (close_est est reason b)"
  by (simp add: close_est_def calm_intro)

lemma calm_audit_refused [calm_intro]: "calm N G a b \<Longrightarrow> calm N G a (audit_refused env did detail b)"
  by (simp add: audit_refused_def calm_intro)

lemma calm_audit_permission [calm_intro]: "calm N G a b \<Longrightarrow> calm N G a (audit_permission did kind policy b)"
  by (simp add: audit_permission_def calm_intro)

lemma calm_speaker_mutes [calm_intro]: "calm N G a b \<Longrightarrow> calm N G a (forget_speaker_mutes did b)"
  by (simp add: forget_speaker_mutes_def Let_def calm_intro)

lemma calm_forget_flaps [calm_intro]: "calm N G a b \<Longrightarrow> calm N G a (forget_flaps did b)"
  by (simp add: forget_flaps_def calm_intro)

lemma calm_record_reconnect [calm_intro]: "calm N G a b \<Longrightarrow> calm N G a (record_reconnect env did b)"
  by (simp add: record_reconnect_def case_prod_beta Let_def calm_intro)

lemma calm_redeem [calm_intro]: "calm N G a b \<Longrightarrow> calm N G a (redeem_token env est b)"
  by (simp add: redeem_token_def calm_intro split: option.split)

lemma calm_await [calm_intro]: "calm N G a b \<Longrightarrow> calm N G a (await_pair_request env est b)"
  by (simp add: await_pair_request_def case_prod_beta Let_def calm_intro split: Decision.split)

lemma calm_handshake_failed [calm_intro]: "calm N G a b \<Longrightarrow> calm N G a (on_handshake_failed env conn inc b)"
  by (simp add: on_handshake_failed_def Let_def calm_intro split: option.split)

section \<open>Changes of the trust store\<close>

lemma update_devices:
  assumes "store_wf st" "trust_update c s io did f st files = (r, st', files')"
  shows "trust_get st' e = (if e = did then map_option f (trust_get st did) else trust_get st e) \<and> store_wf st'"
proof (cases "trust_get st did")
  case None
  then show ?thesis using assms by (auto simp: trust_update_def)
next
  case (Some d)
  then have "ts_devices st' = bm_insert (device_id_to_hex did) (f d) (ts_devices st)"
    using assms(2) by (auto simp: trust_update_def split: prod.splits sum.splits dest!: trust_save_store)
  then show ?thesis
    using trust_get_insert [OF assms(1), of st' did "f d" e] assms(1) Some
    by (simp add: store_wf_def bm_insert_wf)
qed

lemma trusted_update:
  assumes "store_wf (ac_trust b)"
  shows "trusted (update_trust env did f b) e = (if e = did then map_option f (trusted b did) else trusted b e) \<and>
         store_wf (ac_trust (update_trust env did f b))"
proof -
  obtain r st files where upd:
    "trust_update (en_crypto env) (en_serde env) (en_io env) did f (ac_trust b) (ac_files b) = (r, st, files)"
    by (cases "trust_update (en_crypto env) (en_serde env) (en_io env) did f (ac_trust b) (ac_files b)")
  from update_devices [OF assms upd] show ?thesis
    by (simp add: update_trust_def set_trust_def trusted_def upd)
qed

lemma update_trust_rest [simp]:
  "ac_sessions (update_trust env did f b) = ac_sessions b" "ac_routes (update_trust env did f b) = ac_routes b"
  "ac_pairings (update_trust env did f b) = ac_pairings b" "ac_requests (update_trust env did f b) = ac_requests b"
  by (simp_all add: update_trust_def set_trust_def)

lemma calm_trust_change:
  assumes b: "calm N G a b" and "ac_sessions c = ac_sessions b" "ac_routes c = ac_routes b"
    "ac_pairings c = ac_pairings b" and "trust_kept b c"
  shows "calm N G a c"
proof -
  have "sess_keys c = sess_keys b" "route_owners c = route_owners b"
    using view_cong(2) [of c b] view_cong(3) [of c b] assms(2,3) by simp_all
  then show ?thesis
    using b assms(4,5) trust_kept_trans [of a b c] by (simp add: calm_def)
qed

lemma kept_update:
  assumes "\<And>d. (td_public_key (f d), td_blocked (f d), td_permissions (f d))
                = (td_public_key d, td_blocked d, td_permissions d)"
  shows "trust_kept b (update_trust env did f b)"
proof -
  have "trust_view (update_trust env did f b) e = trust_view b e" if "store_wf (ac_trust b)" for e
    using trusted_update [OF that, of env did f e] assms
    by (auto simp: trust_view_def option.map_comp comp_def)
  then show ?thesis using trusted_update by (auto simp: trust_kept_def)
qed

lemma calm_set_auto_connect [calm_intro]: "calm N G a b \<Longrightarrow> calm N G a (set_auto_connect env did enabled b)"
  unfolding set_auto_connect_def by (erule calm_trust_change) (simp_all add: kept_update)

lemma calm_rename [calm_intro]: "calm N G a b \<Longrightarrow> calm N G a (rename_device env did alias b)"
  unfolding rename_device_def Let_def by (erule calm_trust_change) (simp_all add: kept_update)

lemma calm_hints:
  assumes "calm N G a b"
  shows "calm N G a (b\<lparr>ac_trust := snd (update_hints did f (ac_trust b))\<rparr>)"
proof (rule calm_trust_change [OF assms])
  obtain ok st where upd: "update_hints did f (ac_trust b) = (ok, st)" by (cases "update_hints did f (ac_trust b)")
  show "trust_kept b (b\<lparr>ac_trust := snd (update_hints did f (ac_trust b))\<rparr>)"
    unfolding trust_kept_def
  proof
    assume wf: "store_wf (ac_trust b)"
    from hints_get [OF wf upd]
    show "trust_view (b\<lparr>ac_trust := snd (update_hints did f (ac_trust b))\<rparr>) = trust_view b \<and>
          store_wf (ac_trust (b\<lparr>ac_trust := snd (update_hints did f (ac_trust b))\<rparr>))"
      by (simp add: upd fun_eq_iff trust_view_def trusted_def option.map_comp comp_def)
  qed
qed simp_all

lemma calm_flush [calm_intro]:
  assumes "calm N G a b" shows "calm N G a (flush_trust env b)"
proof (rule calm_trust_change [OF assms])
  obtain r st files where fl:
    "trust_flush (en_crypto env) (en_serde env) (en_io env) (ac_trust b) (ac_files b) = (r, st, files)"
    by (cases "trust_flush (en_crypto env) (en_serde env) (en_io env) (ac_trust b) (ac_files b)")
  then have "ts_devices st = ts_devices (ac_trust b)"
    by (auto simp: trust_flush_def split: if_splits dest!: trust_save_store)
  then show "trust_kept b (flush_trust env b)"
    by (simp add: flush_trust_def set_trust_def fl trust_kept_def fun_eq_iff trust_view_def trusted_def
        trust_get_def store_wf_def)
qed (simp_all add: flush_trust_def set_trust_def)

section \<open>Sessions\<close>

lemma calm_drop_sessions:
  assumes b: "calm N G a b" and "ac_trust c = ac_trust b" "ac_routes c = ac_routes b" "ac_pairings c = ac_pairings b"
    and "ac_sessions c = AList.delete did (ac_sessions b)"
  shows "calm N G a c"
proof -
  have "sess_keys c \<subseteq> sess_keys b"
    using assms(5) by (auto simp: sess_keys_def delete_conv' split: if_splits)
  moreover have "trust_view c = trust_view b" "route_owners c = route_owners b"
    using view_cong(1) [of c b] view_cong(3) [of c b] assms(2,3) by simp_all
  ultimately show ?thesis
    using b assms(2,4) by (auto simp: calm_def trust_kept_def)
qed

lemma calm_end_session [calm_intro]: "calm N G a b \<Longrightarrow> calm N G a (end_session_with did reason b)"
  by (auto simp: end_session_with_def intro!: calm_emit calm_drop_sessions [of N G a b] split: option.split)

lemma calm_end_for_newer [calm_intro]: "calm N G a b \<Longrightarrow> calm N G a (end_session_for_newer env did old b)"
  by (auto simp: end_session_for_newer_def intro!: calm_emit calm_pause_routes
      calm_drop_sessions [where b = b and did = did])

lemma calm_issue_ticket [calm_intro]: "calm N G a b \<Longrightarrow> calm N G a (issue_ticket env s b)"
  by (simp add: issue_ticket_def case_prod_beta Let_def calm_intro)

lemma calm_add_session:
  assumes b: "calm N G a b" and "(did, ps_public_key s) \<in> N"
  shows "calm N G a (b\<lparr>ac_sessions := AList.update did s (ac_sessions b)\<rparr>)"
proof -
  let ?c = "b\<lparr>ac_sessions := AList.update did s (ac_sessions b)\<rparr>"
  have "sess_keys ?c \<subseteq> sess_keys b \<union> N"
    using assms(2) by (auto simp: sess_keys_def update_conv' split: if_splits)
  moreover have "trust_view ?c = trust_view b" "route_owners ?c = route_owners b"
    using view_cong(1) [of ?c b] view_cong(3) [of ?c b] by simp_all
  ultimately show ?thesis
    using b by (auto simp: calm_def trust_kept_def)
qed

lemma calm_open_session:
  assumes "calm N G a b" "(did, es_public_key est) \<in> N"
  shows "calm N G a (open_session env did est b)"
  using assms
  by (auto simp: open_session_def Let_def intro!: calm_resume calm_add_session calm_issue_ticket calm_fields
      calm_set_dial calm_cancel_dial calm_hints split: option.split)

lemma calm_promote:
  assumes "calm N G a b" "(did, es_public_key est) \<in> N"
  shows "calm N G a (promote_session env did est b)"
  using assms
  by (auto simp: promote_session_def Let_def intro!: calm_open_session calm_end_for_newer calm_cancel_dial
      calm_close_est split: option.split)

lemma calm_drop_pairing [calm_intro]:
  assumes b: "calm N G a b" shows "calm N G a (drop_pairing_of conn reason b)"
proof -
  have "calm N G a (b\<lparr>ac_pairings := AList.delete did (ac_pairings b)\<rparr>)" for did
  proof -
    let ?c = "b\<lparr>ac_pairings := AList.delete did (ac_pairings b)\<rparr>"
    have "trust_view ?c = trust_view b" "route_owners ?c = route_owners b" "sess_keys ?c = sess_keys b"
      using view_cong [of ?c b] by simp_all
    moreover have "set (AList.delete did (ac_pairings b)) \<subseteq> set (ac_pairings b)" by (auto simp: AList.delete_eq)
    ultimately show ?thesis using b by (auto simp: calm_def trust_kept_def)
  qed
  then show ?thesis
    using b by (auto simp: drop_pairing_of_def Let_def intro!: calm_emit split: option.split)
qed

lemma calm_after_close [calm_intro]: "calm N G a b \<Longrightarrow> calm N G a (after_close env did reason b)"
  by (simp add: after_close_def Let_def calm_intro split: option.split)

lemma calm_closed [calm_intro]:
  assumes b: "calm N G a b" shows "calm N G a (on_closed env conn reason b)"
proof -
  let ?b1 = "drop_pairing_of conn reason (b\<lparr>ac_unpaired := AList.delete conn (ac_unpaired b)\<rparr>)"
  have b1: "calm N G a ?b1" using b by (simp add: calm_intro)
  have "calm N G a (d\<lparr>ac_conn_index := ci, ac_sessions := AList.delete did (ac_sessions d)\<rparr>)"
    if "calm N G a d" for d ci did
    by (rule calm_drop_sessions [OF that]) simp_all
  then show ?thesis
    using b1 by (auto simp: on_closed_def Let_def
        intro!: calm_after_close calm_emit calm_speaker_mutes calm_fields split: option.split)
qed

lemma calm_revoke [calm_intro]: "calm N G a b \<Longrightarrow> calm N G a (revoke env did b)"
  by (simp add: revoke_def Let_def calm_intro)

lemma calm_disconnect [calm_intro]: "calm N G a b \<Longrightarrow> calm N G a (disconnect_device env did b)"
  by (simp add: disconnect_device_def calm_intro)

section \<open>Control messages, settings and ticks\<close>

lemma calm_remote_volume [calm_intro]: "calm N G a b \<Longrightarrow> calm N G a (on_remote_volume peer v b)"
  by (auto simp: on_remote_volume_def route_owner_def intro!: calm_change)

lemma calm_remote_mute [calm_intro]: "calm N G a b \<Longrightarrow> calm N G a (on_remote_mute env peer m b)"
  by (auto simp: on_remote_mute_def Let_def route_owner_def intro!: calm_change calm_emit calm_fields)

lemma calm_hello [calm_intro]: "calm N G a b \<Longrightarrow> calm N G a (on_hello conn peer h b)"
  by (auto simp: on_hello_def intro!: calm_set_session split: option.split)

lemma calm_ticket [calm_intro]: "calm N G a b \<Longrightarrow> calm N G a (on_ticket env conn peer t b)"
  by (auto simp: on_ticket_def intro!: calm_fields split: option.split)

lemma calm_peer_message:
  "calm N G a b
     \<Longrightarrow> (\<And>req k. bd = BRouteRequest req \<Longrightarrow> request_kind req = Some k \<Longrightarrow> (peer, k) \<in> granted env b \<Longrightarrow> (peer, k) \<in> G)
     \<Longrightarrow> calm N G a (peer_message env conn peer bd b)"
  by (auto simp: peer_message_def calm_intro intro!: calm_route_request split: Body.split)

lemma calm_sync_resumable [calm_intro]: "calm N G a b \<Longrightarrow> calm N G a (sync_resumable_routes b)"
  by (simp add: sync_resumable_routes_def Let_def calm_intro)

lemma calm_apply_settings [calm_intro]: "calm N G a b \<Longrightarrow> calm N G a (apply_settings env old b)"
  by (simp add: apply_settings_def Let_def calm_intro)

lemma calm_update_settings [calm_intro]: "calm N G a b \<Longrightarrow> calm N G a (update_settings env st b)"
  by (simp add: update_settings_def Let_def calm_intro)

lemma calm_device_profile [calm_intro]: "calm N G a b \<Longrightarrow> calm N G a (set_device_profile env did profile b)"
  by (simp add: set_device_profile_def Let_def calm_intro)

lemma calm_expire_route [calm_intro]: "calm N G a b \<Longrightarrow> calm N G a (expire_route key b)"
  by (simp add: expire_route_def calm_intro calm_change route_owner_def split: option.split)

lemma calm_pairings_subset:
  assumes b: "calm N G a b" and "set ps \<subseteq> set (ac_pairings b)"
  shows "calm N G a (b\<lparr>ac_pairings := ps\<rparr>)"
proof -
  have "trust_view (b\<lparr>ac_pairings := ps\<rparr>) = trust_view b" "route_owners (b\<lparr>ac_pairings := ps\<rparr>) = route_owners b"
    "sess_keys (b\<lparr>ac_pairings := ps\<rparr>) = sess_keys b"
    by (rule view_cong, simp)+
  then show ?thesis using assms by (auto simp: calm_def trust_kept_def)
qed

lemma calm_expiries [calm_intro]:
  assumes b: "calm N G a b"
  shows "calm N G a (expire_routes env b)" "calm N G a (expire_requests env b)" "calm N G a (expire_unpaired env b)"
    "calm N G a (expire_pairings env b)" "calm N G a (expire_qr env b)" "calm N G a (expire_stable_holds env b)"
    "calm N G a (expire_logging env b)"
proof -
  show "calm N G a (expire_routes env b)"
    by (simp add: expire_routes_def calm_fold calm_expire_route b)
  show "calm N G a (expire_requests env b)"
    by (auto simp: expire_requests_def b intro!: calm_fold calm_reject calm_fields)
  show "calm N G a (expire_unpaired env b)"
    by (auto simp: expire_unpaired_def b intro!: calm_fold calm_close_est calm_fields)
  show "calm N G a (expire_pairings env b)"
    by (auto simp: expire_pairings_def b intro!: calm_fold calm_close_est calm_pairings_subset simp: AList.delete_eq)
  show "calm N G a (expire_qr env b)"
    by (simp add: expire_qr_def calm_intro b split: option.split)
  show "calm N G a (expire_stable_holds env b)"
    by (auto simp: expire_stable_holds_def expire_stable_hold_def Let_def b
        intro!: calm_fold calm_reconfigure calm_forget_flaps)
  show "calm N G a (expire_logging env b)"
    by (simp add: expire_logging_def case_prod_beta Let_def calm_intro b)
qed

lemma calm_tick [calm_intro]: "calm N G a b \<Longrightarrow> calm N G a (tick env b)"
  by (simp add: tick_def Let_def calm_intro)

end
