(* ===== verification/Engine_Properties.thy ===== *)
theory Engine_Properties
  imports Engine_Authority
begin

text \<open>
  The properties of the engine as a state machine: authority over every run, and where each kind of it comes
  from in a single step.
\<close>

section \<open>Secure states\<close>

definition unblocked :: "Actor \<Rightarrow> DeviceId \<Rightarrow> bool" where
  "unblocked a did \<longleftrightarrow> (case trusted a did of Some d \<Rightarrow> \<not> td_blocked d | None \<Rightarrow> False)"

definition secure :: "(bytes \<Rightarrow> bytes) \<Rightarrow> Actor \<Rightarrow> bool" where
  "secure sha a \<longleftrightarrow> store_wf (ac_trust a) \<and>
     (\<forall>(did, pk)\<in>sess_keys a. unblocked a did \<and> device_id_of sha pk = did) \<and>
     (\<forall>(p, k, l)\<in>route_owners a. unblocked a p) \<and>
     (\<forall>(did, p)\<in>set (ac_pairings a). device_id_of sha (es_public_key (pp_est p)) = did)"

lemma unblocked_view: "unblocked a did \<longleftrightarrow> (\<exists>pk perms. trust_view a did = Some (pk, False, perms))"
  by (auto simp: unblocked_def trust_view_def split: option.split)

lemma secureD:
  assumes "secure sha a"
  shows "store_wf (ac_trust a)"
    "(did, pk) \<in> sess_keys a \<Longrightarrow> unblocked a did"
    "(did, pk) \<in> sess_keys a \<Longrightarrow> device_id_of sha pk = did"
    "(p, k, l) \<in> route_owners a \<Longrightarrow> unblocked a p"
    "(did, e) \<in> set (ac_pairings a) \<Longrightarrow> device_id_of sha (es_public_key (pp_est e)) = did"
  using assms by (auto simp: secure_def)

lemma secureI:
  assumes "store_wf (ac_trust a)"
    and "\<And>did pk. (did, pk) \<in> sess_keys a \<Longrightarrow> unblocked a did"
    and "\<And>did pk. (did, pk) \<in> sess_keys a \<Longrightarrow> device_id_of sha pk = did"
    and "\<And>p k l. (p, k, l) \<in> route_owners a \<Longrightarrow> unblocked a p"
    and "\<And>did e. (did, e) \<in> set (ac_pairings a) \<Longrightarrow> device_id_of sha (es_public_key (pp_est e)) = did"
  shows "secure sha a"
  using assms by (auto simp: secure_def)

lemma secure_calm:
  assumes a: "secure sha a" and ab: "calm N G a b"
    and N: "\<And>did pk. (did, pk) \<in> N \<Longrightarrow> unblocked a did \<and> device_id_of sha pk = did"
  shows "secure sha b"
proof (rule secureI)
  have view: "trust_view b = trust_view a" and wf: "store_wf (ac_trust b)"
    using secureD(1) [OF a] ab by (simp_all add: calm_def trust_kept_def)
  then have same: "unblocked b did = unblocked a did" for did by (simp add: unblocked_view)
  show "store_wf (ac_trust b)" by (rule wf)
  fix did pk assume "(did, pk) \<in> sess_keys b"
  then have "(did, pk) \<in> sess_keys a \<or> (did, pk) \<in> N" using ab by (auto simp: calm_def)
  then show "unblocked b did" "device_id_of sha pk = did"
    using secureD(2,3) [OF a] N same by blast+
next
  fix p k l assume "(p, k, l) \<in> route_owners b"
  then have "(p, k, l) \<in> route_owners a \<or> (\<exists>pk. (p, pk) \<in> sess_keys a \<or> (p, pk) \<in> N)"
    using ab by (force simp: calm_def allowed_def)
  moreover have "unblocked b p = unblocked a p"
    using secureD(1) [OF a] ab by (simp add: calm_def trust_kept_def unblocked_view)
  ultimately show "unblocked b p" using secureD(2,4) [OF a] N by blast
next
  fix did e assume "(did, e) \<in> set (ac_pairings b)"
  then show "device_id_of sha (es_public_key (pp_est e)) = did"
    using ab secureD(5) [OF a] by (auto simp: calm_def)
qed

lemmas secure_quiet = secure_calm [where N = "{}" and G = UNIV, OF _ calm_mono [where N = "{}"]]

text \<open>A change of the trust store that keeps every device with a session or route unblocked.\<close>

lemma secure_trust:
  assumes a: "secure sha a" and wf: "store_wf (ac_trust b)"
    and same: "ac_sessions b = ac_sessions a" "ac_routes b = ac_routes a" "set (ac_pairings b) \<subseteq> set (ac_pairings a)"
    and kept: "\<And>did. unblocked a did \<Longrightarrow> unblocked b did \<or> (did \<notin> fst ` sess_keys a \<and> did \<notin> fst ` route_owners a)"
  shows "secure sha b"
proof (rule secureI)
  have eq: "sess_keys b = sess_keys a" "route_owners b = route_owners a"
    using view_cong(2) [of b a] view_cong(3) [of b a] same(1,2) by simp_all
  show "store_wf (ac_trust b)" by (rule wf)
  fix did pk assume s: "(did, pk) \<in> sess_keys b"
  then have "did \<in> fst ` sess_keys a" by (force simp: eq)
  then show "unblocked b did" using kept [of did] secureD(2) [OF a, of did pk] s by (simp add: eq)
  show "device_id_of sha pk = did" using secureD(3) [OF a, of did pk] s by (simp add: eq)
next
  fix p k l assume s: "(p, k, l) \<in> route_owners b"
  then have "(p, k, l) \<in> route_owners a" using view_cong(3) [of b a] same(2) by simp
  moreover from this have "p \<in> fst ` route_owners a" by force
  ultimately show "unblocked b p" using kept [of p] secureD(4) [OF a] by blast
next
  fix did e assume "(did, e) \<in> set (ac_pairings b)"
  then show "device_id_of sha (es_public_key (pp_est e)) = did"
    using same(3) secureD(5) [OF a] by blast
qed

section \<open>Revoking\<close>

text \<open>Stopping every route of a device leaves the others, in order.\<close>

definition drop_key :: "RouteKey \<Rightarrow> Route list \<Rightarrow> Route list" where
  "drop_key key rs = (case take_first (\<lambda>r. route_key r = key) rs of None \<Rightarrow> rs | Some (r, rest) \<Rightarrow> rest)"

lemma drop_key_Cons: "drop_key key (r # rs) = (if route_key r = key then rs else r # drop_key key rs)"
  by (auto simp: drop_key_def simp del: take_first_None split: option.split)

lemma fold_drop_other:
  "route_key r \<notin> set keys \<Longrightarrow> fold drop_key keys (r # rs) = r # fold drop_key keys rs"
  by (induction keys arbitrary: rs) (simp_all add: drop_key_Cons)

lemma fold_drop_all:
  "fold drop_key (map route_key (filter (\<lambda>r. rt_peer r = did) rs)) rs = filter (\<lambda>r. rt_peer r \<noteq> did) rs"
proof (induction rs)
  case (Cons r rs)
  have "fold drop_key (map route_key (filter (\<lambda>r. rt_peer r = did) rs)) (r # rs) =
      r # fold drop_key (map route_key (filter (\<lambda>r. rt_peer r = did) rs)) rs" if "rt_peer r \<noteq> did"
    using that by (intro fold_drop_other) (auto simp: route_key_def)
  then show ?case using Cons by (auto simp: drop_key_Cons)
qed simp

lemma stop_drop_key: "ac_routes (stop_route_by_key key reason notify a) = drop_key key (ac_routes a)"
  by (simp add: stop_routes drop_key_def)

lemma fold_stop_routes:
  "ac_routes (fold (\<lambda>k. stop_route_by_key k reason notify) keys a) = fold drop_key keys (ac_routes a)"
  by (induction keys arbitrary: a) (simp_all add: stop_drop_key)

lemma remove_routes: "ac_routes (remove_routes_for did a) = filter (\<lambda>r. rt_peer r \<noteq> did) (ac_routes a)"
  by (simp add: remove_routes_for_def fold_stop_routes fold_drop_all)

lemma revoke_clears:
  "did \<notin> fst ` sess_keys (revoke env did a) \<and> did \<notin> fst ` route_owners (revoke env did a)"
proof -
  let ?a1 = "remove_routes_for did (forget_flaps did a)"
  let ?a2 = "emit (EndNetworkTest did ErrRevoked) ((drop_dial did ?a1)
      \<lparr>ac_resume := resume_forget (en_sha256 env) did (ac_resume (drop_dial did ?a1))\<rparr>)"
  have mutes: "ac_sessions (forget_speaker_mutes did b) = ac_sessions b"
    "ac_routes (forget_speaker_mutes did b) = ac_routes b" for b
    by (simp_all add: forget_speaker_mutes_def Let_def emit_def)
  have dial: "ac_routes (drop_dial did b) = ac_routes b" for b
    by (simp add: drop_dial_def cancel_dial_def Let_def emit_def split: option.split)
  have ends: "ac_routes (end_session_with did reason b) = ac_routes b"
    "did \<notin> fst ` sess_keys (end_session_with did reason b)" for b reason
    by (auto simp: end_session_with_def emit_def sess_keys_def delete_conv' split: option.splits if_splits)
  have "ac_routes (revoke env did a) = filter (\<lambda>r. rt_peer r \<noteq> did) (ac_routes a)"
    by (simp add: revoke_def Let_def mutes ends dial remove_routes forget_flaps_def)
  moreover have "sess_keys (revoke env did a) = sess_keys (end_session_with did PermissionRevoked ?a2)"
    by (rule view_cong) (simp add: revoke_def Let_def mutes)
  ultimately show ?thesis
    using ends(2) by (auto simp: route_owners_def route_owner_def)
qed

section \<open>Security of each step\<close>

lemma secure_step_calm: "secure sha a \<Longrightarrow> calm {} UNIV a b \<Longrightarrow> secure sha b"
  by (rule secure_calm [where N = "{}" and G = UNIV]) auto

lemma secure_emit: "secure sha a \<Longrightarrow> secure sha (emit e a)"
  by (erule secure_step_calm) (simp add: calm_intro)

lemma set_alist_update: "set (AList.update k v xs) \<subseteq> insert (k, v) (set xs)"
  by (induction xs) auto

lemma secure_set_pairing:
  assumes "secure sha a" "device_id_of sha (es_public_key (pp_est p)) = did"
  shows "secure sha (a\<lparr>ac_pairings := AList.update did p (ac_pairings a)\<rparr>)"
proof (rule secureI)
  let ?b = "a\<lparr>ac_pairings := AList.update did p (ac_pairings a)\<rparr>"
  have eq: "sess_keys ?b = sess_keys a" "route_owners ?b = route_owners a" "trust_view ?b = trust_view a"
    by (rule view_cong, simp)+
  then have same: "unblocked ?b e = unblocked a e" for e by (simp add: unblocked_view)
  show "store_wf (ac_trust ?b)" using secureD(1) [OF assms(1)] by simp
  fix e pk assume "(e, pk) \<in> sess_keys ?b"
  then show "unblocked ?b e" "device_id_of sha pk = e" using secureD(2,3) [OF assms(1)] by (simp_all add: eq same)
next
  fix q k l assume "(q, k, l) \<in> route_owners (a\<lparr>ac_pairings := AList.update did p (ac_pairings a)\<rparr>)"
  then have "(q, k, l) \<in> route_owners a"
    using view_cong(3) [of "a\<lparr>ac_pairings := AList.update did p (ac_pairings a)\<rparr>" a] by simp
  moreover have "trust_view (a\<lparr>ac_pairings := AList.update did p (ac_pairings a)\<rparr>) = trust_view a"
    by (rule view_cong) simp
  ultimately show "unblocked (a\<lparr>ac_pairings := AList.update did p (ac_pairings a)\<rparr>) q"
    using secureD(4) [OF assms(1)] by (simp add: unblocked_view)
next
  fix e x assume "(e, x) \<in> set (ac_pairings (a\<lparr>ac_pairings := AList.update did p (ac_pairings a)\<rparr>))"
  then have "(e, x) \<in> set (ac_pairings a) \<or> (e = did \<and> x = p)"
    using set_alist_update [of did p "ac_pairings a"] by auto
  then show "device_id_of sha (es_public_key (pp_est x)) = e" using secureD(5) [OF assms(1)] assms(2) by blast
qed

lemma est_device_of: "en_sha256 env = sha \<Longrightarrow> est_device env est = device_id_of sha (es_public_key est)"
  by (simp add: est_device_def est_fingerprint_def)

lemma secure_begin_pairing:
  assumes a: "secure sha a" and "en_sha256 env = sha" "did = est_device env est"
  shows "secure sha (begin_pairing env did est scanner a)"
proof -
  show ?thesis
  proof (cases "es_exporter est")
    case None
    then show ?thesis by (intro secure_step_calm [OF a]) (simp add: begin_pairing_def calm_intro)
  next
    case (Some exporter)
    let ?a1 = "case map_of (ac_pairings a) did of Some old \<Rightarrow> close_est (pp_est old) Superseded a | None \<Rightarrow> a"
    have close: "secure sha ?a1"
      by (rule secure_step_calm [OF a]) (simp add: calm_intro split: option.split)
    have "secure sha (?a1\<lparr>ac_pairings := AList.update did p (ac_pairings ?a1)\<rparr>)" if "pp_est p = est" for p
      using assms(2,3) that by (intro secure_set_pairing close) (simp add: est_device_of)
    then show ?thesis by (simp add: begin_pairing_def Some Let_def secure_emit)
  qed
qed

lemma secure_upsert:
  assumes a: "secure sha a" and d: "td_device_id d = did" "\<not> td_blocked d"
  shows "secure sha (set_trust (snd (trust_upsert c s io d (ac_trust a) files)) a) \<and>
         unblocked (set_trust (snd (trust_upsert c s io d (ac_trust a) files)) a) did"
proof -
  obtain r st files' where up: "trust_upsert c s io d (ac_trust a) files = (r, st, files')"
    by (cases "trust_upsert c s io d (ac_trust a) files")
  have wf: "store_wf (ac_trust a)" using secureD(1) [OF a] .
  have dev: "ts_devices st = bm_insert (device_id_to_hex did) d (ts_devices (ac_trust a))"
    using upsert_devices [OF up] d by simp
  have wf': "store_wf st" using wf by (simp add: store_wf_def dev bm_insert_wf)
  have get: "trust_get st e = (if e = did then Some d else trust_get (ac_trust a) e)" for e
    by (rule trust_get_insert [OF wf dev])
  let ?b = "set_trust (st, files') a"
  have un: "unblocked ?b e = (e = did \<or> unblocked a e)" for e
    using d(2) by (simp add: unblocked_def trusted_def set_trust_def get)
  have "secure sha ?b"
    by (rule secure_trust [OF a]) (use wf' un in \<open>simp_all add: set_trust_def\<close>)
  then show ?thesis by (simp add: up un)
qed

lemma secure_promote:
  assumes a: "secure sha a" and "unblocked a did" "device_id_of sha (es_public_key est) = did"
  shows "secure sha (promote_session env did est a)"
  by (rule secure_calm [OF a calm_promote [where N = "{(did, es_public_key est)}" and G = UNIV]])
    (use assms in auto)

lemma complete_trusts:
  assumes wf: "store_wf (ac_trust a)" and p: "map_of (ac_pairings a) did = Some p"
  shows "trust_view (complete_pairing env did a) did = Some (es_public_key (pp_est p), False, permissions_default)"
proof -
  obtain r st files where up: "trust_upsert (en_crypto env) (en_serde env) (en_io env)
      (paired_device env did (pp_est p)) (ac_trust a) (ac_files a) = (r, st, files)"
    by (cases "trust_upsert (en_crypto env) (en_serde env) (en_io env)
      (paired_device env did (pp_est p)) (ac_trust a) (ac_files a)")
  let ?a2 = "set_trust (st, files) (a\<lparr>ac_pairings := AList.delete did (ac_pairings a)\<rparr>)"
  have dev: "ts_devices st = bm_insert (device_id_to_hex did) (paired_device env did (pp_est p)) (ts_devices (ac_trust a))"
    using upsert_devices [OF up] by (simp add: paired_device_def)
  have view: "trust_view ?a2 did = Some (es_public_key (pp_est p), False, permissions_default)" "store_wf (ac_trust ?a2)"
    using trust_get_insert [OF wf dev] wf
    by (simp_all add: trust_view_def trusted_def set_trust_def paired_device_def store_wf_def dev bm_insert_wf)
  have "trust_view b did = trust_view ?a2 did" if "calm UNIV UNIV ?a2 b" for b
    using that view(2) by (simp add: calm_def trust_kept_def)
  then show ?thesis
    using view(1) by (simp add: complete_pairing_def p up Let_def calm_promote calm_intro split: sum.split)
qed

lemma secure_complete:
  assumes a: "secure sha a" shows "secure sha (complete_pairing env did a)"
proof (cases "map_of (ac_pairings a) did")
  case (Some p)
  let ?a1 = "a\<lparr>ac_pairings := AList.delete did (ac_pairings a)\<rparr>"
  have key: "device_id_of sha (es_public_key (pp_est p)) = did"
    using secureD(5) [OF a map_of_SomeD [OF Some]] .
  have a1: "secure sha ?a1"
    by (rule secure_step_calm [OF a]) (rule calm_pairings_subset, simp, auto simp: AList.delete_eq)
  obtain r st files where up: "trust_upsert (en_crypto env) (en_serde env) (en_io env)
      (paired_device env did (pp_est p)) (ac_trust a) (ac_files a) = (r, st, files)"
    by (cases "trust_upsert (en_crypto env) (en_serde env) (en_io env)
      (paired_device env did (pp_est p)) (ac_trust a) (ac_files a)")
  let ?a2 = "set_trust (st, files) ?a1"
  have a2: "secure sha ?a2" "unblocked ?a2 did"
    using secure_upsert [OF a1, of "paired_device env did (pp_est p)" did "en_crypto env" "en_serde env" "en_io env"
        "ac_files a"] up by (simp_all add: paired_device_def)
  have un: "unblocked (emit e b) did = unblocked b did" for e b
    by (simp add: unblocked_def trusted_def emit_def)
  show ?thesis
    using a2 key by (simp add: complete_pairing_def Some Let_def up secure_emit un secure_promote split: sum.split)
qed (simp add: complete_pairing_def a)

lemma secure_confirm:
  assumes a: "secure sha a" shows "secure sha (confirm_pairing env did accept a)"
proof (cases "map_of (ac_pairings a) did")
  case (Some p)
  let ?p = "p\<lparr>pp_local_confirmed := accept\<rparr>"
  let ?a1 = "emit (SendMsg (es_conn_id (pp_est p)) (BPairResult \<lparr>pair_accepted = accept\<rparr>)) (set_pairing did ?p a)"
  have a1: "secure sha ?a1"
    using secureD(5) [OF a map_of_SomeD [OF Some]]
    by (auto simp: set_pairing_def intro!: secure_emit secure_set_pairing a)
  have "secure sha (close_est (pp_est p) PermissionDenied
      (let a2 = emit (Audit AuditPairingRejected did None ''local'') ?a1
       in a2\<lparr>ac_pairings := AList.delete did (ac_pairings a2)\<rparr>))"
    unfolding Let_def by (rule secure_step_calm [OF a1])
      (auto simp: AList.delete_eq intro!: calm_close_est calm_pairings_subset calm_emit [OF calm_refl])
  then show ?thesis
    using a1 secure_complete [of sha ?a1 env did]
    by (simp (no_asm_simp) add: confirm_pairing_def Some Let_def) (cases accept; simp add: Let_def)
qed (simp add: confirm_pairing_def a)

lemma secure_pair_result:
  assumes a: "secure sha a" and p: "(did, p) \<in> set (ac_pairings a)"
  shows "secure sha (on_pair_result env did p result a)"
proof -
  have no: "secure sha (emit (ErrorNotice ErrPairingRejected) (close_est (pp_est p) PermissionDenied
      (let a1 = emit (Audit AuditPairingRejected did None ''peer'') a
       in a1\<lparr>ac_pairings := AList.delete did (ac_pairings a1)\<rparr>)))"
    unfolding Let_def by (rule secure_step_calm [OF a])
      (auto simp: AList.delete_eq intro!: calm_close_est calm_pairings_subset calm_emit)
  have "secure sha (set_pairing did (p\<lparr>pp_peer_confirmed := True\<rparr>) a)"
    using secureD(5) [OF a p] by (auto simp: set_pairing_def intro!: secure_set_pairing a)
  then show ?thesis
    using no by (simp add: on_pair_result_def Let_def secure_complete secure_emit)
qed

lemma secure_qr_proof:
  assumes a: "secure sha a" and env: "en_sha256 env = sha"
  shows "secure sha (accept_qr_proof env est a)"
proof -
  let ?did = "est_device env est"
  let ?a1 = "begin_pairing env ?did est False (emit UpdateDiscovery (a\<lparr>ac_qr := None\<rparr>))"
  have "secure sha (emit UpdateDiscovery (a\<lparr>ac_qr := None\<rparr>))"
    by (rule secure_step_calm [OF a]) (simp add: calm_intro)
  then have a1: "secure sha ?a1" using env by (intro secure_begin_pairing) simp_all
  have "secure sha (set_pairing ?did (p\<lparr>pp_local_confirmed := True, pp_peer_confirmed := True\<rparr>) ?a1)"
    if "map_of (ac_pairings ?a1) ?did = Some p" for p
    using secureD(5) [OF a1 map_of_SomeD [OF that]] by (auto simp: set_pairing_def intro!: secure_set_pairing a1)
  then show ?thesis
    using a1 by (auto simp: accept_qr_proof_def Let_def intro!: secure_complete secure_emit split: option.split)
qed

lemma secure_pair_request:
  assumes a: "secure sha a" and env: "en_sha256 env = sha"
  shows "secure sha (on_pair_request env est req a)"
proof -
  let ?a = "emit (Audit PairingAttempt (est_device env est) None '''') a"
  have "secure sha (refuse_pairing env est detail ?a)" for detail
    by (rule secure_step_calm [OF a]) (simp add: refuse_pairing_def calm_intro)
  then show ?thesis
    using secure_qr_proof [OF secure_emit [OF a] env] secure_begin_pairing [OF secure_emit [OF a] env]
    by (simp add: on_pair_request_def Let_def split: option.split sum.split)
qed

lemma secure_established:
  assumes a: "secure sha a" and env: "en_sha256 env = sha"
  shows "secure sha (on_established env est a)"
proof -
  let ?did = "est_device env est"
  let ?a = "a\<lparr>ac_dial_targets := AList.delete (es_conn_id est) (ac_dial_targets a),
              ac_pair_dials := AList.delete (es_conn_id est) (ac_pair_dials a)\<rparr>"
  have base: "secure sha ?a" by (rule secure_step_calm [OF a]) (simp add: calm_intro)
  have quiet: "secure sha (audit_refused env ?did detail (close_est est reason ?a))"
    "secure sha (close_est est reason ?a)" "secure sha (await_pair_request env est ?a)" for detail reason
    by (rule secure_step_calm [OF base], simp add: calm_intro)+
  have redeem: "secure sha (redeem_token env est ?a)"
    by (rule secure_step_calm [OF base]) (simp add: calm_intro)
  have un: "unblocked (redeem_token env est ?a) ?did = unblocked a ?did"
    by (simp add: unblocked_def trusted_def redeem_token_def split: option.split)
  have go: "secure sha (promote_session env ?did est (redeem_token env est ?a))" if "unblocked a ?did"
    using that env by (intro secure_promote redeem) (simp add: un, simp add: est_device_of)
  show ?thesis
    using quiet go secure_begin_pairing [OF base env]
    by (auto simp: on_established_def Let_def unblocked_def trusted_def split: option.split)
qed

lemma secure_control:
  assumes a: "secure sha a" and env: "en_sha256 env = sha"
  shows "secure sha (on_control env conn msg a)"
proof -
  let ?a1 = "a\<lparr>ac_unpaired := AList.delete conn (ac_unpaired a)\<rparr>"
  have base: "secure sha ?a1" by (rule secure_step_calm [OF a]) (simp add: calm_intro)
  have refused: "secure sha (close_est est PermissionDenied ?a1)" for est
    by (rule secure_step_calm [OF base]) (simp add: calm_intro)
  have peer: "secure sha (peer_message env conn p b a)" for p b
    by (rule secure_step_calm [OF a]) (simp add: calm_peer_message)
  have pairing: "secure sha (on_pair_result env did p result a)"
    if "find (\<lambda>(_, p). es_conn_id (pp_est p) = conn) (ac_pairings a) = Some (did, p)" for did p result
    using that a by (intro secure_pair_result) (auto simp: find_Some_iff in_set_conv_nth)
  show ?thesis
    using a peer refused pairing secure_pair_request [OF base env]
    by (auto simp: on_control_def Let_def split: option.split Body.split)
qed

section \<open>Security of the commands\<close>

lemma remove_routes_rest: "same_rest b (remove_routes_for did b)"
proof -
  have "same_rest b (fold (\<lambda>k. stop_route_by_key k StopUnspecified False) keys b)" for keys b
  proof (induction keys arbitrary: b)
    case (Cons k keys)
    show ?case using same_rest_trans [OF stop_rest Cons.IH, of b k StopUnspecified False] by simp
  qed (simp add: same_rest_refl)
  then show ?thesis by (simp add: remove_routes_for_def)
qed

lemma revoke_parts:
  "ac_trust (forget_speaker_mutes did b) = ac_trust b \<and> ac_pairings (forget_speaker_mutes did b) = ac_pairings b"
  "ac_trust (end_session_with did reason b) = ac_trust b \<and> ac_pairings (end_session_with did reason b) = ac_pairings b"
  "ac_trust (drop_dial did b) = ac_trust b \<and> ac_pairings (drop_dial did b) = ac_pairings b"
  "ac_trust (remove_routes_for did b) = ac_trust b \<and> ac_pairings (remove_routes_for did b) = ac_pairings b"
  using remove_routes_rest [of b did]
  by (simp_all add: forget_speaker_mutes_def end_session_with_def drop_dial_def cancel_dial_def emit_def Let_def
      same_rest_def split: option.split)

lemma revoke_rest:
  "ac_trust (revoke env did a) = ac_trust a" "ac_pairings (revoke env did a) = ac_pairings a"
  by (simp_all add: revoke_def Let_def revoke_parts emit_def forget_flaps_def)

lemma secure_set_trust_after_revoke:
  assumes a: "secure sha a" and wf: "store_wf st"
    and other: "\<And>e. e \<noteq> did \<Longrightarrow> trust_get st e = trust_get (ac_trust a) e"
    and gone: "did \<notin> fst ` sess_keys a" "did \<notin> fst ` route_owners a"
  shows "secure sha (set_trust (st, files) a)"
proof (rule secure_trust [OF a])
  fix e assume "unblocked a e"
  then show "unblocked (set_trust (st, files) a) e \<or> e \<notin> fst ` sess_keys a \<and> e \<notin> fst ` route_owners a"
    using other [of e] gone by (cases "e = did") (auto simp: unblocked_def trusted_def set_trust_def)
qed (use wf in \<open>simp_all add: set_trust_def\<close>)

lemma trust_remove_wf:
  assumes "store_wf st" "trust_remove c s io did st files = (r, st', files')"
  shows "store_wf st'"
  using assms
  by (cases "trust_get st did")
    (auto simp: trust_remove_def store_wf_def bm_remove_wf split: prod.splits sum.splits dest!: trust_save_store)

lemma secure_forget:
  assumes a: "secure sha a" shows "secure sha (forget_device env did a)"
proof -
  let ?a1 = "revoke env did a"
  have a1: "secure sha ?a1" by (rule secure_step_calm [OF a]) (simp add: calm_intro)
  define a2 where "a2 = (if trusted ?a1 did \<noteq> None then emit (Audit DeviceForgotten did None '''') ?a1 else ?a1)"
  have a2: "secure sha a2" by (simp add: a1 a2_def secure_emit)
  obtain r st files where rm: "trust_remove (en_crypto env) (en_serde env) (en_io env) did (ac_trust a2) (ac_files a2)
      = (r, st, files)"
    by (cases "trust_remove (en_crypto env) (en_serde env) (en_io env) did (ac_trust a2) (ac_files a2)")
  have view: "sess_keys a2 = sess_keys ?a1" "route_owners a2 = route_owners ?a1"
    by (rule view_cong, simp add: a2_def emit_def)+
  have a3: "secure sha (set_trust (st, files) a2)"
    by (rule secure_set_trust_after_revoke [where did = did, OF a2 trust_remove_wf [OF secureD(1) [OF a2] rm]])
      (use remove_devices [OF rm] revoke_clears [of did env a] view in simp_all)
  let ?a3 = "emit (ForgetNetworkTest did) (set_trust (st, files) a2)"
  have "secure sha (?a3\<lparr>ac_settings := x\<rparr>)" for x
    by (rule secure_step_calm [OF a3]) (simp add: calm_intro)
  then show ?thesis
    unfolding forget_device_def Let_def a2_def [symmetric] by (simp add: rm secure_emit)
qed

lemma unblocked_cong: "ac_trust b = ac_trust a \<Longrightarrow> unblocked b = unblocked a"
  by (simp add: fun_eq_iff unblocked_def trusted_def)

lemma secure_update_trust:
  assumes a: "secure sha a" and f: "\<And>d. \<not> td_blocked d \<Longrightarrow> \<not> td_blocked (f d)"
  shows "secure sha (update_trust env did f a)"
proof (rule secure_trust [OF a])
  note upd = trusted_update [OF secureD(1) [OF a], of env did f]
  show "store_wf (ac_trust (update_trust env did f a))" using upd by simp
  fix e assume "unblocked a e"
  then show "unblocked (update_trust env did f a) e \<or> e \<notin> fst ` sess_keys a \<and> e \<notin> fst ` route_owners a"
    using f by (cases "trusted a e"; cases "e = did") (simp_all add: unblocked_def upd [THEN conjunct1])
qed simp_all

lemma secure_owner:
  assumes a: "secure sha a" and same: "ac_sessions b = ac_sessions a" "ac_routes b = ac_routes a"
    and c: "calm {} UNIV b c" and r: "(p, k, l) \<in> route_owners c"
  shows "unblocked a p"
proof -
  have "sess_keys b = sess_keys a" "route_owners b = route_owners a"
    using view_cong(2,3) [of b a] same by simp_all
  then have "(p, k, l) \<in> route_owners a \<or> p \<in> fst ` sess_keys a"
    using c r by (auto simp: calm_def allowed_def)
  then show ?thesis using secureD(2,4) [OF a] by auto
qed

lemma secure_blocked:
  assumes a: "secure sha a" shows "secure sha (set_blocked env did blocked a)"
proof (cases blocked)
  case False
  then show ?thesis
    using secure_update_trust [OF a, of "\<lambda>d. d\<lparr>td_blocked := False\<rparr>" env did]
    by (simp add: set_blocked_def Let_def secure_emit)
next
  case True
  let ?f = "\<lambda>d. d\<lparr>td_blocked := True\<rparr>" and ?r = "revoke env did"
  let ?a1 = "update_trust env did ?f a"
  note upd = trusted_update [OF secureD(1) [OF a], of env did ?f]
  have "secure sha (?r ?a1)"
  proof (rule secureI)
    show "store_wf (ac_trust (?r ?a1))" using upd by (simp add: revoke_rest)
    have c: "calm {} UNIV ?a1 (?r ?a1)" by (simp add: calm_intro)
    have same: "sess_keys ?a1 = sess_keys a" "route_owners ?a1 = route_owners a" by (rule view_cong, simp)+
    have un: "unblocked (?r ?a1) e = unblocked a e" if "e \<noteq> did" for e
      using upd [of e] that by (simp add: unblocked_def revoke_rest trusted_def)
    have clear: "did \<notin> fst ` sess_keys (?r ?a1)" "did \<notin> fst ` route_owners (?r ?a1)"
      using revoke_clears [of did env ?a1] by auto
    show "device_id_of sha (es_public_key (pp_est x)) = e" if "(e, x) \<in> set (ac_pairings (?r ?a1))" for e x
      using that secureD(5) [OF a] by (simp add: revoke_rest)
    fix e pk assume s: "(e, pk) \<in> sess_keys (?r ?a1)"
    then have "e \<noteq> did" using clear(1) by force
    moreover from s have "(e, pk) \<in> sess_keys a" using c same by (auto simp: calm_def)
    ultimately show "unblocked (?r ?a1) e" "device_id_of sha pk = e"
      using un [of e] secureD(2,3) [OF a] by blast+
  next
    fix p k l assume r: "(p, k, l) \<in> route_owners (revoke env did ?a1)"
    then have "p \<noteq> did" using revoke_clears [of did env ?a1] by force
    moreover have "unblocked a p"
      by (rule secure_owner [OF a _ _ calm_revoke [OF calm_refl] r]) simp_all
    ultimately show "unblocked (revoke env did ?a1) p"
      using upd [of p] by (simp add: unblocked_def revoke_rest trusted_def)
  qed
  then show ?thesis by (simp add: True set_blocked_def Let_def secure_emit)
qed

lemma secure_permission:
  assumes a: "secure sha a" shows "secure sha (set_device_permission env did kind policy a)"
proof -
  let ?a1 = "update_trust env did (set_permission kind policy) a"
  have a1: "secure sha ?a1" by (rule secure_update_trust [OF a]) (simp add: set_permission_def)
  show ?thesis
    by (rule secure_step_calm [OF a1]) (simp add: set_device_permission_def Let_def calm_intro)
qed

lemma secure_respond:
  assumes a: "secure sha a" shows "secure sha (respond_request env request accept remember a)"
proof (cases "map_of (ac_requests a) request")
  case (Some p)
  let ?a1 = "a\<lparr>ac_requests := AList.delete request (ac_requests a)\<rparr>"
  let ?permission = "route_permission (pr_kind p)" and ?policy = "if accept then Allow else Deny"
  let ?a2 = "if remember then audit_permission (pr_peer p) ?permission ?policy
      (update_trust env (pr_peer p) (set_permission ?permission ?policy) ?a1) else ?a1"
  have a1: "secure sha ?a1" by (rule secure_step_calm [OF a]) (simp add: calm_intro)
  have "secure sha (update_trust env (pr_peer p) (set_permission ?permission ?policy) ?a1)"
    by (rule secure_update_trust [OF a1]) (simp add: set_permission_def)
  then have a2: "secure sha ?a2" using a1 by (simp add: audit_permission_def secure_emit)
  show ?thesis
    by (rule secure_step_calm [OF a2])
      (simp add: respond_request_def Some Let_def calm_intro calm_accept)
qed (simp add: respond_request_def a)

lemma secure_step:
  assumes a: "secure sha a" and env: "en_sha256 env = sha"
  shows "secure sha (engine_step env ev a)"
proof -
  have calm: "secure sha b" if "calm {} UNIV a b" for b by (rule secure_step_calm [OF a that])
  show ?thesis
  proof (cases ev)
    case (CmdPairWithQr uri)
    have "calm {} UNIV a (snd (pair_with_qr env uri a))"
      by (simp add: pair_with_qr_def Let_def case_prod_beta calm_intro split: sum.split)
    then show ?thesis by (simp add: CmdPairWithQr calm)
  next
    case (CmdPairWithDevice did)
    have "calm {} UNIV a (snd (pair_with_device env did a))"
      by (simp add: pair_with_device_def Let_def case_prod_beta calm_intro split: option.split)
    then show ?thesis by (simp add: CmdPairWithDevice calm)
  next
    case (EvPairAddress addrs)
    have "calm {} UNIV a (snd (pair_with_address env addrs a))"
      by (simp add: pair_with_address_def Let_def case_prod_beta calm_intro)
    then show ?thesis by (simp add: EvPairAddress calm)
  next
    case (CmdRouteVolume key volume)
    have "calm {} UNIV a (set_route_volume key volume a)"
      by (auto simp: set_route_volume_def Let_def route_owner_def intro!: calm_tell calm_change split: option.split)
    then show ?thesis by (simp add: CmdRouteVolume calm)
  next
    case (CmdRouteMuted key muted)
    have "calm {} UNIV a (set_route_muted key muted a)"
      by (auto simp: set_route_muted_def Let_def route_owner_def intro!: calm_tell calm_change split: option.split)
    then show ?thesis by (simp add: CmdRouteMuted calm)
  next
    case (CmdPeerSpeakersMuted did muted)
    have "calm {} UNIV a (set_peer_speakers_muted did muted a)"
      by (simp add: set_peer_speakers_muted_def Let_def calm_intro)
    then show ?thesis by (simp add: CmdPeerSpeakersMuted calm)
  next
    case (CmdKeepRunning key keep)
    have "calm {} UNIV a (set_keep_running key keep a)"
      by (auto simp: set_keep_running_def Let_def route_owner_def intro!: calm_emit calm_fields calm_change
          split: option.split)
    then show ?thesis by (simp add: CmdKeepRunning calm)
  qed (use a env in \<open>simp_all add: secure_established secure_control secure_confirm secure_forget secure_blocked
      secure_permission secure_respond calm calm_intro start_pairing_def stop_pairing_def Let_def\<close>)
qed

definition engine_run :: "(Env \<times> Event) list \<Rightarrow> Actor \<Rightarrow> Actor" where
  "engine_run evs a = fold (\<lambda>(env, ev). engine_step env ev) evs a"

lemma secure_run:
  "secure sha a \<Longrightarrow> \<forall>(env, ev)\<in>set evs. en_sha256 env = sha \<Longrightarrow> secure sha (engine_run evs a)"
  by (induction evs arbitrary: a) (auto simp: engine_run_def secure_step)

end
