(* ===== verification/Engine_Examples.thy ===== *)
theory Engine_Examples
  imports Engine_Properties
begin

text \<open>
  An engine with one paired device and the parameters of a simple environment, on which the assumptions of the
  engine's properties are checked. The hash of the example keeps its argument, so the paired device of
  \<open>example_device\<close> carries the identifier of its key.
\<close>

definition example_env :: Env where
  "example_env =
     \<lparr>en_now = from_secs 100, en_unix = 1000, en_loopback = True, en_app_audio = None,
      en_virtual_mic = (\<lambda>_. Some DefaultOutput), en_virtual_mic_in_use = False, en_microphone_permitted = True,
      en_can_mute_speakers = True, en_monitor_error = None, en_loss_pct = (\<lambda>_. FNum 0), en_platform = ''linux'',
      en_include_loopback = False, en_own_addresses = [], en_local_addresses = [], en_sha256 = id,
      en_hmac = (\<lambda>k m. k), en_crypto = example_crypto, en_serde = example_serde, en_io = example_io,
      en_token = replicate 32 7, en_gen_range = (\<lambda>lo hi. lo), en_show_addr = (\<lambda>_. [97]),
      en_parse_addr = (\<lambda>_. None), en_security_text = (\<lambda>_. '''')\<rparr>"

definition example_trust :: TrustStore where
  "example_trust = example_store\<lparr>ts_devices := [(device_id_to_hex (replicate 16 1), example_device)]\<rparr>"

definition example_actor :: Actor where
  "example_actor =
     \<lparr>ac_device_id = replicate 16 2, ac_fingerprint = replicate 32 2,
      ac_trust = example_trust, ac_files = Map.empty,
      ac_settings = settings_default, ac_sessions = [], ac_conn_index = [], ac_pairings = [], ac_unpaired = [],
      ac_dials = [], ac_dial_targets = [], ac_pair_dials = [], ac_next_conn_id = 1, ac_discovered = [],
      ac_routes = [], ac_requests = [], ac_next_request_id = 1, ac_qr = None, ac_limiter = [],
      ac_refused_audited = [], ac_resume = resume_empty, ac_flaps = [], ac_stabilized = [],
      ac_prefer_lossless = False, ac_foreground = True, ac_encoders = [], ac_next_start_id = 1,
      ac_peer_speakers_muted = [], ac_speakers_muted_by = [], ac_monitor = False,
      ac_keep_alive = keep_alive_default,
      ac_local_audio = \<lparr>la_last_poll = None, la_handled_use = False, la_auto_route = None, la_idle_since = None,
        la_reopened = [], la_audio_idle = \<lparr>ia_since = None, ia_closed = False\<rparr>\<rparr>,
      ac_trust_flushed_at = 0, ac_out = []\<rparr>"

definition example_hello :: Hello where
  "example_hello =
     \<lparr>protocol_min = 1, protocol_max = 1, app_version = [], hello_device_id = replicate 16 1, device_name = [80],
      hello_platform = 2, capabilities = 0, resume_token = None, hello_endpoints = []\<rparr>"

text \<open>A connection that authenticated with the key made of \<open>b\<close>, accepted here.\<close>

definition example_est :: "u8 \<Rightarrow> nat \<Rightarrow> Established" where
  "example_est b conn =
     \<lparr>es_conn_id = conn, es_public_key = replicate 32 b, es_remote = SocketV4 1 2, es_exporter = Some [1],
      es_hello = example_hello, es_dialed = False\<rparr>"

definition example_request :: "u32 \<Rightarrow> string \<Rightarrow> string \<Rightarrow> bool \<Rightarrow> RouteRequest" where
  "example_request route source sink from_peer =
     \<lparr>rq_route = route, rq_source_endpoint = ascii source, rq_sink_endpoint = ascii sink,
      rq_requester_is_source = from_peer, rq_profile = None, rq_replace = False\<rparr>"


lemma example_env_fields [simp]:
  "en_now example_env = (from_secs 100)"
  "en_unix example_env = 1000"
  "en_loopback example_env = True"
  "en_app_audio example_env = None"
  "en_virtual_mic example_env = (\<lambda>_. Some DefaultOutput)"
  "en_virtual_mic_in_use example_env = False"
  "en_microphone_permitted example_env = True"
  "en_can_mute_speakers example_env = True"
  "en_monitor_error example_env = None"
  "en_loss_pct example_env = (\<lambda>_. FNum 0)"
  "en_platform example_env = ''linux''"
  "en_include_loopback example_env = False"
  "en_own_addresses example_env = []"
  "en_local_addresses example_env = []"
  "en_sha256 example_env = id"
  "en_hmac example_env = (\<lambda>k m. k)"
  "en_crypto example_env = example_crypto"
  "en_serde example_env = example_serde"
  "en_io example_env = example_io"
  "en_token example_env = (replicate 32 7)"
  "en_gen_range example_env = (\<lambda>lo hi. lo)"
  "en_show_addr example_env = (\<lambda>_. [97])"
  "en_parse_addr example_env = (\<lambda>_. None)"
  "en_security_text example_env = (\<lambda>_. '''')"
  by (simp_all add: example_env_def)

lemma example_actor_fields [simp]:
  "ac_device_id example_actor = (replicate 16 2)"
  "ac_fingerprint example_actor = (replicate 32 2)"
  "ac_trust example_actor = example_trust"
  "ac_files example_actor = Map.empty"
  "ac_settings example_actor = settings_default"
  "ac_sessions example_actor = []"
  "ac_conn_index example_actor = []"
  "ac_pairings example_actor = []"
  "ac_unpaired example_actor = []"
  "ac_dials example_actor = []"
  "ac_dial_targets example_actor = []"
  "ac_pair_dials example_actor = []"
  "ac_next_conn_id example_actor = 1"
  "ac_discovered example_actor = []"
  "ac_routes example_actor = []"
  "ac_requests example_actor = []"
  "ac_next_request_id example_actor = 1"
  "ac_qr example_actor = None"
  "ac_limiter example_actor = []"
  "ac_refused_audited example_actor = []"
  "ac_resume example_actor = resume_empty"
  "ac_flaps example_actor = []"
  "ac_stabilized example_actor = []"
  "ac_prefer_lossless example_actor = False"
  "ac_foreground example_actor = True"
  "ac_encoders example_actor = []"
  "ac_next_start_id example_actor = 1"
  "ac_peer_speakers_muted example_actor = []"
  "ac_speakers_muted_by example_actor = []"
  "ac_monitor example_actor = False"
  "ac_keep_alive example_actor = keep_alive_default"
  "ac_local_audio example_actor = (\<lparr>la_last_poll = None, la_handled_use = False, la_auto_route = None, la_idle_since = None, la_reopened = [], la_audio_idle = \<lparr>ia_since = None, ia_closed = False\<rparr>\<rparr>)"
  "ac_trust_flushed_at example_actor = 0"
  "ac_out example_actor = []"
  by (simp_all add: example_actor_def)

lemma example_hello_fields [simp]:
  "protocol_min example_hello = 1"
  "protocol_max example_hello = 1"
  "app_version example_hello = []"
  "hello_device_id example_hello = (replicate 16 1)"
  "device_name example_hello = [80]"
  "hello_platform example_hello = 2"
  "capabilities example_hello = 0"
  "resume_token example_hello = None"
  "hello_endpoints example_hello = []"
  by (simp_all add: example_hello_def)

lemma example_est_fields [simp]:
  "es_conn_id (example_est b conn) = conn" "es_public_key (example_est b conn) = replicate 32 b"
  "es_remote (example_est b conn) = SocketV4 1 2" "es_exporter (example_est b conn) = Some [1]"
  "es_hello (example_est b conn) = example_hello" "es_dialed (example_est b conn) = False"
  by (simp_all add: example_est_def)


lemma example_did [simp]: "est_device example_env (example_est b conn) = replicate 16 b"
  by (simp add: est_device_def est_fingerprint_def of_public_key_def fp_device_id_def)

lemma example_device_fields [simp]:
  "td_public_key example_device = replicate 32 1" "td_blocked example_device = False"
  "td_permissions example_device = permissions_default" "td_device_id example_device = replicate 16 1"
  by (simp_all add: example_device_def)

lemma example_trust_get [simp]:
  "trust_get example_trust did = (if did = replicate 16 1 then Some example_device else None)"
  by (auto simp: trust_get_def example_trust_def device_id_to_hex_def)

lemma example_trust_wf [simp]: "store_wf example_trust"
  by (simp add: store_wf_def example_trust_def)

lemma replicate_eq [simp]: "replicate 16 b = replicate 16 c \<longleftrightarrow> b = (c :: u8)"
  by simp

text \<open>A session with the paired device on connection 5.\<close>

definition example_session :: PeerSession where
  "example_session =
     \<lparr>ps_conn_id = 5, ps_public_key = replicate 32 1, ps_hello = example_hello, ps_dialed = False, ps_next_route = 1,
      ps_connected_at = 0\<rparr>"

definition example_connected :: Actor where
  "example_connected = example_actor\<lparr>ac_sessions := [(replicate 16 1, example_session)],
     ac_conn_index := [(5, replicate 16 1)]\<rparr>"


lemma example_request_fields [simp]:
  "rq_route (example_request route source sink from_peer) = route"
  "rq_profile (example_request route source sink from_peer) = None"
  "rq_replace (example_request route source sink from_peer) = False"
  by (simp_all add: example_request_def)

lemma text_of_ascii [simp]: "text_of (ascii s) = s"
proof -
  have "char_of (unat (of_char c :: u8)) = c" for c :: char
  proof -
    have "(of_char c :: u8) = word_of_nat (of_char c)" by (simp only: of_nat_of_char)
    then have "unat (of_char c :: u8) = of_char c mod 256" by (simp add: unsigned_of_nat take_bit_eq_mod)
    then show ?thesis by (simp only: char_of_mod_256 char_of_char)
  qed
  then show ?thesis by (simp add: text_of_def ascii_def comp_def)
qed

lemma example_request_kind [simp]:
  "request_kind (example_request route source sink from_peer) = from_endpoints source sink (\<not> from_peer)"
  by (simp add: request_kind_def example_request_def)

lemma on_route_request_kind:
  "on_route_request env peer req a =
     (case request_kind req of
        None \<Rightarrow> reject peer (rq_route req) UnsupportedEndpoint a
      | Some kind \<Rightarrow>
      (case check_local_capability env kind a of
        Inl e \<Rightarrow> refuse_capability peer req kind e a
      | Inr _ \<Rightarrow>
          (let feed = other_feed kind peer a
           in if feed \<noteq> None \<and> \<not> rq_replace req then reject peer (rq_route req) VirtualMicBusy a
              else decide_request env peer req kind (stop_feed feed a))))"
  by (simp add: on_route_request_def request_kind_def)

section \<open>Steps of the example\<close>

lemma example_session_opens:
  "map fst (ac_sessions (engine_step example_env (EvEstablished (example_est 1 5)) example_actor)) = [replicate 16 1]"
proof -
  have "engine_step example_env (EvEstablished (example_est 1 5)) example_actor
      = promote_session example_env (replicate 16 1) (example_est 1 5) (example_actor\<lparr>ac_pair_dials := []\<rparr>)"
    by (simp add: on_established_def Let_def trusted_def redeem_token_def) (simp add: example_actor_def)
  then show ?thesis
    by (simp add: promote_session_def open_session_def cancel_dial_def Let_def case_prod_beta issue_ticket_def
        capability_has_def FEATURE_SESSION_RESUME_def resume_routes_def resume_kinds_def settings_default_def)
qed

text \<open>The peer asks to hear this device and is let.\<close>

abbreviation example_ask :: Event where
  "example_ask \<equiv> EvControl 5 (control_new 1 (BRouteRequest (example_request 1 ''system'' ''speaker'' False)))"

lemma example_connected_fields [simp]:
  "ac_trust example_connected = example_trust" "ac_settings example_connected = settings_default"
  "ac_sessions example_connected = [(replicate 16 1, example_session)]"
  "ac_conn_index example_connected = [(5, replicate 16 1)]"
  "ac_pairings example_connected = []" "ac_unpaired example_connected = []" "ac_routes example_connected = []"
  "ac_encoders example_connected = []" "ac_requests example_connected = []" "ac_out example_connected = []"
  "ac_next_start_id example_connected = 1"
  by (simp_all add: example_connected_def)

lemma example_capable: "check_local_capability example_env SendSystemAudio example_connected = Inr ()"
  by (simp add: check_local_capability_def Let_def local_is_source_def local_capabilities_def receivers_of_def
      settings_default_def DEFAULT_MAX_RECEIVERS_def)

lemma example_allowed: "policy_for example_connected (replicate 16 1) (route_permission SendSystemAudio) = Allow"
  by (simp add: policy_for_def trusted_def route_permission_def local_is_source_def is_mic_def
      policy_of_def permissions_default_def)

lemma example_route_opened:
  "\<exists>b r. engine_step example_env example_ask example_connected = b \<and> ac_routes b = [r] \<and>
     route_owner r = (replicate 16 1, SendSystemAudio, False) \<and> route_key r = (replicate 16 1, 1) \<and>
     ac_sessions b = [(replicate 16 1, example_session)]"
proof -
  have step: "engine_step example_env example_ask example_connected
      = accept_route example_env (replicate 16 1) (example_request 1 ''system'' ''speaker'' False) SendSystemAudio
          example_connected"
    by (simp add: on_control_def peer_message_def on_route_request_kind from_endpoints_def example_capable
        other_feed_def stop_feed_def decide_request_def example_allowed)
  show ?thesis
    unfolding step
    by (simp add: accept_route_def Let_def begin_pipelines_def local_is_source_def accepted_route_def new_route_def
        begin_sender_def capture_source_def source_of_def settings_default_def capture_default_def
        join_group_def finish_begin_def take_start_id_def emit_def route_owner_def route_key_def)
qed

lemma example_route_accepted:
  "route_owners (engine_step example_env example_ask example_connected)
     = {(replicate 16 1, SendSystemAudio, False)}"
  using example_route_opened by (auto simp: route_owners_def simp del: engine_step.simps)

text \<open>A pairing with another device, which accepted it already.\<close>

definition example_pairing :: PendingPairing where
  "example_pairing =
     \<lparr>pp_est = example_est 3 6, pp_code = [], pp_local_confirmed = False, pp_peer_confirmed = True,
      pp_qr_scanner = False, pp_created = 0\<rparr>"

lemma example_pairing_completes:
  "trust_view (engine_step example_env (CmdConfirmPairing (replicate 16 3) True)
     (example_actor\<lparr>ac_pairings := [(replicate 16 3, example_pairing)]\<rparr>)) (replicate 16 3)
   = Some (replicate 32 3, False, permissions_default)"
  by (simp add: confirm_pairing_def example_pairing_def Let_def complete_trusts set_pairing_def emit_def)

end
