(* ===== verification/Engine_Guarantees.thy ===== *)
theory Engine_Guarantees
  imports Engine_Examples
begin

text \<open>
  What one step of the engine may give away: routes to a peer, trust to a new device, and the two confirmations
  of a pairing, each only on the events that carry a reason for it.
\<close>

section \<open>What a step leaves alone\<close>

text \<open>
  Between \<open>a\<close> and \<open>b\<close>, peers gained routes only as \<open>G\<close> lists them, devices became trusted only out of \<open>D\<close>,
  and pairings got the confirmation of this device's user only in \<open>L\<close> and the peer's only in \<open>P\<close>.
\<close>

definition meek ::
  "(DeviceId \<times> RouteKind) set \<Rightarrow> DeviceId set \<Rightarrow> DeviceId set \<Rightarrow> DeviceId set \<Rightarrow> Actor \<Rightarrow> Actor \<Rightarrow> bool" where
  "meek G D L P a b \<longleftrightarrow> store_wf (ac_trust b) \<and>
     (\<forall>p k. (p, k, False) \<in> route_owners b \<longrightarrow> (p, k, False) \<in> route_owners a \<or> (p, k) \<in> G) \<and>
     (\<forall>did. trusted a did = None \<longrightarrow> trusted b did = None \<or> did \<in> D) \<and>
     (\<forall>did p. (did, p) \<in> set (ac_pairings b) \<longrightarrow>
        (pp_local_confirmed p \<longrightarrow> did \<in> L \<or> (\<exists>q. (did, q) \<in> set (ac_pairings a) \<and> pp_local_confirmed q)) \<and>
        (pp_peer_confirmed p \<longrightarrow> did \<in> P \<or> (\<exists>q. (did, q) \<in> set (ac_pairings a) \<and> pp_peer_confirmed q)))"

named_theorems meek_intro

lemma meek_start: "store_wf (ac_trust a) \<Longrightarrow> meek G D L P a a"
  by (auto simp: meek_def)

lemma meek_wf: "meek G D L P a b \<Longrightarrow> store_wf (ac_trust b)"
  by (simp add: meek_def)

lemma meek_trusted:
  assumes "meek G D L P a b" "trusted a did = None" shows "trusted b did = None \<or> did \<in> D"
proof -
  have "\<forall>e. trusted a e = None \<longrightarrow> trusted b e = None \<or> e \<in> D"
    using assms(1) unfolding meek_def by (elim conjE)
  then show ?thesis using assms(2) by (elim allE [of _ did]) simp
qed

lemma trusted_None: "trusted a did = None \<longleftrightarrow> trust_view a did = None"
  by (simp add: trust_view_def)

lemma meek_calm:
  assumes ab: "meek G D L P a b" and bc: "calm UNIV G b c"
  shows "meek G D L P a c"
proof -
  have view: "trust_view c = trust_view b" "store_wf (ac_trust c)"
    using bc meek_wf [OF ab] by (simp_all add: calm_def trust_kept_def)
  have routes: "(p, k, False) \<in> route_owners b \<or> (p, k) \<in> G" if "(p, k, False) \<in> route_owners c" for p k
    using bc that by (auto simp: calm_def allowed_def)
  have pairs: "set (ac_pairings c) \<subseteq> set (ac_pairings b)" using bc by (simp add: calm_def)
  have G: "\<forall>p k. (p, k, False) \<in> route_owners c \<longrightarrow> (p, k, False) \<in> route_owners a \<or> (p, k) \<in> G"
    using ab routes unfolding meek_def by blast
  have D: "\<forall>did. trusted a did = None \<longrightarrow> trusted c did = None \<or> did \<in> D"
    using ab view(1) unfolding meek_def by (simp add: trusted_None)
  show ?thesis using ab view(2) pairs G D unfolding meek_def by blast
qed

lemma meek_emit [meek_intro]: "meek G D L P a b \<Longrightarrow> meek G D L P a (emit e b)"
  by (erule meek_calm) (simp add: calm_intro)

lemma meek_close [meek_intro]: "meek G D L P a b \<Longrightarrow> meek G D L P a (close_est est reason b)"
  by (simp add: close_est_def meek_emit)

lemma meek_promote [meek_intro]: "meek G D L P a b \<Longrightarrow> meek G D L P a (promote_session env did est b)"
  by (erule meek_calm) (rule calm_promote, simp_all)

text \<open>Changes of one part.\<close>

lemma meek_pairings:
  assumes ab: "meek G D L P a b"
    and ps: "\<And>did p. (did, p) \<in> set ps \<Longrightarrow> (did, p) \<in> set (ac_pairings b) \<or>
       ((pp_local_confirmed p \<longrightarrow> did \<in> L \<or> (\<exists>q. (did, q) \<in> set (ac_pairings b) \<and> pp_local_confirmed q)) \<and>
        (pp_peer_confirmed p \<longrightarrow> did \<in> P \<or> (\<exists>q. (did, q) \<in> set (ac_pairings b) \<and> pp_peer_confirmed q)))"
  shows "meek G D L P a (b\<lparr>ac_pairings := ps\<rparr>)"
proof -
  have same: "route_owners (b\<lparr>ac_pairings := ps\<rparr>) = route_owners b" "trust_view (b\<lparr>ac_pairings := ps\<rparr>) = trust_view b"
    by (rule view_cong, simp)+
  have "(pp_local_confirmed p \<longrightarrow> did \<in> L \<or> (\<exists>q. (did, q) \<in> set (ac_pairings a) \<and> pp_local_confirmed q)) \<and>
        (pp_peer_confirmed p \<longrightarrow> did \<in> P \<or> (\<exists>q. (did, q) \<in> set (ac_pairings a) \<and> pp_peer_confirmed q))"
    if "(did, p) \<in> set ps" for did p
    using ps [OF that] ab unfolding meek_def by blast
  then show ?thesis using ab same unfolding meek_def by (simp add: trusted_None)
qed

lemma meek_delete [meek_intro]:
  "meek G D L P a b \<Longrightarrow> meek G D L P a (b\<lparr>ac_pairings := AList.delete did (ac_pairings b)\<rparr>)"
  by (erule meek_pairings) (auto simp: AList.delete_eq)

lemma meek_update:
  assumes "meek G D L P a b"
    and "(pp_local_confirmed p \<longrightarrow> did \<in> L \<or> (\<exists>q. (did, q) \<in> set (ac_pairings b) \<and> pp_local_confirmed q))"
    and "(pp_peer_confirmed p \<longrightarrow> did \<in> P \<or> (\<exists>q. (did, q) \<in> set (ac_pairings b) \<and> pp_peer_confirmed q))"
  shows "meek G D L P a (b\<lparr>ac_pairings := AList.update did p (ac_pairings b)\<rparr>)"
  by (rule meek_pairings [OF assms(1)]) (use assms(2,3) set_alist_update [of did p "ac_pairings b"] in auto)

lemma meek_trust:
  assumes ab: "meek G D L P a b" and "store_wf (ac_trust c)"
    and "ac_routes c = ac_routes b" "ac_pairings c = ac_pairings b"
    and new: "\<And>e. trusted b e = None \<Longrightarrow> trusted c e = None \<or> e \<in> D"
  shows "meek G D L P a c"
proof -
  have "route_owners c = route_owners b" using view_cong(3) [of c b] assms(3) by simp
  moreover have "\<forall>did. trusted a did = None \<longrightarrow> trusted c did = None \<or> did \<in> D"
    using ab new unfolding meek_def by blast
  ultimately show ?thesis using ab assms(2,4) unfolding meek_def by simp
qed

lemma meek_update_trust [meek_intro]: "meek G D L P a b \<Longrightarrow> meek G D L P a (update_trust env did f b)"
  by (rule meek_trust) (auto simp: trusted_update [OF meek_wf])

lemma meek_weaken: "meek G D L P a b \<Longrightarrow> meek G D UNIV UNIV a b"
  unfolding meek_def by simp

lemma meek_fewer:
  "meek G D UNIV UNIV a c \<Longrightarrow> set (ac_pairings c) \<subseteq> set (ac_pairings b) \<Longrightarrow> meek G D L P a b \<Longrightarrow> meek G D L P a c"
  unfolding meek_def by blast

section \<open>Pairing steps\<close>

lemma meek_begin_pairing [meek_intro]:
  assumes b: "meek G D L P a b" shows "meek G D L P a (begin_pairing env did est scanner b)"
proof -
  let ?b1 = "case map_of (ac_pairings b) did of Some old \<Rightarrow> close_est (pp_est old) Superseded b | None \<Rightarrow> b"
  have b1: "meek G D L P a ?b1" using b by (simp add: meek_intro split: option.split)
  show ?thesis
    using meek_update [OF b1] b
    by (simp add: begin_pairing_def Let_def meek_intro split: option.split)
qed

lemma meek_complete:
  assumes b: "meek G D L P a b" and "did \<in> D" shows "meek G D L P a (complete_pairing env did b)"
proof (cases "map_of (ac_pairings b) did")
  case (Some p)
  let ?b1 = "b\<lparr>ac_pairings := AList.delete did (ac_pairings b)\<rparr>"
  have b1: "meek G D L P a ?b1" using b by (rule meek_delete)
  obtain r st files where up: "trust_upsert (en_crypto env) (en_serde env) (en_io env)
      (paired_device env did (pp_est p)) (ac_trust b) (ac_files b) = (r, st, files)"
    by (cases "trust_upsert (en_crypto env) (en_serde env) (en_io env)
      (paired_device env did (pp_est p)) (ac_trust b) (ac_files b)")
  have dev: "ts_devices st = bm_insert (device_id_to_hex did) (paired_device env did (pp_est p)) (ts_devices (ac_trust b))"
    using upsert_devices [OF up] by (simp add: paired_device_def)
  have wf: "store_wf st" using meek_wf [OF b] by (simp add: store_wf_def dev bm_insert_wf)
  have "meek G D L P a (set_trust (st, files) ?b1)"
    by (rule meek_trust [OF b1])
      (use wf trust_get_insert [OF meek_wf [OF b] dev] assms(2) in \<open>auto simp: set_trust_def trusted_def\<close>)
  then show ?thesis
    by (simp add: complete_pairing_def Some Let_def up meek_intro split: sum.split)
qed (simp add: complete_pairing_def b)

lemma complete_pairings:
  "set (ac_pairings (complete_pairing env did b)) \<subseteq> {e \<in> set (ac_pairings b). fst e \<noteq> did}"
proof (cases "map_of (ac_pairings b) did")
  case None
  then have "complete_pairing env did b = b" by (simp add: complete_pairing_def)
  then show ?thesis using None by (force simp: map_of_eq_None_iff)
next
  case (Some p)
  have promote: "set (ac_pairings (promote_session env did est c)) \<subseteq> set (ac_pairings c)" for est c
    using calm_promote [of UNIV UNIV c c did est env] by (simp add: calm_def)
  have "set (ac_pairings (complete_pairing env did b)) \<subseteq> set (AList.delete did (ac_pairings b))"
    by (simp add: complete_pairing_def Some case_prod_beta Let_def split: sum.split)
      (auto simp: set_trust_def emit_def dest!: subsetD [OF promote])
  then show ?thesis by (auto simp: AList.delete_eq)
qed

section \<open>The reasons an event carries\<close>

text \<open>Routes a peer may get out of an event: what its own request is granted, and what the user approves.\<close>

fun route_grants :: "Env \<Rightarrow> Event \<Rightarrow> Actor \<Rightarrow> (DeviceId \<times> RouteKind) set" where
  "route_grants env (EvControl conn_id msg) a =
     {(p, k). map_of (ac_conn_index a) conn_id = Some p \<and> (p, k) \<in> granted env a \<and>
        (\<exists>req. body msg = Some (BRouteRequest req) \<and> request_kind req = Some k)}"
| "route_grants env (CmdRespond n accept remember) a =
     {(p, k). accept \<and> (\<exists>q. map_of (ac_requests a) n = Some q \<and> pr_peer q = p \<and> pr_kind q = k)}"
| "route_grants env _ a = {}"

text \<open>The proof that the sender of a pairing request read the code on this device's screen, while it is valid.\<close>

definition qr_proven :: "Env \<Rightarrow> Established \<Rightarrow> Body \<Rightarrow> Actor \<Rightarrow> bool" where
  "qr_proven env est b a \<longleftrightarrow>
     (\<exists>req prf qr. b = BPairRequest req \<and> qr_proof req = Some prf \<and> ac_qr a = Some qr \<and>
        \<not> qr_is_expired qr (en_unix env) \<and>
        verify_pairing_proof (en_hmac env) (qr_secret qr) (est_fingerprint env est) (ac_device_id a) prf = Inr ())"

definition peer_accepts :: "Event \<Rightarrow> DeviceId \<Rightarrow> PendingPairing \<Rightarrow> Actor \<Rightarrow> bool" where
  "peer_accepts ev did p a \<longleftrightarrow>
     (\<exists>conn msg result. ev = EvControl conn msg \<and> (did, p) \<in> set (ac_pairings a) \<and>
        es_conn_id (pp_est p) = conn \<and> body msg = Some (BPairResult result) \<and> pair_accepted result)"

text \<open>A device may become trusted when its pairing is confirmed on both sides, when it accepts a pairing this
  device began by scanning its code, or when it proves that it scanned this device's code.\<close>

definition consents :: "Env \<Rightarrow> Event \<Rightarrow> Actor \<Rightarrow> DeviceId set" where
  "consents env ev a = {did.
     (\<exists>p. ev = CmdConfirmPairing did True \<and> map_of (ac_pairings a) did = Some p \<and> pp_peer_confirmed p) \<or>
     (\<exists>p. peer_accepts ev did p a \<and> (pp_qr_scanner p \<or> pp_local_confirmed p)) \<or>
     (\<exists>conn msg est t b. ev = EvControl conn msg \<and> map_of (ac_unpaired a) conn = Some (est, t) \<and>
        body msg = Some b \<and> did = est_device env est \<and> qr_proven env est b a)}"

definition step_meek :: "Env \<Rightarrow> Event \<Rightarrow> Actor \<Rightarrow> Actor \<Rightarrow> bool" where
  "step_meek env ev a b \<longleftrightarrow>
     meek (route_grants env ev a) (consents env ev a) {did. ev = CmdConfirmPairing did True}
       {did. \<exists>p. peer_accepts ev did p a} a b"

section \<open>Every step is meek\<close>

lemma meek_fields [meek_intro]:
  "meek G D L P a b \<Longrightarrow> meek G D L P a (b\<lparr>ac_unpaired := u\<rparr>)"
  "meek G D L P a b \<Longrightarrow> meek G D L P a (b\<lparr>ac_qr := q\<rparr>)"
  "meek G D L P a b \<Longrightarrow> meek G D L P a (b\<lparr>ac_settings := st\<rparr>)"
  "meek G D L P a b \<Longrightarrow> meek G D L P a (b\<lparr>ac_requests := rq\<rparr>)"
  by (erule meek_calm, simp add: calm_intro)+

lemma meek_confirm:
  assumes wf: "store_wf (ac_trust a)" and L: "accept \<Longrightarrow> did \<in> L"
    and D: "\<And>p. accept \<Longrightarrow> map_of (ac_pairings a) did = Some p \<Longrightarrow> pp_peer_confirmed p \<Longrightarrow> did \<in> D"
  shows "meek G D L P a (confirm_pairing env did accept a)"
proof (cases "map_of (ac_pairings a) did")
  case None
  then show ?thesis using wf by (simp add: confirm_pairing_def meek_start)
next
  case (Some p)
  have "meek G D L P a (set_pairing did (p\<lparr>pp_local_confirmed := accept\<rparr>) a)"
    unfolding set_pairing_def by (rule meek_update [OF meek_start [OF wf]]) (use L map_of_SomeD [OF Some] in auto)
  then show ?thesis
    using D [OF _ Some] by (cases accept) (simp_all add: confirm_pairing_def Some Let_def meek_intro meek_complete)
qed

lemma meek_pair_result:
  assumes wf: "store_wf (ac_trust a)" and mem: "(did, p) \<in> set (ac_pairings a)"
    and conn: "es_conn_id (pp_est p) = conn" and msg: "body msg = Some (BPairResult result)"
  shows "step_meek env (EvControl conn msg) a (on_pair_result env did p result a)"
proof -
  let ?ev = "EvControl conn msg"
  let ?m = "meek (route_grants env ?ev a) (consents env ?ev a) {e. ?ev = CmdConfirmPairing e True}
       {e. \<exists>p. peer_accepts ?ev e p a} a"
  have a: "?m a" using wf by (rule meek_start)
  have acc: "peer_accepts ?ev did p a" if "pair_accepted result"
    using that mem conn msg by (simp add: peer_accepts_def)
  have m: "?m (a\<lparr>ac_pairings := AList.update did (p\<lparr>pp_peer_confirmed := True\<rparr>) (ac_pairings a)\<rparr>)"
    if "pair_accepted result"
    by (rule meek_update [OF a]) (use acc [OF that] mem in auto)
  have go: "did \<in> consents env ?ev a" if "pair_accepted result" "pp_qr_scanner p \<or> pp_local_confirmed p"
    using acc that by (auto simp: consents_def)
  show ?thesis
    using a m go
    by (simp add: step_meek_def on_pair_result_def set_pairing_def Let_def meek_intro meek_complete)
qed

lemma qr_confirm:
  "meek G D UNIV UNIV a b \<Longrightarrow> meek G D UNIV UNIV a (case map_of (ac_pairings b) did of
     Some p \<Rightarrow> set_pairing did (p\<lparr>pp_local_confirmed := True, pp_peer_confirmed := True\<rparr>) b | None \<Rightarrow> b)"
  "set (ac_pairings (case map_of (ac_pairings b) did of
     Some p \<Rightarrow> set_pairing did (p\<lparr>pp_local_confirmed := True, pp_peer_confirmed := True\<rparr>) b | None \<Rightarrow> b))
   \<subseteq> set (ac_pairings b) \<union> {e. fst e = did}"
  by (cases "map_of (ac_pairings b) did"; simp add: set_pairing_def meek_update)
    (cases "map_of (ac_pairings b) did"; use set_alist_update [of did _ "ac_pairings b"] in
      \<open>fastforce simp: set_pairing_def\<close>)

lemma find_mem: "find P xs = Some x \<Longrightarrow> x \<in> set xs \<and> P x"
  by (induction xs) (auto split: if_splits)

lemma meek_pair_request:
  assumes wf: "store_wf (ac_trust a)" and est: "map_of (ac_unpaired a) conn = Some (est, t)"
    and msg: "body msg = Some (BPairRequest req)"
  shows "step_meek env (EvControl conn msg) a
           (on_pair_request env est req (a\<lparr>ac_unpaired := AList.delete conn (ac_unpaired a)\<rparr>))"
proof -
  let ?ev = "EvControl conn msg" and ?did = "est_device env est"
  let ?m = "meek (route_grants env ?ev a) (consents env ?ev a) {e. ?ev = CmdConfirmPairing e True}
       {e. \<exists>p. peer_accepts ?ev e p a} a"
  let ?a1 = "emit (Audit PairingAttempt ?did None '''') (a\<lparr>ac_unpaired := AList.delete conn (ac_unpaired a)\<rparr>)"
  have a1: "?m ?a1" using wf by (intro meek_intro meek_start)
  have plain: "?m (begin_pairing env ?did est False ?a1)" using a1 by (rule meek_begin_pairing)
  have refused: "?m (refuse_pairing env est detail ?a1)" for detail
    using a1 by (simp add: refuse_pairing_def meek_intro)
  have proven: "?m (accept_qr_proof env est ?a1)" if "?did \<in> consents env ?ev a"
  proof -
    let ?b = "begin_pairing env ?did est False (emit UpdateDiscovery (?a1\<lparr>ac_qr := None\<rparr>))"
    have b: "?m ?b" by (rule meek_begin_pairing, rule meek_emit, rule meek_fields, rule a1)
    let ?c = "case map_of (ac_pairings ?b) ?did of
        Some p \<Rightarrow> set_pairing ?did (p\<lparr>pp_local_confirmed := True, pp_peer_confirmed := True\<rparr>) ?b | None \<Rightarrow> ?b"
    have pairs: "set (ac_pairings ?c) \<subseteq> set (ac_pairings ?b) \<union> {e. fst e = ?did}"
      by (rule qr_confirm(2))
    have "meek (route_grants env ?ev a) (consents env ?ev a) UNIV UNIV a ?c"
      using meek_weaken [OF b] by (rule qr_confirm(1))
    then have "meek (route_grants env ?ev a) (consents env ?ev a) UNIV UNIV a (accept_qr_proof env est ?a1)"
      unfolding accept_qr_proof_def Let_def by (intro meek_complete meek_emit that)
    moreover have "set (ac_pairings (accept_qr_proof env est ?a1)) \<subseteq> set (ac_pairings ?b)"
      unfolding accept_qr_proof_def Let_def
      by (rule order_trans [OF complete_pairings]) (use pairs in \<open>auto simp: emit_def\<close>)
    ultimately show ?thesis using b by (rule meek_fewer)
  qed
  have ok: "?did \<in> consents env ?ev a" if "qr_proof req = Some mac" "ac_qr a = Some qr"
      "\<not> qr_is_expired qr (en_unix env)"
      "verify_pairing_proof (en_hmac env) (qr_secret qr) (est_fingerprint env est) (ac_device_id a) mac = Inr x" for mac qr x
    using that est msg by (auto simp: consents_def qr_proven_def)
  have same: "ac_qr ?a1 = ac_qr a" "ac_device_id ?a1 = ac_device_id a" by (simp_all add: emit_def)
  show ?thesis
    using plain refused proven ok
    by (auto simp: step_meek_def on_pair_request_def Let_def same split: option.split sum.split)
qed

lemma meek_established:
  assumes wf: "store_wf (ac_trust a)" shows "meek G D L P a (on_established env est a)"
proof -
  let ?did = "est_device env est"
  let ?a = "a\<lparr>ac_dial_targets := AList.delete (es_conn_id est) (ac_dial_targets a),
              ac_pair_dials := AList.delete (es_conn_id est) (ac_pair_dials a)\<rparr>"
  have base: "meek G D L P a ?a" by (rule meek_calm [OF meek_start [OF wf]]) (simp add: calm_intro)
  have quiet: "meek G D L P a (audit_refused env ?did detail (close_est est reason ?a))"
    "meek G D L P a (await_pair_request env est ?a)" "meek G D L P a (redeem_token env est ?a)" for detail reason
    by (rule meek_calm [OF base], simp add: calm_intro)+
  then show ?thesis
    using base by (simp add: on_established_def Let_def meek_intro split: option.split)
qed

lemma meek_control:
  assumes wf: "store_wf (ac_trust a)"
  shows "step_meek env (EvControl conn msg) a (on_control env conn msg a)"
proof -
  let ?ev = "EvControl conn msg"
  let ?m = "meek (route_grants env ?ev a) (consents env ?ev a) {e. ?ev = CmdConfirmPairing e True}
       {e. \<exists>p. peer_accepts ?ev e p a} a"
  have a: "?m a" using wf by (rule meek_start)
  have refused: "?m (close_est est PermissionDenied (a\<lparr>ac_unpaired := AList.delete conn (ac_unpaired a)\<rparr>))" for est
    using a by (intro meek_close meek_fields)
  have peer: "?m (peer_message env conn p b a)" if "map_of (ac_conn_index a) conn = Some p" "body msg = Some b" for p b
    by (rule meek_calm [OF a], rule calm_peer_message) (use that in auto)
  have result: "?m (on_pair_result env did p result a)"
    if "find (\<lambda>(_, p). es_conn_id (pp_est p) = conn) (ac_pairings a) = Some (did, p)" "body msg = Some (BPairResult result)"
    for did p result
    using meek_pair_result [OF wf, of did p conn msg result env] find_mem [OF that(1)] that(2)
    by (simp add: step_meek_def)
  show ?thesis
    using a refused peer result meek_pair_request [OF wf, of conn _ _ msg _ env]
    by (auto simp: step_meek_def on_control_def Let_def split: option.split Body.split)
qed

lemma meek_commands:
  assumes wf: "store_wf (ac_trust a)"
  shows "meek G D L P a (forget_device env did a)" "meek G D L P a (set_blocked env did blocked a)"
    "meek G D L P a (set_device_permission env did kind policy a)"
proof -
  have a: "meek G D L P a a" using wf by (rule meek_start)
  have quiet: "meek G D L P a c" if "meek G D L P a b" "calm {} {} b c" for b c
    using that(1) by (rule meek_calm) (rule calm_mono [OF that(2)], simp_all)
  have upd: "meek G D L P a (update_trust env did f a)" for f using a by (rule meek_update_trust)
  show "meek G D L P a (set_blocked env did blocked a)"
    using upd quiet [OF upd calm_revoke [OF calm_refl]] by (simp add: set_blocked_def Let_def meek_emit)
  show "meek G D L P a (set_device_permission env did kind policy a)"
    by (rule quiet [OF upd [where f = "set_permission kind policy"]])
      (simp add: set_device_permission_def Let_def calm_intro)
  show "meek G D L P a (forget_device env did a)"
  proof -
    define a2 where "a2 = (if trusted (revoke env did a) did \<noteq> None
      then emit (Audit DeviceForgotten did None '''') (revoke env did a) else revoke env did a)"
    have a2: "meek G D L P a a2" unfolding a2_def by (rule quiet [OF a]) (simp add: calm_intro)
    obtain r st files where rm: "trust_remove (en_crypto env) (en_serde env) (en_io env) did (ac_trust a2) (ac_files a2)
        = (r, st, files)"
      by (cases "trust_remove (en_crypto env) (en_serde env) (en_io env) did (ac_trust a2) (ac_files a2)")
    have "meek G D L P a (set_trust (st, files) a2)"
      by (rule meek_trust [OF a2])
        (use trust_remove_wf [OF meek_wf [OF a2] rm] remove_devices [OF rm] in \<open>simp_all add: set_trust_def trusted_def\<close>)
    then show ?thesis
      unfolding forget_device_def Let_def a2_def [symmetric] by (simp add: rm meek_intro)
  qed
qed

lemma meek_respond:
  assumes wf: "store_wf (ac_trust a)"
    and G: "\<And>p. accept \<Longrightarrow> map_of (ac_requests a) n = Some p \<Longrightarrow> (pr_peer p, pr_kind p) \<in> G"
  shows "meek G D L P a (respond_request env n accept remember a)"
proof (cases "map_of (ac_requests a) n")
  case None
  then show ?thesis using wf by (simp add: respond_request_def meek_start)
next
  case (Some p)
  let ?a1 = "a\<lparr>ac_requests := AList.delete n (ac_requests a)\<rparr>"
  have a1: "meek G D L P a ?a1" using wf by (intro meek_fields meek_start)
  have upd: "meek G D L P a (update_trust env (pr_peer p) f ?a1)" for f using a1 by (rule meek_update_trust)
  have go: "meek G D L P a (accept_route env (pr_peer p) (pr_request p) (pr_kind p) b)"
    if "accept" "meek G D L P a b" for b
    using that(2) by (rule meek_calm) (rule calm_accept [OF calm_refl G [OF that(1) Some]])
  have no: "meek G D L P a (reject peer route reason b)" if "meek G D L P a b" for peer route reason b
    using that by (rule meek_calm) (simp add: calm_intro)
  show ?thesis
    using go by (cases accept)
      (simp_all add: respond_request_def Some Let_def no audit_permission_def meek_emit a1 upd)
qed

lemma meek_step:
  assumes wf: "store_wf (ac_trust a)" shows "step_meek env ev a (engine_step env ev a)"
proof -
  have calm: "step_meek env ev a b" if "calm {} {} a b" for ev b
    unfolding step_meek_def by (rule meek_calm [OF meek_start [OF wf]]) (rule calm_mono [OF that], simp_all)
  show ?thesis
  proof (cases ev)
    case (CmdPairWithQr uri)
    have "calm {} {} a (snd (pair_with_qr env uri a))"
      by (simp add: pair_with_qr_def Let_def case_prod_beta calm_intro split: sum.split)
    then show ?thesis by (simp add: CmdPairWithQr calm)
  next
    case (CmdPairWithDevice did)
    have "calm {} {} a (snd (pair_with_device env did a))"
      by (simp add: pair_with_device_def Let_def case_prod_beta calm_intro split: option.split)
    then show ?thesis by (simp add: CmdPairWithDevice calm)
  next
    case (EvPairAddress addrs)
    have "calm {} {} a (snd (pair_with_address env addrs a))"
      by (simp add: pair_with_address_def Let_def case_prod_beta calm_intro)
    then show ?thesis by (simp add: EvPairAddress calm)
  next
    case (CmdRouteVolume key volume)
    have "calm {} {} a (set_route_volume key volume a)"
      by (auto simp: set_route_volume_def Let_def route_owner_def intro!: calm_tell calm_change split: option.split)
    then show ?thesis by (simp add: CmdRouteVolume calm)
  next
    case (CmdRouteMuted key muted)
    have "calm {} {} a (set_route_muted key muted a)"
      by (auto simp: set_route_muted_def Let_def route_owner_def intro!: calm_tell calm_change split: option.split)
    then show ?thesis by (simp add: CmdRouteMuted calm)
  next
    case (CmdPeerSpeakersMuted did muted)
    have "calm {} {} a (set_peer_speakers_muted did muted a)"
      by (simp add: set_peer_speakers_muted_def Let_def calm_intro)
    then show ?thesis by (simp add: CmdPeerSpeakersMuted calm)
  next
    case (CmdKeepRunning key keep)
    have "calm {} {} a (set_keep_running key keep a)"
      by (auto simp: set_keep_running_def Let_def route_owner_def intro!: calm_emit calm_fields calm_change
          split: option.split)
    then show ?thesis by (simp add: CmdKeepRunning calm)
  next
    case (CmdConfirmPairing did accept)
    then show ?thesis
      unfolding step_meek_def by (simp) (rule meek_confirm [OF wf], auto simp: consents_def)
  next
    case (CmdRespond n accept remember)
    then show ?thesis
      unfolding step_meek_def by (simp) (rule meek_respond [OF wf], auto)
  next
    case (EvEstablished est)
    then show ?thesis by (simp add: step_meek_def meek_established wf)
  next
    case (CmdForgetDevice did)
    then show ?thesis by (simp add: step_meek_def meek_commands wf)
  next
    case (CmdSetBlocked did blocked)
    then show ?thesis by (simp add: step_meek_def meek_commands wf)
  next
    case (CmdSetPermission did kind policy)
    then show ?thesis by (simp add: step_meek_def meek_commands wf)
  qed (simp_all add: meek_control wf calm calm_intro start_pairing_def stop_pairing_def Let_def)
qed

section \<open>The guarantees\<close>

text \<open>C1: From a start without sessions, routes or pairings, and through any sequence of messages, commands,
  audio results and ticks, the engine has a session only with a paired device that is not blocked, over a
  connection whose key has that device's identifier, and keeps a route only for a paired device that is not
  blocked.\<close>

theorem engine_stays_secure:
  assumes "store_wf (ac_trust a)" "ac_sessions a = []" "ac_routes a = []" "ac_pairings a = []"
    and "\<forall>(env, ev)\<in>set evs. en_sha256 env = sha"
  shows "(map_of (ac_sessions (engine_run evs a)) did = Some s \<longrightarrow>
            (\<exists>d. trusted (engine_run evs a) did = Some d \<and> \<not> td_blocked d) \<and> device_id_of sha (ps_public_key s) = did) \<and>
         (r \<in> set (ac_routes (engine_run evs a)) \<longrightarrow>
            (\<exists>d. trusted (engine_run evs a) (rt_peer r) = Some d \<and> \<not> td_blocked d))"
proof -
  have "secure sha a"
    using assms(1-4) by (simp add: secure_def sess_keys_def route_owners_def)
  then have b: "secure sha (engine_run evs a)" using assms(5) by (rule secure_run)
  have un: "\<exists>d. trusted (engine_run evs a) e = Some d \<and> \<not> td_blocked d" if "unblocked (engine_run evs a) e" for e
    using that by (auto simp: unblocked_def split: option.splits)
  show ?thesis
  proof (intro conjI impI)
    assume "map_of (ac_sessions (engine_run evs a)) did = Some s"
    then have "(did, ps_public_key s) \<in> sess_keys (engine_run evs a)" by (auto simp: sess_keys_def)
    then show "\<exists>d. trusted (engine_run evs a) did = Some d \<and> \<not> td_blocked d" "device_id_of sha (ps_public_key s) = did"
      using secureD(2,3) [OF b] un by blast+
  next
    assume "r \<in> set (ac_routes (engine_run evs a))"
    then have "(rt_peer r, rt_kind r, rt_requested_locally r) \<in> route_owners (engine_run evs a)"
      by (force simp: route_owners_def route_owner_def)
    then show "\<exists>d. trusted (engine_run evs a) (rt_peer r) = Some d \<and> \<not> td_blocked d"
      using secureD(4) [OF b] un by blast
  qed
qed

theorem engine_stays_secure_witness:
  "\<exists>s. map_of (ac_sessions (engine_run [(example_env, EvEstablished (example_est 1 5))] example_actor)) (replicate 16 1)
         = Some s \<and> device_id_of id (ps_public_key s) = replicate 16 1"
proof -
  have run: "engine_run [(example_env, EvEstablished (example_est 1 5))] example_actor
      = engine_step example_env (EvEstablished (example_est 1 5)) example_actor" by (simp add: engine_run_def)
  obtain s where "map_of (ac_sessions (engine_step example_env (EvEstablished (example_est 1 5)) example_actor))
      (replicate 16 1) = Some s"
    using example_session_opens by (cases "ac_sessions (engine_step example_env (EvEstablished (example_est 1 5)) example_actor)") auto
  then show ?thesis
    using engine_stays_secure [of example_actor "[(example_env, EvEstablished (example_est 1 5))]" id "replicate 16 1" s]
    by (auto simp: run)
qed

text \<open>C2: A peer gets a route it did not have (running or paused) in only two ways. Its own connection carried
  a request for that kind of route while the permission for it was Allow; or the user accepted the prompt of
  that peer's request for it.\<close>

theorem peer_routes_granted:
  assumes "store_wf (ac_trust a)"
    and "(p, k, False) \<in> route_owners (engine_step env ev a)" "(p, k, False) \<notin> route_owners a"
  shows "(\<exists>conn msg req. ev = EvControl conn msg \<and> map_of (ac_conn_index a) conn = Some p \<and>
            body msg = Some (BRouteRequest req) \<and> request_kind req = Some k \<and>
            policy_for a p (route_permission k) = Allow) \<or>
         (\<exists>n remember q. ev = CmdRespond n True remember \<and> map_of (ac_requests a) n = Some q \<and>
            pr_peer q = p \<and> pr_kind q = k)"
proof -
  have "(p, k) \<in> route_grants env ev a"
    using meek_step [OF assms(1), of env ev] assms(2,3) by (auto simp: step_meek_def meek_def)
  moreover have "policy_for a p (route_permission k) = Allow" if "(p, k) \<in> granted env a"
    using that assms(3) by (auto simp: granted_def route_owners_def) (metis image_eqI)
  ultimately show ?thesis by (cases ev) auto
qed

theorem peer_routes_granted_witness:
  "(replicate 16 1, SendSystemAudio, False) \<in> route_owners (engine_step example_env example_ask example_connected) \<and>
   policy_for example_connected (replicate 16 1) (route_permission SendSystemAudio) = Allow"
  using peer_routes_granted [of example_connected "replicate 16 1" SendSystemAudio example_env example_ask]
    example_route_accepted by (auto simp: route_owners_def)

text \<open>C3: A device becomes trusted only when this device's user confirms a pairing the peer confirmed before;
  when the peer confirms, over the connection of the pairing, a pairing that this device's user confirmed or
  began by scanning the peer's code; or when an unpaired connection proves that it read the code shown here
  while that code is valid. In a pairing the confirmation of this device's user only comes from the user's own
  answer, and the peer's only from an accepting message on the pairing's connection.\<close>

theorem pairing_needs_consent:
  assumes "store_wf (ac_trust a)"
  shows "(trusted a did = None \<and> trusted (engine_step env ev a) did \<noteq> None \<longrightarrow>
            (\<exists>p. ev = CmdConfirmPairing did True \<and> map_of (ac_pairings a) did = Some p \<and> pp_peer_confirmed p) \<or>
            (\<exists>p. peer_accepts ev did p a \<and> (pp_qr_scanner p \<or> pp_local_confirmed p)) \<or>
            (\<exists>conn msg est t b. ev = EvControl conn msg \<and> map_of (ac_unpaired a) conn = Some (est, t) \<and>
               body msg = Some b \<and> did = est_device env est \<and> qr_proven env est b a)) \<and>
         ((did, p) \<in> set (ac_pairings (engine_step env ev a)) \<and> pp_local_confirmed p \<longrightarrow>
            ev = CmdConfirmPairing did True \<or> (\<exists>q. (did, q) \<in> set (ac_pairings a) \<and> pp_local_confirmed q)) \<and>
         ((did, p) \<in> set (ac_pairings (engine_step env ev a)) \<and> pp_peer_confirmed p \<longrightarrow>
            (\<exists>q. peer_accepts ev did q a) \<or> (\<exists>q. (did, q) \<in> set (ac_pairings a) \<and> pp_peer_confirmed q))"
proof -
  note m = meek_step [OF assms, of env ev, unfolded step_meek_def]
  have "did \<in> consents env ev a" if "trusted a did = None" "trusted (engine_step env ev a) did \<noteq> None"
    using meek_trusted [OF m that(1)] that(2) by simp
  moreover have "ev = CmdConfirmPairing did True \<or> (\<exists>q. (did, q) \<in> set (ac_pairings a) \<and> pp_local_confirmed q)"
    if "(did, p) \<in> set (ac_pairings (engine_step env ev a))" "pp_local_confirmed p"
    using m that unfolding meek_def by blast
  moreover have "(\<exists>q. peer_accepts ev did q a) \<or> (\<exists>q. (did, q) \<in> set (ac_pairings a) \<and> pp_peer_confirmed q)"
    if "(did, p) \<in> set (ac_pairings (engine_step env ev a))" "pp_peer_confirmed p"
    using m that unfolding meek_def by blast
  ultimately show ?thesis unfolding consents_def by blast
qed

theorem pairing_needs_consent_witness:
  "\<exists>p. map_of (ac_pairings (example_actor\<lparr>ac_pairings := [(replicate 16 3, example_pairing)]\<rparr>)) (replicate 16 3) = Some p
     \<and> pp_peer_confirmed p"
proof -
  let ?a = "example_actor\<lparr>ac_pairings := [(replicate 16 3, example_pairing)]\<rparr>"
    and ?ev = "CmdConfirmPairing (replicate 16 3) True"
  have "trusted (engine_step example_env ?ev ?a) (replicate 16 3) \<noteq> None"
    using example_pairing_completes by (auto simp: trust_view_def)
  moreover have "trusted ?a (replicate 16 3) = None" by (simp add: trusted_def)
  ultimately show ?thesis
    using pairing_needs_consent [of ?a "replicate 16 3" example_env ?ev]
    by (auto simp: peer_accepts_def)
qed

section \<open>Denying a permission\<close>

lemma fold_drop_filter:
  assumes "distinct (map route_key rs)"
  shows "fold drop_key (map route_key (filter Q rs)) rs = filter (\<lambda>r. \<not> Q r) rs"
  using assms
proof (induction rs)
  case (Cons r rs)
  have "fold drop_key (map route_key (filter Q rs)) (r # rs) = r # fold drop_key (map route_key (filter Q rs)) rs"
    using Cons.prems by (intro fold_drop_other) auto
  then show ?case using Cons by (simp add: drop_key_Cons)
qed simp

lemma enforce_routes:
  assumes "distinct (map route_key (ac_routes a))" "trusted a did = Some d"
  shows "ac_routes (enforce_permissions did a) =
     filter (\<lambda>r. \<not> (rt_peer r = did \<and> \<not> rt_requested_locally r \<and>
       policy_of (td_permissions d) (route_permission (rt_kind r)) = Deny)) (ac_routes a)"
  using assms by (simp add: enforce_permissions_def fold_stop_routes fold_drop_filter)

text \<open>C5: While no two routes share a key, taking a permission away from a paired device stops exactly the
  routes that device asked for and no longer has the permission for, at once and whether or not the change
  could be written; every route of this device's own and of other devices stays, in order.\<close>

theorem deny_stops_routes:
  assumes "store_wf (ac_trust a)" "trusted a did = Some d" "distinct (map route_key (ac_routes a))"
  shows "ac_routes (engine_step env (CmdSetPermission did kind Deny) a) =
     filter (\<lambda>r. \<not> (rt_peer r = did \<and> \<not> rt_requested_locally r \<and>
       (route_permission (rt_kind r) = kind \<or> policy_of (td_permissions d) (route_permission (rt_kind r)) = Deny)))
       (ac_routes a)"
proof -
  let ?a1 = "update_trust env did (set_permission kind Deny) a"
  let ?a2 = "audit_permission did kind Deny ?a1"
  have t: "trusted ?a2 did = Some (set_permission kind Deny d)"
    using trusted_update [OF assms(1), of env did "set_permission kind Deny" did] assms(2)
    by (simp add: audit_permission_def emit_def trusted_def)
  have r: "ac_routes ?a2 = ac_routes a" by (simp add: audit_permission_def emit_def)
  have "engine_step env (CmdSetPermission did kind Deny) a = enforce_permissions did ?a2"
    using trusted_update [OF assms(1), of env did "set_permission kind Deny" did] assms(2)
    by (simp add: set_device_permission_def Let_def)
  then show ?thesis
    using enforce_routes [OF _ t] assms(3)
    by (simp add: r set_permission_def) (intro filter_cong refl, auto)
qed

theorem deny_stops_routes_witness:
  "\<exists>r. route_owner r = (replicate 16 1, SendSystemAudio, False) \<and>
       ac_routes (engine_step example_env (CmdSetPermission (replicate 16 1) ReceiveMyAudio Deny)
         (example_connected\<lparr>ac_routes := [r]\<rparr>)) = []"
proof -
  let ?r = "new_route (replicate 16 1) 1 SendSystemAudio False (FNum 1)"
  have "trusted (example_connected\<lparr>ac_routes := [?r]\<rparr>) (replicate 16 1) = Some example_device"
    by (simp add: trusted_def)
  from deny_stops_routes [OF _ this, of example_env ReceiveMyAudio] show ?thesis
    by (intro exI [of _ ?r])
      (simp add: route_owner_def new_route_def route_permission_def local_is_source_def is_mic_def)
qed

section \<open>What the checks do not cover\<close>

text \<open>C31: A request for the mixed source is judged by the permission to hear this device alone. The paired
  device of the example must ask for the microphone; its request for the mix of system audio and microphone
  is accepted without a prompt, and a capture that holds the microphone is opened.\<close>

theorem mixed_source_skips_microphone_prompt:
  "policy_for example_connected (replicate 16 1) UseMyMicrophone = Ask \<and>
   (\<exists>a key start. engine_step example_env
        (EvControl 5 (control_new 1 (BRouteRequest (example_request 1 ''mixed'' ''speaker'' False)))) example_connected = a \<and>
      ac_requests a = [] \<and> OpenCapture key start \<in> set (ac_out a) \<and>
      ek_source key = KeyMixed (KeySystem None) (KeyMic None))"
proof -
  let ?ev = "EvControl 5 (control_new 1 (BRouteRequest (example_request 1 ''mixed'' ''speaker'' False)))"
  have capable: "check_local_capability example_env SendMixed example_connected = Inr ()"
    by (simp add: check_local_capability_def Let_def local_is_source_def local_capabilities_def receivers_of_def
      settings_default_def DEFAULT_MAX_RECEIVERS_def)
  have allowed: "policy_for example_connected (replicate 16 1) (route_permission SendMixed) = Allow"
    by (simp add: policy_for_def trusted_def route_permission_def local_is_source_def is_mic_def
      policy_of_def permissions_default_def)
  have step: "engine_step example_env ?ev example_connected
      = accept_route example_env (replicate 16 1) (example_request 1 ''mixed'' ''speaker'' False) SendMixed
          example_connected"
    by (simp add: on_control_def peer_message_def on_route_request_kind from_endpoints_def capable
        other_feed_def stop_feed_def decide_request_def allowed)
  have "policy_for example_connected (replicate 16 1) UseMyMicrophone = Ask"
    by (simp add: policy_for_def trusted_def policy_of_def permissions_default_def)
  then show ?thesis unfolding step
    by (simp add: accept_route_def Let_def begin_pipelines_def local_is_source_def accepted_route_def new_route_def
        begin_sender_def capture_source_def source_of_def settings_default_def capture_default_def mic_default_def
        join_group_def finish_begin_def take_start_id_def emit_def encoder_key_def source_key_of_def mic_source_def
        system_audio_source_def)
qed

text \<open>What accepting and requesting do to the keys of the routes.\<close>

abbreviation route_keys :: "Actor \<Rightarrow> RouteKey list" where
  "route_keys a \<equiv> map route_key (ac_routes a)"

lemma map_first_keys:
  "(\<And>r. route_key (f r) = route_key r) \<Longrightarrow> map route_key (map_first P f rs) = map route_key rs"
  by (induction rs) simp_all

lemma keys_simps [simp]:
  "ac_routes (emit e a) = ac_routes a" "ac_sessions (emit e a) = ac_sessions a"
  "ac_routes (answer reply r a) = ac_routes a" "ac_sessions (answer reply r a) = ac_sessions a"
  "ac_routes (send_to peer b a) = ac_routes a" "ac_sessions (send_to peer b a) = ac_sessions a"
  "ac_routes (update_keep_alive a) = ac_routes a" "ac_sessions (update_keep_alive a) = ac_sessions a"
  "ac_routes (save_route peer kind a) = ac_routes a" "ac_sessions (save_route peer kind a) = ac_sessions a"
  by (simp_all add: emit_def answer_def tell_def update_keep_alive_def save_route_def Let_def split: option.split)

lemma activate_keys:
  "route_keys (activate_route peer rid a) = route_keys a" "ac_sessions (activate_route peer rid a) = ac_sessions a"
  by (simp_all add: activate_route_def Let_def map_first_keys route_key_def split: option.split)

lemma begin_keys:
  assumes "begin_pipelines env r a = (res, r', b)"
  shows "route_key r' = route_key r" "ac_routes b = ac_routes a" "ac_sessions b = ac_sessions a"
  using assms
  by (auto simp: begin_pipelines_def begin_receiver_def begin_sender_def join_group_def take_start_id_def Let_def
      route_key_def split: if_splits option.splits EncoderSlot.splits)

lemma accept_keys:
  assumes "\<forall>r\<in>set (ac_routes a). rt_peer r = did \<longrightarrow> rt_status r \<noteq> Paused \<and> rt_id r \<noteq> ucast (rq_route req)"
    and "fst (begin_pipelines env (accepted_route env did (ucast (rq_route req)) k (local_profile k did (rq_profile req) a) a) a)
        = Inr ready"
  shows "route_keys (accept_route env did req k a) = route_keys a @ [(did, ucast (rq_route req))]"
    "ac_sessions (accept_route env did req k a) = ac_sessions a"
proof -
  let ?r = "accepted_route env did (ucast (rq_route req)) k (local_profile k did (rq_profile req) a) a"
  obtain r' b where begun: "begin_pipelines env ?r a = (Inr ready, r', b)"
    using assms(2) by (metis prod.collapse)
  have kept: "a\<lparr>ac_routes := filter (\<lambda>r. \<not> (rt_peer r = did \<and> rt_status r = Paused \<and>
      (rt_kind r = k \<or> rt_id r = ucast (rq_route req)))) (ac_routes a)\<rparr> = a"
    using assms(1) by (subst filter_True) auto
  have fresh: "(\<exists>r\<in>set (ac_routes a). rt_peer r = did \<and> rt_id r = ucast (rq_route req)) = False"
    using assms(1) by blast
  have accept: "accept_route env did req k a =
      (let a1 = b\<lparr>ac_routes := ac_routes b @ [r']\<rparr> in if ready then activate_route (rt_peer r') (rt_id r') a1 else a1)"
    unfolding accept_route_def Let_def kept fresh by (simp add: begun finish_begin_def Let_def)
  have "route_key r' = (did, ucast (rq_route req))"
    using begin_keys(1) [OF begun] by (simp add: route_key_def accepted_route_def new_route_def)
  then show "route_keys (accept_route env did req k a) = route_keys a @ [(did, ucast (rq_route req))]"
    "ac_sessions (accept_route env did req k a) = ac_sessions a"
    using begin_keys(2,3) [OF begun] unfolding accept by (simp_all add: Let_def activate_keys)
qed

lemma start_keys:
  assumes "map_of (ac_sessions a) did = Some s" "check_local_capability env k a = Inr ()" "other_feed k did a = None"
    and "\<forall>r\<in>set (ac_routes a). rt_peer r = did \<and> rt_kind r = k \<longrightarrow> rt_status r = Stopped"
  shows "route_keys (start_route env did k replace reply a) = route_keys a @ [(did, ps_next_route s)]"
proof -
  have "find (\<lambda>r. rt_peer r = did \<and> rt_kind r = k \<and> rt_status r \<noteq> Stopped) (ac_routes a) = None"
    using assms(4) by (auto simp: find_None_iff)
  then show ?thesis
    by (simp add: start_route_def start_route_keeping_def assms stop_feed_def request_route_def alloc_route_def Let_def
        requested_route_def new_route_def route_key_def)
qed

text \<open>C32: The two ends of a connection are meant to number routes from different parities, but the number of a
  peer's request is not checked. In any state with a session, a peer that may have the kind of route it asks for
  and asks with the number this device gives out next gets a route under that number (no paused route and no
  route of the number is there before, and the pipelines can be begun); whatever kind this device then starts
  with that peer and can start gets a second route under the same key.\<close>

theorem route_keys_collide:
  assumes "map_of (ac_sessions a) did = Some s"
    and "map_of (ac_conn_index a) conn = Some did" "map_of (ac_unpaired a) conn = None"
    and "find (\<lambda>(_, p). es_conn_id (pp_est p) = conn) (ac_pairings a) = None"
    and "request_kind req = Some k" "policy_for a did (route_permission k) = Allow"
    and "check_local_capability env k a = Inr ()" "other_feed k did a = None"
    and "ucast (rq_route req) = ps_next_route s"
    and "\<forall>r\<in>set (ac_routes a). rt_peer r = did \<longrightarrow> rt_status r \<noteq> Paused \<and> rt_id r \<noteq> ps_next_route s"
    and "fst (begin_pipelines env (accepted_route env did (ps_next_route s) k (local_profile k did (rq_profile req) a) a) a)
        = Inr ready"
    and "engine_step env (EvControl conn (control_new n (BRouteRequest req))) a = b"
    and "check_local_capability env' k' b = Inr ()" "other_feed k' did b = None"
    and "\<forall>r\<in>set (ac_routes b). rt_peer r = did \<and> rt_kind r = k' \<longrightarrow> rt_status r = Stopped"
  shows "map route_key (ac_routes (engine_step env' (CmdStartRoute did k' replace reply) b))
    = map route_key (ac_routes a) @ [(did, ps_next_route s), (did, ps_next_route s)]"
proof -
  have "b = accept_route env did req k a"
    using assms(2-8,12)
    by (simp add: on_control_def control_new_def peer_message_def on_route_request_kind stop_feed_def decide_request_def)
  then have "route_keys b = route_keys a @ [(did, ps_next_route s)]" "map_of (ac_sessions b) did = Some s"
    using accept_keys [of a did req env k ready] assms(1,9-11) by simp_all
  then show ?thesis
    using start_keys [OF _ assms(13-15)] by simp
qed

theorem route_keys_collide_witness:
  "map route_key (ac_routes (engine_run [(example_env, example_ask),
      (example_env, CmdStartRoute (replicate 16 1) ReceiveSystemAudio False 1)] example_connected))
   = [(replicate 16 1, 1), (replicate 16 1, 1)]"
proof -
  obtain b r where b: "engine_step example_env example_ask example_connected = b" "ac_routes b = [r]"
    "route_owner r = (replicate 16 1, SendSystemAudio, False)"
    using example_route_opened by blast
  have kind: "rt_kind r = SendSystemAudio" using b(3) by (simp add: route_owner_def)
  have begun: "fst (begin_pipelines example_env (accepted_route example_env (replicate 16 1) (ps_next_route example_session)
      SendSystemAudio (local_profile SendSystemAudio (replicate 16 1) None example_connected) example_connected)
      example_connected) = Inr False"
    by (simp add: begin_pipelines_def local_is_source_def accepted_route_def new_route_def begin_sender_def
        capture_source_def source_of_def settings_default_def capture_default_def join_group_def take_start_id_def Let_def)
  have able: "check_local_capability example_env ReceiveSystemAudio b = Inr ()"
    by (simp add: check_local_capability_def Let_def local_is_source_def)
  have "map route_key (ac_routes (engine_step example_env (CmdStartRoute (replicate 16 1) ReceiveSystemAudio False 1) b))
      = map route_key (ac_routes example_connected) @
        [(replicate 16 1, ps_next_route example_session), (replicate 16 1, ps_next_route example_session)]"
    by (rule route_keys_collide [where conn = 5 and n = 1 and k = SendSystemAudio
          and req = "example_request 1 ''system'' ''speaker'' False" and ready = False and env = example_env])
      (use b(1) begun in \<open>simp_all add: example_capable example_allowed other_feed_def able b(2) kind from_endpoints_def
         example_session_def del: engine_step.simps\<close>)
  then show ?thesis
    using b(1) by (simp add: engine_run_def example_session_def del: engine_step.simps)
qed

lemma emit_more [simp]:
  "ac_sessions (emit e a) = ac_sessions a" "ac_routes (emit e a) = ac_routes a" "set (ac_out (emit e a)) = insert e (set (ac_out a))"
  by (simp_all add: emit_def)

lemma trusted_emit: "trusted (emit e a) did = trusted a did"
  by (simp add: trusted_def emit_def)

lemma remove_sessions: "ac_sessions (remove_routes_for did a) = ac_sessions a"
  using remove_routes_rest [of a did] by (simp add: same_rest_def)

lemma revoke_result:
  "map_of (ac_sessions (revoke env did a)) did = None \<and>
   ac_routes (revoke env did a) = filter (\<lambda>r. rt_peer r \<noteq> did) (ac_routes a) \<and>
   (\<forall>s. map_of (ac_sessions a) did = Some s \<longrightarrow> CloseConn (ps_conn_id s) PermissionRevoked \<in> set (ac_out (revoke env did a)))"
proof -
  have mutes: "ac_sessions (forget_speaker_mutes did b) = ac_sessions b" "ac_routes (forget_speaker_mutes did b) = ac_routes b"
    "set (ac_out b) \<subseteq> set (ac_out (forget_speaker_mutes did b))" for b
    by (auto simp: forget_speaker_mutes_def Let_def emit_def)
  have dial: "ac_routes (drop_dial did b) = ac_routes b" "ac_sessions (drop_dial did b) = ac_sessions b" for b
    by (simp_all add: drop_dial_def cancel_dial_def Let_def emit_def split: option.split)
  have ends: "ac_routes (end_session_with did reason b) = ac_routes b"
    "map_of (ac_sessions (end_session_with did reason b)) did = None"
    "map_of (ac_sessions b) did = Some s \<Longrightarrow> CloseConn (ps_conn_id s) reason \<in> set (ac_out (end_session_with did reason b))"
    for b reason s
    by (auto simp: end_session_with_def delete_conv' split: option.splits)
  show ?thesis
    using subsetD [OF mutes(3)]
    by (auto simp: revoke_def Let_def mutes(1,2) ends dial remove_routes remove_sessions forget_flaps_def)
qed

lemma forget_rest:
  "ac_sessions (forget_device env did a) = ac_sessions (revoke env did a)"
  "ac_routes (forget_device env did a) = ac_routes (revoke env did a)"
  "CloseConn c reason \<in> set (ac_out (forget_device env did a)) \<longleftrightarrow> CloseConn c reason \<in> set (ac_out (revoke env did a))"
  by (simp_all add: forget_device_def Let_def set_trust_def)

lemma forget_trusted: "trusted (forget_device env did a) did = None"
proof -
  let ?b = "revoke env did a"
  obtain r st files where rm: "trust_remove (en_crypto env) (en_serde env) (en_io env) did (ac_trust ?b) (ac_files ?b)
      = (r, st, files)"
    by (cases "trust_remove (en_crypto env) (en_serde env) (en_io env) did (ac_trust ?b) (ac_files ?b)")
  have emit: "ac_trust (emit e b) = ac_trust b" "ac_files (emit e b) = ac_files b" for e b
    by (simp_all add: emit_def)
  show ?thesis
    using remove_devices [OF rm, of did]
    by (simp add: forget_device_def Let_def set_trust_def trusted_def emit rm if_distrib [of ac_trust] if_distrib [of ac_files]
        cong: if_cong)
qed

text \<open>C4: Forgetting or blocking a device cuts it off within the command: its session is gone and its connection
  was told why, its routes are gone and only those, and from then on it is untrusted or blocked, whether or not
  the trust store could be written.\<close>

theorem revoking_cuts_off:
  assumes wf: "store_wf (ac_trust a)" and ev: "ev = CmdForgetDevice did \<or> ev = CmdSetBlocked did True"
  shows "map_of (ac_sessions (engine_step env ev a)) did = None \<and>
         ac_routes (engine_step env ev a) = filter (\<lambda>r. rt_peer r \<noteq> did) (ac_routes a) \<and>
         (case trusted (engine_step env ev a) did of Some d \<Rightarrow> td_blocked d \<and> ev = CmdSetBlocked did True | None \<Rightarrow> True) \<and>
         (\<forall>s. map_of (ac_sessions a) did = Some s \<longrightarrow>
            CloseConn (ps_conn_id s) PermissionRevoked \<in> set (ac_out (engine_step env ev a)))"
  using ev
proof
  assume ev: "ev = CmdForgetDevice did"
  show ?thesis
    using revoke_result [of env did a] forget_trusted [of env did a] by (simp add: ev forget_rest)
next
  assume ev: "ev = CmdSetBlocked did True"
  let ?f = "\<lambda>d. d\<lparr>td_blocked := True\<rparr>"
  have "trusted (revoke env did (update_trust env did ?f a)) did = map_option ?f (trusted a did)"
    using trusted_update [OF wf, of env did ?f did] by (simp add: trusted_def revoke_rest)
  then show ?thesis
    using revoke_result [of env did "update_trust env did ?f a"]
    by (cases "trusted a did") (simp_all add: ev set_blocked_def Let_def trusted_emit)
qed

theorem revoking_cuts_off_witness:
  "map_of (ac_sessions (engine_step example_env (CmdSetBlocked (replicate 16 1) True) example_connected)) (replicate 16 1) = None \<and>
   CloseConn 5 PermissionRevoked \<in> set (ac_out (engine_step example_env (CmdSetBlocked (replicate 16 1) True) example_connected))"
  using revoking_cuts_off [of example_connected "CmdSetBlocked (replicate 16 1) True" "replicate 16 1" example_env]
  by (simp add: example_session_def)

end
