(* ===== verification/Session_Task.thy ===== *)
theory Session_Task
  imports Control_Messages Protocol_Wire Identity Rust_Maps
begin

text \<open>
  The task of one connection (\<open>session.rs\<close>): its token bucket, the handshake that exchanges \<open>Hello\<close> messages,
  and the loop that hands control messages to the engine, carries out the engine's commands and dispatches
  datagrams. What the transport answers is an argument of each step. The fractions of the token bucket are
  exact here, where the code computes with f64.
\<close>

section \<open>The token bucket\<close>

record RateLimit =
  rl_tokens :: rat
  rl_rate :: rat
  rl_burst :: rat
  rl_last :: instant

definition rate_limit_new :: "rat \<Rightarrow> rat \<Rightarrow> instant \<Rightarrow> RateLimit" where
  "rate_limit_new rate burst now = \<lparr>rl_tokens = burst, rl_rate = rate, rl_burst = burst, rl_last = now\<rparr>"

definition seconds :: "duration \<Rightarrow> rat" where
  "seconds d = of_nat d / 1000000000"

definition rate_allow :: "instant \<Rightarrow> RateLimit \<Rightarrow> bool \<times> RateLimit" where
  "rate_allow now l =
     (let elapsed = seconds (now - rl_last l);
          tokens = min (rl_tokens l + elapsed * rl_rate l) (rl_burst l)
      in if tokens \<ge> 1 then (True, l\<lparr>rl_last := now, rl_tokens := tokens - 1\<rparr>)
         else (False, l\<lparr>rl_last := now, rl_tokens := tokens\<rparr>))"

definition CONTROL_RATE :: rat where "CONTROL_RATE = 100"
definition CONTROL_BURST :: rat where "CONTROL_BURST = 400"
definition MAX_DROPPED_CONTROL :: nat where "MAX_DROPPED_CONTROL = 1000"
definition ECHO_RATE :: rat where "ECHO_RATE = 400"

section \<open>What a session does\<close>

datatype SessionEvent =
    SeEstablished Hello
  | SeControl ControlMsg
  | SeClosed StopReason
  | SeHandshakeFailed bool

text \<open>Sinks of received packets and of echoes are named by numbers.\<close>

datatype SessionCmd =
    ScSend ControlMsg
  | ScAddSink u8 nat
  | ScRemoveSink u8
  | ScArmEcho u32 instant
  | ScProbeSink "nat option"
  | ScClose StopReason

datatype SessionOut =
    OutSend ControlMsg
  | OutFinish
  | OutDatagram bytes
  | OutPush nat MediaPacket
  | OutEcho nat ProbeMsg instant
  | OutClose nat string
  | OutEvent SessionEvent

section \<open>The handshake\<close>

text \<open>What the transport answers: the control stream opened or accepted, each send succeeded, the first
  message received (none on an error or timeout), and whether all of it was done within the time limit.\<close>

record HandshakeIo =
  hi_opened :: bool
  hi_sent :: bool
  hi_first :: "ControlMsg option"
  hi_in_time :: bool
  hi_pair_sent :: bool

definition peer_hello_of :: "bool \<Rightarrow> HandshakeIo \<Rightarrow> Hello option" where
  "peer_hello_of dialed io =
     (if \<not> hi_in_time io \<or> \<not> hi_opened io then None
      else if dialed \<and> \<not> hi_sent io then None
      else case hi_first io of
             None \<Rightarrow> None
           | Some msg \<Rightarrow> (case body msg of
               Some (BHello h) \<Rightarrow> if \<not> dialed \<and> \<not> hi_sent io then None else Some h
             | _ \<Rightarrow> None))"

definition device_id_from_slice :: "bytes \<Rightarrow> DeviceId option" where
  "device_id_from_slice bs = (if length bs = 16 then Some bs else None)"

definition hello_range :: "Hello \<Rightarrow> VersionRange" where
  "hello_range h =
     \<lparr>vr_min = version_from_u32 (protocol_min h), vr_max = version_from_u32 (protocol_max h)\<rparr>"

text \<open>The outcome: what is sent and reported after the exchange of Hellos, and the Hello of the peer when the
  session goes on. The engine is alive unless \<open>alive\<close> says otherwise.\<close>

definition session_handshake ::
  "bool \<Rightarrow> DeviceId \<Rightarrow> PairRequest option \<Rightarrow> bool \<Rightarrow> HandshakeIo \<Rightarrow> SessionOut list \<times> Hello option" where
  "session_handshake dialed authenticated pair alive io =
     (case peer_hello_of dialed io of
        None \<Rightarrow> ([OutClose 1 (if hi_in_time io then ''handshake'' else ''timeout''),
                  OutEvent (SeHandshakeFailed False)], None)
      | Some h \<Rightarrow>
          if device_id_from_slice (hello_device_id h) \<noteq> Some authenticated
          then ([OutClose 2 ''identity'', OutEvent (SeHandshakeFailed False)], None)
          else if isl (negotiate LOCAL_VERSIONS (hello_range h))
          then ([OutSend (control_new 0 (BGoodbye \<lparr>goodbye_reason = stop_reason_as_i32 IncompatibleVersion\<rparr>)),
                 OutClose 3 ''version'', OutEvent (SeHandshakeFailed True)], None)
          else
            (case pair of
               Some req \<Rightarrow>
                 if \<not> hi_pair_sent io then ([OutEvent (SeHandshakeFailed False)], None)
                 else if alive then ([OutSend (control_new 0 (BPairRequest req)), OutEvent (SeEstablished h)], Some h)
                 else ([OutSend (control_new 0 (BPairRequest req)), OutClose 0 ''engine stopped''], None)
             | None \<Rightarrow>
                 if alive then ([OutEvent (SeEstablished h)], Some h)
                 else ([OutClose 0 ''engine stopped''], None)))"

section \<open>The loop\<close>

record SessionLoop =
  sl_sinks :: "(u8, nat) hmap"
  sl_limit :: RateLimit
  sl_dropped :: nat
  sl_echo :: "(u32 \<times> instant \<times> RateLimit) option"
  sl_probe_sink :: "nat option"

definition session_loop_new :: "instant \<Rightarrow> SessionLoop" where
  "session_loop_new now =
     \<lparr>sl_sinks = [], sl_limit = rate_limit_new CONTROL_RATE CONTROL_BURST now, sl_dropped = 0,
      sl_echo = None, sl_probe_sink = None\<rparr>"

datatype SessionInput =
    InControl ControlMsg
  | InControlError
  | InCmd SessionCmd
  | InCmdsClosed
  | InDatagram bytes
  | InDatagramError

record LoopEnv =
  le_now :: instant
  le_sent :: bool
  le_alive :: bool

type_synonym LoopResult = "SessionOut list \<times> (StopReason + SessionLoop)"

definition on_session_control :: "LoopEnv \<Rightarrow> ControlMsg \<Rightarrow> SessionLoop \<Rightarrow> LoopResult" where
  "on_session_control env msg s =
     (case body msg of
        Some (BGoodbye g) \<Rightarrow>
          ([], Inl (case stop_reason_try_from (goodbye_reason g) of Some r \<Rightarrow> r | None \<Rightarrow> PeerStopped))
      | _ \<Rightarrow>
          (let (ok, limit) = rate_allow (le_now env) (sl_limit s);
               s1 = s\<lparr>sl_limit := limit\<rparr>
           in if \<not> ok
              then let s2 = s1\<lparr>sl_dropped := sl_dropped s1 + 1\<rparr>
                   in ([], if MAX_DROPPED_CONTROL < sl_dropped s2 then Inl StopUnspecified else Inr s2)
              else if le_alive env then ([OutEvent (SeControl msg)], Inr s1)
              else ([], Inl UserStopped)))"

definition on_session_cmd :: "LoopEnv \<Rightarrow> SessionCmd \<Rightarrow> SessionLoop \<Rightarrow> LoopResult" where
  "on_session_cmd env cmd s = (case cmd of
       ScSend msg \<Rightarrow> if le_sent env then ([OutSend msg], Inr s) else ([], Inl NetworkLost)
     | ScAddSink route sink \<Rightarrow> ([], Inr (s\<lparr>sl_sinks := AList.update route sink (sl_sinks s)\<rparr>))
     | ScRemoveSink route \<Rightarrow> ([], Inr (s\<lparr>sl_sinks := AList.delete route (sl_sinks s)\<rparr>))
     | ScArmEcho test_id until \<Rightarrow>
         ([], Inr (s\<lparr>sl_echo := Some (test_id, until, rate_limit_new ECHO_RATE ECHO_RATE (le_now env))\<rparr>))
     | ScProbeSink sink \<Rightarrow> ([], Inr (s\<lparr>sl_probe_sink := sink\<rparr>))
     | ScClose reason \<Rightarrow>
         ([OutSend (control_new 0 (BGoodbye \<lparr>goodbye_reason = stop_reason_as_i32 reason\<rparr>)), OutFinish], Inl reason))"

definition on_probe :: "instant \<Rightarrow> ProbeMsg \<Rightarrow> SessionLoop \<Rightarrow> SessionOut list \<times> SessionLoop" where
  "on_probe now p s = (case pr_kind p of
       Probe \<Rightarrow>
         (case sl_echo s of
            Some (test_id, until, limit) \<Rightarrow>
              if pr_test_id p = test_id \<and> now < until
              then let (ok, limit') = rate_allow now limit;
                       s1 = s\<lparr>sl_echo := Some (test_id, until, limit')\<rparr>
                   in (if ok then [OutDatagram (probe_encode (probe_echo p 0) 0)] else [], s1)
              else ([], s)
          | None \<Rightarrow> ([], s))
     | Echo \<Rightarrow> (case sl_probe_sink s of Some sink \<Rightarrow> ([OutEcho sink p now], s) | None \<Rightarrow> ([], s)))"

definition on_session_datagram :: "LoopEnv \<Rightarrow> bytes \<Rightarrow> SessionLoop \<Rightarrow> SessionOut list \<times> SessionLoop" where
  "on_session_datagram env d s =
     (if is_probe d
      then (case probe_decode d of Inl _ \<Rightarrow> ([], s) | Inr p \<Rightarrow> on_probe (le_now env) p s)
      else (case media_decode d of
              Inl _ \<Rightarrow> ([], s)
            | Inr packet \<Rightarrow>
                (case map_of (sl_sinks s) (mh_route (mp_header packet)) of
                   Some sink \<Rightarrow> ([OutPush sink packet], s)
                 | None \<Rightarrow> ([], s))))"

fun session_step :: "LoopEnv \<Rightarrow> SessionInput \<Rightarrow> SessionLoop \<Rightarrow> LoopResult" where
  "session_step env (InControl msg) s = on_session_control env msg s"
| "session_step env InControlError s = ([], Inl NetworkLost)"
| "session_step env (InCmd cmd) s = on_session_cmd env cmd s"
| "session_step env InCmdsClosed s = ([], Inl UserStopped)"
| "session_step env (InDatagram d) s = (let (out, s') = on_session_datagram env d s in (out, Inr s'))"
| "session_step env InDatagramError s = ([], Inl NetworkLost)"

text \<open>The session over its inputs; when a step ends it the connection is closed and the engine told, and nothing
  more is read.\<close>

fun session_run :: "(LoopEnv \<times> SessionInput) list \<Rightarrow> SessionLoop \<Rightarrow> LoopResult" where
  "session_run [] s = ([], Inr s)"
| "session_run ((env, i) # is) s =
     (case session_step env i s of
        (out, Inl reason) \<Rightarrow> (out @ [OutClose 0 ''bye'', OutEvent (SeClosed reason)], Inl reason)
      | (out, Inr s') \<Rightarrow> (let (out', res) = session_run is s' in (out @ out', res)))"

section \<open>The rate of a token bucket\<close>

lemma seconds_add: "a \<le> b \<Longrightarrow> b \<le> c \<Longrightarrow> seconds (b - a) + seconds (c - b) = seconds (c - a)"
  by (simp add: seconds_def of_nat_diff field_simps)

lemma seconds_pos [simp]: "0 \<le> seconds d"
  by (simp add: seconds_def)

lemma seconds_mono: "a \<le> b \<Longrightarrow> seconds (c - b) \<le> seconds (c - a)"
  by (simp add: seconds_def divide_right_mono)

lemma rate_allow_fields [simp]:
  "rl_rate (snd (rate_allow t l)) = rl_rate l" "rl_burst (snd (rate_allow t l)) = rl_burst l"
  "rl_last (snd (rate_allow t l)) = t"
  by (simp_all add: rate_allow_def Let_def)

text \<open>What a call lets through and what it leaves is what there was and what flowed in since.\<close>

lemma rate_allow_balance:
  "(if fst (rate_allow t l) then 1 else 0) + rl_tokens (snd (rate_allow t l))
     = min (rl_tokens l + seconds (t - rl_last l) * rl_rate l) (rl_burst l)"
  by (simp add: rate_allow_def Let_def)

lemma rate_allow_tokens: "0 \<le> rl_tokens l \<Longrightarrow> 0 \<le> rl_rate l \<Longrightarrow> 0 \<le> rl_burst l \<Longrightarrow> 0 \<le> rl_tokens (snd (rate_allow t l))"
  by (simp add: rate_allow_def Let_def)

section \<open>The rate of a session\<close>

definition is_forward :: "SessionOut \<Rightarrow> bool" where
  "is_forward out \<longleftrightarrow> (case out of OutEvent e \<Rightarrow> (case e of SeControl _ \<Rightarrow> True | _ \<Rightarrow> False) | _ \<Rightarrow> False)"

definition forwarded :: "SessionOut list \<Rightarrow> rat" where
  "forwarded out = of_nat (length (filter is_forward out))"

lemma forwarded_simps [simp]:
  "forwarded [] = 0" "forwarded (xs @ ys) = forwarded xs + forwarded ys"
  "forwarded (x # xs) = (if is_forward x then 1 else 0) + forwarded xs"
  by (simp_all add: forwarded_def)

lemma forward_simps [simp]:
  "is_forward (OutEvent (SeControl m))" "\<not> is_forward (OutEvent (SeClosed r))" "\<not> is_forward (OutClose n c)"
  "\<not> is_forward (OutSend m)" "\<not> is_forward OutFinish" "\<not> is_forward (OutDatagram d)" "\<not> is_forward (OutPush n p)"
  "\<not> is_forward (OutEcho n q t)"
  by (simp_all add: is_forward_def)

text \<open>The state of the bucket between the inputs of a session.\<close>

definition bucket_ok :: "instant \<Rightarrow> SessionLoop \<Rightarrow> bool" where
  "bucket_ok now s \<longleftrightarrow> rl_rate (sl_limit s) = CONTROL_RATE \<and> rl_burst (sl_limit s) = CONTROL_BURST
     \<and> rl_last (sl_limit s) \<le> now \<and> 0 \<le> rl_tokens (sl_limit s)"

definition is_control :: "SessionInput \<Rightarrow> bool" where
  "is_control i \<longleftrightarrow> (case i of InControl _ \<Rightarrow> True | _ \<Rightarrow> False)"

lemma other_input:
  assumes "\<not> is_control i"
  shows "forwarded (fst (session_step env i s)) = 0"
    "snd (session_step env i s) = Inr s' \<Longrightarrow> sl_limit s' = sl_limit s"
  using assms
  by (cases i; auto simp: is_control_def on_session_cmd_def on_session_datagram_def on_probe_def Let_def case_prod_beta
      split: SessionCmd.splits if_splits sum.splits option.splits ProbeKind.splits)+

definition goodbye_of :: "ControlMsg \<Rightarrow> StopReason option" where
  "goodbye_of msg = (case body msg of
     Some (BGoodbye g) \<Rightarrow> Some (case stop_reason_try_from (goodbye_reason g) of Some r \<Rightarrow> r | None \<Rightarrow> PeerStopped)
   | _ \<Rightarrow> None)"

lemma session_control_cases:
  "on_session_control env msg s = (case goodbye_of msg of
     Some r \<Rightarrow> ([], Inl r)
   | None \<Rightarrow>
       (let l = snd (rate_allow (le_now env) (sl_limit s))
        in if \<not> fst (rate_allow (le_now env) (sl_limit s))
           then ([], if MAX_DROPPED_CONTROL < sl_dropped s + 1 then Inl StopUnspecified
                     else Inr (s\<lparr>sl_limit := l, sl_dropped := sl_dropped s + 1\<rparr>))
           else if le_alive env then ([OutEvent (SeControl msg)], Inr (s\<lparr>sl_limit := l\<rparr>))
           else ([], Inl UserStopped)))"
  by (simp add: on_session_control_def goodbye_of_def Let_def case_prod_beta split: option.split Body.split)

lemma control_input:
  assumes ok: "bucket_ok (le_now env) s"
  shows "snd (session_step env (InControl msg) s) = Inr s' \<Longrightarrow>
      forwarded (fst (session_step env (InControl msg) s)) + rl_tokens (sl_limit s')
        = min (rl_tokens (sl_limit s) + seconds (le_now env - rl_last (sl_limit s)) * CONTROL_RATE) CONTROL_BURST
      \<and> rl_last (sl_limit s') = le_now env \<and> bucket_ok (le_now env) s'"
    "snd (session_step env (InControl msg) s) = Inl r \<Longrightarrow> forwarded (fst (session_step env (InControl msg) s)) = 0"
  using ok rate_allow_balance [of "le_now env" "sl_limit s"] rate_allow_tokens [of "sl_limit s" "le_now env"]
  by (auto simp: bucket_ok_def session_control_cases Let_def CONTROL_RATE_def CONTROL_BURST_def
      split: option.splits if_splits)

abbreviation input_times :: "(LoopEnv \<times> SessionInput) list \<Rightarrow> instant list" where
  "input_times is \<equiv> map (\<lambda>e. le_now (fst e)) is"

lemma bucket_later: "bucket_ok t s \<Longrightarrow> t \<le> u \<Longrightarrow> bucket_ok u s"
  by (simp add: bucket_ok_def)

lemma other_bucket: "\<not> is_control i \<Longrightarrow> snd (session_step env i s) = Inr s' \<Longrightarrow> bucket_ok t s \<Longrightarrow> bucket_ok t s'"
  using other_input(2) [of i env s s'] by (simp add: bucket_ok_def)

text \<open>One step, whatever it is: what is forwarded is paid for by the tokens there were and those that came in.\<close>

lemma step_balance:
  assumes ok: "bucket_ok (le_now env) s" and r: "session_step env i s = (out, Inr s')"
  shows "forwarded out + rl_tokens (sl_limit s') \<le>
      rl_tokens (sl_limit s) + CONTROL_RATE * seconds (rl_last (sl_limit s') - rl_last (sl_limit s))
    \<and> rl_last (sl_limit s) \<le> rl_last (sl_limit s') \<and> bucket_ok (le_now env) s'"
proof (cases "is_control i")
  case True
  then obtain msg where i: "i = InControl msg" by (auto simp: is_control_def split: SessionInput.splits)
  then show ?thesis
    using control_input(1) [OF ok, of msg s'] r ok by (simp add: bucket_ok_def mult.commute min_def split: if_splits)
next
  case False
  then show ?thesis
    using other_input [OF False, of env s] other_bucket [OF False, of env s s' "le_now env"] ok r
    by (simp add: seconds_def)
qed

lemma step_ends: "session_step env i s = (out, Inl r) \<Longrightarrow> bucket_ok (le_now env) s \<Longrightarrow> forwarded out = 0"
  using other_input(1) [of i env s] control_input(2) [of env s _ r]
  by (cases i) (simp_all add: is_control_def del: session_step.simps, metis fst_conv snd_conv)

lemma run_total:
  assumes "sorted (t # input_times is)" "bucket_ok t s"
  shows "forwarded (fst (session_run is s))
      \<le> rl_tokens (sl_limit s) + CONTROL_RATE * seconds (last (t # input_times is) - rl_last (sl_limit s))"
  using assms
proof (induction "is" arbitrary: t s)
  case Nil
  then show ?case by (simp add: bucket_ok_def CONTROL_RATE_def)
next
  case (Cons e "is")
  obtain env i where e: "e = (env, i)" by (cases e)
  have ok: "bucket_ok (le_now env) s" using Cons.prems bucket_later by (auto simp: e)
  obtain out res where step: "session_step env i s = (out, res)" by (cases "session_step env i s")
  show ?case
  proof (cases res)
    case (Inl r)
    then show ?thesis using step_ends [of env i s out r] step ok by (simp add: e bucket_ok_def CONTROL_RATE_def)
  next
    case (Inr s')
    let ?fin = "last (le_now env # input_times is)"
    note b = step_balance [OF ok step [unfolded Inr]]
    have "forwarded (fst (session_run is s')) \<le> rl_tokens (sl_limit s') + CONTROL_RATE * seconds (?fin - rl_last (sl_limit s'))"
      using Cons.IH [of "le_now env" s'] Cons.prems(1) b by (simp add: e)
    moreover have "le_now env \<le> ?fin"
      using Cons.prems(1) by (cases "input_times is") (auto simp: e)
    then have "seconds (rl_last (sl_limit s') - rl_last (sl_limit s)) + seconds (?fin - rl_last (sl_limit s'))
        = seconds (?fin - rl_last (sl_limit s))"
      using b by (intro seconds_add) (auto simp: bucket_ok_def)
    then have "CONTROL_RATE * seconds (?fin - rl_last (sl_limit s)) =
        CONTROL_RATE * seconds (rl_last (sl_limit s') - rl_last (sl_limit s)) + CONTROL_RATE * seconds (?fin - rl_last (sl_limit s'))"
      by (simp flip: distrib_left)
    ultimately show ?thesis
      using b by (simp add: e step Inr case_prod_beta)
  qed
qed

lemma run_window:
  assumes "sorted (input_times is)" "is \<noteq> []" "bucket_ok (hd (input_times is)) s"
  shows "forwarded (fst (session_run is s)) \<le> CONTROL_BURST + CONTROL_RATE * seconds (last (input_times is) - hd (input_times is))"
  using assms
proof (induction "is" arbitrary: s)
  case (Cons e "is")
  obtain env i where e: "e = (env, i)" by (cases e)
  have ok: "bucket_ok (le_now env) s" using Cons.prems by (simp add: e)
  obtain out res where step: "session_step env i s = (out, res)" by (cases "session_step env i s")
  show ?case
  proof (cases res)
    case (Inl r)
    then show ?thesis using step_ends [of env i s out r] step ok by (simp add: e CONTROL_RATE_def CONTROL_BURST_def)
  next
    case (Inr s')
    note b = step_balance [OF ok step [unfolded Inr]]
    show ?thesis
    proof (cases "is_control i")
      case True
      then obtain msg where i: "i = InControl msg" by (auto simp: is_control_def split: SessionInput.splits)
      have "forwarded out + rl_tokens (sl_limit s') \<le> CONTROL_BURST" "rl_last (sl_limit s') = le_now env"
        using control_input(1) [OF ok, of msg s'] step Inr by (simp_all add: i)
      moreover have "forwarded (fst (session_run is s'))
          \<le> rl_tokens (sl_limit s') + CONTROL_RATE * seconds (last (le_now env # input_times is) - rl_last (sl_limit s'))"
        using run_total [of "le_now env" "is" s'] Cons.prems(1) b by (simp add: e)
      ultimately show ?thesis by (cases "is = []") (simp_all add: e step Inr case_prod_beta)
    next
      case False
      have out: "forwarded out = 0" using other_input(1) [OF False, of env s] step by simp
      show ?thesis
      proof (cases "is = []")
        case True
        then show ?thesis by (simp add: e step Inr out CONTROL_RATE_def CONTROL_BURST_def)
      next
        case ne: False
        have le: "le_now env \<le> hd (input_times is)" using Cons.prems(1) ne by (cases "is") (auto simp: e)
        have "forwarded (fst (session_run is s'))
            \<le> CONTROL_BURST + CONTROL_RATE * seconds (last (input_times is) - hd (input_times is))"
          using Cons.IH [OF _ ne, of s'] Cons.prems(1) bucket_later [OF _ le] b by (simp add: e)
        also have "\<dots> \<le> CONTROL_BURST + CONTROL_RATE * seconds (last (input_times is) - le_now env)"
          using seconds_mono [OF le] by (simp add: CONTROL_RATE_def)
        finally show ?thesis using ne by (simp add: e step Inr out case_prod_beta)
      qed
    qed
  qed
qed simp

lemma run_bucket:
  assumes "sorted (t # input_times is)" "bucket_ok t s" "session_run is s = (out, Inr s')"
  shows "bucket_ok (last (t # input_times is)) s'"
  using assms
proof (induction "is" arbitrary: t s out)
  case (Cons e "is")
  obtain env i where e: "e = (env, i)" by (cases e)
  obtain o1 res where step: "session_step env i s = (o1, res)" by (cases "session_step env i s")
  have ok: "bucket_ok (le_now env) s" using Cons.prems bucket_later by (auto simp: e)
  from Cons.prems(3) obtain s1 where s1: "res = Inr s1" by (cases res) (simp_all add: e step)
  then obtain o2 where "session_run is s1 = (o2, Inr s')"
    using Cons.prems(3) by (cases "session_run is s1") (simp add: e step)
  then show ?case
    using Cons.IH [of "le_now env" s1] Cons.prems(1) step_balance [OF ok step [unfolded s1]] by (simp add: e)
qed simp

text \<open>Every control message of a session that is still running was either handed on or counted as dropped.\<close>

abbreviation controls :: "(LoopEnv \<times> SessionInput) list \<Rightarrow> rat" where
  "controls is \<equiv> of_nat (length (filter (\<lambda>e. is_control (snd e)) is))"

lemma other_drops: "\<not> is_control i \<Longrightarrow> snd (session_step env i s) = Inr s' \<Longrightarrow> sl_dropped s' = sl_dropped s"
  by (cases i; auto simp: is_control_def on_session_cmd_def on_session_datagram_def on_probe_def Let_def case_prod_beta
      split: SessionCmd.splits if_splits sum.splits option.splits ProbeKind.splits)

lemma control_drops:
  assumes "session_step env (InControl msg) s = (out, Inr s')" "sl_dropped s \<le> MAX_DROPPED_CONTROL"
  shows "1 + of_nat (sl_dropped s) = forwarded out + of_nat (sl_dropped s') \<and> sl_dropped s' \<le> MAX_DROPPED_CONTROL"
  using assms by (auto simp: session_control_cases Let_def split: option.splits if_splits)

lemma step_drops:
  assumes "session_step env i s = (out, Inr s')" "sl_dropped s \<le> MAX_DROPPED_CONTROL"
  shows "(if is_control i then 1 else 0) + of_nat (sl_dropped s) = forwarded out + of_nat (sl_dropped s') \<and> sl_dropped s' \<le> MAX_DROPPED_CONTROL"
proof (cases "is_control i")
  case True
  then obtain msg where "i = InControl msg" by (auto simp: is_control_def split: SessionInput.splits)
  then show ?thesis using control_drops assms True by simp
next
  case False
  then show ?thesis using other_input(1) [OF False, of env s] other_drops [OF False, of env s s'] assms by simp
qed

lemma run_drops:
  assumes "session_run is s = (out, Inr s')" "sl_dropped s \<le> MAX_DROPPED_CONTROL"
  shows "controls is + of_nat (sl_dropped s) = forwarded out + of_nat (sl_dropped s') \<and> sl_dropped s' \<le> MAX_DROPPED_CONTROL"
  using assms
proof (induction "is" arbitrary: s out)
  case (Cons e "is")
  obtain env i where e: "e = (env, i)" by (cases e)
  obtain o1 res where step: "session_step env i s = (o1, res)" by (cases "session_step env i s")
  from Cons.prems(1) obtain s1 where s1: "res = Inr s1" by (cases res) (simp_all add: e step)
  obtain o2 where rest: "session_run is s1 = (o2, Inr s')" "out = o1 @ o2"
    using Cons.prems(1) by (cases "session_run is s1") (simp add: e step s1)
  then show ?case
    using Cons.IH [OF rest(1)] step_drops [OF step [unfolded s1] Cons.prems(2)] by (simp add: e split: if_splits)
qed simp

lemma loop_new_bucket: "bucket_ok t0 (session_loop_new t0)"
  "rl_tokens (sl_limit (session_loop_new t0)) = 400" "rl_last (sl_limit (session_loop_new t0)) = t0"
  "sl_dropped (session_loop_new t0) = 0"
  by (simp_all add: bucket_ok_def session_loop_new_def rate_limit_new_def CONTROL_BURST_def)

lemma control_refused:
  assumes "goodbye_of msg = None" "\<not> fst (rate_allow (le_now env) (sl_limit s))" "sl_dropped s \<le> MAX_DROPPED_CONTROL"
  shows "fst (session_step env (InControl msg) s) = [] \<and>
    (case snd (session_step env (InControl msg) s) of
       Inl r \<Rightarrow> sl_dropped s = MAX_DROPPED_CONTROL \<and> r = StopUnspecified
     | Inr s' \<Rightarrow> sl_dropped s < MAX_DROPPED_CONTROL \<and> sl_dropped s' = sl_dropped s + 1)"
  using assms by (auto simp: session_control_cases Let_def)

text \<open>C22: However a peer floods its connection, the session hands the engine at most 400 control messages plus
  100 for every second, counted over any stretch of its inputs, from its first to its last instant. Every other
  message is dropped and counted: as long as the session lives, the messages that came are those handed on and
  those dropped, and at most 1000 were dropped. A message that the bucket refuses after that ends the session,
  with the unspecified reason and nothing handed on, so a session that is still running has received at most
  1400 messages and 100 for every second of its life.\<close>

theorem session_control_rate:
  assumes "sorted (t0 # input_times (pre @ win))" "win \<noteq> []"
    and "session_run pre (session_loop_new t0) = (out, Inr s)"
  shows "forwarded (fst (session_run win s)) \<le> 400 + 100 * seconds (last (input_times win) - hd (input_times win))
    \<and> controls pre = forwarded out + of_nat (sl_dropped s) \<and> sl_dropped s \<le> 1000
    \<and> controls pre \<le> 1400 + 100 * seconds (last (t0 # input_times pre) - t0)
    \<and> (goodbye_of msg = None \<and> \<not> fst (rate_allow (le_now env) (sl_limit s)) \<longrightarrow>
         fst (session_step env (InControl msg) s) = [] \<and>
         (case snd (session_step env (InControl msg) s) of
            Inl r \<Rightarrow> sl_dropped s = 1000 \<and> r = StopUnspecified
          | Inr s' \<Rightarrow> sl_dropped s < 1000 \<and> sl_dropped s' = sl_dropped s + 1))"
proof -
  have "bucket_ok (last (t0 # input_times pre)) s"
    using assms(1,3) loop_new_bucket(1) by (intro run_bucket) (simp_all add: sorted_append)
  moreover have "last (t0 # input_times pre) \<le> hd (input_times win)"
    using assms(1,2) by (cases win; cases "pre = []") (auto simp: sorted_append last_map)
  ultimately have "bucket_ok (hd (input_times win)) s" by (rule bucket_later)
  moreover have "forwarded out \<le> 400 + 100 * seconds (last (t0 # input_times pre) - t0)"
    using run_total [of t0 pre "session_loop_new t0"] assms(1,3)
    by (simp add: loop_new_bucket sorted_append CONTROL_RATE_def)
  moreover note run_drops [OF assms(3)] control_refused [of msg env s, unfolded MAX_DROPPED_CONTROL_def]
  ultimately show ?thesis
    using run_window [of win s] assms(1,2)
    by (simp add: sorted_append CONTROL_BURST_def CONTROL_RATE_def MAX_DROPPED_CONTROL_def loop_new_bucket
        del: session_step.simps)
qed

definition ping_msg :: ControlMsg where
  "ping_msg = \<lparr>request_id = 0, body = None\<rparr>"

definition ping_input :: "nat \<Rightarrow> LoopEnv \<times> SessionInput" where
  "ping_input t = (\<lparr>le_now = t, le_sent = True, le_alive = True\<rparr>, InControl ping_msg)"

text \<open>A flood at one instant: 400 messages get through, the next 1000 are dropped.\<close>

lemma ping_forwarded:
  "sl_limit s = \<lparr>rl_tokens = of_nat (Suc m), rl_rate = 100, rl_burst = 400, rl_last = t\<rparr> \<Longrightarrow> m < 400 \<Longrightarrow>
   session_step (fst (ping_input t)) (snd (ping_input t)) s =
     ([OutEvent (SeControl ping_msg)],
      Inr (s\<lparr>sl_limit := \<lparr>rl_tokens = of_nat m, rl_rate = 100, rl_burst = 400, rl_last = t\<rparr>\<rparr>))"
  by (simp add: ping_input_def ping_msg_def on_session_control_def rate_allow_def seconds_def Let_def min_def)

lemma run_ping:
  "session_run (ping_input t # is) s =
     (case session_step (fst (ping_input t)) (snd (ping_input t)) s of
        (out, Inl reason) \<Rightarrow> (out @ [OutClose 0 ''bye'', OutEvent (SeClosed reason)], Inl reason)
      | (out, Inr s') \<Rightarrow> (let (out', res) = session_run is s' in (out @ out', res)))"
  unfolding ping_input_def fst_conv snd_conv by (rule session_run.simps(2))

lemma flood_forwards:
  "n \<le> m \<Longrightarrow> sl_limit s = \<lparr>rl_tokens = of_nat m, rl_rate = 100, rl_burst = 400, rl_last = t\<rparr> \<Longrightarrow> m \<le> 400 \<Longrightarrow>
   session_run (replicate n (ping_input t)) s =
     (replicate n (OutEvent (SeControl ping_msg)),
      Inr (s\<lparr>sl_limit := \<lparr>rl_tokens = of_nat (m - n), rl_rate = 100, rl_burst = 400, rl_last = t\<rparr>\<rparr>))"
proof (induction n arbitrary: m s)
  case 0
  then show ?case by (cases s) simp
next
  case (Suc n)
  obtain k where k: "m = Suc k" "k < 400" "n \<le> k" using Suc.prems(1,3) by (cases m) auto
  show ?case
    using ping_forwarded [OF Suc.prems(2) [unfolded k(1)] k(2)] k
      Suc.IH [of k "s\<lparr>sl_limit := \<lparr>rl_tokens = of_nat k, rl_rate = 100, rl_burst = 400, rl_last = t\<rparr>\<rparr>"]
    by (simp add: run_ping del: session_run.simps(2))
qed

lemma flood_drops:
  "sl_limit s = \<lparr>rl_tokens = 0, rl_rate = 100, rl_burst = 400, rl_last = t\<rparr> \<Longrightarrow> sl_dropped s + n \<le> 1000 \<Longrightarrow>
   session_run (replicate n (ping_input t)) s = ([], Inr (s\<lparr>sl_dropped := sl_dropped s + n\<rparr>))"
  by (induction n arbitrary: s)
    (simp_all add: ping_input_def ping_msg_def on_session_control_def rate_allow_def seconds_def MAX_DROPPED_CONTROL_def
      Let_def min_def)

lemma run_append:
  "session_run xs s = (out, Inr s') \<Longrightarrow> session_run (xs @ ys) s = (out @ fst (session_run ys s'), snd (session_run ys s'))"
proof (induction xs arbitrary: s out)
  case (Cons e xs)
  obtain env i where e: "e = (env, i)" by (cases e)
  obtain o1 res where step: "session_step env i s = (o1, res)" by (cases "session_step env i s")
  from Cons.prems obtain s1 where s1: "res = Inr s1" by (cases res) (simp_all add: e step)
  obtain o2 where rest: "session_run xs s1 = (o2, Inr s')" "out = o1 @ o2"
    using Cons.prems by (cases "session_run xs s1") (simp add: e step s1)
  then show ?case using Cons.IH [OF rest(1)] by (simp add: e step s1)
qed simp

definition flooded :: "instant \<Rightarrow> SessionLoop" where
  "flooded t = (session_loop_new t)\<lparr>sl_limit := \<lparr>rl_tokens = 0, rl_rate = 100, rl_burst = 400, rl_last = t\<rparr>, sl_dropped := 1000\<rparr>"

lemma flood:
  "session_run (replicate 400 (ping_input t) @ replicate 1000 (ping_input t)) (session_loop_new t) =
     (replicate 400 (OutEvent (SeControl ping_msg)), Inr (flooded t))"
proof -
  have "sl_limit (session_loop_new t) = \<lparr>rl_tokens = of_nat 400, rl_rate = 100, rl_burst = 400, rl_last = t\<rparr>"
    by (simp add: session_loop_new_def rate_limit_new_def CONTROL_RATE_def CONTROL_BURST_def)
  from flood_forwards [OF order_refl this] show ?thesis
    by (subst run_append) (auto simp: flood_drops flooded_def session_loop_new_def)
qed

theorem session_control_rate_witness:
  "snd (session_step \<lparr>le_now = 5, le_sent = True, le_alive = True\<rparr> (InControl ping_msg) (flooded 5)) = Inl StopUnspecified \<and>
   forwarded (fst (session_run [ping_input 5] (flooded 5))) \<le> 400"
proof -
  let ?pre = "replicate 400 (ping_input 5) @ replicate 1000 (ping_input 5)"
  let ?env = "\<lparr>le_now = 5, le_sent = True, le_alive = True\<rparr>"
  have "sorted (5 # input_times (?pre @ [ping_input 5]))"
    by (simp add: ping_input_def sorted_append)
  note th = session_control_rate [OF this _ flood, of ping_msg ?env]
  moreover have "goodbye_of ping_msg = None" "\<not> fst (rate_allow (le_now ?env) (sl_limit (flooded 5)))"
    by (simp_all add: goodbye_of_def ping_msg_def flooded_def rate_allow_def seconds_def Let_def min_def)
  ultimately show ?thesis
    by (auto simp: flooded_def seconds_def simp del: session_step.simps session_run.simps split: sum.splits)
qed

section \<open>Datagrams\<close>

lemma echo_not_longer: "probe_decode d = Inr q \<Longrightarrow> length (probe_encode (probe_echo q t) 0) \<le> length d"
  by (auto simp: probe_decode_def length_probe_encode clamp_def media_consts split: if_splits)

text \<open>C23: Every datagram a session sends answers a probe that it just received, of the network test the engine
  armed and before its deadline; it is the echo of that probe and not longer. Every media packet it hands on
  was decoded from the datagram just received and goes to the sink of the packet's route.\<close>

theorem session_datagrams:
  assumes "session_step env i s = (out, res)"
  shows "(OutDatagram d \<in> set out \<longrightarrow>
            (\<exists>req p test_id until limit. i = InDatagram req \<and> probe_decode req = Inr p \<and> pr_kind p = Probe \<and>
               sl_echo s = Some (test_id, until, limit) \<and> pr_test_id p = test_id \<and> le_now env < until \<and>
               probe_decode d = Inr (probe_echo p 0) \<and> length d \<le> length req)) \<and>
         (OutPush sink packet \<in> set out \<longrightarrow>
            (\<exists>req. i = InDatagram req \<and> \<not> is_probe req \<and> media_decode req = Inr packet \<and>
               map_of (sl_sinks s) (mh_route (mp_header packet)) = Some sink))"
proof (cases i)
  case (InDatagram req)
  have echo: "length (probe_encode (probe_echo p 0) 0) \<le> length req" "probe_decode (probe_encode (probe_echo p 0) 0) = Inr (probe_echo p 0)"
    if "probe_decode req = Inr p" for p
    using echo_not_longer [OF that] probe_decode_encode by simp_all
  show ?thesis
    using assms echo
    by (auto simp: InDatagram on_session_datagram_def on_probe_def Let_def case_prod_beta
        split: if_splits sum.splits option.splits ProbeKind.splits)
next
  case (InControl msg)
  then show ?thesis
    using assms by (auto simp: session_control_cases Let_def split: option.splits if_splits)
next
  case (InCmd cmd)
  then show ?thesis using assms by (auto simp: on_session_cmd_def split: SessionCmd.splits if_splits)
qed (use assms in auto)

theorem session_datagrams_witness:
  "\<exists>d. OutDatagram d \<in> set (fst (session_step \<lparr>le_now = 5, le_sent = True, le_alive = True\<rparr>
       (InDatagram (probe_encode \<lparr>pr_kind = Probe, pr_test_id = 3, pr_seq = 1, pr_sent_us = 0, pr_echo_us = 0\<rparr> 64))
       ((session_loop_new 0)\<lparr>sl_echo := Some (3, 10, rate_limit_new ECHO_RATE ECHO_RATE 0)\<rparr>))) \<and> length d \<le> 64"
proof -
  let ?p = "\<lparr>pr_kind = Probe, pr_test_id = 3, pr_seq = 1, pr_sent_us = 0, pr_echo_us = 0\<rparr>"
  let ?req = "probe_encode ?p 64"
  let ?env = "\<lparr>le_now = 5, le_sent = True, le_alive = True\<rparr>"
  let ?s = "(session_loop_new 0)\<lparr>sl_echo := Some (3, 10, rate_limit_new ECHO_RATE ECHO_RATE 0)\<rparr>"
  let ?d = "probe_encode (probe_echo ?p 0) 0"
  have probe: "is_probe ?req" by (simp add: is_probe_def probe_encode_def Let_def)
  have len: "length ?req = 64" by (simp add: length_probe_encode clamp_def media_consts)
  have out: "OutDatagram ?d \<in> set (fst (session_step ?env (InDatagram ?req) ?s))"
    by (simp add: on_session_datagram_def probe probe_decode_encode on_probe_def rate_allow_def rate_limit_new_def
        seconds_def ECHO_RATE_def Let_def case_prod_beta)
  obtain out res where step: "session_step ?env (InDatagram ?req) ?s = (out, res)" by (rule prod.exhaust)
  from session_datagrams [OF step, of ?d] out have "length ?d \<le> length ?req" unfolding step by auto
  then show ?thesis using out len by (metis (no_types, lifting))
qed

section \<open>Beginning and end\<close>

definition events_of :: "SessionOut list \<Rightarrow> SessionEvent list" where
  "events_of out = concat (map (\<lambda>o1. case o1 of OutEvent e \<Rightarrow> [e] | _ \<Rightarrow> []) out)"

text \<open>C21: A handshake lets the session go on only with a peer whose Hello claims exactly the identifier of its
  authenticated key and whose version range meets this program's, and then reports it established; in every
  other case it reports one failure, as incompatible versions exactly when those were the obstacle. The engine gets
  exactly one report.\<close>

theorem session_admits_authenticated:
  "(case session_handshake dialed authenticated pair True io of
      (out, Some h) \<Rightarrow> peer_hello_of dialed io = Some h \<and> hello_device_id h = authenticated \<and> length authenticated = 16 \<and>
         (\<exists>v. negotiate LOCAL_VERSIONS (hello_range h) = Inr v) \<and> events_of out = [SeEstablished h]
    | (out, None) \<Rightarrow> (\<exists>incompatible. events_of out = [SeHandshakeFailed incompatible] \<and>
         (incompatible \<longleftrightarrow> (\<exists>h e. peer_hello_of dialed io = Some h \<and> hello_device_id h = authenticated \<and>
            length authenticated = 16 \<and> negotiate LOCAL_VERSIONS (hello_range h) = Inl e)))) "
  by (auto simp: session_handshake_def device_id_from_slice_def events_of_def isl_def
      split: option.splits if_splits sum.splits) (metis sumE)+

text \<open>A session that ends closes its connection and reports the end once, as the last thing it does.\<close>

theorem session_ends_once:
  "session_run is s = (out, Inl r) \<Longrightarrow>
     \<exists>out'. out = out' @ [OutClose 0 ''bye'', OutEvent (SeClosed r)] \<and> (\<forall>q. OutEvent (SeClosed q) \<notin> set out')"
proof (induction "is" arbitrary: s out)
  case (Cons e "is")
  obtain env i where e: "e = (env, i)" by (cases e)
  obtain o1 res where step: "session_step env i s = (o1, res)" by (cases "session_step env i s")
  have quiet: "OutEvent (SeClosed q) \<notin> set o1" for q
    using step by (cases i; auto simp: session_control_cases on_session_cmd_def on_session_datagram_def on_probe_def
        Let_def case_prod_beta split: option.splits if_splits sum.splits SessionCmd.splits ProbeKind.splits)
  show ?case
  proof (cases res)
    case (Inl q)
    then show ?thesis using Cons.prems quiet by (auto simp: e step)
  next
    case (Inr s1)
    then obtain o2 where run: "session_run is s1 = (o2, Inl r)" "out = o1 @ o2"
      using Cons.prems by (cases "session_run is s1") (simp add: e step)
    from Cons.IH [OF run(1)] obtain out' where "o2 = out' @ [OutClose 0 ''bye'', OutEvent (SeClosed r)]"
      "\<forall>q. OutEvent (SeClosed q) \<notin> set out'" by blast
    then show ?thesis using run(2) quiet by (intro exI [of _ "o1 @ out'"]) auto
  qed
qed simp

end
