(* ===== verification/Network_Test.thy ===== *)
theory Network_Test
  imports Settings Engine_Errors
begin

text \<open>
  The network self-test: what is made of the echoes (\<open>nettest.rs\<close>), and the tests the engine has under way as
  initiator and responder (\<open>actor/network_test.rs\<close>). Probes and echoes travel through the transport; the
  echoes that arrived in each phase are arguments here, each with the round-trip time computed from it.
  Measured numbers are exact fractions where the code computes with f64, and times are milliseconds.
\<close>

section \<open>The plan\<close>

definition RESPONDER_WINDOW :: duration where "RESPONDER_WINDOW = from_secs 15"
definition READY_TIMEOUT :: duration where "READY_TIMEOUT = from_secs 3"

record TestPlan =
  tp_latency_probes :: u32
  tp_probe_interval :: duration
  tp_steps_kbps :: "u32 list"
  tp_step_duration :: duration
  tp_probe_bytes :: nat
  tp_linger :: duration

definition test_plan_default :: TestPlan where
  "test_plan_default =
     \<lparr>tp_latency_probes = 150, tp_probe_interval = from_millis 20, tp_steps_kbps = [128, 320, 640, 1100, 1600],
      tp_step_duration = from_millis 800, tp_probe_bytes = 1000, tp_linger = from_millis 400\<rparr>"

section \<open>Measurements\<close>

text \<open>An echo and when it arrived; a forged one from the future is not a measurement.\<close>

definition micros :: "duration \<Rightarrow> nat" where
  "micros d = d div 1000"

definition rtt_of :: "ProbeMsg \<times> instant \<Rightarrow> instant \<Rightarrow> u32 \<Rightarrow> rat option" where
  "rtt_of e epoch test_id =
     (let (p, received) = e
      in if pr_kind p \<noteq> Echo \<or> pr_test_id p \<noteq> test_id then None
         else if received < epoch then None
         else let arrived = micros (received - epoch) mod 2 ^ 64
              in if arrived < unat (pr_sent_us p) then None
                 else Some (of_nat (arrived - unat (pr_sent_us p)) / 1000))"

definition average_change :: "rat list \<Rightarrow> rat" where
  "average_change xs = sum_list (map2 (\<lambda>x y. \<bar>y - x\<bar>) xs (tl xs)) / of_nat (length xs - 1)"

definition pick :: "rat list \<Rightarrow> rat \<Rightarrow> rat" where
  "pick sorted_list p = sorted_list ! nat (round (of_nat (length sorted_list - 1) * p))"

definition summarize :: "u32 \<Rightarrow> rat list \<Rightarrow> rat \<times> rat \<times> rat \<times> rat" where
  "summarize sent rtts =
     (let n = of_nat (unat sent);
          loss = (if 0 < sent then max ((n - of_nat (length rtts)) / n * 100) 0 else 0)
      in if rtts = [] then (0, 0, 0, loss)
         else let sorted_list = sort rtts;
                  jitter = (if 1 < length rtts then average_change rtts else 0)
              in (pick sorted_list (1 / 2), pick sorted_list (19 / 20), jitter, loss))"

text \<open>The echoes that are measurements, with the probe each answers.\<close>

definition drain :: "(ProbeMsg \<times> instant) list \<Rightarrow> instant \<Rightarrow> u32 \<Rightarrow> (u32 \<times> rat) list" where
  "drain echoes epoch test_id =
     List.map_filter (\<lambda>e. map_option (Pair (pr_seq (fst e))) (rtt_of e epoch test_id)) echoes"

text \<open>The latency phase keeps the first round-trip time of each probe, of the probes it sent.\<close>

definition collect_rtts :: "(u32 \<times> rat) list \<Rightarrow> (u32, rat) bmap" where
  "collect_rtts echoes =
     fold (\<lambda>(seq, rtt) t. case map_of t seq of Some _ \<Rightarrow> t | None \<Rightarrow> bm_insert seq rtt t) echoes []"

definition latency_rtts :: "TestPlan \<Rightarrow> (u32 \<times> rat) list \<Rightarrow> rat list" where
  "latency_rtts plan echoes =
     map snd (filter (\<lambda>(seq, _). seq < tp_latency_probes plan) (collect_rtts echoes))"

text \<open>Probes per step: what fills the rate for the step's duration.\<close>

definition step_count :: "TestPlan \<Rightarrow> nat \<Rightarrow> u32 \<Rightarrow> nat" where
  "step_count plan sz kbps =
     (let per_sec = max (unat kbps * 1000 div 8 div sz) 1
      in nat \<lceil>of_nat per_sec * (of_nat (tp_step_duration plan) / 1000000000 :: rat)\<rceil>)"

definition delivered :: "nat \<Rightarrow> nat \<Rightarrow> u32 list \<Rightarrow> nat" where
  "delivered base n_probes seqs =
     length (remdups (filter (\<lambda>s. base \<le> unat s \<and> unat s < base + n_probes) seqs))"

text \<open>Steps of rising rate until one fails; \<open>echoes i\<close> are the sequence numbers echoed during step \<open>i\<close>. The
  result is the last rate that was delivered and the echoes counted. A step asks for 97 of 100 probes.\<close>

definition step_passes :: "TestPlan \<Rightarrow> nat \<Rightarrow> (nat \<Rightarrow> u32 list) \<Rightarrow> nat \<Rightarrow> u32 \<Rightarrow> bool" where
  "step_passes plan sz echoes i kbps \<longleftrightarrow>
     (let n_probes = step_count plan sz kbps
      in 97 * n_probes \<le> 100 * delivered (1000000 * (i + 1)) n_probes (echoes i))"


fun throughput ::
  "TestPlan \<Rightarrow> nat \<Rightarrow> (nat \<Rightarrow> u32 list) \<Rightarrow> nat \<Rightarrow> u32 list \<Rightarrow> u32 \<Rightarrow> nat \<Rightarrow> u32 \<times> nat" where
  "throughput plan sz echoes i [] achieved received = (achieved, received)"
| "throughput plan sz echoes i (kbps # steps) achieved received =
     (let got = received + delivered (1000000 * (i + 1)) (step_count plan sz kbps) (echoes i)
      in if step_passes plan sz echoes i kbps then throughput plan sz echoes (i + 1) steps kbps got
         else (achieved, got))"

section \<open>Recommendation\<close>

definition sat_mul32 :: "u32 \<Rightarrow> u32 \<Rightarrow> u32" where
  "sat_mul32 a b = word_of_nat (min (unat a * unat b) u32_max)"

definition OPUS_BITRATE_STEPS :: "u32 list" where
  "OPUS_BITRATE_STEPS = 
     [10000, 16000, 24000, 32000, 48000, 64000, 96000, 128000, 192000, 256000, 320000, 450000, 510000]"

record Recommendation =
  rc_latency :: LatencyMode
  rc_quality :: QualityMode
  rc_opus_bitrate :: u32
  rc_redundancy :: bool
  rc_tips :: "string list"

definition bitrate_within :: "u32 \<Rightarrow> u32" where
  "bitrate_within budget =
     (case filter (\<lambda>b. b \<le> budget) OPUS_BITRATE_STEPS of [] \<Rightarrow> hd OPUS_BITRATE_STEPS | b # bs \<Rightarrow> fold max bs b)"

definition recommend :: "rat \<Rightarrow> rat \<Rightarrow> rat \<Rightarrow> u32 \<Rightarrow> Recommendation" where
  "recommend rtt_p95 jitter loss achievable =
     (let latency = (if loss > 3 \<or> jitter > 20 \<or> rtt_p95 > 60 then ModeStable
                     else if loss > 1 / 2 \<or> jitter > 6 \<or> rtt_p95 > 15 then ModeBalanced
                     else ModeLowLatency);
          tips = (if loss > 3 then [''nettest.tip.loss''] else []) @
                 (if jitter > 20 then [''nettest.tip.jitter''] else []) @
                 (if rtt_p95 > 60 then [''nettest.tip.latency''] else []);
          budget = sat_mul32 achievable 1000 div 2;
          (quality, bitrate, tips) =
            (if 320 \<le> achievable then (QualityAuto, 128000, tips)
             else (QualityOpus, bitrate_within budget, tips @ [''nettest.tip.bandwidth'']));
          tips = tips @ (if 1600 \<le> achievable \<and> loss < 1 / 5 then [''nettest.tip.losslessOk''] else []);
          tips = (if tips = [] \<or> tips = [''nettest.tip.losslessOk''] then ''nettest.tip.good'' # tips else tips)
      in \<lparr>rc_latency = latency, rc_quality = quality, rc_opus_bitrate = bitrate, rc_redundancy = (loss > 1),
          rc_tips = tips\<rparr>)"

record NetworkReport =
  nr_transport :: string
  nr_rtt_ms :: rat
  nr_rtt_p95_ms :: rat
  nr_jitter_ms :: rat
  nr_loss_pct :: rat
  nr_achievable_kbps :: u32
  nr_max_datagram_bytes :: u32
  nr_probes_sent :: u32
  nr_probes_received :: u32
  nr_duration_ms :: u32
  nr_recommendation :: Recommendation

text \<open>The run of a test on the echoes of its two phases; \<open>sent\<close> counts the probes the transport took.\<close>

definition probe_size :: "TestPlan \<Rightarrow> nat" where
  "probe_size plan = clamp (tp_probe_bytes plan) 64 MAX_PROBE_LEN"

definition test_run ::
  "string \<Rightarrow> u32 \<Rightarrow> u32 \<Rightarrow> TestPlan \<Rightarrow> instant \<Rightarrow> (ProbeMsg \<times> instant) list \<Rightarrow>
     (nat \<Rightarrow> (ProbeMsg \<times> instant) list) \<Rightarrow> u32 \<Rightarrow> u32 \<Rightarrow> NetworkReport" where
  "test_run transport max_datagram test_id plan epoch echoes step_echoes sent duration_ms =
     (let rtts = latency_rtts plan (drain echoes epoch test_id);
          (rtt, p95, jitter, loss) = summarize (tp_latency_probes plan) rtts;
          (achievable, received) =
            (if loss < 30
             then throughput plan (probe_size plan) (\<lambda>i. map fst (drain (step_echoes i) epoch test_id)) 0
                    (tp_steps_kbps plan) 0 (length rtts)
             else (0, length rtts))
      in \<lparr>nr_transport = transport, nr_rtt_ms = rtt, nr_rtt_p95_ms = p95, nr_jitter_ms = jitter, nr_loss_pct = loss,
          nr_achievable_kbps = achievable, nr_max_datagram_bytes = max_datagram, nr_probes_sent = sent,
          nr_probes_received = word_of_nat received, nr_duration_ms = duration_ms,
          nr_recommendation = recommend p95 jitter loss achievable\<rparr>)"

section \<open>Tests under way\<close>

datatype TestPhase = AwaitingReady instant | TestRunning | TestFinished

datatype NetworkTestStatus = StatusRunning | StatusDone | StatusFailed | StatusCancelled

record NetTest =
  nt_test_id :: u32
  nt_phase :: TestPhase
  nt_started_unix :: nat
  nt_replies :: "nat list"
  nt_status :: NetworkTestStatus
  nt_report :: "NetworkReport option"
  nt_error :: "EngineError option"

text \<open>What a handler does outside: messages to a device's session, orders to its task, replies to callers, and
  the task that measures.\<close>

datatype TestOut =
    TestMsg DeviceId Body
  | TestSink DeviceId bool
  | TestArmEcho DeviceId u32 instant
  | TestReply nat "EngineError + NetworkReport"
  | TestSpawn DeviceId u32
  | TestAbort DeviceId u32

record NetTests =
  ns_tests :: "(DeviceId, NetTest) hmap"
  ns_next_id :: u32
  ns_out :: "TestOut list"

text \<open>The sessions and paired devices of the engine at the time of a call.\<close>

record TestEnv =
  te_now :: instant
  te_unix :: nat
  te_session :: "DeviceId \<Rightarrow> Hello option"
  te_paired :: "DeviceId \<Rightarrow> bool"

definition test_emit :: "TestOut list \<Rightarrow> NetTests \<Rightarrow> NetTests" where
  "test_emit out s = s\<lparr>ns_out := ns_out s @ out\<rparr>"

definition set_test :: "DeviceId \<Rightarrow> NetTest \<Rightarrow> NetTests \<Rightarrow> NetTests" where
  "set_test peer t s = s\<lparr>ns_tests := AList.update peer t (ns_tests s)\<rparr>"

definition begin_test :: "TestEnv \<Rightarrow> DeviceId \<Rightarrow> nat \<Rightarrow> NetTests \<Rightarrow> NetTests" where
  "begin_test env peer reply s =
     (let test_id = max (ns_next_id s + 1) 1;
          s1 = test_emit [TestMsg peer (BNetTestStart
                 \<lparr>nts_test_id = test_id, nts_duration_ms = word_of_nat (RESPONDER_WINDOW div 1000000)\<rparr>)]
                 (s\<lparr>ns_next_id := test_id\<rparr>)
      in set_test peer
           \<lparr>nt_test_id = test_id, nt_phase = AwaitingReady (te_now env + READY_TIMEOUT),
            nt_started_unix = te_unix env, nt_replies = [reply], nt_status = StatusRunning,
            nt_report = None, nt_error = None\<rparr> s1)"

definition start_network_test :: "TestEnv \<Rightarrow> DeviceId \<Rightarrow> nat \<Rightarrow> NetTests \<Rightarrow> NetTests" where
  "start_network_test env peer reply s =
     (case te_session env peer of
        None \<Rightarrow> test_emit [TestReply reply (Inl (if te_paired env peer then ErrUnreachable else ErrNotPaired))] s
      | Some hello \<Rightarrow>
          if \<not> capability_has (Capabilities (capabilities hello)) FEATURE_NETWORK_TEST
          then test_emit [TestReply reply (Inl ErrIncompatibleVersion)] s
          else
            (case map_of (ns_tests s) peer of
               Some t \<Rightarrow>
                 if nt_status t = StatusRunning then set_test peer (t\<lparr>nt_replies := nt_replies t @ [reply]\<rparr>) s
                 else begin_test env peer reply s
             | None \<Rightarrow> begin_test env peer reply s))"

definition finish_network_test ::
  "TestEnv \<Rightarrow> DeviceId \<Rightarrow> EngineError + NetworkReport \<Rightarrow> NetTests \<Rightarrow> NetTests" where
  "finish_network_test env peer res s =
     (case map_of (ns_tests s) peer of
        None \<Rightarrow> s
      | Some t \<Rightarrow>
          (let s1 = (if nt_phase t = TestRunning then test_emit [TestAbort peer (nt_test_id t)] s else s);
               t1 = t\<lparr>nt_phase := TestFinished, nt_replies := []\<rparr>;
               s2 = test_emit (map (\<lambda>r. TestReply r res) (nt_replies t)) s1;
               t2 = (case res of
                       Inr report \<Rightarrow> t1\<lparr>nt_status := StatusDone, nt_report := Some report, nt_error := None\<rparr>
                     | Inl e \<Rightarrow> t1\<lparr>nt_status := (if e = ErrCancelled then StatusCancelled else StatusFailed),
                                   nt_error := Some e\<rparr>);
               s3 = set_test peer t2 s2
           in case te_session env peer of
                Some _ \<Rightarrow> test_emit [TestSink peer False, TestMsg peer (BNetTestStop \<lparr>ntp_test_id = nt_test_id t\<rparr>)] s3
              | None \<Rightarrow> s3))"

definition on_net_test_ready :: "TestEnv \<Rightarrow> DeviceId \<Rightarrow> NetTestReady \<Rightarrow> NetTests \<Rightarrow> NetTests" where
  "on_net_test_ready env peer ready s =
     (case map_of (ns_tests s) peer of
        None \<Rightarrow> s
      | Some t \<Rightarrow>
          if nt_test_id t \<noteq> ntr_test_id ready \<or> \<not> (\<exists>d. nt_phase t = AwaitingReady d) then s
          else if \<not> ntr_accepted ready then finish_network_test env peer (Inl ErrPeerDenied) s
          else case te_session env peer of
                 None \<Rightarrow> s
               | Some _ \<Rightarrow> set_test peer (t\<lparr>nt_phase := TestRunning\<rparr>)
                             (test_emit [TestSink peer True, TestSpawn peer (nt_test_id t)] s))"

definition on_net_test_finished :: "TestEnv \<Rightarrow> DeviceId \<Rightarrow> u32 \<Rightarrow> NetworkReport \<Rightarrow> NetTests \<Rightarrow> NetTests" where
  "on_net_test_finished env peer test_id report s =
     (case map_of (ns_tests s) peer of
        Some t \<Rightarrow> if nt_test_id t = test_id \<and> nt_phase t = TestRunning
                  then finish_network_test env peer (Inr report) s else s
      | None \<Rightarrow> s)"

definition on_net_test_start :: "TestEnv \<Rightarrow> DeviceId \<Rightarrow> NetTestStart \<Rightarrow> NetTests \<Rightarrow> NetTests" where
  "on_net_test_start env peer start s =
     (case te_session env peer of
        None \<Rightarrow> s
      | Some _ \<Rightarrow>
          test_emit [TestArmEcho peer (nts_test_id start)
                       (te_now env + min (from_millis (unat (nts_duration_ms start))) RESPONDER_WINDOW),
                     TestMsg peer (BNetTestReady \<lparr>ntr_test_id = nts_test_id start, ntr_accepted = True\<rparr>)] s)"

definition on_net_test_stop :: "TestEnv \<Rightarrow> DeviceId \<Rightarrow> NetTestStop \<Rightarrow> NetTests \<Rightarrow> NetTests" where
  "on_net_test_stop env peer stop s =
     (case te_session env peer of
        Some _ \<Rightarrow> test_emit [TestArmEcho peer (ntp_test_id stop) (te_now env)] s
      | None \<Rightarrow> s)"

definition end_network_test :: "TestEnv \<Rightarrow> DeviceId \<Rightarrow> EngineError \<Rightarrow> NetTests \<Rightarrow> NetTests" where
  "end_network_test env peer e s =
     (case map_of (ns_tests s) peer of
        Some t \<Rightarrow> if nt_status t = StatusRunning then finish_network_test env peer (Inl e) s else s
      | None \<Rightarrow> s)"

definition cancel_network_test :: "TestEnv \<Rightarrow> DeviceId \<Rightarrow> NetTests \<Rightarrow> NetTests" where
  "cancel_network_test env peer s = end_network_test env peer ErrCancelled s"

definition ready_expired :: "instant \<Rightarrow> NetTest \<Rightarrow> bool" where
  "ready_expired now t \<longleftrightarrow> (case nt_phase t of AwaitingReady deadline \<Rightarrow> deadline < now | _ \<Rightarrow> False)"

definition tick_network_tests :: "TestEnv \<Rightarrow> NetTests \<Rightarrow> NetTests" where
  "tick_network_tests env s =
     fold (\<lambda>peer. finish_network_test env peer (Inl ErrUnreachable))
       (map fst (filter (\<lambda>(_, t). ready_expired (te_now env) t) (ns_tests s))) s"

definition forget_network_test :: "TestEnv \<Rightarrow> DeviceId \<Rightarrow> NetTests \<Rightarrow> NetTests" where
  "forget_network_test env peer s =
     (let s1 = end_network_test env peer ErrRevoked s in s1\<lparr>ns_tests := AList.delete peer (ns_tests s1)\<rparr>)"

text \<open>At shutdown the callers still waiting are not answered.\<close>

definition abort_network_tests :: "NetTests \<Rightarrow> NetTests" where
  "abort_network_tests s =
     (test_emit (map (\<lambda>(peer, t). TestAbort peer (nt_test_id t))
                  (filter (\<lambda>(_, t). nt_phase t = TestRunning) (ns_tests s))) s)\<lparr>ns_tests := []\<rparr>"

section \<open>What a report says\<close>

lemma collect_wf_from:
  "bm_wf t \<Longrightarrow> bm_wf (fold (\<lambda>(seq, rtt) t. case map_of t seq of Some _ \<Rightarrow> t | None \<Rightarrow> bm_insert seq rtt t) es t)"
proof (induction es arbitrary: t)
  case (Cons e es)
  obtain k v where e: "e = (k, v)" by (cases e)
  show ?case
  proof (cases "map_of t k")
    case None
    then show ?thesis using Cons.IH [OF bm_insert_wf [OF Cons.prems, of k v]] by (simp add: e)
  next
    case (Some w)
    then show ?thesis using Cons.IH [OF Cons.prems] by (simp add: e)
  qed
qed simp

lemma collect_keys_from:
  "set (map fst (fold (\<lambda>(seq, rtt) t. case map_of t seq of Some _ \<Rightarrow> t | None \<Rightarrow> bm_insert seq rtt t) es t)) =
     set (map fst t) \<union> fst ` set es"
proof (induction es arbitrary: t)
  case (Cons e es)
  obtain k v where e: "e = (k, v)" by (cases e)
  show ?case
  proof (cases "map_of t k")
    case None
    then show ?thesis using Cons.IH [of "bm_insert k v t"] keys_bm_insert [of k v t] by (auto simp: e)
  next
    case (Some w)
    then have "k \<in> set (map fst t)" by (metis map_of_SomeD image_eqI fst_conv set_map)
    then show ?thesis using Cons.IH [of t] Some by (auto simp: e)
  qed
qed simp

lemma collect_wf: "bm_wf (collect_rtts es)"
  unfolding collect_rtts_def by (rule collect_wf_from) simp

lemma collect_keys: "fst ` set (collect_rtts es) = fst ` set es"
  using collect_keys_from [of es "[]"] by (simp add: collect_rtts_def)

lemma length_distinct_keys: "distinct (map fst t) \<Longrightarrow> length t = card (fst ` set t)"
  by (metis distinct_card length_map set_map)

lemma keys_filter: "fst ` set (filter (\<lambda>(k, _). P k) t) = {k \<in> fst ` set t. P k}"
  by (induction t) auto

lemma length_latency_rtts:
  "length (latency_rtts plan es) = card {seq \<in> fst ` set es. seq < tp_latency_probes plan}"
proof -
  let ?t = "filter (\<lambda>(seq, _). seq < tp_latency_probes plan) (collect_rtts es)"
  have "distinct (map fst (collect_rtts es))" by (rule bm_wf_distinct [OF collect_wf])
  then have "distinct (map fst ?t)" by (rule distinct_map_filter)
  then have "length ?t = card (fst ` set ?t)" by (rule length_distinct_keys)
  also have "fst ` set ?t = {seq \<in> fst ` set es. seq < tp_latency_probes plan}"
    by (simp only: keys_filter collect_keys)
  finally show ?thesis by (simp add: latency_rtts_def)
qed

lemma card_below_word: "finite A \<Longrightarrow> card {s \<in> A. s < (n :: u32)} \<le> unat n"
proof -
  have "unat ` {s \<in> A. s < n} \<subseteq> {..<unat n}" by (auto simp: word_less_nat_alt)
  moreover have "inj_on unat {s \<in> A. s < n}" by (auto simp: inj_on_def word_unat_eq_iff)
  ultimately show ?thesis
    using card_mono [of "{..<unat n}" "unat ` {s \<in> A. s < n}"] by (simp add: card_image)
qed

lemma latency_bounded: "length (latency_rtts plan es) \<le> unat (tp_latency_probes plan)"
  by (simp add: length_latency_rtts card_below_word)

definition loss_fraction :: "nat \<Rightarrow> nat \<Rightarrow> rat" where
  "loss_fraction n got = (if n = 0 then 0 else (of_nat n - of_nat got) / of_nat n * 100)"

lemma loss_fraction_range:
  assumes "got \<le> n"
  shows "0 \<le> loss_fraction n got" "loss_fraction n got \<le> 100"
proof -
  show "0 \<le> loss_fraction n got" using assms unfolding loss_fraction_def by (auto intro!: mult_nonneg_nonneg divide_nonneg_nonneg)
  show "loss_fraction n got \<le> 100"
  proof (cases "n = 0")
    case False
    then have "(of_nat n - of_nat got) / of_nat n \<le> (1 :: rat)" by (simp add: divide_le_eq)
    then have "(of_nat n - of_nat got) / of_nat n * 100 \<le> 1 * (100 :: rat)" by (rule mult_right_mono) simp
    then show ?thesis using False by (simp only: loss_fraction_def if_False mult_1)
  qed (simp add: loss_fraction_def)
qed

lemma summarize_loss:
  assumes "length rtts \<le> unat sent"
  shows "snd (snd (snd (summarize sent rtts))) = loss_fraction (unat sent) (length rtts)"
proof (cases "sent = 0")
  case False
  then have "unat sent \<noteq> 0" by (simp add: unat_eq_0)
  then show ?thesis using False loss_fraction_range(1) [OF assms]
    by (simp add: summarize_def loss_fraction_def Let_def word_gt_0 del: of_nat_unat)
qed (use assms in \<open>simp add: summarize_def loss_fraction_def\<close>)

text \<open>The probes a test counts as echoed: those of its own with a believable echo.\<close>

definition echoed :: "(ProbeMsg \<times> instant) list \<Rightarrow> instant \<Rightarrow> u32 \<Rightarrow> u32 set" where
  "echoed echoes epoch test_id = {pr_seq p | p t. (p, t) \<in> set echoes \<and> rtt_of (p, t) epoch test_id \<noteq> None}"

lemma drain_keys: "fst ` set (drain echoes epoch test_id) = echoed echoes epoch test_id"
  by (force simp: drain_def echoed_def List.map_filter_def)

lemma test_run_fields:
  "nr_loss_pct (test_run tr md test_id plan epoch echoes steps sent ms) =
     snd (snd (snd (summarize (tp_latency_probes plan) (latency_rtts plan (drain echoes epoch test_id)))))"
  "nr_achievable_kbps (test_run tr md test_id plan epoch echoes steps sent ms) =
     (if nr_loss_pct (test_run tr md test_id plan epoch echoes steps sent ms) < 30
      then fst (throughput plan (probe_size plan) (\<lambda>i. map fst (drain (steps i) epoch test_id)) 0 (tp_steps_kbps plan) 0
              (length (latency_rtts plan (drain echoes epoch test_id)))) else 0)"
  by (simp_all add: test_run_def Let_def case_prod_beta)

text \<open>The loss a test reports is the share of its latency probes that no believable echo answered: echoes of
  another test, of an unknown kind, from the future, of a probe that was not sent, and repeated echoes of one
  probe change nothing. It lies between 0 and 100 percent.\<close>

theorem test_loss_counts:
  "nr_loss_pct (test_run tr md test_id plan epoch echoes steps sent ms) =
     loss_fraction (unat (tp_latency_probes plan))
       (card {seq \<in> echoed echoes epoch test_id. seq < tp_latency_probes plan}) \<and>
   0 \<le> nr_loss_pct (test_run tr md test_id plan epoch echoes steps sent ms) \<and>
   nr_loss_pct (test_run tr md test_id plan epoch echoes steps sent ms) \<le> 100"
  unfolding test_run_fields summarize_loss [OF latency_bounded]
  using loss_fraction_range [OF latency_bounded [of plan "drain echoes epoch test_id"]]
  by (simp add: length_latency_rtts drain_keys)

lemma throughput_reached:
  "fst (throughput plan sz echoes i steps achieved received) = achieved \<or>
   (\<exists>k < length steps. fst (throughput plan sz echoes i steps achieved received) = steps ! k \<and>
      (\<forall>j \<le> k. step_passes plan sz echoes (i + j) (steps ! j)))"
proof (induction steps arbitrary: i achieved received)
  case (Cons kbps steps)
  show ?case
  proof (cases "step_passes plan sz echoes i kbps")
    case True
    let ?got = "received + delivered (1000000 * (i + 1)) (step_count plan sz kbps) (echoes i)"
    have eq: "throughput plan sz echoes i (kbps # steps) achieved received = throughput plan sz echoes (i + 1) steps kbps ?got"
      using True by (simp add: Let_def)
    from Cons.IH [of "i + 1" kbps ?got] show ?thesis
    proof (elim disjE exE conjE)
      assume "fst (throughput plan sz echoes (i + 1) steps kbps ?got) = kbps"
      then show ?thesis unfolding eq using True by (intro disjI2 exI [of _ 0]) simp
    next
      fix k assume "k < length steps" "fst (throughput plan sz echoes (i + 1) steps kbps ?got) = steps ! k"
        and "\<forall>j\<le>k. step_passes plan sz echoes (i + 1 + j) (steps ! j)"
      then show ?thesis unfolding eq using True
        by (intro disjI2 exI [of _ "Suc k"]) (auto simp: nth_Cons less_Suc_eq_0_disj le_Suc_eq split: nat.splits)
    qed
  qed (simp add: Let_def)
qed simp

lemma throughput_counts: "received \<le> snd (throughput plan sz echoes i steps achieved received)"
  by (induction steps arbitrary: i achieved received) (auto simp: Let_def intro: order_trans [OF le_add1])

text \<open>The rate a test reports as achievable, when it is not 0, is one of the plan's, and each rate of the plan
  up to and including it had at least 97 of 100 of its own distinct probes echoed; a failing rate is never
  skipped. It is 0 when the latency phase lost 30 percent or more.\<close>

theorem test_achievable_delivered:
  "nr_achievable_kbps (test_run tr md test_id plan epoch echoes steps sent ms) = kbps \<Longrightarrow> kbps \<noteq> 0 \<Longrightarrow>
     nr_loss_pct (test_run tr md test_id plan epoch echoes steps sent ms) < 30 \<and>
     (\<exists>k < length (tp_steps_kbps plan). tp_steps_kbps plan ! k = kbps \<and>
        (\<forall>j \<le> k. let n = step_count plan (probe_size plan) (tp_steps_kbps plan ! j); base = 1000000 * (j + 1)
                in 97 * n \<le> 100 * card {s. base \<le> unat s \<and> unat s < base + n \<and> s \<in> echoed (steps j) epoch test_id}))"
proof -
  assume kbps: "nr_achievable_kbps (test_run tr md test_id plan epoch echoes steps sent ms) = kbps" and "kbps \<noteq> 0"
  let ?e = "\<lambda>i. map fst (drain (steps i) epoch test_id)"
  have low: "nr_loss_pct (test_run tr md test_id plan epoch echoes steps sent ms) < 30"
    using kbps \<open>kbps \<noteq> 0\<close> unfolding test_run_fields(2) by (simp split: if_splits)
  have "\<exists>k < length (tp_steps_kbps plan). kbps = tp_steps_kbps plan ! k \<and>
      (\<forall>j \<le> k. step_passes plan (probe_size plan) ?e (0 + j) (tp_steps_kbps plan ! j))"
    using throughput_reached [of plan "probe_size plan" ?e 0 "tp_steps_kbps plan" 0 "length (latency_rtts plan (drain echoes epoch test_id))"]
      kbps \<open>kbps \<noteq> 0\<close> low unfolding test_run_fields(2) by simp
  moreover have "delivered base n (?e j) = card {s. base \<le> unat s \<and> unat s < base + n \<and> s \<in> echoed (steps j) epoch test_id}"
    for base n j
  proof -
    have "delivered base n (?e j) = card (set (filter (\<lambda>s. base \<le> unat s \<and> unat s < base + n) (?e j)))"
      unfolding delivered_def by (simp only: length_remdups_card_conv)
    also have "set (filter (\<lambda>s. base \<le> unat s \<and> unat s < base + n) (?e j)) =
        {s. base \<le> unat s \<and> unat s < base + n \<and> s \<in> echoed (steps j) epoch test_id}"
      using drain_keys [of "steps j" epoch test_id] by auto
    finally show ?thesis .
  qed
  ultimately show ?thesis using low by (auto simp: step_passes_def Let_def)
qed

theorem test_achievable_delivered_witness:
  "\<exists>plan steps. tp_steps_kbps plan = [8, 16] \<and>
     nr_achievable_kbps (test_run ''quic'' 1100 1 plan 0 [] steps 3 500) = 8 \<and>
     unat (1000000 :: u32) = 1000000 \<and> (1000000 :: u32) \<in> echoed (steps 0) 0 1 \<and>
     nr_loss_pct (test_run ''quic'' 1100 1 plan 0 [] steps 3 500) < 30"
proof -
  let ?plan = "\<lparr>tp_latency_probes = 0, tp_probe_interval = 1, tp_steps_kbps = [8, 16], tp_step_duration = 1000000,
      tp_probe_bytes = 64, tp_linger = 0\<rparr>"
  let ?e = "\<lparr>pr_kind = Echo, pr_test_id = 1, pr_seq = 1000000, pr_sent_us = 0, pr_echo_us = 0\<rparr>"
  let ?steps = "\<lambda>i. if i = 0 then [(?e, 0)] else []"
  have one: "\<lceil>3 / 200 :: rat\<rceil> = 1" by (rule ceiling_unique) simp_all
  have ach: "nr_achievable_kbps (test_run ''quic'' 1100 1 ?plan 0 [] ?steps 3 500) = 8"
    by (simp add: test_run_def latency_rtts_def collect_rtts_def drain_def List.map_filter_def summarize_def rtt_of_def
        micros_def step_passes_def step_count_def delivered_def probe_size_def clamp_def media_consts Let_def one)
  from test_achievable_delivered [OF ach] have "nr_loss_pct (test_run ''quic'' 1100 1 ?plan 0 [] ?steps 3 500) < 30" by simp
  then show ?thesis using ach
    by (intro exI [of _ ?plan] exI [of _ ?steps]) (simp add: echoed_def rtt_of_def micros_def)
qed

section \<open>What a report recommends\<close>

lemma fold_max_in: "fold max bs (b :: 'a :: linorder) \<in> insert b (set bs)"
proof (induction bs arbitrary: b)
  case (Cons a bs)
  show ?case using Cons.IH [of "max a b"] by (auto simp: max_def split: if_splits)
qed simp

lemma bitrate_within_range:
  "bitrate_within budget \<in> set OPUS_BITRATE_STEPS"
  "bitrate_within budget \<le> budget \<or> bitrate_within budget = 10000"
proof -
  have "bitrate_within budget \<in> set OPUS_BITRATE_STEPS \<and> (bitrate_within budget \<le> budget \<or> bitrate_within budget = 10000)"
  proof (cases "filter (\<lambda>b. b \<le> budget) OPUS_BITRATE_STEPS")
    case Nil
    then show ?thesis by (simp add: bitrate_within_def OPUS_BITRATE_STEPS_def)
  next
    case (Cons b bs)
    have "fold max bs b \<in> {x \<in> set OPUS_BITRATE_STEPS. x \<le> budget}"
      unfolding set_filter [symmetric] Cons using fold_max_in [of bs b] by simp
    then show ?thesis unfolding bitrate_within_def Cons by (simp only: list.case mem_Collect_eq simp_thms)
  qed
  then show "bitrate_within budget \<in> set OPUS_BITRATE_STEPS"
    "bitrate_within budget \<le> budget \<or> bitrate_within budget = 10000" by auto
qed

lemma budget_half: "2 * unat (sat_mul32 achievable 1000 div 2) \<le> 1000 * unat achievable"
proof -
  have "unat (sat_mul32 achievable 1000) = min (unat achievable * 1000) u32_max"
    unfolding sat_mul32_def by (simp add: unat_of_nat take_bit_nat_eq_self_iff u32_max_def min_def del: word_of_nat_eq_iff)
  then show ?thesis by (simp add: unat_div)
qed

text \<open>The recommendation of a test is a bitrate the encoder offers and takes at most half of what the link
  delivered, unless it is the encoder's smallest; it always gives a tip, and says the link is good exactly when
  it names no problem.\<close>

theorem test_recommends_within_capacity:
  "let rc = recommend p95 jitter loss achievable
   in rc_opus_bitrate rc \<in> set OPUS_BITRATE_STEPS \<and>
      (2 * unat (rc_opus_bitrate rc) \<le> 1000 * unat achievable \<or> rc_opus_bitrate rc = 10000) \<and>
      rc_tips rc \<noteq> [] \<and>
      (''nettest.tip.good'' \<in> set (rc_tips rc) \<longleftrightarrow>
         set (rc_tips rc) \<subseteq> {''nettest.tip.good'', ''nettest.tip.losslessOk''})"
proof -
  let ?b = "bitrate_within (sat_mul32 achievable 1000 div 2)"
  have "?b = 10000 \<or> 2 * unat ?b \<le> 1000 * unat achievable"
    using bitrate_within_range(2) [of "sat_mul32 achievable 1000 div 2"] budget_half [of achievable]
    by (auto simp: word_le_nat_alt)
  moreover have "?b \<in> set OPUS_BITRATE_STEPS" by (rule bitrate_within_range)
  moreover have "(320 :: nat) \<le> unat achievable" if "320 \<le> achievable" using that by (simp add: word_le_nat_alt)
  moreover have "(128000 :: u32) \<in> set OPUS_BITRATE_STEPS" by (simp add: OPUS_BITRATE_STEPS_def)
  ultimately show ?thesis by (cases "320 \<le> achievable") (auto simp: recommend_def Let_def)
qed

section \<open>Every request is answered once\<close>

text \<open>A run of the handlers, each in the environment of its moment.\<close>

datatype TestOp =
    OpStart DeviceId nat
  | OpReady DeviceId NetTestReady
  | OpMeasured DeviceId u32 NetworkReport
  | OpPeerStart DeviceId NetTestStart
  | OpPeerStop DeviceId NetTestStop
  | OpCancel DeviceId
  | OpEnd DeviceId EngineError
  | OpTick
  | OpForget DeviceId

fun test_step :: "TestEnv \<times> TestOp \<Rightarrow> NetTests \<Rightarrow> NetTests" where
  "test_step (env, OpStart peer reply) = start_network_test env peer reply"
| "test_step (env, OpReady peer ready) = on_net_test_ready env peer ready"
| "test_step (env, OpMeasured peer test_id report) = on_net_test_finished env peer test_id report"
| "test_step (env, OpPeerStart peer start) = on_net_test_start env peer start"
| "test_step (env, OpPeerStop peer stop) = on_net_test_stop env peer stop"
| "test_step (env, OpCancel peer) = cancel_network_test env peer"
| "test_step (env, OpEnd peer e) = end_network_test env peer e"
| "test_step (env, OpTick) = tick_network_tests env"
| "test_step (env, OpForget peer) = forget_network_test env peer"

definition net_tests_new :: NetTests where
  "net_tests_new = \<lparr>ns_tests = [], ns_next_id = 0, ns_out = []\<rparr>"

definition test_trace :: "(TestEnv \<times> TestOp) list \<Rightarrow> NetTests" where
  "test_trace ops = fold test_step ops net_tests_new"

fun asked :: "TestEnv \<times> TestOp \<Rightarrow> nat list" where
  "asked (env, OpStart peer reply) = [reply]"
| "asked _ = []"

fun answer_of :: "TestOut \<Rightarrow> nat list" where
  "answer_of (TestReply r _) = [r]"
| "answer_of _ = []"

definition answers :: "NetTests \<Rightarrow> nat multiset" where
  "answers s = mset (concat (map answer_of (ns_out s)))"

definition waiting_replies :: "NetTests \<Rightarrow> nat multiset" where
  "waiting_replies s = mset (concat (map (nt_replies \<circ> snd) (ns_tests s)))"

text \<open>A test in the list: finished exactly when it no longer runs, with nobody waiting for it and the result
  its status promises.\<close>

fun test_ok :: "NetTest \<Rightarrow> bool" where
  "test_ok t \<longleftrightarrow>
     (nt_phase t = TestFinished \<longleftrightarrow> nt_status t \<noteq> StatusRunning) \<and>
     (nt_status t \<noteq> StatusRunning \<longrightarrow> nt_replies t = []) \<and>
     (case nt_status t of
        StatusRunning \<Rightarrow> nt_report t = None \<and> nt_error t = None
      | StatusDone \<Rightarrow> nt_report t \<noteq> None \<and> nt_error t = None
      | StatusFailed \<Rightarrow> nt_report t = None \<and> nt_error t \<noteq> None \<and> nt_error t \<noteq> Some ErrCancelled
      | StatusCancelled \<Rightarrow> nt_report t = None \<and> nt_error t = Some ErrCancelled)"

definition tests_ok :: "NetTests \<Rightarrow> bool" where
  "tests_ok s \<longleftrightarrow> distinct (map fst (ns_tests s)) \<and> (\<forall>(peer, t) \<in> set (ns_tests s). test_ok t)"

declare test_ok.simps [simp del]

lemma test_ok_lookup: "tests_ok s \<Longrightarrow> map_of (ns_tests s) peer = Some t \<Longrightarrow> test_ok t"
  unfolding tests_ok_def using map_of_SomeD by fastforce

lemma emit_ok [simp]: "tests_ok (test_emit out s) = tests_ok s"
  "ns_tests (test_emit out s) = ns_tests s" "waiting_replies (test_emit out s) = waiting_replies s"
  "ns_next_id (test_emit out s) = ns_next_id s"
  "answers (test_emit out s) = answers s + mset (concat (map answer_of out))"
  by (simp_all add: test_emit_def tests_ok_def waiting_replies_def answers_def)

lemma in_update: "e \<in> set (AList.update k v m) \<Longrightarrow> e = (k, v) \<or> e \<in> set m"
  by (induction m) (auto split: if_splits)

lemma set_test_ok [simp]: "tests_ok s \<Longrightarrow> test_ok t \<Longrightarrow> tests_ok (set_test peer t s)"
  unfolding tests_ok_def set_test_def
  by (auto simp: distinct_update dest!: in_update)

lemma set_test_fields [simp]: "answers (set_test peer t s) = answers s"
  "ns_tests (set_test peer t s) = AList.update peer t (ns_tests s)" "ns_next_id (set_test peer t s) = ns_next_id s"
  by (simp_all add: set_test_def answers_def)

lemma pending_update:
  "map_of m peer = Some t \<Longrightarrow>
     mset (concat (map (f \<circ> snd) (AList.update peer t' m))) + mset (f t) = mset (concat (map (f \<circ> snd) m)) + mset (f t')"
  by (induction m) auto

lemma pending_insert:
  "map_of m peer = None \<Longrightarrow>
     mset (concat (map (f \<circ> snd) (AList.update peer t' m))) = mset (concat (map (f \<circ> snd) m)) + mset (f t')"
  by (induction m) (auto split: if_splits)

lemma pending_delete:
  "distinct (map fst m) \<Longrightarrow> map_of m peer = Some t \<Longrightarrow>
     mset (concat (map (f \<circ> snd) m)) = mset (concat (map (f \<circ> snd) (AList.delete peer m))) + mset (f t)"
proof (induction m)
  case (Cons e m)
  show ?case
  proof (cases "fst e = peer")
    case True
    then have "map_of m peer = None" using Cons.prems by (auto simp: map_of_eq_None_iff)
    then show ?thesis using True Cons.prems by (cases e) (simp add: delete_absent)
  qed (use Cons in \<open>cases e; simp\<close>)
qed simp

lemma finish_other [simp]:
  "q \<noteq> peer \<Longrightarrow> map_of (ns_tests (finish_network_test env peer res s)) q = map_of (ns_tests s) q"
  by (auto simp: finish_network_test_def Let_def update_conv' split: option.splits sum.splits)

lemma finish_balance:
  assumes ok: "tests_ok s" and t: "map_of (ns_tests s) peer = Some t" "nt_status t = StatusRunning"
  shows "tests_ok (finish_network_test env peer res s)"
    "answers (finish_network_test env peer res s) + waiting_replies (finish_network_test env peer res s) = answers s + waiting_replies s"
    "\<exists>t'. map_of (ns_tests (finish_network_test env peer res s)) peer = Some t' \<and> nt_replies t' = []"
proof -
  define t' where "t' = (case res of
      Inr report \<Rightarrow> t\<lparr>nt_phase := TestFinished, nt_replies := [], nt_status := StatusDone, nt_report := Some report, nt_error := None\<rparr>
    | Inl e \<Rightarrow> t\<lparr>nt_phase := TestFinished, nt_replies := [],
                nt_status := (if e = ErrCancelled then StatusCancelled else StatusFailed), nt_error := Some e\<rparr>)"
  define out where "out = (if nt_phase t = TestRunning then [TestAbort peer (nt_test_id t)] else [])"
  define tail where "tail = (case te_session env peer of
      Some _ \<Rightarrow> [TestSink peer False, TestMsg peer (BNetTestStop \<lparr>ntp_test_id = nt_test_id t\<rparr>)] | None \<Rightarrow> [])"
  have nil: "test_emit [] s0 = s0" for s0 by (simp add: test_emit_def)
  have eq: "finish_network_test env peer res s =
      test_emit tail (set_test peer t' (test_emit (map (\<lambda>r. TestReply r res) (nt_replies t)) (test_emit out s)))"
    by (auto simp: finish_network_test_def t(1) t'_def out_def tail_def nil Let_def split: option.splits sum.splits)
  have ok': "test_ok t'" using test_ok_lookup [OF ok t(1)] t(2) by (auto simp: t'_def test_ok.simps split: sum.splits)
  have quiet: "concat (map answer_of tail) = []" "concat (map answer_of out) = []"
    by (auto simp: tail_def out_def split: option.splits)
  have replied: "concat (map answer_of (map (\<lambda>r. TestReply r res) rs)) = rs" for rs by (induction rs) auto
  have "nt_replies t' = []" by (simp add: t'_def split: sum.splits)
  show "tests_ok (finish_network_test env peer res s)" unfolding eq using ok ok' by simp
  show "answers (finish_network_test env peer res s) + waiting_replies (finish_network_test env peer res s) = answers s + waiting_replies s"
    using pending_update [OF t(1), of nt_replies t'] \<open>nt_replies t' = []\<close>
    unfolding eq emit_ok set_test_fields quiet replied by (simp add: waiting_replies_def ac_simps)
  show "\<exists>t'. map_of (ns_tests (finish_network_test env peer res s)) peer = Some t' \<and> nt_replies t' = []"
    unfolding eq using \<open>nt_replies t' = []\<close> by (simp add: update_conv')
qed

lemma set_running_balance:
  assumes "tests_ok s" "map_of (ns_tests s) peer = Some t" "test_ok t'"
  shows "waiting_replies (set_test peer t' s) + mset (nt_replies t) = waiting_replies s + mset (nt_replies t')"
  using pending_update [OF assms(2), of nt_replies t'] by (simp add: waiting_replies_def set_test_def)

lemma begin_balance:
  assumes ok: "tests_ok s" and idle: "\<And>t. map_of (ns_tests s) peer = Some t \<Longrightarrow> nt_status t \<noteq> StatusRunning"
  shows "tests_ok (begin_test env peer reply s)"
    "answers (begin_test env peer reply s) + waiting_replies (begin_test env peer reply s) = answers s + waiting_replies s + {#reply#}"
proof -
  have fields: "tests_ok (s\<lparr>ns_next_id := k\<rparr>) = tests_ok s" "answers (s\<lparr>ns_next_id := k\<rparr>) = answers s"
    "waiting_replies (s\<lparr>ns_next_id := k\<rparr>) = waiting_replies s" for k
    by (simp_all add: tests_ok_def answers_def waiting_replies_def)
  show "tests_ok (begin_test env peer reply s)" using ok by (simp add: begin_test_def Let_def fields test_ok.simps)
  have "waiting_replies (set_test peer t' s0) = waiting_replies s0 + {#reply#}"
    if "nt_replies t' = [reply]" "ns_tests s0 = ns_tests s" for t' s0
  proof (cases "map_of (ns_tests s) peer")
    case None
    then show ?thesis using pending_insert [OF None, of nt_replies t'] that by (simp add: waiting_replies_def)
  next
    case (Some t)
    then have "nt_replies t = []" using test_ok_lookup [OF ok Some] idle [OF Some] by (simp add: test_ok.simps)
    then show ?thesis using pending_update [OF Some, of nt_replies t'] that by (simp add: waiting_replies_def)
  qed
  then show "answers (begin_test env peer reply s) + waiting_replies (begin_test env peer reply s) = answers s + waiting_replies s + {#reply#}"
    by (simp add: begin_test_def Let_def fields)
qed

lemma end_balance:
  assumes ok: "tests_ok s"
  shows "tests_ok (end_network_test env peer e s) \<and>
     answers (end_network_test env peer e s) + waiting_replies (end_network_test env peer e s) = answers s + waiting_replies s \<and>
     (\<forall>t. map_of (ns_tests (end_network_test env peer e s)) peer = Some t \<longrightarrow> nt_replies t = [])"
proof (cases "\<exists>t. map_of (ns_tests s) peer = Some t \<and> nt_status t = StatusRunning")
  case True
  then obtain t where t: "map_of (ns_tests s) peer = Some t" "nt_status t = StatusRunning" by blast
  have eq: "end_network_test env peer e s = finish_network_test env peer (Inl e) s" by (simp add: end_network_test_def t)
  show ?thesis unfolding eq using finish_balance [OF ok t, of env "Inl e"] by auto
next
  case False
  then have eq: "end_network_test env peer e s = s" by (auto simp: end_network_test_def split: option.splits)
  show ?thesis unfolding eq using ok False test_ok_lookup [OF ok, of peer] by (auto simp: test_ok.simps)
qed

lemma tick_balance:
  assumes "tests_ok s" "distinct ps"
    and "\<And>p. p \<in> set ps \<Longrightarrow> \<exists>t. map_of (ns_tests s) p = Some t \<and> nt_status t = StatusRunning"
  shows "tests_ok (fold (\<lambda>p. finish_network_test env p res) ps s) \<and>
     answers (fold (\<lambda>p. finish_network_test env p res) ps s) + waiting_replies (fold (\<lambda>p. finish_network_test env p res) ps s)
       = answers s + waiting_replies s"
  using assms
proof (induction ps arbitrary: s)
  case (Cons p ps)
  obtain t where t: "map_of (ns_tests s) p = Some t" "nt_status t = StatusRunning" using Cons.prems(3) [of p] by auto
  note fin = finish_balance [OF Cons.prems(1) t, of env res]
  have "\<exists>t. map_of (ns_tests (finish_network_test env p res s)) q = Some t \<and> nt_status t = StatusRunning"
    if "q \<in> set ps" for q
    using that Cons.prems(2) Cons.prems(3) [of q] by (cases "q = p") auto
  then show ?case using Cons.IH [OF fin(1)] Cons.prems(2) fin(2) by simp
qed simp

lemma expired_running:
  assumes "tests_ok s" "p \<in> set (map fst (filter (\<lambda>(_, t). ready_expired now t) (ns_tests s)))"
  shows "\<exists>t. map_of (ns_tests s) p = Some t \<and> nt_status t = StatusRunning"
proof -
  obtain t where t: "(p, t) \<in> set (ns_tests s)" "ready_expired now t" using assms(2) by auto
  then have "map_of (ns_tests s) p = Some t" using assms(1) by (simp add: tests_ok_def)
  moreover have "nt_status t = StatusRunning"
    using test_ok_lookup [OF assms(1) calculation] t(2) by (auto simp: test_ok.simps ready_expired_def)
  ultimately show ?thesis by blast
qed

lemma forget_balance:
  assumes ok: "tests_ok s"
  shows "tests_ok (forget_network_test env peer s) \<and>
     answers (forget_network_test env peer s) + waiting_replies (forget_network_test env peer s) = answers s + waiting_replies s"
proof -
  define s1 where "s1 = end_network_test env peer ErrRevoked s"
  have s1: "tests_ok s1" "answers s1 + waiting_replies s1 = answers s + waiting_replies s"
    "\<And>t. map_of (ns_tests s1) peer = Some t \<Longrightarrow> nt_replies t = []"
    using end_balance [OF ok, of env peer ErrRevoked] by (auto simp: s1_def)
  let ?s2 = "s1\<lparr>ns_tests := AList.delete peer (ns_tests s1)\<rparr>"
  have ok2: "tests_ok ?s2" using s1(1) by (auto simp: tests_ok_def AList.delete_eq intro: distinct_map_filter)
  have "waiting_replies ?s2 = waiting_replies s1"
  proof (cases "map_of (ns_tests s1) peer")
    case None
    then show ?thesis by (simp add: waiting_replies_def delete_absent)
  next
    case (Some t)
    have "distinct (map fst (ns_tests s1))" using s1(1) by (simp add: tests_ok_def)
    from pending_delete [OF this Some, of nt_replies] show ?thesis using s1(3) [OF Some] by (simp add: waiting_replies_def)
  qed
  moreover have "answers ?s2 = answers s1" by (simp add: answers_def)
  ultimately show ?thesis using ok2 s1(2) by (simp add: forget_network_test_def s1_def Let_def)
qed

lemma start_balance:
  assumes ok: "tests_ok s"
  shows "tests_ok (start_network_test env peer reply s) \<and>
     answers (start_network_test env peer reply s) + waiting_replies (start_network_test env peer reply s)
       = answers s + waiting_replies s + {#reply#}"
proof -
  let ?fresh = "begin_test env peer reply s"
  have refused: "tests_ok (test_emit [TestReply reply (Inl e)] s) \<and> answers (test_emit [TestReply reply (Inl e)] s) +
      waiting_replies (test_emit [TestReply reply (Inl e)] s) = answers s + waiting_replies s + {#reply#}" for e
    using ok by simp
  have taken: "tests_ok (case map_of (ns_tests s) peer of
        Some t \<Rightarrow> if nt_status t = StatusRunning then set_test peer (t\<lparr>nt_replies := nt_replies t @ [reply]\<rparr>) s else ?fresh
      | None \<Rightarrow> ?fresh) \<and>
      answers (case map_of (ns_tests s) peer of
        Some t \<Rightarrow> if nt_status t = StatusRunning then set_test peer (t\<lparr>nt_replies := nt_replies t @ [reply]\<rparr>) s else ?fresh
      | None \<Rightarrow> ?fresh) +
      waiting_replies (case map_of (ns_tests s) peer of
        Some t \<Rightarrow> if nt_status t = StatusRunning then set_test peer (t\<lparr>nt_replies := nt_replies t @ [reply]\<rparr>) s else ?fresh
      | None \<Rightarrow> ?fresh) = answers s + waiting_replies s + {#reply#}"
  proof (cases "map_of (ns_tests s) peer")
    case None
    then show ?thesis using begin_balance [OF ok, of peer env reply] by simp
  next
    case (Some t)
    let ?t = "t\<lparr>nt_replies := nt_replies t @ [reply]\<rparr>"
    show ?thesis
    proof (cases "nt_status t = StatusRunning")
      case True
      then have "test_ok ?t" using test_ok_lookup [OF ok Some] by (simp add: test_ok.simps)
      then show ?thesis using ok Some True set_running_balance [OF ok Some, of ?t] by (simp add: ac_simps)
    qed (use begin_balance [OF ok, of peer env reply] Some in simp)
  qed
  show ?thesis unfolding start_network_test_def using refused taken by (cases "te_session env peer") simp_all
qed

lemma ready_balance:
  assumes ok: "tests_ok s"
  shows "tests_ok (on_net_test_ready env peer ready s) \<and>
     answers (on_net_test_ready env peer ready s) + waiting_replies (on_net_test_ready env peer ready s) = answers s + waiting_replies s"
proof (cases "map_of (ns_tests s) peer")
  case (Some t)
  note t = test_ok_lookup [OF ok Some]
  show ?thesis
  proof (cases "\<exists>d. nt_phase t = AwaitingReady d")
    case True
    then have run: "nt_status t = StatusRunning" using t by (auto simp: test_ok.simps)
    have t': "test_ok (t\<lparr>nt_phase := TestRunning\<rparr>)" using t run by (simp add: test_ok.simps)
    then show ?thesis
      using ok finish_balance [OF ok Some run, of env "Inl ErrPeerDenied"] set_running_balance [OF _ _ t', of _ peer t] Some
      by (auto simp: on_net_test_ready_def split: option.splits)
  qed (use ok Some in \<open>simp add: on_net_test_ready_def\<close>)
qed (use ok in \<open>simp add: on_net_test_ready_def\<close>)

lemma measured_balance:
  assumes ok: "tests_ok s"
  shows "tests_ok (on_net_test_finished env peer test_id report s) \<and>
     answers (on_net_test_finished env peer test_id report s) + waiting_replies (on_net_test_finished env peer test_id report s)
       = answers s + waiting_replies s"
proof (cases "\<exists>t. map_of (ns_tests s) peer = Some t \<and> nt_test_id t = test_id \<and> nt_phase t = TestRunning")
  case True
  then obtain t where t: "map_of (ns_tests s) peer = Some t" "nt_test_id t = test_id" "nt_phase t = TestRunning" by blast
  then have "nt_status t = StatusRunning" using test_ok_lookup [OF ok t(1)] by (auto simp: test_ok.simps)
  from finish_balance [OF ok t(1) this] show ?thesis by (simp add: on_net_test_finished_def t)
next
  case False
  then show ?thesis using ok by (auto simp: on_net_test_finished_def split: option.splits)
qed

lemma test_step_balance:
  assumes ok: "tests_ok s"
  shows "tests_ok (test_step e s) \<and> answers (test_step e s) + waiting_replies (test_step e s) = answers s + waiting_replies s + mset (asked e)"
proof -
  obtain env op1 where e: "e = (env, op1)" by (cases e)
  show ?thesis
  proof (cases op1)
    case OpTick
    have "distinct (map fst (filter (\<lambda>(_, t). ready_expired (te_now env) t) (ns_tests s)))"
      using ok unfolding tests_ok_def by (auto intro: distinct_map_filter)
    from tick_balance [OF ok this expired_running [OF ok]] show ?thesis by (simp add: e OpTick tick_network_tests_def)
  qed (use ok start_balance ready_balance measured_balance end_balance forget_balance in
        \<open>auto simp: e on_net_test_start_def on_net_test_stop_def cancel_network_test_def split: option.splits\<close>)
qed

lemma test_trace_balance:
  "tests_ok s \<Longrightarrow> tests_ok (fold test_step ops s) \<and>
     answers (fold test_step ops s) + waiting_replies (fold test_step ops s) = answers s + waiting_replies s + mset (concat (map asked ops))"
proof (induction ops arbitrary: s)
  case (Cons e ops)
  from test_step_balance [OF Cons.prems, of e] Cons.IH [of "test_step e s"] show ?case by (simp add: ac_simps)
qed simp

lemma test_trace_ok: "tests_ok (test_trace ops)"
  "answers (test_trace ops) + waiting_replies (test_trace ops) = mset (concat (map asked ops))"
  using test_trace_balance [of net_tests_new ops]
  by (simp_all add: test_trace_def net_tests_new_def tests_ok_def answers_def waiting_replies_def)

text \<open>C24: However requests, readiness answers, measurements, cancellations, disconnects, ticks and revocations
  interleave, every request for a network test is answered exactly once or still waits on a test that runs:
  the answers given and the requests waiting are together exactly the requests made. A test that ended has
  nobody waiting and holds the report or the error its status promises. (The shutdown of the engine, which aborts
  all tests and drops whoever waits, is not one of the steps.)\<close>

theorem test_requests_answered:
  "answers (test_trace ops) + waiting_replies (test_trace ops) = mset (concat (map asked ops)) \<and>
   (\<forall>(peer, t) \<in> set (ns_tests (test_trace ops)). (nt_replies t = [] \<or> nt_status t = StatusRunning) \<and>
      (nt_status t = StatusDone \<longleftrightarrow> nt_report t \<noteq> None) \<and>
      (nt_status t = StatusCancelled \<longleftrightarrow> nt_error t = Some ErrCancelled))"
  using test_trace_ok [of ops] unfolding tests_ok_def
  by (fastforce simp: test_ok.simps split: NetworkTestStatus.splits)

theorem test_requests_answered_witness:
  "\<exists>ops :: (TestEnv \<times> TestOp) list. concat (map asked ops) = [7] \<and> answers (test_trace ops) = {#7#}"
proof -
  let ?ops = "[(\<lparr>te_now = 0, te_unix = 0, te_session = \<lambda>_. None, te_paired = \<lambda>_. False\<rparr>, OpStart [] 7)]"
  have "waiting_replies (test_trace ?ops) = {#}"
    by (simp add: test_trace_def start_network_test_def) (simp add: waiting_replies_def net_tests_new_def)
  then show ?thesis using test_requests_answered [of ?ops] by (intro exI [of _ ?ops]) simp
qed

lemma emit_grows: "set (ns_out s) \<subseteq> set (ns_out (test_emit out s))"
  by (simp add: test_emit_def)

lemma finish_grows: "set (ns_out s) \<subseteq> set (ns_out (finish_network_test env peer res s))"
  by (auto simp: finish_network_test_def test_emit_def set_test_def Let_def split: option.splits)

lemma finish_all:
  "peer \<notin> set ps \<Longrightarrow> map_of (ns_tests (fold (\<lambda>p. finish_network_test env p res) ps s)) peer = map_of (ns_tests s) peer"
  "set (ns_out s) \<subseteq> set (ns_out (fold (\<lambda>p. finish_network_test env p res) ps s))"
  by (induction ps arbitrary: s) (auto dest: finish_grows [THEN subsetD])

lemma finish_result:
  assumes "map_of (ns_tests s) peer = Some t"
  shows "\<exists>t'. map_of (ns_tests (finish_network_test env peer (Inl ErrUnreachable) s)) peer = Some t' \<and>
      nt_status t' = StatusFailed \<and> nt_replies t' = [] \<and> nt_error t' = Some ErrUnreachable"
    "r \<in> set (nt_replies t) \<Longrightarrow>
       TestReply r (Inl ErrUnreachable) \<in> set (ns_out (finish_network_test env peer (Inl ErrUnreachable) s))"
  using assms by (auto simp: finish_network_test_def test_emit_def set_test_def Let_def update_conv' split: option.splits)

text \<open>A test the peer never got ready for fails at the first tick after its deadline: the callers waiting are told
  that the peer cannot be reached, and none of them waits any longer.\<close>

theorem test_ready_timeout:
  assumes "map_of (ns_tests (test_trace ops)) peer = Some t" "nt_phase t = AwaitingReady deadline" "deadline < te_now env"
  shows "let s = tick_network_tests env (test_trace ops)
         in (\<exists>t'. map_of (ns_tests s) peer = Some t' \<and> nt_status t' = StatusFailed \<and> nt_replies t' = [] \<and>
               nt_error t' = Some ErrUnreachable) \<and>
            (\<forall>r \<in> set (nt_replies t). TestReply r (Inl ErrUnreachable) \<in> set (ns_out s))"
proof -
  let ?s = "test_trace ops"
  let ?ps = "map fst (filter (\<lambda>(_, t). ready_expired (te_now env) t) (ns_tests ?s))"
  have "distinct ?ps" using test_trace_ok(1) [of ops] unfolding tests_ok_def by (auto intro: distinct_map_filter)
  moreover have "(peer, t) \<in> set (filter (\<lambda>(_, t). ready_expired (te_now env) t) (ns_tests ?s))"
    using assms map_of_SomeD by (fastforce simp: ready_expired_def)
  then have "peer \<in> set ?ps" by (metis fst_conv image_eqI set_map)
  ultimately obtain ps qs where split: "?ps = ps @ peer # qs" "peer \<notin> set ps" "peer \<notin> set qs"
    by (metis distinct_append disjoint_iff distinct.simps(2) list.set_intros(1) split_list)
  define s1 where "s1 = fold (\<lambda>p. finish_network_test env p (Inl ErrUnreachable)) ps ?s"
  have t: "map_of (ns_tests s1) peer = Some t" using assms(1) finish_all(1) [OF split(2)] by (simp add: s1_def)
  have run: "tick_network_tests env ?s = fold (\<lambda>p. finish_network_test env p (Inl ErrUnreachable)) qs
      (finish_network_test env peer (Inl ErrUnreachable) s1)"
    unfolding tick_network_tests_def split(1) by (simp add: s1_def)
  show ?thesis
    unfolding run Let_def finish_all(1) [OF split(3)]
    using finish_result [OF t] finish_all(2) [THEN subsetD] by blast
qed


theorem test_ready_timeout_witness:
  "\<exists>ops env. concat (map asked ops) = [7] \<and>
     TestReply 7 (Inl ErrUnreachable) \<in> set (ns_out (tick_network_tests env (test_trace ops)))"
proof -
  let ?hello = "\<lparr>protocol_min = 1, protocol_max = 1, app_version = [], hello_device_id = [], device_name = [],
      hello_platform = 0, capabilities = FEATURE_NETWORK_TEST, resume_token = None, hello_endpoints = []\<rparr>"
  let ?env = "\<lparr>te_now = 0, te_unix = 0, te_session = \<lambda>_. Some ?hello, te_paired = \<lambda>_. True\<rparr>"
  let ?ops = "[(?env, OpStart [] 7)]"
  let ?t = "\<lparr>nt_test_id = 1, nt_phase = AwaitingReady READY_TIMEOUT, nt_started_unix = 0, nt_replies = [7],
      nt_status = StatusRunning, nt_report = None, nt_error = None\<rparr>"
  have "map_of (ns_tests (test_trace ?ops)) [] = Some ?t"
    by (simp add: test_trace_def start_network_test_def begin_test_def net_tests_new_def capability_has_def Let_def)
  from test_ready_timeout [OF this, of READY_TIMEOUT "?env\<lparr>te_now := READY_TIMEOUT + 1\<rparr>"]
  have "TestReply 7 (Inl ErrUnreachable) \<in>
      set (ns_out (tick_network_tests (?env\<lparr>te_now := READY_TIMEOUT + 1\<rparr>) (test_trace ?ops)))"
    by (simp add: Let_def)
  moreover have "concat (map asked ?ops) = [7]" by simp
  ultimately show ?thesis by blast
qed

end
