(* ===== verification/Security_Log.thy ===== *)
theory Security_Log
  imports Engine_State "HOL-Library.Countable"
begin

text \<open>
  The security log (\<open>audit.rs\<close>): the entries kept in memory, oldest first, and the file of JSON lines that
  records are appended to and that is rewritten when it is loaded with lines to drop or grows to twice the
  limit. Strings are UTF-8 bytes. The JSON library is an argument (\<open>LogSerde\<close>), and so is what the file system
  does (\<open>LogIo\<close>): an append may fail after any number of bytes.
\<close>

section \<open>Entries\<close>

definition MAX_ENTRIES :: nat where "MAX_ENTRIES = 1000"
definition RETENTION_SECS :: nat where "RETENTION_SECS = 30 * 24 * 3600"
definition MAX_FIELD_CHARS :: nat where "MAX_FIELD_CHARS = 128"

record AuditEntry =
  ae_time_unix :: nat
  ae_kind :: AuditKind
  ae_peer_name :: bytes
  ae_peer_code :: bytes
  ae_route :: "RouteKind option"
  ae_detail :: bytes

definition audit_entry :: "nat \<Rightarrow> AuditKind \<Rightarrow> AuditEntry" where
  "audit_entry time kind =
     \<lparr>ae_time_unix = time, ae_kind = kind, ae_peer_name = [], ae_peer_code = [], ae_route = None, ae_detail = []\<rparr>"

definition permission_name :: "PermissionKind \<Rightarrow> string" where
  "permission_name k =
     (case k of ReceiveMyAudio \<Rightarrow> ''receiveMyAudio'' | UseMyMicrophone \<Rightarrow> ''useMyMicrophone''
      | SendAudioToMe \<Rightarrow> ''sendAudioToMe'' | ControlMe \<Rightarrow> ''controlMe'')"

definition policy_name :: "Policy \<Rightarrow> string" where
  "policy_name p = (case p of Allow \<Rightarrow> ''allow'' | Ask \<Rightarrow> ''ask'' | Deny \<Rightarrow> ''deny'')"

text \<open>\<open>char::is_control\<close>: U+0000 to U+001F and U+007F to U+009F.\<close>

fun is_control_char :: "bytes \<Rightarrow> bool" where
  "is_control_char [b] = (b < 32 \<or> b = 127)"
| "is_control_char [a, b] = (a = 194 \<and> 128 \<le> b \<and> b < 160)"
| "is_control_char _ = False"

function strip_controls :: "bytes \<Rightarrow> bytes" where
  "strip_controls bs =
     (let w = utf8_width bs
      in if w = 0 then []
         else (if is_control_char (take w bs) then [] else take w bs) @ strip_controls (drop w bs))"
  by pat_completeness auto
termination
proof (relation "measure length")
  show "(drop w bs, bs) \<in> measure length" if "w = utf8_width bs" "w \<noteq> 0" for bs w
    using that by (cases bs) auto
qed simp

declare strip_controls.simps [simp del]

definition clip :: "bytes \<Rightarrow> bytes" where
  "clip text_bytes = take_chars MAX_FIELD_CHARS (strip_controls text_bytes)"

section \<open>Lines of a file\<close>

text \<open>\<open>str::lines\<close>: a line ends before its line feed, and before a carriage return in front of that.\<close>

definition strip_cr :: "bytes \<Rightarrow> bytes" where
  "strip_cr l = (if l \<noteq> [] \<and> last l = 13 then butlast l else l)"

function str_lines :: "bytes \<Rightarrow> bytes list" where
  "str_lines bs =
     (if bs = [] then []
      else let l = takeWhile (\<lambda>b. b \<noteq> 10) bs
           in if length l = length bs then [l] else strip_cr l # str_lines (drop (Suc (length l)) bs))"
  by pat_completeness auto
termination
  by (relation "measure length") auto

declare str_lines.simps [simp del]

text \<open>\<open>String::from_utf8_lossy\<close>: each longest start of a character that is not one becomes U+FFFD. Line ends are
  characters of their own, so the lines of the repaired text are the repaired lines.\<close>

definition bad_width :: "bytes \<Rightarrow> nat" where
  "bad_width bs =
     (case bs of
        b # c # r \<Rightarrow>
          if lead_width b < 2 \<or> \<not> is_cont c \<or> \<not> second_ok b c then 1
          else 2 + length (takeWhile is_cont (take (lead_width b - 2) r))
      | _ \<Rightarrow> 1)"

function from_utf8_lossy :: "bytes \<Rightarrow> bytes" where
  "from_utf8_lossy bs =
     (if bs = [] then []
      else if 0 < utf8_width bs then take (utf8_width bs) bs @ from_utf8_lossy (drop (utf8_width bs) bs)
      else [239, 191, 189] @ from_utf8_lossy (drop (bad_width bs) bs))"
  by pat_completeness auto
termination
  by (relation "measure length") (auto simp: bad_width_def split: list.splits)

declare from_utf8_lossy.simps [simp del]

definition log_lines :: "bytes \<Rightarrow> bytes list" where
  "log_lines file = filter (\<lambda>l. trim l \<noteq> []) (map from_utf8_lossy (str_lines file))"

section \<open>The log\<close>

record LogSerde =
  entry_from_str :: "bytes \<Rightarrow> AuditEntry option"
  entry_to_string :: "AuditEntry \<Rightarrow> bytes option"

text \<open>What the file system does in a call: the atomic write, whether the file can be read, the bytes an append
  writes before it fails, and whether the file can be removed.\<close>

record LogIo =
  li_file :: IoChoice
  li_append_fails :: "nat option"
  li_remove_fails :: bool

record AuditLog =
  al_entries :: "AuditEntry list"
  al_max_entries :: nat
  al_lines_on_disk :: nat

definition AUDIT_PATH :: Path where
  "AUDIT_PATH = Path ''audit'' (Some ''log'')"

text \<open>The newest \<open>n\<close>: what is left when the front is popped while there are more.\<close>

definition keep_last :: "nat \<Rightarrow> 'a list \<Rightarrow> 'a list" where
  "keep_last n xs = drop (length xs - n) xs"

definition cutoff :: "nat \<Rightarrow> nat" where
  "cutoff now = now - RETENTION_SECS"

definition entry_line :: "bytes \<Rightarrow> bytes" where
  "entry_line l = l @ [10]"

definition log_compact :: "LogSerde \<Rightarrow> LogIo \<Rightarrow> AuditLog \<Rightarrow> Files \<Rightarrow> AuditLog \<times> Files" where
  "log_compact j io lg files =
     (case write_atomic (li_file io) AUDIT_PATH
             (concat (map entry_line (List.map_filter (entry_to_string j) (al_entries lg)))) files of
        (Inr _, files') \<Rightarrow> (lg\<lparr>al_lines_on_disk := length (al_entries lg)\<rparr>, files')
      | (Inl _, files') \<Rightarrow> (lg, files'))"

definition log_open :: "LogSerde \<Rightarrow> LogIo \<Rightarrow> nat \<Rightarrow> nat \<Rightarrow> Files \<Rightarrow> AuditLog \<times> Files" where
  "log_open j io now max_entries files =
     (let text_bytes = (if io_read_fails (li_file io) then [] else case files AUDIT_PATH of None \<Rightarrow> [] | Some bs \<Rightarrow> bs);
          lines = log_lines text_bytes;
          fresh = filter (\<lambda>e. cutoff now \<le> ae_time_unix e) (List.map_filter (entry_from_str j) lines);
          entries = fold (\<lambda>e es. let es = es @ [e] in if max_entries < length es then tl es else es) fresh [];
          lg = \<lparr>al_entries = entries, al_max_entries = max_entries, al_lines_on_disk = length lines\<rparr>
      in if length lines \<noteq> length entries then log_compact j io lg files else (lg, files))"

definition append_line :: "LogIo \<Rightarrow> bytes \<Rightarrow> AuditLog \<Rightarrow> Files \<Rightarrow> AuditLog \<times> Files" where
  "append_line io line lg files =
     (let old = (case files AUDIT_PATH of None \<Rightarrow> [] | Some bs \<Rightarrow> bs)
      in case li_append_fails io of
           None \<Rightarrow> (lg\<lparr>al_lines_on_disk := al_lines_on_disk lg + 1\<rparr>, files(AUDIT_PATH \<mapsto> old @ entry_line line))
         | Some n \<Rightarrow> (lg, if n = 0 then files else files(AUDIT_PATH \<mapsto> old @ take n (entry_line line))))"

definition log_record :: "LogSerde \<Rightarrow> LogIo \<Rightarrow> AuditEntry \<Rightarrow> AuditLog \<Rightarrow> Files \<Rightarrow> AuditLog \<times> Files" where
  "log_record j io entry0 lg files =
     (let entry = entry0\<lparr>ae_peer_name := clip (ae_peer_name entry0), ae_detail := clip (ae_detail entry0)\<rparr>;
          kept = dropWhile (\<lambda>e. ae_time_unix e < cutoff (ae_time_unix entry)) (al_entries lg)
      in case entry_to_string j entry of
           None \<Rightarrow> (lg\<lparr>al_entries := kept\<rparr>, files)
         | Some line \<Rightarrow>
             (let log1 = lg\<lparr>al_entries := keep_last (al_max_entries lg) (kept @ [entry])\<rparr>
              in if 2 * al_max_entries lg \<le> al_lines_on_disk lg + 1 then log_compact j io log1 files
                 else append_line io line log1 files))"

definition log_entries :: "AuditLog \<Rightarrow> AuditEntry list" where
  "log_entries lg = rev (al_entries lg)"

definition log_clear :: "LogSerde \<Rightarrow> LogIo \<Rightarrow> nat \<Rightarrow> AuditLog \<Rightarrow> Files \<Rightarrow> bool \<times> AuditLog \<times> Files" where
  "log_clear j io now lg files =
     (if files AUDIT_PATH \<noteq> None \<and> li_remove_fails io then (False, lg, files)
      else (True, log_record j io (audit_entry now LogCleared) (lg\<lparr>al_entries := [], al_lines_on_disk := 0\<rparr>)
                    (files(AUDIT_PATH := None))))"

section \<open>Clipped fields\<close>

lemma take_width_valid: "0 < utf8_width bs \<Longrightarrow> utf8_valid (take (utf8_width bs) bs)"
  using utf8_width_take [of bs, OF _ order_refl] utf8_width_le [of bs] by (subst utf8_valid.simps) simp

lemma strip_controls_valid: "utf8_valid (strip_controls bs)"
proof (induction bs rule: strip_controls.induct)
  case (1 bs)
  then show ?case
    by (subst strip_controls.simps) (auto simp: Let_def intro!: utf8_valid_append take_width_valid)
qed

lemma clip_valid: "utf8_valid (clip bs)" "char_count (clip bs) \<le> MAX_FIELD_CHARS"
  unfolding clip_def by (rule take_chars_valid [OF strip_controls_valid], rule take_chars_count)

text \<open>No line feed is left to break a line of the file.\<close>

lemma width_one: "b < 128 \<Longrightarrow> utf8_width (b # bs) = 1"
  by (simp add: utf8_width.simps(2) char_ok_def lead_width_def)

lemma low_byte_first:
  assumes "0 < utf8_width bs" "b \<in> set (take (utf8_width bs) bs)" "b < 128"
  shows "take (utf8_width bs) bs = [b]"
proof -
  obtain a t r where bs: "bs = a # t @ r" "char_ok a t" "utf8_width bs = Suc (length t)"
    using assms(1) utf8_width_pos by blast
  have "\<forall>c \<in> set t. \<not> c < 128" using bs(2) by (auto simp: char_ok_def list_all_iff is_cont_def)
  then have "b = a" using assms(2, 3) bs(1, 3) by auto
  moreover from this have "t = []" using bs width_one [of a "t @ r"] assms(3) by simp
  ultimately show ?thesis using bs by simp
qed

lemma strip_controls_no_control: "b \<in> set (strip_controls bs) \<Longrightarrow> 32 \<le> b \<and> b \<noteq> 127"
proof (induction bs rule: strip_controls.induct)
  case (1 bs)
  have low: "32 \<le> b \<and> b \<noteq> 127" if w: "0 < utf8_width bs" "\<not> is_control_char (take (utf8_width bs) bs)"
    and b: "b \<in> set (take (utf8_width bs) bs)"
  proof (cases "b < 128")
    case True
    then show ?thesis using w(2) low_byte_first [OF w(1) b] by (simp add: not_less)
  qed (auto simp: not_less intro: order_trans [of _ 128])
  show ?case
    using 1 low by (subst (asm) strip_controls.simps) (auto simp: Let_def split: if_splits)
qed

lemma clip_no_control: "b \<in> set (clip bs) \<Longrightarrow> 32 \<le> b \<and> b \<noteq> 127"
  unfolding clip_def
  using strip_controls_no_control [of b bs] set_mono_prefix [OF take_chars_prefix [of MAX_FIELD_CHARS "strip_controls bs"]]
  by blast

section \<open>Reading what was written\<close>

lemma str_lines_entry:
  assumes "10 \<notin> set l"
  shows "str_lines (entry_line l @ rest) = strip_cr l # str_lines rest"
proof -
  have "takeWhile (\<lambda>b. b \<noteq> 10) (entry_line l @ rest) = l"
    using assms by (auto simp: entry_line_def takeWhile_append)
  then show ?thesis by (subst str_lines.simps) (simp add: entry_line_def)
qed

lemma str_lines_append: "whole = [] \<or> last whole = 10 \<Longrightarrow> str_lines (whole @ rest) = str_lines whole @ str_lines rest"
proof (induction whole rule: str_lines.induct)
  case (1 bs)
  show ?case
  proof (cases "bs = []")
    case False
    let ?l = "takeWhile (\<lambda>b. b \<noteq> 10) bs"
    have "10 \<in> set bs" using 1 False last_in_set by fastforce
    then have len: "length ?l < length bs" by (induction bs) auto
    then have hd: "bs ! length ?l = 10" using nth_length_takeWhile [of "\<lambda>b. b \<noteq> 10" bs] by simp
    have split: "bs = entry_line ?l @ drop (Suc (length ?l)) bs"
      unfolding entry_line_def using hd len
      by (metis Cons_nth_drop_Suc append.assoc append_Cons append_Nil append_eq_conv_conj takeWhile_eq_take)
    have whole: "drop (Suc (length ?l)) bs = [] \<or> last (drop (Suc (length ?l)) bs) = 10"
      using 1(2) False by (cases "Suc (length ?l) < length bs") (auto simp: last_drop)
    have none: "10 \<notin> set ?l" by (auto dest: set_takeWhileD)
    have "str_lines (bs @ rest) = strip_cr ?l # str_lines (drop (Suc (length ?l)) bs @ rest)"
      using str_lines_entry [OF none, of "drop (Suc (length ?l)) bs @ rest"] split by (metis append.assoc)
    also have "\<dots> = strip_cr ?l # str_lines (drop (Suc (length ?l)) bs) @ str_lines rest"
      using 1(1) [OF False refl _ whole] len by simp
    also have "\<dots> = str_lines bs @ str_lines rest"
      using str_lines_entry [OF none, of "drop (Suc (length ?l)) bs"] split by (metis append_Cons)
    finally show ?thesis .
  qed (simp add: str_lines.simps)
qed

lemma lossy_valid: "utf8_valid bs \<Longrightarrow> from_utf8_lossy bs = bs"
proof (induction bs rule: from_utf8_lossy.induct)
  case (1 bs)
  show ?case
  proof (cases "bs = []")
    case False
    then have "0 < utf8_width bs" "utf8_valid (drop (utf8_width bs) bs)" using 1(3) utf8_valid_drop_first by auto
    then show ?thesis using 1(1) False by (subst from_utf8_lossy.simps) simp
  qed (simp add: from_utf8_lossy.simps)
qed

text \<open>A text that can be a line.\<close>

definition line_ok :: "bytes \<Rightarrow> bool" where
  "line_ok l \<longleftrightarrow> utf8_valid l \<and> 10 \<notin> set l \<and> 13 \<notin> set l \<and> trim l \<noteq> []"

lemma log_lines_append:
  assumes "line_ok l" "whole = [] \<or> last whole = 10"
  shows "log_lines (whole @ entry_line l) = log_lines whole @ [l]"
proof -
  have "strip_cr l = l" using assms(1) last_in_set by (fastforce simp: line_ok_def strip_cr_def)
  then have "str_lines (entry_line l) = [l]"
    using str_lines_entry [of l "[]"] assms(1) by (simp add: line_ok_def str_lines.simps [of "[]"])
  then show ?thesis using assms by (simp add: log_lines_def str_lines_append line_ok_def lossy_valid)
qed

lemma log_lines_concat:
  "list_all line_ok ls \<Longrightarrow> log_lines (concat (map entry_line ls)) = ls \<and>
     (concat (map entry_line ls) = [] \<or> last (concat (map entry_line ls)) = 10)"
proof (induction ls rule: rev_induct)
  case Nil
  then show ?case by (simp add: log_lines_def str_lines.simps)
next
  case (snoc l ls)
  then have "log_lines (concat (map entry_line ls) @ entry_line l) = ls @ [l]"
    using log_lines_append [of l "concat (map entry_line ls)"] by simp
  moreover have "concat (map entry_line (ls @ [l])) = concat (map entry_line ls) @ entry_line l" by simp
  moreover have "last (concat (map entry_line ls) @ entry_line l) = 10" by (simp add: entry_line_def)
  ultimately show ?case by metis
qed

section \<open>What the log keeps\<close>

definition fresh_at :: "nat \<Rightarrow> AuditEntry list \<Rightarrow> AuditEntry list" where
  "fresh_at now = filter (\<lambda>e. cutoff now \<le> ae_time_unix e)"

lemma keep_last_snoc: "0 < n \<Longrightarrow> keep_last n (xs @ [x]) = keep_last (n - 1) xs @ [x]"
  by (cases n) (auto simp: keep_last_def)

lemma keep_last_twice: "m \<le> n \<Longrightarrow> keep_last m (keep_last n xs) = keep_last m xs"
  by (cases "length xs \<le> n") (simp_all add: keep_last_def)

lemma keep_last_Cons: "m \<le> length xs \<Longrightarrow> keep_last m (x # xs) = keep_last m xs"
  by (simp add: keep_last_def Suc_diff_le)

lemma keep_last_all: "length xs \<le> n \<Longrightarrow> keep_last n xs = xs"
  by (simp add: keep_last_def)

lemma length_keep_last: "length (keep_last n xs) \<le> n"
  by (simp add: keep_last_def)

lemma set_keep_last: "set (keep_last n xs) \<subseteq> set xs"
  by (simp add: keep_last_def set_drop_subset)

lemma fold_keep_last:
  "length es \<le> m \<Longrightarrow>
     fold (\<lambda>e es. let es = es @ [e] in if m < length es then tl es else es) xs es = keep_last m (es @ xs)"
proof (induction xs arbitrary: es)
  case (Cons x xs)
  let ?es = "let es = es @ [x] in if m < length es then tl es else es"
  have "length ?es \<le> m" using Cons.prems by (simp add: Let_def)
  then have "fold (\<lambda>e es. let es = es @ [e] in if m < length es then tl es else es) xs ?es = keep_last m (?es @ xs)"
    by (rule Cons.IH)
  also have "\<dots> = keep_last m (es @ x # xs)"
    using Cons.prems by (cases es) (auto simp: Let_def intro!: keep_last_Cons [symmetric])
  finally show ?case by simp
qed (simp add: keep_last_all)

definition sorted_entries :: "AuditEntry list \<Rightarrow> bool" where
  "sorted_entries es \<longleftrightarrow> sorted (map ae_time_unix es)"

lemma fresh_keep_last:
  "sorted_entries es \<Longrightarrow> fresh_at now (keep_last k es) = keep_last k (fresh_at now es)"
proof (induction es arbitrary: k rule: rev_induct)
  case (snoc e es)
  have s: "sorted_entries es" "\<forall>x \<in> set es. ae_time_unix x \<le> ae_time_unix e"
    using snoc.prems by (auto simp: sorted_entries_def sorted_append)
  show ?case
  proof (cases "k = 0")
    case False
    then have k: "0 < k" by simp
    show ?thesis
    proof (cases "cutoff now \<le> ae_time_unix e")
      case True
      then show ?thesis using snoc.IH [OF s(1), of "k - 1"] k
        by (simp add: keep_last_snoc) (simp add: fresh_at_def keep_last_snoc)
    next
      case False
      then have "fresh_at now es = []" using s(2) by (auto simp: fresh_at_def filter_empty_conv)
      moreover from this have "fresh_at now (keep_last (k - 1) es) = []"
        using set_keep_last [of "k - 1" es] by (auto simp: fresh_at_def filter_empty_conv)
      ultimately show ?thesis using False k by (simp add: keep_last_snoc) (simp add: fresh_at_def keep_last_def)
    qed
  qed (simp add: keep_last_def fresh_at_def)
qed (simp add: keep_last_def fresh_at_def)

lemma fresh_simps [simp]: "fresh_at now [] = []" "fresh_at now (xs @ ys) = fresh_at now xs @ fresh_at now ys"
  "fresh_at now [e] = (if cutoff now \<le> ae_time_unix e then [e] else [])"
  by (simp_all add: fresh_at_def)

lemma fresh_twice: "now \<le> now' \<Longrightarrow> fresh_at now' (fresh_at now es) = fresh_at now' es"
  by (auto simp: fresh_at_def cutoff_def intro!: filter_cong)

lemma fresh_none: "\<forall>x \<in> set es. ae_time_unix x \<le> t \<Longrightarrow> t < cutoff now \<Longrightarrow> fresh_at now es = []"
  by (auto simp: fresh_at_def filter_empty_conv)

text \<open>A list of entries, of the file or of the history, has from time \<open>t\<close> on the same newest entries of the
  retention period as the log in memory.\<close>

definition same_recent :: "nat \<Rightarrow> nat \<Rightarrow> AuditEntry list \<Rightarrow> AuditEntry list \<Rightarrow> bool" where
  "same_recent n t es mem \<longleftrightarrow> (\<forall>now \<ge> t. keep_last n (fresh_at now es) = fresh_at now mem)"

lemma same_recent_later: "same_recent n t es mem \<Longrightarrow> t \<le> t' \<Longrightarrow> same_recent n t' es mem"
  by (simp add: same_recent_def)

lemma same_recent_self: "length mem \<le> n \<Longrightarrow> same_recent n t mem mem"
  unfolding same_recent_def by (metis fresh_at_def keep_last_all length_filter_le order_trans)

lemma same_recent_load: "same_recent n t es mem \<Longrightarrow> t \<le> now \<Longrightarrow> same_recent n now es (fresh_at now mem)"
  by (simp add: same_recent_def fresh_twice)

definition mem_ok :: "nat \<Rightarrow> nat \<Rightarrow> AuditEntry list \<Rightarrow> bool" where
  "mem_ok n t mem \<longleftrightarrow> sorted_entries mem \<and> (\<forall>e \<in> set mem. ae_time_unix e \<le> t) \<and> length mem \<le> n"

lemma sorted_entries_dropWhile: "sorted_entries es \<Longrightarrow> sorted_entries (dropWhile P es)"
  by (induction es) (auto simp: sorted_entries_def)

lemma sorted_entries_keep_last: "sorted_entries es \<Longrightarrow> sorted_entries (keep_last n es)"
  by (simp add: sorted_entries_def keep_last_def drop_map [symmetric] sorted_wrt_drop)

lemma same_recent_record:
  assumes "same_recent n t es mem" "mem_ok n t mem" "t \<le> ae_time_unix e" "0 < n"
  shows "same_recent n (ae_time_unix e) (es @ [e])
           (keep_last n (dropWhile (\<lambda>x. ae_time_unix x < cutoff (ae_time_unix e)) mem @ [e]))"
proof -
  let ?kept = "dropWhile (\<lambda>x. ae_time_unix x < cutoff (ae_time_unix e)) mem"
  have sorted: "sorted_entries ?kept"
    using assms(2) by (simp add: mem_ok_def sorted_entries_dropWhile)
  have kept: "fresh_at now ?kept = fresh_at now mem" if "ae_time_unix e \<le> now" for now
  proof -
    have "fresh_at now (takeWhile (\<lambda>x. ae_time_unix x < cutoff (ae_time_unix e)) mem) = []"
      using that by (auto simp: fresh_at_def filter_empty_conv cutoff_def dest!: set_takeWhileD)
    then show ?thesis by (metis append_Nil fresh_simps(2) takeWhile_dropWhile_id)
  qed
  have "keep_last n (fresh_at now (es @ [e])) = fresh_at now (keep_last n (?kept @ [e]))" if now: "ae_time_unix e \<le> now" for now
  proof -
    have es: "keep_last n (fresh_at now es) = fresh_at now mem" using assms(1, 3) now by (auto simp: same_recent_def)
    show ?thesis
    proof (cases "cutoff now \<le> ae_time_unix e")
      case True
      have "keep_last (n - 1) (fresh_at now es) = keep_last (n - 1) (fresh_at now mem)"
        using keep_last_twice [of "n - 1" n "fresh_at now es"] es by simp
      then show ?thesis using True assms(4) fresh_keep_last [OF sorted, of now "n - 1"] kept [OF now]
        by (simp add: keep_last_snoc)
    next
      case False
      have "fresh_at now mem = []" using assms(2, 3) False by (intro fresh_none [of _ "ae_time_unix e"]) (auto simp: mem_ok_def)
      then show ?thesis using False assms(4) es fresh_keep_last [OF sorted, of now "n - 1"] kept [OF now]
        by (simp add: keep_last_snoc) (simp add: keep_last_def)
    qed
  qed
  then show ?thesis by (simp add: same_recent_def)
qed

lemma mem_ok_record:
  assumes "mem_ok n t mem" "t \<le> ae_time_unix e" "0 < n"
  shows "mem_ok n (ae_time_unix e)
           (keep_last n (dropWhile (\<lambda>x. ae_time_unix x < cutoff (ae_time_unix e)) mem @ [e]))"
proof -
  let ?kept = "dropWhile (\<lambda>x. ae_time_unix x < cutoff (ae_time_unix e)) mem"
  have "sorted_entries ?kept"
    using assms(1) by (simp add: mem_ok_def sorted_entries_dropWhile)
  moreover have "\<forall>x \<in> set ?kept. ae_time_unix x \<le> ae_time_unix e"
    using assms(1, 2) by (auto simp: mem_ok_def dest!: set_dropWhileD)
  ultimately have "sorted_entries (?kept @ [e])" by (auto simp: sorted_entries_def sorted_append)
  then have "sorted_entries (keep_last n (?kept @ [e]))" by (rule sorted_entries_keep_last)
  then show ?thesis
    using \<open>\<forall>x \<in> set ?kept. _ x\<close> set_keep_last [of n "?kept @ [e]"] length_keep_last [of n "?kept @ [e]"]
    by (auto simp: mem_ok_def)
qed

section \<open>The file and the history\<close>

text \<open>The JSON library writes an entry, whose strings are UTF-8 and whose time is a 64-bit number, as one line
  that is not blank and that it reads back, and reads nothing else as an entry.\<close>

definition entry_ok :: "AuditEntry \<Rightarrow> bool" where
  "entry_ok e \<longleftrightarrow> ae_time_unix e < 2 ^ 64 \<and> utf8_valid (ae_peer_name e) \<and> utf8_valid (ae_peer_code e) \<and> utf8_valid (ae_detail e)"

definition log_serde_ok :: "LogSerde \<Rightarrow> bool" where
  "log_serde_ok j \<longleftrightarrow>
     (\<forall>e. entry_ok e \<longrightarrow> (\<exists>l. entry_to_string j e = Some l \<and> entry_from_str j l = Some e \<and> line_ok l)) \<and>
     (\<forall>l e. entry_from_str j l = Some e \<longrightarrow> entry_ok e)"

definition log_io_ok :: "LogIo \<Rightarrow> bool" where
  "log_io_ok io \<longleftrightarrow> io_write_fails (li_file io) = None \<and> \<not> io_read_fails (li_file io) \<and> li_append_fails io = None \<and>
     \<not> li_remove_fails io"

definition audit_file :: "Files \<Rightarrow> bytes" where
  "audit_file files = (case files AUDIT_PATH of None \<Rightarrow> [] | Some bs \<Rightarrow> bs)"

definition log_synced :: "LogSerde \<Rightarrow> nat \<Rightarrow> AuditEntry list \<Rightarrow> AuditLog \<Rightarrow> Files \<Rightarrow> bool" where
  "log_synced j t hist lg files \<longleftrightarrow>
     (let file = audit_file files; n = al_max_entries lg; mem = al_entries lg
      in mem_ok n t mem \<and> (\<forall>e \<in> set mem. entry_ok e) \<and> (file = [] \<or> last file = 10) \<and>
         length (log_lines file) = al_lines_on_disk lg \<and>
         same_recent n t (List.map_filter (entry_from_str j) (log_lines file)) mem \<and> same_recent n t hist mem)"

lemma map_filter_snoc: "List.map_filter f (xs @ [x]) = List.map_filter f xs @ (case f x of None \<Rightarrow> [] | Some y \<Rightarrow> [y])"
  by (simp add: List.map_filter_def split: option.splits)

lemma written_lines:
  assumes "log_serde_ok j" "\<forall>e \<in> set es. entry_ok e"
  shows "list_all line_ok (List.map_filter (entry_to_string j) es) \<and>
    List.map_filter (entry_from_str j) (List.map_filter (entry_to_string j) es) = es \<and>
    length (List.map_filter (entry_to_string j) es) = length es"
  using assms(2)
proof (induction es)
  case (Cons e es)
  obtain l where l: "entry_to_string j e = Some l" "entry_from_str j l = Some e" "line_ok l"
    using assms(1) Cons.prems by (auto simp: log_serde_ok_def)
  then show ?case using Cons by (simp add: map_filter_simps)
qed (simp add: map_filter_simps)

lemma compact_synced:
  assumes j: "log_serde_ok j" and io: "log_io_ok io"
    and mem: "mem_ok (al_max_entries lg) t (al_entries lg)" "\<forall>e \<in> set (al_entries lg). entry_ok e"
    and hist: "same_recent (al_max_entries lg) t hist (al_entries lg)"
  shows "\<exists>lg' files'. log_compact j io lg files = (lg', files') \<and> log_synced j t hist lg' files' \<and>
      al_entries lg' = al_entries lg \<and> al_max_entries lg' = al_max_entries lg"
proof -
  let ?ls = "List.map_filter (entry_to_string j) (al_entries lg)"
  let ?text = "concat (map entry_line ?ls)"
  let ?files = "(files(with_extension ''tmp'' AUDIT_PATH := None))(AUDIT_PATH \<mapsto> ?text)"
  let ?lg = "lg\<lparr>al_lines_on_disk := length (al_entries lg)\<rparr>"
  note w = written_lines [OF j mem(2)]
  have lines: "log_lines ?text = ?ls" "?text = [] \<or> last ?text = 10" using log_lines_concat [of ?ls] w by auto
  have "log_compact j io lg files = (?lg, ?files)"
    using io by (simp add: log_compact_def write_atomic_def log_io_ok_def Let_def)
  moreover have "audit_file ?files = ?text" by (simp add: audit_file_def)
  then have "log_synced j t hist ?lg ?files"
    unfolding log_synced_def Let_def
    using lines w mem hist same_recent_self [of "al_entries lg" "al_max_entries lg" t] by (simp add: mem_ok_def)
  ultimately show ?thesis by auto
qed

lemma record_synced:
  assumes j: "log_serde_ok j" and io: "log_io_ok io" and sync: "log_synced j t hist lg files"
    and e: "entry_ok e" "t \<le> ae_time_unix e" and pos: "0 < al_max_entries lg"
  defines "e' \<equiv> e\<lparr>ae_peer_name := clip (ae_peer_name e), ae_detail := clip (ae_detail e)\<rparr>"
  shows "\<exists>lg' files'. log_record j io e lg files = (lg', files') \<and>
      log_synced j (ae_time_unix e) (hist @ [e']) lg' files' \<and> al_max_entries lg' = al_max_entries lg"
proof -
  let ?n = "al_max_entries lg" and ?mem = "al_entries lg" and ?file = "audit_file files"
  let ?disk = "List.map_filter (entry_from_str j) (log_lines ?file)"
  let ?mem' = "keep_last ?n (dropWhile (\<lambda>x. ae_time_unix x < cutoff (ae_time_unix e)) ?mem @ [e'])"
  let ?lg1 = "lg\<lparr>al_entries := ?mem'\<rparr>"
  have time: "ae_time_unix e' = ae_time_unix e" and ok': "entry_ok e'" using e(1) by (simp_all add: e'_def entry_ok_def clip_valid)
  obtain l where l: "entry_to_string j e' = Some l" "entry_from_str j l = Some e'" "line_ok l"
    using j ok' by (auto simp: log_serde_ok_def)
  have s: "mem_ok ?n t ?mem" "\<forall>x \<in> set ?mem. entry_ok x" "?file = [] \<or> last ?file = 10"
    "length (log_lines ?file) = al_lines_on_disk lg" "same_recent ?n t ?disk ?mem" "same_recent ?n t hist ?mem"
    using sync by (simp_all add: log_synced_def Let_def)
  have mem': "mem_ok ?n (ae_time_unix e) ?mem'" using mem_ok_record [OF s(1), of e'] e(2) pos by (simp add: time)
  have oks: "\<forall>x \<in> set ?mem'. entry_ok x"
    using s(2) ok' set_keep_last [of ?n "dropWhile (\<lambda>x. ae_time_unix x < cutoff (ae_time_unix e)) ?mem @ [e']"]
    by (auto dest!: set_dropWhileD)
  have rec: "same_recent ?n (ae_time_unix e) (es @ [e']) ?mem'" if "same_recent ?n t es ?mem" for es
    using same_recent_record [OF that s(1), of e'] e(2) pos by (simp add: time)
  have def: "log_record j io e lg files =
      (if 2 * ?n \<le> al_lines_on_disk lg + 1 then log_compact j io ?lg1 files else append_line io l ?lg1 files)"
    unfolding log_record_def e'_def [symmetric] Let_def time l(1) by simp
  show ?thesis
  proof (cases "2 * ?n \<le> al_lines_on_disk lg + 1")
    case True
    then show ?thesis unfolding def using compact_synced [OF j io, of ?lg1 "ae_time_unix e" "hist @ [e']" files] mem' oks rec [OF s(6)]
      by auto
  next
    case False
    let ?lg2 = "?lg1\<lparr>al_lines_on_disk := al_lines_on_disk lg + 1\<rparr>"
    let ?files = "files(AUDIT_PATH \<mapsto> ?file @ entry_line l)"
    have "append_line io l ?lg1 files = (?lg2, ?files)" using io by (simp add: append_line_def log_io_ok_def audit_file_def)
    moreover have af: "audit_file ?files = ?file @ entry_line l" by (simp add: audit_file_def)
    have "log_synced j (ae_time_unix e) (hist @ [e']) ?lg2 ?files"
      unfolding log_synced_def Let_def af log_lines_append [OF l(3) s(3)] map_filter_snoc
      using mem' oks rec [OF s(5)] rec [OF s(6)] s(4) l(2) by (simp add: entry_line_def)
    ultimately show ?thesis unfolding def using False by auto
  qed
qed

lemma open_synced:
  assumes j: "log_serde_ok j" and io: "log_io_ok io" and sync: "log_synced j t hist lg files" and now: "t \<le> now"
  shows "\<exists>lg' files'. log_open j io now (al_max_entries lg) files = (lg', files') \<and> log_synced j now hist lg' files' \<and>
      al_max_entries lg' = al_max_entries lg \<and> al_entries lg' = fresh_at now (al_entries lg)"
proof -
  let ?n = "al_max_entries lg" and ?file = "audit_file files" and ?mem = "fresh_at now (al_entries lg)"
  let ?disk = "List.map_filter (entry_from_str j) (log_lines ?file)"
  have s: "mem_ok ?n t (al_entries lg)" "\<forall>x \<in> set (al_entries lg). entry_ok x" "?file = [] \<or> last ?file = 10"
    "length (log_lines ?file) = al_lines_on_disk lg" "same_recent ?n t ?disk (al_entries lg)"
    "same_recent ?n t hist (al_entries lg)"
    using sync by (simp_all add: log_synced_def Let_def)
  have loaded: "fold (\<lambda>e es. let es = es @ [e] in if ?n < length es then tl es else es) (fresh_at now ?disk) [] = ?mem"
    using fold_keep_last [of "[]" ?n "fresh_at now ?disk"] s(5) now by (simp add: same_recent_def)
  let ?lg = "\<lparr>al_entries = ?mem, al_max_entries = ?n, al_lines_on_disk = length (log_lines ?file)\<rparr>"
  have def: "log_open j io now ?n files =
      (if length (log_lines ?file) \<noteq> length ?mem then log_compact j io ?lg files else (?lg, files))"
    using io loaded unfolding log_open_def Let_def fresh_at_def [symmetric] audit_file_def by (simp add: log_io_ok_def)
  have mem: "mem_ok ?n now ?mem"
  proof -
    have "sorted_entries ?mem" using s(1) by (simp add: mem_ok_def sorted_entries_def fresh_at_def sorted_filter)
    moreover have "length ?mem \<le> ?n" using s(1) unfolding mem_ok_def fresh_at_def by (meson le_trans length_filter_le)
    ultimately show ?thesis using s(1) now by (auto simp: mem_ok_def fresh_at_def)
  qed
  have oks: "\<forall>x \<in> set ?mem. entry_ok x" using s(2) by (simp add: fresh_at_def)
  have recent: "same_recent ?n now es ?mem" if "same_recent ?n t es (al_entries lg)" for es
    by (rule same_recent_load [OF that now])
  show ?thesis
  proof (cases "length (log_lines ?file) \<noteq> length ?mem")
    case True
    then show ?thesis unfolding def using compact_synced [OF j io, of ?lg now hist files] mem oks recent [OF s(6)] by auto
  next
    case False
    have "log_synced j now hist ?lg files"
      unfolding log_synced_def Let_def using mem oks s(3) recent [OF s(5)] recent [OF s(6)] by simp
    then show ?thesis unfolding def using False by auto
  qed
qed

lemma empty_synced:
  "0 < n \<Longrightarrow> files AUDIT_PATH = None \<Longrightarrow> log_synced j t [] \<lparr>al_entries = [], al_max_entries = n, al_lines_on_disk = 0\<rparr> files"
  by (simp add: log_synced_def mem_ok_def sorted_entries_def audit_file_def log_lines_def str_lines.simps same_recent_def
      keep_last_def map_filter_simps)

lemma clear_synced:
  assumes j: "log_serde_ok j" and io: "log_io_ok io" and pos: "0 < al_max_entries lg" and now: "now < 2 ^ 64"
  shows "\<exists>lg' files'. log_clear j io now lg files = (True, lg', files') \<and>
      log_synced j now [audit_entry now LogCleared] lg' files' \<and> al_max_entries lg' = al_max_entries lg"
proof -
  let ?lg = "lg\<lparr>al_entries := [], al_lines_on_disk := 0\<rparr>" and ?e = "audit_entry now LogCleared"
  have "?lg = \<lparr>al_entries = [], al_max_entries = al_max_entries lg, al_lines_on_disk = 0\<rparr>" by (cases lg) simp
  then have sync: "log_synced j now [] ?lg (files(AUDIT_PATH := None))"
    using empty_synced [OF pos, of "files(AUDIT_PATH := None)" j now] by (simp only:) simp
  have e: "entry_ok ?e" "ae_time_unix ?e = now" using now by (simp_all add: entry_ok_def audit_entry_def)
  have "clip [] = []" by (simp add: clip_def strip_controls.simps)
  then have "?e\<lparr>ae_peer_name := clip (ae_peer_name ?e), ae_detail := clip (ae_detail ?e)\<rparr> = ?e" by (simp add: audit_entry_def)
  then show ?thesis
    using record_synced [OF j io sync e(1)] e(2) pos io by (auto simp: log_clear_def log_io_ok_def)
qed

section \<open>Runs\<close>

text \<open>What happens to the log: records, the user clearing it, and restarts of the program.\<close>

datatype LogOp = LogRecord AuditEntry | LogClear nat | LogReopen nat

fun log_time :: "LogOp \<Rightarrow> nat" where
  "log_time (LogRecord e) = ae_time_unix e"
| "log_time (LogClear now) = now"
| "log_time (LogReopen now) = now"

fun log_step :: "LogSerde \<Rightarrow> LogIo \<times> LogOp \<Rightarrow> AuditLog \<times> Files \<Rightarrow> AuditLog \<times> Files" where
  "log_step j (io, LogRecord e) (lg, files) = log_record j io e lg files"
| "log_step j (io, LogClear now) (lg, files) = snd (log_clear j io now lg files)"
| "log_step j (io, LogReopen now) (lg, files) = log_open j io now (al_max_entries lg) files"

fun log_history :: "LogOp \<Rightarrow> AuditEntry list \<Rightarrow> AuditEntry list" where
  "log_history (LogRecord e) hist = hist @ [e\<lparr>ae_peer_name := clip (ae_peer_name e), ae_detail := clip (ae_detail e)\<rparr>]"
| "log_history (LogClear now) hist = [audit_entry now LogCleared]"
| "log_history (LogReopen now) hist = hist"

fun log_op_ok :: "LogOp \<Rightarrow> bool" where
  "log_op_ok (LogRecord e) = entry_ok e"
| "log_op_ok op1 = (log_time op1 < 2 ^ 64)"

lemma step_synced:
  assumes j: "log_serde_ok j" and io: "log_io_ok io" and op: "log_op_ok op1" "t \<le> log_time op1"
    and sync: "log_synced j t hist lg files" and pos: "0 < al_max_entries lg"
  shows "\<exists>lg' files'. log_step j (io, op1) (lg, files) = (lg', files') \<and>
      log_synced j (log_time op1) (log_history op1 hist) lg' files' \<and> al_max_entries lg' = al_max_entries lg"
proof (cases op1)
  case (LogRecord e)
  then show ?thesis using record_synced [OF j io sync _ _ pos, of e] op by simp
next
  case (LogClear now)
  then show ?thesis using clear_synced [OF j io pos, of now files] op by auto
next
  case (LogReopen now)
  then show ?thesis using open_synced [OF j io sync, of now] op by auto
qed

lemma run_synced:
  assumes "log_serde_ok j" "\<forall>(io, op1) \<in> set ops. log_io_ok io \<and> log_op_ok op1"
    "sorted (t # map (log_time \<circ> snd) ops)" "log_synced j t hist lg files" "0 < al_max_entries lg"
  shows "\<exists>lg' files'. fold (log_step j) ops (lg, files) = (lg', files') \<and>
      log_synced j (last (t # map (log_time \<circ> snd) ops)) (fold (log_history \<circ> snd) ops hist) lg' files' \<and>
      al_max_entries lg' = al_max_entries lg"
  using assms(2-)
proof (induction ops arbitrary: t hist lg files)
  case (Cons e ops)
  obtain io op1 where e: "e = (io, op1)" by (cases e)
  have ok: "log_io_ok io" "log_op_ok op1" "t \<le> log_time op1" using Cons.prems(1, 2) by (auto simp: e)
  obtain lg1 files1 where one: "log_step j (io, op1) (lg, files) = (lg1, files1)"
    "log_synced j (log_time op1) (log_history op1 hist) lg1 files1" "al_max_entries lg1 = al_max_entries lg"
    using step_synced [OF assms(1) ok Cons.prems(3, 4)] by blast
  have "sorted (log_time op1 # map (log_time \<circ> snd) ops)" using Cons.prems(2) by (simp add: e comp_def)
  from Cons.IH [OF _ this one(2)] Cons.prems(1, 4) one show ?case by (auto simp: e)
qed simp

text \<open>A JSON library for the example: a line is as many letters as the entry's number.\<close>

definition audit_kinds :: "AuditKind list" where
  "audit_kinds = [PairingAttempt, PairingSucceeded, AuditPairingRejected, AuditPairingRateLimited, DeviceForgotten,
     DeviceBlocked, DeviceUnblocked, AuditPermissionChanged, RouteApproved, RouteDenied, RouteStarted, RouteStopped,
     ConnectionRefused, LogCleared]"

definition route_kinds :: "RouteKind option list" where
  "route_kinds = [None, Some SendSystemAudio, Some SendAppAudio, Some SendMixed, Some SendMicToVirtualMic,
     Some SendMicToSpeaker, Some ReceiveSystemAudio, Some ReceiveAppAudio, Some ReceiveMixed,
     Some ReceiveMicToVirtualMic, Some ReceiveMicToSpeaker]"

fun position :: "'a \<Rightarrow> 'a list \<Rightarrow> nat" where
  "position x [] = 0"
| "position x (y # ys) = (if x = y then 0 else Suc (position x ys))"

lemma nth_position: "x \<in> set xs \<Longrightarrow> xs ! position x xs = x"
  by (induction xs) auto

definition entry_number :: "AuditEntry \<Rightarrow> nat" where
  "entry_number e = list_encode
     [ae_time_unix e, position (ae_kind e) audit_kinds, list_encode (map unat (ae_peer_name e)),
      list_encode (map unat (ae_peer_code e)), position (ae_route e) route_kinds, list_encode (map unat (ae_detail e))]"

definition entry_of_number :: "nat \<Rightarrow> AuditEntry" where
  "entry_of_number n =
     (let xs = list_decode n; text_at = (\<lambda>i. map word_of_nat (list_decode (xs ! i)))
      in \<lparr>ae_time_unix = xs ! 0, ae_kind = audit_kinds ! (xs ! 1), ae_peer_name = text_at 2, ae_peer_code = text_at 3,
          ae_route = route_kinds ! (xs ! 4), ae_detail = text_at 5\<rparr>)"

definition example_log_serde :: LogSerde where
  "example_log_serde =
     \<lparr>entry_from_str = (\<lambda>l. let e = entry_of_number (length l - 1) in if entry_ok e then Some e else None),
      entry_to_string = (\<lambda>e. Some (replicate (Suc (entry_number e)) 97))\<rparr>"

lemma entry_of_entry_number [simp]: "entry_of_number (entry_number e) = e"
proof -
  have "position (ae_kind e) audit_kinds = k \<Longrightarrow> audit_kinds ! k = ae_kind e" for k
    using nth_position [of "ae_kind e" audit_kinds] by (cases "ae_kind e") (auto simp: audit_kinds_def)
  moreover have "position (ae_route e) route_kinds = k \<Longrightarrow> route_kinds ! k = ae_route e" for k
  proof -
    have "ae_route e \<in> set route_kinds"
    proof (cases "ae_route e")
      case (Some k)
      then show ?thesis by (cases k) (auto simp: route_kinds_def)
    qed (simp add: route_kinds_def)
    then show "position (ae_route e) route_kinds = k \<Longrightarrow> route_kinds ! k = ae_route e" using nth_position [of "ae_route e" route_kinds] by auto
  qed
  ultimately show ?thesis by (simp add: entry_of_number_def entry_number_def Let_def comp_def)
qed

lemma example_log_serde_ok: "log_serde_ok example_log_serde"
proof -
  have "line_ok (replicate (Suc n) 97)" for n
  proof -
    have "trim (replicate (Suc n) 97) = (replicate (Suc n) 97 :: bytes)" by (rule trim_printable) auto
    moreover have "utf8_valid (replicate (Suc n) 97)" by (rule ascii_valid) auto
    ultimately show ?thesis by (auto simp: line_ok_def)
  qed
  then show ?thesis by (auto simp: log_serde_ok_def example_log_serde_def Let_def split: if_splits)
qed

text \<open>C25: Over any run of records, clearings and restarts in the order of time, in which the files can be written,
  the log shows of the retention period exactly the newest entries, up to its limit, of all that were recorded
  since it was last cleared, the clearing itself first: nothing is lost, reordered or resurrected by the
  compaction of the file or a restart, and starting again reads back exactly these entries.\<close>

theorem security_log_keeps_newest:
  assumes "log_serde_ok j" "0 < n" "files AUDIT_PATH = None"
    and "\<forall>(io, op1) \<in> set ops. log_io_ok io \<and> log_op_ok op1" "sorted (map (log_time \<circ> snd) ops)"
    and "\<forall>op1 \<in> snd ` set ops. log_time op1 \<le> now" "log_io_ok io"
  shows "let (lg, files') = fold (log_step j) ops (\<lparr>al_entries = [], al_max_entries = n, al_lines_on_disk = 0\<rparr>, files);
             newest = keep_last n (fresh_at now (fold (log_history \<circ> snd) ops []))
         in fresh_at now (al_entries lg) = newest \<and> length (al_entries lg) \<le> n \<and>
            log_entries (fst (log_open j io now n files')) = rev newest"
proof -
  let ?lg0 = "\<lparr>al_entries = [], al_max_entries = n, al_lines_on_disk = 0\<rparr>"
  let ?hist = "fold (log_history \<circ> snd) ops []"
  have times: "sorted (0 # map (log_time \<circ> snd) ops)" using assms(5) by simp
  obtain lg files' where run: "fold (log_step j) ops (?lg0, files) = (lg, files')" "al_max_entries lg = n"
    "log_synced j (last (0 # map (log_time \<circ> snd) ops)) ?hist lg files'"
    using run_synced [OF assms(1, 4) times empty_synced [OF assms(2), of files j 0, OF assms(3)]] assms(2) by auto
  have now: "last (0 # map (log_time \<circ> snd) ops) \<le> now"
    using assms(6) by (cases ops rule: rev_cases) auto
  obtain lg' files'' where opened: "log_open j io now n files' = (lg', files'')" "al_entries lg' = fresh_at now (al_entries lg)"
    using open_synced [OF assms(1, 7) run(3) now] run(2) by auto
  have "keep_last n (fresh_at now ?hist) = fresh_at now (al_entries lg)" "length (al_entries lg) \<le> n"
    using run(2, 3) now by (auto simp: log_synced_def mem_ok_def same_recent_def Let_def)
  then show ?thesis using run(1) opened by (simp add: log_entries_def Let_def)
qed

definition example_log_io :: LogIo where
  "example_log_io = \<lparr>li_file = example_io, li_append_fails = None, li_remove_fails = False\<rparr>"

definition example_log_run :: "AuditLog \<times> Files" where
  "example_log_run = fold (log_step example_log_serde)
     [(example_log_io, LogRecord (audit_entry 7 PairingSucceeded)), (example_log_io, LogRecord (audit_entry 9 DeviceBlocked))]
     (\<lparr>al_entries = [], al_max_entries = 1, al_lines_on_disk = 0\<rparr>, \<lambda>_. None)"

theorem security_log_keeps_newest_witness:
  "log_entries (fst (log_open example_log_serde example_log_io 20 1 (snd example_log_run))) = [audit_entry 9 DeviceBlocked]"
proof -
  let ?ops = "[(example_log_io, LogRecord (audit_entry 7 PairingSucceeded)), (example_log_io, LogRecord (audit_entry 9 DeviceBlocked))]"
  obtain lg files' where run: "example_log_run = (lg, files')" by (rule prod.exhaust)
  have io: "log_io_ok example_log_io" by (simp add: log_io_ok_def example_log_io_def example_io_def)
  have "log_entries (fst (log_open example_log_serde example_log_io 20 1 files')) =
      rev (keep_last 1 (fresh_at 20 (fold (log_history \<circ> snd) ?ops [])))"
    using security_log_keeps_newest [OF example_log_serde_ok, of 1 "\<lambda>_. None" ?ops 20 example_log_io]
      run [unfolded example_log_run_def] io
    by (simp add: audit_entry_def entry_ok_def Let_def)
  moreover have "clip [] = []" by (simp add: clip_def strip_controls.simps)
  ultimately show ?thesis
    by (simp add: run audit_entry_def fresh_at_def cutoff_def RETENTION_SECS_def keep_last_def)
qed

section \<open>A failed append\<close>

text \<open>An append that stops within its line leaves a piece without a line end, and the next append, which succeeds,
  continues that piece: the file holds one line made of both, not the line of the entry recorded last.\<close>

theorem torn_append_spoils_next:
  assumes "line_ok l1" "line_ok l2" "audit_file files = [] \<or> last (audit_file files) = 10" "0 < k" "k \<le> length l1"
    and "li_append_fails io1 = Some k" "li_append_fails io2 = None"
    and "append_line io1 l1 lg files = (lg1, files1)" "append_line io2 l2 lg1 files1 = (lg2, files2)"
  shows "str_lines (audit_file files2) = str_lines (audit_file files) @ [take k l1 @ l2] \<and>
    al_lines_on_disk lg2 = al_lines_on_disk lg + 1"
proof -
  have "take k (entry_line l1) = take k l1" using assms(5) by (simp add: entry_line_def)
  then have f1: "files1 = files(AUDIT_PATH \<mapsto> audit_file files @ take k l1)" "lg1 = lg"
    using assms(4, 6, 8) by (auto simp: append_line_def audit_file_def Let_def)
  then have f2: "audit_file files2 = audit_file files @ entry_line (take k l1 @ l2)"
    and n: "al_lines_on_disk lg2 = al_lines_on_disk lg + 1"
    using assms(7, 9) by (auto simp: append_line_def audit_file_def entry_line_def Let_def)
  have "10 \<notin> set (take k l1 @ l2)" using assms(1, 2) by (auto simp: line_ok_def dest: in_set_takeD)
  moreover have "strip_cr (take k l1 @ l2) = take k l1 @ l2"
  proof -
    have "l2 \<noteq> []" using assms(2) trim_printable [of "[]"] by (auto simp: line_ok_def)
    moreover from this have "last l2 \<noteq> 13" using assms(2) last_in_set by (fastforce simp: line_ok_def)
    ultimately show ?thesis by (simp add: strip_cr_def)
  qed
  ultimately show ?thesis
    using str_lines_entry [of "take k l1 @ l2" "[]"] n unfolding f2
    by (simp add: str_lines_append [OF assms(3)] str_lines.simps [of "[]"])
qed

end
