(* ===== verification/Media_Sender.thy ===== *)
theory Media_Sender
  imports Protocol_Wire
begin

text \<open>
  What an encoder group sends (\<open>pipeline/sender.rs\<close>): the subscribers of the group, and the encode loop from the
  processed frame on, with silence detection, DTX, redundancy and the packets of each subscriber. Signal
  processing and the codec are arguments: a frame comes with whether it is silent and what encoding it gives.
  The wire form of a variant is built once per frame and reused in the code; here it is the same function of the
  frame for every subscriber.
\<close>

section \<open>The subscribers\<close>

record Subscriber =
  sb_route :: u8
  sb_dtx :: bool

record Fanout =
  fo_entries :: "(u64 \<times> Subscriber) list"
  fo_generation :: u64
  fo_next_id :: u64

definition fanout_default :: Fanout where
  "fanout_default = \<lparr>fo_entries = [], fo_generation = 0, fo_next_id = 0\<rparr>"

definition fanout_subscribe :: "Subscriber \<Rightarrow> Fanout \<Rightarrow> u64 \<times> Fanout" where
  "fanout_subscribe s fo =
     (fo_next_id fo,
      \<lparr>fo_entries = fo_entries fo @ [(fo_next_id fo, s)], fo_generation = fo_generation fo + 1,
       fo_next_id = fo_next_id fo + 1\<rparr>)"

definition fanout_remove :: "u64 \<Rightarrow> Fanout \<Rightarrow> Fanout" where
  "fanout_remove sid fo =
     fo\<lparr>fo_entries := filter (\<lambda>(i, _). i \<noteq> sid) (fo_entries fo), fo_generation := fo_generation fo + 1\<rparr>"

text \<open>The encode thread's copy of a subscriber. \<open>restart\<close>: the next packet restarts the stream for it.\<close>

record Target =
  tg_id :: u64
  tg_route :: u8
  tg_dtx :: bool
  tg_restart :: bool
  tg_first :: bool

definition refresh_targets :: "Fanout \<Rightarrow> Target list \<Rightarrow> Target list" where
  "refresh_targets fo targets =
     map (\<lambda>(i, s).
            let (restart, first) = (case find (\<lambda>t. tg_id t = i) targets of
                                      None \<Rightarrow> (False, True) | Some t \<Rightarrow> (tg_restart t, tg_first t))
            in \<lparr>tg_id = i, tg_route = sb_route s, tg_dtx = sb_dtx s, tg_restart = restart, tg_first = first\<rparr>)
       (fo_entries fo)"

section \<open>The encode loop\<close>

definition DTX_HANGOVER_MS :: nat where "DTX_HANGOVER_MS = 200"
definition DTX_SIGNAL_FRAMES :: nat where "DTX_SIGNAL_FRAMES = 2"
definition DTX_KEEPALIVE_MS :: nat where "DTX_KEEPALIVE_MS = 400"

definition dtx_hangover :: "nat \<Rightarrow> nat" where
  "dtx_hangover frame = DTX_HANGOVER_MS * 48 div max frame 1"

definition dtx_keepalive :: "nat \<Rightarrow> nat" where
  "dtx_keepalive frame = max (DTX_KEEPALIVE_MS * 48 div max frame 1) 1"

text \<open>The controls of a subscriber that the loop reads, a frame with what the other threads left for it, and
  whether the transport takes the datagram of a subscriber.\<close>

record TargetControls =
  tc_muted :: bool
  tc_bitrate :: u32
  tc_expected_loss_pct :: u32
  tc_redundancy :: bool

record FrameIn =
  fi_fanout :: Fanout
  fi_controls :: "u64 \<Rightarrow> TargetControls"
  fi_silent :: bool
  fi_encoded :: "bytes option"
  fi_sent :: "u64 \<Rightarrow> bool"

record SenderState =
  ss_previous :: bytes
  ss_timestamp :: u64
  ss_seq :: u32
  ss_silent_frames :: nat
  ss_targets :: "Target list"
  ss_generation :: u64
  ss_bitrate :: u32
  ss_loss :: u32

definition sender_new :: SenderState where
  "sender_new = \<lparr>ss_previous = [], ss_timestamp = 0, ss_seq = 0, ss_silent_frames = 0, ss_targets = [],
     ss_generation = - 1, ss_bitrate = 0, ss_loss = - 1\<rparr>"

datatype SenderOut =
    EncoderBitrate u32
  | EncoderLoss u32
  | Datagram u64 bytes bool

definition follow_fanout :: "Fanout \<Rightarrow> SenderState \<Rightarrow> SenderState" where
  "follow_fanout fo s =
     (if fo_generation fo \<noteq> ss_generation s
      then s\<lparr>ss_targets := refresh_targets fo (ss_targets s), ss_generation := fo_generation fo\<rparr> else s)"

text \<open>A shared encoder follows its most constrained receiver.\<close>

definition follow_controls :: "(u64 \<Rightarrow> TargetControls) \<Rightarrow> SenderState \<Rightarrow> SenderOut list \<times> SenderState" where
  "follow_controls ctl s =
     (let controls = map (\<lambda>t. ctl (tg_id t)) (ss_targets s);
          (out1, s1) = (case map tc_bitrate controls of
              [] \<Rightarrow> ([], s)
            | b # bs \<Rightarrow> (let bitrate = fold min bs b
                        in if bitrate \<noteq> ss_bitrate s then ([EncoderBitrate bitrate], s\<lparr>ss_bitrate := bitrate\<rparr>)
                           else ([], s)));
          loss = fold max (map tc_expected_loss_pct controls) 0;
          (out2, s2) = (if loss \<noteq> ss_loss s1 then ([EncoderLoss (min loss 100)], s1\<lparr>ss_loss := loss\<rparr>) else ([], s1))
      in (out1 @ out2, s2))"

text \<open>Silence has lasted past the hangover; the frames in which receivers are told so.\<close>

definition is_dtx :: "Codec \<Rightarrow> nat \<Rightarrow> nat \<Rightarrow> bool" where
  "is_dtx codec frame silent_frames \<longleftrightarrow> codec = Opus \<and> dtx_hangover frame < silent_frames"

definition is_dtx_signal :: "Codec \<Rightarrow> nat \<Rightarrow> nat \<Rightarrow> bool" where
  "is_dtx_signal codec frame silent_frames \<longleftrightarrow> is_dtx codec frame silent_frames \<and>
     (let n = silent_frames - dtx_hangover frame - 1 in n < DTX_SIGNAL_FRAMES \<or> n mod dtx_keepalive frame = 0)"

datatype Variant = Plain | Redundant | SilenceOnly

definition redundant_payload :: "bytes \<Rightarrow> bytes \<Rightarrow> bytes" where
  "redundant_payload packet previous = put_u16 (word_of_nat (length packet)) @ packet @ previous"

definition variant_packet :: "Codec \<Rightarrow> u64 \<Rightarrow> u32 \<Rightarrow> bytes \<Rightarrow> bytes \<Rightarrow> Variant \<Rightarrow> MediaPacket" where
  "variant_packet codec timestamp seq packet previous v =
     (let (flags, payload) = (case v of
            SilenceOnly \<Rightarrow> (flags_with flags_empty FLAG_DTX, [])
          | Redundant \<Rightarrow> (flags_with flags_empty FLAG_REDUNDANT, redundant_payload packet previous)
          | Plain \<Rightarrow> (flags_empty, packet))
      in \<lparr>mp_header = \<lparr>mh_route = 0, mh_codec = codec, mh_flags = flags, mh_sample_timestamp = timestamp, mh_seq = seq\<rparr>,
          mp_payload = payload\<rparr>)"

definition can_add_redundancy :: "Codec \<Rightarrow> bool \<Rightarrow> bytes \<Rightarrow> bytes \<Rightarrow> bool" where
  "can_add_redundancy codec needs_audio packet previous \<longleftrightarrow>
     codec = Opus \<and> needs_audio \<and> previous \<noteq> [] \<and> 2 + length packet + length previous \<le> MAX_MEDIA_PAYLOAD"

text \<open>The route and the flags of a receiver are written into its copy of the wire form.\<close>

definition patch :: "Target \<Rightarrow> bytes \<Rightarrow> bytes" where
  "patch t wire =
     (let out1 = wire[1 := tg_route t];
          out2 = (if tg_first t then out1[3 := out1 ! 3 OR FLAG_MARKER] else out1)
      in if tg_restart t then out2[3 := out2 ! 3 OR FLAG_DISCONTINUITY] else out2)"

record FramePackets =
  fp_codec :: Codec
  fp_timestamp :: u64
  fp_seq :: u32
  fp_dtx :: bool
  fp_dtx_signal :: bool
  fp_packet :: bytes
  fp_previous :: bytes
  fp_can_add :: bool

definition send_target :: "FramePackets \<Rightarrow> FrameIn \<Rightarrow> Target \<Rightarrow> SenderOut list \<times> Target" where
  "send_target fp fi t =
     (let c = fi_controls fi (tg_id t); silent = fp_dtx fp \<and> tg_dtx t
      in if tc_muted c then ([], t\<lparr>tg_restart := True\<rparr>)
         else if silent \<and> \<not> fp_dtx_signal fp then ([], t)
         else
           (let v = (if silent then SilenceOnly
                     else if fp_can_add fp \<and> tc_redundancy c then Redundant else Plain)
            in case media_encode (variant_packet (fp_codec fp) (fp_timestamp fp) (fp_seq fp) (fp_packet fp) (fp_previous fp) v) of
                 Inl _ \<Rightarrow> ([], t)
               | Inr wire \<Rightarrow>
                   (let sent = fi_sent fi (tg_id t)
                    in ([Datagram (tg_id t) (patch t wire) sent],
                        if sent then t\<lparr>tg_first := False, tg_restart := False\<rparr> else t))))"

text \<open>One frame. When nobody needs audio, the packet of the encoder is not read.\<close>

definition send_frame :: "Codec \<Rightarrow> nat \<Rightarrow> FrameIn \<Rightarrow> SenderState \<Rightarrow> SenderOut list \<times> SenderState" where
  "send_frame codec frame fi s0 =
     (let s1 = follow_fanout (fi_fanout fi) s0;
          (out1, s2) = follow_controls (fi_controls fi) s1;
          silent_frames = (if fi_silent fi then min (ss_silent_frames s2 + 1) u64_max else 0);
          s3 = s2\<lparr>ss_timestamp := ss_timestamp s2 + word_of_nat frame, ss_seq := ss_seq s2 + 1,
                  ss_silent_frames := silent_frames\<rparr>;
          dtx = is_dtx codec frame silent_frames;
          needs_audio = (\<not> dtx \<or> (\<exists>t \<in> set (ss_targets s3). \<not> tg_dtx t))
      in if ss_targets s3 = [] then (out1, s3\<lparr>ss_previous := []\<rparr>)
         else if needs_audio \<and> fi_encoded fi = None then (out1, s3)
         else
           (let packet = (if needs_audio then the (fi_encoded fi) else []);
                fp = \<lparr>fp_codec = codec, fp_timestamp = ss_timestamp s2, fp_seq = ss_seq s2, fp_dtx = dtx,
                      fp_dtx_signal = is_dtx_signal codec frame silent_frames, fp_packet = packet,
                      fp_previous = ss_previous s3,
                      fp_can_add = can_add_redundancy codec needs_audio packet (ss_previous s3)\<rparr>;
                results = map (send_target fp fi) (ss_targets s3)
            in (out1 @ concat (map fst results), s3\<lparr>ss_targets := map snd results, ss_previous := packet\<rparr>)))"

fun send_frames :: "Codec \<Rightarrow> nat \<Rightarrow> FrameIn list \<Rightarrow> SenderState \<Rightarrow> SenderOut list list \<times> SenderState" where
  "send_frames codec frame [] s = ([], s)"
| "send_frames codec frame (fi # fis) s =
     (let (out, s1) = send_frame codec frame fi s; (outs, s2) = send_frames codec frame fis s1
      in (out # outs, s2))"

section \<open>The wire form of a frame\<close>

lemma follow_controls_keeps [simp]:
  "ss_targets (snd (follow_controls ctl s)) = ss_targets s" "ss_previous (snd (follow_controls ctl s)) = ss_previous s"
  "ss_timestamp (snd (follow_controls ctl s)) = ss_timestamp s" "ss_seq (snd (follow_controls ctl s)) = ss_seq s"
  "ss_silent_frames (snd (follow_controls ctl s)) = ss_silent_frames s"
  "ss_generation (snd (follow_controls ctl s)) = ss_generation s"
  by (simp_all add: follow_controls_def Let_def split: list.split prod.split)

lemma follow_controls_quiet: "Datagram i d ok \<notin> set (fst (follow_controls ctl s))"
  by (auto simp: follow_controls_def Let_def split: list.splits prod.splits if_splits)

lemma follow_fanout_keeps [simp]:
  "ss_previous (follow_fanout fo s) = ss_previous s" "ss_timestamp (follow_fanout fo s) = ss_timestamp s"
  "ss_seq (follow_fanout fo s) = ss_seq s" "ss_silent_frames (follow_fanout fo s) = ss_silent_frames s"
  by (simp_all add: follow_fanout_def)

definition target_flags :: "Target \<Rightarrow> u8" where
  "target_flags t = (if tg_first t then FLAG_MARKER else 0) OR (if tg_restart t then FLAG_DISCONTINUITY else 0)"

lemma patch_decode:
  assumes "media_encode p = Inr wire"
  shows "media_decode (patch t wire) = Inr (p\<lparr>mp_header := (mp_header p)\<lparr>mh_route := tg_route t,
      mh_flags := MediaFlags (flag_bits (mh_flags (mp_header p)) OR target_flags t)\<rparr>\<rparr>)"
proof -
  let ?q = "p\<lparr>mp_header := (mp_header p)\<lparr>mh_route := tg_route t,
      mh_flags := MediaFlags (flag_bits (mh_flags (mp_header p)) OR target_flags t)\<rparr>\<rparr>"
  have len: "length (mp_payload p) \<le> MAX_ACCEPTED_MEDIA_PAYLOAD"
    using assms by (auto simp: media_encode_def media_consts split: if_splits)
  have "patch t wire = [MEDIA_HEADER_VERSION, tg_route t, codec_as_u8 (mh_codec (mp_header p)),
      flag_bits (mh_flags (mp_header p)) OR target_flags t] @ put_u64 (mh_sample_timestamp (mp_header p)) @
      put_u32 (mh_seq (mp_header p)) @ mp_payload p"
    using assms by (auto simp: media_encode_def patch_def target_flags_def Let_def or.assoc split: if_splits)
  then show ?thesis using media_decode_encoded [of ?q] len by simp
qed

lemmas flag_defs = FLAG_DTX_def FLAG_REDUNDANT_def FLAG_DISCONTINUITY_def FLAG_MARKER_def

lemma variant_flags:
  "flags_contains (MediaFlags (flag_bits (mh_flags (mp_header (variant_packet codec ts seq packet previous v))) OR target_flags t)) f \<longleftrightarrow>
     (f = FLAG_DTX \<and> v = SilenceOnly) \<or> (f = FLAG_REDUNDANT \<and> v = Redundant) \<or>
     (f = FLAG_MARKER \<and> tg_first t) \<or> (f = FLAG_DISCONTINUITY \<and> tg_restart t)"
  if "f \<in> {FLAG_DTX, FLAG_REDUNDANT, FLAG_MARKER, FLAG_DISCONTINUITY}"
  using that by (cases v; cases "tg_first t"; cases "tg_restart t")
    (auto simp: variant_packet_def flags_contains_def flags_with_def flags_empty_def target_flags_def flag_defs)

text \<open>The datagrams of one subscriber.\<close>

lemma send_target_datagram:
  assumes "Datagram i d ok \<in> set (fst (send_target fp fi t))"
  obtains v where "i = tg_id t" "ok = fi_sent fi i" "\<not> tc_muted (fi_controls fi i)"
    "v = SilenceOnly \<longleftrightarrow> fp_dtx fp \<and> tg_dtx t" "v = SilenceOnly \<Longrightarrow> fp_dtx_signal fp" "v = Redundant \<Longrightarrow> fp_can_add fp"
    "media_decode d = Inr ((variant_packet (fp_codec fp) (fp_timestamp fp) (fp_seq fp) (fp_packet fp) (fp_previous fp) v)
       \<lparr>mp_header := (mp_header (variant_packet (fp_codec fp) (fp_timestamp fp) (fp_seq fp) (fp_packet fp) (fp_previous fp) v))
          \<lparr>mh_route := tg_route t, mh_flags := MediaFlags (flag_bits (mh_flags (mp_header
             (variant_packet (fp_codec fp) (fp_timestamp fp) (fp_seq fp) (fp_packet fp) (fp_previous fp) v)))
             OR target_flags t)\<rparr>\<rparr>)"
proof -
  define v where "v = (if fp_dtx fp \<and> tg_dtx t then SilenceOnly
      else if fp_can_add fp \<and> tc_redundancy (fi_controls fi (tg_id t)) then Redundant else Plain)"
  let ?p = "variant_packet (fp_codec fp) (fp_timestamp fp) (fp_seq fp) (fp_packet fp) (fp_previous fp) v"
  obtain wire where wire: "media_encode ?p = Inr wire" "d = patch t wire" "i = tg_id t" "ok = fi_sent fi i"
    "\<not> tc_muted (fi_controls fi i)" "\<not> (fp_dtx fp \<and> tg_dtx t \<and> \<not> fp_dtx_signal fp)"
    using assms unfolding send_target_def Let_def v_def [symmetric] by (auto split: if_splits sum.splits)
  show thesis
    by (rule that [of v]) (use wire patch_decode [OF wire(1), of t] in \<open>auto simp: v_def split: if_splits\<close>)
qed

text \<open>A frame that has somebody to send to, in one equation.\<close>

definition frame_packets :: "Codec \<Rightarrow> nat \<Rightarrow> FrameIn \<Rightarrow> SenderState \<Rightarrow> FramePackets" where
  "frame_packets codec frame fi s =
     (let silent_frames = (if fi_silent fi then min (ss_silent_frames s + 1) u64_max else 0);
          dtx = is_dtx codec frame silent_frames;
          needs_audio = (\<not> dtx \<or> (\<exists>t \<in> set (ss_targets (follow_fanout (fi_fanout fi) s)). \<not> tg_dtx t));
          packet = (if needs_audio then the (fi_encoded fi) else [])
      in \<lparr>fp_codec = codec, fp_timestamp = ss_timestamp s, fp_seq = ss_seq s, fp_dtx = dtx,
          fp_dtx_signal = is_dtx_signal codec frame silent_frames, fp_packet = packet, fp_previous = ss_previous s,
          fp_can_add = can_add_redundancy codec needs_audio packet (ss_previous s)\<rparr>)"

lemma send_frame_cases:
  assumes "send_frame codec frame fi s = (out, s')"
  defines "targets \<equiv> ss_targets (follow_fanout (fi_fanout fi) s)"
  obtains (nobody) "targets = []" "\<And>i d ok. Datagram i d ok \<notin> set out" "ss_targets s' = []" "ss_previous s' = []"
  | (failed) "fi_encoded fi = None" "\<And>i d ok. Datagram i d ok \<notin> set out" "ss_targets s' = targets"
      "ss_previous s' = ss_previous s"
  | (sent) "\<And>i d ok. Datagram i d ok \<in> set out \<longleftrightarrow>
        (\<exists>t \<in> set targets. Datagram i d ok \<in> set (fst (send_target (frame_packets codec frame fi s) fi t)))"
      "ss_targets s' = map (snd \<circ> send_target (frame_packets codec frame fi s) fi) targets"
      "ss_previous s' = fp_packet (frame_packets codec frame fi s)"
      "fp_dtx (frame_packets codec frame fi s) \<and> (\<forall>t \<in> set targets. tg_dtx t) \<or>
         fi_encoded fi = Some (fp_packet (frame_packets codec frame fi s))"
  using assms(1) follow_controls_quiet
  unfolding send_frame_def frame_packets_def targets_def Let_def case_prod_beta
  by (auto split: if_splits intro: that)

lemma send_frame_time:
  "send_frame codec frame fi s = (out, s') \<Longrightarrow> ss_timestamp s' = ss_timestamp s + word_of_nat frame"
  "send_frame codec frame fi s = (out, s') \<Longrightarrow> ss_seq s' = ss_seq s + 1"
  by (auto simp: send_frame_def Let_def case_prod_beta split: if_splits)

lemma sender_datagrams_helper:
  assumes "send_frame codec frame fi s = (out, s')" "Datagram i d ok \<in> set out"
  shows "\<exists>t p. t \<in> set (ss_targets (follow_fanout (fi_fanout fi) s)) \<and> tg_id t = i \<and> \<not> tc_muted (fi_controls fi i) \<and>
     media_decode d = Inr p \<and> mh_route (mp_header p) = tg_route t \<and> mh_codec (mp_header p) = codec \<and>
     mh_sample_timestamp (mp_header p) = ss_timestamp s \<and> mh_seq (mp_header p) = ss_seq s \<and>
     (if flags_contains (mh_flags (mp_header p)) FLAG_DTX then tg_dtx t \<and> codec = Opus \<and> fi_silent fi \<and> mp_payload p = []
      else \<exists>packet. fi_encoded fi = Some packet \<and>
        mp_payload p = (if flags_contains (mh_flags (mp_header p)) FLAG_REDUNDANT
                        then redundant_payload packet (ss_previous s) else packet)) \<and>
     (flags_contains (mh_flags (mp_header p)) FLAG_MARKER \<longleftrightarrow> tg_first t) \<and>
     (flags_contains (mh_flags (mp_header p)) FLAG_DISCONTINUITY \<longleftrightarrow> tg_restart t)"
  using assms(1)
proof (cases rule: send_frame_cases)
  case sent
  let ?fp = "frame_packets codec frame fi s"
  obtain t where t: "t \<in> set (ss_targets (follow_fanout (fi_fanout fi) s))" "Datagram i d ok \<in> set (fst (send_target ?fp fi t))"
    using assms(2) sent(1) by blast
  have silent: "fp_dtx ?fp \<Longrightarrow> codec = Opus \<and> fi_silent fi"
    by (auto simp: frame_packets_def is_dtx_def Let_def split: if_splits)
  from t(2) show ?thesis
  proof (cases rule: send_target_datagram)
    case (1 v)
    have enc: "v \<noteq> SilenceOnly \<Longrightarrow> fi_encoded fi = Some (fp_packet ?fp)" using sent(4) 1(4) t(1) by blast
    have fields: "fp_codec ?fp = codec" "fp_timestamp ?fp = ss_timestamp s" "fp_seq ?fp = ss_seq s" "fp_previous ?fp = ss_previous s"
      by (simp_all add: frame_packets_def Let_def)
    show ?thesis
      using 1 t(1) enc silent
      by (intro exI [of _ t]) (cases v; simp add: variant_flags fields; simp add: variant_packet_def fields flag_defs)
  qed
qed (use assms(2) in auto)

text \<open>C8: Every datagram an encoder group sends is one that the receiving side decodes: to the route of its
  subscriber, with the codec, sample timestamp and sequence number of the frame. It carries the encoding of this
  frame, alone or with the previous packet behind its length, or nothing but the DTX mark, and DTX only to a
  subscriber that understands it. A muted subscriber gets nothing; the first packet of a subscriber is marked,
  and so is the first one after a mute.\<close>

theorem sender_datagrams:
  assumes "send_frame codec frame fi s = (out, s')" "Datagram i d ok \<in> set out"
  shows "\<exists>t p. t \<in> set (ss_targets (follow_fanout (fi_fanout fi) s)) \<and> tg_id t = i \<and> \<not> tc_muted (fi_controls fi i) \<and>
     media_decode d = Inr p \<and> mh_route (mp_header p) = tg_route t \<and> mh_codec (mp_header p) = codec \<and>
     mh_sample_timestamp (mp_header p) = ss_timestamp s \<and> mh_seq (mp_header p) = ss_seq s \<and>
     (if flags_contains (mh_flags (mp_header p)) FLAG_DTX then tg_dtx t \<and> codec = Opus \<and> fi_silent fi \<and> mp_payload p = []
      else \<exists>packet. fi_encoded fi = Some packet \<and>
        mp_payload p = (if flags_contains (mh_flags (mp_header p)) FLAG_REDUNDANT
                        then redundant_payload packet (ss_previous s) else packet)) \<and>
     (flags_contains (mh_flags (mp_header p)) FLAG_MARKER \<longleftrightarrow> tg_first t) \<and>
     (flags_contains (mh_flags (mp_header p)) FLAG_DISCONTINUITY \<longleftrightarrow> tg_restart t)"
  by (rule sender_datagrams_helper [OF assms])

lemma redundant_copy_helper:
  assumes "send_frame codec frame fi0 s = (out0, s1)" "send_frame codec frame fi1 s1 = (out1, s2)"
    and "fi_encoded fi0 \<noteq> None" "Datagram i d ok \<in> set out1" "media_decode d = Inr p"
    and "flags_contains (mh_flags (mp_header p)) FLAG_REDUNDANT"
  shows "\<exists>previous packet. fi_encoded fi0 = Some previous \<and> previous \<noteq> [] \<and> fi_encoded fi1 = Some packet \<and>
     mp_payload p = redundant_payload packet previous \<and> length (mp_payload p) \<le> MAX_MEDIA_PAYLOAD \<and>
     mh_sample_timestamp (mp_header p) = ss_timestamp s + word_of_nat frame"
proof -
  let ?fp = "frame_packets codec frame fi1 s1" and ?before = "frame_packets codec frame fi0 s"
  have time: "ss_timestamp s1 = ss_timestamp s + word_of_nat frame"
    using send_frame_time(1) [OF assms(1)] .
  obtain t v where t: "t \<in> set (ss_targets (follow_fanout (fi_fanout fi1) s1))" "v = SilenceOnly \<longleftrightarrow> fp_dtx ?fp \<and> tg_dtx t"
    "v = Redundant \<Longrightarrow> fp_can_add ?fp"
    "fp_dtx ?fp \<and> (\<forall>t \<in> set (ss_targets (follow_fanout (fi_fanout fi1) s1)). tg_dtx t) \<or> fi_encoded fi1 = Some (fp_packet ?fp)"
    "Inr p = (Inr ((variant_packet (fp_codec ?fp) (fp_timestamp ?fp) (fp_seq ?fp) (fp_packet ?fp) (fp_previous ?fp) v)
       \<lparr>mp_header := (mp_header (variant_packet (fp_codec ?fp) (fp_timestamp ?fp) (fp_seq ?fp) (fp_packet ?fp) (fp_previous ?fp) v))
          \<lparr>mh_route := tg_route t, mh_flags := MediaFlags (flag_bits (mh_flags (mp_header
             (variant_packet (fp_codec ?fp) (fp_timestamp ?fp) (fp_seq ?fp) (fp_packet ?fp) (fp_previous ?fp) v)))
             OR target_flags t)\<rparr>\<rparr>) :: ProtocolError + MediaPacket)"
    using assms(2)
  proof (cases rule: send_frame_cases)
    case sent
    then obtain t where "t \<in> set (ss_targets (follow_fanout (fi_fanout fi1) s1))" "Datagram i d ok \<in> set (fst (send_target ?fp fi1 t))"
      using assms(4) by blast
    from this(2) show ?thesis
    proof (cases rule: send_target_datagram)
      case (1 v)
      show ?thesis by (rule that [of t v]) (use 1 sent(4) assms(5) \<open>t \<in> _\<close> in auto)
    qed
  qed (use assms(4) in auto)
  have v: "v = Redundant" using assms(6) t(5) by (cases v) (auto simp: variant_flags flag_defs)
  then have can: "fp_can_add ?fp" and packet: "fi_encoded fi1 = Some (fp_packet ?fp)" using t by auto
  have fields: "fp_timestamp ?fp = ss_timestamp s1" "fp_previous ?fp = ss_previous s1" by (simp_all add: frame_packets_def Let_def)
  have some: "ss_previous s1 \<noteq> []" "2 + length (fp_packet ?fp) + length (ss_previous s1) \<le> MAX_MEDIA_PAYLOAD"
    using can by (auto simp: frame_packets_def can_add_redundancy_def Let_def split: if_splits)
  have "fi_encoded fi0 = Some (ss_previous s1)"
    using assms(1)
  proof (cases rule: send_frame_cases)
    case sent
    have "fp_packet ?before = []" if "fp_dtx ?before" "\<forall>t \<in> set (ss_targets (follow_fanout (fi_fanout fi0) s)). tg_dtx t"
      using that by (simp add: frame_packets_def Let_def)
    then show ?thesis using sent(3, 4) some by auto
  qed (use some assms(3) in auto)
  then show ?thesis
    using some packet t(5) v by (auto simp: variant_packet_def fields time redundant_payload_def)
qed

text \<open>The second frame of a packet marked redundant is the encoding of the frame before, whose timestamp is one
  frame earlier, if that frame was encoded.\<close>

theorem redundant_copy_is_previous_frame:
  assumes "send_frame codec frame fi0 s = (out0, s1)" "send_frame codec frame fi1 s1 = (out1, s2)"
    and "fi_encoded fi0 \<noteq> None" "Datagram i d ok \<in> set out1" "media_decode d = Inr p"
    and "flags_contains (mh_flags (mp_header p)) FLAG_REDUNDANT"
  shows "\<exists>previous packet. fi_encoded fi0 = Some previous \<and> previous \<noteq> [] \<and> fi_encoded fi1 = Some packet \<and>
     mp_payload p = redundant_payload packet previous \<and> length (mp_payload p) \<le> MAX_MEDIA_PAYLOAD \<and>
     mh_sample_timestamp (mp_header p) = ss_timestamp s + word_of_nat frame"
  by (rule redundant_copy_helper [OF assms])

section \<open>Receivers that were muted\<close>

lemma send_target_id [simp]: "tg_id (snd (send_target fp fi t)) = tg_id t"
  by (simp add: send_target_def Let_def split: sum.split)

text \<open>A muted target is marked to restart; one that is not muted keeps its mark until a datagram is taken.\<close>

lemma send_target_mark:
  assumes "\<forall>d. Datagram (tg_id t) d True \<notin> set (fst (send_target fp fi t))"
  shows "tg_restart (snd (send_target fp fi t)) \<longleftrightarrow> tg_restart t \<or> tc_muted (fi_controls fi (tg_id t))"
proof -
  define v where "v = (if fp_dtx fp \<and> tg_dtx t then SilenceOnly
      else if fp_can_add fp \<and> tc_redundancy (fi_controls fi (tg_id t)) then Redundant else Plain)"
  show ?thesis using assms unfolding send_target_def Let_def v_def [symmetric]
    by (cases "media_encode (variant_packet (fp_codec fp) (fp_timestamp fp) (fp_seq fp) (fp_packet fp) (fp_previous fp) v)") auto
qed

text \<open>The loop goes on before it looks at the subscribers when it needed audio and the encoder failed.\<close>

definition encode_failed :: "Codec \<Rightarrow> nat \<Rightarrow> FrameIn \<Rightarrow> SenderState \<Rightarrow> bool" where
  "encode_failed codec frame fi s \<longleftrightarrow> fi_encoded fi = None \<and>
     \<not> (fp_dtx (frame_packets codec frame fi s) \<and> (\<forall>t \<in> set (ss_targets (follow_fanout (fi_fanout fi) s)). tg_dtx t))"

lemma send_frame_sent:
  assumes "send_frame codec frame fi s = (out, s')" "\<not> encode_failed codec frame fi s"
    and "t \<in> set (ss_targets (follow_fanout (fi_fanout fi) s))"
    and "Datagram i d ok \<in> set (fst (send_target (frame_packets codec frame fi s) fi t))"
  shows "Datagram i d ok \<in> set out"
  using assms unfolding send_frame_def encode_failed_def frame_packets_def Let_def case_prod_beta by (auto split: if_splits)

lemma send_frame_targets:
  assumes "send_frame codec frame fi s = (out, s')"
  shows "ss_targets s' = (if encode_failed codec frame fi s then ss_targets (follow_fanout (fi_fanout fi) s)
    else map (snd \<circ> send_target (frame_packets codec frame fi s) fi) (ss_targets (follow_fanout (fi_fanout fi) s)))"
  using assms unfolding send_frame_def encode_failed_def frame_packets_def Let_def case_prod_beta by (auto split: if_splits)

definition subscribed :: "u64 \<Rightarrow> Fanout \<Rightarrow> bool" where
  "subscribed i fo \<longleftrightarrow> distinct (map fst (fo_entries fo)) \<and> i \<in> fst ` set (fo_entries fo)"

text \<open>Whether the next datagram of a subscriber is to restart its stream.\<close>

definition marked :: "u64 \<Rightarrow> bool \<Rightarrow> Target list \<Rightarrow> bool" where
  "marked i b ts \<longleftrightarrow> distinct (map tg_id ts) \<and> i \<in> tg_id ` set ts \<and> (\<forall>t \<in> set ts. tg_id t = i \<longrightarrow> tg_restart t = b)"

lemma find_some: "t \<in> set ts \<Longrightarrow> P t \<Longrightarrow> \<exists>u. find P ts = Some u \<and> u \<in> set ts \<and> P u"
  by (induction ts) auto

lemma refresh_ids: "map tg_id (refresh_targets fo ts) = map fst (fo_entries fo)"
  by (simp add: refresh_targets_def case_prod_beta Let_def comp_def)

lemma refresh_id_set: "tg_id ` set (refresh_targets fo ts) = fst ` set (fo_entries fo)"
  by (metis list.set_map refresh_ids)

lemma refresh_marked:
  assumes "marked i b ts" "subscribed i fo"
  shows "marked i b (refresh_targets fo ts)"
proof -
  obtain t where t: "t \<in> set ts" "tg_id t = i" using assms(1) by (auto simp: marked_def)
  then obtain u where u: "find (\<lambda>t. tg_id t = i) ts = Some u" "u \<in> set ts" "tg_id u = i"
    using find_some [of t ts "\<lambda>t. tg_id t = i"] by auto
  then have "tg_restart u = b" using assms(1) by (auto simp: marked_def)
  then have "\<forall>t \<in> set (refresh_targets fo ts). tg_id t = i \<longrightarrow> tg_restart t = b"
    using u(1) by (auto simp: refresh_targets_def case_prod_beta Let_def)
  moreover have "i \<in> tg_id ` set (refresh_targets fo ts)" "distinct (map tg_id (refresh_targets fo ts))"
    using assms(2) unfolding refresh_ids refresh_id_set by (auto simp: subscribed_def)
  ultimately show ?thesis by (auto simp: marked_def)
qed

lemma follow_marked:
  "marked i b (ss_targets s) \<Longrightarrow> subscribed i fo \<Longrightarrow> marked i b (ss_targets (follow_fanout fo s))"
  by (simp add: follow_fanout_def refresh_marked)

lemma frame_marked:
  assumes "send_frame codec frame fi s = (out, s')" "marked i b (ss_targets (follow_fanout (fi_fanout fi) s))"
    and "\<And>d. Datagram i d True \<notin> set out"
  shows "marked i (b \<or> tc_muted (fi_controls fi i) \<and> \<not> encode_failed codec frame fi s) (ss_targets s')"
proof (cases "encode_failed codec frame fi s")
  case True
  then show ?thesis using send_frame_targets [OF assms(1)] assms(2) by simp
next
  case False
  let ?fp = "frame_packets codec frame fi s" and ?ts = "ss_targets (follow_fanout (fi_fanout fi) s)"
  have targets: "ss_targets s' = map (snd \<circ> send_target ?fp fi) ?ts"
    using send_frame_targets [OF assms(1)] False by simp
  have "\<forall>d. Datagram (tg_id t) d True \<notin> set (fst (send_target ?fp fi t))" if "t \<in> set ?ts" "tg_id t = i" for t
    using send_frame_sent [OF assms(1) False] assms(3) that by blast
  then have "\<forall>t \<in> set (ss_targets s'). tg_id t = i \<longrightarrow> tg_restart t = (b \<or> tc_muted (fi_controls fi i))"
    using assms(2) send_target_mark [of _ ?fp fi] by (auto simp: marked_def targets)
  moreover have ids: "map tg_id (ss_targets s') = map tg_id ?ts" by (simp add: targets comp_def)
  have "distinct (map tg_id (ss_targets s'))" "i \<in> tg_id ` set (ss_targets s')"
    using assms(2) ids unfolding marked_def by (metis list.set_map)+
  ultimately show ?thesis using False by (simp add: marked_def)
qed

text \<open>A subscriber was muted in one of the frames, and the encoder did not fail on that frame.\<close>

fun mute_seen :: "u64 \<Rightarrow> Codec \<Rightarrow> nat \<Rightarrow> FrameIn list \<Rightarrow> SenderState \<Rightarrow> bool" where
  "mute_seen i codec frame [] s \<longleftrightarrow> False"
| "mute_seen i codec frame (fi # fis) s \<longleftrightarrow>
     tc_muted (fi_controls fi i) \<and> \<not> encode_failed codec frame fi s \<or> mute_seen i codec frame fis (snd (send_frame codec frame fi s))"

lemma frames_marked:
  assumes "send_frames codec frame fis s = (outs, s2)" "marked i b (ss_targets s)" "\<forall>fi \<in> set fis. subscribed i (fi_fanout fi)"
    and "\<forall>out \<in> set outs. \<forall>d. Datagram i d True \<notin> set out"
  shows "marked i (b \<or> mute_seen i codec frame fis s) (ss_targets s2)"
  using assms
proof (induction fis arbitrary: s b outs)
  case (Cons f fis)
  obtain o1 t1 where one: "send_frame codec frame f s = (o1, t1)" by (rule prod.exhaust)
  obtain os where rest: "send_frames codec frame fis t1 = (os, s2)" "outs = o1 # os"
    using Cons.prems(1) one by (cases "send_frames codec frame fis t1") auto
  have "marked i (b \<or> tc_muted (fi_controls f i) \<and> \<not> encode_failed codec frame f s) (ss_targets t1)"
    using frame_marked [OF one follow_marked [OF Cons.prems(2)]] Cons.prems(3, 4) rest(2) by auto
  from Cons.IH [OF rest(1) this] Cons.prems(3, 4) rest(2) show ?case by (simp add: one disj_ac)
qed simp

text \<open>C10: Take a subscriber that stays subscribed over a run of frames none of whose datagrams to it the transport
  takes. The next datagram to it carries the discontinuity flag, so that its receiver starts afresh instead of playing
  across the gap, exactly if it carried that mark before the run or was muted in a frame of the run on which the
  encoder did not fail. (A mute that lasts only over frames that fail to encode leaves no mark: the loop goes on
  before it looks at its subscribers.)\<close>

theorem muted_receiver_resynchronises:
  assumes "send_frame codec frame f1 s = (out1, s1)" "send_frames codec frame fis s1 = (outs, s2)"
    and "marked i b (ss_targets (follow_fanout (fi_fanout f1) s))" "\<forall>fi \<in> set (fis @ [fi2]). subscribed i (fi_fanout fi)"
    and "\<forall>out \<in> set (out1 # outs). \<forall>d. Datagram i d True \<notin> set out"
    and "send_frame codec frame fi2 s2 = (out2, s3)" "Datagram i d ok \<in> set out2"
  shows "\<exists>p. media_decode d = Inr p \<and>
    (flags_contains (mh_flags (mp_header p)) FLAG_DISCONTINUITY \<longleftrightarrow> b \<or> mute_seen i codec frame (f1 # fis) s)"
proof -
  have "marked i (b \<or> tc_muted (fi_controls f1 i) \<and> \<not> encode_failed codec frame f1 s) (ss_targets s1)"
    using frame_marked [OF assms(1, 3)] assms(5) by simp
  from frames_marked [OF assms(2) this] have "marked i (b \<or> mute_seen i codec frame (f1 # fis) s) (ss_targets s2)"
    using assms(1, 4, 5) by (simp add: disj_ac)
  then have "marked i (b \<or> mute_seen i codec frame (f1 # fis) s) (ss_targets (follow_fanout (fi_fanout fi2) s2))"
    using assms(4) by (intro follow_marked) auto
  then show ?thesis using sender_datagrams_helper [OF assms(6, 7)] by (auto simp: marked_def)
qed

section \<open>An example\<close>

definition example_fanout :: Fanout where
  "example_fanout = snd (fanout_subscribe \<lparr>sb_route = 6, sb_dtx = True\<rparr> fanout_default)"

definition example_frame :: "bytes \<Rightarrow> bool \<Rightarrow> FrameIn" where
  "example_frame packet muted =
     \<lparr>fi_fanout = example_fanout,
      fi_controls = (\<lambda>_. \<lparr>tc_muted = muted, tc_bitrate = 64000, tc_expected_loss_pct = 0, tc_redundancy = True\<rparr>),
      fi_silent = False, fi_encoded = Some packet, fi_sent = (\<lambda>_. True)\<rparr>"

lemmas sender_eval = send_frame_def follow_fanout_def follow_controls_def refresh_targets_def example_fanout_def
  fanout_subscribe_def fanout_default_def example_frame_def sender_new_def send_target_def is_dtx_def is_dtx_signal_def
  can_add_redundancy_def variant_packet_def media_encode_def media_consts flags_empty_def patch_def
  dtx_hangover_def DTX_HANGOVER_MS_def Let_def

definition example_state :: "bytes \<Rightarrow> SenderState" where
  "example_state packet = \<lparr>ss_previous = packet, ss_timestamp = 480, ss_seq = 1, ss_silent_frames = 0,
     ss_targets = [\<lparr>tg_id = 0, tg_route = 6, tg_dtx = True, tg_restart = False, tg_first = False\<rparr>],
     ss_generation = 1, ss_bitrate = 64000, ss_loss = 0\<rparr>"

lemma example_first: "snd (send_frame Opus 480 (example_frame [1] False) sender_new) = example_state [1]"
  "\<exists>d. Datagram 0 d True \<in> set (fst (send_frame Opus 480 (example_frame [1] False) sender_new))"
  by (simp_all add: sender_eval example_state_def)

lemma example_second:
  "\<exists>d. Datagram 0 d True \<in> set (fst (send_frame Opus 480 (example_frame [2] False) (example_state [1]))) \<and>
     d ! 3 = FLAG_REDUNDANT \<and> length d = 20 \<and> d ! 0 = 1 \<and> d ! 2 = 2"
  by (simp add: sender_eval example_state_def flags_with_def FLAG_REDUNDANT_def redundant_payload_def put_u16_def codec_as_u8_def)

lemma example_redundant:
  "\<exists>d p. Datagram 0 d True \<in> set (fst (send_frame Opus 480 (example_frame [2] False) (example_state [1]))) \<and>
     media_decode d = Inr p \<and> mh_flags (mp_header p) = MediaFlags FLAG_REDUNDANT"
proof -
  obtain d where d: "Datagram 0 d True \<in> set (fst (send_frame Opus 480 (example_frame [2] False) (example_state [1])))"
    "d ! 3 = FLAG_REDUNDANT" "length d = 20" "d ! 0 = 1" "d ! 2 = 2"
    using example_second by blast
  obtain p where "media_decode d = Inr p" "mh_flags (mp_header p) = MediaFlags FLAG_REDUNDANT"
    using d by (simp add: media_decode_def media_consts codec_try_from_def)
  then show ?thesis using d(1) by blast
qed

lemma example_muted:
  "\<exists>s1. send_frame Opus 480 (example_frame [2] True) (example_state [1]) = ([], s1) \<and>
     (\<exists>d. Datagram 0 d True \<in> set (fst (send_frame Opus 480 (example_frame [3] False) s1)))"
  by (simp add: sender_eval example_state_def flags_with_def redundant_payload_def put_u16_def)

lemma example_targets: "map tg_id (ss_targets (follow_fanout example_fanout (example_state [1]))) = [0]"
  by (simp add: follow_fanout_def example_state_def example_fanout_def fanout_subscribe_def fanout_default_def)

theorem sender_datagrams_witness:
  "\<exists>d p. Datagram 0 d True \<in> set (fst (send_frame Opus 480 (example_frame [1] False) sender_new)) \<and>
     media_decode d = Inr p \<and> mh_route (mp_header p) \<in> tg_route ` set (ss_targets (follow_fanout example_fanout sender_new))"
proof -
  obtain d where d: "Datagram 0 d True \<in> set (fst (send_frame Opus 480 (example_frame [1] False) sender_new))"
    using example_first(2) by blast
  have "fi_fanout (example_frame [1] False) = example_fanout" by (simp add: example_frame_def)
  then show ?thesis
    using sender_datagrams [of Opus 480 "example_frame [1] False" sender_new "fst (send_frame Opus 480 (example_frame [1] False) sender_new)"
        "example_state [1]" 0 d True] d example_first(1)
    by (metis image_eqI prod.collapse)
qed

theorem redundant_copy_is_previous_frame_witness:
  "\<exists>d p. Datagram 0 d True \<in> set (fst (send_frame Opus 480 (example_frame [2] False) (example_state [1]))) \<and>
     media_decode d = Inr p \<and> mp_payload p = redundant_payload [2] [1] \<and> mh_sample_timestamp (mp_header p) = 480"
proof -
  let ?r = "send_frame Opus 480 (example_frame [2] False) (example_state [1])"
  obtain d p where d: "Datagram 0 d True \<in> set (fst ?r)" and p: "media_decode d = Inr p" "mh_flags (mp_header p) = MediaFlags FLAG_REDUNDANT"
    using example_redundant by blast
  have one: "send_frame Opus 480 (example_frame [1] False) sender_new =
      (fst (send_frame Opus 480 (example_frame [1] False) sender_new), example_state [1])"
    using example_first(1) by (metis prod.collapse)
  have flag: "flags_contains (mh_flags (mp_header p)) FLAG_REDUNDANT" by (simp add: p(2) flags_contains_def)
  from redundant_copy_is_previous_frame [OF one prod.collapse [symmetric] _ d p(1) flag]
  have "mp_payload p = redundant_payload [2] [1] \<and> mh_sample_timestamp (mp_header p) = 480"
    by (simp add: example_frame_def sender_new_def)
  then show ?thesis using d p(1) by blast
qed

theorem muted_receiver_resynchronises_witness:
  "\<exists>s1 d p. send_frame Opus 480 (example_frame [2] True) (example_state [1]) = ([], s1) \<and>
     Datagram 0 d True \<in> set (fst (send_frame Opus 480 (example_frame [3] False) s1)) \<and>
     media_decode d = Inr p \<and> flags_contains (mh_flags (mp_header p)) FLAG_DISCONTINUITY"
proof -
  obtain s1 d where run: "send_frame Opus 480 (example_frame [2] True) (example_state [1]) = ([], s1)"
    "Datagram 0 d True \<in> set (fst (send_frame Opus 480 (example_frame [3] False) s1))"
    using example_muted by blast
  have here: "fi_fanout (example_frame b m) = example_fanout" "fi_encoded (example_frame b m) = Some b"
    "tc_muted (fi_controls (example_frame b m) i) = m" for b m i
    by (simp_all add: example_frame_def)
  have sub: "subscribed 0 example_fanout"
    by (simp add: subscribed_def example_fanout_def fanout_subscribe_def fanout_default_def)
  have mark: "marked 0 False (ss_targets (follow_fanout (fi_fanout (example_frame [2] True)) (example_state [1])))"
    by (simp add: marked_def follow_fanout_def example_state_def example_frame_def example_fanout_def fanout_subscribe_def fanout_default_def)
  have "mute_seen 0 Opus 480 [example_frame [2] True] (example_state [1])"
    by (simp add: here encode_failed_def)
  with muted_receiver_resynchronises [where fis = "[]" and outs = "[]", OF run(1) _ mark _ _ prod.collapse [symmetric] run(2)]
  obtain p where "media_decode d = Inr p" "flags_contains (mh_flags (mp_header p)) FLAG_DISCONTINUITY"
    using sub by (auto simp: here)
  then show ?thesis using run by blast
qed

section \<open>A frame that failed to encode\<close>

text \<open>When the encoder fails on a frame, the packet of the frame before it is kept as the previous one: the next packet
  carries it as the copy of the failed frame, whose timestamp the receiver gives it.\<close>

lemma redundant_copy_after_failure:
  "\<exists>s2 d p. send_frame Opus 480 ((example_frame [2] False)\<lparr>fi_encoded := None\<rparr>) (example_state [1]) = ([], s2) \<and>
     ss_timestamp s2 = 960 \<and> ss_previous s2 = [1] \<and>
     Datagram 0 d True \<in> set (fst (send_frame Opus 480 (example_frame [3] False) s2)) \<and> media_decode d = Inr p \<and>
     mp_payload p = redundant_payload [3] [1]"
proof -
  let ?s2 = "(example_state [1])\<lparr>ss_timestamp := 960, ss_seq := 2\<rparr>"
  have fail: "send_frame Opus 480 ((example_frame [2] False)\<lparr>fi_encoded := None\<rparr>) (example_state [1]) = ([], ?s2)"
    by (simp add: sender_eval example_state_def)
  have "\<exists>d. Datagram 0 d True \<in> set (fst (send_frame Opus 480 (example_frame [3] False) ?s2)) \<and>
      d = patch \<lparr>tg_id = 0, tg_route = 6, tg_dtx = True, tg_restart = False, tg_first = False\<rparr>
            ([1, 0, 2, 2] @ put_u64 960 @ put_u32 2 @ redundant_payload [3] [1])"
    by (simp add: sender_eval example_state_def flags_with_def FLAG_REDUNDANT_def redundant_payload_def put_u16_def codec_as_u8_def)
  moreover have "\<exists>p. media_decode (patch \<lparr>tg_id = 0, tg_route = 6, tg_dtx = True, tg_restart = False, tg_first = False\<rparr>
      ([1, 0, 2, 2] @ put_u64 960 @ put_u32 2 @ redundant_payload [3] [1])) = Inr p \<and> mp_payload p = redundant_payload [3] [1]"
    by (simp add: patch_def media_decode_def media_consts codec_try_from_def redundant_payload_def Let_def)
  ultimately show ?thesis using fail by (intro exI [of _ ?s2]) (auto simp: example_state_def)
qed

end
