(* ===== verification/Drift.thy ===== *)
theory Drift
  imports Complex_Main Prelude
begin

text \<open>
  Clock drift compensation (\<open>sp-media/src/drift.rs\<close>): the controller that turns the fill of a buffer into a
  playback ratio, and the resampler that applies the ratio. The code computes with f64 and f32; here numbers are
  exact fractions. The inner loop of the resampler ends only for a positive ratio, so it is a partial function.
\<close>

section \<open>The controller\<close>

definition MAX_CORRECTION :: rat where "MAX_CORRECTION = 5 / 1000"

record DriftController =
  dc_kp :: rat
  dc_ki :: rat
  dc_integral :: rat
  dc_filtered_error :: "rat option"
  dc_ratio :: rat

definition drift_new :: DriftController where
  "drift_new = \<lparr>dc_kp = 2 / 10 ^ 6, dc_ki = 2 / 10 ^ 9, dc_integral = 0, dc_filtered_error = None, dc_ratio = 1\<rparr>"

definition drift_update :: "nat \<Rightarrow> nat \<Rightarrow> DriftController \<Rightarrow> rat \<times> DriftController" where
  "drift_update buffered target c =
     (let error = of_nat buffered - of_nat target;
          filtered = (case dc_filtered_error c of Some prev \<Rightarrow> prev + (error - prev) * (2 / 100) | None \<Rightarrow> error);
          integral = clamp (dc_integral c + filtered) (- 2000000) 2000000;
          correction = clamp (dc_kp c * filtered + dc_ki c * integral) (- MAX_CORRECTION) MAX_CORRECTION;
          ratio = 1 + correction
      in (ratio, c\<lparr>dc_filtered_error := Some filtered, dc_integral := integral, dc_ratio := ratio\<rparr>))"

definition drift_ppm :: "DriftController \<Rightarrow> int" where
  "drift_ppm c = round ((dc_ratio c - 1) * 10 ^ 6)"

definition drift_reset :: "DriftController \<Rightarrow> DriftController" where
  "drift_reset c = c\<lparr>dc_integral := 0, dc_filtered_error := None, dc_ratio := 1\<rparr>"

section \<open>The resampler\<close>

definition hermite :: "rat list \<Rightarrow> rat \<Rightarrow> rat" where
  "hermite h t =
     (let y0 = h ! 0; y1 = h ! 1; y2 = h ! 2; y3 = h ! 3;
          c0 = y1; c1 = (y2 - y0) / 2; c2 = y0 - 5 / 2 * y1 + 2 * y2 - y3 / 2; c3 = (y3 - y0) / 2 + 3 / 2 * (y1 - y2)
      in ((c3 * t + c2) * t + c1) * t + c0)"

text \<open>The history holds the last four input samples of each channel.\<close>

record Resampler =
  rs_channels :: nat
  rs_history :: "rat list list"
  rs_phase :: rat
  rs_primed :: nat

definition resampler_new :: "nat \<Rightarrow> Resampler" where
  "resampler_new channels =
     \<lparr>rs_channels = max channels 1, rs_history = replicate (max channels 1) [0, 0, 0, 0], rs_phase = 0, rs_primed = 0\<rparr>"

definition resampler_reset :: "Resampler \<Rightarrow> Resampler" where
  "resampler_reset r = r\<lparr>rs_history := map (\<lambda>_. [0, 0, 0, 0]) (rs_history r), rs_phase := 0, rs_primed := 0\<rparr>"

text \<open>Output while the read position lies before the next input sample.\<close>

partial_function (option) emit_samples :: "rat list list \<Rightarrow> rat \<Rightarrow> rat \<Rightarrow> (rat list \<times> rat) option" where
  "emit_samples history ratio phase =
     (if phase < 1
      then Option.bind (emit_samples history ratio (phase + ratio))
             (\<lambda>(out, phase'). Some (map (\<lambda>h. hermite h phase) history @ out, phase'))
      else Some ([], phase))"

definition resample_frame :: "rat list \<Rightarrow> rat \<Rightarrow> Resampler \<Rightarrow> (rat list \<times> Resampler) option" where
  "resample_frame samples ratio r =
     (let history = map2 (\<lambda>h x. tl h @ [x]) (rs_history r) samples;
          r1 = r\<lparr>rs_history := history, rs_primed := min (rs_primed r + 1) 4\<rparr>
      in if rs_primed r1 < 4 then Some ([], r1)
         else Option.bind (emit_samples history ratio (rs_phase r))
                (\<lambda>(out, phase). Some (out, r1\<lparr>rs_phase := phase - 1\<rparr>)))"

text \<open>All whole frames of the input; samples of a broken last frame are not read.\<close>

fun resample_frames :: "nat \<Rightarrow> rat list \<Rightarrow> rat \<Rightarrow> Resampler \<Rightarrow> (rat list \<times> Resampler) option" where
  "resample_frames 0 input ratio r = Some ([], r)"
| "resample_frames (Suc n) input ratio r =
     Option.bind (resample_frame (take (rs_channels r) input) ratio r)
       (\<lambda>(out, r1). Option.bind (resample_frames n (drop (rs_channels r) input) ratio r1)
         (\<lambda>(rest, r2). Some (out @ rest, r2)))"

definition resample :: "rat list \<Rightarrow> rat \<Rightarrow> Resampler \<Rightarrow> (rat list \<times> Resampler) option" where
  "resample input ratio r = resample_frames (length input div rs_channels r) input ratio r"

section \<open>The ratio stays near one\<close>

definition drift_ok :: "DriftController \<Rightarrow> bool" where
  "drift_ok c \<longleftrightarrow> dc_kp c = 2 / 10 ^ 6 \<and> dc_ki c = 2 / 10 ^ 9 \<and> - 2000000 \<le> dc_integral c \<and> dc_integral c \<le> 2000000 \<and>
     995 / 1000 \<le> dc_ratio c \<and> dc_ratio c \<le> 1005 / 1000"

lemma drift_new_ok [simp]: "drift_ok drift_new"
  by (simp add: drift_ok_def drift_new_def)

lemma drift_reset_ok [simp]: "drift_ok c \<Longrightarrow> drift_ok (drift_reset c)"
  by (simp add: drift_ok_def drift_reset_def)

lemma drift_update_ratio [simp]: "dc_ratio (snd (drift_update b t c)) = fst (drift_update b t c)"
  by (simp add: drift_update_def Let_def)

lemma drift_update_ok [simp]: "drift_ok c \<Longrightarrow> drift_ok (snd (drift_update b t c))"
proof -
  have "995 / 1000 \<le> 1 + clamp x (- MAX_CORRECTION) MAX_CORRECTION \<and> 1 + clamp x (- MAX_CORRECTION) MAX_CORRECTION \<le> 1005 / 1000" for x
    using clamp_bounds [of "- MAX_CORRECTION" MAX_CORRECTION x] by (simp add: MAX_CORRECTION_def)
  moreover have "- 2000000 \<le> clamp x (- 2000000) (2000000 :: rat) \<and> clamp x (- 2000000) (2000000 :: rat) \<le> 2000000" for x
    by (rule clamp_bounds) simp
  ultimately show "drift_ok c \<Longrightarrow> drift_ok (snd (drift_update b t c))" by (simp add: drift_ok_def drift_update_def Let_def)
qed

section \<open>The resampler ends and keeps count\<close>

text \<open>With a positive ratio the loop ends, and the read position advances by the ratio with every output.\<close>

lemma emit_ends_within:
  "0 < ratio \<Longrightarrow> 1 - phase \<le> of_nat k * ratio \<Longrightarrow>
     \<exists>out m. emit_samples h ratio phase = Some (out, phase + of_nat m * ratio) \<and> length out = m * length h \<and>
       1 \<le> phase + of_nat m * ratio \<and> (m = 0 \<or> phase + of_nat m * ratio < 1 + ratio)"
proof (induction k arbitrary: phase)
  case 0
  then show ?case by (subst emit_samples.simps) auto
next
  case (Suc k)
  show ?case
  proof (cases "phase < 1")
    case True
    have "1 - (phase + ratio) \<le> of_nat k * ratio" using Suc.prems(2) by (simp add: algebra_simps)
    from Suc.IH [OF Suc.prems(1) this] obtain out m where m:
      "emit_samples h ratio (phase + ratio) = Some (out, phase + ratio + of_nat m * ratio)" "length out = m * length h"
      "1 \<le> phase + ratio + of_nat m * ratio" "m = 0 \<or> phase + ratio + of_nat m * ratio < 1 + ratio" by blast
    have "phase + ratio + of_nat m * ratio = phase + of_nat (Suc m) * ratio" by (simp add: algebra_simps)
    then show ?thesis
      using m True by (intro exI [of _ "map (\<lambda>h. hermite h phase) h @ out"] exI [of _ "Suc m"])
        (subst emit_samples.simps, auto)
  next
    case False
    then show ?thesis by (subst emit_samples.simps) auto
  qed
qed

lemma emit_ends:
  assumes "0 < ratio"
  obtains out m where "emit_samples h ratio phase = Some (out, phase + of_nat m * ratio)" "length out = m * length h"
    "1 \<le> phase + of_nat m * ratio" "m = 0 \<or> phase + of_nat m * ratio < 1 + ratio"
proof -
  obtain k :: nat where "(1 - phase) / ratio < of_nat k" using reals_Archimedean2 by blast
  then have "1 - phase \<le> of_nat k * ratio" using assms by (simp add: divide_less_eq)
  from emit_ends_within [OF assms this, of h] show thesis using that by blast
qed

definition resampler_ok :: "Resampler \<Rightarrow> bool" where
  "resampler_ok r \<longleftrightarrow> 0 < rs_channels r \<and> length (rs_history r) = rs_channels r \<and> 0 \<le> rs_phase r \<and> rs_phase r < 2 \<and>
     rs_primed r \<le> 4"

text \<open>The same with another bound on the read position, for ratios from two on.\<close>

definition resampler_within :: "rat \<Rightarrow> Resampler \<Rightarrow> bool" where
  "resampler_within b r \<longleftrightarrow> 0 < rs_channels r \<and> length (rs_history r) = rs_channels r \<and> 0 \<le> rs_phase r \<and> rs_phase r < b \<and>
     rs_primed r \<le> 4"

lemma resampler_ok_within: "resampler_ok r \<longleftrightarrow> resampler_within 2 r"
  by (simp add: resampler_ok_def resampler_within_def)

lemma resampler_new_within [simp]: "0 < b \<Longrightarrow> resampler_within b (resampler_new channels)"
  by (simp add: resampler_within_def resampler_new_def)

lemma resampler_new_ok [simp]: "resampler_ok (resampler_new channels)"
  by (simp add: resampler_ok_def resampler_new_def)

lemma resampler_reset_ok [simp]: "resampler_ok r \<Longrightarrow> resampler_ok (resampler_reset r)"
  by (simp add: resampler_ok_def resampler_reset_def)

lemma resample_frame_counts:
  assumes "resampler_within b r" "0 < ratio" "ratio < b" "length samples = rs_channels r"
  obtains out m r' where "resample_frame samples ratio r = Some (out, r')" "length out = m * rs_channels r" "resampler_within b r'"
    "rs_channels r' = rs_channels r" "rs_primed r' = min (rs_primed r + 1) 4"
    "rs_phase r' = rs_phase r + of_nat m * ratio - (if rs_primed r < 3 then 0 else 1)" "rs_primed r < 3 \<Longrightarrow> m = 0"
    "rs_phase r' \<le> max ratio (rs_phase r)"
proof (cases "rs_primed r < 3")
  case True
  then show thesis using assms that [of "[]" _ 0] by (auto simp: resample_frame_def resampler_within_def Let_def)
next
  case False
  let ?h = "map2 (\<lambda>h x. tl h @ [x]) (rs_history r) samples"
  obtain out m where m: "emit_samples ?h ratio (rs_phase r) = Some (out, rs_phase r + of_nat m * ratio)" "length out = m * length ?h"
    "1 \<le> rs_phase r + of_nat m * ratio" "m = 0 \<or> rs_phase r + of_nat m * ratio < 1 + ratio"
    using emit_ends [OF assms(2)] by blast
  have primed: "min (rs_primed r + 1) 4 = 4" using False by simp
  let ?r = "r\<lparr>rs_history := ?h, rs_primed := min (rs_primed r + 1) 4, rs_phase := rs_phase r + of_nat m * ratio - 1\<rparr>"
  have "\<not> min (rs_primed r + 1) 4 < 4" using primed by simp
  then have "resample_frame samples ratio r = Some (out, ?r)" using m(1) by (simp add: resample_frame_def Let_def)
  moreover have "length ?h = rs_channels r" using assms(1, 4) by (simp add: resampler_within_def)
  moreover have "rs_phase r + of_nat m * ratio - 1 \<le> max ratio (rs_phase r)" using m(4) by (auto simp: le_max_iff_disj)
  moreover have "resampler_within b ?r"
    using assms(1, 3) m(3, 4) calculation(2) by (auto simp: resampler_within_def)
  ultimately show thesis using that [of out ?r m] m(2) primed False by simp
qed

text \<open>Over whole frames: \<open>q\<close> of them were read at a position, once the history was full.\<close>

lemma resample_frames_within:
  assumes "resampler_within b r" "0 < ratio" "ratio < b" "n * rs_channels r \<le> length input"
  shows "\<exists>out m r'. resample_frames n input ratio r = Some (out, r') \<and> length out = m * rs_channels r \<and> resampler_within b r' \<and>
     rs_channels r' = rs_channels r \<and> rs_primed r' = min (rs_primed r + n) 4 \<and>
     rs_phase r' = rs_phase r + of_nat m * ratio - of_nat (n - (3 - rs_primed r)) \<and>
     rs_phase r' \<le> max ratio (rs_phase r)"
  using assms
proof (induction n arbitrary: input r)
  case 0
  then show ?case by (auto simp: resampler_within_def min_absorb1)
next
  case (Suc n)
  let ?c = "rs_channels r"
  have len: "length (take ?c input) = ?c" using Suc.prems(4) by simp
  obtain o1 m1 r1 where one: "resample_frame (take ?c input) ratio r = Some (o1, r1)" "length o1 = m1 * ?c" "resampler_within b r1"
    "rs_channels r1 = ?c" "rs_primed r1 = min (rs_primed r + 1) 4"
    "rs_phase r1 = rs_phase r + of_nat m1 * ratio - (if rs_primed r < 3 then 0 else 1)" "rs_phase r1 \<le> max ratio (rs_phase r)"
    using resample_frame_counts [OF Suc.prems(1-3) len] by metis
  have "n * rs_channels r1 \<le> length (drop ?c input)" using Suc.prems(4) one(4) by simp
  from Suc.IH [OF one(3) Suc.prems(2, 3) this] obtain o2 m2 r2 where two:
    "resample_frames n (drop ?c input) ratio r1 = Some (o2, r2)" "length o2 = m2 * ?c" "resampler_within b r2"
    "rs_channels r2 = ?c" "rs_primed r2 = min (rs_primed r1 + n) 4"
    "rs_phase r2 = rs_phase r1 + of_nat m2 * ratio - of_nat (n - (3 - rs_primed r1))" "rs_phase r2 \<le> max ratio (rs_phase r1)"
    using one(4) by metis
  have run: "resample_frames (Suc n) input ratio r = Some (o1 @ o2, r2)" using one(1) two(1) by simp
  have count: "(if rs_primed r < 3 then 0 else 1) + (n - (3 - rs_primed r1)) = Suc n - (3 - rs_primed r)"
    using one(5) Suc.prems(1) by (auto simp: resampler_within_def)
  have "(of_nat (Suc n - (3 - rs_primed r)) :: rat) = (if rs_primed r < 3 then 0 else 1) + of_nat (n - (3 - rs_primed r1))"
    unfolding count [symmetric] by simp
  then have "rs_phase r2 = rs_phase r + of_nat (m1 + m2) * ratio - of_nat (Suc n - (3 - rs_primed r))"
    using one(6) two(6) by (simp add: algebra_simps)
  moreover have "rs_phase r2 \<le> max ratio (rs_phase r)" using one(7) two(7) by (auto simp: le_max_iff_disj)
  moreover have "rs_primed r2 = min (rs_primed r + Suc n) 4" using one(5) two(5) by auto
  ultimately show ?case using run one(2) two(2-4)
    by (intro exI [of _ "o1 @ o2"] exI [of _ "m1 + m2"] exI [of _ r2]) (simp add: add_mult_distrib)
qed

lemma resample_frames_count:
  assumes "resampler_ok r" "0 < ratio" "ratio < 2" "n * rs_channels r \<le> length input"
  shows "\<exists>out m r'. resample_frames n input ratio r = Some (out, r') \<and> length out = m * rs_channels r \<and> resampler_ok r' \<and>
     rs_channels r' = rs_channels r \<and> rs_primed r' = min (rs_primed r + n) 4 \<and>
     rs_phase r' = rs_phase r + of_nat m * ratio - of_nat (n - (3 - rs_primed r)) \<and>
     rs_phase r' \<le> max ratio (rs_phase r)"
  using resample_frames_within [OF assms(1) [unfolded resampler_ok_within] assms(2-4)] unfolding resampler_ok_within .

lemma resampling_within_ends:
  assumes "resampler_within b r" "0 < ratio" "ratio < b"
  shows "\<exists>out m r'. resample input ratio r = Some (out, r') \<and> resampler_within b r' \<and> rs_channels r' = rs_channels r \<and>
     length out = m * rs_channels r \<and>
     of_nat m * ratio = of_nat (length input div rs_channels r - (3 - rs_primed r)) + (rs_phase r' - rs_phase r) \<and>
     0 \<le> rs_phase r' \<and> rs_phase r' \<le> max ratio (rs_phase r) \<and>
     (b + 3 \<le> of_nat (length input div rs_channels r) \<longrightarrow> 0 < m)"
proof -
  let ?n = "length input div rs_channels r"
  obtain out m r' where r: "resample input ratio r = Some (out, r')" "length out = m * rs_channels r" "resampler_within b r'"
    "rs_channels r' = rs_channels r" "rs_phase r' = rs_phase r + of_nat m * ratio - of_nat (?n - (3 - rs_primed r))"
    "rs_phase r' \<le> max ratio (rs_phase r)"
    using resample_frames_within [OF assms div_times_less_eq_dividend] unfolding resample_def by blast
  have "0 < m" if "b + 3 \<le> of_nat ?n"
  proof (rule ccontr)
    assume "\<not> 0 < m"
    define q where "q = (of_nat (?n - (3 - rs_primed r)) :: rat)"
    have "of_nat ?n - 3 \<le> q" unfolding q_def by (simp add: of_nat_diff_if split: nat_diff_split)
    then have "b \<le> q" using that by simp
    moreover have "rs_phase r' = rs_phase r - q" using r(5) \<open>\<not> 0 < m\<close> by (simp add: q_def del: of_nat_diff)
    moreover have "0 \<le> rs_phase r'" "rs_phase r < b" using r(3) assms(1) by (simp_all add: resampler_within_def)
    ultimately show False by linarith
  qed
  then show ?thesis using r by (intro exI [of _ out] exI [of _ m] exI [of _ r']) (simp add: resampler_within_def)
qed

lemma resampling_ends:
  assumes "resampler_ok r" "0 < ratio" "ratio < 2"
  shows "\<exists>out m r'. resample input ratio r = Some (out, r') \<and> resampler_ok r' \<and> rs_channels r' = rs_channels r \<and>
     length out = m * rs_channels r \<and>
     of_nat m * ratio = of_nat (length input div rs_channels r - (3 - rs_primed r)) + (rs_phase r' - rs_phase r) \<and>
     0 \<le> rs_phase r' \<and> rs_phase r' \<le> max ratio (rs_phase r) \<and>
     (5 \<le> length input div rs_channels r \<longrightarrow> 0 < m)"
proof -
  have "(2 :: rat) + 3 \<le> of_nat n \<longleftrightarrow> 5 \<le> n" for n
    using of_nat_le_iff [of 5 n, where 'a = rat] by simp
  then show ?thesis
    using resampling_within_ends [OF assms(1) [unfolded resampler_ok_within] assms(2, 3), of input] unfolding resampler_ok_within by simp
qed

text \<open>Two blocks one after the other are resampled like the one block of both.\<close>

lemma resample_frame_channels: "resample_frame samples ratio r = Some (out, r') \<Longrightarrow> rs_channels r' = rs_channels r"
  by (auto simp: resample_frame_def Let_def split: if_splits bind_splits)

lemma resample_frames_take:
  "m * rs_channels r \<le> k \<Longrightarrow> resample_frames m (take k input) ratio r = resample_frames m input ratio r"
proof (induction m arbitrary: input r k)
  case (Suc m)
  let ?c = "rs_channels r"
  have first: "take ?c (take k input) = take ?c input" using Suc.prems by (simp add: min_absorb1)
  have rest: "resample_frames m (drop ?c (take k input)) ratio r1 = resample_frames m (drop ?c input) ratio r1"
    if "rs_channels r1 = ?c" for r1
    using Suc.IH [of r1 "k - ?c" "drop ?c input"] Suc.prems that by (simp add: drop_take)
  show ?case
    unfolding resample_frames.simps first
    by (cases "resample_frame (take ?c input) ratio r") (auto simp: rest resample_frame_channels)
qed simp

lemma resample_frames_add:
  "resample_frames (m + n) input ratio r =
     Option.bind (resample_frames m input ratio r) (\<lambda>(o1, r1).
       Option.bind (resample_frames n (drop (m * rs_channels r) input) ratio r1) (\<lambda>(o2, r2). Some (o1 @ o2, r2)))"
proof (induction m arbitrary: input r)
  case 0
  then show ?case by (cases "resample_frames n input ratio r") auto
next
  case (Suc m)
  show ?case
  proof (cases "resample_frame (take (rs_channels r) input) ratio r")
    case (Some p)
    obtain o0 r0 where p: "p = (o0, r0)" by fastforce
    then have "rs_channels r0 = rs_channels r" using Some resample_frame_channels by simp
    then show ?thesis using Some p Suc.IH [of "drop (rs_channels r) input" r0]
      by (auto simp: add.commute bind_assoc split: bind_splits option.splits prod.splits)
  qed simp
qed

lemma resample_channels: "resample input ratio r = Some (out, r') \<Longrightarrow> rs_channels r' = rs_channels r"
proof -
  have "resample_frames n input ratio r = Some (out, r') \<Longrightarrow> rs_channels r' = rs_channels r" for n input r out
    by (induction n arbitrary: input r out) (fastforce split: bind_splits prod.splits dest: resample_frame_channels)+
  then show "resample input ratio r = Some (out, r') \<Longrightarrow> rs_channels r' = rs_channels r"
    by (simp add: resample_def)
qed

lemma resample_append:
  assumes "resample a ratio r = Some (o1, r1)" "resample b ratio r1 = Some (o2, r2)" "rs_channels r dvd length a" "0 < rs_channels r"
  shows "resample (a @ b) ratio r = Some (o1 @ o2, r2)"
proof -
  let ?c = "rs_channels r" and ?m = "length a div rs_channels r"
  have m: "?m * ?c = length a" using assms(3) by simp
  have "rs_channels r1 = ?c"
    using resample_channels assms(1) by blast
  then have "(length (a @ b)) div ?c = ?m + length b div rs_channels r1" using assms(3, 4) by (auto simp: div_plus_div_distrib_dvd_left)
  moreover have "resample_frames ?m (a @ b) ratio r = Some (o1, r1)"
    using resample_frames_take [of ?m r "length a" "a @ b" ratio] assms(1) m by (simp add: resample_def)
  moreover have "drop (?m * ?c) (a @ b) = b" using m by simp
  ultimately show ?thesis using assms(2) by (simp add: resample_def resample_frames_add)
qed

text \<open>Resampling a block with a positive ratio ends, for every block and every state the resampler can be in, and
  keeps exact count: once the history is full, the samples produced, times the ratio, are the samples consumed
  plus the change of the read position, which stays within one step; so over any time no audio is lost or made up
  beyond that step, and a block of five frames or more always yields output.\<close>

theorem resampling_accounts:
  assumes "resampler_ok r" "0 < ratio" "ratio < 2"
  shows "\<exists>out m r'. resample input ratio r = Some (out, r') \<and> resampler_ok r' \<and> rs_channels r' = rs_channels r \<and>
     length out = m * rs_channels r \<and>
     of_nat m * ratio = of_nat (length input div rs_channels r - (3 - rs_primed r)) + (rs_phase r' - rs_phase r) \<and>
     0 \<le> rs_phase r' \<and> rs_phase r' \<le> max ratio (rs_phase r) \<and>
     (5 \<le> length input div rs_channels r \<longrightarrow> 0 < m)"
  by (rule resampling_ends [OF assms])

theorem resampling_accounts_witness:
  "\<exists>out r'. resample (replicate 480 (1 / 2)) (1001 / 1000) (resampler_new 1) = Some (out, r') \<and> out \<noteq> []"
  using resampling_accounts [of "resampler_new 1" "1001 / 1000" "replicate 480 (1 / 2)"]
  by (auto simp: resampler_new_def resampler_ok_def)

end
