(* ===== verification/Signal.thy ===== *)
theory Signal
  imports Complex_Main Prelude
begin

text \<open>
  Signal processing of the audio threads (\<open>sp-media/src/dsp.rs\<close>): gain, limiter, level meter, channel mixing, the
  16-bit sample format, silence, the feedback detector and the duck of a microphone. Samples are exact fractions
  for f32; the functions of the mathematics library (square sqrt_fn, hyperbolic tangent, powers and logarithms of
  ten) are arguments. The state of RNNoise is an argument.
\<close>

section \<open>Levels\<close>

definition db_to_gain :: "(rat \<Rightarrow> rat) \<Rightarrow> rat \<Rightarrow> rat" where
  "db_to_gain pow10 db = pow10 (db / 20)"

definition gain_to_db :: "(rat \<Rightarrow> rat) \<Rightarrow> rat \<Rightarrow> rat" where
  "gain_to_db log10_fn g = (if g \<le> 1 / 10 ^ 6 then - 120 else 20 * log10_fn g)"

record Gain =
  gn_current :: rat
  gn_target :: rat

definition gain_new :: "rat \<Rightarrow> Gain" where
  "gain_new g = \<lparr>gn_current = g, gn_target = g\<rparr>"

definition gain_set :: "rat \<Rightarrow> Gain \<Rightarrow> Gain" where
  "gain_set g gn = gn\<lparr>gn_target := clamp g 0 16\<rparr>"

fun gain_ramp :: "rat \<Rightarrow> rat \<Rightarrow> rat list \<Rightarrow> rat list" where
  "gain_ramp step current [] = []"
| "gain_ramp step current (s # ss) = s * (current + step) # gain_ramp step (current + step) ss"

definition gain_process :: "rat list \<Rightarrow> Gain \<Rightarrow> rat list \<times> Gain" where
  "gain_process samples gn =
     (if \<bar>gn_current gn - gn_target gn\<bar> < 1 / 10 ^ 5
      then (if 1 / 10 ^ 6 < \<bar>gn_current gn - 1\<bar> then map (\<lambda>s. s * gn_current gn) samples else samples, gn)
      else (gain_ramp ((gn_target gn - gn_current gn) / of_nat (max (length samples) 1)) (gn_current gn) samples,
            gn\<lparr>gn_current := gn_target gn\<rparr>))"

section \<open>Limiter and meter\<close>

definition LIMITER_THRESHOLD :: rat where "LIMITER_THRESHOLD = 89 / 100"

text \<open>The hyperbolic tangent is an argument: of it only a positive value of at most 1 for positive arguments is used,
  as in floating point, where it reaches 1.\<close>

definition limit_sample :: "(rat \<Rightarrow> rat) \<Rightarrow> rat \<Rightarrow> rat" where
  "limit_sample tanh_fn s =
     (let t = LIMITER_THRESHOLD; a = \<bar>s\<bar>; headroom = 1 - t
      in if t < a then sgn s * (t + headroom * tanh_fn ((a - t) / headroom)) else s)"

definition limiter_process :: "(rat \<Rightarrow> rat) \<Rightarrow> rat list \<Rightarrow> bool \<times> rat list" where
  "limiter_process tanh_fn samples = (\<exists>s \<in> set samples. LIMITER_THRESHOLD < \<bar>s\<bar>, map (limit_sample tanh_fn) samples)"

record LevelMeter =
  lm_peak :: rat
  lm_rms :: rat

definition meter_default :: LevelMeter where
  "meter_default = \<lparr>lm_peak = 0, lm_rms = 0\<rparr>"

definition meter_process :: "(rat \<Rightarrow> rat) \<Rightarrow> rat list \<Rightarrow> LevelMeter \<Rightarrow> LevelMeter" where
  "meter_process sqrt_fn samples lm =
     (if samples = [] then lm
      else (let peak = fold (\<lambda>s p. max p \<bar>s\<bar>) samples 0;
                rms = sqrt_fn (sum_list (map (\<lambda>s. s * s) samples) / of_nat (length samples))
            in \<lparr>lm_peak = (if lm_peak lm < peak then peak else lm_peak lm * (9 / 10) + peak * (1 / 10)),
                lm_rms = lm_rms lm * (8 / 10) + rms * (2 / 10)\<rparr>))"

section \<open>Channels and sample formats\<close>

definition downmix_frame :: "nat \<Rightarrow> rat list \<Rightarrow> rat \<times> rat" where
  "downmix_frame in_ch frame =
     (if in_ch = 1 then (frame ! 0, frame ! 0)
      else if in_ch = 2 then (frame ! 0, frame ! 1)
      else (let extra = sum_list (drop 2 frame) * (707 / 1000) / of_nat (in_ch - 2)
            in (frame ! 0 * (707 / 1000) + extra, frame ! 1 * (707 / 1000) + extra)))"

definition downmix :: "rat list \<Rightarrow> nat \<Rightarrow> nat \<Rightarrow> rat list" where
  "downmix input in_channels out_channels =
     (let in_ch = max in_channels 1
      in concat (map (\<lambda>f. let (l, r) = downmix_frame in_ch (take in_ch (drop (f * in_ch) input))
                         in if out_channels = 1 then [(l + r) * (1 / 2)] else [l, r])
                   [0 ..< length input div in_ch]))"

fun balance_frames :: "rat \<Rightarrow> rat \<Rightarrow> bool \<Rightarrow> rat list \<Rightarrow> rat list" where
  "balance_frames lg rg to_mono (l # r # rest) =
     (let m = (l + r) * (1 / 2); l' = (if to_mono then m else l); r' = (if to_mono then m else r)
      in l' * lg # r' * rg # balance_frames lg rg to_mono rest)"
| "balance_frames lg rg to_mono rest = rest"

definition balance_and_mono :: "rat \<Rightarrow> bool \<Rightarrow> rat list \<Rightarrow> rat list" where
  "balance_and_mono balance to_mono stereo =
     (let b = clamp balance (- 1) 1
      in balance_frames (if 0 < b then 1 - b else 1) (if b < 0 then 1 + b else 1) to_mono stereo)"

definition s16_to_f32 :: "16 word list \<Rightarrow> rat list" where
  "s16_to_f32 input = map (\<lambda>s. of_int (sint s) / 32768) input"

text \<open>\<open>as i16\<close> cuts off the fraction.\<close>

definition trunc_int :: "rat \<Rightarrow> int" where
  "trunc_int x = (if 0 \<le> x then \<lfloor>x\<rfloor> else \<lceil>x\<rceil>)"

definition f32_to_s16 :: "rat list \<Rightarrow> 16 word list" where
  "f32_to_s16 input = map (\<lambda>s. word_of_int (trunc_int (clamp s (- 1) 1 * 32767))) input"

definition is_silent :: "rat list \<Rightarrow> bool" where
  "is_silent samples \<longleftrightarrow> (\<forall>s \<in> set samples. \<bar>s\<bar> < 1 / 1000)"

section \<open>High-pass filter and noise suppression\<close>

record HighPass =
  hp_b0 :: rat
  hp_b1 :: rat
  hp_b2 :: rat
  hp_a1 :: rat
  hp_a2 :: rat
  hp_state :: "(rat \<times> rat \<times> rat \<times> rat) list"

text \<open>\<open>sin_cos\<close> takes the angle in units of \<open>\<pi>\<close>; \<open>root_half\<close> is the constant \<open>FRAC_1_SQRT_2\<close>.\<close>

definition high_pass_new :: "(rat \<Rightarrow> rat \<times> rat) \<Rightarrow> rat \<Rightarrow> rat \<Rightarrow> nat \<Rightarrow> HighPass" where
  "high_pass_new sin_cos root_half cutoff_hz channels =
     (let (sn, cs) = sin_cos (2 * clamp cutoff_hz 1 20000 / 48000);
          alpha = sn / (2 * root_half); a0 = 1 + alpha
      in \<lparr>hp_b0 = (1 + cs) / 2 / a0, hp_b1 = - (1 + cs) / a0, hp_b2 = (1 + cs) / 2 / a0, hp_a1 = - 2 * cs / a0,
          hp_a2 = (1 - alpha) / a0, hp_state = replicate (max channels 1) (0, 0, 0, 0)\<rparr>)"

definition high_pass_sample :: "HighPass \<Rightarrow> rat \<Rightarrow> rat \<times> rat \<times> rat \<times> rat \<Rightarrow> rat \<times> rat \<times> rat \<times> rat \<times> rat" where
  "high_pass_sample hp x = (\<lambda>(x1, x2, y1, y2).
     let y0 = hp_b0 hp * x + hp_b1 hp * x1 + hp_b2 hp * x2 - hp_a1 hp * y1 - hp_a2 hp * y2;
         y = (if \<bar>y0\<bar> < 1 / 10 ^ 20 then 0 else y0)
     in (y, x, x1, y, y1))"

text \<open>Whole frames only; the samples of an incomplete last frame stay as they are.\<close>

function high_pass_process :: "rat list \<Rightarrow> HighPass \<Rightarrow> rat list \<times> HighPass" where
  "high_pass_process samples hp =
     (let channels = length (hp_state hp)
      in if channels = 0 \<or> length samples < channels then (samples, hp)
         else (let rs = map2 (high_pass_sample hp) (take channels samples) (hp_state hp);
                   (ys, hp') = high_pass_process (drop channels samples) (hp\<lparr>hp_state := map snd rs\<rparr>)
               in (map fst rs @ ys, hp')))"
  by pat_completeness auto
termination
  by (relation "measure (length \<circ> fst)") (auto simp: length_greater_0_conv [symmetric] simp del: length_greater_0_conv)

declare high_pass_process.simps [simp del]

definition high_pass_reset :: "HighPass \<Rightarrow> HighPass" where
  "high_pass_reset hp = hp\<lparr>hp_state := map (\<lambda>_. (0, 0, 0, 0)) (hp_state hp)\<rparr>"

definition RNNOISE_FRAME :: nat where "RNNOISE_FRAME = 480"

text \<open>One RNNoise step on every whole frame, in the range of 16-bit samples; the rest is left alone.\<close>

function noise_suppress :: "('n \<Rightarrow> rat list \<Rightarrow> rat list \<times> 'n) \<Rightarrow> rat list \<Rightarrow> 'n \<Rightarrow> rat list \<times> 'n" where
  "noise_suppress rnn to_mono st =
     (if length to_mono < RNNOISE_FRAME then (to_mono, st)
      else (let (out, st1) = rnn st (map (\<lambda>s. s * 32768) (take RNNOISE_FRAME to_mono));
                (rest, st2) = noise_suppress rnn (drop RNNOISE_FRAME to_mono) st1
            in (map (\<lambda>s. s / 32768) out @ rest, st2)))"
  by pat_completeness auto
termination
  by (relation "measure (\<lambda>(rnn, to_mono, st). length to_mono)") (auto simp: RNNOISE_FRAME_def)

declare noise_suppress.simps [simp del]

section \<open>Feedback\<close>

definition FEEDBACK_CHUNK :: nat where "FEEDBACK_CHUNK = 480"
definition FEEDBACK_MIN_LAG :: nat where "FEEDBACK_MIN_LAG = 12"
definition FEEDBACK_MAX_LAG :: nat where "FEEDBACK_MAX_LAG = 240"
definition FEEDBACK_CHUNKS :: nat where "FEEDBACK_CHUNKS = 80"
definition F32_EPSILON :: rat where "F32_EPSILON = 1 / 2 ^ 23"

record Math =
  mt_sqrt :: "rat \<Rightarrow> rat"
  mt_pow10 :: "rat \<Rightarrow> rat"

definition periodicity :: "Math \<Rightarrow> rat list \<Rightarrow> rat" where
  "periodicity mt chunk =
     (let window = length chunk - FEEDBACK_MAX_LAG; head = take window chunk;
          power = sum_list (map (\<lambda>s. s * s) head)
      in if power \<le> F32_EPSILON then 0
         else fold (\<lambda>lag best.
                let shifted = take window (drop lag chunk);
                    num = sum_list (map2 (*) head shifted); den = sum_list (map (\<lambda>b. b * b) shifted)
                in if F32_EPSILON < den then max best (num / mt_sqrt mt (power * den)) else best)
              [FEEDBACK_MIN_LAG ..< FEEDBACK_MAX_LAG + 1] 0)"

definition chunk_rms :: "Math \<Rightarrow> rat list \<Rightarrow> rat" where
  "chunk_rms mt chunk = mt_sqrt mt (sum_list (map (\<lambda>s. s * s) chunk) / of_nat (length chunk))"

record FeedbackDetector =
  fd_buffer :: "rat list"
  fd_run :: nat
  fd_run_start_rms :: rat
  fd_detected :: bool

definition feedback_new :: FeedbackDetector where
  "feedback_new = \<lparr>fd_buffer = [], fd_run = 0, fd_run_start_rms = 0, fd_detected = False\<rparr>"

definition feedback_reset :: "FeedbackDetector \<Rightarrow> FeedbackDetector" where
  "feedback_reset fd = fd\<lparr>fd_buffer := [], fd_run := 0, fd_run_start_rms := 0, fd_detected := False\<rparr>"

text \<open>A chunk that looks like a howl: loud enough and periodic.\<close>

definition howls :: "Math \<Rightarrow> rat list \<Rightarrow> bool" where
  "howls mt chunk \<longleftrightarrow> \<not> (chunk_rms mt chunk < db_to_gain (mt_pow10 mt) (- 35) \<or> periodicity mt chunk < 9 / 10)"

definition feedback_analyze :: "Math \<Rightarrow> rat list \<Rightarrow> FeedbackDetector \<Rightarrow> FeedbackDetector" where
  "feedback_analyze mt chunk fd =
     (if \<not> howls mt chunk then fd\<lparr>fd_run := 0, fd_detected := False\<rparr>
      else (let rms = chunk_rms mt chunk;
                start = (if fd_run fd = 0 then rms else fd_run_start_rms fd);
                run = (fd_run fd + 1) mod 2 ^ 32;
                grew = (start * (3 / 2) < rms \<or> db_to_gain (mt_pow10 mt) (- 12) < rms)
            in fd\<lparr>fd_run_start_rms := start, fd_run := run, fd_detected := (FEEDBACK_CHUNKS \<le> run \<and> grew)\<rparr>))"

function feedback_chunks :: "Math \<Rightarrow> FeedbackDetector \<Rightarrow> FeedbackDetector" where
  "feedback_chunks mt fd =
     (if FEEDBACK_CHUNK \<le> length (fd_buffer fd)
      then feedback_chunks mt ((feedback_analyze mt (take FEEDBACK_CHUNK (fd_buffer fd)) fd)
             \<lparr>fd_buffer := drop FEEDBACK_CHUNK (fd_buffer fd)\<rparr>)
      else fd)"
  by pat_completeness auto
termination
  by (relation "measure (\<lambda>(mt, fd). length (fd_buffer fd))") (auto simp: FEEDBACK_CHUNK_def)

declare feedback_chunks.simps [simp del]

definition feedback_process :: "Math \<Rightarrow> rat list \<Rightarrow> FeedbackDetector \<Rightarrow> bool \<times> FeedbackDetector" where
  "feedback_process mt to_mono fd =
     (let fd1 = (if FEEDBACK_CHUNK < length (fd_buffer fd) then fd\<lparr>fd_buffer := []\<rparr> else fd);
          fd2 = feedback_chunks mt (fd1\<lparr>fd_buffer := fd_buffer fd1 @ to_mono\<rparr>)
      in (fd_detected fd2, fd2))"

section \<open>Ducking\<close>

definition DUCK_THRESHOLD_DB :: rat where "DUCK_THRESHOLD_DB = - 45"
definition DUCK_DEPTH_DB :: rat where "DUCK_DEPTH_DB = - 18"
definition DUCK_HOLD_BLOCKS :: nat where "DUCK_HOLD_BLOCKS = 20"

record DuckGate =
  dg_gain :: Gain
  dg_target :: rat
  dg_hold :: nat

definition duck_new :: DuckGate where
  "duck_new = \<lparr>dg_gain = gain_new 1, dg_target = 1, dg_hold = 0\<rparr>"

definition duck_process :: "(rat \<Rightarrow> rat) \<Rightarrow> rat list \<Rightarrow> rat \<Rightarrow> DuckGate \<Rightarrow> rat list \<times> DuckGate" where
  "duck_process pow10 samples far_db dg =
     (let dg1 = (if DUCK_THRESHOLD_DB < far_db
                 then dg\<lparr>dg_target := db_to_gain pow10 DUCK_DEPTH_DB, dg_hold := DUCK_HOLD_BLOCKS\<rparr>
                 else if 0 < dg_hold dg then dg\<lparr>dg_hold := dg_hold dg - 1\<rparr>
                 else dg\<lparr>dg_target := 1\<rparr>);
          (out, gn) = gain_process samples (gain_set (dg_target dg1) (dg_gain dg1))
      in (out, dg1\<lparr>dg_gain := gn\<rparr>))"



section \<open>Limiter and gain\<close>

lemma limit_sample_unchanged: "\<bar>s\<bar> \<le> LIMITER_THRESHOLD \<Longrightarrow> limit_sample tanh_fn s = s"
  by (simp add: limit_sample_def Let_def)

lemma limit_sample_loud:
  assumes "\<And>x. 0 < x \<Longrightarrow> 0 < tanh_fn x \<and> tanh_fn x \<le> 1" "LIMITER_THRESHOLD < \<bar>s\<bar>"
  shows "LIMITER_THRESHOLD < \<bar>limit_sample tanh_fn s\<bar>" "\<bar>limit_sample tanh_fn s\<bar> \<le> 1" "sgn (limit_sample tanh_fn s) = sgn s"
proof -
  define t where "t = tanh_fn ((\<bar>s\<bar> - LIMITER_THRESHOLD) / (1 - LIMITER_THRESHOLD))"
  have "0 < (\<bar>s\<bar> - LIMITER_THRESHOLD) / (1 - LIMITER_THRESHOLD)" using assms(2) by (simp add: LIMITER_THRESHOLD_def)
  then have t: "0 < t" "t \<le> 1" using assms(1) unfolding t_def by blast+
  have out: "limit_sample tanh_fn s = sgn s * (LIMITER_THRESHOLD + (1 - LIMITER_THRESHOLD) * t)"
    using assms(2) by (simp add: limit_sample_def t_def Let_def)
  have "s \<noteq> 0" using assms(2) by (auto simp: LIMITER_THRESHOLD_def)
  moreover have "0 < LIMITER_THRESHOLD + (1 - LIMITER_THRESHOLD) * t" using t by (simp add: LIMITER_THRESHOLD_def)
  ultimately show "LIMITER_THRESHOLD < \<bar>limit_sample tanh_fn s\<bar>" "\<bar>limit_sample tanh_fn s\<bar> \<le> 1"
    "sgn (limit_sample tanh_fn s) = sgn s"
    using t by (simp_all add: out abs_mult sgn_mult LIMITER_THRESHOLD_def)
qed

lemma gain_ramp_length [simp]: "length (gain_ramp step c ss) = length ss"
  by (induction ss arbitrary: c) simp_all

lemma gain_process_length [simp]: "length (fst (gain_process ss gn)) = length ss"
  by (simp add: gain_process_def)

text \<open>After a block the gain in use is the one asked for, up to the tolerance of the code.\<close>

lemma gain_settles: "\<bar>gn_current (snd (gain_process ss gn)) - gn_target (snd (gain_process ss gn))\<bar> < 1 / 10 ^ 5"
  "gn_target (snd (gain_process ss gn)) = gn_target gn"
  by (auto simp: gain_process_def)

lemma gain_ramp_bounded:
  assumes "0 \<le> c" "0 \<le> c + of_nat (length ss) * step" "c \<le> m" "c + of_nat (length ss) * step \<le> m" "\<And>s. s \<in> set ss \<Longrightarrow> \<bar>s\<bar> \<le> a"
  shows "\<forall>s \<in> set (gain_ramp step c ss). \<bar>s\<bar> \<le> a * m"
  using assms
proof (induction ss arbitrary: c)
  case (Cons s ss)
  define n :: rat where "n = of_nat (length ss)"
  have n: "0 \<le> n" and range: "0 \<le> c" "c \<le> m" "0 \<le> c + (1 + n) * step" "c + (1 + n) * step \<le> m"
    using Cons.prems by (simp_all add: n_def)
  have mid: "0 \<le> c + step \<and> c + step \<le> m"
  proof (cases "0 \<le> step")
    case True
    then have "0 \<le> n * step" using n by simp
    then show ?thesis using range True by (simp add: algebra_simps)
  next
    case False
    then have "n * step \<le> 0" using n by (simp add: mult_nonneg_nonpos)
    then show ?thesis using range False by (simp add: algebra_simps)
  qed
  have "\<bar>s\<bar> * \<bar>c + step\<bar> \<le> a * m" using mid Cons.prems(5) [of s] by (intro mult_mono) auto
  moreover have "\<forall>x \<in> set (gain_ramp step (c + step) ss). \<bar>x\<bar> \<le> a * m"
    by (rule Cons.IH) (use mid range Cons.prems(5) in \<open>auto simp: n_def algebra_simps\<close>)
  ultimately show ?case by (simp add: abs_mult)
qed simp

lemma gain_bounded:
  assumes "0 \<le> gn_current gn" "0 \<le> gn_target gn" "\<And>s. s \<in> set ss \<Longrightarrow> \<bar>s\<bar> \<le> a"
  shows "\<forall>s \<in> set (fst (gain_process ss gn)). \<bar>s\<bar> \<le> a * max 1 (max (gn_current gn) (gn_target gn))"
proof (cases "\<bar>gn_current gn - gn_target gn\<bar> < 1 / 10 ^ 5")
  case True
  have "\<bar>s\<bar> * gn_current gn \<le> a * max 1 (max (gn_current gn) (gn_target gn))"
    "\<bar>s\<bar> * 1 \<le> a * max 1 (max (gn_current gn) (gn_target gn))" if "s \<in> set ss" for s
    using assms(1) assms(3) [OF that] by (intro mult_mono; force)+
  then show ?thesis using True assms(1) by (auto simp: gain_process_def abs_mult)
next
  case False
  have "\<forall>s \<in> set (gain_ramp ((gn_target gn - gn_current gn) / of_nat (max (length ss) 1)) (gn_current gn) ss).
      \<bar>s\<bar> \<le> a * max 1 (max (gn_current gn) (gn_target gn))"
    by (rule gain_ramp_bounded) (use assms in \<open>cases ss; auto simp: max_def\<close>)+
  then show ?thesis using False by (simp add: gain_process_def)
qed

lemma balance_frames_length [simp]: "length (balance_frames lg rg to_mono xs) = length xs"
proof (induction xs rule: induct_list012)
  case (3 l r rest)
  then show ?case by (simp add: Let_def)
qed simp_all

lemma balance_length [simp]: "length (balance_and_mono balance to_mono xs) = length xs"
  by (simp add: balance_and_mono_def Let_def)

text \<open>The limiter never clips: the library's hyperbolic tangent of a positive number is positive and at most 1 (in
  single precision it reaches 1), so every finite sample gives one within full scale, samples at or below the threshold pass unchanged, louder ones keep
  their sign and stay above the threshold, and it reports limiting exactly when a sample was above it.\<close>

theorem limiter_never_clips:
  assumes "\<And>x. 0 < x \<Longrightarrow> 0 < tanh_fn x \<and> tanh_fn x \<le> 1"
  shows "let (clipped, out) = limiter_process tanh_fn samples
     in length out = length samples \<and> (clipped \<longleftrightarrow> (\<exists>i < length samples. LIMITER_THRESHOLD < \<bar>samples ! i\<bar>)) \<and>
        (\<forall>i < length samples. \<bar>out ! i\<bar> \<le> 1 \<and> sgn (out ! i) = sgn (samples ! i) \<and>
           (if \<bar>samples ! i\<bar> \<le> LIMITER_THRESHOLD then out ! i = samples ! i else LIMITER_THRESHOLD < \<bar>out ! i\<bar>))"
proof -
  have "\<bar>limit_sample tanh_fn s\<bar> \<le> 1 \<and> sgn (limit_sample tanh_fn s) = sgn s \<and>
      (if \<bar>s\<bar> \<le> LIMITER_THRESHOLD then limit_sample tanh_fn s = s else LIMITER_THRESHOLD < \<bar>limit_sample tanh_fn s\<bar>)" for s
  proof (cases "\<bar>s\<bar> \<le> LIMITER_THRESHOLD")
    case True
    then show ?thesis by (simp add: limit_sample_unchanged) (simp add: LIMITER_THRESHOLD_def)
  next
    case False
    then show ?thesis using limit_sample_loud [OF assms] by simp
  qed
  moreover have "(\<exists>s \<in> set samples. LIMITER_THRESHOLD < \<bar>s\<bar>) \<longleftrightarrow> (\<exists>i < length samples. LIMITER_THRESHOLD < \<bar>samples ! i\<bar>)"
    by (metis in_set_conv_nth)
  ultimately show ?thesis by (simp add: limiter_process_def)
qed

section \<open>Sixteen bits\<close>

text \<open>Converting 16-bit samples to floating point and back changes none of them by more than one step, and
  never wraps around.\<close>

theorem s16_roundtrip:
  "length (f32_to_s16 (s16_to_f32 xs)) = length xs \<and>
   (\<forall>i < length xs. \<bar>sint (f32_to_s16 (s16_to_f32 xs) ! i) - sint (xs ! i)\<bar> \<le> 1)"
proof -
  have "\<bar>sint (word_of_int (trunc_int (clamp (of_int (sint w) / 32768) (- 1) 1 * 32767)) :: 16 word) - sint w\<bar> \<le> 1" for w :: "16 word"
  proof -
    define n where "n = sint w"
    have n: "- 32768 \<le> n" "n < 32768" using sint_ge [of w] sint_lt [of w] by (simp_all add: n_def)
    have frac: "- 1 \<le> (of_int n :: rat) / 32768" "(of_int n :: rat) / 32768 \<le> 1"
      using n by (simp_all add: field_simps)
    then have clamped: "clamp ((of_int n :: rat) / 32768) (- 1) 1 = of_int n / 32768" by (simp add: clamp_def)
    have split: "(of_int n :: rat) / 32768 * 32767 = of_int n - of_int n / 32768" by (simp add: field_simps)
    define q :: rat where "q = of_int n / 32768"
    have near: "\<bar>trunc_int (of_int n - q) - n\<bar> \<le> 1 \<and> (0 \<le> n \<longrightarrow> trunc_int (of_int n - q) \<le> n) \<and> (n < 0 \<longrightarrow> n \<le> trunc_int (of_int n - q))"
    proof (cases "0 \<le> n")
      case True
      then have "0 \<le> q" "q \<le> 1" "0 \<le> of_int n - q" using frac by (simp_all add: q_def field_simps)
      then have "\<lfloor>of_int n - q\<rfloor> \<le> n" "n - 1 \<le> \<lfloor>of_int n - q\<rfloor>" by (simp_all add: floor_le_iff le_floor_iff)
      then show ?thesis using True \<open>0 \<le> of_int n - q\<close> by (simp add: trunc_int_def)
    next
      case False
      then have "q < 0" "- 1 \<le> q" using frac by (simp_all add: q_def)
      moreover have "of_int n - q < 0"
      proof -
        have "(of_int n :: rat) - q = of_int n * (32767 / 32768)" by (simp add: q_def field_simps)
        then show ?thesis using False by (simp add: mult_neg_pos)
      qed
      ultimately have "n \<le> \<lceil>of_int n - q\<rceil>" "\<lceil>of_int n - q\<rceil> \<le> n + 1" "\<not> 0 \<le> of_int n - q"
        by (simp_all add: le_ceiling_iff ceiling_le_iff)
      then show ?thesis using False by (simp add: trunc_int_def)
    qed
    moreover have "sint (word_of_int m :: 16 word) = m" if "- 32768 \<le> m" "m < 32768" for m
      using that by (simp add: sint_sbintrunc' signed_take_bit_int_eq_self)
    moreover from near n have "- 32768 \<le> trunc_int (of_int n - q)" "trunc_int (of_int n - q) < 32768" by auto
    ultimately show ?thesis using near by (simp add: n_def [symmetric] clamped [folded q_def] split [folded q_def] q_def [symmetric])
  qed
  then show ?thesis by (simp add: f32_to_s16_def s16_to_f32_def)
qed

section \<open>Ducking\<close>

definition duck_run :: "(rat \<Rightarrow> rat) \<Rightarrow> (rat list \<times> rat) list \<Rightarrow> DuckGate" where
  "duck_run pow10 blocks = fold (\<lambda>(samples, far) dg. snd (duck_process pow10 samples far dg)) blocks duck_new"

text \<open>The far side was heard in one of the last \<open>n\<close> blocks.\<close>

definition heard_within :: "nat \<Rightarrow> (rat list \<times> rat) list \<Rightarrow> bool" where
  "heard_within n blocks \<longleftrightarrow> (\<exists>b \<in> set (take n (rev blocks)). DUCK_THRESHOLD_DB < snd b)"

lemma heard_within_simps:
  "heard_within 0 bs = False" "heard_within n [] = False"
  "heard_within (Suc n) (bs @ [b]) = (DUCK_THRESHOLD_DB < snd b \<or> heard_within n bs)"
  by (auto simp: heard_within_def)

lemma heard_within_mono: "m \<le> n \<Longrightarrow> heard_within m bs \<Longrightarrow> heard_within n bs"
  using set_take_subset_set_take [of m n "rev bs"] by (auto simp: heard_within_def)

lemma duck_process_view:
  "dg_target (snd (duck_process pow10 ss far dg)) =
     (if DUCK_THRESHOLD_DB < far then db_to_gain pow10 DUCK_DEPTH_DB else if 0 < dg_hold dg then dg_target dg else 1)"
  "dg_hold (snd (duck_process pow10 ss far dg)) = (if DUCK_THRESHOLD_DB < far then DUCK_HOLD_BLOCKS else dg_hold dg - 1)"
  by (simp_all add: duck_process_def Let_def case_prod_beta)

lemma duck_process_gain:
  "dg_gain (snd (duck_process pow10 ss far dg)) =
     snd (gain_process ss (gain_set (dg_target (snd (duck_process pow10 ss far dg))) (dg_gain dg)))"
  by (simp add: duck_process_def Let_def case_prod_beta)

lemma duck_run_state:
  "dg_target (duck_run pow10 bs) = (if heard_within 21 bs then db_to_gain pow10 DUCK_DEPTH_DB else 1) \<and>
   dg_hold (duck_run pow10 bs) \<le> 20 \<and> (\<forall>n. 1 \<le> n \<and> n \<le> 20 \<longrightarrow> (n \<le> dg_hold (duck_run pow10 bs) \<longleftrightarrow> heard_within (21 - n) bs))"
proof (induction bs rule: rev_induct)
  case Nil
  then show ?case by (simp add: duck_run_def duck_new_def heard_within_simps)
next
  case (snoc b bs)
  let ?dg = "duck_run pow10 bs"
  have run: "duck_run pow10 (bs @ [b]) = snd (duck_process pow10 (fst b) (snd b) ?dg)"
    by (simp add: duck_run_def case_prod_beta)
  have h21: "heard_within 21 (bs @ [b]) = (DUCK_THRESHOLD_DB < snd b \<or> heard_within 20 bs)"
    using heard_within_simps(3) [of 20] by simp
  have hn: "heard_within (21 - n) (bs @ [b]) = (DUCK_THRESHOLD_DB < snd b \<or> heard_within (20 - n) bs)" if "n \<le> 20" for n
  proof -
    have "21 - n = Suc (20 - n)" using that by simp
    then show ?thesis by (simp only: heard_within_simps)
  qed
  have some: "0 < dg_hold ?dg \<longleftrightarrow> heard_within 20 bs" using snoc.IH by (auto dest: spec [of _ 1])
  have step: "n \<le> dg_hold ?dg - 1 \<longleftrightarrow> heard_within (20 - n) bs" if "1 \<le> n" "n \<le> 20" for n
  proof (cases "n = 20")
    case True
    have "dg_hold ?dg - 1 < 20" using snoc.IH by linarith
    then show ?thesis using True by (simp add: heard_within_simps)
  next
    case False
    then have "Suc n \<le> dg_hold ?dg \<longleftrightarrow> heard_within (21 - Suc n) bs" using snoc.IH that by simp
    then show ?thesis using that by auto
  qed
  show ?case
    using snoc.IH some step heard_within_mono [of 20 21 bs] unfolding run duck_process_view h21
    by (auto simp: hn DUCK_HOLD_BLOCKS_def)
qed

text \<open>The duck lowers the microphone by 18 dB exactly while the far side was heard in this block or one of the
  twenty before it, and otherwise opens it fully; after each block the gain in use is that one, up to the tolerance
  of the gain stage.\<close>

theorem duck_follows_far_side:
  "dg_target (duck_run pow10 blocks) = (if heard_within (DUCK_HOLD_BLOCKS + 1) blocks then db_to_gain pow10 DUCK_DEPTH_DB else 1) \<and>
   \<bar>gn_current (dg_gain (duck_run pow10 blocks)) - clamp (dg_target (duck_run pow10 blocks)) 0 16\<bar> < 1 / 10 ^ 5"
proof -
  have "gn_target (dg_gain (duck_run pow10 blocks)) = clamp (dg_target (duck_run pow10 blocks)) 0 16 \<and>
      \<bar>gn_current (dg_gain (duck_run pow10 blocks)) - gn_target (dg_gain (duck_run pow10 blocks))\<bar> < 1 / 10 ^ 5"
  proof (cases blocks rule: rev_cases)
    case Nil
    then show ?thesis by (simp add: duck_run_def duck_new_def gain_new_def clamp_def)
  next
    case (snoc bs b)
    define dg where "dg = duck_run pow10 bs"
    have run: "duck_run pow10 blocks = snd (duck_process pow10 (fst b) (snd b) dg)"
      by (simp add: snoc dg_def duck_run_def case_prod_beta)
    show ?thesis
      unfolding run duck_process_gain
      using gain_settles [of "fst b" "gain_set (dg_target (snd (duck_process pow10 (fst b) (snd b) dg))) (dg_gain dg)"]
      by (simp add: gain_set_def)
  qed
  moreover have "dg_target (duck_run pow10 blocks) = (if heard_within (DUCK_HOLD_BLOCKS + 1) blocks then db_to_gain pow10 DUCK_DEPTH_DB else 1)"
    using duck_run_state [of pow10 blocks] by (simp add: DUCK_HOLD_BLOCKS_def)
  ultimately show ?thesis by argo
qed

section \<open>Feedback over a whole recording\<close>

definition feedback_run :: "Math \<Rightarrow> rat list list \<Rightarrow> FeedbackDetector" where
  "feedback_run mt blocks = fold (\<lambda>b fd. snd (feedback_process mt b fd)) blocks feedback_new"

text \<open>The whole chunks of a recording, and the samples after the last of them.\<close>

fun whole_chunks :: "nat \<Rightarrow> rat list \<Rightarrow> rat list list" where
  "whole_chunks 0 xs = []"
| "whole_chunks (Suc n) xs = take FEEDBACK_CHUNK xs # whole_chunks n (drop FEEDBACK_CHUNK xs)"

definition chunks_of :: "rat list \<Rightarrow> rat list list" where
  "chunks_of xs = whole_chunks (length xs div FEEDBACK_CHUNK) xs"

definition after_chunks :: "rat list \<Rightarrow> rat list" where
  "after_chunks xs = drop (FEEDBACK_CHUNK * (length xs div FEEDBACK_CHUNK)) xs"

lemma chunks_step:
  assumes "FEEDBACK_CHUNK \<le> length xs"
  shows "chunks_of xs = take FEEDBACK_CHUNK xs # chunks_of (drop FEEDBACK_CHUNK xs)"
    "after_chunks xs = after_chunks (drop FEEDBACK_CHUNK xs)"
proof -
  have "length xs div FEEDBACK_CHUNK = Suc ((length xs - FEEDBACK_CHUNK) div FEEDBACK_CHUNK)"
    using assms by (simp add: le_div_geq FEEDBACK_CHUNK_def)
  then show "chunks_of xs = take FEEDBACK_CHUNK xs # chunks_of (drop FEEDBACK_CHUNK xs)"
    "after_chunks xs = after_chunks (drop FEEDBACK_CHUNK xs)"
    by (simp_all add: chunks_of_def after_chunks_def add.commute)
qed

lemma chunks_short [simp]: "length xs < FEEDBACK_CHUNK \<Longrightarrow> chunks_of xs = [] \<and> after_chunks xs = xs"
  by (simp add: chunks_of_def after_chunks_def)

lemma after_chunks_length: "length (after_chunks xs) < FEEDBACK_CHUNK"
  by (simp add: after_chunks_def FEEDBACK_CHUNK_def flip: minus_mult_div_eq_mod)

lemma chunks_append:
  "chunks_of (xs @ ys) = chunks_of xs @ chunks_of (after_chunks xs @ ys) \<and> after_chunks (xs @ ys) = after_chunks (after_chunks xs @ ys)"
proof (induction xs rule: length_induct)
  case (1 xs)
  show ?case
  proof (cases "FEEDBACK_CHUNK \<le> length xs")
    case True
    then have "length (drop FEEDBACK_CHUNK xs) < length xs" by (simp add: FEEDBACK_CHUNK_def)
    then show ?thesis using 1 chunks_step [OF True] chunks_step [of "xs @ ys"] True by auto
  next
    case False
    then show ?thesis by simp
  qed
qed

lemma analyze_buffer [simp]:
  "fd_buffer (feedback_analyze mt c fd) = fd_buffer fd"
  "feedback_analyze mt c (fd\<lparr>fd_buffer := b\<rparr>) = (feedback_analyze mt c fd)\<lparr>fd_buffer := b\<rparr>"
  by (simp_all add: feedback_analyze_def Let_def)

lemma analyze_all_buffer: "fold (feedback_analyze mt) cs (fd\<lparr>fd_buffer := b\<rparr>) = (fold (feedback_analyze mt) cs fd)\<lparr>fd_buffer := b\<rparr>"
  by (induction cs arbitrary: fd) simp_all

lemma feedback_chunks_all:
  "feedback_chunks mt fd = (fold (feedback_analyze mt) (chunks_of (fd_buffer fd)) fd)\<lparr>fd_buffer := after_chunks (fd_buffer fd)\<rparr>"
proof (induction mt fd rule: feedback_chunks.induct)
  case (1 mt fd)
  show ?case
  proof (cases "FEEDBACK_CHUNK \<le> length (fd_buffer fd)")
    case True
    then show ?thesis
      using 1 [OF True] chunks_step [OF True] by (subst feedback_chunks.simps) (simp add: analyze_all_buffer)
  next
    case False
    then show ?thesis by (subst feedback_chunks.simps) simp
  qed
qed

lemma feedback_run_all:
  "feedback_run mt blocks =
     (fold (feedback_analyze mt) (chunks_of (concat blocks)) feedback_new)\<lparr>fd_buffer := after_chunks (concat blocks)\<rparr>"
proof (induction blocks rule: rev_induct)
  case Nil
  then show ?case by (simp add: feedback_run_def FEEDBACK_CHUNK_def feedback_new_def)
next
  case (snoc b bs)
  let ?fd = "feedback_run mt bs"
  have short: "\<not> FEEDBACK_CHUNK < length (fd_buffer ?fd)" using after_chunks_length [of "concat bs"] by (simp add: snoc)
  have "feedback_run mt (bs @ [b]) = feedback_chunks mt (?fd\<lparr>fd_buffer := fd_buffer ?fd @ b\<rparr>)"
    using short by (simp add: feedback_run_def feedback_process_def Let_def)
  then show ?case using chunks_append [of "concat bs" b] by (simp add: feedback_chunks_all snoc analyze_all_buffer)
qed

text \<open>How many chunks howl without a break up to now, and the condition to report them.\<close>

definition howl_length :: "Math \<Rightarrow> rat list list \<Rightarrow> nat" where
  "howl_length mt cs = length (takeWhile (howls mt) (rev cs))"

definition howl_reported :: "Math \<Rightarrow> rat list list \<Rightarrow> bool" where
  "howl_reported mt cs =
     (let n = howl_length mt cs
      in FEEDBACK_CHUNKS \<le> n \<and>
         (chunk_rms mt (cs ! (length cs - n)) * (3 / 2) < chunk_rms mt (List.last cs) \<or> db_to_gain (mt_pow10 mt) (- 12) < chunk_rms mt (List.last cs)))"

lemma howl_length_le: "howl_length mt cs \<le> length cs"
  using length_takeWhile_le [of "howls mt" "rev cs"] by (simp add: howl_length_def)

lemma howl_length_snoc: "howl_length mt (cs @ [c]) = (if howls mt c then Suc (howl_length mt cs) else 0)"
  by (simp add: howl_length_def)

lemma analyze_all:
  assumes "length cs < 2 ^ 32"
  shows "let fd = fold (feedback_analyze mt) cs feedback_new; n = howl_length mt cs
     in fd_run fd = n \<and> (0 < n \<longrightarrow> fd_run_start_rms fd = chunk_rms mt (cs ! (length cs - n))) \<and> fd_detected fd = howl_reported mt cs"
  using assms
proof (induction cs rule: rev_induct)
  case Nil
  then show ?case by (simp add: feedback_new_def howl_length_def howl_reported_def FEEDBACK_CHUNKS_def)
next
  case (snoc c cs)
  define fd where "fd = fold (feedback_analyze mt) cs feedback_new"
  let ?n = "howl_length mt cs"
  have IH: "fd_run fd = ?n" "0 < ?n \<Longrightarrow> fd_run_start_rms fd = chunk_rms mt (cs ! (length cs - ?n))"
    using snoc by (simp_all add: Let_def fd_def)
  have step: "fold (feedback_analyze mt) (cs @ [c]) feedback_new = feedback_analyze mt c fd" by (simp add: fd_def)
  have le: "?n \<le> length cs" by (rule howl_length_le)
  then have small: "Suc ?n < 2 ^ 32" using snoc.prems by simp
  then have wrap: "Suc ?n mod 4294967296 = Suc ?n" by simp
  have first: "(cs @ [c]) ! (length cs - ?n) = (if ?n = 0 then c else cs ! (length cs - ?n))" using le
    by (auto simp: nth_append dest: le_neq_implies_less)
  show ?case
  proof (cases "howls mt c")
    case True
    then show ?thesis
      using IH wrap first unfolding step by (simp add: feedback_analyze_def howl_reported_def howl_length_snoc Let_def)
  next
    case False
    then show ?thesis unfolding step by (simp add: feedback_analyze_def howl_reported_def howl_length_snoc Let_def FEEDBACK_CHUNKS_def)
  qed
qed

text \<open>However a recording is cut into blocks, feedback is reported after it exactly when its last eighty or more
  whole chunks of 10 ms all howl - loud enough and periodic - and either the level grew by half since the run
  began or it is above -12 dB; one chunk that does not howl ends the report.  The recording is shorter than the
  500 days after which the counter of chunks would wrap.\<close>

theorem feedback_reported_exactly:
  assumes "length (concat blocks) < FEEDBACK_CHUNK * 2 ^ 32"
  shows "fd_detected (feedback_run mt blocks) = howl_reported mt (chunks_of (concat blocks))"
proof -
  have count: "length (whole_chunks n xs) = n" for n xs by (induction n arbitrary: xs) simp_all
  have "length (chunks_of (concat blocks)) < 2 ^ 32"
    using assms by (simp add: chunks_of_def count less_mult_imp_div_less mult.commute)
  then show ?thesis using analyze_all [of "chunks_of (concat blocks)" mt] by (simp add: feedback_run_all Let_def)
qed

section \<open>Examples\<close>

theorem limiter_never_clips_witness:
  "\<bar>snd (limiter_process (\<lambda>x. x / (1 + \<bar>x\<bar>)) [1 / 2, - 3]) ! 1\<bar> \<le> 1"
proof -
  have "(0 :: rat) < x \<Longrightarrow> 0 < x / (1 + \<bar>x\<bar>) \<and> x / (1 + \<bar>x\<bar>) \<le> 1" for x by simp
  from limiter_never_clips [of "\<lambda>x. x / (1 + \<bar>x\<bar>)", OF this, of "[1 / 2, - 3]"] show ?thesis
    by (auto simp: case_prod_beta Let_def dest: spec [of _ 1])
qed

text \<open>A constant level of full scale is perfectly periodic.\<close>

definition example_math :: Math where
  "example_math = \<lparr>mt_sqrt = (\<lambda>x. if x = 57600 then 240 else x), mt_pow10 = (\<lambda>_. 1 / 10)\<rparr>"

lemma fold_max_const: "xs \<noteq> [] \<Longrightarrow> b \<le> 1 \<Longrightarrow> fold (\<lambda>_ b. max b (1 :: rat)) xs b = 1"
  by (induction xs arbitrary: b) (case_tac xs; simp)+

lemma example_howls: "howls example_math (replicate 480 1)" "chunk_rms example_math (replicate 480 1) = 1"
proof -
  have ones: "map2 (*) (replicate 240 1) (replicate 240 (1 :: rat)) = replicate 240 1" by (simp add: map_replicate zip_replicate)
  have "periodicity example_math (replicate 480 1) = fold (\<lambda>_ b. max b 1) [12 ..< 241] 0"
    unfolding periodicity_def Let_def
    by (auto simp: sum_list_replicate ones example_math_def F32_EPSILON_def FEEDBACK_MIN_LAG_def FEEDBACK_MAX_LAG_def min_def
        intro!: fold_cong)
  then have "periodicity example_math (replicate 480 1) = 1" by (simp add: fold_max_const)
  then show "howls example_math (replicate 480 1)" "chunk_rms example_math (replicate 480 1) = 1"
    by (simp_all add: howls_def chunk_rms_def sum_list_replicate db_to_gain_def example_math_def)
qed

lemma whole_chunks_replicate: "whole_chunks n (replicate (480 * n) x) = replicate n (replicate 480 x)"
  by (induction n) (simp_all add: FEEDBACK_CHUNK_def)

theorem feedback_reported_exactly_witness:
  "fd_detected (feedback_run example_math [replicate 30000 1, replicate 8400 1])"
proof -
  have "chunks_of (replicate 38400 (1 :: rat)) = replicate 80 (replicate 480 1)"
    using whole_chunks_replicate [of 80 1] by (simp add: chunks_of_def FEEDBACK_CHUNK_def)
  moreover have "concat [replicate 30000 1, replicate 8400 (1 :: rat)] = replicate 38400 1" by (simp flip: replicate_add)
  moreover have "howl_length example_math (replicate 80 (replicate 480 1)) = 80"
    by (simp add: howl_length_def example_howls takeWhile_eq_all_conv [THEN iffD2])
  then have "howl_reported example_math (replicate 80 (replicate 480 1))"
    using example_howls(2) by (simp add: howl_reported_def FEEDBACK_CHUNKS_def db_to_gain_def example_math_def last_replicate)
  ultimately show ?thesis
    using feedback_reported_exactly [of "[replicate 30000 1, replicate 8400 1]" example_math] by (simp add: FEEDBACK_CHUNK_def)
qed

end
