(* ===== verification/Media_Receiver.thy ===== *)
theory Media_Receiver
  imports Media_Sender Jitter_Buffer Drift Signal
begin

text \<open>
  The receiving end of a route (\<open>pipeline/receiver.rs\<close>): packets queued by the session's dispatcher, and the render
  callback that moves them through the jitter buffer, conceals, compensates drift, and fills the device's buffer
  with the volume, the balance and the level meter applied. The decoder and the noise suppressor are arguments
  (\<open>AudioOps\<close>), with states of any type. Samples are fractions. The loop of a callback ends only if the
  resampler yields output, so it is a partial function, proved to end below.
\<close>

section \<open>Queue\<close>

record InboundPacket =
  ip_timestamp :: nat
  ip_arrival_samples :: nat
  ip_codec :: Codec
  ip_discontinuity :: bool
  ip_redundant :: bool
  ip_dtx :: bool
  ip_payload :: bytes

definition RECEIVE_QUEUE :: nat where "RECEIVE_QUEUE = 1024"

definition inbound :: "nat \<Rightarrow> MediaPacket \<Rightarrow> InboundPacket" where
  "inbound elapsed_us p =
     (let h = mp_header p
      in \<lparr>ip_timestamp = unat (mh_sample_timestamp h), ip_arrival_samples = elapsed_us * 48 div 1000, ip_codec = mh_codec h,
          ip_discontinuity = flags_contains (mh_flags h) FLAG_DISCONTINUITY,
          ip_redundant = flags_contains (mh_flags h) FLAG_REDUNDANT, ip_dtx = flags_contains (mh_flags h) FLAG_DTX,
          ip_payload = mp_payload p\<rparr>)"

text \<open>A full queue means the audio thread stalled; the packet is dropped.\<close>

definition packet_sink_push :: "nat \<Rightarrow> MediaPacket \<Rightarrow> InboundPacket list \<times> nat \<Rightarrow> InboundPacket list \<times> nat" where
  "packet_sink_push elapsed_us p = (\<lambda>(queue, bytes_received).
     (if length queue < RECEIVE_QUEUE then queue @ [inbound elapsed_us p] else queue,
      (bytes_received + length (mp_payload p) + 16) mod 2 ^ 64))"

section \<open>Playout\<close>

record ('d, 'n) AudioOps =
  ao_round :: "rat \<Rightarrow> rat"
  ao_decode :: "'d \<Rightarrow> bytes \<Rightarrow> rat list option \<times> 'd"
  ao_conceal :: "'d \<Rightarrow> rat list \<Rightarrow> rat list \<times> 'd"
  ao_denoiser_new :: 'n
  ao_denoise :: "'n \<Rightarrow> rat list \<Rightarrow> rat list \<times> 'n"
  ao_sqrt :: "rat \<Rightarrow> rat"
  ao_log10 :: "rat \<Rightarrow> rat"

record ReceiverStats =
  sx_packets_received :: nat
  sx_packets_recovered :: nat
  sx_decode_errors :: nat
  sx_packets_missing :: nat
  sx_packets_late :: nat
  sx_underruns :: nat

record PlayoutControls =
  pc_noise_suppression :: bool
  pc_jitter_min_ms :: nat
  pc_jitter_max_ms :: nat
  pc_av_offset_ms :: int
  pc_muted :: bool
  pc_volume :: rat
  pc_balance :: rat
  pc_mono :: bool

record ('d, 'n) Playout =
  po_channels :: nat
  po_frame_samples :: nat
  po_input :: "InboundPacket list"
  po_decoder :: 'd
  po_codec :: Codec
  po_jitter :: "rat JitterBuffer"
  po_drift :: DriftController
  po_resampler :: Resampler
  po_frame_buf :: "rat list"
  po_acc :: "rat list"
  po_gain :: Gain
  po_meter :: LevelMeter
  po_denoiser :: "'n option"
  po_echo :: "rat option"
  po_pulls :: nat
  po_bounds :: "nat \<times> nat \<times> int"
  po_stats :: ReceiverStats

text \<open>\<open>po_echo\<close>: the level this receiver tells the microphones of the device, if it plays on its speakers.\<close>

definition playout_new :: "nat \<Rightarrow> nat \<Rightarrow> 'd \<Rightarrow> Codec \<Rightarrow> PlayoutControls \<Rightarrow> rat option \<Rightarrow> ('d, 'n) Playout" where
  "playout_new frame_us channels decoder codec ctl echo =
     (let frame = samples_per_frame frame_us; lo = pc_jitter_min_ms ctl; hi = pc_jitter_max_ms ctl
      in \<lparr>po_channels = channels, po_frame_samples = frame, po_input = [], po_decoder = decoder, po_codec = codec,
          po_jitter = jitter_new \<lparr>jc_channels = channels, jc_frame_samples = frame, jc_min_delay_ms = lo, jc_max_delay_ms = hi\<rparr>,
          po_drift = drift_new, po_resampler = resampler_new channels, po_frame_buf = replicate (frame * channels) 0,
          po_acc = [], po_gain = gain_new (pc_volume ctl), po_meter = meter_default, po_denoiser = None, po_echo = echo, po_pulls = 0, po_bounds = (lo, hi, 0),
          po_stats = \<lparr>sx_packets_received = 0, sx_packets_recovered = 0, sx_decode_errors = 0, sx_packets_missing = 0,
                      sx_packets_late = 0, sx_underruns = 0\<rparr>\<rparr>)"

definition apply_bounds :: "PlayoutControls \<Rightarrow> ('d, 'n) Playout \<Rightarrow> ('d, 'n) Playout" where
  "apply_bounds ctl po =
     (let lo = pc_jitter_min_ms ctl; hi = pc_jitter_max_ms ctl; offset = pc_av_offset_ms ctl
      in if (lo, hi, offset) \<noteq> po_bounds po
         then (let extra = nat (max offset 0)
               in po\<lparr>po_jitter := set_bounds ((lo + extra) mod 2 ^ 32) ((hi + extra) mod 2 ^ 32) (po_jitter po),
                     po_bounds := (lo, hi, offset)\<rparr>)
         else po)"

section \<open>From the network\<close>

text \<open>The primary packet and the copy of the frame before it, of a packet marked redundant whose length fits.\<close>

definition split_payload :: "bool \<Rightarrow> bytes \<Rightarrow> bytes \<times> bytes option" where
  "split_payload redundant payload =
     (case payload of
        hi # lo # rest \<Rightarrow>
          if redundant
          then (let n = unat (get_u16 [hi, lo])
                in if n \<le> length rest then (take n rest, Some (drop n rest)) else (payload, None))
          else (payload, None)
      | _ \<Rightarrow> (payload, None))"

definition count_stat :: "(ReceiverStats \<Rightarrow> ReceiverStats) \<Rightarrow> ('d, 'n) Playout \<Rightarrow> ('d, 'n) Playout" where
  "count_stat f po = po\<lparr>po_stats := f (po_stats po)\<rparr>"

definition push_decoded :: "('d, 'n) AudioOps \<Rightarrow> nat \<Rightarrow> rat list \<Rightarrow> nat \<Rightarrow> 'd \<Rightarrow> ('d, 'n) Playout \<Rightarrow> ('d, 'n) Playout" where
  "push_decoded ops ts samples arrival decoder po =
     po\<lparr>po_decoder := decoder, po_jitter := jitter_push (ao_round ops) ts samples arrival (po_jitter po)\<rparr>"

text \<open>Rebuild the previous frame if it was lost and can still be played.\<close>

definition recover_previous :: "('d, 'n) AudioOps \<Rightarrow> InboundPacket \<Rightarrow> bytes option \<Rightarrow> ('d, 'n) Playout \<Rightarrow> ('d, 'n) Playout" where
  "recover_previous ops p copy po =
     (case copy of
        None \<Rightarrow> po
      | Some bs \<Rightarrow>
          if bs = [] \<or> ip_timestamp p < po_frame_samples po
             \<or> jitter_has (ip_timestamp p - po_frame_samples po) (po_jitter po) then po
          else (case ao_decode ops (po_decoder po) bs of
                  (Some samples, d) \<Rightarrow>
                    count_stat (\<lambda>st. st\<lparr>sx_packets_recovered := inc64 (sx_packets_recovered st)\<rparr>)
                      (push_decoded ops (ip_timestamp p - po_frame_samples po) samples (ip_arrival_samples p) d po)
                | (None, d) \<Rightarrow> po\<lparr>po_decoder := d\<rparr>))"

definition count_decode_error :: "('d, 'n) Playout \<Rightarrow> ('d, 'n) Playout" where
  "count_decode_error = count_stat (\<lambda>st. st\<lparr>sx_decode_errors := inc64 (sx_decode_errors st)\<rparr>)"

definition drain_packet :: "('d, 'n) AudioOps \<Rightarrow> InboundPacket \<Rightarrow> ('d, 'n) Playout \<Rightarrow> ('d, 'n) Playout" where
  "drain_packet ops p po0 =
     (let po = count_stat (\<lambda>st. st\<lparr>sx_packets_received := inc64 (sx_packets_received st)\<rparr>) po0
      in if ip_codec p \<noteq> po_codec po then count_decode_error po
         else
           (let po1 = (if ip_discontinuity p
                       then po\<lparr>po_jitter := jitter_reset (po_jitter po), po_drift := drift_reset (po_drift po)\<rparr> else po)
            in if ip_dtx p
               then po1\<lparr>po_jitter := push_silence (ao_round ops) (ip_timestamp p) (ip_arrival_samples p) (po_jitter po1)\<rparr>
               else
                 (let (primary, copy) = split_payload (ip_redundant p) (ip_payload p);
                      po2 = recover_previous ops p copy po1
                  in case ao_decode ops (po_decoder po2) primary of
                       (Some samples, d) \<Rightarrow> push_decoded ops (ip_timestamp p) samples (ip_arrival_samples p) d po2
                     | (None, d) \<Rightarrow> count_decode_error (po2\<lparr>po_decoder := d\<rparr>))))"

definition drain_network :: "('d, 'n) AudioOps \<Rightarrow> ('d, 'n) Playout \<Rightarrow> ('d, 'n) Playout" where
  "drain_network ops po = fold (drain_packet ops) (po_input po) (po\<lparr>po_input := []\<rparr>)"

section \<open>To the device\<close>

text \<open>One frame out of the jitter buffer with the ratio to play it at.\<close>

definition next_frame :: "('d, 'n) AudioOps \<Rightarrow> ('d, 'n) Playout \<Rightarrow> rat \<times> ('d, 'n) Playout" where
  "next_frame ops po =
     (let (status, buf, jb) = jitter_pop (po_frame_buf po) (po_jitter po);
          po1 = po\<lparr>po_frame_buf := buf, po_jitter := jb\<rparr>
      in case status of
           Played \<Rightarrow> (let (ratio, drift) = drift_update (buffered_samples jb) (jb_target_samples jb) (po_drift po1)
                     in (ratio, po1\<lparr>po_drift := drift\<rparr>))
         | Missing \<Rightarrow> (let (buf', d) = ao_conceal ops (po_decoder po1) buf
                      in (dc_ratio (po_drift po1), po1\<lparr>po_frame_buf := buf', po_decoder := d\<rparr>))
         | Buffering \<Rightarrow> (1, po1\<lparr>po_frame_buf := fill_zero buf\<rparr>)
         | Silence \<Rightarrow> (dc_ratio (po_drift po1), po1))"

definition suppress_noise :: "('d, 'n) AudioOps \<Rightarrow> bool \<Rightarrow> ('d, 'n) Playout \<Rightarrow> ('d, 'n) Playout" where
  "suppress_noise ops enabled po =
     (if enabled \<and> po_channels po = 1 \<and> po_frame_samples po mod 480 = 0
      then (let n = (case po_denoiser po of None \<Rightarrow> ao_denoiser_new ops | Some n \<Rightarrow> n);
                (buf, n') = ao_denoise ops n (po_frame_buf po)
            in po\<lparr>po_frame_buf := buf, po_denoiser := Some n'\<rparr>)
      else po\<lparr>po_denoiser := None\<rparr>)"

partial_function (option) fill_loop ::
  "('d, 'n) AudioOps \<Rightarrow> bool \<Rightarrow> nat \<Rightarrow> ('d, 'n) Playout \<Rightarrow> ('d, 'n) Playout option" where
  "fill_loop ops denoise wanted po =
     (if length (po_acc po) < wanted
      then (let (ratio, po1) = next_frame ops po;
                po2 = suppress_noise ops denoise po1
            in Option.bind (resample (po_frame_buf po2) ratio (po_resampler po2))
                 (\<lambda>(out, r). fill_loop ops denoise wanted (po2\<lparr>po_resampler := r, po_acc := po_acc po2 @ out\<rparr>)))
      else Some po)"

definition publish_stats :: "('d, 'n) Playout \<Rightarrow> ('d, 'n) Playout" where
  "publish_stats po = count_stat (\<lambda>st. let s = jb_stats (po_jitter po)
     in st\<lparr>sx_packets_missing := js_missing s, sx_packets_late := js_late s, sx_underruns := js_underruns s\<rparr>) po"

text \<open>Volume or mute, balance and the level meter, which also tells the microphones of this device how loud it is.\<close>

definition output_processing :: "('d, 'n) AudioOps \<Rightarrow> PlayoutControls \<Rightarrow> rat list \<Rightarrow> ('d, 'n) Playout \<Rightarrow> rat list \<times> ('d, 'n) Playout" where
  "output_processing ops ctl out po =
     (let (out1, gain) = gain_process out (gain_set (if pc_muted ctl then 0 else pc_volume ctl) (po_gain po));
          out2 = (if po_channels po = 2 then balance_and_mono (pc_balance ctl) (pc_mono ctl) out1 else out1);
          meter = meter_process (ao_sqrt ops) out2 (po_meter po)
      in (out2, po\<lparr>po_gain := gain, po_meter := meter,
                  po_echo := map_option (\<lambda>_. gain_to_db (ao_log10 ops) (lm_peak meter)) (po_echo po)\<rparr>))"

text \<open>The render callback for \<open>wanted\<close> samples.\<close>

definition fill :: "('d, 'n) AudioOps \<Rightarrow> PlayoutControls \<Rightarrow> nat \<Rightarrow> ('d, 'n) Playout \<Rightarrow> (rat list \<times> ('d, 'n) Playout) option" where
  "fill ops ctl wanted po =
     Option.bind (fill_loop ops (pc_noise_suppression ctl) wanted (drain_network ops (apply_bounds ctl po)))
       (\<lambda>po1.
          let (out, po1') = output_processing ops ctl (take wanted (po_acc po1)) (po1\<lparr>po_acc := drop wanted (po_acc po1)\<rparr>);
              po2 = po1'\<lparr>po_pulls := po_pulls po1' + 1\<rparr>;
              po3 = (if po_pulls po2 mod 25 = 0 then publish_stats po2 else po2);
              po4 = (if po_pulls po3 mod 100 = 0 then po3\<lparr>po_jitter := adapt (po_jitter po3)\<rparr> else po3)
          in Some (out, po4))"

section \<open>What stays true of a playout\<close>

definition audio_ops_ok :: "('d, 'n) AudioOps \<Rightarrow> bool" where
  "audio_ops_ok ops \<longleftrightarrow> (\<forall>d buf. length (fst (ao_conceal ops d buf)) = length buf) \<and>
     (\<forall>n buf. length (fst (ao_denoise ops n buf)) = length buf)"

definition playout_ok :: "('d, 'n) Playout \<Rightarrow> bool" where
  "playout_ok po \<longleftrightarrow> 0 < po_channels po \<and> 5 \<le> po_frame_samples po \<and>
     length (po_frame_buf po) = po_frame_samples po * po_channels po \<and> jitter_wf (po_jitter po) \<and> drift_ok (po_drift po) \<and>
     resampler_ok (po_resampler po) \<and> rs_channels (po_resampler po) = po_channels po"

lemma playout_new_ok: "0 < channels \<Longrightarrow> 5 \<le> samples_per_frame frame_us \<Longrightarrow> playout_ok (playout_new frame_us channels d codec ctl echo)"
  by (simp add: playout_ok_def playout_new_def new_wf Let_def) (simp add: resampler_new_def)

lemma length_pop_missing: "length (fst (snd (pop_missing p out jb))) = length out"
  by (simp add: pop_missing_def fill_zero_def Let_def)

lemma length_pop_at: "length (fst (snd (pop_at p out jb))) = length out"
  by (cases "map_of (jb_frames jb) p")
    (simp_all add: pop_at_def play_silence_def fill_zero_def length_pop_missing Let_def)

lemma length_pop: "jitter_wf jb \<Longrightarrow> length (fst (snd (jitter_pop out jb))) = length out"
  by (simp add: pop_unfold fill_zero_def length_pop_at split: option.split)

lemma count_stat_ok [simp]: "playout_ok (count_stat f po) = playout_ok po"
  by (simp add: count_stat_def playout_ok_def)

lemma apply_bounds_ok: "playout_ok po \<Longrightarrow> playout_ok (apply_bounds ctl po)"
  using wf_simple_ops by (auto simp: apply_bounds_def playout_ok_def Let_def)

lemma push_decoded_ok: "playout_ok po \<Longrightarrow> playout_ok (push_decoded ops ts samples arrival d po)"
  by (simp add: push_decoded_def playout_ok_def push_wf)

lemma recover_previous_ok: "playout_ok po \<Longrightarrow> playout_ok (recover_previous ops p copy po)"
  by (auto simp: recover_previous_def push_decoded_ok split: option.split prod.split) (simp add: playout_ok_def)

lemma drain_packet_ok: "playout_ok po \<Longrightarrow> playout_ok (drain_packet ops p po)"
proof -
  assume ok: "playout_ok po"
  let ?po = "count_stat (\<lambda>st. st\<lparr>sx_packets_received := inc64 (sx_packets_received st)\<rparr>) po"
  define po1 where "po1 = (if ip_discontinuity p
      then ?po\<lparr>po_jitter := jitter_reset (po_jitter ?po), po_drift := drift_reset (po_drift ?po)\<rparr> else ?po)"
  have ok0: "playout_ok ?po" using ok by simp
  have ok1: "playout_ok po1"
    using ok0 wf_simple_ops(3) [of "po_jitter ?po"] by (auto simp: po1_def playout_ok_def)
  have silence: "playout_ok (po1\<lparr>po_jitter := push_silence fl ts a (po_jitter po1)\<rparr>)" for fl ts a
    using ok1 by (simp add: playout_ok_def push_silence_def push_wf)
  have decoder: "playout_ok (po'\<lparr>po_decoder := d\<rparr>) = playout_ok po'" for po' :: "('a, 'b) Playout" and d
    by (simp add: playout_ok_def)
  have rest: "playout_ok (case ao_decode ops (po_decoder po2) primary of
      (Some samples, d) \<Rightarrow> push_decoded ops (ip_timestamp p) samples (ip_arrival_samples p) d po2
    | (None, d) \<Rightarrow> count_decode_error (po2\<lparr>po_decoder := d\<rparr>))"
    if "playout_ok po2" for po2 primary
    using that push_decoded_ok [OF that] by (auto simp: count_decode_error_def decoder split: option.split prod.split)
  have def: "drain_packet ops p po = (if ip_codec p \<noteq> po_codec ?po then count_decode_error ?po
      else if ip_dtx p then po1\<lparr>po_jitter := push_silence (ao_round ops) (ip_timestamp p) (ip_arrival_samples p) (po_jitter po1)\<rparr>
      else (let (primary, copy) = split_payload (ip_redundant p) (ip_payload p); po2 = recover_previous ops p copy po1
            in case ao_decode ops (po_decoder po2) primary of
                 (Some samples, d) \<Rightarrow> push_decoded ops (ip_timestamp p) samples (ip_arrival_samples p) d po2
               | (None, d) \<Rightarrow> count_decode_error (po2\<lparr>po_decoder := d\<rparr>)))"
    by (simp only: drain_packet_def po1_def Let_def)
  show ?thesis
    unfolding def using ok0 silence rest [OF recover_previous_ok [OF ok1]]
    by (simp add: count_decode_error_def Let_def case_prod_beta)
qed

lemma drain_packets_ok: "playout_ok po \<Longrightarrow> playout_ok (fold (drain_packet ops) ps po)"
  by (induction ps arbitrary: po) (simp_all add: drain_packet_ok)

lemma drain_network_ok: "playout_ok po \<Longrightarrow> playout_ok (drain_network ops po)"
  unfolding drain_network_def by (rule drain_packets_ok) (simp add: playout_ok_def)

section \<open>The callback ends\<close>

lemma next_frame_ok:
  assumes "audio_ops_ok ops" "playout_ok po" "next_frame ops po = (ratio, po')"
  shows "playout_ok po'" "po_acc po' = po_acc po" "995 / 1000 \<le> ratio" "ratio \<le> 1005 / 1000"
proof -
  obtain status buf jb where pop: "jitter_pop (po_frame_buf po) (po_jitter po) = (status, buf, jb)" by (metis prod_cases3)
  have wf: "jitter_wf (po_jitter po)" "drift_ok (po_drift po)" using assms(2) by (simp_all add: playout_ok_def)
  have jb: "jitter_wf jb" "length buf = length (po_frame_buf po)"
    using pop_wf [OF wf(1), of "po_frame_buf po"] length_pop [OF wf(1), of "po_frame_buf po"] pop by simp_all
  have conceal: "length (fst (ao_conceal ops d b)) = length b" for d b using assms(1) by (simp add: audio_ops_ok_def)
  have ratio: "995 / 1000 \<le> fst (drift_update b t (po_drift po)) \<and> fst (drift_update b t (po_drift po)) \<le> 1005 / 1000" for b t
    using drift_update_ok [OF wf(2), of b t] drift_update_ratio [of b t "po_drift po"] by (simp add: drift_ok_def)
  have held: "995 / 1000 \<le> dc_ratio (po_drift po)" "dc_ratio (po_drift po) \<le> 1005 / 1000" using wf(2) by (simp_all add: drift_ok_def)
  have "playout_ok po' \<and> po_acc po' = po_acc po \<and> 995 / 1000 \<le> ratio \<and> ratio \<le> 1005 / 1000"
    using assms(2, 3) jb ratio held conceal drift_update_ok [OF wf(2)] unfolding next_frame_def pop
    by (cases status) (auto simp: playout_ok_def fill_zero_def case_prod_beta Let_def)
  then show "playout_ok po'" "po_acc po' = po_acc po" "995 / 1000 \<le> ratio" "ratio \<le> 1005 / 1000" by auto
qed

lemma suppress_noise_ok:
  assumes "audio_ops_ok ops" "playout_ok po"
  shows "playout_ok (suppress_noise ops enabled po)" "po_acc (suppress_noise ops enabled po) = po_acc po"
  using assms by (auto simp: suppress_noise_def audio_ops_ok_def playout_ok_def Let_def case_prod_beta)

lemma fill_loop_ends_within:
  "audio_ops_ok ops \<Longrightarrow> playout_ok po \<Longrightarrow> wanted \<le> length (po_acc po) + k \<Longrightarrow>
     \<exists>po'. fill_loop ops denoise wanted po = Some po' \<and> playout_ok po' \<and> wanted \<le> length (po_acc po')"
proof (induction k arbitrary: po)
  case 0
  then show ?case by (subst fill_loop.simps) auto
next
  case (Suc k)
  show ?case
  proof (cases "length (po_acc po) < wanted")
    case True
    obtain ratio po1 where nf: "next_frame ops po = (ratio, po1)" by (rule prod.exhaust)
    define po2 where "po2 = suppress_noise ops denoise po1"
    have ok2: "playout_ok po2" "po_acc po2 = po_acc po" and ratio: "0 < ratio" "ratio < 2"
      using next_frame_ok [OF Suc.prems(1, 2) nf] suppress_noise_ok [OF Suc.prems(1), of po1 denoise] by (simp_all add: po2_def)
    let ?r = "po_resampler po2"
    have "length (po_frame_buf po2) div rs_channels ?r = po_frame_samples po2" "resampler_ok ?r" "5 \<le> po_frame_samples po2"
      using ok2(1) by (auto simp: playout_ok_def)
    then obtain out m r' where rs: "resample (po_frame_buf po2) ratio ?r = Some (out, r')" "resampler_ok r'"
      "rs_channels r' = rs_channels ?r" "length out = m * rs_channels ?r" "0 < m"
      using resampling_ends [of ?r ratio "po_frame_buf po2"] ratio by auto
    let ?po3 = "po2\<lparr>po_resampler := r', po_acc := po_acc po2 @ out\<rparr>"
    have ok3: "playout_ok ?po3" using ok2(1) rs(2, 3) by (simp add: playout_ok_def)
    have "0 < length out" using rs(2-5) by (simp add: resampler_ok_def)
    then have "wanted \<le> length (po_acc po) + length out + k" using Suc.prems(3) by linarith
    then have "wanted \<le> length (po_acc ?po3) + k" using ok2(2) by simp
    from Suc.IH [OF Suc.prems(1) ok3 this] show ?thesis
      using True nf rs(1) by (subst fill_loop.simps) (simp add: po2_def [symmetric] Let_def)
  next
    case False
    then show ?thesis using Suc.prems(2) by (subst fill_loop.simps) auto
  qed
qed

lemma output_processing_facts:
  "length (fst (output_processing ops ctl out po)) = length out"
  "playout_ok (snd (output_processing ops ctl out po)) = playout_ok po"
  "\<bar>gn_current (po_gain (snd (output_processing ops ctl out po))) - clamp (if pc_muted ctl then 0 else pc_volume ctl) 0 16\<bar> < 1 / 10 ^ 5"
proof -
  show "length (fst (output_processing ops ctl out po)) = length out"
    "playout_ok (snd (output_processing ops ctl out po)) = playout_ok po"
    by (simp_all add: output_processing_def case_prod_beta Let_def playout_ok_def)
  show "\<bar>gn_current (po_gain (snd (output_processing ops ctl out po))) - clamp (if pc_muted ctl then 0 else pc_volume ctl) 0 16\<bar> < 1 / 10 ^ 5"
    using gain_settles [of out "gain_set (if pc_muted ctl then 0 else pc_volume ctl) (po_gain po)"]
    by (simp add: output_processing_def case_prod_beta Let_def gain_set_def)
qed

text \<open>C7: A render callback always ends and gives the device exactly the samples it asked for, whatever packets have
  arrived, whatever the decoder makes of them, and whatever the jitter buffer answers; afterwards the jitter
  buffer is well-formed and the playback ratio within half a percent of one, so the next callback ends too, and
  the gain has reached the volume set, zero when muted, up to the tolerance of the gain stage.\<close>

theorem render_callback_ends:
  assumes "audio_ops_ok ops" "playout_ok po"
  shows "\<exists>out po'. fill ops ctl wanted po = Some (out, po') \<and> length out = wanted \<and> playout_ok po' \<and>
     \<bar>gn_current (po_gain po') - clamp (if pc_muted ctl then 0 else pc_volume ctl) 0 16\<bar> < 1 / 10 ^ 5"
proof -
  have ok: "playout_ok (drain_network ops (apply_bounds ctl po))" by (intro drain_network_ok apply_bounds_ok assms(2))
  obtain po1 where po1: "fill_loop ops (pc_noise_suppression ctl) wanted (drain_network ops (apply_bounds ctl po)) = Some po1"
    "playout_ok po1" "wanted \<le> length (po_acc po1)"
    using fill_loop_ends_within [OF assms(1) ok, of wanted wanted] by auto
  obtain out po2 where op: "output_processing ops ctl (take wanted (po_acc po1)) (po1\<lparr>po_acc := drop wanted (po_acc po1)\<rparr>) = (out, po2)"
    by (rule prod.exhaust)
  have two: "length out = wanted" "playout_ok po2"
    "\<bar>gn_current (po_gain po2) - clamp (if pc_muted ctl then 0 else pc_volume ctl) 0 16\<bar> < 1 / 10 ^ 5"
    using output_processing_facts [of ops ctl "take wanted (po_acc po1)" "po1\<lparr>po_acc := drop wanted (po_acc po1)\<rparr>"] po1(2, 3)
    unfolding op by (simp_all add: playout_ok_def)
  have pulled: "playout_ok (p\<lparr>po_pulls := n\<rparr>) = playout_ok p" for p :: "('a, 'b) Playout" and n by (simp add: playout_ok_def)
  have adapted: "playout_ok (p\<lparr>po_jitter := adapt (po_jitter p)\<rparr>)" if "playout_ok p" for p :: "('a, 'b) Playout"
    using that by (simp add: playout_ok_def wf_simple_ops(2))
  have published: "playout_ok (publish_stats p) = playout_ok p" "po_gain (publish_stats p) = po_gain p" for p :: "('a, 'b) Playout"
    by (simp add: publish_stats_def) (simp add: publish_stats_def count_stat_def)
  show ?thesis
    using po1(1) op two by (simp add: fill_def Let_def published adapted pulled)
qed

section \<open>Lost packets\<close>

lemma split_redundant_payload:
  assumes "length packet < 2 ^ 16"
  shows "split_payload True (redundant_payload packet previous) = (packet, Some previous)"
proof -
  obtain hi lo where hl: "put_u16 (word_of_nat (length packet)) = [hi, lo]"
    using length_puts(1) [of "word_of_nat (length packet)"] by (auto simp: length_Suc_conv numeral_2_eq_2 simp del: length_puts)
  then have "get_u16 [hi, lo] = word_of_nat (length packet)" using get_u16_put by metis
  then have "unat (get_u16 [hi, lo]) = length packet" using assms by (simp add: unat_of_nat take_bit_nat_eq_self_iff)
  then show ?thesis by (simp add: redundant_payload_def hl split_payload_def Let_def)
qed

text \<open>C6: From end to end, a single lost packet costs nothing when redundancy is on: of two successive frames of an
  encoder group, the datagram of the second alone, decoded and drained at a receiver that misses the first, puts
  both frames into the jitter buffer at their own timestamps, the lost one decoded from exactly the bytes its own
  packet would have carried, and counts it as recovered.\<close>

theorem single_loss_recovered:
  assumes "send_frame codec frame fi0 s = (out0, s1)" "send_frame codec frame fi1 s1 = (out1, s2)"
    and "fi_encoded fi0 = Some lost" "Datagram i d ok \<in> set out1" "media_decode d = Inr p"
    and "flags_contains (mh_flags (mp_header p)) FLAG_REDUNDANT" "\<not> flags_contains (mh_flags (mp_header p)) FLAG_DISCONTINUITY"
    and "unat (ss_timestamp s) + frame < 2 ^ 64" "po_frame_samples po = frame" "po_codec po = codec"
    and "\<not> jitter_has (unat (ss_timestamp s)) (po_jitter po)"
    and "ao_decode ops (po_decoder po) lost = (Some xs, d1)" "fi_encoded fi1 = Some packet" "ao_decode ops d1 packet = (Some ys, d2)"
  shows "let po' = drain_packet ops (inbound elapsed p) po; arrival = elapsed * 48 div 1000; t = unat (ss_timestamp s)
     in po_jitter po' = jitter_push (ao_round ops) (t + frame) ys arrival (jitter_push (ao_round ops) t xs arrival (po_jitter po)) \<and>
        po_decoder po' = d2 \<and>
        sx_packets_recovered (po_stats po') = inc64 (sx_packets_recovered (po_stats po)) \<and>
        sx_decode_errors (po_stats po') = sx_decode_errors (po_stats po)"
proof -
  obtain t where head: "mh_codec (mp_header p) = codec" "flags_contains (mh_flags (mp_header p)) FLAG_DTX \<Longrightarrow> mp_payload p = []"
    using sender_datagrams_helper [OF assms(2, 4)] assms(5) by (auto split: if_splits)
  obtain prev pkt where copy: "fi_encoded fi0 = Some prev" "prev \<noteq> []" "fi_encoded fi1 = Some pkt"
    "mp_payload p = redundant_payload pkt prev" "length (mp_payload p) \<le> MAX_MEDIA_PAYLOAD"
    "mh_sample_timestamp (mp_header p) = ss_timestamp s + word_of_nat frame"
    using redundant_copy_helper [OF assms(1, 2) _ assms(4-6)] assms(3) by auto
  have same: "prev = lost" "pkt = packet" using copy(1, 3) assms(3, 13) by simp_all
  have time: "unat (ss_timestamp s + word_of_nat frame) = unat (ss_timestamp s) + frame"
  proof -
    have "unat (word_of_nat frame :: u64) = frame" using assms(8) by (simp add: unat_of_nat take_bit_nat_eq_self_iff)
    then show ?thesis using assms(8) by (simp add: unat_plus_simple [THEN iffD1] unat_word_ariths(1))
  qed
  have "mp_payload p \<noteq> []" using copy(2, 4) by (simp add: redundant_payload_def)
  then have audio: "\<not> flags_contains (mh_flags (mp_header p)) FLAG_DTX" using head(2) by blast
  have "length packet < 2 ^ 16" using copy(4, 5) same by (simp add: redundant_payload_def media_consts)
  note split = split_redundant_payload [OF this, of lost]
  have "lost \<noteq> []" using copy(2) same by simp
  then show ?thesis
    using assms(6, 7, 9-14) head(1) audio copy(4, 6) same time split
    by (simp add: drain_packet_def inbound_def recover_previous_def push_decoded_def count_stat_def Let_def)
qed

section \<open>An example\<close>

text \<open>A decoder that gives one sample per byte, and keeps frames as they are where it conceals.\<close>

definition example_audio_ops :: "(unit, unit) AudioOps" where
  "example_audio_ops = \<lparr>ao_round = (\<lambda>x. x), ao_decode = (\<lambda>_ bs. (Some (map (\<lambda>b. of_nat (unat b)) bs), ())),
     ao_conceal = (\<lambda>_ buf. (buf, ())), ao_denoiser_new = (), ao_denoise = (\<lambda>_ buf. (buf, ())),
     ao_sqrt = (\<lambda>x. x), ao_log10 = (\<lambda>x. x)\<rparr>"

definition example_playout :: "(unit, unit) Playout" where
  "example_playout = playout_new 10000 2 () Opus
     \<lparr>pc_noise_suppression = False, pc_jitter_min_ms = 20, pc_jitter_max_ms = 60, pc_av_offset_ms = 0,
      pc_muted = False, pc_volume = 1, pc_balance = 0, pc_mono = False\<rparr> None"

lemma example_playout_ok: "playout_ok example_playout" "audio_ops_ok example_audio_ops"
  unfolding example_playout_def by (rule playout_new_ok) (simp_all add: samples_per_frame_def SAMPLE_RATE_def audio_ops_ok_def example_audio_ops_def)

theorem render_callback_ends_witness:
  "\<exists>out po. fill example_audio_ops \<lparr>pc_noise_suppression = True, pc_jitter_min_ms = 20, pc_jitter_max_ms = 60, pc_av_offset_ms = 5,
       pc_muted = True, pc_volume = 1, pc_balance = 1 / 2, pc_mono = True\<rparr> 960
     example_playout = Some (out, po) \<and> length out = 960"
  using render_callback_ends [OF example_playout_ok(2, 1)] by blast

theorem single_loss_recovered_witness:
  "\<exists>d p. Datagram 0 d True \<in> set (fst (send_frame Opus 480 (example_frame [2] False) (example_state [1]))) \<and>
     media_decode d = Inr p \<and>
     po_jitter (drain_packet example_audio_ops (inbound 1000 p) example_playout) =
       jitter_push (\<lambda>x. x) 480 [2] 48 (jitter_push (\<lambda>x. x) 0 [1] 48 (po_jitter example_playout))"
proof -
  obtain d p where d: "Datagram 0 d True \<in> set (fst (send_frame Opus 480 (example_frame [2] False) (example_state [1])))"
    "media_decode d = Inr p" "mh_flags (mp_header p) = MediaFlags FLAG_REDUNDANT"
    using example_redundant by blast
  have one: "send_frame Opus 480 (example_frame [1] False) sender_new =
      (fst (send_frame Opus 480 (example_frame [1] False) sender_new), example_state [1])"
    using example_first(1) by (metis prod.collapse)
  have flags: "flags_contains (mh_flags (mp_header p)) FLAG_REDUNDANT" "\<not> flags_contains (mh_flags (mp_header p)) FLAG_DISCONTINUITY"
    by (simp_all add: d(3) flags_contains_def flag_defs)
  have po: "po_frame_samples example_playout = 480" "po_codec example_playout = Opus"
    "\<not> jitter_has (unat (ss_timestamp sender_new)) (po_jitter example_playout)"
    by (simp_all add: example_playout_def playout_new_def samples_per_frame_def SAMPLE_RATE_def jitter_has_def jitter_new_def Let_def)
  have enc: "fi_encoded (example_frame b m) = Some b" for b m by (simp add: example_frame_def)
  have dec: "ao_decode example_audio_ops u [b] = (Some [of_nat (unat b)], ())" for u b by (simp add: example_audio_ops_def)
  have start: "unat (ss_timestamp sender_new) + 480 < 2 ^ 64" by (simp add: sender_new_def)
  from single_loss_recovered [OF one prod.collapse [symmetric] enc d(1, 2) flags start po dec enc dec, of 1000]
  have "po_jitter (drain_packet example_audio_ops (inbound 1000 p) example_playout) =
       jitter_push (\<lambda>x. x) 480 [2] 48 (jitter_push (\<lambda>x. x) 0 [1] 48 (po_jitter example_playout))"
    by (simp add: sender_new_def example_audio_ops_def Let_def)
  then show ?thesis using d(1, 2) by blast
qed

end
