(* ===== verification/Format_Conversion.thy ===== *)
theory Format_Conversion
  imports Media_Receiver
begin

text \<open>
  Formats on the way of the samples: the PCM codec (\<open>sp-media/src/codec.rs\<close>) and the conversion between the format of
  a device and that of the pipelines (\<open>sp-audio-io/src/convert.rs\<close>). Opus is a library and stays an argument. The
  render side is driven by the pipeline's callback, an argument that gives samples and a new state.
\<close>

section \<open>PCM\<close>

definition le_bytes :: "16 word \<Rightarrow> bytes" where
  "le_bytes w = rev (put_u16 w)"

definition pcm_encode :: "nat \<Rightarrow> rat list \<Rightarrow> bytes option" where
  "pcm_encode channels pcm =
     (if length pcm mod channels \<noteq> 0 \<or> MAX_MEDIA_PAYLOAD < length pcm * 2 then None
      else Some (concat (map le_bytes (f32_to_s16 pcm))))"

fun le_words :: "bytes \<Rightarrow> 16 word list" where
  "le_words (lo # hi # rest) = get_u16 [hi, lo] # le_words rest"
| "le_words _ = []"

text \<open>\<open>out_len\<close>: the room in the caller's buffer.\<close>

definition pcm_decode :: "nat \<Rightarrow> nat \<Rightarrow> bytes \<Rightarrow> rat list option" where
  "pcm_decode channels out_len payload =
     (let samples = length payload div 2
      in if length payload mod 2 \<noteq> 0 \<or> samples mod channels \<noteq> 0 \<or> out_len < samples then None
         else Some (s16_to_f32 (le_words payload)))"

text \<open>Concealment fades out what is in the buffer.\<close>

definition pcm_conceal :: "nat \<Rightarrow> nat \<Rightarrow> rat list \<Rightarrow> rat list" where
  "pcm_conceal channels frame out =
     (let n = min (frame * channels) (length out)
      in map (\<lambda>(i, s). s * (1 - of_nat i / of_nat n)) (zip [0..<n] (take n out)) @ drop n out)"

section \<open>From the device\<close>

record CaptureConverter =
  cv_device_rate :: nat
  cv_device_channels :: nat
  cv_out_channels :: nat
  cv_resampler :: "Resampler option"

definition capture_converter_new :: "nat \<Rightarrow> nat \<Rightarrow> nat \<Rightarrow> CaptureConverter" where
  "capture_converter_new device_rate device_channels out_channels =
     (let out = clamp out_channels 1 2
      in \<lparr>cv_device_rate = device_rate, cv_device_channels = max device_channels 1, cv_out_channels = out,
          cv_resampler = (if device_rate \<noteq> SAMPLE_RATE then Some (resampler_new out) else None)\<rparr>)"

definition capture_convert :: "rat list \<Rightarrow> CaptureConverter \<Rightarrow> (rat list \<times> CaptureConverter) option" where
  "capture_convert input c =
     (let mixed = (if cv_device_channels c = cv_out_channels c then input
                   else downmix input (cv_device_channels c) (cv_out_channels c))
      in case cv_resampler c of
           None \<Rightarrow> Some (mixed, c)
         | Some r \<Rightarrow> Option.bind (resample mixed (of_nat (cv_device_rate c) / of_nat SAMPLE_RATE) r)
                       (\<lambda>(out, r'). Some (out, c\<lparr>cv_resampler := Some r'\<rparr>)))"

section \<open>To the device\<close>

text \<open>\<open>rv_pending\<close>: the converted samples from the read position on.\<close>

record RenderConverter =
  rv_device_rate :: nat
  rv_device_channels :: nat
  rv_in_channels :: nat
  rv_resampler :: "Resampler option"
  rv_pending :: "rat list"

definition render_converter_new :: "nat \<Rightarrow> nat \<Rightarrow> nat \<Rightarrow> RenderConverter" where
  "render_converter_new device_rate device_channels in_channels =
     (let inc = clamp in_channels 1 2
      in \<lparr>rv_device_rate = device_rate, rv_device_channels = max device_channels 1, rv_in_channels = inc,
          rv_resampler = (if device_rate \<noteq> SAMPLE_RATE then Some (resampler_new inc) else None), rv_pending = []\<rparr>)"

definition map_channels :: "rat list \<Rightarrow> nat \<Rightarrow> rat list" where
  "map_channels src n =
     (if length src = n then src
      else if length src = 1 then replicate n (src ! 0)
      else if length src = 2 \<and> n = 1 then [(src ! 0 + src ! 1) * (1 / 2)]
      else if length src = 2 then [src ! 0, src ! 1] @ replicate (n - 2) 0
      else replicate n 0)"

definition refill :: "('s \<Rightarrow> nat \<Rightarrow> rat list \<times> 's) \<Rightarrow> RenderConverter \<times> 's \<Rightarrow> (RenderConverter \<times> 's) option" where
  "refill pull = (\<lambda>(c, st).
     (let (block, st') = pull st (480 * rv_in_channels c)
      in case rv_resampler c of
           None \<Rightarrow> Some (c\<lparr>rv_pending := block\<rparr>, st')
         | Some r \<Rightarrow> Option.bind (resample block (of_nat SAMPLE_RATE / of_nat (rv_device_rate c)) r)
                       (\<lambda>(out, r'). Some (c\<lparr>rv_resampler := Some r', rv_pending := out\<rparr>, st'))))"

text \<open>The device's frames, each from one of the pipeline.\<close>

fun device_frames :: "nat \<Rightarrow> RenderConverter \<Rightarrow> rat list" where
  "device_frames 0 c = []"
| "device_frames (Suc n) c = map_channels (take (rv_in_channels c) (rv_pending c)) (rv_device_channels c)
     @ device_frames n (c\<lparr>rv_pending := drop (rv_in_channels c) (rv_pending c)\<rparr>)"

text \<open>Filling \<open>missing\<close> samples of the device's buffer. A rest smaller than a device frame is an index out of range,
  a panic: \<open>Inl ()\<close>.\<close>

partial_function (option) render_fill ::
  "('s \<Rightarrow> nat \<Rightarrow> rat list \<times> 's) \<Rightarrow> nat \<Rightarrow> RenderConverter \<times> 's \<Rightarrow> (unit + rat list \<times> RenderConverter \<times> 's) option" where
  "render_fill pull missing cs =
     (if missing = 0 then Some (Inr ([], fst cs, snd cs))
      else
        (let c = fst cs; available = length (rv_pending c) div rv_in_channels c
         in if available = 0 then Option.bind (refill pull cs) (\<lambda>cs'. render_fill pull missing cs')
            else
              (let wanted = missing div rv_device_channels c; frames = min available (max wanted 1)
               in if wanted = 0 then Some (Inl ())
                  else Option.bind (render_fill pull (missing - frames * rv_device_channels c)
                           (c\<lparr>rv_pending := drop (frames * rv_in_channels c) (rv_pending c)\<rparr>, snd cs))
                         (\<lambda>res. Some (map_sum id (\<lambda>(out, cs'). (device_frames frames c @ out, cs')) res)))))"

section \<open>PCM keeps the samples\<close>

lemma le_words_bytes [simp]: "le_words (concat (map le_bytes ws)) = ws"
proof (induction ws)
  case (Cons w ws)
  obtain hi lo where "put_u16 w = [hi, lo]"
    using length_puts(1) [of w] by (auto simp: length_Suc_conv numeral_2_eq_2 simp del: length_puts)
  then show ?case using Cons get_u16_put [of w] by (simp add: le_bytes_def)
qed simp

lemma length_le_bytes [simp]: "length (concat (map le_bytes ws)) = 2 * length ws"
  by (induction ws) (simp_all add: le_bytes_def)

text \<open>Clamping, scaling and cutting off cost at most two steps of a 16-bit sample.\<close>

definition quantised :: "rat \<Rightarrow> rat" where
  "quantised x = of_int (trunc_int (clamp x (- 1) 1 * 32767)) / 32768"

lemma trunc_int_near: "\<bar>of_int (trunc_int x) - x\<bar> < 1"
  unfolding trunc_int_def by (cases "0 \<le> x") (auto simp: abs_less_iff; linarith)+

lemma quantised_near: "\<bar>quantised x - clamp x (- 1) 1\<bar> \<le> 1 / 16384"
proof -
  define c where "c = clamp x (- 1) 1"
  have c: "- 1 \<le> c" "c \<le> 1" using clamp_bounds [of "- 1" 1 x] by (simp_all add: c_def)
  have "\<bar>of_int (trunc_int (c * 32767)) - c * 32767\<bar> < 1" by (rule trunc_int_near)
  then show ?thesis using c unfolding quantised_def c_def [symmetric] by (simp add: abs_if field_simps split: if_splits)
qed

lemma f32_to_s16_back: "s16_to_f32 (f32_to_s16 xs) = map quantised xs"
proof -
  have "of_int (sint (word_of_int (trunc_int (clamp x (- 1) 1 * 32767)) :: 16 word)) / 32768 = quantised x" for x
  proof -
    define y where "y = clamp x (- 1) 1 * 32767"
    have "- 32767 \<le> y" "y \<le> 32767" using clamp_bounds [of "- 1" 1 x] by (simp_all add: y_def)
    then have "- 32767 \<le> trunc_int y" "trunc_int y \<le> 32767"
      unfolding trunc_int_def by (auto simp: le_floor_iff floor_le_iff ceiling_le_iff le_ceiling_iff)
    then have "sint (word_of_int (trunc_int y) :: 16 word) = trunc_int y"
      by (simp add: sint_sbintrunc' signed_take_bit_int_eq_self)
    then show ?thesis by (simp add: y_def quantised_def)
  qed
  then show ?thesis by (simp add: s16_to_f32_def f32_to_s16_def)
qed

lemma pcm_encoded:
  assumes "pcm_encode channels pcm = Some bs"
  shows "length pcm \<le> out_len \<Longrightarrow> pcm_decode channels out_len bs = Some (map quantised pcm)" "length bs \<le> MAX_MEDIA_PAYLOAD"
proof -
  have "length (f32_to_s16 pcm) = length pcm" by (simp add: f32_to_s16_def)
  then show "length pcm \<le> out_len \<Longrightarrow> pcm_decode channels out_len bs = Some (map quantised pcm)" "length bs \<le> MAX_MEDIA_PAYLOAD"
    using assms by (auto simp: pcm_encode_def pcm_decode_def f32_to_s16_back split: if_splits)
qed

text \<open>A lossless stream carries no redundancy and no DTX: these are Opus's.\<close>

lemma lossless_plain:
  assumes "send_frame PcmS16Le frame fi s = (out, s')" "Datagram i d ok \<in> set out" "media_decode d = Inr p"
  shows "\<not> flags_contains (mh_flags (mp_header p)) FLAG_DTX" "\<not> flags_contains (mh_flags (mp_header p)) FLAG_REDUNDANT"
proof -
  let ?fp = "frame_packets PcmS16Le frame fi s"
  have none: "\<not> fp_dtx ?fp" "\<not> fp_can_add ?fp" by (simp_all add: frame_packets_def is_dtx_def can_add_redundancy_def Let_def)
  obtain t where t: "Datagram i d ok \<in> set (fst (send_target ?fp fi t))"
    using assms(1)
  proof (cases rule: send_frame_cases)
    case sent
    then show ?thesis using assms(2) that by blast
  qed (use assms(2) in auto)
  from t show "\<not> flags_contains (mh_flags (mp_header p)) FLAG_DTX" "\<not> flags_contains (mh_flags (mp_header p)) FLAG_REDUNDANT"
    by (cases rule: send_target_datagram; use none assms(3) in \<open>auto simp: variant_flags flag_defs\<close>)+
qed

text \<open>C9: A lossless stream is lossless from the encoder's input to the jitter buffer: every datagram of a PCM group
  that arrives puts, at its own timestamp, exactly as many samples into the buffer as the frame had, each within
  two 16-bit steps of the sample the encoder was given, limited to full scale; no decode error is counted.\<close>

theorem lossless_stream_delivers:
  assumes "send_frame PcmS16Le frame fi s = (out, s')" "fi_encoded fi = pcm_encode channels buf" "Datagram i d ok \<in> set out"
    and "po_codec po = PcmS16Le" "length buf \<le> 5760 * channels"
    and "\<And>st bs. ao_decode ops st bs = (pcm_decode channels (5760 * channels) bs, st)"
  shows "\<exists>p ys. media_decode d = Inr p \<and> length ys = length buf \<and> (\<forall>j < length buf. \<bar>ys ! j - clamp (buf ! j) (- 1) 1\<bar> \<le> 1 / 16384) \<and>
     (let po' = drain_packet ops (inbound elapsed p) po
      in po_jitter po' = jitter_push (ao_round ops) (unat (ss_timestamp s)) ys (elapsed * 48 div 1000)
           (if flags_contains (mh_flags (mp_header p)) FLAG_DISCONTINUITY then jitter_reset (po_jitter po) else po_jitter po) \<and>
         sx_decode_errors (po_stats po') = sx_decode_errors (po_stats po))"
proof -
  obtain p where p: "media_decode d = Inr p" "mh_codec (mp_header p) = PcmS16Le" "mh_sample_timestamp (mp_header p) = ss_timestamp s"
    "\<not> flags_contains (mh_flags (mp_header p)) FLAG_DTX \<Longrightarrow> \<exists>packet. fi_encoded fi = Some packet \<and>
       mp_payload p = (if flags_contains (mh_flags (mp_header p)) FLAG_REDUNDANT then redundant_payload packet (ss_previous s) else packet)"
    using sender_datagrams_helper [OF assms(1, 3)] by (auto split: if_splits)
  note plain = lossless_plain [OF assms(1, 3) p(1)]
  then have enc: "pcm_encode channels buf = Some (mp_payload p)" using p(4) assms(2) by auto
  have split: "split_payload False bs = (bs, None)" for bs by (simp add: split_payload_def split: list.split)
  have dec: "ao_decode ops st (mp_payload p) = (Some (map quantised buf), st)" for st
    using pcm_encoded(1) [OF enc assms(5)] assms(6) by simp
  have "drain_packet ops (inbound elapsed p) po = (let po1 = count_stat (\<lambda>st. st\<lparr>sx_packets_received := inc64 (sx_packets_received st)\<rparr>) po;
      po2 = (if flags_contains (mh_flags (mp_header p)) FLAG_DISCONTINUITY
             then po1\<lparr>po_jitter := jitter_reset (po_jitter po1), po_drift := drift_reset (po_drift po1)\<rparr> else po1)
      in push_decoded ops (unat (ss_timestamp s)) (map quantised buf) (elapsed * 48 div 1000) (po_decoder po2) po2)"
    using p(2, 3) plain assms(4) dec
    by (simp add: drain_packet_def inbound_def split recover_previous_def Let_def count_stat_def)
  then show ?thesis
    using p(1) quantised_near
    by (intro exI [of _ p] exI [of _ "map quantised buf"]) (simp add: push_decoded_def count_stat_def Let_def)
qed

text \<open>A frame of one stereo sample, at full scale on the left.\<close>

lemma example_pcm: "pcm_encode 2 [1, 0] = Some [255, 127, 0, 0]"
  by (simp add: pcm_encode_def f32_to_s16_def le_bytes_def trunc_int_def put_u16_def be_encode_numeral media_consts)

definition example_pcm_ops :: "(unit, unit) AudioOps" where
  "example_pcm_ops = example_audio_ops\<lparr>ao_decode := (\<lambda>d bs. (pcm_decode 2 (5760 * 2) bs, d))\<rparr>"

theorem lossless_stream_delivers_witness:
  "\<exists>d p ys. Datagram 0 d True \<in> set (fst (send_frame PcmS16Le 480 (example_frame [255, 127, 0, 0] False) sender_new)) \<and>
     media_decode d = Inr p \<and> length ys = 2 \<and> \<bar>ys ! 0 - (1 :: rat)\<bar> \<le> 1 / 16384 \<and>
     sx_decode_errors (po_stats (drain_packet example_pcm_ops (inbound 1000 p) (example_playout\<lparr>po_codec := PcmS16Le\<rparr>))) = 0"
proof -
  let ?fi = "example_frame [255, 127, 0, 0] False"
  obtain out s' where run: "send_frame PcmS16Le 480 ?fi sender_new = (out, s')" by (rule prod.exhaust)
  have "\<exists>d. Datagram 0 d True \<in> set (fst (send_frame PcmS16Le 480 ?fi sender_new))" by (simp add: sender_eval)
  then obtain d where d: "Datagram 0 d True \<in> set out" using run by auto
  have enc: "fi_encoded ?fi = pcm_encode 2 [1, 0]" by (simp add: example_pcm example_frame_def)
  have dec: "ao_decode example_pcm_ops st bs = (pcm_decode 2 (5760 * 2) bs, st)" for st bs by (simp add: example_pcm_ops_def)
  have codec: "po_codec (example_playout\<lparr>po_codec := PcmS16Le\<rparr>) = PcmS16Le" by simp
  have len: "length [1, 0 :: rat] \<le> 5760 * 2" by simp
  have zero: "sx_decode_errors (po_stats (example_playout\<lparr>po_codec := PcmS16Le\<rparr>)) = 0"
    by (simp add: example_playout_def playout_new_def Let_def)
  from lossless_stream_delivers [OF run enc d codec len dec, of 1000] obtain p ys where
    r: "media_decode d = Inr p" "length ys = length [1, 0 :: rat]"
      "\<forall>j < length [1, 0 :: rat]. \<bar>ys ! j - clamp ([1, 0 :: rat] ! j) (- 1) 1\<bar> \<le> 1 / 16384"
      "sx_decode_errors (po_stats (drain_packet example_pcm_ops (inbound 1000 p) (example_playout\<lparr>po_codec := PcmS16Le\<rparr>))) =
       sx_decode_errors (po_stats (example_playout\<lparr>po_codec := PcmS16Le\<rparr>))"
    unfolding Let_def by blast
  have "\<bar>ys ! 0 - 1\<bar> \<le> 1 / 16384" using spec [OF r(3), of 0] by simp
  moreover have "length ys = 2" using r(2) by simp
  ultimately show ?thesis using d run r(1, 4) zero by (metis fst_conv)
qed

section \<open>The device's buffer is filled\<close>

text \<open>Device rates from 8 kHz on, so that the ratio stays below seven; a callback fills the block it is given.\<close>

definition render_ok :: "RenderConverter \<Rightarrow> bool" where
  "render_ok c \<longleftrightarrow> 8000 \<le> rv_device_rate c \<and> 0 < rv_device_channels c \<and> 0 < rv_in_channels c \<and>
     (\<forall>r. rv_resampler c = Some r \<longrightarrow> resampler_within 7 r \<and> rs_channels r = rv_in_channels c)"

definition pull_ok :: "('s \<Rightarrow> nat \<Rightarrow> rat list \<times> 's) \<Rightarrow> bool" where
  "pull_ok pull \<longleftrightarrow> (\<forall>st n. length (fst (pull st n)) = n)"

lemma render_new_ok: "8000 \<le> rate \<Longrightarrow> render_ok (render_converter_new rate device_channels in_channels)"
  by (auto simp: render_ok_def render_converter_new_def resampler_new_def resampler_within_def clamp_def Let_def)

lemma map_channels_length [simp]: "0 < n \<Longrightarrow> length (map_channels src n) = n"
  by (auto simp: map_channels_def)

lemma device_frames_length: "0 < rv_device_channels c \<Longrightarrow> length (device_frames n c) = n * rv_device_channels c"
  by (induction n arbitrary: c) simp_all

lemma refill_yields:
  assumes "pull_ok pull" "render_ok c"
  shows "\<exists>c' st'. refill pull (c, st) = Some (c', st') \<and> render_ok c' \<and> rv_device_channels c' = rv_device_channels c \<and>
    0 < length (rv_pending c') div rv_in_channels c'"
proof -
  obtain block st' where p: "pull st (480 * rv_in_channels c) = (block, st')" by (rule prod.exhaust)
  then have len: "length block = 480 * rv_in_channels c" using assms(1) unfolding pull_ok_def by (metis fst_conv)
  have pos: "0 < rv_in_channels c" using assms(2) by (simp add: render_ok_def)
  show ?thesis
  proof (cases "rv_resampler c")
    case None
    then show ?thesis using p len assms(2) pos by (simp add: refill_def render_ok_def)
  next
    case (Some r)
    let ?ratio = "of_nat SAMPLE_RATE / of_nat (rv_device_rate c) :: rat"
    have "(8000 :: rat) \<le> of_nat (rv_device_rate c)"
      using assms(2) of_nat_mono [of 8000 "rv_device_rate c", where 'a = rat] by (simp add: render_ok_def)
    then have ratio: "0 < ?ratio" "?ratio < 7" by (simp_all add: SAMPLE_RATE_def divide_less_eq)
    have r: "resampler_within 7 r" "rs_channels r = rv_in_channels c" using assms(2) Some by (simp_all add: render_ok_def)
    have "length block div rs_channels r = 480" using len r(2) pos by simp
    then obtain out m r' where rs: "resample block ?ratio r = Some (out, r')" "resampler_within 7 r'" "rs_channels r' = rs_channels r"
      "length out = m * rs_channels r" "0 < m"
      using resampling_within_ends [OF r(1) ratio, of block] by auto
    have "refill pull (c, st) = Some (c\<lparr>rv_resampler := Some r', rv_pending := out\<rparr>, st')"
      using p Some rs(1) by (simp add: refill_def)
    then show ?thesis using assms(2) rs r(2) pos by (simp add: render_ok_def)
  qed
qed

lemma render_fill_ends:
  assumes "pull_ok pull" "render_ok (fst cs)"
  shows "\<exists>res. render_fill pull missing cs = Some res \<and>
    (if rv_device_channels (fst cs) dvd missing
     then \<exists>out cs'. res = Inr (out, cs') \<and> length out = missing \<and> render_ok (fst cs') \<and> rv_device_channels (fst cs') = rv_device_channels (fst cs)
     else res = Inl ())"
  using assms(2)
proof (induction missing arbitrary: cs rule: less_induct)
  case (less missing)
  have ready: "\<exists>res. render_fill pull missing cs = Some res \<and>
      (if rv_device_channels (fst cs) dvd missing
       then \<exists>out cs'. res = Inr (out, cs') \<and> length out = missing \<and> render_ok (fst cs') \<and> rv_device_channels (fst cs') = rv_device_channels (fst cs)
       else res = Inl ())"
    if ok: "render_ok (fst cs)" and av: "0 < length (rv_pending (fst cs)) div rv_in_channels (fst cs)" for cs
  proof (cases "missing = 0")
    case True
    then show ?thesis using ok by (cases cs) (subst render_fill.simps, simp)
  next
    case False
    let ?c = "fst cs" let ?dev = "rv_device_channels ?c"
    have dev: "0 < ?dev" using ok by (simp add: render_ok_def)
    show ?thesis
    proof (cases "missing div ?dev = 0")
      case True
      then have "\<not> ?dev dvd missing" using False dev by (auto simp: div_eq_0_iff dest: dvd_imp_le)
      then show ?thesis using True False av by (subst render_fill.simps) (simp add: Let_def)
    next
      case some: False
      define frames where "frames = min (length (rv_pending ?c) div rv_in_channels ?c) (max (missing div ?dev) 1)"
      have f: "0 < frames" "frames \<le> missing div ?dev" using av some by (simp_all add: frames_def)
      then have le: "frames * ?dev \<le> missing" by (metis div_times_less_eq_dividend le_trans mult_le_mono1)
      let ?cs = "(?c\<lparr>rv_pending := drop (frames * rv_in_channels ?c) (rv_pending ?c)\<rparr>, snd cs)"
      have less1: "missing - frames * ?dev < missing" using f(1) dev False by simp
      have ok1: "render_ok (fst ?cs)" using ok by (simp add: render_ok_def)
      have dev1: "rv_device_channels (fst ?cs) = ?dev" by simp
      obtain res where res: "render_fill pull (missing - frames * ?dev) ?cs = Some res"
        "if ?dev dvd missing - frames * ?dev
         then \<exists>out cs'. res = Inr (out, cs') \<and> length out = missing - frames * ?dev \<and> render_ok (fst cs') \<and> rv_device_channels (fst cs') = ?dev
         else res = Inl ()"
        using less.IH [OF less1 ok1] unfolding dev1 by blast
      have run: "render_fill pull missing cs = Some (map_sum id (\<lambda>(out, cs'). (device_frames frames ?c @ out, cs')) res)"
        using res(1) False some av by (subst render_fill.simps) (simp add: Let_def frames_def)
      have same: "?dev dvd missing - frames * ?dev \<longleftrightarrow> ?dev dvd missing"
      proof -
        obtain x where "missing = frames * ?dev + x" using le le_Suc_ex by blast
        then show ?thesis by (simp add: dvd_add_right_iff)
      qed
      show ?thesis
      proof (cases "?dev dvd missing")
        case True
        then obtain out cs' where "res = Inr (out, cs')" "length out = missing - frames * ?dev" "render_ok (fst cs')"
          "rv_device_channels (fst cs') = ?dev" using res(2) same by auto
        then show ?thesis using run True le device_frames_length [OF dev, of frames] by (cases cs') simp
      next
        case False
        then show ?thesis using run res(2) same by simp
      qed
    qed
  qed
  show ?case
  proof (cases "missing = 0 \<or> 0 < length (rv_pending (fst cs)) div rv_in_channels (fst cs)")
    case True
    then show ?thesis using ready [OF less.prems] less.prems by (cases "missing = 0"; cases cs) (subst render_fill.simps, auto)
  next
    case False
    obtain c st where cs: "cs = (c, st)" by (rule prod.exhaust)
    obtain c' st' where r: "refill pull (c, st) = Some (c', st')" "render_ok c'" "rv_device_channels c' = rv_device_channels c"
      "0 < length (rv_pending c') div rv_in_channels c'"
      using refill_yields [OF assms(1), of c st] less.prems cs by auto
    have "render_fill pull missing cs = render_fill pull missing (c', st')"
      using False cs r(1) by (subst render_fill.simps) simp
    moreover have "rv_device_channels (fst (c', st')) = rv_device_channels (fst cs)" using r(3) cs by simp
    ultimately show ?thesis using ready [of "(c', st')"] r(2, 4) by (metis fst_conv)
  qed
qed

text \<open>C33: At every device rate from 8 kHz up and every channel layout, filling a device buffer ends, whatever the
  pipeline delivers: with exactly the samples asked for when these are whole device frames, ready for the next
  buffer; and with a panic when they are not - the loop means to stop at such a rest but indexes past the buffer
  first.\<close>

theorem render_fills_exactly:
  assumes "pull_ok pull" "render_ok c"
  shows "\<exists>res. render_fill pull missing (c, st) = Some res \<and>
    (if rv_device_channels c dvd missing
     then \<exists>out c' st'. res = Inr (out, c', st') \<and> length out = missing \<and> render_ok c' \<and> rv_device_channels c' = rv_device_channels c
     else res = Inl ())"
  using render_fill_ends [OF assms(1), of "(c, st)" missing] assms(2) by fastforce

theorem render_fills_exactly_witness:
  "\<exists>out c' st'. render_fill (\<lambda>_ n. (replicate n (1 / 4), ())) 882 (render_converter_new 44100 2 1, ()) = Some (Inr (out, c', st')) \<and>
     length out = 882"
proof -
  let ?pull = "\<lambda>_ n. (replicate n (1 / 4 :: rat), ())"
  have "pull_ok ?pull" by (simp add: pull_ok_def)
  moreover have "render_ok (render_converter_new 44100 2 1)" by (rule render_new_ok) simp
  moreover have "rv_device_channels (render_converter_new 44100 2 1) dvd 882" by (simp add: render_converter_new_def numeral_2_eq_2 [symmetric])
  ultimately show ?thesis using render_fills_exactly [of ?pull "render_converter_new 44100 2 1" 882 "()"] by fastforce
qed

end
