(* ===== verification/Capture_Chain.thy ===== *)
theory Capture_Chain
  imports Signal Drift Media_Sender
begin

text \<open>
  From the captures of an encoder group to its datagrams (\<open>pipeline/sender.rs\<close>): the ring a capture callback fills,
  the reader that keeps the second capture of a mixed source in step with the first, the signal chain of the
  encode loop, and the loop's frame as a whole; and the microphone monitor (\<open>pipeline/monitor.rs\<close>). The codec, RNNoise and the
  functions of the mathematics library are arguments. Samples are exact fractions, rings are lists.
\<close>

section \<open>The ring of a capture\<close>

text \<open>A full ring drops what does not fit and counts it.\<close>

definition fill_ring :: "nat \<Rightarrow> rat list \<Rightarrow> rat list \<times> nat \<Rightarrow> rat list \<times> nat" where
  "fill_ring capacity samples = (\<lambda>(ring, overruns).
     (let n = min (length samples) (capacity - length ring)
      in (ring @ take n samples, if n < length samples then overruns + 1 else overruns)))"

section \<open>The second capture of a mixed source\<close>

definition MIX_MAX_BACKLOG_FRAMES :: nat where "MIX_MAX_BACKLOG_FRAMES = 6"
definition MIX_PREFILL_FRAMES :: nat where "MIX_PREFILL_FRAMES = 2"

record MixReader =
  mr_primed :: bool
  mr_channels :: nat
  mr_drift :: DriftController
  mr_resampler :: Resampler
  mr_pending :: "rat list"

definition mix_new :: "nat \<Rightarrow> MixReader" where
  "mix_new channels = \<lparr>mr_primed = False, mr_channels = max channels 1, mr_drift = drift_new,
     mr_resampler = resampler_new (max channels 1), mr_pending = []\<rparr>"

definition mix_read :: "nat \<Rightarrow> rat list \<Rightarrow> MixReader \<Rightarrow> (rat list \<times> MixReader) option" where
  "mix_read n ring mr =
     (let (chunk, ring') = (if n \<le> length ring then (take n ring, drop n ring) else ([], ring))
      in Option.bind (resample chunk (dc_ratio (mr_drift mr)) (mr_resampler mr))
           (\<lambda>(out, r). Some (ring', mr\<lparr>mr_resampler := r, mr_pending := mr_pending mr @ out\<rparr>)))"

text \<open>The microphone ran dry: start over from a fresh cushion.\<close>

definition mix_underrun :: "MixReader \<Rightarrow> MixReader" where
  "mix_underrun mr = mr\<lparr>mr_primed := False, mr_pending := [], mr_resampler := resampler_reset (mr_resampler mr),
     mr_drift := drift_reset (mr_drift mr)\<rparr>"

text \<open>One sample frame at a time until the frame is whole; the flag says that it is.\<close>

partial_function (option) mix_top_up :: "nat \<Rightarrow> rat list \<Rightarrow> MixReader \<Rightarrow> (bool \<times> rat list \<times> MixReader) option" where
  "mix_top_up frame ring mr =
     (if length (mr_pending mr) < frame
      then if length ring < mr_channels mr then Some (False, ring, mix_underrun mr)
           else Option.bind (mix_read (mr_channels mr) ring mr) (\<lambda>(ring', mr'). mix_top_up frame ring' mr')
      else Some (True, ring, mr))"

text \<open>The backlog that is dropped as a last resort.\<close>

definition mix_trim :: "nat \<Rightarrow> nat \<Rightarrow> rat list \<Rightarrow> rat list" where
  "mix_trim frame behind ring =
     (let keep = frame * MIX_MAX_BACKLOG_FRAMES + behind in if keep < length ring then drop (length ring - keep) ring else ring)"

definition mix_take :: "nat \<Rightarrow> nat \<Rightarrow> rat list \<Rightarrow> MixReader \<Rightarrow> (rat list \<times> rat list \<times> MixReader) option" where
  "mix_take frame behind ring0 mr =
     (let ring = mix_trim frame behind ring0; available = length ring; ch = mr_channels mr; silent = replicate frame 0
      in if \<not> mr_primed mr \<and> available < frame * MIX_PREFILL_FRAMES then Some (silent, ring, mr)
         else
           (let (ratio, drift) = drift_update (available + length (mr_pending mr) - behind) (frame * (MIX_PREFILL_FRAMES + 1)) (mr_drift mr);
                mr1 = mr\<lparr>mr_drift := drift\<rparr>;
                n = nat (round (of_nat (frame - length (mr_pending mr)) * ratio));
                need = n - n mod ch + (if mr_primed mr then 0 else 3 * ch)
            in if available < need then Some (silent, ring, mix_underrun mr1)
               else Option.bind (mix_read need ring mr1) (\<lambda>(ring2, mr2).
                      Option.bind (mix_top_up frame ring2 mr2) (\<lambda>(filled, ring3, mr3).
                        if filled then Some (take frame (mr_pending mr3), ring3,
                                             mr3\<lparr>mr_primed := True, mr_pending := drop frame (mr_pending mr3)\<rparr>)
                        else Some (silent, ring3, mr3)))))"

section \<open>What stays true of the reader\<close>

definition mix_ok :: "MixReader \<Rightarrow> bool" where
  "mix_ok mr \<longleftrightarrow> drift_ok (mr_drift mr) \<and> resampler_ok (mr_resampler mr) \<and> rs_channels (mr_resampler mr) = mr_channels mr \<and>
     mr_channels mr dvd length (mr_pending mr)"

lemma mix_new_ok [simp]: "mix_ok (mix_new channels)"
  by (simp add: mix_ok_def mix_new_def resampler_new_def [of "max _ _"] resampler_ok_def)

lemma mix_channels_pos: "mix_ok mr \<Longrightarrow> 0 < mr_channels mr"
  by (auto simp: mix_ok_def resampler_ok_def)

lemma mix_underrun_ok [simp]: "mix_ok mr \<Longrightarrow> mix_ok (mix_underrun mr)" "mr_channels (mix_underrun mr) = mr_channels mr"
  "\<not> mr_primed (mix_underrun mr)"
  by (simp_all add: mix_ok_def mix_underrun_def resampler_reset_def resampler_ok_def)

text \<open>What a frame still lacks, against what the ring can give: reading leaves it as it is.\<close>

definition mix_lack :: "nat \<Rightarrow> rat list \<Rightarrow> MixReader \<Rightarrow> rat" where
  "mix_lack frames ring mr =
     (of_nat frames - of_nat (length (mr_pending mr) div mr_channels mr)) * dc_ratio (mr_drift mr)
     + rs_phase (mr_resampler mr) + of_nat (3 - rs_primed (mr_resampler mr)) - of_nat (length ring div mr_channels mr)"

lemma mix_read_facts:
  assumes "mix_ok mr" "mr_channels mr dvd n" "n \<le> length ring"
  obtains mr' where "mix_read n ring mr = Some (drop n ring, mr')" "mix_ok mr'" "mr_channels mr' = mr_channels mr"
    "mr_drift mr' = mr_drift mr" "mr_primed mr' = mr_primed mr" "\<And>frames. mix_lack frames (drop n ring) mr' = mix_lack frames ring mr"
proof -
  let ?c = "mr_channels mr" and ?r = "mr_resampler mr" and ?ratio = "dc_ratio (mr_drift mr)"
  obtain k where k: "n = ?c * k" using assms(2) by blast
  have ok: "resampler_ok ?r" "rs_channels ?r = ?c" "0 < ?c" "?c dvd length (mr_pending mr)"
    using assms(1) mix_channels_pos by (auto simp: mix_ok_def)
  have ratio: "0 < ?ratio" "?ratio < 2" using assms(1) by (auto simp: mix_ok_def drift_ok_def)
  have count: "length (take n ring) div rs_channels ?r = k" using assms(3) ok(2, 3) k by simp
  have "k * rs_channels ?r \<le> length (take n ring)" using assms(3) k ok(2) by simp
  from resample_frames_count [OF ok(1) ratio this] obtain out m r' where r': "resample (take n ring) ?ratio ?r = Some (out, r')" "length out = m * ?c" "resampler_ok r'"
    "rs_channels r' = ?c" "rs_primed r' = min (rs_primed ?r + k) 4"
    "rs_phase r' = rs_phase ?r + of_nat m * ?ratio - of_nat (k - (3 - rs_primed ?r))"
    unfolding resample_def count unfolding ok(2) by blast
  let ?mr = "mr\<lparr>mr_resampler := r', mr_pending := mr_pending mr @ out\<rparr>"
  have "mix_read n ring mr = Some (drop n ring, ?mr)" using r'(1) assms(3) by (simp add: mix_read_def)
  moreover have "mix_ok ?mr" using assms(1) r'(2-4) by (simp add: mix_ok_def)
  moreover have "mix_lack frames (drop n ring) ?mr = mix_lack frames ring mr" for frames
  proof -
    have pend: "length (mr_pending mr @ out) div ?c = length (mr_pending mr) div ?c + m" using r'(2) ok(3) by simp
    have "k * ?c \<le> length ring" using assms(3) k by (simp add: mult.commute)
    then have le: "k \<le> length ring div ?c" using ok(3) by (simp add: less_eq_div_iff_mult_less_eq)
    obtain d where "length ring = ?c * k + d" using assms(3) k le_Suc_ex by blast
    then have "(length ring - n) div ?c = length ring div ?c - k" using k ok(3) by simp
    then have left: "of_nat (length (drop n ring) div ?c) = (of_nat (length ring div ?c) :: rat) - of_nat k" using le by (simp add: of_nat_diff)
    have prime: "(of_nat (3 - rs_primed r') :: rat) = of_nat (3 - rs_primed ?r) - of_nat k + of_nat (k - (3 - rs_primed ?r))"
      using r'(5) by (cases "k \<le> 3 - rs_primed ?r") (auto simp: of_nat_diff min_def)
    have sel: "mr_pending ?mr = mr_pending mr @ out" "mr_resampler ?mr = r'" "mr_channels ?mr = ?c" "mr_drift ?mr = mr_drift mr" by simp_all
    have frac: "(a - (b + c)) * d = (a - b) * d - c * d" for a b c d :: rat by (simp add: algebra_simps)
    show ?thesis
      using r'(6) left prime unfolding mix_lack_def sel pend of_nat_add frac by linarith
  qed
  ultimately show thesis using that by simp
qed

text \<open>Topping up ends, with the frame filled if the ring held enough.\<close>

lemma mix_top_up_ends:
  assumes "mix_ok mr" "mr_channels mr * k = length ring"
  shows "\<exists>filled j mr'. mix_top_up frame ring mr = Some (filled, drop (mr_channels mr * j) ring, mr') \<and> mix_ok mr' \<and>
     mr_channels mr' = mr_channels mr \<and> (if filled then frame \<le> length (mr_pending mr') else \<not> mr_primed mr') \<and>
     (mr_channels mr dvd frame \<and> mix_lack (frame div mr_channels mr) ring mr < 995 / 1000 \<longrightarrow> filled)"
  using assms
proof (induction k arbitrary: ring mr)
  case (Suc k)
  show ?case
  proof (cases "length (mr_pending mr) < frame")
    case True
    let ?c = "mr_channels mr"
    have len: "?c \<le> length ring" using Suc.prems(2) [symmetric] by simp
    obtain mr1 where r: "mix_read ?c ring mr = Some (drop ?c ring, mr1)" "mix_ok mr1" "mr_channels mr1 = ?c"
      "\<And>f. mix_lack f (drop ?c ring) mr1 = mix_lack f ring mr"
      by (rule mix_read_facts [OF Suc.prems(1) dvd_refl len]) (rule that)
    have "mr_channels mr1 * k = length (drop ?c ring)" using Suc.prems(2) [symmetric] r(3) by simp
    from Suc.IH [OF r(2) this] obtain filled j mr' where m:
      "mix_top_up frame (drop ?c ring) mr1 = Some (filled, drop (?c * j) (drop ?c ring), mr')" "mix_ok mr'" "mr_channels mr' = ?c"
      "if filled then frame \<le> length (mr_pending mr') else \<not> mr_primed mr'"
      "?c dvd frame \<and> mix_lack (frame div ?c) ring mr < 995 / 1000 \<longrightarrow> filled"
      unfolding r(3, 4) by blast
    have "mix_top_up frame ring mr = Some (filled, drop (?c * Suc j) ring, mr')"
      using True len r(1) m(1) by (subst mix_top_up.simps) (simp add: add.commute)
    then show ?thesis using m(2-5) by blast
  next
    case False
    then show ?thesis using Suc.prems(1)
      by (intro exI [of _ True] exI [of _ 0] exI [of _ mr]) (subst mix_top_up.simps, simp)
  qed
next
  case 0
  let ?c = "mr_channels mr"
  show ?case
  proof (cases "length (mr_pending mr) < frame")
    case True
    have run: "mix_top_up frame ring mr = Some (False, drop (?c * 0) ring, mix_underrun mr)"
      using True 0 mix_channels_pos [OF 0(1)] by (subst mix_top_up.simps) simp
    have "995 / 1000 \<le> mix_lack (frame div ?c) ring mr" if dv: "?c dvd frame"
    proof -
      obtain f where f: "frame = ?c * f" using dv by blast
      have "?c dvd length (mr_pending mr)" using 0(1) by (simp add: mix_ok_def)
      then obtain p where "length (mr_pending mr) = ?c * p" by blast
      note fp = f this
      then have "p + 1 \<le> f" using True mix_channels_pos [OF 0(1)] by simp
      then have "(1 :: rat) \<le> of_nat f - of_nat p" by (metis le_diff_eq of_nat_1 of_nat_add of_nat_mono add.commute)
      moreover have "995 / 1000 \<le> dc_ratio (mr_drift mr)" "0 \<le> rs_phase (mr_resampler mr)"
        using 0(1) by (auto simp: mix_ok_def drift_ok_def resampler_ok_def)
      ultimately have "1 * (995 / 1000) \<le> (of_nat f - of_nat p) * dc_ratio (mr_drift mr)" by (intro mult_mono) auto
      then show ?thesis
        using 0 fp \<open>0 \<le> rs_phase (mr_resampler mr)\<close> mix_channels_pos [OF 0(1)] by (simp add: mix_lack_def)
    qed
    then show ?thesis using run 0(1) by (metis mix_underrun_ok not_less)
  next
    case False
    then show ?thesis using 0
      by (intro exI [of _ True] exI [of _ 0] exI [of _ mr]) (subst mix_top_up.simps, simp)
  qed
qed

text \<open>
  What the reader made of the ring: the samples \<open>used\<close> went through the resampler at the ratio of the drift, and what
  came out was put behind what was pending.
\<close>

definition mix_heard :: "rat list \<Rightarrow> MixReader \<Rightarrow> MixReader \<Rightarrow> bool" where
  "mix_heard used mr mr' \<longleftrightarrow> (\<exists>voice. resample used (dc_ratio (mr_drift mr)) (mr_resampler mr) = Some (voice, mr_resampler mr') \<and>
     mr_pending mr' = mr_pending mr @ voice \<and> mr_drift mr' = mr_drift mr \<and> mr_channels mr' = mr_channels mr)"

lemma mix_read_heard:
  assumes "mix_read n ring mr = Some (ring', mr')" "n \<le> length ring"
  shows "mix_heard (take n ring) mr mr'" "ring' = drop n ring"
  using assms by (auto simp: mix_read_def mix_heard_def split: bind_splits)

lemma mix_heard_trans:
  assumes "mix_heard a mr mr1" "mix_heard b mr1 mr2" "mr_channels mr dvd length a" "rs_channels (mr_resampler mr) = mr_channels mr"
    and "0 < mr_channels mr"
  shows "mix_heard (a @ b) mr mr2"
proof -
  obtain v1 v2 where v: "resample a (dc_ratio (mr_drift mr)) (mr_resampler mr) = Some (v1, mr_resampler mr1)"
    "resample b (dc_ratio (mr_drift mr)) (mr_resampler mr1) = Some (v2, mr_resampler mr2)"
    "mr_pending mr1 = mr_pending mr @ v1" "mr_pending mr2 = mr_pending mr1 @ v2"
    using assms(1, 2) by (auto simp: mix_heard_def)
  show ?thesis
    using resample_append [OF v(1, 2)] v(3, 4) assms unfolding mix_heard_def by simp
qed

lemma mix_top_up_heard:
  assumes "mix_ok mr" "mr_channels mr * k = length ring" "mix_top_up frame ring mr = Some (True, ring', mr')"
  shows "\<exists>used. ring = used @ ring' \<and> mr_channels mr dvd length used \<and> mix_heard used mr mr'"
  using assms
proof (induction k arbitrary: ring mr)
  case 0
  then have "ring' = ring" "mr' = mr"
    using mix_channels_pos [OF 0(1)] mix_top_up.simps [of frame ring mr] by (auto split: if_splits)
  then show ?case
    by (intro exI [of _ "[]"]) (simp add: mix_heard_def resample_def)
next
  case (Suc k)
  let ?c = "mr_channels mr"
  show ?case
  proof (cases "length (mr_pending mr) < frame")
    case True
    have len: "?c \<le> length ring" using Suc.prems(2) [symmetric] by simp
    obtain mr1 where r: "mix_read ?c ring mr = Some (drop ?c ring, mr1)" "mix_ok mr1" "mr_channels mr1 = ?c"
      by (rule mix_read_facts [OF Suc.prems(1) dvd_refl len]) (rule that)
    have "mr_channels mr1 * k = length (drop ?c ring)" using Suc.prems(2) [symmetric] r(3) by simp
    moreover have "mix_top_up frame (drop ?c ring) mr1 = Some (True, ring', mr')"
      using Suc.prems(3) True len r(1) mix_top_up.simps [of frame ring mr] by simp
    ultimately obtain used where used: "drop ?c ring = used @ ring'" "?c dvd length used" "mix_heard used mr1 mr'"
      using Suc.IH [OF r(2)] r(3) by metis
    have "ring = (take ?c ring @ used) @ ring'" using used(1) by (metis append.assoc append_take_drop_id)
    moreover have "?c dvd length (take ?c ring @ used)" using used(2) len by simp
    moreover have "mix_heard (take ?c ring @ used) mr mr'"
      using mix_heard_trans [OF mix_read_heard(1) [OF r(1) len] used(3)] Suc.prems(1) mix_channels_pos [OF Suc.prems(1)] len
      by (simp add: mix_ok_def)
    ultimately show ?thesis by blast
  next
    case False
    then have "ring' = ring" "mr' = mr"
      using Suc.prems(3) mix_top_up.simps [of frame ring mr] by simp_all
    then show ?thesis
      by (intro exI [of _ "[]"]) (simp add: mix_heard_def resample_def)
  qed
qed

lemma mix_trim_facts:
  assumes "c dvd frame" "c dvd behind" "c dvd length ring"
  shows "c dvd length (mix_trim frame behind ring)" "suffix (mix_trim frame behind ring) ring"
    "length (mix_trim frame behind ring) = min (length ring) (6 * frame + behind)"
  using assms by (auto simp: mix_trim_def MIX_MAX_BACKLOG_FRAMES_def suffix_drop Let_def mult.commute)

text \<open>The samples a frame needs are whole frames, and no more than the cushion holds.\<close>

lemma mix_need_bounded:
  fixes ratio :: rat
  assumes "5 * c \<le> frame" "wanted \<le> frame" "0 < c" "ratio \<le> 1005 / 1000"
  shows "nat (round (of_nat wanted * ratio)) - nat (round (of_nat wanted * ratio)) mod c + 3 * c \<le> 2 * frame"
proof -
  have "of_nat wanted * ratio \<le> of_nat wanted * (1005 / 1000)" using assms(4) by (intro mult_left_mono) auto
  moreover have "of_nat wanted * (1005 / 1000) \<le> of_nat frame * (1005 / 1000 :: rat)"
    using assms(2) by (intro mult_right_mono) auto
  ultimately have "of_nat wanted * ratio \<le> of_nat frame * (1005 / 1000)" by (rule order_trans)
  then have "of_int (round (of_nat wanted * ratio)) \<le> of_nat frame * (1005 / 1000) + (1 / 2 :: rat)"
    using of_int_round_le [of "of_nat wanted * ratio"] by linarith
  moreover have "(5 :: rat) * of_nat c \<le> of_nat frame" using assms(1) by (metis of_nat_le_iff of_nat_mult of_nat_numeral)
  moreover have "(1 :: rat) \<le> of_nat c" using assms(3) by simp
  ultimately have "of_int (round (of_nat wanted * ratio)) + 3 * of_nat c \<le> (2 :: rat) * of_nat frame" by linarith
  then have "round (of_nat wanted * ratio) + 3 * int c \<le> 2 * int frame"
    unfolding of_int_le_iff [where 'a = rat, symmetric] by simp
  then have "nat (round (of_nat wanted * ratio)) + 3 * c \<le> 2 * frame" using assms(1) by linarith
  then show ?thesis by (meson add_le_mono1 diff_le_self le_trans)
qed

text \<open>
  The voice is delivered: what the ring gives after the backlog is trimmed is cut in what is used now and what stays;
  the used part, resampled at the ratio the drift calls for, is all that is put behind the pending samples; the
  frame is the front of that, and the rest stays pending.
\<close>

definition mix_delivers :: "nat \<Rightarrow> nat \<Rightarrow> rat list \<Rightarrow> MixReader \<Rightarrow> rat list \<Rightarrow> rat list \<Rightarrow> MixReader \<Rightarrow> bool" where
  "mix_delivers frame behind ring mr out ring' mr' \<longleftrightarrow>
     (\<exists>used voice. mix_trim frame behind ring = used @ ring' \<and> mr_channels mr dvd length used \<and>
        resample used (fst (drift_update (length (mix_trim frame behind ring) + length (mr_pending mr) - behind)
            (frame * (MIX_PREFILL_FRAMES + 1)) (mr_drift mr))) (mr_resampler mr) = Some (voice, mr_resampler mr') \<and>
        mr_pending mr @ voice = out @ mr_pending mr')"

lemma mix_take_facts:
  assumes "mix_ok mr" "mr_channels mr dvd frame" "mr_channels mr dvd behind" "mr_channels mr dvd length ring"
  shows "\<exists>out ring' mr'. mix_take frame behind ring mr = Some (out, ring', mr') \<and> length out = frame \<and> mix_ok mr' \<and>
     mr_channels mr' = mr_channels mr \<and> mr_channels mr dvd length ring' \<and> suffix ring' ring \<and>
     length ring' \<le> 6 * frame + behind \<and>
     (5 * mr_channels mr \<le> frame \<and> 2 * frame \<le> length ring \<longrightarrow> mr_primed mr') \<and>
     (if mr_primed mr' then mix_delivers frame behind ring mr out ring' mr' else out = replicate frame 0)"
proof -
  let ?c = "mr_channels mr"
  define rg where "rg = mix_trim frame behind ring"
  note trim = mix_trim_facts [OF assms(2-4), folded rg_def]
  have c: "0 < ?c" using mix_channels_pos [OF assms(1)] .
  obtain ratio drift where up: "drift_update (length rg + length (mr_pending mr) - behind) (frame * (MIX_PREFILL_FRAMES + 1)) (mr_drift mr) = (ratio, drift)"
    by (rule prod.exhaust)
  have drift: "drift_ok drift" "dc_ratio drift = ratio"
    using drift_update_ok [of "mr_drift mr"] drift_update_ratio [of _ _ "mr_drift mr"] assms(1) up by (metis mix_ok_def prod.sel)+
  have ratio: "995 / 1000 \<le> ratio" "ratio \<le> 1005 / 1000" using drift by (auto simp: drift_ok_def)
  define mr1 where "mr1 = mr\<lparr>mr_drift := drift\<rparr>"
  have ok1: "mix_ok mr1" "mr_channels mr1 = ?c" using assms(1) drift(1) by (simp_all add: mr1_def mix_ok_def)
  define n where "n = nat (round (of_nat (frame - length (mr_pending mr)) * ratio))"
  define need where "need = n - n mod ?c + (if mr_primed mr then 0 else 3 * ?c)"
  have dvd: "?c dvd need" unfolding need_def by (intro dvd_add) (simp_all add: dvd_minus_mod)
  have "need \<le> n - n mod ?c + 3 * ?c" unfolding need_def by (rule add_left_mono) simp
  then have enough: "need \<le> 2 * frame" if "5 * ?c \<le> frame"
    using mix_need_bounded [OF that diff_le_self [of frame "length (mr_pending mr)"] c ratio(2)] unfolding n_def [symmetric] by (rule le_trans)
  have def: "mix_take frame behind ring mr =
     (if \<not> mr_primed mr \<and> length rg < frame * MIX_PREFILL_FRAMES then Some (replicate frame 0, rg, mr)
      else if length rg < need then Some (replicate frame 0, rg, mix_underrun mr1)
      else Option.bind (mix_read need rg mr1) (\<lambda>(ring2, mr2). Option.bind (mix_top_up frame ring2 mr2) (\<lambda>(filled, ring3, mr3).
             if filled then Some (take frame (mr_pending mr3), ring3, mr3\<lparr>mr_primed := True, mr_pending := drop frame (mr_pending mr3)\<rparr>)
             else Some (replicate frame 0, ring3, mr3))))"
    unfolding mix_take_def rg_def [symmetric] Let_def up by (simp add: n_def need_def mr1_def)
  show ?thesis
  proof (cases "\<not> mr_primed mr \<and> length rg < frame * MIX_PREFILL_FRAMES \<or> length rg < need")
    case True
    then have "\<not> (5 * ?c \<le> frame \<and> 2 * frame \<le> length ring)" using enough trim(3) by (auto simp: MIX_PREFILL_FRAMES_def)
    then show ?thesis using True assms(1) ok1 trim unfolding def by auto
  next
    case False
    then have ns: "(\<not> mr_primed mr \<and> length rg < frame * MIX_PREFILL_FRAMES) = False" "(length rg < need) = False" by blast+
    obtain mr2 where r: "mix_read need rg mr1 = Some (drop need rg, mr2)" "mix_ok mr2" "mr_channels mr2 = ?c"
      "\<And>f. mix_lack f (drop need rg) mr2 = mix_lack f rg mr1"
      by (rule mix_read_facts [OF ok1(1), of need rg]) (use dvd False ok1(2) that in auto)
    have "?c dvd length (drop need rg)" using trim(1) dvd by simp
    then obtain k where k: "mr_channels mr2 * k = length (drop need rg)" using r(3) by (metis dvdE)
    from mix_top_up_ends [OF r(2) k, of frame] obtain filled j mr3 where t:
      "mix_top_up frame (drop need rg) mr2 = Some (filled, drop (?c * j) (drop need rg), mr3)" "mix_ok mr3" "mr_channels mr3 = ?c"
      "if filled then frame \<le> length (mr_pending mr3) else \<not> mr_primed mr3"
      "?c dvd frame \<and> mix_lack (frame div ?c) rg mr1 < 995 / 1000 \<longrightarrow> filled"
      unfolding r(3, 4) by blast
    have cushion: "filled" if big: "5 * ?c \<le> frame" "2 * frame \<le> length ring"
    proof -
      obtain f where f: "frame = ?c * f" using assms(2) by blast
      then have "5 \<le> f" using big(1) c by simp
      then have "(5 :: rat) \<le> of_nat f" by (metis of_nat_le_iff of_nat_numeral)
      moreover have "?c * (2 * f) \<le> length rg" using big(2) trim(3) f by simp
      then have "2 * f \<le> length rg div ?c" using c by (simp add: less_eq_div_iff_mult_less_eq mult.commute)
      then have "2 * (of_nat f :: rat) \<le> of_nat (length rg div ?c)" by (metis of_nat_le_iff of_nat_mult of_nat_numeral)
      moreover have "(of_nat f - of_nat (length (mr_pending mr) div ?c)) * ratio \<le> of_nat f * (1005 / 1000)"
        using ratio by (intro mult_mono) auto
      moreover have "rs_phase (mr_resampler mr) < 2" using assms(1) by (simp add: mix_ok_def resampler_ok_def)
      moreover have "(of_nat (3 - rs_primed (mr_resampler mr)) :: rat) \<le> 3"
        using of_nat_mono [of "3 - rs_primed (mr_resampler mr)" 3, where 'a = rat] by simp
      ultimately have "mix_lack f rg mr1 < 995 / 1000" by (simp add: mix_lack_def mr1_def drift(2))
      then show "filled" using t(5) assms(2) f c by simp
    qed
    have suf: "suffix (drop (?c * j) (drop need rg)) ring"
      using trim(2) by (metis drop_drop suffix_drop suffix_order.trans)
    have len: "?c dvd length (drop (?c * j) (drop need rg))"
      using trim(1) dvd by (simp add: dvd_diff_nat)
    have rest: "?c dvd length (drop frame (mr_pending mr3))" using t(2, 3) assms(2) by (simp add: mix_ok_def dvd_diff_nat)
    have ok3: "mix_ok (mr3\<lparr>mr_primed := True, mr_pending := drop frame (mr_pending mr3)\<rparr>)"
      using t(2, 3) rest by (simp add: mix_ok_def)
    show ?thesis
    proof (cases filled)
      case filled: True
      have needed: "need \<le> length rg" using ns by simp
      obtain used where used: "drop need rg = used @ drop (?c * j) (drop need rg)" "?c dvd length used" "mix_heard used mr2 mr3"
        using mix_top_up_heard [OF r(2) k] t(1) filled r(3) by metis
      have "mix_heard (take need rg @ used) mr1 mr3"
        using mix_heard_trans [OF mix_read_heard(1) [OF r(1) needed] used(3)] ok1 needed dvd c by (simp add: mix_ok_def)
      then obtain voice where voice: "resample (take need rg @ used) ratio (mr_resampler mr) = Some (voice, mr_resampler mr3)"
        "mr_pending mr3 = mr_pending mr @ voice"
        by (auto simp: mix_heard_def mr1_def drift(2))
      have whole: "rg = (take need rg @ used) @ drop (?c * j) (drop need rg)"
        using used(1) by (metis append.assoc append_take_drop_id)
      have whole_frames: "?c dvd length (take need rg @ used)" using needed dvd used(2) by simp
      have cut: "mr_pending mr @ voice = take frame (mr_pending mr3) @ drop frame (mr_pending mr3)"
        by (simp only: voice(2) append_take_drop_id)
      have delivers: "mix_delivers frame behind ring mr (take frame (mr_pending mr3)) (drop (?c * j) (drop need rg))
          (mr3\<lparr>mr_primed := True, mr_pending := drop frame (mr_pending mr3)\<rparr>)"
        unfolding mix_delivers_def rg_def [symmetric] up fst_conv
        by (rule exI [where x = "take need rg @ used"], rule exI [where x = voice], intro conjI whole whole_frames)
          (simp_all add: voice(1) cut)
      have "mix_take frame behind ring mr = Some (take frame (mr_pending mr3), drop (?c * j) (drop need rg),
          mr3\<lparr>mr_primed := True, mr_pending := drop frame (mr_pending mr3)\<rparr>)"
        using r(1) t(1) filled unfolding def ns by simp
      moreover have "length (take frame (mr_pending mr3)) = frame" using t(4) filled by simp
      moreover have "length (drop (?c * j) (drop need rg)) \<le> 6 * frame + behind" using trim(3) by simp
      ultimately show ?thesis using ok3 suf len t(3) delivers
        by (simp del: length_drop drop_drop)
    next
      case nofill: False
      have "mix_take frame behind ring mr = Some (replicate frame 0, drop (?c * j) (drop need rg), mr3)"
        using r(1) t(1) nofill unfolding def ns by simp
      moreover have "length (drop (?c * j) (drop need rg)) \<le> 6 * frame + behind" using trim(3) by simp
      moreover have "\<not> (5 * ?c \<le> frame \<and> 2 * frame \<le> length ring)" using cushion nofill by blast
      moreover have "\<not> mr_primed mr3" using t(4) nofill by simp
      ultimately show ?thesis using t(2, 3) suf len
        by (simp del: length_drop drop_drop)
    qed
  qed
qed

text \<open>C13: The second capture of a mixed source never stalls or garbles the stream: taking a frame from it always ends
  with exactly the samples of the frame, never swaps channels - it takes whole sample frames off the front of the
  ring, so the channels stay aligned - and leaves no more backlog than six frames plus what the first capture lags.
  The frame is silence, with the reader not running, or it is the voice: what was pending and then the samples of
  the ring in order, resampled at the ratio of the measured drift, with nothing left out or put in between. When
  two frames are waiting and a frame has at least five sample frames it is the voice, whether the reader was
  running or starting afresh.\<close>

theorem mix_reader_steady:
  assumes "mix_ok mr" "mr_channels mr dvd frame" "mr_channels mr dvd behind" "mr_channels mr dvd length ring"
  shows "\<exists>out ring' mr'. mix_take frame behind ring mr = Some (out, ring', mr') \<and> length out = frame \<and> mix_ok mr' \<and>
     mr_channels mr' = mr_channels mr \<and> mr_channels mr dvd length ring' \<and> suffix ring' ring \<and>
     length ring' \<le> MIX_MAX_BACKLOG_FRAMES * frame + behind \<and>
     (5 * mr_channels mr \<le> frame \<and> MIX_PREFILL_FRAMES * frame \<le> length ring \<longrightarrow> mr_primed mr') \<and>
     (if mr_primed mr' then mix_delivers frame behind ring mr out ring' mr' else out = replicate frame 0)"
  using mix_take_facts [OF assms] by (simp add: MIX_MAX_BACKLOG_FRAMES_def MIX_PREFILL_FRAMES_def)

theorem mix_reader_steady_witness:
  "\<exists>out ring' mr'. mix_take 960 480 (replicate 2400 (1 / 3)) (mix_new 2) = Some (out, ring', mr') \<and> length out = 960 \<and> mr_primed mr'
     \<and> mix_delivers 960 480 (replicate 2400 (1 / 3)) (mix_new 2) out ring' mr'"
proof -
  have "mr_channels (mix_new 2) = 2" by (simp add: mix_new_def)
  then show ?thesis
    using mix_reader_steady [OF mix_new_ok, of 2 960 480 "replicate 2400 (1 / 3)"] by (simp add: MIX_PREFILL_FRAMES_def) metis
qed

section \<open>The signal chain\<close>

record CaptureControls =
  cc_muted :: bool
  cc_gain_db :: rat
  cc_noise_suppression :: bool
  cc_high_pass :: bool
  cc_echo_ducking :: bool
  cc_system_gain_db :: rat
  cc_mix_gain_db :: rat
  cc_mix_muted :: bool

definition capture_controls_new :: "rat \<Rightarrow> bool \<Rightarrow> CaptureControls" where
  "capture_controls_new gain_db noise_suppression =
     \<lparr>cc_muted = False, cc_gain_db = gain_db, cc_noise_suppression = noise_suppression, cc_high_pass = False,
      cc_echo_ducking = False, cc_system_gain_db = 0, cc_mix_gain_db = 0, cc_mix_muted = False\<rparr>"

text \<open>The mathematics library and RNNoise.\<close>

record 'n ChainOps =
  co_sqrt :: "rat \<Rightarrow> rat"
  co_pow10 :: "rat \<Rightarrow> rat"
  co_log10 :: "rat \<Rightarrow> rat"
  co_tanh :: "rat \<Rightarrow> rat"
  co_sin_cos :: "rat \<Rightarrow> rat \<times> rat"
  co_root_half :: rat
  co_rnn_new :: 'n
  co_rnn :: "'n \<Rightarrow> rat list \<Rightarrow> rat list \<times> 'n"

record 'n Chain =
  ch_mix_reader :: MixReader
  ch_mix_gain :: Gain
  ch_system_gain :: Gain
  ch_gain :: Gain
  ch_meter :: LevelMeter
  ch_denoiser :: "'n option"
  ch_high_pass :: "HighPass option"
  ch_duck :: DuckGate

definition chain_new :: "'n ChainOps \<Rightarrow> CaptureControls \<Rightarrow> nat \<Rightarrow> 'n Chain" where
  "chain_new ops ctl channels =
     \<lparr>ch_mix_reader = mix_new channels, ch_mix_gain = gain_new (db_to_gain (co_pow10 ops) (cc_mix_gain_db ctl)),
      ch_system_gain = gain_new (db_to_gain (co_pow10 ops) (cc_system_gain_db ctl)),
      ch_gain = gain_new (db_to_gain (co_pow10 ops) (cc_gain_db ctl)), ch_meter = meter_default, ch_denoiser = None,
      ch_high_pass = None, ch_duck = duck_new\<rparr>"

definition apply_high_pass :: "'n ChainOps \<Rightarrow> CaptureControls \<Rightarrow> nat \<Rightarrow> rat list \<times> 'n Chain \<Rightarrow> rat list \<times> 'n Chain" where
  "apply_high_pass ops ctl channels = (\<lambda>(dsp, ch).
     if cc_high_pass ctl
     then (let hp = (case ch_high_pass ch of Some hp \<Rightarrow> hp
                     | None \<Rightarrow> high_pass_new (co_sin_cos ops) (co_root_half ops) 80 channels);
               (dsp', hp') = high_pass_process dsp hp
           in (dsp', ch\<lparr>ch_high_pass := Some hp'\<rparr>))
     else (dsp, ch\<lparr>ch_high_pass := None\<rparr>))"

definition apply_denoiser :: "'n ChainOps \<Rightarrow> CaptureControls \<Rightarrow> nat \<Rightarrow> nat \<Rightarrow> rat list \<times> 'n Chain \<Rightarrow> rat list \<times> 'n Chain" where
  "apply_denoiser ops ctl channels frame = (\<lambda>(dsp, ch).
     if cc_noise_suppression ctl \<and> channels = 1 \<and> frame mod 480 = 0
     then (let (dsp', n) = noise_suppress (co_rnn ops) dsp (case ch_denoiser ch of Some n \<Rightarrow> n | None \<Rightarrow> co_rnn_new ops)
           in (dsp', ch\<lparr>ch_denoiser := Some n\<rparr>))
     else (dsp, ch\<lparr>ch_denoiser := None\<rparr>))"

definition apply_gain :: "rat list \<times> 'n Chain \<Rightarrow> rat list \<times> 'n Chain" where
  "apply_gain = (\<lambda>(dsp, ch). let (dsp', g) = gain_process dsp (ch_gain ch) in (dsp', ch\<lparr>ch_gain := g\<rparr>))"

text \<open>\<open>far_db\<close>: the level this device plays, for a capture with an echo reference.\<close>

definition apply_duck :: "'n ChainOps \<Rightarrow> CaptureControls \<Rightarrow> rat option \<Rightarrow> rat list \<times> 'n Chain \<Rightarrow> rat list \<times> 'n Chain" where
  "apply_duck ops ctl far_db = (\<lambda>(dsp, ch).
     case far_db of
       Some db \<Rightarrow> if cc_echo_ducking ctl
                  then (let (dsp', d) = duck_process (co_pow10 ops) dsp db (ch_duck ch) in (dsp', ch\<lparr>ch_duck := d\<rparr>))
                  else (dsp, ch)
     | None \<Rightarrow> (dsp, ch))"

definition mic_chain :: "'n ChainOps \<Rightarrow> CaptureControls \<Rightarrow> nat \<Rightarrow> nat \<Rightarrow> rat option \<Rightarrow> rat list \<Rightarrow> 'n Chain \<Rightarrow> rat list \<times> 'n Chain" where
  "mic_chain ops ctl channels frame far_db dsp ch =
     apply_duck ops ctl far_db (apply_gain (apply_denoiser ops ctl channels frame (apply_high_pass ops ctl channels (dsp, ch))))"

text \<open>The microphone mute silences only its half; the system audio keeps playing.\<close>

definition mix_in :: "'n ChainOps \<Rightarrow> CaptureControls \<Rightarrow> rat list \<Rightarrow> rat list \<Rightarrow> 'n Chain \<Rightarrow> rat list \<times> 'n Chain" where
  "mix_in ops ctl mic system ch =
     (let (mic', ch1) = (if cc_mix_muted ctl then (map (\<lambda>_. 0) mic, ch)
                         else (let (m, g) = gain_process mic (gain_set (db_to_gain (co_pow10 ops) (cc_mix_gain_db ctl)) (ch_mix_gain ch))
                               in (m, ch\<lparr>ch_mix_gain := g\<rparr>)));
          (sys', sg) = gain_process system (gain_set (db_to_gain (co_pow10 ops) (cc_system_gain_db ctl)) (ch_system_gain ch1))
      in (map2 (+) sys' mic', ch1\<lparr>ch_system_gain := sg\<rparr>))"

text \<open>One frame of the first capture, with the ring of the second where the source is mixed, up to the samples the
  encoder gets and the level and clipping shown.\<close>

definition finish_frame :: "'n ChainOps \<Rightarrow> CaptureControls \<Rightarrow> rat list \<Rightarrow> 'n Chain \<Rightarrow> (rat list \<times> rat \<times> bool) \<times> 'n Chain" where
  "finish_frame ops ctl buf ch =
     (let (clipped, out) = limiter_process (co_tanh ops) buf;
          meter = meter_process (co_sqrt ops) out (ch_meter ch)
      in ((if cc_muted ctl then map (\<lambda>_. 0) out else out, gain_to_db (co_log10 ops) (lm_peak meter), clipped), ch\<lparr>ch_meter := meter\<rparr>))"

definition process_frame :: "'n ChainOps \<Rightarrow> CaptureControls \<Rightarrow> nat \<Rightarrow> nat \<Rightarrow> nat \<Rightarrow> rat option \<Rightarrow> rat list \<Rightarrow> rat list option \<Rightarrow> 'n Chain \<Rightarrow>
    ((rat list \<times> rat \<times> bool) \<times> rat list option \<times> 'n Chain) option" where
  "process_frame ops ctl channels frame behind far_db buf mix_ring ch0 =
     (let ch = ch0\<lparr>ch_gain := gain_set (db_to_gain (co_pow10 ops) (cc_gain_db ctl)) (ch_gain ch0)\<rparr>
      in case mix_ring of
           None \<Rightarrow> (let (dsp, ch1) = mic_chain ops ctl channels frame far_db buf ch; (res, ch2) = finish_frame ops ctl dsp ch1
                   in Some (res, None, ch2))
         | Some ring \<Rightarrow> Option.bind (mix_take (frame * channels) behind ring (ch_mix_reader ch)) (\<lambda>(mic0, ring', mr).
             let (mic, ch1) = mic_chain ops ctl channels frame far_db mic0 (ch\<lparr>ch_mix_reader := mr\<rparr>);
                 (mixed, ch2) = mix_in ops ctl mic buf ch1;
                 (res, ch3) = finish_frame ops ctl mixed ch2
             in Some (res, Some ring', ch3)))"

section \<open>What the encoder gets\<close>

lemma high_pass_length [simp]: "length (fst (high_pass_process ss hp)) = length ss"
proof (induction ss hp rule: high_pass_process.induct)
  case (1 ss hp)
  show ?case
  proof (cases "hp_state hp = [] \<or> length ss < length (hp_state hp)")
    case True
    then show ?thesis by (subst high_pass_process.simps) auto
  next
    case False
    then show ?thesis using 1 [OF refl _ refl] by (subst high_pass_process.simps) (auto simp: Let_def case_prod_beta min_def)
  qed
qed

lemma noise_suppress_length:
  assumes "\<And>n f. length (fst (rnn n f)) = length f"
  shows "length (fst (noise_suppress rnn ss n)) = length ss"
proof (induction rnn\<equiv>rnn ss n rule: noise_suppress.induct)
  case (1 ss n)
  show ?case
  proof (cases "length ss < RNNOISE_FRAME")
    case True
    then show ?thesis by (subst noise_suppress.simps) simp
  next
    case False
    then show ?thesis using 1 [OF False refl prod.collapse] assms by (subst noise_suppress.simps) (simp add: case_prod_beta)
  qed
qed

text \<open>RNNoise gives a frame for a frame; the hyperbolic tangent of a positive number is positive and at most 1, which
  it reaches in single precision.\<close>

definition chain_ops_ok :: "'n ChainOps \<Rightarrow> bool" where
  "chain_ops_ok ops \<longleftrightarrow> (\<forall>n f. length (fst (co_rnn ops n f)) = length f) \<and> (\<forall>x > 0. 0 < co_tanh ops x \<and> co_tanh ops x \<le> 1)"

lemma duck_length [simp]: "length (fst (duck_process pow10 ss db dg)) = length ss"
  by (simp add: duck_process_def Let_def case_prod_beta)

lemma mic_chain_facts:
  assumes "chain_ops_ok ops"
  shows "length (fst (mic_chain ops ctl channels frame far dsp ch)) = length dsp"
    "ch_mix_reader (snd (mic_chain ops ctl channels frame far dsp ch)) = ch_mix_reader ch"
    "ch_system_gain (snd (mic_chain ops ctl channels frame far dsp ch)) = ch_system_gain ch"
    "ch_mix_gain (snd (mic_chain ops ctl channels frame far dsp ch)) = ch_mix_gain ch"
proof -
  have "length (fst (co_rnn ops n f)) = length f" for n f using assms by (simp add: chain_ops_ok_def)
  note rnn = noise_suppress_length [of "co_rnn ops", OF this]
  have hp: "length (fst (apply_high_pass ops ctl channels p)) = length (fst p) \<and>
      ch_mix_reader (snd (apply_high_pass ops ctl channels p)) = ch_mix_reader (snd p) \<and>
      ch_system_gain (snd (apply_high_pass ops ctl channels p)) = ch_system_gain (snd p) \<and>
      ch_mix_gain (snd (apply_high_pass ops ctl channels p)) = ch_mix_gain (snd p)" for p
    by (simp add: apply_high_pass_def case_prod_beta Let_def)
  have dn: "length (fst (apply_denoiser ops ctl channels frame p)) = length (fst p) \<and>
      ch_mix_reader (snd (apply_denoiser ops ctl channels frame p)) = ch_mix_reader (snd p) \<and>
      ch_system_gain (snd (apply_denoiser ops ctl channels frame p)) = ch_system_gain (snd p) \<and>
      ch_mix_gain (snd (apply_denoiser ops ctl channels frame p)) = ch_mix_gain (snd p)" for p
    by (simp add: apply_denoiser_def case_prod_beta Let_def rnn)
  have ga: "length (fst (apply_gain p)) = length (fst p) \<and> ch_mix_reader (snd (apply_gain p)) = ch_mix_reader (snd p) \<and>
      ch_system_gain (snd (apply_gain p)) = ch_system_gain (snd p) \<and> ch_mix_gain (snd (apply_gain p)) = ch_mix_gain (snd p)" for p :: "rat list \<times> 'a Chain"
    by (simp add: apply_gain_def case_prod_beta Let_def)
  have du: "length (fst (apply_duck ops ctl far p)) = length (fst p) \<and>
      ch_mix_reader (snd (apply_duck ops ctl far p)) = ch_mix_reader (snd p) \<and>
      ch_system_gain (snd (apply_duck ops ctl far p)) = ch_system_gain (snd p) \<and>
      ch_mix_gain (snd (apply_duck ops ctl far p)) = ch_mix_gain (snd p)" for p
    by (simp add: apply_duck_def case_prod_beta Let_def split: option.split)
  show "length (fst (mic_chain ops ctl channels frame far dsp ch)) = length dsp"
    "ch_mix_reader (snd (mic_chain ops ctl channels frame far dsp ch)) = ch_mix_reader ch"
    "ch_system_gain (snd (mic_chain ops ctl channels frame far dsp ch)) = ch_system_gain ch"
    "ch_mix_gain (snd (mic_chain ops ctl channels frame far dsp ch)) = ch_mix_gain ch"
    by (simp_all add: mic_chain_def hp dn ga du)
qed

lemma mix_in_facts:
  assumes "length mic = length system"
  shows "length (fst (mix_in ops ctl mic system ch)) = length system"
    "ch_mix_reader (snd (mix_in ops ctl mic system ch)) = ch_mix_reader ch"
    "cc_mix_muted ctl \<Longrightarrow> fst (mix_in ops ctl mic system ch) =
       fst (gain_process system (gain_set (db_to_gain (co_pow10 ops) (cc_system_gain_db ctl)) (ch_system_gain ch)))"
proof -
  have zero: "map2 (+) xs (map (\<lambda>_. 0) ys) = xs" if "length ys = length xs" for xs ys :: "rat list"
    using that by (induction xs ys rule: list_induct2') auto
  show "length (fst (mix_in ops ctl mic system ch)) = length system"
    "ch_mix_reader (snd (mix_in ops ctl mic system ch)) = ch_mix_reader ch"
    "cc_mix_muted ctl \<Longrightarrow> fst (mix_in ops ctl mic system ch) =
       fst (gain_process system (gain_set (db_to_gain (co_pow10 ops) (cc_system_gain_db ctl)) (ch_system_gain ch)))"
    using assms by (simp_all add: mix_in_def case_prod_beta Let_def zero)
qed

lemma finish_frame_facts:
  assumes "chain_ops_ok ops"
  shows "length (fst (fst (finish_frame ops ctl buf ch))) = length buf"
    "\<forall>s \<in> set (fst (fst (finish_frame ops ctl buf ch))). \<bar>s\<bar> \<le> 1"
    "cc_muted ctl \<Longrightarrow> set (fst (fst (finish_frame ops ctl buf ch))) \<subseteq> {0}"
    "\<not> cc_muted ctl \<Longrightarrow> fst (fst (finish_frame ops ctl buf ch)) = map (limit_sample (co_tanh ops)) buf"
    "ch_mix_reader (snd (finish_frame ops ctl buf ch)) = ch_mix_reader ch"
proof -
  have "\<bar>limit_sample (co_tanh ops) s\<bar> \<le> 1" for s
  proof (cases "\<bar>s\<bar> \<le> LIMITER_THRESHOLD")
    case True
    then show ?thesis using limit_sample_unchanged [OF True, of "co_tanh ops"] by (simp add: LIMITER_THRESHOLD_def)
  next
    case False
    then show ?thesis using limit_sample_loud(2) [of "co_tanh ops" s] assms by (simp add: chain_ops_ok_def)
  qed
  then show "length (fst (fst (finish_frame ops ctl buf ch))) = length buf"
    "\<forall>s \<in> set (fst (fst (finish_frame ops ctl buf ch))). \<bar>s\<bar> \<le> 1"
    "cc_muted ctl \<Longrightarrow> set (fst (fst (finish_frame ops ctl buf ch))) \<subseteq> {0}"
    "\<not> cc_muted ctl \<Longrightarrow> fst (fst (finish_frame ops ctl buf ch)) = map (limit_sample (co_tanh ops)) buf"
    "ch_mix_reader (snd (finish_frame ops ctl buf ch)) = ch_mix_reader ch"
    by (auto simp: finish_frame_def Let_def case_prod_beta limiter_process_def)
qed

text \<open>The rings hold whole sample frames, and the reader its invariant.\<close>

definition chain_ok :: "nat \<Rightarrow> 'n Chain \<Rightarrow> bool" where
  "chain_ok channels ch \<longleftrightarrow> mix_ok (ch_mix_reader ch) \<and> mr_channels (ch_mix_reader ch) = channels"

lemma process_frame_facts:
  assumes "chain_ops_ok ops" "chain_ok channels ch" "length buf = frame * channels"
    and "channels dvd behind" "\<forall>ring. mix_ring = Some ring \<longrightarrow> channels dvd length ring"
  shows "\<exists>out level clipped mix_ring' ch'.
     process_frame ops ctl channels frame behind far_db buf mix_ring ch = Some ((out, level, clipped), mix_ring', ch') \<and>
     length out = frame * channels \<and> (\<forall>s \<in> set out. \<bar>s\<bar> \<le> 1) \<and> chain_ok channels ch' \<and>
     (cc_muted ctl \<longrightarrow> set out \<subseteq> {0}) \<and>
     (mix_ring \<noteq> None \<and> cc_mix_muted ctl \<and> \<not> cc_muted ctl \<longrightarrow>
        out = map (limit_sample (co_tanh ops))
          (fst (gain_process buf (gain_set (db_to_gain (co_pow10 ops) (cc_system_gain_db ctl)) (ch_system_gain ch)))))"
proof -
  note facts = mic_chain_facts [OF assms(1)] finish_frame_facts [OF assms(1)]
  define ch0 where "ch0 = ch\<lparr>ch_gain := gain_set (db_to_gain (co_pow10 ops) (cc_gain_db ctl)) (ch_gain ch)\<rparr>"
  have ch0: "ch_mix_reader ch0 = ch_mix_reader ch" "ch_system_gain ch0 = ch_system_gain ch" by (simp_all add: ch0_def)
  show ?thesis
  proof (cases mix_ring)
    case None
    obtain dsp ch1 where mc: "mic_chain ops ctl channels frame far_db buf ch0 = (dsp, ch1)" by (rule prod.exhaust)
    obtain out level clipped ch2 where ff: "finish_frame ops ctl dsp ch1 = ((out, level, clipped), ch2)" by (metis prod.exhaust)
    have run: "process_frame ops ctl channels frame behind far_db buf mix_ring ch = Some ((out, level, clipped), None, ch2)"
      using None mc ff by (simp add: process_frame_def ch0_def [symmetric])
    have "length dsp = frame * channels" "ch_mix_reader ch1 = ch_mix_reader ch"
      using facts(1, 2) [of ctl channels frame far_db buf ch0] mc assms(3) ch0 by simp_all
    then show ?thesis unfolding run using facts(5-9) [of ctl dsp ch1] ff assms(2) None by (simp add: chain_ok_def)
  next
    case (Some ring)
    let ?mr = "ch_mix_reader ch"
    have reader: "mix_ok ?mr" "mr_channels ?mr = channels" using assms(2) by (simp_all add: chain_ok_def)
    have "\<exists>mic ring' mr'. mix_take (frame * channels) behind ring ?mr = Some (mic, ring', mr') \<and> length mic = frame * channels \<and>
        mix_ok mr' \<and> mr_channels mr' = channels"
      using mix_take_facts [OF reader(1), of "frame * channels" behind ring] assms(4, 5) Some reader(2) by auto
    then obtain mic0 ring' mr where t: "mix_take (frame * channels) behind ring ?mr = Some (mic0, ring', mr)"
      "length mic0 = frame * channels" "mix_ok mr" "mr_channels mr = channels" by blast
    obtain mic ch1 where mc: "mic_chain ops ctl channels frame far_db mic0 (ch0\<lparr>ch_mix_reader := mr\<rparr>) = (mic, ch1)" by (rule prod.exhaust)
    have c1: "length mic = length buf" "ch_mix_reader ch1 = mr" "ch_system_gain ch1 = ch_system_gain ch"
      using facts(1-3) [of ctl channels frame far_db mic0 "ch0\<lparr>ch_mix_reader := mr\<rparr>"] mc t(2) assms(3) ch0(2) by simp_all
    note mixed = mix_in_facts [OF c1(1), where ops = ops and ctl = ctl and ch = ch1]
    obtain m ch2 where mi: "mix_in ops ctl mic buf ch1 = (m, ch2)" by (rule prod.exhaust)
    obtain out level clipped ch3 where ff: "finish_frame ops ctl m ch2 = ((out, level, clipped), ch3)" by (metis prod.exhaust)
    have run: "process_frame ops ctl channels frame behind far_db buf mix_ring ch = Some ((out, level, clipped), Some ring', ch3)"
      using t(1) mc Some mi ff by (simp add: process_frame_def ch0_def [symmetric] ch0(1) Let_def)
    show ?thesis
      unfolding run using facts(5-9) [of ctl m ch2] mixed mi ff assms(3) t(3, 4) c1 by (simp add: chain_ok_def Some)
  qed
qed

text \<open>C14: What reaches the encoder is always a whole frame within full scale, whatever finite samples the captures
  delivered and whatever gains are set (the numbers of the model are exact; not-a-number and the infinities are no
  samples of it); it is pure silence while the group is muted; and while the microphone of a mixed source
  is muted it is exactly the system audio through its own gain and the limiter - nothing of the microphone is left
  in it, whatever its ring holds and whatever the filters before it remember.\<close>

theorem encoder_input_bounded:
  assumes "chain_ops_ok ops" "chain_ok channels ch" "length buf = frame * channels"
    and "channels dvd behind" "\<forall>ring. mix_ring = Some ring \<longrightarrow> channels dvd length ring"
  shows "\<exists>out level clipped mix_ring' ch'.
     process_frame ops ctl channels frame behind far_db buf mix_ring ch = Some ((out, level, clipped), mix_ring', ch') \<and>
     length out = frame * channels \<and> (\<forall>s \<in> set out. \<bar>s\<bar> \<le> 1) \<and> chain_ok channels ch' \<and>
     (cc_muted ctl \<longrightarrow> set out \<subseteq> {0}) \<and>
     (mix_ring \<noteq> None \<and> cc_mix_muted ctl \<and> \<not> cc_muted ctl \<longrightarrow>
        out = map (limit_sample (co_tanh ops))
          (fst (gain_process buf (gain_set (db_to_gain (co_pow10 ops) (cc_system_gain_db ctl)) (ch_system_gain ch)))))"
  by (rule process_frame_facts [OF assms])

section \<open>The loop as a whole\<close>

record CaptureIn =
  ci_controls :: CaptureControls
  ci_buf :: "rat list"
  ci_behind :: nat
  ci_mix_ring :: "rat list option"
  ci_far_db :: "rat option"

text \<open>One turn of the encode loop; the silence and the encoding of a frame are those of the processed samples.\<close>

definition encode_turn :: "'n ChainOps \<Rightarrow> (rat list \<Rightarrow> bytes option) \<Rightarrow> Codec \<Rightarrow> nat \<Rightarrow> nat \<Rightarrow> CaptureIn \<Rightarrow> FrameIn \<Rightarrow> 'n Chain \<Rightarrow> SenderState \<Rightarrow>
    (SenderOut list \<times> rat list option \<times> 'n Chain \<times> SenderState) option" where
  "encode_turn ops enc codec channels frame ci fi ch s =
     Option.bind (process_frame ops (ci_controls ci) channels frame (ci_behind ci) (ci_far_db ci) (ci_buf ci) (ci_mix_ring ci) ch)
       (\<lambda>((buf, level, clipped), ring, ch').
          let (out, s') = send_frame codec frame (fi\<lparr>fi_silent := is_silent buf, fi_encoded := enc buf\<rparr>) s
          in Some (out, ring, ch', s'))"

lemma silent_zero: "set xs \<subseteq> {0 :: rat} \<Longrightarrow> xs = replicate (length xs) 0 \<and> is_silent xs"
  by (induction xs) (auto simp: is_silent_def)

text \<open>C15: Nothing that was captured while a group is muted is ever sent: each datagram of a muted frame decodes to
  the bare DTX mark or to the encoding of a frame of zeros, at most with the copy of the packet before it, and the
  frame always counts as silent, so that receivers that understand DTX soon get no audio at all.\<close>

theorem muted_group_sends_silence:
  assumes "chain_ops_ok ops" "chain_ok channels ch" "length (ci_buf ci) = frame * channels"
    and "channels dvd ci_behind ci" "\<forall>ring. ci_mix_ring ci = Some ring \<longrightarrow> channels dvd length ring" "cc_muted (ci_controls ci)"
  shows "\<exists>out ring ch' s'. encode_turn ops enc codec channels frame ci fi ch s = Some (out, ring, ch', s') \<and> chain_ok channels ch' \<and>
     (ss_silent_frames s < ss_silent_frames s' \<or> ss_silent_frames s' = u64_max) \<and>
     (\<forall>i d ok. Datagram i d ok \<in> set out \<longrightarrow> (\<exists>p. media_decode d = Inr p \<and>
        (if flags_contains (mh_flags (mp_header p)) FLAG_DTX then mp_payload p = []
         else \<exists>packet. enc (replicate (frame * channels) 0) = Some packet \<and>
           mp_payload p = (if flags_contains (mh_flags (mp_header p)) FLAG_REDUNDANT
                           then redundant_payload packet (ss_previous s) else packet))))"
proof -
  note facts = process_frame_facts [OF assms(1-5), where far_db = "ci_far_db ci" and ctl = "ci_controls ci"]
  obtain buf level clipped ring ch' where run: "process_frame ops (ci_controls ci) channels frame (ci_behind ci) (ci_far_db ci) (ci_buf ci)
      (ci_mix_ring ci) ch = Some ((buf, level, clipped), ring, ch')" "length buf = frame * channels" "chain_ok channels ch'" "set buf \<subseteq> {0}"
    using facts assms(6) by blast
  have zeros: "buf = replicate (frame * channels) 0" "is_silent buf" using silent_zero [OF run(4)] run(2) by auto
  let ?fi = "fi\<lparr>fi_silent := True, fi_encoded := enc (replicate (frame * channels) 0)\<rparr>"
  obtain out s' where sf: "send_frame codec frame ?fi s = (out, s')" by (rule prod.exhaust)
  have "ss_silent_frames s' = min (ss_silent_frames s + 1) u64_max"
    using sf by (auto simp: send_frame_def Let_def case_prod_beta split: if_splits)
  then have count: "ss_silent_frames s < ss_silent_frames s' \<or> ss_silent_frames s' = u64_max" by linarith
  have each: "\<exists>p. media_decode d = Inr p \<and> (if flags_contains (mh_flags (mp_header p)) FLAG_DTX then mp_payload p = []
      else \<exists>packet. enc (replicate (frame * channels) 0) = Some packet \<and>
        mp_payload p = (if flags_contains (mh_flags (mp_header p)) FLAG_REDUNDANT then redundant_payload packet (ss_previous s) else packet))"
    if "Datagram i d ok \<in> set out" for i d ok
  proof -
    have "fi_encoded ?fi = enc (replicate (frame * channels) 0)" by simp
    with sender_datagrams_helper [OF sf that] show ?thesis by metis
  qed
  have "encode_turn ops enc codec channels frame ci fi ch s = Some (out, ring, ch', s')"
    using run(1) sf zeros by (simp add: encode_turn_def)
  then show ?thesis using run(3) count each by blast
qed

section \<open>The microphone monitor\<close>

record Monitor =
  mo_ring :: "rat list"
  mo_gain :: Gain
  mo_detector :: FeedbackDetector
  mo_feedback :: bool

definition MONITOR_RING :: nat where "MONITOR_RING = 1920"

definition monitor_start :: "(rat \<Rightarrow> rat) \<Rightarrow> rat \<Rightarrow> Monitor" where
  "monitor_start pow10 gain_db =
     \<lparr>mo_ring = [], mo_gain = gain_new (db_to_gain pow10 gain_db), mo_detector = feedback_new, mo_feedback = False\<rparr>"

definition monitor_capture :: "Math \<Rightarrow> rat list \<Rightarrow> Monitor \<Rightarrow> Monitor" where
  "monitor_capture mt samples mo =
     (let (heard, fd) = feedback_process mt samples (mo_detector mo)
      in mo\<lparr>mo_detector := fd, mo_feedback := mo_feedback mo \<or> heard,
            mo_ring := mo_ring mo @ take (MONITOR_RING - length (mo_ring mo)) samples\<rparr>)"

text \<open>Latency stays bounded: what is queued beyond two callbacks is skipped, what is missing is silence.\<close>

definition monitor_render :: "(rat \<Rightarrow> rat) \<Rightarrow> rat \<Rightarrow> nat \<Rightarrow> Monitor \<Rightarrow> rat list \<times> Monitor" where
  "monitor_render pow10 gain_db wanted mo =
     (let ring = drop (length (mo_ring mo) - 2 * wanted) (mo_ring mo);
          out = take wanted ring @ replicate (wanted - length ring) 0;
          (out', g) = gain_process out (gain_set (db_to_gain pow10 gain_db) (mo_gain mo))
      in (out', mo\<lparr>mo_ring := drop wanted ring, mo_gain := g\<rparr>))"

definition take_feedback :: "Monitor \<Rightarrow> bool \<times> Monitor" where
  "take_feedback mo = (mo_feedback mo, mo\<lparr>mo_feedback := False\<rparr>)"

text \<open>The monitor never plays what is older than two callbacks, or more than its ring: each callback gets the samples
  it asked for and leaves at most one more callback's worth.\<close>

theorem monitor_latency_bounded:
  assumes "length (mo_ring mo) \<le> MONITOR_RING"
  shows "length (mo_ring (monitor_capture mt samples mo)) \<le> MONITOR_RING"
    "length (fst (monitor_render pow10 db wanted mo)) = wanted"
    "length (mo_ring (snd (monitor_render pow10 db wanted mo))) \<le> min wanted MONITOR_RING"
  using assms by (auto simp: monitor_capture_def monitor_render_def case_prod_beta Let_def)

section \<open>Examples\<close>

definition example_chain_ops :: "unit ChainOps" where
  "example_chain_ops = \<lparr>co_sqrt = (\<lambda>x. x), co_pow10 = (\<lambda>x. if x = 0 then 1 else 1 / 2), co_log10 = (\<lambda>x. x),
     co_tanh = (\<lambda>x. x / (1 + \<bar>x\<bar>)), co_sin_cos = (\<lambda>_. (0, 1)), co_root_half = 707 / 1000, co_rnn_new = (),
     co_rnn = (\<lambda>_ f. (f, ()))\<rparr>"

definition example_controls :: CaptureControls where
  "example_controls = (capture_controls_new 0 True)\<lparr>cc_high_pass := True, cc_mix_muted := True\<rparr>"

lemma example_chain_ok:
  "chain_ops_ok example_chain_ops" "chain_ok 2 (chain_new example_chain_ops example_controls 2)"
  by (simp_all add: chain_ops_ok_def example_chain_ops_def chain_ok_def chain_new_def) (simp add: mix_new_def)

theorem encoder_input_bounded_witness:
  "\<exists>out level clipped ring ch'. process_frame example_chain_ops example_controls 2 480 0 (Some (- 20)) (replicate 960 2)
     (Some (replicate 1920 (1 / 2))) (chain_new example_chain_ops example_controls 2) = Some ((out, level, clipped), ring, ch') \<and>
     out = map (limit_sample (co_tanh example_chain_ops)) (fst (gain_process (replicate 960 2) (gain_set 1 (gain_new 1))))"
proof -
  have ctl: "\<not> cc_muted example_controls" "cc_mix_muted example_controls" "cc_system_gain_db example_controls = 0"
    by (simp_all add: example_controls_def capture_controls_new_def)
  have unit: "db_to_gain (co_pow10 example_chain_ops) 0 = 1" by (simp add: db_to_gain_def example_chain_ops_def)
  have gain: "ch_system_gain (chain_new example_chain_ops example_controls 2) = gain_new 1" by (simp add: chain_new_def ctl unit)
  show ?thesis
    using encoder_input_bounded [OF example_chain_ok, where buf = "replicate 960 2" and frame = 480 and behind = 0
      and mix_ring = "Some (replicate 1920 (1 / 2))" and far_db = "Some (- 20)" and ctl = example_controls]
    unfolding gain by (simp add: ctl unit) blast
qed

text \<open>An encoder that gives one byte per frame.\<close>

theorem muted_group_sends_silence_witness:
  "\<exists>out ring ch' s'. encode_turn example_chain_ops (\<lambda>_. Some [7]) Opus 1 480
     \<lparr>ci_controls = (capture_controls_new 0 False)\<lparr>cc_muted := True\<rparr>, ci_buf = replicate 480 (1 / 2), ci_behind = 0,
      ci_mix_ring = None, ci_far_db = None\<rparr>
     \<lparr>fi_fanout = snd (fanout_subscribe \<lparr>sb_route = 1, sb_dtx = True\<rparr> fanout_default),
      fi_controls = (\<lambda>_. \<lparr>tc_muted = False, tc_bitrate = 64000, tc_expected_loss_pct = 0, tc_redundancy = False\<rparr>),
      fi_silent = False, fi_encoded = None, fi_sent = (\<lambda>_. True)\<rparr>
     (chain_new example_chain_ops (capture_controls_new 0 False) 1) sender_new = Some (out, ring, ch', s') \<and> 0 < ss_silent_frames s'"
proof -
  let ?ci = "\<lparr>ci_controls = (capture_controls_new 0 False)\<lparr>cc_muted := True\<rparr>, ci_buf = replicate 480 (1 / 2), ci_behind = 0,
      ci_mix_ring = None, ci_far_db = None\<rparr>"
  have ok: "chain_ok 1 (chain_new example_chain_ops (capture_controls_new 0 False) 1)"
    by (simp add: chain_ok_def chain_new_def) (simp add: mix_new_def)
  have args: "length (ci_buf ?ci) = 480 * 1" "1 dvd ci_behind ?ci" "\<forall>ring. ci_mix_ring ?ci = Some ring \<longrightarrow> 1 dvd length ring" "cc_muted (ci_controls ?ci)"
    by simp_all
  from muted_group_sends_silence [OF example_chain_ok(1) ok args] show ?thesis by (fastforce simp: u64_max_def)
qed

end
