(* ===== verification/Tcp_Link.thy ===== *)
theory Tcp_Link
  imports Control_Channel Identity
begin

text \<open>
  The TLS-over-TCP transport (\<open>tcp.rs\<close>) and the certificate checks of both transports (\<open>verifier.rs\<close>). The writer and
  the reader task of a connection are step functions on the state they share: a turn of the writer is one pass of
  its biased select, a turn of the reader is one read of the socket. TLS, the sockets and the parser of
  certificates are arguments or inputs; the queues are lists with the capacities of the code.
\<close>

section \<open>Certificates\<close>

datatype CertError = BadEncoding | VerificationFailure

type_synonym cert_parser = "bytes \<Rightarrow> PublicKey option"

definition device_id_of_cert :: "(bytes \<Rightarrow> bytes) \<Rightarrow> cert_parser \<Rightarrow> bytes \<Rightarrow> DeviceId option" where
  "device_id_of_cert sha256 key_of cert = map_option (device_id_of sha256) (key_of cert)"

definition check_cert :: "(bytes \<Rightarrow> bytes) \<Rightarrow> cert_parser \<Rightarrow> bytes \<Rightarrow> DeviceId option \<Rightarrow> CertError + unit" where
  "check_cert sha256 key_of cert pinned =
     (case key_of cert of
        None \<Rightarrow> Inl BadEncoding
      | Some key \<Rightarrow>
          (case pinned of
             Some expected \<Rightarrow> if device_id_of sha256 key \<noteq> expected then Inl VerificationFailure else Inr ()
           | None \<Rightarrow> Inr ()))"

text \<open>The client's check of the server certificate, with the flag that the server is this device.\<close>

definition verify_server_cert :: "(bytes \<Rightarrow> bytes) \<Rightarrow> cert_parser \<Rightarrow> DeviceId \<Rightarrow> DeviceId option \<Rightarrow> bytes \<Rightarrow> bool \<Rightarrow> (CertError + unit) \<times> bool" where
  "verify_server_cert sha256 key_of own pinned cert dialed_self =
     (check_cert sha256 key_of cert pinned, dialed_self \<or> device_id_of_cert sha256 key_of cert = Some own)"

definition verify_client_cert :: "(bytes \<Rightarrow> bytes) \<Rightarrow> cert_parser \<Rightarrow> bytes \<Rightarrow> CertError + unit" where
  "verify_client_cert sha256 key_of cert = check_cert sha256 key_of cert None"

text \<open>The identity of the peer, from the leaf certificate.\<close>

definition session_info :: "cert_parser \<Rightarrow> bytes list \<Rightarrow> TransportError + PublicKey" where
  "session_info key_of certs =
     (case certs of
        [] \<Rightarrow> Inl PeerIdentity
      | leaf # _ \<Rightarrow> (case key_of leaf of Some key \<Rightarrow> Inr key | None \<Rightarrow> Inl PeerIdentity))"

text \<open>What dialling returns: \<open>None\<close> is a handshake that timed out.\<close>

definition dial_result :: "(TransportError + 'c) option \<Rightarrow> bool \<Rightarrow> TransportError + 'c" where
  "dial_result result dialed_self =
     (case result of
        None \<Rightarrow> Inl Timeout
      | Some (Inl e) \<Rightarrow> if dialed_self then Inl DialedSelf else Inl e
      | Some (Inr c) \<Rightarrow> Inr c)"

text \<open>The dialling side of a TLS handshake with a server that shows \<open>certs\<close>: rustls asks the verifier about the
  leaf, and finishes only if it agrees and everything else (\<open>rest_ok\<close>) is in order. A dial that does not finish
  in time reports \<open>Timeout\<close> whatever was shown; that case of \<open>dial_result\<close> is not taken here.\<close>

definition tls_dial :: "(bytes \<Rightarrow> bytes) \<Rightarrow> cert_parser \<Rightarrow> DeviceId \<Rightarrow> DeviceId option \<Rightarrow> bytes list \<Rightarrow> bool \<Rightarrow> TransportError + PublicKey" where
  "tls_dial sha256 key_of own pinned certs rest_ok =
     (case certs of
        [] \<Rightarrow> dial_result (Some (Inl (Tls []))) False
      | leaf # _ \<Rightarrow>
          (let (checked, dialed_self) = verify_server_cert sha256 key_of own pinned leaf False
           in dial_result (Some (case checked of
                Inl _ \<Rightarrow> Inl (Tls [])
              | Inr _ \<Rightarrow> if rest_ok then session_info key_of certs else Inl (Tls []))) dialed_self))"

text \<open>C29: With a pinned device a connection is made only to a peer whose leaf certificate carries a key with exactly
  that identifier, and the key the connection reports is that one; dialling this device by mistake while another
  one is pinned never connects and is reported as what it is.\<close>

theorem pinned_dial_authentic:
  "(tls_dial sha256 key_of own (Some d) certs rest_ok = Inr key \<longrightarrow>
      device_id_of sha256 key = d \<and> (\<exists>leaf rest. certs = leaf # rest \<and> key_of leaf = Some key)) \<and>
   (key_of (hd certs) = Some own_key \<and> device_id_of sha256 own_key = own \<and> d \<noteq> own \<and> certs \<noteq> [] \<longrightarrow>
      tls_dial sha256 key_of own (Some d) certs rest_ok = Inl DialedSelf)"
  by (auto simp: tls_dial_def verify_server_cert_def check_cert_def session_info_def dial_result_def device_id_of_cert_def Let_def
      neq_Nil_conv split: list.splits option.splits sum.splits if_splits)

theorem pinned_dial_authentic_witness:
  "tls_dial (\<lambda>k. replicate 32 (hd k)) (\<lambda>c. Some c) (replicate 16 7) (Some (replicate 16 9)) [[7]] True = Inl DialedSelf \<and>
   device_id_of (\<lambda>k. replicate 32 (hd k)) [9] = replicate 16 9"
proof -
  have id: "device_id_of (\<lambda>k. replicate 32 (hd k)) [b] = replicate 16 b" for b
    by (simp add: fp_device_id_def of_public_key_def min_def)
  have ok: "tls_dial (\<lambda>k. replicate 32 (hd k)) (\<lambda>c. Some c) (replicate 16 7) (Some (replicate 16 9)) [[9]] True = Inr [9]"
    by (simp add: tls_dial_def verify_server_cert_def check_cert_def id session_info_def dial_result_def)
  show ?thesis
    using pinned_dial_authentic [of "\<lambda>k. replicate 32 (hd k)" "\<lambda>c. Some c" "replicate 16 7" "replicate 16 9" "[[9]]" True "[9]" "[7]"]
      pinned_dial_authentic [of "\<lambda>k. replicate 32 (hd k)" "\<lambda>c. Some c" "replicate 16 7" "replicate 16 9" "[[7]]" True "[9]" "[7]"] ok id [of 7]
    by simp
qed

section \<open>The state of a connection\<close>

datatype Outbound = OutControl bytes | OutPong bytes | OutClose u32

definition CONTROL_QUEUE :: nat where "CONTROL_QUEUE = 256"
definition DATAGRAM_SEND_QUEUE :: nat where "DATAGRAM_SEND_QUEUE = 64"
definition DATAGRAM_RECV_QUEUE :: nat where "DATAGRAM_RECV_QUEUE = 256"
definition STALE_AFTER :: nat where "STALE_AFTER = from_millis 200"

text \<open>The queues and flags both tasks share. \<open>tp_held\<close>: some clone of the connection is alive; \<open>tp_sender\<close>, \<open>tp_receiver\<close>:
  the ends of the control channel are, taken out of it or not; \<open>tp_writing\<close>, \<open>tp_reading\<close>: the task is running.\<close>

record TcpSide =
  tp_control_out :: "Outbound list"
  tp_datagram_out :: "(nat \<times> bytes) list"
  tp_control_in :: "bytes list"
  tp_datagram_in :: "bytes list"
  tp_rtt_us :: nat
  tp_sent :: nat
  tp_lost :: nat
  tp_closed :: bool
  tp_held :: bool
  tp_sender :: bool
  tp_receiver :: bool
  tp_writing :: bool
  tp_reading :: bool
  tp_decoder :: StreamFrameDecoder

definition tcp_start :: TcpSide where
  "tcp_start = \<lparr>tp_control_out = [], tp_datagram_out = [], tp_control_in = [], tp_datagram_in = [], tp_rtt_us = 0, tp_sent = 0,
     tp_lost = 0, tp_closed = False, tp_held = True, tp_sender = True, tp_receiver = True, tp_writing = True, tp_reading = True,
     tp_decoder = stream_decoder_new\<rparr>"

text \<open>A control message is queued when there is room; the caller waits otherwise.\<close>

definition tcp_send_control :: "bytes \<Rightarrow> TcpSide \<Rightarrow> (TransportError + bool) \<times> TcpSide" where
  "tcp_send_control msg s =
     (if MAX_CONTROL_FRAME < length msg then (Inl (Protocol (FrameTooLarge (length msg) MAX_CONTROL_FRAME)), s)
      else if \<not> tp_writing s then (Inl Closed, s)
      else if CONTROL_QUEUE \<le> length (tp_control_out s) then (Inr False, s)
      else (Inr True, s\<lparr>tp_control_out := tp_control_out s @ [OutControl msg]\<rparr>))"

text \<open>A datagram that finds the queue full is dropped, as QUIC does.\<close>

definition tcp_send_datagram :: "nat \<Rightarrow> bytes \<Rightarrow> TcpSide \<Rightarrow> (TransportError + unit) \<times> TcpSide" where
  "tcp_send_datagram now data s =
     (if MAX_MEDIA_FRAME < length data then (Inl (Protocol (FrameTooLarge (length data) MAX_MEDIA_FRAME)), s)
      else if \<not> tp_writing s then (Inl Closed, s)
      else if DATAGRAM_SEND_QUEUE \<le> length (tp_datagram_out s) then (Inr (), s\<lparr>tp_lost := tp_lost s + 1\<rparr>)
      else (Inr (), s\<lparr>tp_datagram_out := tp_datagram_out s @ [(now, data)]\<rparr>))"

definition tcp_read_datagram :: "TcpSide \<Rightarrow> (TransportError + bytes option) \<times> TcpSide" where
  "tcp_read_datagram s =
     (case tp_datagram_in s of
        d # ds \<Rightarrow> (Inr (Some d), s\<lparr>tp_datagram_in := ds\<rparr>)
      | [] \<Rightarrow> (if tp_reading s then Inr None else Inl Closed, s))"

definition tcp_close :: "u32 \<Rightarrow> TcpSide \<Rightarrow> TcpSide" where
  "tcp_close code s =
     (if \<not> tp_writing s \<or> CONTROL_QUEUE \<le> length (tp_control_out s) then s\<lparr>tp_closed := True\<rparr>
      else s\<lparr>tp_control_out := tp_control_out s @ [OutClose code]\<rparr>)"

section \<open>The writer\<close>

definition writer_stops :: "TcpSide \<Rightarrow> TcpSide" where
  "writer_stops s = s\<lparr>tp_writing := False, tp_closed := True\<rparr>"

definition outbound_frame :: "Outbound \<Rightarrow> StreamFrameKind \<times> bytes" where
  "outbound_frame m = (case m of OutControl bs \<Rightarrow> (FControl, bs) | OutPong bs \<Rightarrow> (FPong, bs) | OutClose code \<Rightarrow> (FClose, put_u32 code))"

text \<open>What the writer does with one frame: a frame it cannot encode is skipped, a failed write or a close ends it. Of a
  failed write nothing is counted as sent: what the socket took of it is the start of a frame that is never
  completed, and that the decoder of the peer keeps without handing anything on.\<close>

definition write_out :: "bool \<Rightarrow> bool \<Rightarrow> StreamFrameKind \<times> bytes \<Rightarrow> TcpSide \<Rightarrow> bytes \<times> TcpSide" where
  "write_out write_ok finish f s =
     (case encode_stream_frame (fst f) (snd f) [] of
        Inl _ \<Rightarrow> ([], s)
      | Inr wire \<Rightarrow> if \<not> write_ok then ([], writer_stops s) else (wire, if finish then writer_stops s else s))"

text \<open>One pass: closing first, then control, then media that is still fresh, then the keep-alive if it is due.\<close>

definition writer_turn :: "nat \<Rightarrow> nat \<Rightarrow> bool \<Rightarrow> bool \<Rightarrow> TcpSide \<Rightarrow> bytes \<times> TcpSide" where
  "writer_turn now now_us tick write_ok s =
     (if \<not> tp_writing s then ([], s)
      else if tp_closed s then ([], writer_stops s)
      else case tp_control_out s of
        m # ms \<Rightarrow> write_out write_ok (\<exists>code. m = OutClose code) (outbound_frame m) (s\<lparr>tp_control_out := ms\<rparr>)
      | [] \<Rightarrow>
          if \<not> tp_held s \<and> \<not> tp_sender s then ([], writer_stops s)
          else (case tp_datagram_out s of
            (queued, data) # ds \<Rightarrow>
              (let s' = s\<lparr>tp_datagram_out := ds\<rparr>
               in if STALE_AFTER < now - queued then ([], s'\<lparr>tp_lost := tp_lost s' + 1\<rparr>)
                  else write_out write_ok False (FDatagram, data) (s'\<lparr>tp_sent := tp_sent s' + 1\<rparr>))
          | [] \<Rightarrow> if \<not> tp_held s then ([], writer_stops s)
                  else if tick then write_out write_ok False (FPing, put_u64 (word_of_nat now_us)) s else ([], s)))"

section \<open>The reader\<close>

definition reader_stops :: "TcpSide \<Rightarrow> TcpSide" where
  "reader_stops s = s\<lparr>tp_reading := False, tp_closed := True\<rparr>"

definition rtt_sample :: "nat \<Rightarrow> nat \<Rightarrow> nat" where
  "rtt_sample old sample = (if old = 0 then sample else (old * 7 + sample) div 8)"

text \<open>One frame; the flag says whether the reader goes on.\<close>

definition read_frame :: "nat \<Rightarrow> StreamFrameKind \<times> bytes \<Rightarrow> TcpSide \<Rightarrow> bool \<times> TcpSide" where
  "read_frame now_us f s =
     (case fst f of
        FControl \<Rightarrow> if tp_receiver s then (True, s\<lparr>tp_control_in := tp_control_in s @ [snd f]\<rparr>) else (False, s)
      | FDatagram \<Rightarrow>
          if \<not> tp_held s then (False, s)
          else if DATAGRAM_RECV_QUEUE \<le> length (tp_datagram_in s) then (True, s)
          else (True, s\<lparr>tp_datagram_in := tp_datagram_in s @ [snd f]\<rparr>)
      | FPing \<Rightarrow>
          if length (snd f) \<noteq> 8 \<or> (\<not> tp_held s \<and> \<not> tp_sender s) then (False, s)
          else if tp_writing s \<and> length (tp_control_out s) < CONTROL_QUEUE
          then (True, s\<lparr>tp_control_out := tp_control_out s @ [OutPong (snd f)]\<rparr>) else (True, s)
      | FPong \<Rightarrow>
          if length (snd f) = 8
          then (True, s\<lparr>tp_rtt_us := rtt_sample (tp_rtt_us s) (now_us - unat (get_u64 (snd f)))\<rparr>) else (True, s)
      | FClose \<Rightarrow> (False, s))"

fun read_frames :: "nat \<Rightarrow> (StreamFrameKind \<times> bytes) list \<Rightarrow> TcpSide \<Rightarrow> bool \<times> TcpSide" where
  "read_frames now_us [] s = (True, s)"
| "read_frames now_us (f # fs) s =
     (case read_frame now_us f s of (True, s') \<Rightarrow> read_frames now_us fs s' | (False, s') \<Rightarrow> (False, s'))"

text \<open>One read: \<open>None\<close> is the end of the stream, an error or ten silent seconds.\<close>

definition reader_turn :: "nat \<Rightarrow> bytes option \<Rightarrow> TcpSide \<Rightarrow> TcpSide" where
  "reader_turn now_us chunk s =
     (if \<not> tp_reading s then s
      else if tp_closed s then reader_stops s
      else case chunk of
        None \<Rightarrow> reader_stops s
      | Some [] \<Rightarrow> reader_stops s
      | Some bs \<Rightarrow>
          (let (fs, err, d) = stream_decoder_drain (stream_decoder_extend (tp_decoder s) bs);
               (go, s') = read_frames now_us fs (s\<lparr>tp_decoder := d\<rparr>)
           in if go \<and> err = None then s' else reader_stops s'))"

section \<open>Runs\<close>

text \<open>What can happen on one side, in any order.\<close>

datatype TcpOp =
    SendControl bytes
  | SendDatagram nat bytes
  | TakeDatagram
  | CloseLink u32
  | ReleaseConnection
  | ReleaseSender
  | WriterTurn nat nat bool bool
  | ReaderTurn nat "bytes option"

definition tcp_op :: "TcpOp \<Rightarrow> TcpSide \<Rightarrow> bytes \<times> TcpSide" where
  "tcp_op p s =
     (case p of
        SendControl msg \<Rightarrow> ([], snd (tcp_send_control msg s))
      | SendDatagram now data \<Rightarrow> ([], snd (tcp_send_datagram now data s))
      | TakeDatagram \<Rightarrow> ([], snd (tcp_read_datagram s))
      | CloseLink code \<Rightarrow> ([], tcp_close code s)
      | ReleaseConnection \<Rightarrow> ([], s\<lparr>tp_held := False\<rparr>)
      | ReleaseSender \<Rightarrow> ([], s\<lparr>tp_sender := False\<rparr>)
      | WriterTurn now now_us tick ok \<Rightarrow> writer_turn now now_us tick ok s
      | ReaderTurn now_us chunk \<Rightarrow> ([], reader_turn now_us chunk s))"

fun tcp_run :: "TcpOp list \<Rightarrow> TcpSide \<Rightarrow> bytes \<times> TcpSide" where
  "tcp_run [] s = ([], s)"
| "tcp_run (p # ps) s = (let (w, s1) = tcp_op p s; (w', s2) = tcp_run ps s1 in (w @ w', s2))"

fun read_run :: "(nat \<times> bytes) list \<Rightarrow> TcpSide \<Rightarrow> TcpSide" where
  "read_run [] s = s"
| "read_run ((now_us, chunk) # rs) s = read_run rs (reader_turn now_us (Some chunk) s)"

text \<open>The control messages whose sending was accepted, those still queued, and those in a list of frames.\<close>

definition accepted :: "TcpOp \<Rightarrow> TcpSide \<Rightarrow> bytes list" where
  "accepted p s = (case p of SendControl msg \<Rightarrow> if fst (tcp_send_control msg s) = Inr True then [msg] else [] | _ \<Rightarrow> [])"

fun all_accepted :: "TcpOp list \<Rightarrow> TcpSide \<Rightarrow> bytes list" where
  "all_accepted [] s = []"
| "all_accepted (p # ps) s = accepted p s @ all_accepted ps (snd (tcp_op p s))"

definition controls :: "(StreamFrameKind \<times> bytes) list \<Rightarrow> bytes list" where
  "controls fs = map snd (filter (\<lambda>f. fst f = FControl) fs)"

definition queued_controls :: "TcpSide \<Rightarrow> bytes list" where
  "queued_controls s = controls (map outbound_frame (tp_control_out s))"

lemma controls_simps [simp]:
  "controls [] = []" "controls (f # fs) = (if fst f = FControl then snd f # controls fs else controls fs)"
  "controls (fs @ gs) = controls fs @ controls gs"
  by (simp_all add: controls_def)

section \<open>What the writer puts on the wire\<close>

definition legal_frame :: "StreamFrameKind \<times> bytes \<Rightarrow> bool" where
  "legal_frame f \<longleftrightarrow> length (snd f) \<le> kind_max_len (fst f) \<and> (fst f = FPing \<longrightarrow> length (snd f) = 8)"

definition side_ok :: "TcpSide \<Rightarrow> bool" where
  "side_ok s \<longleftrightarrow> (\<forall>m \<in> set (tp_control_out s). legal_frame (outbound_frame m)) \<and>
     (\<forall>d \<in> set (tp_datagram_out s). length (snd d) \<le> MAX_MEDIA_FRAME)"

lemma tcp_start_ok [simp]: "side_ok tcp_start" "queued_controls tcp_start = []" "tp_writing tcp_start"
  by (simp_all add: side_ok_def tcp_start_def queued_controls_def)

lemma write_out_legal:
  assumes "legal_frame f"
  shows "write_out ok finish f s = (if ok then (typed_wire f, if finish then writer_stops s else s) else ([], writer_stops s))"
  using assms encode_stream_frame_wire [of "snd f" "fst f" "[]"] by (simp add: write_out_def legal_frame_def)

lemma read_frame_out:
  assumes "read_frame now_us f s = (go, s')"
  shows "tp_writing s' = tp_writing s" "tp_datagram_out s' = tp_datagram_out s"
    "\<exists>pongs. tp_control_out s' = tp_control_out s @ map OutPong pongs \<and> (\<forall>p \<in> set pongs. length p = 8)"
proof -
  have none: "\<exists>pongs. x = x @ map OutPong pongs \<and> (\<forall>p \<in> set pongs. length p = 8)" for x
    by (rule exI [of _ "[]"]) simp
  have one: "length p = 8 \<Longrightarrow> \<exists>pongs. x @ [OutPong p] = x @ map OutPong pongs \<and> (\<forall>p \<in> set pongs. length p = 8)" for x p
    by (rule exI [of _ "[p]"]) simp
  show "tp_writing s' = tp_writing s" "tp_datagram_out s' = tp_datagram_out s"
    "\<exists>pongs. tp_control_out s' = tp_control_out s @ map OutPong pongs \<and> (\<forall>p \<in> set pongs. length p = 8)"
    using assms none one by (auto simp: read_frame_def split: StreamFrameKind.splits if_splits)
qed

lemma read_frames_out:
  assumes "read_frames now_us fs s = (go, s')"
  shows "tp_writing s' = tp_writing s \<and> tp_datagram_out s' = tp_datagram_out s \<and>
    (\<exists>pongs. tp_control_out s' = tp_control_out s @ map OutPong pongs \<and> (\<forall>p \<in> set pongs. length p = 8))"
  using assms
proof (induction fs arbitrary: s)
  case Nil
  then show ?case by (auto intro: exI [of _ "[]"])
next
  case (Cons f fs)
  obtain g s1 where one: "read_frame now_us f s = (g, s1)" by (rule prod.exhaust)
  note r = read_frame_out [OF one]
  show ?case
  proof (cases g)
    case True
    then have "read_frames now_us fs s1 = (go, s')" using Cons.prems one by simp
    note rest = Cons.IH [OF this]
    obtain ps1 ps2 where "tp_control_out s1 = tp_control_out s @ map OutPong ps1" "tp_control_out s' = tp_control_out s1 @ map OutPong ps2"
      "\<forall>p \<in> set ps1. length p = 8" "\<forall>p \<in> set ps2. length p = 8" using rest r(3) by blast
    then show ?thesis using rest r(1, 2) by (auto intro!: exI [of _ "ps1 @ ps2"])
  next
    case False
    then show ?thesis using Cons.prems one r by simp
  qed
qed

lemma reader_turn_out:
  "tp_writing (reader_turn now_us c s) = tp_writing s \<and> tp_datagram_out (reader_turn now_us c s) = tp_datagram_out s \<and>
   (\<exists>pongs. tp_control_out (reader_turn now_us c s) = tp_control_out s @ map OutPong pongs \<and> (\<forall>p \<in> set pongs. length p = 8))"
proof -
  have none: "\<exists>pongs. x = x @ map OutPong pongs \<and> (\<forall>p \<in> set pongs. length p = 8)" for x
    by (rule exI [of _ "[]"]) simp
  show ?thesis
    using none read_frames_out [of now_us _ "s\<lparr>tp_decoder := _\<rparr>"]
    by (auto simp: reader_turn_def reader_stops_def Let_def split: option.split list.split prod.split)
qed

lemma outbound_kind: "fst (outbound_frame m) = FControl \<longleftrightarrow> (\<exists>bs. m = OutControl bs)"
  "fst (outbound_frame m) = FClose \<longleftrightarrow> (\<exists>code. m = OutClose code)" "fst (outbound_frame m) \<noteq> FDatagram" "fst (outbound_frame m) \<noteq> FPing"
  by (cases m; simp add: outbound_frame_def)+

text \<open>At most one legal frame per turn, and control messages first come, first served.\<close>

definition turn_ok :: "bytes list \<Rightarrow> TcpSide \<Rightarrow> bytes \<Rightarrow> (StreamFrameKind \<times> bytes) list \<Rightarrow> TcpSide \<Rightarrow> bool" where
  "turn_ok acc s w fs s' \<longleftrightarrow> w = concat (map typed_wire fs) \<and> (\<forall>f \<in> set fs. legal_frame f) \<and>
     prefix (controls fs) (queued_controls s @ acc) \<and>
     (tp_writing s' \<longrightarrow> tp_writing s \<and> controls fs @ queued_controls s' = queued_controls s @ acc) \<and>
     (\<not> tp_writing s \<longrightarrow> fs = []) \<and> (\<forall>f \<in> set (if tp_writing s' then fs else butlast fs). fst f \<noteq> FClose)"

lemma writer_turn_frames:
  assumes "side_ok s" "writer_turn now now_us tick ok s = (w, s')"
  shows "side_ok s' \<and> (\<exists>fs. turn_ok [] s w fs s')"
proof (cases "tp_writing s \<and> \<not> tp_closed s")
  case False
  then show ?thesis
    using assms by (intro conjI exI [of _ "[]"]) (auto simp: writer_turn_def writer_stops_def side_ok_def turn_ok_def split: if_splits)
next
  case run: True
  show ?thesis
  proof (cases "tp_control_out s")
    case (Cons m ms)
    have legal: "legal_frame (outbound_frame m)" using assms(1) Cons by (simp add: side_ok_def)
    have w: "(w, s') = (if ok then (typed_wire (outbound_frame m), if \<exists>code. m = OutClose code then writer_stops (s\<lparr>tp_control_out := ms\<rparr>)
        else s\<lparr>tp_control_out := ms\<rparr>) else ([], writer_stops (s\<lparr>tp_control_out := ms\<rparr>)))"
      using assms(2) run Cons write_out_legal [OF legal] by (simp add: writer_turn_def)
    have side: "side_ok s'" using w assms(1) Cons by (auto simp: side_ok_def writer_stops_def split: if_splits)
    have queue: "queued_controls s = controls [outbound_frame m] @ queued_controls (s\<lparr>tp_control_out := ms\<rparr>)"
      by (simp add: queued_controls_def Cons)
    have "turn_ok [] s w (if ok then [outbound_frame m] else []) s'"
      using w run legal unfolding turn_ok_def queue
      by (auto simp: writer_stops_def outbound_kind queued_controls_def split: if_splits)
    then show ?thesis using side by blast
  next
    case Nil
    have data: "legal_frame (FDatagram, d)" if "length d \<le> MAX_MEDIA_FRAME" for d using that by (simp add: legal_frame_def kind_max_len_def)
    have ping: "legal_frame (FPing, put_u64 x)" for x by (simp add: legal_frame_def kind_max_len_def MAX_SMALL_FRAME_def)
    have side: "side_ok s'" and out: "tp_control_out s' = []"
      using assms run Nil data ping
      by (auto simp: side_ok_def writer_turn_def write_out_legal writer_stops_def Let_def split: list.splits if_splits) fastforce+
    have "\<exists>fs. w = concat (map typed_wire fs) \<and> (\<forall>f \<in> set fs. legal_frame f \<and> fst f \<noteq> FControl \<and> fst f \<noteq> FClose)"
    proof (cases "tp_datagram_out s")
      case Nil
      then show ?thesis
        using assms(2) run \<open>tp_control_out s = []\<close> ping
        by (auto simp: writer_turn_def write_out_legal intro: exI [of _ "[]"] exI [of _ "[(FPing, _)]"] split: if_splits)
    next
      case (Cons qd ds)
      then have "legal_frame (FDatagram, snd qd)" using assms(1) data by (simp add: side_ok_def)
      moreover from this have "w = [] \<or> w = typed_wire (FDatagram, snd qd)"
        using assms(2) run \<open>tp_control_out s = []\<close> Cons
        by (auto simp: writer_turn_def write_out_legal Let_def split: prod.splits if_splits)
      ultimately show ?thesis by (auto intro: exI [of _ "[]"] exI [of _ "[(FDatagram, snd qd)]"])
    qed
    then obtain fs where fs: "w = concat (map typed_wire fs)" "\<forall>f \<in> set fs. legal_frame f \<and> fst f \<noteq> FControl \<and> fst f \<noteq> FClose" by blast
    then have none: "controls fs = []" by (auto simp: controls_def filter_empty_conv)
    have "\<forall>f \<in> set (butlast fs). fst f \<noteq> FClose" using fs(2) by (auto dest: in_set_butlastD)
    then have "turn_ok [] s w fs s'" using fs none run out Nil by (auto simp: turn_ok_def queued_controls_def)
    then show ?thesis using side by blast
  qed
qed

lemma tcp_op_frames:
  assumes "side_ok s" "tcp_op p s = (w, s')"
  shows "side_ok s' \<and> (\<exists>fs. turn_ok (accepted p s) s w fs s')"
proof -
  have quiet: "turn_ok acc s [] [] s2" if "tp_writing s2 \<longrightarrow> tp_writing s \<and> queued_controls s2 = queued_controls s @ acc" for acc s2
    using that by (simp add: turn_ok_def)
  show ?thesis
  proof (cases p)
    case (WriterTurn now now_us tick ok)
    then show ?thesis using writer_turn_frames [OF assms(1)] assms(2) by (simp add: tcp_op_def accepted_def)
  next
    case (ReaderTurn now_us c)
    obtain pongs where r: "tp_control_out s' = tp_control_out s @ map OutPong pongs" "\<forall>p \<in> set pongs. length p = 8"
      "tp_writing s' = tp_writing s" "tp_datagram_out s' = tp_datagram_out s" "w = []"
      using reader_turn_out [of now_us c s] assms(2) ReaderTurn by (auto simp: tcp_op_def)
    have "controls (map outbound_frame (map OutPong pongs)) = []" by (simp add: controls_def outbound_frame_def)
    then have "queued_controls s' = queued_controls s" by (simp add: queued_controls_def r(1))
    moreover have "side_ok s'"
      using assms(1) r by (auto simp: side_ok_def legal_frame_def outbound_frame_def kind_max_len_def MAX_SMALL_FRAME_def)
    ultimately show ?thesis using quiet [of s' "[]"] r ReaderTurn by (auto simp: accepted_def)
  next
    case (SendControl msg)
    have legal: "legal_frame (outbound_frame (OutControl msg))" if "\<not> MAX_CONTROL_FRAME < length msg"
      using that by (simp add: legal_frame_def outbound_frame_def kind_max_len_def)
    have one: "controls [outbound_frame (OutControl msg)] = [msg]" by (simp add: outbound_frame_def)
    have "side_ok s'" "w = []" "tp_writing s' \<longrightarrow> tp_writing s \<and> queued_controls s' = queued_controls s @ accepted p s"
      using SendControl assms legal one
      by (auto simp: tcp_op_def tcp_send_control_def accepted_def side_ok_def queued_controls_def split: if_splits)
    then show ?thesis using quiet [of s' "accepted p s"] by blast
  next
    case (CloseLink code)
    have legal: "legal_frame (outbound_frame (OutClose code))"
      by (simp add: legal_frame_def outbound_frame_def kind_max_len_def MAX_SMALL_FRAME_def)
    have "side_ok s'" "w = []" "tp_writing s' \<longrightarrow> tp_writing s \<and> queued_controls s' = queued_controls s @ accepted p s"
      using CloseLink assms legal
      by (auto simp: tcp_op_def tcp_close_def accepted_def side_ok_def queued_controls_def outbound_kind split: if_splits)
    then show ?thesis using quiet [of s' "accepted p s"] by blast
  qed (use assms quiet [of s' "[]"] in \<open>auto simp: tcp_op_def tcp_send_datagram_def tcp_read_datagram_def accepted_def side_ok_def
      queued_controls_def split: list.splits if_splits\<close>)
qed

lemma tcp_run_frames:
  assumes "side_ok s" "tcp_run ps s = (w, s')"
  shows "side_ok s' \<and> (\<exists>fs. turn_ok (all_accepted ps s) s w fs s')"
  using assms
proof (induction ps arbitrary: s w)
  case Nil
  then show ?case by (auto simp: turn_ok_def intro: exI [of _ "[]"])
next
  case (Cons p ps)
  obtain w1 s1 where one: "tcp_op p s = (w1, s1)" by (rule prod.exhaust)
  obtain w2 where two: "tcp_run ps s1 = (w2, s')" "w = w1 @ w2" using Cons.prems(2) one by (auto split: prod.splits)
  obtain fs1 where f1: "side_ok s1" "turn_ok (accepted p s) s w1 fs1 s1" using tcp_op_frames [OF Cons.prems(1) one] by blast
  obtain fs2 where f2: "side_ok s'" "turn_ok (all_accepted ps s1) s1 w2 fs2 s'" using Cons.IH [OF f1(1) two(1)] by blast
  let ?q = "queued_controls s @ accepted p s @ all_accepted ps s1"
  have acc: "all_accepted (p # ps) s = accepted p s @ all_accepted ps s1" by (simp add: one)
  show ?case
  proof (cases "tp_writing s1")
    case True
    then have whole: "controls fs1 @ queued_controls s1 = queued_controls s @ accepted p s" "tp_writing s"
      using f1(2) by (simp_all add: turn_ok_def)
    have "prefix (controls fs1 @ controls fs2) ?q"
      using f2(2) whole(1) by (metis append.assoc same_prefix_prefix turn_ok_def)
    moreover have "tp_writing s' \<longrightarrow> (controls fs1 @ controls fs2) @ queued_controls s' = ?q"
      using f2(2) whole(1) by (metis append.assoc turn_ok_def)
    moreover have "\<forall>f \<in> set (if tp_writing s' then fs1 @ fs2 else butlast (fs1 @ fs2)). fst f \<noteq> FClose"
      using f1(2) f2(2) True by (auto simp: turn_ok_def butlast_append dest: in_set_butlastD split: if_splits)
    ultimately have "turn_ok (all_accepted (p # ps) s) s w (fs1 @ fs2) s'"
      using f1(2) f2(2) two(2) whole(2) unfolding turn_ok_def acc by auto
    then show ?thesis using f2(1) by blast
  next
    case False
    then have "fs2 = []" "\<not> tp_writing s'" "w2 = []" using f2(2) by (auto simp: turn_ok_def)
    then have "turn_ok (all_accepted (p # ps) s) s w fs1 s'"
      using f1(2) False two(2) unfolding turn_ok_def acc by (auto intro: prefix_order.trans prefix_prefix)
    then show ?thesis using f2(1) by blast
  qed
qed

section \<open>What the reader makes of it\<close>

definition reader_open :: "TcpSide \<Rightarrow> bool" where
  "reader_open s \<longleftrightarrow> tp_reading s \<and> \<not> tp_closed s \<and> tp_held s \<and> tp_receiver s"

definition before_close :: "(StreamFrameKind \<times> bytes) list \<Rightarrow> (StreamFrameKind \<times> bytes) list" where
  "before_close fs = takeWhile (\<lambda>f. fst f \<noteq> FClose) fs"

lemma read_frames_controls:
  assumes "\<forall>f \<in> set fs. legal_frame f" "reader_open s" "read_frames now_us fs s = (go, s')"
  shows "tp_control_in s' = tp_control_in s @ controls (before_close fs) \<and> reader_open s' \<and> tp_decoder s' = tp_decoder s \<and>
    (go \<longleftrightarrow> (\<forall>f \<in> set fs. fst f \<noteq> FClose))"
  using assms
proof (induction fs arbitrary: s)
  case (Cons f fs)
  obtain g s1 where one: "read_frame now_us f s = (g, s1)" by (rule prod.exhaust)
  have step: "g = (fst f \<noteq> FClose)" "reader_open s1" "tp_decoder s1 = tp_decoder s"
    "tp_control_in s1 = tp_control_in s @ (if fst f = FControl then [snd f] else [])"
    using one Cons.prems(1, 2)
    by (auto simp: read_frame_def reader_open_def legal_frame_def split: StreamFrameKind.splits if_splits)
  show ?case
  proof (cases "fst f = FClose")
    case True
    then show ?thesis using Cons.prems(3) one step by (auto simp: before_close_def)
  next
    case False
    then have "read_frames now_us fs s1 = (go, s')" using Cons.prems(3) one step(1) by simp
    from Cons.IH [OF _ step(2) this] Cons.prems(1) show ?thesis using False step by (auto simp: before_close_def)
  qed
qed (simp add: before_close_def)

lemma reader_stopped: "\<not> tp_reading s \<Longrightarrow> tp_control_in (read_run rs s) = tp_control_in s"
  by (induction rs s rule: read_run.induct) (simp_all add: reader_turn_def)

lemma read_run_controls:
  assumes "feed stream_decoder_extend stream_decoder_drain (tp_decoder s) (map snd rs) = (fs, None, d)" "\<forall>r \<in> set rs. snd r \<noteq> []"
    and "\<forall>f \<in> set fs. legal_frame f" "reader_open s"
  shows "tp_control_in (read_run rs s) = tp_control_in s @ controls (before_close fs)"
  using assms
proof (induction rs arbitrary: s fs)
  case Nil
  then show ?case by (simp add: before_close_def)
next
  case (Cons r rs)
  obtain now_us c where r: "r = (now_us, c)" by (rule prod.exhaust)
  obtain fs1 e d1 where dr: "stream_decoder_drain (stream_decoder_extend (tp_decoder s) c) = (fs1, e, d1)" by (metis prod_cases3)
  have e: "e = None" using Cons.prems(1) dr r by (auto split: option.splits)
  obtain fs2 where rest: "feed stream_decoder_extend stream_decoder_drain d1 (map snd rs) = (fs2, None, d)" "fs = fs1 @ fs2"
    using Cons.prems(1) dr r e by (auto split: prod.splits)
  obtain go s1 where rf: "read_frames now_us fs1 (s\<lparr>tp_decoder := d1\<rparr>) = (go, s1)" by (rule prod.exhaust)
  have "reader_open (s\<lparr>tp_decoder := d1\<rparr>)" using Cons.prems(4) by (simp add: reader_open_def)
  from read_frames_controls [OF _ this rf] Cons.prems(3) rest(2)
  have one: "tp_control_in s1 = tp_control_in s @ controls (before_close fs1)" "reader_open s1" "tp_decoder s1 = d1"
    "go \<longleftrightarrow> (\<forall>f \<in> set fs1. fst f \<noteq> FClose)" by auto
  obtain b bs where c: "c = b # bs" using Cons.prems(2) r by (cases c) auto
  have turn: "reader_turn now_us (Some c) s = (if go then s1 else reader_stops s1)"
    using Cons.prems(4) dr rf e c by (simp add: reader_turn_def reader_open_def)
  show ?case
  proof (cases go)
    case True
    have "tp_control_in (read_run rs s1) = tp_control_in s1 @ controls (before_close fs2)"
      by (rule Cons.IH) (use rest one(2, 3) Cons.prems(2, 3) in auto)
    moreover have "before_close (fs1 @ fs2) = fs1 @ before_close fs2" "before_close fs1 = fs1"
      using one(4) True by (simp_all add: before_close_def)
    ultimately show ?thesis using True turn r one(1) rest(2) by simp
  next
    case False
    have "before_close (fs1 @ fs2) = before_close fs1" using one(4) False by (auto simp: before_close_def takeWhile_append1)
    then show ?thesis using False turn r one(1) rest(2) reader_stopped [of "reader_stops s1" rs] by (simp add: reader_stops_def)
  qed
qed

text \<open>C28: Over a TCP connection control messages arrive as they were sent: whatever else happens on the sending side
  - media, keep-alives, pings of the peer, closing, failing writes, hostile input - and however the stream is cut
  into reads, what the receiving side gets is a prefix of the messages whose sending was accepted, in order, whole
  and unchanged; and while the writer is still running it is all of them but those waiting in its queue.\<close>

theorem tcp_control_in_order:
  assumes "tcp_run ps tcp_start = (w, s)" "concat (map snd reads) = w" "\<forall>r \<in> set reads. snd r \<noteq> []"
  shows "prefix (tp_control_in (read_run reads tcp_start)) (all_accepted ps tcp_start) \<and>
     (tp_writing s \<longrightarrow> tp_control_in (read_run reads tcp_start) @ queued_controls s = all_accepted ps tcp_start)"
proof -
  obtain fs where fs: "turn_ok (all_accepted ps tcp_start) tcp_start w fs s"
    using tcp_run_frames [OF tcp_start_ok(1) assms(1)] by blast
  then have legal: "\<forall>f \<in> set fs. legal_frame f" "concat (map snd reads) = concat (map typed_wire fs)"
    using assms(2) by (simp_all add: turn_ok_def)
  have "feed stream_decoder_extend stream_decoder_drain stream_decoder_new (map snd reads) = (fs, None, stream_decoder_new)"
    by (rule typed_frames.reassembly) (use legal in \<open>auto simp: legal_frame_def stream_decoder_new_def\<close>)
  then have "tp_control_in (read_run reads tcp_start) = controls (before_close fs)"
    using read_run_controls [of tcp_start reads fs] legal(1) assms(3) by (simp add: tcp_start_def reader_open_def)
  moreover have "controls (before_close fs) = controls fs"
  proof (cases fs rule: rev_cases)
    case Nil
    then show ?thesis by (simp add: before_close_def)
  next
    case (snoc gs f)
    have "\<forall>g \<in> set gs. fst g \<noteq> FClose" using fs snoc by (auto simp: turn_ok_def split: if_splits)
    then show ?thesis by (simp add: snoc before_close_def)
  qed
  ultimately show ?thesis using fs by (simp add: turn_ok_def)
qed

section \<open>An example\<close>

text \<open>Media that waited too long is dropped, the control message overtakes it.\<close>

definition example_ops :: "TcpOp list" where
  "example_ops = [SendDatagram 0 [2], SendControl [1], WriterTurn (from_millis 300) 0 False True, WriterTurn (from_millis 300) 0 False True,
     SendControl [3]]"

lemma example_run:
  "fst (tcp_run example_ops tcp_start) = [1, 0, 0, 0, 1, 1]" "tp_writing (snd (tcp_run example_ops tcp_start))"
  "queued_controls (snd (tcp_run example_ops tcp_start)) = [[3]]" "all_accepted example_ops tcp_start = [[1], [3]]"
  by (simp_all add: example_ops_def tcp_op_def tcp_start_def tcp_send_datagram_def tcp_send_control_def writer_turn_def write_out_def
      outbound_frame_def encode_stream_frame_def kind_max_len_def kind_as_u8_def frame_consts put_u32_def be_encode_numeral
      CONTROL_QUEUE_def DATAGRAM_SEND_QUEUE_def STALE_AFTER_def from_millis_def accepted_def queued_controls_def Let_def)

theorem tcp_control_in_order_witness:
  "tp_control_in (read_run [(0, [1, 0]), (5, [0, 0, 1, 1])] tcp_start) = [[1]]"
proof -
  have run: "tcp_run example_ops tcp_start = ([1, 0, 0, 0, 1, 1], snd (tcp_run example_ops tcp_start))"
    using example_run(1) by (metis prod.collapse)
  from tcp_control_in_order [OF run, of "[(0, [1, 0]), (5, [0, 0, 1, 1])]"] show ?thesis
    by (simp add: example_run)
qed

end
