(* ===== verification/Live_Adaptation.thy ===== *)
theory Live_Adaptation
  imports Settings
begin

text \<open>
  What the actor does with measurements once per second (\<open>actor.rs\<close>): the report a receiver makes, the bitrate and
  the redundancy a sender adapts to it, the health of a session, the estimate of what streaming costs and the
  warning about microphone feedback. Loss is an exact fraction: a
  quotient of two 32 bit counters is so far from the thresholds it is compared with, unless it equals them, that the
  code's double precision division decides the same. The counters shared with audio threads come as arguments.
\<close>

section \<open>The receiver's report\<close>

record ReceiverCounters =
  rv_packets_received :: nat
  rv_packets_missing :: nat
  rv_bytes_received :: nat
  rv_jitter_us :: u32
  rv_buffer_ms :: u32
  rv_underruns :: nat
  rv_drift_ppm :: int
  rv_latency_ms :: u32

record LiveRoute =
  lv_peer :: DeviceId
  lv_wire_id :: u8
  lv_kind :: RouteKind
  lv_status :: RouteStatus
  lv_profile :: "StreamProfile option"
  lv_last_received :: nat
  lv_last_missing :: nat
  lv_last_bytes :: nat
  lv_bitrate_kbps :: u32
  lv_loss_pct :: rat
  lv_stable_secs :: nat
  lv_clean_secs :: nat
  lv_remote_stats :: "StatsReport option"

definition loss_of :: "nat \<Rightarrow> nat \<Rightarrow> rat" where
  "loss_of lost seen = (if 0 < seen then of_nat lost * 100 / of_nat seen else 0)"

definition receiver_report :: "ReceiverCounters \<Rightarrow> LiveRoute \<Rightarrow> StatsReport \<times> LiveRoute" where
  "receiver_report c r =
     (let dr = rv_packets_received c - lv_last_received r; dm = rv_packets_missing c - lv_last_missing r
      in (\<lparr>st_route = ucast (lv_wire_id r), st_packets_received = word_of_nat dr, st_packets_lost = word_of_nat dm,
           st_jitter_us = rv_jitter_us c, st_buffer_ms = rv_buffer_ms c, st_underruns = word_of_nat (rv_underruns c),
           st_drift_ppm = rv_drift_ppm c, st_output_latency_ms = rv_latency_ms c\<rparr>,
          r\<lparr>lv_last_received := rv_packets_received c, lv_last_missing := rv_packets_missing c, lv_loss_pct := loss_of dm (dr + dm),
            lv_bitrate_kbps := word_of_nat ((rv_bytes_received c - lv_last_bytes r) * 8 div 1000),
            lv_last_bytes := rv_bytes_received c\<rparr>))"

section \<open>The sender's answer\<close>

record SenderLive =
  sl_bitrate :: nat
  sl_expected_loss_pct :: nat
  sl_redundancy :: bool

definition MIN_ADAPTIVE_BITRATE :: nat where "MIN_ADAPTIVE_BITRATE = 32000"
definition ADAPTIVE_CEILING :: nat where "ADAPTIVE_CEILING = 128000"

text \<open>Down by a quarter above two percent of loss, up by a quarter after ten seconds below half a percent.\<close>

definition adapt_bitrate :: "rat \<Rightarrow> StreamProfile \<Rightarrow> SenderLive \<times> nat \<Rightarrow> SenderLive \<times> nat" where
  "adapt_bitrate loss p = (\<lambda>(c, stable).
     if sp_adaptive_bitrate p \<and> sp_codec p = codec_id Opus then
       if 2 < loss
       then (c\<lparr>sl_bitrate := max (sl_bitrate c * 3 div 4) MIN_ADAPTIVE_BITRATE, sl_expected_loss_pct := nat (round loss)\<rparr>, 0)
       else if loss < 1 / 2
       then (if 10 \<le> stable + 1
             then (c\<lparr>sl_bitrate := min (sl_bitrate c * 5 div 4) (max (unat (sp_bitrate p)) ADAPTIVE_CEILING), sl_expected_loss_pct := 0\<rparr>, 0)
             else (c, stable + 1))
       else (c, stable)
     else (c, stable))"

text \<open>On above one percent of loss, off after ten clean seconds.\<close>

definition adapt_redundancy :: "bool \<Rightarrow> rat \<Rightarrow> StreamProfile \<Rightarrow> SenderLive \<times> nat \<Rightarrow> SenderLive \<times> nat" where
  "adapt_redundancy auto loss p = (\<lambda>(c, clean).
     if auto then
       if 1 < loss then (c\<lparr>sl_redundancy := True\<rparr>, 0)
       else if loss = 0
       then (if 10 \<le> clean + 1 \<and> \<not> sp_redundancy p then c\<lparr>sl_redundancy := False\<rparr> else c, clean + 1)
       else (c, clean)
     else (c, clean))"

definition reported_loss :: "StatsReport \<Rightarrow> rat" where
  "reported_loss s = loss_of (unat (st_packets_lost s)) (min (unat (st_packets_received s) + unat (st_packets_lost s)) (2 ^ 32 - 1))"

definition apply_stats :: "bool \<Rightarrow> StatsReport \<Rightarrow> LiveRoute \<times> SenderLive option \<Rightarrow> LiveRoute \<times> SenderLive option" where
  "apply_stats auto stats = (\<lambda>(r, controls).
     (let loss = reported_loss stats; r1 = r\<lparr>lv_loss_pct := loss\<rparr>
      in case (controls, lv_profile r) of
           (Some c, Some p) \<Rightarrow>
             (let (c1, stable) = adapt_bitrate loss p (c, lv_stable_secs r);
                  (c2, clean) = adapt_redundancy auto loss p (c1, lv_clean_secs r)
              in (r1\<lparr>lv_stable_secs := stable, lv_clean_secs := clean, lv_remote_stats := Some stats\<rparr>, Some c2))
         | _ \<Rightarrow> (r1\<lparr>lv_remote_stats := Some stats\<rparr>, controls)))"

text \<open>Only the first route of the peer with the number of the report.\<close>

fun on_stats :: "bool \<Rightarrow> DeviceId \<Rightarrow> StatsReport \<Rightarrow> (LiveRoute \<times> SenderLive option) list \<Rightarrow> (LiveRoute \<times> SenderLive option) list" where
  "on_stats auto peer stats [] = []"
| "on_stats auto peer stats (rc # rcs) =
     (if lv_peer (fst rc) = peer \<and> lv_wire_id (fst rc) = ucast (st_route stats) then apply_stats auto stats rc # rcs
      else rc # on_stats auto peer stats rcs)"

section \<open>The health of a session\<close>

record PathSeen =
  ps_sent :: nat
  ps_lost :: nat

text \<open>The loss of the path, if it carried enough to tell, and the worst of the session's active routes.\<close>

definition link_measure :: "nat \<Rightarrow> nat \<Rightarrow> PathSeen \<Rightarrow> (LiveRoute \<times> rat option) list \<Rightarrow> rat \<times> rat" where
  "link_measure sent_packets lost_packets seen routes =
     (let sent = sent_packets - ps_sent seen; lost = lost_packets - ps_lost seen;
          active = filter (\<lambda>(r, _). lv_status r = Active) routes
      in (fold (\<lambda>(r, _) m. max m (lv_loss_pct r)) active (if 20 \<le> sent then of_nat lost * 100 / of_nat sent else 0),
          fold (\<lambda>(r, local_jitter) m. case local_jitter of Some j \<Rightarrow> max m j
                 | None \<Rightarrow> (case lv_remote_stats r of Some s \<Rightarrow> max m (of_nat (unat (st_jitter_us s)) / 1000) | None \<Rightarrow> m))
            active 0))"

definition update_link :: "nat \<Rightarrow> nat \<Rightarrow> (LiveRoute \<times> rat option) list \<Rightarrow> PathSeen \<times> LinkHealth \<Rightarrow> bool \<times> PathSeen \<times> LinkHealth" where
  "update_link sent_packets lost_packets routes = (\<lambda>(seen, health).
     (let (loss, jitter) = link_measure sent_packets lost_packets seen routes;
          (changed, health') = health_update (FNum loss, FNum jitter) health
      in (changed, \<lparr>ps_sent = sent_packets, ps_lost = lost_packets\<rparr>, health')))"

section \<open>What streaming costs\<close>

definition PER_RECEIVER_CPU_PCT :: nat where "PER_RECEIVER_CPU_PCT = 1"
definition SAFE_TOTAL_KBPS :: nat where "SAFE_TOTAL_KBPS = 8000"

record StreamingLoad =
  sg_receivers :: nat
  sg_max_receivers :: nat
  sg_safe_receivers :: nat
  sg_kbps :: nat
  sg_cpu_pct :: nat
  sg_per_receiver_kbps :: nat

record LoadSum =
  ls_kbps :: nat
  ls_cpu :: nat
  ls_receivers :: nat
  ls_each :: "nat option"

definition add_group :: "LiveRoute list \<Rightarrow> LoadSum \<Rightarrow> LoadSum" where
  "add_group members s =
     (case members of
        [] \<Rightarrow> s
      | g # _ \<Rightarrow>
          (case lv_profile g of
             None \<Rightarrow> s
           | Some p \<Rightarrow>
               (let each = unat (profile_kbps p); n = length members
                in s\<lparr>ls_kbps := ls_kbps s + each * n, ls_cpu := ls_cpu s + unat (encoder_cpu_pct p) + PER_RECEIVER_CPU_PCT * n,
                     ls_receivers := (if ls_receivers s \<le> n then n else ls_receivers s),
                     ls_each := (if ls_receivers s \<le> n then Some each else ls_each s)\<rparr>)))"

definition sending_routes :: "LiveRoute list \<Rightarrow> LiveRoute list" where
  "sending_routes routes = filter (\<lambda>r. lv_status r \<noteq> Stopped \<and> lv_status r \<noteq> Paused \<and> local_is_source (lv_kind r)) routes"

definition streaming_load :: "StreamProfile \<Rightarrow> nat \<Rightarrow> LiveRoute list \<Rightarrow> StreamingLoad" where
  "streaming_load preview max_receivers routes =
     (let sending = sending_routes routes;
          s = fold (\<lambda>source. add_group (filter (\<lambda>r. fst (endpoints (lv_kind r)) = source) sending))
                [''system'', ''apps'', ''mic'', ''mixed''] \<lparr>ls_kbps = 0, ls_cpu = 0, ls_receivers = 0, ls_each = None\<rparr>;
          each = (case ls_each s of Some e \<Rightarrow> e | None \<Rightarrow> unat (profile_kbps preview))
      in \<lparr>sg_receivers = ls_receivers s, sg_max_receivers = max_receivers,
          sg_safe_receivers = clamp (SAFE_TOTAL_KBPS div max each 1) 1 max_receivers, sg_kbps = ls_kbps s,
          sg_cpu_pct = ls_cpu s, sg_per_receiver_kbps = each\<rparr>)"

section \<open>The feedback warning\<close>

definition FEEDBACK_NOTICE_INTERVAL :: duration where "FEEDBACK_NOTICE_INTERVAL = from_secs 60"
definition FEEDBACK_BANNER :: duration where "FEEDBACK_BANNER = from_secs 20"

text \<open>\<open>heard\<close>: the monitor, if there is one, reports a loop since it was last asked. The flag says to warn the user.\<close>

definition check_mic_feedback :: "nat \<Rightarrow> bool option \<Rightarrow> nat option \<Rightarrow> bool \<times> nat option" where
  "check_mic_feedback now monitor feedback_at =
     (let heard = (monitor = Some True);
          fresh = (case feedback_at of None \<Rightarrow> True | Some t \<Rightarrow> FEEDBACK_NOTICE_INTERVAL < now - t);
          at1 = (if heard then Some now else feedback_at)
      in (heard \<and> fresh,
          if (case at1 of Some t \<Rightarrow> FEEDBACK_BANNER < now - t | None \<Rightarrow> False) \<or> monitor = None then None else at1))"

section \<open>What a run of reports does\<close>

text \<open>The reports a sender has had on one route, in order.\<close>

definition after_reports :: "bool \<Rightarrow> StatsReport list \<Rightarrow> LiveRoute \<times> SenderLive option \<Rightarrow> LiveRoute \<times> SenderLive option" where
  "after_reports auto reports = fold (apply_stats auto) reports"

lemma apply_stats_step:
  assumes "lv_profile r = Some p"
  obtains r' c' where "apply_stats auto s (r, Some c) = (r', Some c')" "lv_profile r' = Some p"
    "adapt_bitrate (reported_loss s) p (c, lv_stable_secs r) = (c'\<lparr>sl_redundancy := sl_redundancy c\<rparr>, lv_stable_secs r')"
    "adapt_redundancy auto (reported_loss s) p (c\<lparr>sl_bitrate := sl_bitrate c', sl_expected_loss_pct := sl_expected_loss_pct c'\<rparr>,
       lv_clean_secs r) = (c', lv_clean_secs r')"
proof -
  obtain c1 st where bit: "adapt_bitrate (reported_loss s) p (c, lv_stable_secs r) = (c1, st)"
    by fastforce
  obtain c2 cl where red: "adapt_redundancy auto (reported_loss s) p (c1, lv_clean_secs r) = (c2, cl)"
    by fastforce
  have keeps: "sl_redundancy c1 = sl_redundancy c"
    using bit by (auto simp: adapt_bitrate_def split: if_splits)
  have rest: "sl_bitrate c2 = sl_bitrate c1" "sl_expected_loss_pct c2 = sl_expected_loss_pct c1"
    using red by (auto simp: adapt_redundancy_def split: if_splits)
  have "c\<lparr>sl_bitrate := sl_bitrate c2, sl_expected_loss_pct := sl_expected_loss_pct c2\<rparr> = c1"
    by (cases c, cases c1) (use keeps rest in simp)
  moreover have "c2\<lparr>sl_redundancy := sl_redundancy c\<rparr> = c1"
    by (cases c2, cases c1) (use keeps rest in simp)
  ultimately show thesis
    using that [of "r\<lparr>lv_loss_pct := reported_loss s, lv_stable_secs := st, lv_clean_secs := cl, lv_remote_stats := Some s\<rparr>" c2]
      bit red assms
    by (simp add: apply_stats_def Let_def)
qed

text \<open>What one report does to the bitrate.\<close>

lemma adapt_bitrate_within:
  assumes "adapt_bitrate loss p (c, st) = (c', st')"
  shows "min (sl_bitrate c) 32000 \<le> sl_bitrate c'"
    and "sl_bitrate c' \<le> max (sl_bitrate c) (max (unat (sp_bitrate p)) 128000)"
  using assms
  by (auto simp: adapt_bitrate_def MIN_ADAPTIVE_BITRATE_def ADAPTIVE_CEILING_def min_def max_def split: if_splits)

lemma adapt_bitrate_cut:
  assumes "adapt_bitrate loss p (c, st) = (c', st')" "2 < loss" "sp_adaptive_bitrate p" "sp_codec p = codec_id Opus"
  shows "sl_bitrate c' = max (sl_bitrate c * 3 div 4) 32000" "st' = 0"
  using assms by (auto simp: adapt_bitrate_def MIN_ADAPTIVE_BITRATE_def)

lemma after_reports_within:
  assumes "lv_profile r = Some p"
  shows "\<exists>r' c'. after_reports auto reports (r, Some c) = (r', Some c') \<and> lv_profile r' = Some p
    \<and> min (sl_bitrate c) 32000 \<le> sl_bitrate c'
    \<and> sl_bitrate c' \<le> max (sl_bitrate c) (max (unat (sp_bitrate p)) 128000)"
  using assms
proof (induction reports arbitrary: r c)
  case (Cons s reports)
  obtain r1 c1 where one: "apply_stats auto s (r, Some c) = (r1, Some c1)" "lv_profile r1 = Some p"
      and bit: "adapt_bitrate (reported_loss s) p (c, lv_stable_secs r) = (c1\<lparr>sl_redundancy := sl_redundancy c\<rparr>, lv_stable_secs r1)"
    using apply_stats_step [OF Cons.prems] by metis
  obtain r' c' where more: "after_reports auto reports (r1, Some c1) = (r', Some c')" "lv_profile r' = Some p"
      "min (sl_bitrate c1) 32000 \<le> sl_bitrate c'" "sl_bitrate c' \<le> max (sl_bitrate c1) (max (unat (sp_bitrate p)) 128000)"
    using Cons.IH [OF one(2)] by blast
  have "after_reports auto (s # reports) (r, Some c) = (r', Some c')"
    using more(1) one(1) by (simp add: after_reports_def)
  moreover have "min (sl_bitrate c) 32000 \<le> sl_bitrate c'"
    using adapt_bitrate_within(1) [OF bit] more(3) by simp
  moreover have "sl_bitrate c' \<le> max (sl_bitrate c) (max (unat (sp_bitrate p)) 128000)"
    using adapt_bitrate_within(2) [OF bit] more(4) by simp
  ultimately show ?case
    using more(2) by blast
qed (simp add: after_reports_def)

text \<open>Every lossy report takes a quarter; ten take any bitrate the profiles allow to the floor.\<close>

primrec cut_bitrate :: "nat \<Rightarrow> nat \<Rightarrow> nat" where
  "cut_bitrate 0 b = b"
| "cut_bitrate (Suc n) b = cut_bitrate n (max (b * 3 div 4) 32000)"

lemma cut_bitrate_mono: "a \<le> b \<Longrightarrow> cut_bitrate n a \<le> cut_bitrate n b"
proof (induction n arbitrary: a b)
  case (Suc n)
  have "max (a * 3 div 4) 32000 \<le> max (b * 3 div 4) 32000"
    using Suc.prems by (simp add: div_le_mono max.coboundedI1)
  then show ?case
    using Suc.IH by simp
qed simp

lemma cut_bitrate_floor: "0 < n \<Longrightarrow> 32000 \<le> cut_bitrate n b"
proof (induction n arbitrary: b)
  case (Suc n)
  then show ?case
    by (cases n) simp_all
qed simp

lemma cut_bitrate_stays: "cut_bitrate n 32000 = 32000"
  by (induction n) simp_all

lemma cut_bitrate_add: "cut_bitrate (m + n) b = cut_bitrate n (cut_bitrate m b)"
  by (induction m arbitrary: b) simp_all

lemma cut_bitrate_ten: "cut_bitrate 10 510000 = 32000"
proof -
  have ten: "10 = Suc (Suc (Suc (Suc (Suc (Suc (Suc (Suc (Suc (Suc 0)))))))))"
    by simp
  show ?thesis
    by (simp only: ten cut_bitrate.simps) simp
qed

lemma cut_bitrate_reaches:
  assumes "10 \<le> n" "b \<le> 510000"
  shows "cut_bitrate n b = 32000"
proof -
  have "cut_bitrate n b = cut_bitrate (n - 10) (cut_bitrate 10 b)"
    using cut_bitrate_add [of 10 "n - 10" b] assms(1) by simp
  moreover have "cut_bitrate 10 b = 32000"
    using cut_bitrate_mono [OF assms(2), of 10] cut_bitrate_ten cut_bitrate_floor [of 10 b] by simp
  ultimately show ?thesis
    by (simp add: cut_bitrate_stays)
qed

lemma after_reports_cut:
  assumes "lv_profile r = Some p" "sp_adaptive_bitrate p" "sp_codec p = codec_id Opus" "\<forall>s \<in> set reports. 2 < reported_loss s"
  shows "\<exists>r' c'. after_reports auto reports (r, Some c) = (r', Some c') \<and> sl_bitrate c' = cut_bitrate (length reports) (sl_bitrate c)"
  using assms
proof (induction reports arbitrary: r c)
  case (Cons s reports)
  obtain r1 c1 where one: "apply_stats auto s (r, Some c) = (r1, Some c1)" "lv_profile r1 = Some p"
      and bit: "adapt_bitrate (reported_loss s) p (c, lv_stable_secs r) = (c1\<lparr>sl_redundancy := sl_redundancy c\<rparr>, lv_stable_secs r1)"
    using apply_stats_step [OF Cons.prems(1)] by metis
  have "sl_bitrate c1 = max (sl_bitrate c * 3 div 4) 32000"
    using adapt_bitrate_cut(1) [OF bit] Cons.prems by simp
  moreover obtain r' c' where "after_reports auto reports (r1, Some c1) = (r', Some c')" "sl_bitrate c' = cut_bitrate (length reports) (sl_bitrate c1)"
    using Cons.IH [OF one(2) Cons.prems(2,3), of c1] Cons.prems(4) by (meson list.set_intros(2))
  ultimately show ?case
    using one(1) by (simp add: after_reports_def)
qed (simp add: after_reports_def)

section \<open>Redundancy over a run of reports\<close>

definition losses_of :: "StatsReport list \<Rightarrow> rat list" where
  "losses_of = map reported_loss"

text \<open>A report above one percent has come, and fewer than ten clean reports since the last such.\<close>

definition lossy_lately :: "rat list \<Rightarrow> bool" where
  "lossy_lately losses =
     ((\<exists>l \<in> set losses. 1 < l) \<and> length (filter (\<lambda>l. l = 0) (takeWhile (\<lambda>l. \<not> 1 < l) (rev losses))) < 10)"

definition clean_since :: "rat list \<Rightarrow> nat" where
  "clean_since losses = length (filter (\<lambda>l. l = 0) (takeWhile (\<lambda>l. \<not> 1 < l) (rev losses)))"

lemma clean_since_snoc:
  "clean_since (losses @ [l]) = (if 1 < l then 0 else if l = 0 then clean_since losses + 1 else clean_since losses)"
  by (simp add: clean_since_def)

lemma lossy_lately_snoc:
  "lossy_lately (losses @ [l]) = (1 < l \<or> lossy_lately losses \<and> (l = 0 \<longrightarrow> clean_since losses + 1 < 10))"
  by (auto simp: lossy_lately_def clean_since_def)

lemma adapt_redundancy_flag:
  assumes "adapt_redundancy True loss p (c, clean) = (c', clean')" "\<not> sp_redundancy p"
  shows "clean' = (if 1 < loss then 0 else if loss = 0 then clean + 1 else clean)"
    and "sl_redundancy c' = (1 < loss \<or> sl_redundancy c \<and> (loss = 0 \<longrightarrow> clean + 1 < 10))"
  using assms by (auto simp: adapt_redundancy_def split: if_splits)

lemma after_reports_redundancy:
  assumes "lv_profile r = Some p" "\<not> sp_redundancy p" "\<not> sl_redundancy c" "lv_clean_secs r = 0"
  shows "\<exists>r' c'. after_reports True reports (r, Some c) = (r', Some c') \<and> lv_profile r' = Some p
    \<and> lv_clean_secs r' = clean_since (losses_of reports) \<and> sl_redundancy c' = lossy_lately (losses_of reports)"
proof (induction reports rule: rev_induct)
  case Nil
  then show ?case
    using assms by (simp add: after_reports_def losses_of_def clean_since_def lossy_lately_def)
next
  case (snoc s reports)
  then obtain r1 c1 where sofar: "after_reports True reports (r, Some c) = (r1, Some c1)" "lv_profile r1 = Some p"
      "lv_clean_secs r1 = clean_since (losses_of reports)" "sl_redundancy c1 = lossy_lately (losses_of reports)"
    by blast
  obtain r' c' where step: "apply_stats True s (r1, Some c1) = (r', Some c')" "lv_profile r' = Some p"
      and red: "adapt_redundancy True (reported_loss s) p
        (c1\<lparr>sl_bitrate := sl_bitrate c', sl_expected_loss_pct := sl_expected_loss_pct c'\<rparr>, lv_clean_secs r1) = (c', lv_clean_secs r')"
    using apply_stats_step [OF sofar(2)] by metis
  have run: "after_reports True (reports @ [s]) (r, Some c) = (r', Some c')"
    using sofar(1) step(1) by (simp add: after_reports_def)
  have losses: "losses_of (reports @ [s]) = losses_of reports @ [reported_loss s]"
    by (simp add: losses_of_def)
  have "lv_clean_secs r' = clean_since (losses_of (reports @ [s]))"
    using adapt_redundancy_flag(1) [OF red assms(2)] sofar(3) by (simp add: losses clean_since_snoc)
  moreover have "sl_redundancy c' = lossy_lately (losses_of (reports @ [s]))"
    using adapt_redundancy_flag(2) [OF red assms(2)] sofar(3,4) by (simp add: losses lossy_lately_snoc)
  ultimately show ?case
    using run step(2) by blast
qed

section \<open>The two ends of a route\<close>

lemma word_of_nat_small: "n < 2 ^ 32 \<Longrightarrow> unat (word_of_nat n :: u32) = n"
  by (simp add: unat_of_nat take_bit_nat_eq_self)

lemma ends_agree_on_loss:
  assumes "receiver_report c r = (s, r')"
    and "(rv_packets_received c - lv_last_received r) + (rv_packets_missing c - lv_last_missing r) < 2 ^ 32"
  shows "reported_loss s = lv_loss_pct r'"
proof -
  let ?dr = "rv_packets_received c - lv_last_received r" and ?dm = "rv_packets_missing c - lv_last_missing r"
  have "unat (st_packets_received s) = ?dr" "unat (st_packets_lost s) = ?dm"
    using assms by (auto simp: receiver_report_def Let_def simp del: of_nat_diff intro!: word_of_nat_small)
  moreover have "lv_loss_pct r' = loss_of ?dm (?dr + ?dm)"
    using assms(1) by (auto simp: receiver_report_def Let_def)
  ultimately show ?thesis
    using assms(2) by (simp add: reported_loss_def)
qed

section \<open>Costs and warnings\<close>

lemma safe_receivers_range:
  assumes "1 \<le> m"
  shows "sg_safe_receivers (streaming_load preview m routes) \<in> {1..m}"
  using assms by (auto simp: streaming_load_def Let_def clamp_def)

lemma safe_receivers_fit:
  assumes "sg_safe_receivers (streaming_load preview m routes) \<noteq> 1"
  shows "sg_safe_receivers (streaming_load preview m routes) * sg_per_receiver_kbps (streaming_load preview m routes) \<le> 8000"
proof -
  let ?l = "streaming_load preview m routes"
  let ?e = "sg_per_receiver_kbps ?l"
  have "sg_safe_receivers ?l \<le> 8000 div max ?e 1"
    using assms by (auto simp: streaming_load_def Let_def clamp_def SAFE_TOTAL_KBPS_def split: if_splits)
  then have "sg_safe_receivers ?l * ?e \<le> (8000 div max ?e 1) * max ?e 1"
    by (intro mult_le_mono) simp_all
  also have "\<dots> \<le> 8000"
    by (rule div_times_less_eq_dividend)
  finally show ?thesis .
qed

text \<open>
  The interval between notices is not kept: the banner's end forgets the last notice, so a loop heard again 25 seconds
  later is reported again.
\<close>

lemma feedback_notice_again:
  "(let (first, at1) = check_mic_feedback (from_secs 100) (Some True) None;
        (quiet, at2) = check_mic_feedback (from_secs 121) (Some False) at1;
        (again, at3) = check_mic_feedback (from_secs 125) (Some True) at2
    in first \<and> \<not> quiet \<and> again)"
  by (simp add: check_mic_feedback_def from_secs_def FEEDBACK_NOTICE_INTERVAL_def FEEDBACK_BANNER_def)

section \<open>Example values\<close>

definition an_auto_profile :: StreamProfile where
  "an_auto_profile = \<lparr>sp_codec = codec_id Opus, sp_bitrate = 128000, sp_channels = 2, sp_frame_us = 10000, sp_jitter_min_ms = 30,
     sp_jitter_max_ms = 120, sp_redundancy = False, sp_adaptive_bitrate = True, sp_denoise = False\<rparr>"

definition a_live_route :: LiveRoute where
  "a_live_route = \<lparr>lv_peer = [7], lv_wire_id = 1, lv_kind = SendSystemAudio, lv_status = Active, lv_profile = Some an_auto_profile,
     lv_last_received = 0, lv_last_missing = 0, lv_last_bytes = 0, lv_bitrate_kbps = 0, lv_loss_pct = 0, lv_stable_secs = 0,
     lv_clean_secs = 0, lv_remote_stats = None\<rparr>"

definition a_lossy_report :: StatsReport where
  "a_lossy_report = \<lparr>st_route = 1, st_packets_received = 90, st_packets_lost = 10, st_jitter_us = 0, st_buffer_ms = 0,
     st_underruns = 0, st_drift_ppm = 0, st_output_latency_ms = 0\<rparr>"

lemma a_lossy_report_loss: "reported_loss a_lossy_report = 10"
  by (simp add: a_lossy_report_def reported_loss_def loss_of_def)

section \<open>Guarantees\<close>

text \<open>C12: Whatever a receiver reports, the bitrate of a route stays between the smaller of 32 kbit/s and what it started
  from and the largest of that, the profile's bitrate and 128 kbit/s; and ten or more reports in a row above two percent
  of loss leave an adaptive Opus stream that started at 510 kbit/s or less at exactly 32 kbit/s.
\<close>

theorem live_bitrate_settles:
  assumes "lv_profile r = Some p"
  shows "\<exists>r' c'. after_reports auto reports (r, Some c) = (r', Some c')
    \<and> min (sl_bitrate c) 32000 \<le> sl_bitrate c'
    \<and> sl_bitrate c' \<le> max (sl_bitrate c) (max (unat (sp_bitrate p)) 128000)
    \<and> (sp_adaptive_bitrate p \<and> sp_codec p = codec_id Opus \<and> sl_bitrate c \<le> 510000 \<and> 10 \<le> length reports
         \<and> (\<forall>s \<in> set reports. 2 < reported_loss s) \<longrightarrow> sl_bitrate c' = 32000)"
proof -
  obtain r' c' where run: "after_reports auto reports (r, Some c) = (r', Some c')"
      and within: "min (sl_bitrate c) 32000 \<le> sl_bitrate c'" "sl_bitrate c' \<le> max (sl_bitrate c) (max (unat (sp_bitrate p)) 128000)"
    using after_reports_within [OF assms, of auto reports c] by blast
  have "sl_bitrate c' = 32000"
    if "sp_adaptive_bitrate p \<and> sp_codec p = codec_id Opus \<and> sl_bitrate c \<le> 510000 \<and> 10 \<le> length reports
      \<and> (\<forall>s \<in> set reports. 2 < reported_loss s)"
    using after_reports_cut [OF assms, of reports auto c] cut_bitrate_reaches [of "length reports" "sl_bitrate c"] that run
    by auto
  then show ?thesis
    using run within by blast
qed

text \<open>C11: With automatic redundancy a route that starts without it sends redundant frames exactly while a report above one
  percent of loss has come and fewer than ten reports without any loss since the last such one; and each of those
  losses is what the receiver measured over its second, unless it counted 2^32 packets in it.
\<close>

theorem redundancy_follows_loss:
  assumes "lv_profile r = Some p" "\<not> sp_redundancy p" "\<not> sl_redundancy c" "lv_clean_secs r = 0"
  shows "(\<exists>r' c'. after_reports True reports (r, Some c) = (r', Some c')
      \<and> (sl_redundancy c' \<longleftrightarrow> lossy_lately (losses_of reports)))
    \<and> (\<forall>counters far s far'. receiver_report counters far = (s, far')
      \<and> (rv_packets_received counters - lv_last_received far) + (rv_packets_missing counters - lv_last_missing far) < 2 ^ 32
      \<longrightarrow> reported_loss s = lv_loss_pct far')"
  using after_reports_redundancy [OF assms, of reports] ends_agree_on_loss by blast

section \<open>Witnesses\<close>

lemma live_bitrate_settles_witness:
  "lv_profile a_live_route = Some an_auto_profile
   \<and> (\<exists>r' c'. after_reports False (replicate 10 a_lossy_report)
          (a_live_route, Some \<lparr>sl_bitrate = 128000, sl_expected_loss_pct = 0, sl_redundancy = False\<rparr>) = (r', Some c')
        \<and> sl_bitrate c' = 32000)"
proof -
  have profile: "lv_profile a_live_route = Some an_auto_profile"
    by (simp add: a_live_route_def)
  moreover have "sp_adaptive_bitrate an_auto_profile" "sp_codec an_auto_profile = codec_id Opus"
    by (simp_all add: an_auto_profile_def)
  ultimately show ?thesis
    using live_bitrate_settles [OF profile, of False "replicate 10 a_lossy_report"
        "\<lparr>sl_bitrate = 128000, sl_expected_loss_pct = 0, sl_redundancy = False\<rparr>"]
    by (auto simp: a_lossy_report_loss)
qed

lemma redundancy_follows_loss_witness:
  "(\<exists>r' c'. after_reports True [a_lossy_report]
      (a_live_route, Some \<lparr>sl_bitrate = 128000, sl_expected_loss_pct = 0, sl_redundancy = False\<rparr>) = (r', Some c') \<and> sl_redundancy c')"
proof -
  have start: "lv_profile a_live_route = Some an_auto_profile" "\<not> sp_redundancy an_auto_profile"
      "\<not> sl_redundancy \<lparr>sl_bitrate = 128000, sl_expected_loss_pct = 0, sl_redundancy = False\<rparr>" "lv_clean_secs a_live_route = 0"
    by (simp_all add: a_live_route_def an_auto_profile_def)
  have "lossy_lately (losses_of [a_lossy_report])"
    by (simp add: lossy_lately_def losses_of_def a_lossy_report_loss)
  then show ?thesis
    using redundancy_follows_loss [OF start, of "[a_lossy_report]"] by blast
qed

end
