(* ===== verification/Desktop_Defaults.thy ===== *)
theory Desktop_Defaults
  imports Identity "HOL-Library.Sublist"
begin

text \<open>
  What the desktop application changes outside itself and has to undo (\<open>default_devices.rs\<close>, \<open>hooks.rs\<close>): the default
  audio devices of the computer, remembered in a note on disk while they are replaced; the mute of the speakers; and
  the key of the sealed files, kept by the keystore of the operating system or in a file. Which device may feed the
  virtual microphone is here too. The calls of the operating system and of the JSON library are arguments.
\<close>

section \<open>Default devices\<close>

datatype DeviceKind = InputKind | OutputKind

record Previous =
  pv_input :: "bytes option"
  pv_output :: "bytes option"

definition previous_default :: Previous where
  "previous_default = \<lparr>pv_input = None, pv_output = None\<rparr>"

fun pv_slot :: "DeviceKind \<Rightarrow> Previous \<Rightarrow> bytes option" where
  "pv_slot InputKind p = pv_input p"
| "pv_slot OutputKind p = pv_output p"

fun pv_store :: "DeviceKind \<Rightarrow> bytes option \<Rightarrow> Previous \<Rightarrow> Previous" where
  "pv_store InputKind v p = p\<lparr>pv_input := v\<rparr>"
| "pv_store OutputKind v p = p\<lparr>pv_output := v\<rparr>"

definition pv_is_empty :: "Previous \<Rightarrow> bool" where
  "pv_is_empty p = (pv_input p = None \<and> pv_output p = None)"

text \<open>The platform module \<open>sys\<close>, and the note: written and removed as the disk allows, in the form of the library.\<close>

record 'os DeviceApi =
  da_find :: "'os \<Rightarrow> DeviceKind \<Rightarrow> bytes \<Rightarrow> bytes option"
  da_current :: "'os \<Rightarrow> DeviceKind \<Rightarrow> bytes option"
  da_set :: "'os \<Rightarrow> DeviceKind \<Rightarrow> bytes \<Rightarrow> bool \<times> 'os"

record NoteIo =
  nt_write :: "bytes \<Rightarrow> bytes option \<Rightarrow> bytes option"
  nt_remove :: "bytes option \<Rightarrow> bytes option"
  nt_json :: "Previous \<Rightarrow> bytes option"
  nt_parse :: "bytes \<Rightarrow> Previous option"

record 'os Defaults =
  df_previous :: Previous
  df_marker :: "bytes option"
  df_os :: 'os

definition take_over :: "'os DeviceApi \<Rightarrow> DeviceKind \<Rightarrow> bytes \<Rightarrow> Previous \<times> 'os \<Rightarrow> Previous \<times> 'os" where
  "take_over api kind name = (\<lambda>(p, os).
     case da_find api os kind name of
       None \<Rightarrow> (p, os)
     | Some wanted \<Rightarrow>
         (let current = da_current api os kind
          in if current = Some wanted then (p, os)
             else (let (ok, os') = da_set api os kind wanted
                   in if \<not> ok then (p, os')
                      else (if pv_slot kind p = None then pv_store kind (Some (case current of Some c \<Rightarrow> c | None \<Rightarrow> [])) p else p, os'))))"

definition give_back :: "'os DeviceApi \<Rightarrow> DeviceKind \<Rightarrow> Previous \<times> 'os \<Rightarrow> Previous \<times> 'os" where
  "give_back api kind = (\<lambda>(p, os).
     case pv_slot kind p of
       None \<Rightarrow> (p, os)
     | Some before \<Rightarrow> (pv_store kind None p, if before \<noteq> [] then snd (da_set api os kind before) else os))"

definition write_marker :: "NoteIo \<Rightarrow> Previous \<Rightarrow> bytes option \<Rightarrow> bytes option" where
  "write_marker io p marker =
     (if pv_is_empty p then nt_remove io marker
      else (case nt_json io p of Some json \<Rightarrow> nt_write io json marker | None \<Rightarrow> marker))"

definition defaults_apply :: "'os DeviceApi \<Rightarrow> NoteIo \<Rightarrow> bytes option \<Rightarrow> bytes option \<Rightarrow> 'os Defaults \<Rightarrow> 'os Defaults" where
  "defaults_apply api io input output s =
     (let step = (\<lambda>(kind, wanted) po. case wanted of Some name \<Rightarrow> take_over api kind name po | None \<Rightarrow> give_back api kind po);
          (p, os) = fold step [(InputKind, input), (OutputKind, output)] (df_previous s, df_os s)
      in \<lparr>df_previous = p, df_marker = write_marker io p (df_marker s), df_os = os\<rparr>)"

definition defaults_restore :: "'os DeviceApi \<Rightarrow> NoteIo \<Rightarrow> 'os Defaults \<Rightarrow> 'os Defaults" where
  "defaults_restore api io s =
     (let (p, os) = give_back api OutputKind (give_back api InputKind (df_previous s, df_os s))
      in \<lparr>df_previous = p, df_marker = write_marker io p (df_marker s), df_os = os\<rparr>)"

definition defaults_new :: "'os DeviceApi \<Rightarrow> NoteIo \<Rightarrow> bytes option \<Rightarrow> 'os \<Rightarrow> 'os Defaults" where
  "defaults_new api io marker os =
     (let s = \<lparr>df_previous = previous_default, df_marker = marker, df_os = os\<rparr>
      in case Option.bind marker (nt_parse io) of
           Some left \<Rightarrow> if pv_is_empty left then s else defaults_restore api io (s\<lparr>df_previous := left\<rparr>)
         | None \<Rightarrow> s)"

text \<open>A run: what the engine asks for, the end of the last route, and a kill of the process with the start after it.\<close>

datatype DefaultsOp = AskDefaults "bytes option" "bytes option" | PutBack | KilledAndStarted

fun defaults_step :: "'os DeviceApi \<Rightarrow> NoteIo \<Rightarrow> DefaultsOp \<Rightarrow> 'os Defaults \<Rightarrow> 'os Defaults" where
  "defaults_step api io (AskDefaults input output) s = defaults_apply api io input output s"
| "defaults_step api io PutBack s = defaults_restore api io s"
| "defaults_step api io KilledAndStarted s = defaults_new api io (df_marker s) (df_os s)"

definition defaults_run :: "'os DeviceApi \<Rightarrow> NoteIo \<Rightarrow> DefaultsOp list \<Rightarrow> 'os Defaults \<Rightarrow> 'os Defaults" where
  "defaults_run api io ops = fold (defaults_step api io) ops"

text \<open>
  What the operating systems document: a default that was set is the default, the other direction keeps its own, a
  call that fails changes neither. The disk is healthy, and the library reads what it wrote.
\<close>

definition api_lawful :: "'os DeviceApi \<Rightarrow> bool" where
  "api_lawful api \<longleftrightarrow> (\<forall>os kind d ok os'. da_set api os kind d = (ok, os') \<longrightarrow>
     da_current api os' kind = (if ok then Some d else da_current api os kind) \<and>
     (\<forall>other. other \<noteq> kind \<longrightarrow> da_current api os' other = da_current api os other))"

definition note_lawful :: "NoteIo \<Rightarrow> bool" where
  "note_lawful io \<longleftrightarrow> (\<forall>b m. nt_write io b m = Some b) \<and> (\<forall>m. nt_remove io m = None) \<and>
     (\<forall>p. \<exists>b. nt_json io p = Some b \<and> nt_parse io b = Some p)"

text \<open>The user's devices can be made the default again whenever SoundPush tries.\<close>

definition still_there :: "'os DeviceApi \<Rightarrow> (DeviceKind \<Rightarrow> bytes) \<Rightarrow> bool" where
  "still_there api own \<longleftrightarrow> (\<forall>os kind. own kind \<noteq> [] \<and> fst (da_set api os kind (own kind)))"

text \<open>A direction either has the user's default or remembers it.\<close>

definition own_kept :: "'os DeviceApi \<Rightarrow> (DeviceKind \<Rightarrow> bytes) \<Rightarrow> Previous \<times> 'os \<Rightarrow> bool" where
  "own_kept api own = (\<lambda>(p, os). \<forall>kind. if pv_slot kind p = None then da_current api os kind = Some (own kind) else pv_slot kind p = Some (own kind))"

definition noted :: "NoteIo \<Rightarrow> 'os Defaults \<Rightarrow> bool" where
  "noted io s \<longleftrightarrow> (if pv_is_empty (df_previous s) then df_marker s = None
     else \<exists>b. df_marker s = Some b \<and> nt_parse io b = Some (df_previous s))"

lemma pv_slot_store [simp]: "pv_slot k (pv_store k' v p) = (if k = k' then v else pv_slot k p)"
  by (cases k; cases k') simp_all

lemma pv_empty_slots: "pv_is_empty p \<longleftrightarrow> (\<forall>k. pv_slot k p = None)"
proof
  assume "\<forall>k. pv_slot k p = None"
  then show "pv_is_empty p"
    unfolding pv_is_empty_def by (metis pv_slot.simps)
next
  assume "pv_is_empty p"
  then show "\<forall>k. pv_slot k p = None"
    unfolding pv_is_empty_def by (metis DeviceKind.exhaust pv_slot.simps)
qed

lemma api_set:
  assumes "api_lawful api" "da_set api os kind d = (ok, os')"
  shows "da_current api os' k = (if k = kind \<and> ok then Some d else da_current api os k)"
proof -
  have "da_current api os' kind = (if ok then Some d else da_current api os kind)"
      "\<forall>other. other \<noteq> kind \<longrightarrow> da_current api os' other = da_current api os other"
    using assms unfolding api_lawful_def by blast+
  then show ?thesis
    by (cases "k = kind") simp_all
qed

lemma own_kept_slot:
  assumes "own_kept api own (p, os)"
  shows "if pv_slot kind p = None then da_current api os kind = Some (own kind) else pv_slot kind p = Some (own kind)"
  using assms by (simp add: own_kept_def)

lemma own_keptI:
  assumes "\<And>kind. if pv_slot kind p = None then da_current api os kind = Some (own kind) else pv_slot kind p = Some (own kind)"
  shows "own_kept api own (p, os)"
  using assms by (simp add: own_kept_def)

lemma take_over_keeps:
  assumes "api_lawful api" "own_kept api own po"
  shows "own_kept api own (take_over api kind name po)"
proof -
  obtain p os where po: "po = (p, os)"
    by fastforce
  show ?thesis
  proof (cases "da_find api os kind name")
    case None
    then show ?thesis
      using assms(2) by (simp add: po take_over_def)
  next
    case (Some wanted)
    obtain ok os' where set: "da_set api os kind wanted = (ok, os')"
      by fastforce
    show ?thesis
      using assms(2) Some set api_set [OF assms(1) set]
      by (auto simp: po take_over_def own_kept_def Let_def split: if_splits)
  qed
qed

lemma give_back_keeps:
  assumes "api_lawful api" "still_there api own" "own_kept api own po"
  shows "own_kept api own (give_back api kind po) \<and> pv_slot kind (fst (give_back api kind po)) = None
    \<and> (\<forall>k. pv_slot k (fst po) = None \<longrightarrow> pv_slot k (fst (give_back api kind po)) = None)"
proof -
  obtain p os where po: "po = (p, os)"
    by fastforce
  show ?thesis
  proof (cases "pv_slot kind p")
    case None
    then show ?thesis
      using assms(3) by (simp add: po give_back_def)
  next
    case (Some before)
    then have own: "before = own kind"
      using own_kept_slot [of api own p os kind] assms(3) by (simp add: po)
    obtain os' where set: "da_set api os kind (own kind) = (True, os')"
      using assms(2) unfolding still_there_def by (metis (full_types) prod.collapse)
    have "own kind \<noteq> []"
      using assms(2) by (simp add: still_there_def)
    then have result: "give_back api kind po = (pv_store kind None p, os')"
      using Some own set by (simp add: po give_back_def)
    have "own_kept api own (pv_store kind None p, os')"
    proof (rule own_keptI)
      fix k
      show "if pv_slot k (pv_store kind None p) = None then da_current api os' k = Some (own k)
        else pv_slot k (pv_store kind None p) = Some (own k)"
        using own_kept_slot [of api own p os k] assms(3) api_set [OF assms(1) set, of k] by (cases "k = kind") (simp_all add: po)
    qed
    then show ?thesis
      unfolding result by (simp add: po)
  qed
qed

lemma write_marker_noted:
  assumes "note_lawful io"
  shows "noted io \<lparr>df_previous = p, df_marker = write_marker io p m, df_os = os\<rparr>"
proof -
  obtain b where "nt_json io p = Some b" "nt_parse io b = Some p" "nt_write io b m = Some b" "nt_remove io m = None"
    using assms unfolding note_lawful_def by metis
  then show ?thesis
    by (simp add: noted_def write_marker_def)
qed

definition defaults_inv :: "'os DeviceApi \<Rightarrow> NoteIo \<Rightarrow> (DeviceKind \<Rightarrow> bytes) \<Rightarrow> 'os Defaults \<Rightarrow> bool" where
  "defaults_inv api io own s \<longleftrightarrow> own_kept api own (df_previous s, df_os s) \<and> noted io s"

lemma defaults_apply_inv:
  assumes "api_lawful api" "note_lawful io" "still_there api own" "defaults_inv api io own s"
  shows "defaults_inv api io own (defaults_apply api io input output s)"
proof -
  let ?step = "\<lambda>kind wanted po. case wanted of Some name \<Rightarrow> take_over api kind name po | None \<Rightarrow> give_back api kind po"
  have one: "own_kept api own (?step kind wanted po)" if "own_kept api own po" for kind wanted po
    using take_over_keeps [OF assms(1) that] give_back_keeps [OF assms(1,3) that] by (simp split: option.split)
  obtain p os where po: "?step OutputKind output (?step InputKind input (df_previous s, df_os s)) = (p, os)"
    by (metis prod.collapse)
  have "own_kept api own (df_previous s, df_os s)"
    using assms(4) by (simp add: defaults_inv_def)
  then have kept: "own_kept api own (p, os)"
    using one [OF one] po by metis
  have "defaults_apply api io input output s = \<lparr>df_previous = p, df_marker = write_marker io p (df_marker s), df_os = os\<rparr>"
    using po unfolding defaults_apply_def Let_def by simp
  then show ?thesis
    using kept write_marker_noted [OF assms(2), of p "df_marker s" os] by (simp add: defaults_inv_def)
qed

lemma defaults_restore_inv:
  assumes "api_lawful api" "note_lawful io" "still_there api own" "own_kept api own (df_previous s, df_os s)"
  shows "defaults_inv api io own (defaults_restore api io s) \<and> pv_is_empty (df_previous (defaults_restore api io s))"
proof -
  obtain p os where po: "give_back api OutputKind (give_back api InputKind (df_previous s, df_os s)) = (p, os)"
    by fastforce
  note first = give_back_keeps [OF assms(1,3,4), of InputKind]
  note second = give_back_keeps [OF assms(1,3), of "give_back api InputKind (df_previous s, df_os s)" OutputKind]
  have "own_kept api own (p, os)" "\<forall>k. pv_slot k p = None"
    using first second po by (metis DeviceKind.exhaust fst_conv)+
  then show ?thesis
    using write_marker_noted [OF assms(2), of p "df_marker s" os] po
    by (simp add: defaults_inv_def defaults_restore_def pv_empty_slots)
qed

lemma defaults_new_inv:
  assumes "api_lawful api" "note_lawful io" "still_there api own" "defaults_inv api io own s"
  shows "defaults_inv api io own (defaults_new api io (df_marker s) (df_os s))
    \<and> pv_is_empty (df_previous (defaults_new api io (df_marker s) (df_os s)))"
proof (cases "pv_is_empty (df_previous s)")
  case True
  then show ?thesis
    using assms(4)
    by (auto simp: defaults_inv_def own_kept_def noted_def defaults_new_def previous_default_def Let_def pv_empty_slots)
      (metis DeviceKind.exhaust pv_slot.simps Previous.select_convs)+
next
  case False
  let ?s = "\<lparr>df_previous = df_previous s, df_marker = df_marker s, df_os = df_os s\<rparr>"
  have "defaults_new api io (df_marker s) (df_os s) = defaults_restore api io ?s"
    using False assms(4) by (auto simp: defaults_inv_def noted_def defaults_new_def Let_def)
  moreover have "own_kept api own (df_previous ?s, df_os ?s)"
    using assms(4) by (simp add: defaults_inv_def)
  ultimately show ?thesis
    using defaults_restore_inv [OF assms(1-3), of ?s] by simp
qed

lemma defaults_run_inv:
  assumes "api_lawful api" "note_lawful io" "still_there api own" "defaults_inv api io own s"
  shows "defaults_inv api io own (defaults_run api io ops s)"
  using assms(4)
proof (induction ops arbitrary: s)
  case (Cons op ops)
  have "defaults_inv api io own (defaults_step api io op s)"
    using defaults_apply_inv [OF assms(1-3) Cons.prems] defaults_restore_inv [OF assms(1-3), of s]
      defaults_new_inv [OF assms(1-3) Cons.prems] Cons.prems
    by (cases op) (auto simp: defaults_inv_def)
  then show ?case
    using Cons.IH by (simp add: defaults_run_def)
qed (simp add: defaults_run_def)

lemma own_given_back:
  assumes "defaults_inv api io own s" "pv_is_empty (df_previous s)"
  shows "(\<forall>kind. da_current api (df_os s) kind = Some (own kind)) \<and> df_marker s = None"
  using assms by (auto simp: defaults_inv_def own_kept_def noted_def pv_empty_slots)

section \<open>Muted speakers\<close>

text \<open>\<open>ok\<close>: the operating system muted or unmuted the default output. The marker is an empty file.\<close>

record Speakers =
  sk_muted :: bool
  sk_marker :: bool

definition set_speakers_muted :: "bool \<Rightarrow> bool \<Rightarrow> Speakers \<Rightarrow> bool \<times> Speakers" where
  "set_speakers_muted ok muted s = (ok, if ok then s\<lparr>sk_muted := muted, sk_marker := muted\<rparr> else s)"

definition unmute_left_over :: "bool \<Rightarrow> Speakers \<Rightarrow> Speakers" where
  "unmute_left_over ok s = (if sk_marker s \<and> ok then s\<lparr>sk_muted := False, sk_marker := False\<rparr> else s)"

lemma speakers_come_back:
  assumes "sk_muted s \<longrightarrow> sk_marker s"
  shows "\<not> sk_muted (unmute_left_over True (snd (set_speakers_muted ok muted s)))"
    and "sk_muted (snd (set_speakers_muted ok muted s)) \<longrightarrow> sk_marker (snd (set_speakers_muted ok muted s))"
  using assms by (auto simp: set_speakers_muted_def unmute_left_over_def)

section \<open>The storage key\<close>

text \<open>
  \<open>storage_key\<close>: the secret of the keystore and the file beside the data, the state of the keystore at this call, and the
  key that would be made. A file that is not UTF-8 is not hexadecimal either.
\<close>

record KeyEnv =
  ke_debug :: bool
  ke_entry :: bool
  ke_readable :: bool
  ke_writable :: bool
  ke_file_writable :: bool

record KeyPlaces =
  kp_secret :: "bytes option"
  kp_file :: "bytes option"

definition key_decode :: "bytes \<Rightarrow> bytes option" where
  "key_decode s = (case unhex s of Some bs \<Rightarrow> if length bs = 32 then Some bs else None | None \<Rightarrow> None)"

definition key_in_file :: "KeyPlaces \<Rightarrow> bytes option" where
  "key_in_file s = Option.bind (kp_file s) (\<lambda>t. key_decode (trim t))"

definition key_in_keystore :: "KeyEnv \<Rightarrow> KeyPlaces \<Rightarrow> bytes option" where
  "key_in_keystore env s = (if ke_entry env \<and> ke_readable env then Option.bind (kp_secret s) key_decode else None)"

definition write_key_file :: "KeyEnv \<Rightarrow> bytes \<Rightarrow> KeyPlaces \<Rightarrow> KeyPlaces" where
  "write_key_file env key s = (if ke_file_writable env then s\<lparr>kp_file := Some (hex key)\<rparr> else s)"

text \<open>The last resort: the file, or a new key in it.\<close>

definition fallback_key :: "KeyEnv \<Rightarrow> bytes \<Rightarrow> KeyPlaces \<Rightarrow> bytes \<times> KeyPlaces" where
  "fallback_key env random s =
     (case key_in_file s of Some key \<Rightarrow> (key, s) | None \<Rightarrow> (random, write_key_file env random s))"

definition storage_key :: "KeyEnv \<Rightarrow> bytes \<Rightarrow> KeyPlaces \<Rightarrow> bytes \<times> KeyPlaces" where
  "storage_key env random s =
     (if ke_debug env then
        (case key_in_file s of
           Some key \<Rightarrow> (key, s)
         | None \<Rightarrow> (case key_in_keystore env s of
                      Some key \<Rightarrow> (key, write_key_file env key s)
                    | None \<Rightarrow> fallback_key env random s))
      else if ke_entry env then
        (case key_in_keystore env s of
           Some key \<Rightarrow> (key, s)
         | None \<Rightarrow>
             (let key = (case key_in_file s of Some k \<Rightarrow> k | None \<Rightarrow> random)
              in if ke_writable env
                 then (key, \<lparr>kp_secret = Some (hex key), kp_file = (if ke_file_writable env then None else kp_file s)\<rparr>)
                 else fallback_key env random s))
      else fallback_key env random s)"

lemma key_decode_hex [simp]: "length k = 32 \<Longrightarrow> key_decode (hex k) = Some k"
  by (simp add: key_decode_def unhex_hex)

lemma key_decode_length: "key_decode s = Some k \<Longrightarrow> length k = 32"
  by (auto simp: key_decode_def split: option.splits if_splits)

lemma hex_printable: "c \<in> set (hex bs) \<Longrightarrow> 32 < c \<and> c < 128"
proof (induction bs)
  case (Cons b bs)
  have "list_all (\<lambda>c. 32 < c \<and> c < 128) HEX" "length HEX = 16"
    by (simp_all add: HEX_bytes)
  then have "\<forall>x < 16. 32 < HEX ! x \<and> HEX ! x < 128"
    by (simp add: list_all_length)
  moreover have "unat b div 16 < 16" "unat b mod 16 < 16"
    using byte_lt [of b] by (simp_all add: less_mult_imp_div_less)
  ultimately show ?case
    using Cons by auto
qed simp

lemma trim_hex [simp]: "trim (hex bs) = hex bs"
  by (rule trim_printable) (rule hex_printable)

lemma key_in_file_written [simp]:
  "length k = 32 \<Longrightarrow> key_in_file (s\<lparr>kp_file := Some (hex k)\<rparr>) = Some k"
  "length k = 32 \<Longrightarrow> key_in_file \<lparr>kp_secret = x, kp_file = Some (hex k)\<rparr> = Some k"
  by (simp_all add: key_in_file_def)

lemma key_in_file_length: "key_in_file s = Some k \<Longrightarrow> length k = 32"
  by (auto simp: key_in_file_def key_decode_length split: bind_splits)

lemma key_in_keystore_length: "key_in_keystore env s = Some k \<Longrightarrow> length k = 32"
  by (auto simp: key_in_keystore_def key_decode_length split: bind_splits if_splits)

text \<open>A keystore that can be written but not read at the moment: the stored key is overwritten by a new one.\<close>

lemma storage_key_overwritten:
  assumes "\<not> ke_debug env" "ke_entry env" "\<not> ke_readable env" "ke_writable env" "key_in_file s = None"
  shows "storage_key env random s = (random, \<lparr>kp_secret = Some (hex random), kp_file = (if ke_file_writable env then None else kp_file s)\<rparr>)"
  using assms by (simp add: storage_key_def key_in_keystore_def)

lemma fallback_key_again:
  assumes "length random = 32" "ke_file_writable env" "fallback_key env random s = (k, s')"
  shows "key_in_file s' = Some k" "kp_secret s' = kp_secret s"
  using assms by (auto simp: fallback_key_def write_key_file_def split: option.splits)

lemma storage_key_again:
  assumes "length random = 32" "ke_file_writable env" "ke_debug env \<or> \<not> ke_entry env \<or> \<not> ke_writable env \<or> ke_readable env"
    and key: "storage_key env random s = (k, s')"
  shows "fst (storage_key env random' s') = k"
proof (cases "ke_debug env \<or> \<not> ke_entry env")
  case True
  have "key_in_file s' = Some k"
  proof (cases "key_in_file s")
    case None
    then show ?thesis
      using True key fallback_key_again(1) [OF assms(1,2)] key_in_keystore_length assms(2)
      by (auto simp: storage_key_def write_key_file_def split: option.splits if_splits)
  next
    case (Some k0)
    then show ?thesis
      using True key by (auto simp: storage_key_def fallback_key_def split: if_splits)
  qed
  then show ?thesis
    using True by (auto simp: storage_key_def fallback_key_def)
next
  case False
  show ?thesis
  proof (cases "key_in_keystore env s")
    case (Some k0)
    then show ?thesis
      using False key by (auto simp: storage_key_def)
  next
    case None
    show ?thesis
    proof (cases "ke_writable env")
      case True
      have "length k = 32"
        using False None True key assms(1) key_in_file_length by (auto simp: storage_key_def Let_def split: option.splits)
      then have "key_in_keystore env s' = Some k"
        using False None True key assms(3) by (auto simp: storage_key_def key_in_keystore_def Let_def split: option.splits)
      then show ?thesis
        using False by (simp add: storage_key_def)
    next
      case unwritable: False
      then have fall: "fallback_key env random s = (k, s')"
        using False None key by (simp add: storage_key_def Let_def)
      then have "key_in_keystore env s' = None"
        using None fallback_key_again(2) [OF assms(1,2) fall] by (auto simp: key_in_keystore_def split: if_splits)
      then show ?thesis
        using False unwritable fallback_key_again(1) [OF assms(1,2) fall] by (simp add: storage_key_def fallback_key_def Let_def)
    qed
  qed
qed

section \<open>Virtual cables\<close>

definition own_feed :: "bool \<Rightarrow> bytes \<times> bytes option" where
  "own_feed windows = (ascii ''SoundPush Microphone Feed'',
     Some (if windows then ascii ''SoundPush Microphone (SoundPush Virtual Audio)'' else ascii ''SoundPush Microphone''))"

definition virtual_cables :: "bool \<Rightarrow> (bytes \<times> bytes option) list" where
  "virtual_cables windows =
     [own_feed windows,
      (ascii ''SoundPush Microphone'', None),
      (ascii ''CABLE Input'', Some (ascii ''CABLE Output (VB-Audio Virtual Cable)'')),
      (ascii ''Hi-Fi Cable Input'', Some (ascii ''Hi-Fi Cable Output (VB-Audio Hi-Fi Cable)'')),
      (ascii ''BlackHole'', None),
      (ascii ''Voicemeeter Input'', Some (ascii ''Voicemeeter Out B1 (VB-Audio Voicemeeter VAIO)'')),
      (ascii ''Voicemeeter AUX Input'', Some (ascii ''Voicemeeter Out B2 (VB-Audio Voicemeeter AUX VAIO)'')),
      (ascii ''Loopback Audio'', None)]"

definition cable_input_name :: "bool \<Rightarrow> bytes \<Rightarrow> bytes option" where
  "cable_input_name windows output =
     map_option (\<lambda>(_, recording). case recording of None \<Rightarrow> output | Some r \<Rightarrow> r)
       (find (\<lambda>(playback, _). sublist playback output) (virtual_cables windows))"

definition is_virtual_cable :: "bool \<Rightarrow> bytes \<Rightarrow> bool" where
  "is_virtual_cable windows output = (cable_input_name windows output \<noteq> None)"

definition preferred_virtual_cable :: "bool \<Rightarrow> bytes list \<Rightarrow> bytes option" where
  "preferred_virtual_cable windows outputs =
     (case List.map_filter (\<lambda>(playback, _). find (sublist playback) outputs) (virtual_cables windows) of
        [] \<Rightarrow> None
      | o1 # _ \<Rightarrow> Some o1)"

definition virtual_mic_target :: "bool \<Rightarrow> bytes list \<Rightarrow> bytes option \<Rightarrow> bytes option" where
  "virtual_mic_target windows outputs configured =
     (case configured of
        Some d \<Rightarrow> if cable_input_name windows d \<noteq> None \<and> d \<in> set outputs then Some d else preferred_virtual_cable windows outputs
      | None \<Rightarrow> preferred_virtual_cable windows outputs)"

lemma is_virtual_cable_iff: "is_virtual_cable windows d \<longleftrightarrow> (\<exists>c \<in> set (virtual_cables windows). sublist (fst c) d)"
proof -
  have "is_virtual_cable windows d \<longleftrightarrow> find (\<lambda>c. sublist (fst c) d) (virtual_cables windows) \<noteq> None"
    by (simp add: is_virtual_cable_def cable_input_name_def case_prod_unfold)
  then show ?thesis
    by (simp only: find_None_iff) blast
qed

lemma map_filter_hd: "List.map_filter f xs = y # ys \<Longrightarrow> \<exists>x \<in> set xs. f x = Some y"
proof -
  assume "List.map_filter f xs = y # ys"
  then have "y \<in> set (List.map_filter f xs)"
    by simp
  then show ?thesis
    by (auto simp: List.map_filter_def)
qed

lemma preferred_is_cable:
  assumes "preferred_virtual_cable windows outputs = Some d"
  shows "d \<in> set outputs \<and> is_virtual_cable windows d"
proof -
  obtain c where "c \<in> set (virtual_cables windows)" "find (sublist (fst c)) outputs = Some d"
    using assms map_filter_hd by (fastforce simp: preferred_virtual_cable_def split_beta split: list.splits)
  then show ?thesis
    by (auto simp: is_virtual_cable_iff find_Some_iff)
qed

lemma preferred_found:
  "preferred_virtual_cable windows outputs = None \<longleftrightarrow> (\<forall>d \<in> set outputs. \<not> is_virtual_cable windows d)"
proof -
  have "preferred_virtual_cable windows outputs = None \<longleftrightarrow>
      (\<forall>c \<in> set (virtual_cables windows). find (sublist (fst c)) outputs = None)"
  proof -
    have "preferred_virtual_cable windows outputs = None \<longleftrightarrow>
        List.map_filter (\<lambda>c. find (sublist (fst c)) outputs) (virtual_cables windows) = []"
      by (simp add: preferred_virtual_cable_def case_prod_unfold split: list.split)
    then show ?thesis
      by (simp add: List.map_filter_def filter_empty_conv)
  qed
  then show ?thesis
    by (auto simp: find_None_iff is_virtual_cable_iff)
qed

section \<open>Guarantees\<close>

text \<open>
  Whatever the engine asked for and however often SoundPush was killed, the end of the last route, and the next start
  after a kill, leave both directions with the default the user had, and no note on disk. (A kill inside
  \<open>defaults_apply\<close> is not a step: see \<open>kill_before_note\<close>.)
\<close>

theorem defaults_come_back:
  fixes ops :: "DefaultsOp list"
  assumes "api_lawful api" "note_lawful io" "still_there api own" "\<forall>kind. da_current api os kind = Some (own kind)"
  defines "s \<equiv> defaults_run api io ops (defaults_new api io None os)"
  shows "(\<forall>kind. da_current api (df_os (defaults_step api io PutBack s)) kind = Some (own kind))
    \<and> df_marker (defaults_step api io PutBack s) = None
    \<and> (\<forall>kind. da_current api (df_os (defaults_step api io KilledAndStarted s)) kind = Some (own kind))
    \<and> df_marker (defaults_step api io KilledAndStarted s) = None"
proof -
  have "pv_slot kind previous_default = None" for kind
    by (cases kind) (simp_all add: previous_default_def)
  then have "defaults_inv api io own (defaults_new api io None os)"
    using assms(4)
    by (auto simp: defaults_new_def Let_def defaults_inv_def own_kept_def noted_def pv_empty_slots)
  then have inv: "defaults_inv api io own s"
    unfolding s_def by (rule defaults_run_inv [OF assms(1-3)])
  then have kept: "own_kept api own (df_previous s, df_os s)"
    by (simp add: defaults_inv_def)
  show ?thesis
    using own_given_back [of api io own "defaults_step api io PutBack s"] own_given_back [of api io own "defaults_step api io KilledAndStarted s"]
      defaults_restore_inv [OF assms(1-3) kept] defaults_new_inv [OF assms(1-3) inv]
    by simp
qed

text \<open>A concrete system, on which the hypotheses hold.\<close>

definition a_device_api :: "(DeviceKind \<Rightarrow> bytes option) DeviceApi" where
  "a_device_api = \<lparr>da_find = (\<lambda>os kind name. Some name), da_current = (\<lambda>os kind. os kind),
     da_set = (\<lambda>os kind d. (True, os(kind := Some d)))\<rparr>"

lemma a_device_api_lawful: "api_lawful a_device_api" "still_there a_device_api (\<lambda>_. [7])"
  by (auto simp: api_lawful_def still_there_def a_device_api_def)

text \<open>
  The note is written after the devices are changed: a kill in between leaves SoundPush's devices the defaults, with
  no note for the next start to undo.
\<close>

lemma kill_before_note:
  assumes "da_find api os InputKind name = Some wanted" "da_current api os InputKind = Some own" "own \<noteq> wanted"
    "da_set api os InputKind wanted = (True, os')"
  shows "take_over api InputKind name (previous_default, os) = (previous_default\<lparr>pv_input := Some own\<rparr>, os')"
    and "df_os (defaults_new api io None os') = os'"
  using assms by (simp_all add: take_over_def previous_default_def defaults_new_def Let_def)

text \<open>
  As long as the keystore and the disk behave as they did, the key of the sealed files is the same at every start,
  whatever new key would be drawn; but a start at which the keystore can be written and not read replaces the key.
\<close>

theorem storage_key_stable:
  assumes "length random = 32" "ke_file_writable env" "ke_debug env \<or> \<not> ke_entry env \<or> \<not> ke_writable env \<or> ke_readable env"
  shows "fst (storage_key env random' (snd (storage_key env random s))) = fst (storage_key env random s)"
  using storage_key_again [OF assms, of s] by (metis prod.collapse)

theorem storage_key_replaced:
  assumes "length k = 32" "length random = 32" "random \<noteq> k"
  shows "let working = \<lparr>ke_debug = False, ke_entry = True, ke_readable = True, ke_writable = True, ke_file_writable = True\<rparr>;
             s = \<lparr>kp_secret = Some (hex k), kp_file = None\<rparr>
         in fst (storage_key working random s) = k
          \<and> fst (storage_key working random (snd (storage_key (working\<lparr>ke_readable := False\<rparr>) random s))) = random"
  using assms by (simp add: storage_key_def key_in_keystore_def key_in_file_def Let_def)

text \<open>
  The phone's microphone is only ever fed into a virtual cable that is present, never into a real speaker; and into
  one whenever one is present.
\<close>

theorem virtual_mic_never_speakers:
  "(virtual_mic_target windows outputs configured = Some d \<longrightarrow> d \<in> set outputs \<and> is_virtual_cable windows d)
   \<and> (virtual_mic_target windows outputs configured = None \<longleftrightarrow> (\<forall>o1 \<in> set outputs. \<not> is_virtual_cable windows o1))"
proof (cases "\<exists>d. configured = Some d \<and> cable_input_name windows d \<noteq> None \<and> d \<in> set outputs")
  case True
  then show ?thesis
    by (auto simp: virtual_mic_target_def is_virtual_cable_def)
next
  case False
  then have "virtual_mic_target windows outputs configured = preferred_virtual_cable windows outputs"
    by (auto simp: virtual_mic_target_def split: option.split)
  then show ?thesis
    using preferred_is_cable preferred_found by simp
qed

end
