(* ===== verification/Desktop_Shell.thy ===== *)
theory Desktop_Shell
  imports Net_Address Identity "HOL-Library.Sublist"
begin

text \<open>
  Parts of the desktop application around the engine: the command lines it has run with more rights (\<open>network.rs\<close>,
  \<open>virtual_mic.rs\<close>, \<open>usb.rs\<close>), the global shortcuts (\<open>hotkeys.rs\<close>), bursts of events of the operating system
  (\<open>os_events.rs\<close>, \<open>device_watch.rs\<close>), and which adapter carries the internet (\<open>tethering.rs\<close>).
\<close>

section \<open>Command lines\<close>

definition QUOTE :: u8 where "QUOTE = 34"
definition APOS :: u8 where "APOS = 39"
definition BACKSLASH :: u8 where "BACKSLASH = 92"

abbreviation quoted :: "bytes \<Rightarrow> bytes" where
  "quoted s \<equiv> [QUOTE] @ s @ [QUOTE]"

definition RULE_NAME :: bytes where "RULE_NAME = ascii ''SoundPush''"

definition safe_in_command :: "bytes \<Rightarrow> bool" where
  "safe_in_command path \<longleftrightarrow> path \<noteq> [] \<and> (\<forall>c \<in> set path. c \<noteq> QUOTE \<and> c \<noteq> 37 \<and> c \<noteq> 13 \<and> c \<noteq> 10)"

definition is_ascii_hexdigit :: "u8 \<Rightarrow> bool" where
  "is_ascii_hexdigit c \<longleftrightarrow> (48 \<le> c \<and> c \<le> 57) \<or> (97 \<le> c \<and> c \<le> 102) \<or> (65 \<le> c \<and> c \<le> 70)"

definition is_adapter_id :: "bytes \<Rightarrow> bool" where
  "is_adapter_id b \<longleftrightarrow> length b = 38 \<and> b ! 0 = 123 \<and> b ! 37 = 125 \<and>
     (\<forall>(i, c) \<in> set (zip [0..<36] (take 36 (drop 1 b))). if i \<in> {8, 13, 18, 23} then c = 45 else is_ascii_hexdigit c)"

fun join_with :: "bytes \<Rightarrow> bytes list \<Rightarrow> bytes" where
  "join_with s [] = []"
| "join_with s [x] = x"
| "join_with s (x # y # xs) = x @ s @ join_with s (y # xs)"

definition firewall_commands :: "bytes \<Rightarrow> bool \<Rightarrow> bytes list \<Rightarrow> bytes \<Rightarrow> bytes" where
  "firewall_commands exe include_public private_adapters system =
     (let profiles = (if include_public then ascii ''private,domain,public'' else ascii ''private,domain'');
          netsh = quoted (system @ [BACKSLASH] @ ascii ''netsh.exe'');
          cmd = netsh @ ascii '' advfirewall firewall delete rule name=all dir=in program='' @ quoted exe @ ascii '' & ''
              @ netsh @ ascii '' advfirewall firewall delete rule name='' @ quoted RULE_NAME @ ascii '' & ''
              @ netsh @ ascii '' advfirewall firewall add rule name='' @ quoted RULE_NAME
              @ ascii '' dir=in action=allow protocol=UDP program='' @ quoted exe @ ascii '' profile='' @ profiles
              @ ascii '' enable=yes || exit /b 1'';
          ids = map (\<lambda>i. [APOS] @ i @ [APOS]) (filter is_adapter_id private_adapters)
      in if ids = [] then cmd
         else cmd @ ascii '' & ''
              @ quoted (system @ [BACKSLASH] @ ascii ''WindowsPowerShell'' @ [BACKSLASH] @ ascii ''v1.0'' @ [BACKSLASH] @ ascii ''powershell.exe'')
              @ ascii '' -NoProfile -NonInteractive -Command ''
              @ quoted (ascii ''$ids = @('' @ join_with (ascii '','') ids
                  @ ascii ''); foreach ($a in @(Get-NetAdapter -ErrorAction SilentlyContinue)) { if ($ids -contains $a.InterfaceGuid) { ''
                  @ ascii ''Set-NetConnectionProfile -InterfaceIndex $a.ifIndex -NetworkCategory Private -ErrorAction SilentlyContinue } }'')
              @ ascii '' & exit /b 0'')"

text \<open>The parameters of the elevated \<open>cmd.exe\<close>, or the refusal; \<open>adapters\<close>: those of the public networks now.\<close>

definition fix_parameters :: "bytes \<Rightarrow> bool \<Rightarrow> bool \<Rightarrow> bytes list \<Rightarrow> bytes \<Rightarrow> bytes + bytes" where
  "fix_parameters exe include_public make_private adapters system =
     (if \<not> safe_in_command exe then Inl (ascii ''unexpected program path'')
      else Inr (ascii ''/d /s /c '' @ quoted (firewall_commands exe include_public (if make_private then adapters else []) system)))"

text \<open>For \<open>sh\<close>: every apostrophe closes the quotation, stands behind a backslash, and opens it again.\<close>

definition sh_quote :: "bytes \<Rightarrow> bytes" where
  "sh_quote s = [APOS] @ concat (map (\<lambda>c. if c = APOS then [APOS, BACKSLASH, APOS, APOS] else [c]) s) @ [APOS]"

definition driver_install_script :: "bytes \<Rightarrow> bytes \<Rightarrow> bytes \<Rightarrow> bytes \<Rightarrow> bytes" where
  "driver_install_script hal src dst restart_audio =
     ascii ''mkdir -p '' @ sh_quote hal @ ascii '' && rm -rf '' @ sh_quote dst @ ascii '' && cp -R '' @ sh_quote src @ ascii '' ''
     @ sh_quote dst @ ascii '' && chown -R root:wheel '' @ sh_quote dst @ ascii '' && ('' @ restart_audio @ ascii '')''"

text \<open>The telephone on the USB cable: only a serial number of harmless characters reaches \<open>adb\<close>.\<close>

definition valid_serial :: "bytes \<Rightarrow> bool" where
  "valid_serial serial \<longleftrightarrow> serial \<noteq> [] \<and> length serial \<le> 128 \<and>
     (\<forall>c \<in> set serial. (48 \<le> c \<and> c \<le> 57) \<or> (65 \<le> c \<and> c \<le> 90) \<or> (97 \<le> c \<and> c \<le> 122) \<or> c \<in> {46, 58, 45, 95})"

section \<open>What the shells read\<close>

text \<open>The pieces of a text between quotation marks; those at odd places stand inside of them.\<close>

fun pieces :: "u8 \<Rightarrow> bytes \<Rightarrow> bytes list" where
  "pieces q [] = [[]]"
| "pieces q (c # s) = (if c = q then [] # pieces q s else (case pieces q s of p # ps \<Rightarrow> (c # p) # ps | [] \<Rightarrow> [[c]]))"

text \<open>
  The word a POSIX shell reads at the start of a text: bytes between apostrophes are literal, a backslash outside
  makes the next byte literal, the first other byte outside ends the word here.
\<close>

fun sh_word :: "bool \<Rightarrow> bytes \<Rightarrow> (bytes \<times> bytes) option" where
  "sh_word True [] = None"
| "sh_word True (c # s) = (if c = APOS then sh_word False s else map_option (map_prod (Cons c) id) (sh_word True s))"
| "sh_word False [] = Some ([], [])"
| "sh_word False [c] = (if c = APOS \<or> c = BACKSLASH then None else Some ([], [c]))"
| "sh_word False (c # d # s) =
     (if c = APOS then sh_word True (d # s)
      else if c = BACKSLASH then map_option (map_prod (Cons d) id) (sh_word False s)
      else Some ([], c # d # s))"

lemma pieces_free [simp]: "q \<notin> set s \<Longrightarrow> pieces q s = [s]"
  by (induction s) auto

lemma pieces_not_empty [simp]: "pieces q s \<noteq> []"
  by (induction s) (auto split: list.splits)

lemma pieces_append: "q \<notin> set s \<Longrightarrow> pieces q (s @ t) = (s @ hd (pieces q t)) # tl (pieces q t)"
  by (induction s) (auto split: list.splits simp: neq_Nil_conv)

lemma pieces_quoted:
  assumes "q \<notin> set a" "q \<notin> set b"
  shows "pieces q (a @ [q] @ b @ [q] @ t) = a # b # pieces q t"
  using assms by (simp add: pieces_append)

lemma sh_word_end: "rest = [] \<or> hd rest \<noteq> APOS \<and> hd rest \<noteq> BACKSLASH \<Longrightarrow> sh_word False rest = Some ([], rest)"
  by (cases rest; cases "tl rest") auto

lemma sh_word_quoted:
  assumes "sh_word False rest = Some (w, r)"
  shows "sh_word True (concat (map (\<lambda>c. if c = APOS then [APOS, BACKSLASH, APOS, APOS] else [c]) s) @ [APOS] @ rest) = Some (s @ w, r)"
proof (induction s)
  case Nil
  then show ?case
    using assms by simp
next
  case (Cons c s)
  then show ?case
    by (cases "concat (map (\<lambda>c. if c = APOS then [APOS, BACKSLASH, APOS, APOS] else [c]) s) @ [APOS] @ rest")
      (auto simp: APOS_def BACKSLASH_def)
qed

lemma sh_quote_read:
  assumes "rest = [] \<or> hd rest \<noteq> APOS \<and> hd rest \<noteq> BACKSLASH"
  shows "sh_word False (sh_quote s @ rest) = Some (s, rest)"
proof -
  let ?body = "concat (map (\<lambda>c. if c = APOS then [APOS, BACKSLASH, APOS, APOS] else [c]) s) @ [APOS] @ rest"
  have "sh_word True ?body = Some (s @ [], rest)"
    by (rule sh_word_quoted [OF sh_word_end [OF assms]])
  moreover have "sh_quote s @ rest = APOS # ?body"
    by (simp add: sh_quote_def)
  moreover have "?body \<noteq> []"
    by simp
  ultimately show ?thesis
    by (cases ?body) simp_all
qed

lemma hexdigit_harmless: "is_ascii_hexdigit c \<Longrightarrow> c \<notin> {QUOTE, APOS, 37, 13, 10}"
  by (auto simp: is_ascii_hexdigit_def QUOTE_def APOS_def)

text \<open>An identifier is braces around hexadecimal digits and dashes.\<close>

lemma adapter_id_harmless:
  assumes "is_adapter_id b" "c \<in> set b"
  shows "c \<notin> {QUOTE, APOS, 37, 13, 10}"
proof -
  obtain i where i: "i < 38" "c = b ! i" and len: "length b = 38"
    using assms by (metis in_set_conv_nth is_adapter_id_def)
  show ?thesis
  proof (cases "i = 0 \<or> i = 37")
    case True
    then show ?thesis
      using assms(1) i by (auto simp: is_adapter_id_def QUOTE_def APOS_def)
  next
    case False
    let ?k = "i - 1"
    have "?k < 36" "1 + ?k = i"
      using False i(1) by arith+
    then have k: "?k < 36" "take 36 (drop 1 b) ! ?k = c"
      using i(2) len by simp_all
    then have "(?k, c) \<in> set (zip [0..<36] (take 36 (drop 1 b)))"
      using len by (auto simp: in_set_zip intro!: exI [of _ ?k])
    then have "if ?k \<in> {8, 13, 18, 23} then c = 45 else is_ascii_hexdigit c"
      using assms(1) unfolding is_adapter_id_def by blast
    then show ?thesis
      using hexdigit_harmless [of c] by (auto simp: QUOTE_def APOS_def split: if_splits)
  qed
qed

lemma join_with_set: "set (join_with s xs) \<subseteq> set s \<union> \<Union> (set (map set xs))"
  by (induction s xs rule: join_with.induct) auto

lemma ids_harmless:
  "c \<in> set (join_with (ascii '','') (map (\<lambda>i. [APOS] @ i @ [APOS]) (filter is_adapter_id adapters))) \<Longrightarrow> c \<notin> {QUOTE, 37, 13, 10}"
proof -
  assume "c \<in> set (join_with (ascii '','') (map (\<lambda>i. [APOS] @ i @ [APOS]) (filter is_adapter_id adapters)))"
  then have "c \<in> set (ascii '','') \<union> \<Union> (set (map set (map (\<lambda>i. [APOS] @ i @ [APOS]) (filter is_adapter_id adapters))))"
    using join_with_set by blast
  then consider "c \<in> set (ascii '','')" | "c = APOS" | i where "is_adapter_id i" "c \<in> set i"
    by (auto split: if_splits)
  then show ?thesis
    by cases (auto simp: ascii_def QUOTE_def APOS_def dest: adapter_id_harmless)
qed

text \<open>Text that contains no quotation mark, percent sign or line break.\<close>

definition plain_text :: "bytes \<Rightarrow> bool" where
  "plain_text s \<longleftrightarrow> (\<forall>c \<in> set s. c \<noteq> QUOTE \<and> c \<noteq> 37 \<and> c \<noteq> 13 \<and> c \<noteq> 10)"

lemma plain_text_append [simp]: "plain_text (a @ b) \<longleftrightarrow> plain_text a \<and> plain_text b"
  by (auto simp: plain_text_def)

lemma plain_no_quote: "plain_text s \<Longrightarrow> QUOTE \<notin> set s"
  by (auto simp: plain_text_def)

section \<open>The command line keeps its arguments\<close>

definition profiles_text :: "bool \<Rightarrow> bytes" where
  "profiles_text include_public = (if include_public then ascii ''private,domain,public'' else ascii ''private,domain'')"

lemma pieces_upto: "q \<notin> set a \<Longrightarrow> pieces q (a @ q # t) = a # pieces q t"
  by (simp add: pieces_append)

lemma pieces_netsh:
  assumes "QUOTE \<notin> set n" "QUOTE \<notin> set e" "QUOTE \<notin> set r" "\<forall>a \<in> {a1, a2, a3, a4, a5, a6}. QUOTE \<notin> set a"
  shows "pieces QUOTE (quoted n @ a1 @ quoted e @ a2 @ quoted n @ a3 @ quoted r @ a4 @ quoted n @ a5 @ quoted r @ a6 @ quoted e @ t)
    = [[], n, a1, e, a2, n, a3, r, a4, n, a5, r, a6, e] @ pieces QUOTE t"
  using assms by (simp add: pieces_upto)

lemma pieces_powershell:
  assumes "\<forall>a \<in> {a1, p, a2, s, a3}. QUOTE \<notin> set a"
  shows "pieces QUOTE (a1 @ quoted p @ a2 @ quoted s @ a3) = [a1, p, a2, s, a3]"
  using assms by (simp add: pieces_upto)

lemma plain_netsh:
  "plain_text (ascii ''netsh.exe'')" "plain_text (ascii '' advfirewall firewall delete rule name=all dir=in program='')"
  "plain_text (ascii '' & '')" "plain_text (ascii '' advfirewall firewall delete rule name='')" "plain_text RULE_NAME"
  "plain_text (ascii '' advfirewall firewall add rule name='')" "plain_text (ascii '' dir=in action=allow protocol=UDP program='')"
  "plain_text (ascii '' profile='')" "plain_text (profiles_text include_public)" "plain_text (ascii '' enable=yes || exit /b 1'')"
  by (simp_all add: plain_text_def ascii_def QUOTE_def RULE_NAME_def profiles_text_def)

lemma plain_powershell:
  "plain_text (ascii ''WindowsPowerShell'')" "plain_text (ascii ''v1.0'')" "plain_text (ascii ''powershell.exe'')"
  "plain_text (ascii '' -NoProfile -NonInteractive -Command '')" "plain_text (ascii ''$ids = @('')"
  "plain_text (ascii ''); foreach ($a in @(Get-NetAdapter -ErrorAction SilentlyContinue)) { if ($ids -contains $a.InterfaceGuid) { '')"
  "plain_text (ascii ''Set-NetConnectionProfile -InterfaceIndex $a.ifIndex -NetworkCategory Private -ErrorAction SilentlyContinue } }'')"
  "plain_text (ascii '' & exit /b 0'')" "plain_text [BACKSLASH]"
  by (simp_all add: plain_text_def ascii_def QUOTE_def BACKSLASH_def)

lemma plain_ids: "plain_text (join_with (ascii '','') (map (\<lambda>i. [APOS] @ i @ [APOS]) (filter is_adapter_id adapters)))"
  unfolding plain_text_def using ids_harmless by blast

lemmas plain_pieces = plain_netsh plain_powershell plain_ids

lemma safe_is_plain: "safe_in_command exe \<Longrightarrow> plain_text exe"
  by (simp add: safe_in_command_def plain_text_def)

section \<open>Global shortcuts\<close>

text \<open>
  A shortcut is its number in the library. \<open>HotkeyOs\<close>: the numbers registered with the operating system for SoundPush, and
  what the engine was told about the microphone, last first.
\<close>

datatype HotkeyKind = MuteKey | PushToTalkKey
datatype HotkeyError = HotkeyInvalid | HotkeyDuplicate | HotkeyUnavailable

record Slot =
  hs_accelerator :: "bytes option"
  hs_shortcut :: "nat option"
  hs_error :: "HotkeyError option"

record Hotkeys =
  hk_mute :: Slot
  hk_ptt :: Slot
  hk_registered :: "nat list"
  hk_told :: "bool list"

definition slot_default :: Slot where
  "slot_default = \<lparr>hs_accelerator = None, hs_shortcut = None, hs_error = None\<rparr>"

definition hotkeys_default :: Hotkeys where
  "hotkeys_default = \<lparr>hk_mute = slot_default, hk_ptt = slot_default, hk_registered = [], hk_told = []\<rparr>"

fun hk_slot :: "HotkeyKind \<Rightarrow> Hotkeys \<Rightarrow> Slot" where
  "hk_slot MuteKey h = hk_mute h"
| "hk_slot PushToTalkKey h = hk_ptt h"

fun hk_put :: "HotkeyKind \<Rightarrow> Slot \<Rightarrow> Hotkeys \<Rightarrow> Hotkeys" where
  "hk_put MuteKey sl h = h\<lparr>hk_mute := sl\<rparr>"
| "hk_put PushToTalkKey sl h = h\<lparr>hk_ptt := sl\<rparr>"

fun other_kind :: "HotkeyKind \<Rightarrow> HotkeyKind" where
  "other_kind MuteKey = PushToTalkKey"
| "other_kind PushToTalkKey = MuteKey"

text \<open>\<open>ok\<close>: the operating system registers a number now.\<close>

definition hotkey_replace :: "(nat \<Rightarrow> bool) \<Rightarrow> HotkeyKind \<Rightarrow> (bytes \<times> nat) option \<Rightarrow> Hotkeys \<Rightarrow> (HotkeyError + unit) \<times> Hotkeys" where
  "hotkey_replace ok kind parsed h =
     (let sl = hk_slot kind h
      in case parsed of
           Some (acc, sc) \<Rightarrow>
             if hs_shortcut sl = Some sc then (Inr (), hk_put kind (sl\<lparr>hs_accelerator := Some acc, hs_error := None\<rparr>) h)
             else if \<not> ok sc then (Inl HotkeyUnavailable, h)
             else (Inr (),
               (let gone = (case hs_shortcut sl of Some old \<Rightarrow> (\<lambda>n. n \<noteq> old) | None \<Rightarrow> (\<lambda>_. True))
                in (hk_put kind \<lparr>hs_accelerator = Some acc, hs_shortcut = Some sc, hs_error = None\<rparr> h)
                     \<lparr>hk_registered := filter gone (hk_registered h @ [sc]),
                      hk_told := (if kind = PushToTalkKey then True # hk_told h else hk_told h)\<rparr>))
         | None \<Rightarrow> (Inr (),
             (let gone = (case hs_shortcut sl of Some old \<Rightarrow> (\<lambda>n. n \<noteq> old) | None \<Rightarrow> (\<lambda>_. True))
              in (hk_put kind \<lparr>hs_accelerator = None, hs_shortcut = None, hs_error = None\<rparr> h)
                   \<lparr>hk_registered := filter gone (hk_registered h),
                    hk_told := (if kind = PushToTalkKey \<and> hs_accelerator sl \<noteq> None then False # hk_told h else hk_told h)\<rparr>)))"

text \<open>
  An accelerator in its normal form: the parts between plus signs, trimmed, without the empty ones. \<open>parse\<close>: the
  library, on the normal form.
\<close>

definition normal_accelerator :: "bytes \<Rightarrow> bytes" where
  "normal_accelerator acc = join_with [43] (filter (\<lambda>p. p \<noteq> []) (map trim (pieces 43 acc)))"

definition hotkey_parse :: "(bytes \<Rightarrow> nat option) \<Rightarrow> bytes \<Rightarrow> HotkeyError + bytes \<times> nat" where
  "hotkey_parse parse acc =
     (let normal = normal_accelerator acc
      in case parse normal of None \<Rightarrow> Inl HotkeyInvalid | Some sc \<Rightarrow> Inr (normal, sc))"

text \<open>\<open>map(parse).transpose()\<close>.\<close>

definition hotkey_wanted :: "(bytes \<Rightarrow> nat option) \<Rightarrow> bytes option \<Rightarrow> HotkeyError + (bytes \<times> nat) option" where
  "hotkey_wanted parse wanted =
     (case wanted of None \<Rightarrow> Inr None | Some acc \<Rightarrow> map_sum id Some (hotkey_parse parse acc))"

definition hotkey_use :: "(nat \<Rightarrow> bool) \<Rightarrow> HotkeyKind \<Rightarrow> (bytes \<times> nat) option \<Rightarrow> Hotkeys \<Rightarrow> (HotkeyError + unit) \<times> Hotkeys" where
  "hotkey_use ok kind parsed h =
     (if (case parsed of Some (_, sc) \<Rightarrow> hs_shortcut (hk_slot (other_kind kind) h) = Some sc | None \<Rightarrow> False) then (Inl HotkeyDuplicate, h)
      else hotkey_replace ok kind parsed h)"

definition hotkey_set :: "(bytes \<Rightarrow> nat option) \<Rightarrow> (nat \<Rightarrow> bool) \<Rightarrow> HotkeyKind \<Rightarrow> bytes option \<Rightarrow> Hotkeys \<Rightarrow> (HotkeyError + unit) \<times> Hotkeys" where
  "hotkey_set parse ok kind wanted h =
     (case hotkey_wanted parse wanted of Inl e \<Rightarrow> (Inl e, h) | Inr parsed \<Rightarrow> hotkey_use ok kind parsed h)"

definition hotkey_apply_one :: "(bytes \<Rightarrow> nat option) \<Rightarrow> (nat \<Rightarrow> bool) \<Rightarrow> HotkeyKind \<times> bytes option \<Rightarrow> Hotkeys \<Rightarrow> Hotkeys" where
  "hotkey_apply_one parse ok = (\<lambda>(kind, wanted) h.
     (let parsed = hotkey_wanted parse wanted
      in if (case parsed of Inr w \<Rightarrow> map_option fst w = hs_accelerator (hk_slot kind h) | Inl _ \<Rightarrow> False) then h
         else (let (result, h') = (case parsed of Inl e \<Rightarrow> (Inl e, h) | Inr w \<Rightarrow> hotkey_use ok kind w h)
               in case result of Inl e \<Rightarrow> hk_put kind ((hk_slot kind h')\<lparr>hs_error := Some e\<rparr>) h' | Inr _ \<Rightarrow> h')))"

definition hotkey_apply :: "(bytes \<Rightarrow> nat option) \<Rightarrow> (nat \<Rightarrow> bool) \<Rightarrow> bytes option \<Rightarrow> bytes option \<Rightarrow> Hotkeys \<Rightarrow> Hotkeys" where
  "hotkey_apply parse ok mute ptt h =
     fold (hotkey_apply_one parse ok) [(MuteKey, mute), (PushToTalkKey, ptt)] h"

text \<open>What pressing and releasing a registered shortcut tells the engine.\<close>

definition on_shortcut :: "nat \<Rightarrow> bool \<Rightarrow> bool \<Rightarrow> Hotkeys \<Rightarrow> bool option" where
  "on_shortcut sc pressed mic_muted h =
     (let mute = (hs_shortcut (hk_mute h) = Some sc); ptt = (hs_shortcut (hk_ptt h) = Some sc)
      in if pressed \<and> mute then Some (\<not> mic_muted) else if pressed \<and> ptt then Some False
         else if \<not> pressed \<and> ptt then Some True else None)"

text \<open>
  Registered is exactly what the slots hold, once each; a slot has a number exactly if it has an accelerator; and the
  last word to the engine is that the microphone is muted exactly while there is a push-to-talk shortcut.
\<close>

definition ids_of :: "Hotkeys \<Rightarrow> nat set" where
  "ids_of h = set_option (hs_shortcut (hk_mute h)) \<union> set_option (hs_shortcut (hk_ptt h))"

definition hotkeys_ok :: "Hotkeys \<Rightarrow> bool" where
  "hotkeys_ok h \<longleftrightarrow> distinct (hk_registered h) \<and> set (hk_registered h) = ids_of h
     \<and> (hs_shortcut (hk_mute h) = None \<or> hs_shortcut (hk_mute h) \<noteq> hs_shortcut (hk_ptt h))
     \<and> (\<forall>kind. hs_accelerator (hk_slot kind h) = None \<longleftrightarrow> hs_shortcut (hk_slot kind h) = None)
     \<and> (hs_shortcut (hk_ptt h) \<noteq> None \<longleftrightarrow> hk_told h \<noteq> [] \<and> hd (hk_told h))"

lemma hk_all_kinds: "(\<forall>kind. P kind) \<longleftrightarrow> P MuteKey \<and> P PushToTalkKey"
  by (metis HotkeyKind.exhaust)

lemma hotkeys_ok_iff:
  "hotkeys_ok h \<longleftrightarrow> distinct (hk_registered h) \<and> set (hk_registered h) = ids_of h
     \<and> (hs_shortcut (hk_mute h) = None \<or> hs_shortcut (hk_mute h) \<noteq> hs_shortcut (hk_ptt h))
     \<and> (hs_accelerator (hk_mute h) = None \<longleftrightarrow> hs_shortcut (hk_mute h) = None)
     \<and> (hs_accelerator (hk_ptt h) = None \<longleftrightarrow> hs_shortcut (hk_ptt h) = None)
     \<and> (hs_shortcut (hk_ptt h) \<noteq> None \<longleftrightarrow> hk_told h \<noteq> [] \<and> hd (hk_told h))"
  by (auto simp: hotkeys_ok_def hk_all_kinds)

lemma hotkeys_ok_error:
  "hotkeys_ok h \<Longrightarrow> hotkeys_ok (hk_put kind ((hk_slot kind h)\<lparr>hs_error := e\<rparr>) h)"
  by (cases kind) (auto simp: hotkeys_ok_iff ids_of_def)

lemma hotkey_replace_none:
  assumes "hotkeys_ok h"
  shows "hotkeys_ok (snd (hotkey_replace ok kind None h))"
  using assms by (cases kind) (auto simp: hotkeys_ok_iff hotkey_replace_def ids_of_def Let_def split: option.splits)

lemma hotkey_replace_some:
  assumes "hotkeys_ok h" "hs_shortcut (hk_slot (other_kind kind) h) \<noteq> Some sc"
  shows "hotkeys_ok (snd (hotkey_replace ok kind (Some (acc, sc)) h))"
  using assms by (cases kind) (auto simp: hotkeys_ok_iff hotkey_replace_def ids_of_def Let_def split: option.splits)

lemma hotkey_use_ok:
  assumes "hotkeys_ok h"
  shows "hotkeys_ok (snd (hotkey_use ok kind parsed h))"
proof (cases parsed)
  case None
  then show ?thesis
    using hotkey_replace_none [OF assms] by (simp add: hotkey_use_def)
next
  case (Some p)
  obtain acc sc where "p = (acc, sc)"
    by fastforce
  then show ?thesis
    using Some hotkey_replace_some [OF assms, of kind sc] assms by (auto simp: hotkey_use_def)
qed

lemma hotkey_set_ok: "hotkeys_ok h \<Longrightarrow> hotkeys_ok (snd (hotkey_set parse ok kind wanted h))"
  by (simp add: hotkey_set_def hotkey_use_ok split: sum.split)

lemma hotkey_apply_one_ok:
  assumes "hotkeys_ok h"
  shows "hotkeys_ok (hotkey_apply_one parse ok kw h)"
proof -
  obtain kind wanted where kw: "kw = (kind, wanted)"
    by fastforce
  define res where "res = (case hotkey_wanted parse wanted of Inl e \<Rightarrow> (Inl e, h) | Inr w \<Rightarrow> hotkey_use ok kind w h)"
  obtain result h' where r: "res = (result, h')"
    by fastforce
  have "hotkeys_ok (snd res)"
    using assms hotkey_use_ok [OF assms] by (simp add: res_def split: sum.split)
  then have "hotkeys_ok h'"
    by (simp add: r)
  then have "hotkeys_ok (case result of Inl e \<Rightarrow> hk_put kind ((hk_slot kind h')\<lparr>hs_error := Some e\<rparr>) h' | Inr _ \<Rightarrow> h')"
    using hotkeys_ok_error by (simp split: sum.split)
  then show ?thesis
    using assms r unfolding kw hotkey_apply_one_def Let_def res_def by simp
qed

datatype HotkeyOp = SetHotkey HotkeyKind "bytes option" "nat \<Rightarrow> bool" | ApplyHotkeys "bytes option" "bytes option" "nat \<Rightarrow> bool"

fun hotkey_step :: "(bytes \<Rightarrow> nat option) \<Rightarrow> HotkeyOp \<Rightarrow> Hotkeys \<Rightarrow> Hotkeys" where
  "hotkey_step parse (SetHotkey kind wanted ok) h = snd (hotkey_set parse ok kind wanted h)"
| "hotkey_step parse (ApplyHotkeys mute ptt ok) h = hotkey_apply parse ok mute ptt h"

lemma hotkey_run_ok: "hotkeys_ok h \<Longrightarrow> hotkeys_ok (fold (hotkey_step parse) ops h)"
proof (induction ops arbitrary: h)
  case (Cons op ops)
  have "hotkeys_ok (hotkey_step parse op h)"
    using Cons.prems by (cases op) (simp_all add: hotkey_set_ok hotkey_apply_def hotkey_apply_one_ok)
  then show ?case
    using Cons.IH by simp
qed simp

section \<open>Bursts of events\<close>

datatype OsEvent = NetworkEvent | SuspendEvent | ResumeEvent | SessionEndingEvent bool

definition OS_SETTLE :: duration where "OS_SETTLE = from_millis 1500"
definition MAX_BURST :: duration where "MAX_BURST = from_secs 10"

text \<open>The rest of a burst: events with their times of arrival; what was taken, what is left, and when it ended.\<close>

fun take_burst :: "instant \<Rightarrow> instant \<Rightarrow> (instant \<times> OsEvent) list \<Rightarrow> OsEvent list \<times> (instant \<times> OsEvent) list \<times> instant" where
  "take_burst started now [] = ([], [], if now - started < MAX_BURST then now + OS_SETTLE else now)"
| "take_burst started now ((t, e) # rest) =
     (if now - started < MAX_BURST then
        if t \<le> now + OS_SETTLE
        then (let (es, left, finish) = take_burst started (max now t) rest in (e # es, left, finish))
        else ([], (t, e) # rest, now + OS_SETTLE)
      else ([], (t, e) # rest, now))"

lemma take_burst_splits:
  "take_burst started now evs = (es, left, finish) \<Longrightarrow> map snd evs = es @ map snd left \<and> length left \<le> length evs"
  by (induction started now evs arbitrary: es left finish rule: take_burst.induct)
    (fastforce split: if_splits prod.splits)+

lemma take_burst_finish:
  assumes "take_burst started now evs = (es, left, finish)" "started \<le> now" "now < started + MAX_BURST + OS_SETTLE"
  shows "now \<le> finish \<and> finish < started + MAX_BURST + OS_SETTLE"
  using assms
proof (induction started now evs arbitrary: es left finish rule: take_burst.induct)
  case (2 started now t e rest)
  show ?case
  proof (cases "now - started < MAX_BURST \<and> t \<le> now + OS_SETTLE")
    case True
    obtain es' where rest: "take_burst started (max now t) rest = (es', left, finish)"
      using "2.prems"(1) True by (auto split: prod.splits)
    show ?thesis
      using "2.IH" [OF _ _ rest] True "2.prems"(2,3) by auto
  next
    case False
    then show ?thesis
      using "2.prems" by (auto split: if_splits simp: OS_SETTLE_def)
  qed
qed (auto split: if_splits simp: OS_SETTLE_def)

text \<open>\<open>dispatch\<close>, the bursts one after another.\<close>

function os_dispatch :: "instant \<Rightarrow> (instant \<times> OsEvent) list \<Rightarrow> OsEvent list list" where
  "os_dispatch now [] = []"
| "os_dispatch now ((t, e) # rest) =
     (let (es, left, finish) = take_burst (max now t) (max now t) rest in (e # es) # os_dispatch finish left)"
  by pat_completeness auto
termination
proof (relation "measure (\<lambda>(now, evs). length evs)")
  fix now t :: instant and e :: OsEvent and rest :: "(instant \<times> OsEvent) list" and p q r u v
  assume "p = take_burst (max now t) (max now t) rest" "(q, r) = p" "(u, v) = r"
  then have "length u \<le> length rest"
    using take_burst_splits by metis
  then show "((v, u), now, (t, e) # rest) \<in> measure (\<lambda>(now, evs). length evs)"
    by simp
qed simp

definition burst_calls :: "OsEvent list \<Rightarrow> bool \<times> bool" where
  "burst_calls es = (let resumed = ResumeEvent \<in> set es in (resumed, NetworkEvent \<in> set es \<or> resumed))"

lemma os_dispatch_all: "concat (os_dispatch now evs) = map snd evs"
proof (induction now evs rule: os_dispatch.induct)
  case (2 now t e rest)
  obtain es left finish where b: "take_burst (max now t) (max now t) rest = (es, left, finish)"
    by (metis prod.collapse)
  then show ?case
    using "2.IH" [OF b [symmetric]] take_burst_splits [OF b] by simp
qed simp

section \<open>Adapters\<close>

record Adapter =
  ad_usb_tethering :: bool
  ad_vpn :: bool
  ad_label :: bytes
  ad_default_route :: bool
  ad_networks :: "(IpAddr \<times> u8) list"

record VpnStatus =
  vp_captures_internet :: bool
  vp_label :: "bytes option"

record TetheringStatus =
  tt_active :: bool
  tt_internet_via_phone :: bool
  tt_peers :: "bytes list"

definition evaluate_vpn :: "Adapter list \<Rightarrow> VpnStatus" where
  "evaluate_vpn adapters =
     (case find (\<lambda>a. ad_vpn a \<and> ad_default_route a) adapters of
        Some a \<Rightarrow> \<lparr>vp_captures_internet = True, vp_label = (if ad_label a = [] then None else Some (ad_label a))\<rparr>
      | None \<Rightarrow> \<lparr>vp_captures_internet = False, vp_label = None\<rparr>)"

unbundle bit_operations_syntax

definition same_network :: "IpAddr \<Rightarrow> IpAddr \<Rightarrow> u8 \<Rightarrow> bool" where
  "same_network a b pbits =
     (case (canonical a, canonical b) of
        (V4 x, V4 y) \<Rightarrow> 1 \<le> unat pbits \<and> unat pbits \<le> 32 \<and>
          (let mask = push_bit (32 - unat pbits) (- 1) in x AND mask = y AND mask)
      | (V6 x, V6 y) \<Rightarrow> 1 \<le> unat pbits \<and> unat pbits \<le> 128 \<and>
          (let mask = push_bit (128 - unat pbits) (- 1) in x AND mask = y AND mask)
      | _ \<Rightarrow> False)"

definition evaluate_tethering :: "Adapter list \<Rightarrow> (bytes \<times> IpAddr) list \<Rightarrow> TetheringStatus" where
  "evaluate_tethering adapters peers =
     (let tethering = filter ad_usb_tethering adapters
      in \<lparr>tt_active = (tethering \<noteq> []), tt_internet_via_phone = (\<exists>a \<in> set tethering. ad_default_route a),
          tt_peers = map fst (filter (\<lambda>(_, ip). \<exists>a \<in> set tethering. \<exists>(net, pbits) \<in> set (ad_networks a). same_network net ip pbits) peers)\<rparr>)"

lemma masked_equal:
  fixes x y :: "'a::len word"
  shows "x AND push_bit k (- 1) = y AND push_bit k (- 1) \<longleftrightarrow> drop_bit k x = drop_bit k y"
proof
  assume eq: "x AND push_bit k (- 1) = y AND push_bit k (- 1)"
  show "drop_bit k x = drop_bit k y"
  proof (rule bit_word_eqI)
    fix n assume "n < LENGTH('a)"
    show "bit (drop_bit k x) n = bit (drop_bit k y) n"
    proof (cases "k + n < LENGTH('a)")
      case True
      then show ?thesis
        using arg_cong [OF eq, of "\<lambda>w. bit w (k + n)"] by (simp add: bit_and_iff bit_push_bit_iff bit_drop_bit_eq bit_not_iff bit_mask_iff)
    next
      case False
      then show ?thesis
        by (simp add: bit_drop_bit_eq bit_imp_le_length) (metis bit_imp_le_length)
    qed
  qed
next
  assume eq: "drop_bit k x = drop_bit k y"
  show "x AND push_bit k (- 1) = y AND push_bit k (- 1)"
  proof (rule bit_word_eqI)
    fix n assume "n < LENGTH('a)"
    show "bit (x AND push_bit k (- 1)) n = bit (y AND push_bit k (- 1)) n"
    proof (cases "k \<le> n")
      case True
      then have "bit x n = bit y n"
        using arg_cong [OF eq, of "\<lambda>w. bit w (n - k)"] by (simp add: bit_drop_bit_eq)
      then show ?thesis
        by (simp add: bit_and_iff)
    qed (use \<open>n < LENGTH('a)\<close> in \<open>simp add: bit_and_iff bit_push_bit_iff bit_not_iff bit_mask_iff\<close>)
  qed
qed

section \<open>The pieces of the fix\<close>

definition netsh_end :: "bool \<Rightarrow> bytes" where
  "netsh_end include_public = ascii '' profile='' @ profiles_text include_public @ ascii '' enable=yes || exit /b 1''"

definition powershell_path :: "bytes \<Rightarrow> bytes" where
  "powershell_path system = system @ [BACKSLASH] @ ascii ''WindowsPowerShell'' @ [BACKSLASH] @ ascii ''v1.0'' @ [BACKSLASH] @ ascii ''powershell.exe''"

definition powershell_script :: "bytes list \<Rightarrow> bytes" where
  "powershell_script ids = ascii ''$ids = @('' @ join_with (ascii '','') (map (\<lambda>i. [APOS] @ i @ [APOS]) ids)
      @ ascii ''); foreach ($a in @(Get-NetAdapter -ErrorAction SilentlyContinue)) { if ($ids -contains $a.InterfaceGuid) { ''
      @ ascii ''Set-NetConnectionProfile -InterfaceIndex $a.ifIndex -NetworkCategory Private -ErrorAction SilentlyContinue } }''"

definition netsh_path :: "bytes \<Rightarrow> bytes" where
  "netsh_path system = system @ [BACKSLASH] @ ascii ''netsh.exe''"

definition command_end :: "bool \<Rightarrow> bytes list \<Rightarrow> bytes \<Rightarrow> bytes" where
  "command_end include_public ids system =
     (if ids = [] then netsh_end include_public
      else (netsh_end include_public @ ascii '' & '') @ quoted (powershell_path system) @ ascii '' -NoProfile -NonInteractive -Command ''
        @ quoted (powershell_script ids) @ ascii '' & exit /b 0'')"

lemma firewall_commands_line:
  "firewall_commands exe include_public adapters system =
      quoted (netsh_path system) @ ascii '' advfirewall firewall delete rule name=all dir=in program='' @ quoted exe @ ascii '' & ''
      @ quoted (netsh_path system) @ ascii '' advfirewall firewall delete rule name='' @ quoted RULE_NAME @ ascii '' & ''
      @ quoted (netsh_path system) @ ascii '' advfirewall firewall add rule name='' @ quoted RULE_NAME
      @ ascii '' dir=in action=allow protocol=UDP program='' @ quoted exe
      @ command_end include_public (filter is_adapter_id adapters) system"
  unfolding firewall_commands_def command_end_def netsh_end_def powershell_path_def powershell_script_def netsh_path_def
    profiles_text_def Let_def map_is_Nil_conv
  by (cases "filter is_adapter_id adapters = []") (simp_all only: if_True if_False append_assoc simp_thms)

lemma plain_paths:
  assumes "plain_text system"
  shows "plain_text (netsh_path system)" "plain_text (powershell_path system)"
    "plain_text (powershell_script (filter is_adapter_id adapters))" "plain_text (netsh_end include_public)"
    "plain_text (netsh_end include_public @ ascii '' & '')"
  unfolding netsh_path_def powershell_path_def powershell_script_def netsh_end_def plain_text_append
  using assms plain_pieces by blast+

lemma pieces_command_end:
  fixes adapters :: "bytes list"
  assumes "plain_text system"
  defines "ids \<equiv> filter is_adapter_id adapters"
  shows "pieces QUOTE (command_end include_public ids system) =
    (if ids = [] then [netsh_end include_public]
     else [netsh_end include_public @ ascii '' & '', powershell_path system, ascii '' -NoProfile -NonInteractive -Command '',
       powershell_script ids, ascii '' & exit /b 0''])"
proof -
  have "\<forall>a \<in> {netsh_end include_public @ ascii '' & '', powershell_path system, ascii '' -NoProfile -NonInteractive -Command '',
      powershell_script ids, ascii '' & exit /b 0''}. QUOTE \<notin> set a"
    using plain_paths [OF assms(1)] plain_pieces plain_no_quote unfolding ids_def by blast
  moreover have "QUOTE \<notin> set (netsh_end include_public)"
    using plain_paths(4) [OF assms(1)] plain_no_quote by blast
  ultimately show ?thesis
    unfolding command_end_def by (simp only: pieces_powershell pieces_free split: if_split) simp
qed

definition one_line :: "bytes \<Rightarrow> bool" where
  "one_line s \<longleftrightarrow> (\<forall>c \<in> set s. c \<noteq> 37 \<and> c \<noteq> 13 \<and> c \<noteq> 10)"

lemma one_line_append [simp]: "one_line (a @ b) \<longleftrightarrow> one_line a \<and> one_line b"
  by (auto simp: one_line_def)

lemma one_line_plain: "plain_text s \<Longrightarrow> one_line s"
  by (simp add: plain_text_def one_line_def)

lemma one_line_quote: "one_line [QUOTE]"
  by (simp add: one_line_def QUOTE_def)

lemma one_line_commands:
  assumes "safe_in_command exe" "plain_text system"
  shows "one_line (firewall_commands exe include_public adapters system)"
proof -
  have tail: "one_line (command_end include_public (filter is_adapter_id adapters) system)"
    unfolding command_end_def
    using plain_paths [OF assms(2), THEN one_line_plain] plain_pieces [THEN one_line_plain] one_line_quote
    by (simp only: one_line_append split: if_split) blast
  show ?thesis
    unfolding firewall_commands_line one_line_append
    using tail plain_paths(1) [OF assms(2), THEN one_line_plain] plain_netsh [THEN one_line_plain] one_line_quote
      safe_is_plain [OF assms(1), THEN one_line_plain] by blast
qed

section \<open>Guarantees\<close>

text \<open>
  Whatever the path of the program and the names the operating system gives its adapters: a fix either refuses, or runs
  a command line whose quotation marks fall exactly where the template has them, so the program path is an argument
  as it stands and the tools are named by their absolute paths; nothing in it is expanded from the environment or
  ends a line; and only well-formed adapter identifiers are in it.
\<close>

theorem elevated_command_as_written:
  assumes "safe_in_command exe" "plain_text system"
  shows "pieces QUOTE (firewall_commands exe include_public adapters system) =
      [[], netsh_path system, ascii '' advfirewall firewall delete rule name=all dir=in program='', exe, ascii '' & '',
       netsh_path system, ascii '' advfirewall firewall delete rule name='', RULE_NAME, ascii '' & '',
       netsh_path system, ascii '' advfirewall firewall add rule name='', RULE_NAME,
       ascii '' dir=in action=allow protocol=UDP program='', exe]
      @ (if filter is_adapter_id adapters = [] then [netsh_end include_public]
         else [netsh_end include_public @ ascii '' & '', powershell_path system, ascii '' -NoProfile -NonInteractive -Command '',
           powershell_script (filter is_adapter_id adapters), ascii '' & exit /b 0''])
    \<and> one_line (firewall_commands exe include_public adapters system)"
proof -
  have args: "QUOTE \<notin> set (netsh_path system)" "QUOTE \<notin> set exe" "QUOTE \<notin> set RULE_NAME"
    using plain_paths(1) [OF assms(2)] safe_is_plain [OF assms(1)] plain_netsh(5) plain_no_quote by blast+
  have lits: "\<forall>a \<in> {ascii '' advfirewall firewall delete rule name=all dir=in program='', ascii '' & '',
      ascii '' advfirewall firewall delete rule name='', ascii '' & '', ascii '' advfirewall firewall add rule name='',
      ascii '' dir=in action=allow protocol=UDP program=''}. QUOTE \<notin> set a"
    using plain_netsh plain_no_quote by blast
  show ?thesis
    using one_line_commands [OF assms] pieces_netsh [OF args lits]
    unfolding firewall_commands_line by (simp only: pieces_command_end [OF assms(2)] simp_thms)
qed

text \<open>A path quoted for the shell is read back as that path, with any byte in it.\<close>

theorem sh_quote_roundtrip:
  assumes "rest = [] \<or> hd rest \<noteq> APOS \<and> hd rest \<noteq> BACKSLASH"
  shows "sh_word False (sh_quote s @ rest) = Some (s, rest)"
  by (rule sh_quote_read [OF assms])

text \<open>
  Over every sequence of settings the shortcuts registered with the operating system are exactly the two slots', never the same for
  both, and the engine was last told to mute exactly if there is a push-to-talk shortcut: it starts muted, and
  taking it away gives the microphone back.
\<close>

theorem hotkeys_consistent:
  "hotkeys_ok (fold (hotkey_step parse) ops hotkeys_default)"
  by (rule hotkey_run_ok) (simp add: hotkeys_ok_iff hotkeys_default_def slot_default_def ids_of_def)

text \<open>
  Every event is handled in exactly one burst, in order, and however fast events follow each other a burst is acted
  on less than 11.5 seconds after its first event.
\<close>

theorem os_bursts_end:
  assumes "take_burst now now evs = (es, left, finish)"
  shows "concat (os_dispatch now0 evs0) = map snd evs0 \<and> now \<le> finish \<and> finish < now + MAX_BURST + OS_SETTLE"
  using take_burst_finish [OF assms] os_dispatch_all by (simp add: MAX_BURST_def from_secs_def)

text \<open>Two addresses are in one network exactly if their first bits, as many as the prefix has, are the same.\<close>

theorem same_network_first_bits:
  "same_network a b p \<longleftrightarrow>
     (\<exists>x y. canonical a = V4 x \<and> canonical b = V4 y \<and> unat p \<in> {1..32} \<and> drop_bit (32 - unat p) x = drop_bit (32 - unat p) y)
   \<or> (\<exists>x y. canonical a = V6 x \<and> canonical b = V6 y \<and> unat p \<in> {1..128} \<and> drop_bit (128 - unat p) x = drop_bit (128 - unat p) y)"
  unfolding same_network_def Let_def masked_equal by (auto split: IpAddr.split)

end
