(* ===== verification/Platform_Text.thy ===== *)
theory Platform_Text
  imports Desktop_Shell
begin

text \<open>
  Text of the operating system that the desktop application reads: the devices of \<open>adb\<close> (\<open>usb.rs\<close>), the routing table, the
  names of adapters and the hardware ports (\<open>tethering.rs\<close>).
\<close>

section \<open>Lines and words\<close>

definition to_ascii_lowercase :: "bytes \<Rightarrow> bytes" where
  "to_ascii_lowercase = map (\<lambda>c. if 65 \<le> c \<and> c \<le> 90 then c + 32 else c)"

text \<open>\<open>str::lines\<close>: a last line end starts no line, a carriage return before a line end is not part of the line.\<close>

definition without_cr :: "bytes \<Rightarrow> bytes" where
  "without_cr l = (if l \<noteq> [] \<and> last l = 13 then butlast l else l)"

definition str_lines :: "bytes \<Rightarrow> bytes list" where
  "str_lines t =
     (let ps = pieces 10 t
      in map without_cr (butlast ps) @ (if last ps = [] then [] else [last ps]))"

text \<open>\<open>split_whitespace\<close>, with the word read so far.\<close>

function words_from :: "bytes \<Rightarrow> bytes \<Rightarrow> bytes list" where
  "words_from w s =
     (if s = [] then (if w = [] then [] else [w])
      else if ws_width s = 0 then words_from (w @ [hd s]) (tl s)
      else (if w = [] then [] else [w]) @ words_from [] (drop (ws_width s) s))"
  by pat_completeness auto
termination
  by (relation "measure (\<lambda>(w, s). length s)") auto

declare words_from.simps [simp del]

definition split_whitespace :: "bytes \<Rightarrow> bytes list" where
  "split_whitespace s = words_from [] s"

definition strip_prefix :: "bytes \<Rightarrow> bytes \<Rightarrow> bytes option" where
  "strip_prefix p s = (if take (length p) s = p then Some (drop (length p) s) else None)"

text \<open>\<open>from_str_radix\<close> for 32 bits: one plus sign is taken, digits follow, more than 32 bits are an error.\<close>

definition radix_digit :: "nat \<Rightarrow> u8 \<Rightarrow> nat option" where
  "radix_digit radix c = (case hex_digit c of Some d \<Rightarrow> if d < radix then Some d else None | None \<Rightarrow> None)"

primrec read_digits :: "nat \<Rightarrow> nat \<Rightarrow> bytes \<Rightarrow> nat option" where
  "read_digits radix n [] = Some n"
| "read_digits radix n (c # s) =
     (case radix_digit radix c of
        None \<Rightarrow> None
      | Some d \<Rightarrow> if n * radix + d < 2 ^ 32 then read_digits radix (n * radix + d) s else None)"

definition parse_u32 :: "nat \<Rightarrow> bytes \<Rightarrow> nat option" where
  "parse_u32 radix s = (let t = (case s of c # d # r \<Rightarrow> if c = 43 then d # r else s | _ \<Rightarrow> s) in if t = [] then None else read_digits radix 0 t)"

section \<open>Devices on the cable\<close>

record UsbDevice =
  ud_serial :: bytes
  ud_model :: bytes
  ud_authorized :: bool

definition usb_line :: "bytes \<Rightarrow> UsbDevice option" where
  "usb_line line =
     (case split_whitespace line of
        serial # state # parts \<Rightarrow>
          if \<not> valid_serial serial \<or> state \<notin> {ascii ''device'', ascii ''unauthorized''} then None
          else Some \<lparr>ud_serial = serial,
                 ud_model = (case List.map_filter (strip_prefix (ascii ''model:'')) parts of
                               md # _ \<Rightarrow> map (\<lambda>c. if c = 95 then 32 else c) md
                             | [] \<Rightarrow> serial),
                 ud_authorized = (state = ascii ''device'')\<rparr>
      | _ \<Rightarrow> None)"

definition parse_devices :: "bytes \<Rightarrow> UsbDevice list" where
  "parse_devices output =
     List.map_filter usb_line (drop 1 (dropWhile (\<lambda>l. strip_prefix (ascii ''List of devices'') l = None) (str_lines output)))"

text \<open>The arguments of \<open>adb\<close> for a forward, or the refusal; \<open>port_text\<close>: the decimal form of a port.\<close>

definition usb_forward :: "(nat \<Rightarrow> bytes) \<Rightarrow> bool \<Rightarrow> bytes \<Rightarrow> nat \<Rightarrow> nat \<Rightarrow> bytes + bytes list" where
  "usb_forward port_text adb_found serial phone_port tcp_port =
     (if \<not> valid_serial serial then Inl (ascii ''invalid device'')
      else if tcp_port = 0 \<or> phone_port = 0 then Inl (ascii ''USB connections are unavailable (no TCP listener)'')
      else if \<not> adb_found then Inl (ascii ''adb not found'')
      else Inr [ascii ''-s'', serial, ascii ''reverse'', ascii ''tcp:'' @ port_text phone_port, ascii ''tcp:'' @ port_text tcp_port])"

section \<open>Adapters by name\<close>

definition VPN_NAMES :: "bytes list" where
  "VPN_NAMES = map ascii
     [''tap-windows'', ''tap-nordvpn'', ''wireguard'', ''openvpn'', ''nordlynx'', ''mullvad'', ''protonvpn'', ''expressvpn'', ''surfshark'',
      ''cyberghost'', ''private internet access'', ''anyconnect'', ''pulse secure'', ''globalprotect'', ''forticlient'', ''sonicwall'',
      ''tailscale'', ''zerotier'', ''hamachi'', ''tun'', ''tap'', ''ppp'', ''utun'', ''ipsec'', ''wg'']"

definition SHORT_VPN_NAMES :: "bytes list" where
  "SHORT_VPN_NAMES = map ascii [''tun'', ''tap'', ''ppp'', ''utun'', ''ipsec'', ''wg'']"

definition looks_like_vpn :: "bytes \<Rightarrow> bool" where
  "looks_like_vpn text0 =
     (let t = to_ascii_lowercase (trim text0)
      in \<exists>needle \<in> set VPN_NAMES.
           if needle \<in> set SHORT_VPN_NAMES
           then (case strip_prefix needle t of
                   Some rest \<Rightarrow> rest \<noteq> [] \<and> (\<forall>c \<in> set rest. (48 \<le> c \<and> c \<le> 57) \<or> c = 45 \<or> c = 95)
                 | None \<Rightarrow> False)
           else sublist needle t)"

definition windows_description_is_tethering :: "bytes \<Rightarrow> bool" where
  "windows_description_is_tethering description =
     (\<exists>k \<in> set (map ascii [''remote ndis'', ''rndis'', ''usbncm'', ''ncm host'', ''apple mobile device ethernet'']).
        sublist k (to_ascii_lowercase description))"

definition linux_driver_is_tethering :: "bytes \<Rightarrow> bytes \<Rightarrow> bool" where
  "linux_driver_is_tethering driver product0 =
     (if driver = ascii ''rndis_host'' \<or> driver = ascii ''ipheth'' then True
      else if driver = ascii ''cdc_ncm''
      then \<not> (\<exists>k \<in> set (map ascii [''dock'', ''hub'', ''ethernet'', ''lan'', ''adapter'']). sublist k (to_ascii_lowercase product0))
      else False)"

definition macos_port_is_tethering :: "bytes \<Rightarrow> bool" where
  "macos_port_is_tethering port =
     (let p = to_ascii_lowercase port
      in sublist (ascii ''iphone usb'') p \<or> sublist (ascii ''rndis'') p \<or> sublist (ascii ''android'') p)"

section \<open>The default route\<close>

definition route_line :: "bytes \<Rightarrow> (nat \<times> bytes) option" where
  "route_line line =
     (let f = split_whitespace line
      in if length f \<le> 7 then None
         else (case parse_u32 16 (f ! 3) of
                 None \<Rightarrow> None
               | Some flags \<Rightarrow>
                   if flags mod 2 \<noteq> 1 \<or> f ! 1 \<noteq> ascii ''00000000'' \<or> f ! 7 \<noteq> ascii ''00000000'' then None
                   else map_option (\<lambda>metric. (metric, f ! 0)) (parse_u32 10 (f ! 6))))"

fun bytes_le :: "bytes \<Rightarrow> bytes \<Rightarrow> bool" where
  "bytes_le [] _ = True"
| "bytes_le (_ # _) [] = False"
| "bytes_le (a # x) (b # y) = (a < b \<or> a = b \<and> bytes_le x y)"

definition route_le :: "nat \<times> bytes \<Rightarrow> nat \<times> bytes \<Rightarrow> bool" where
  "route_le = (\<lambda>(m, i) (n, j). m < n \<or> m = n \<and> bytes_le i j)"

text \<open>\<open>Iterator::min\<close>: of equal elements the first.\<close>

primrec min_route :: "(nat \<times> bytes) list \<Rightarrow> (nat \<times> bytes) option" where
  "min_route [] = None"
| "min_route (r # rs) = Some (fold (\<lambda>x best. if route_le best x then best else x) rs r)"

definition default_routes :: "bytes \<Rightarrow> (nat \<times> bytes) list" where
  "default_routes table = List.map_filter route_line (drop 1 (str_lines table))"

definition default_route_interface :: "bytes \<Rightarrow> bytes option" where
  "default_route_interface table = map_option snd (min_route (default_routes table))"

section \<open>Hardware ports\<close>

text \<open>The name of a port waits for the device on the very next line: any other line takes it away.\<close>

primrec ports_from :: "bytes option \<Rightarrow> bytes list \<Rightarrow> (bytes \<times> bytes) list" where
  "ports_from port [] = []"
| "ports_from port (line # ls) =
     (case strip_prefix (ascii ''Hardware Port: '') line of
        Some n \<Rightarrow> ports_from (Some (trim n)) ls
      | None \<Rightarrow>
          (case (strip_prefix (ascii ''Device: '') line, port) of
             (Some device, Some n) \<Rightarrow> (n, trim device) # ports_from None ls
           | _ \<Rightarrow> ports_from None ls))"

definition parse_hardware_ports :: "bytes \<Rightarrow> (bytes \<times> bytes) list" where
  "parse_hardware_ports t = ports_from None (str_lines t)"

section \<open>Facts\<close>

lemma in_map_filter: "y \<in> set (List.map_filter f xs) \<longleftrightarrow> (\<exists>x \<in> set xs. f x = Some y)"
  by (force simp: List.map_filter_def)

lemma usb_line_serial: "usb_line line = Some d \<Longrightarrow> valid_serial (ud_serial d)"
  by (auto simp: usb_line_def split: list.splits if_splits)

lemma route_le_metric: "route_le a b \<Longrightarrow> fst a \<le> fst b"
  by (auto simp: route_le_def split: prod.splits)

lemma route_not_le_metric: "\<not> route_le a b \<Longrightarrow> fst b \<le> fst a"
  by (auto simp: route_le_def split: prod.splits)

lemma fold_min_route:
  "fold (\<lambda>x best. if route_le best x then best else x) rs r \<in> set (r # rs)
   \<and> (\<forall>x \<in> set (r # rs). fst (fold (\<lambda>x best. if route_le best x then best else x) rs r) \<le> fst x)"
proof (induction rs arbitrary: r)
  case (Cons x rs)
  show ?case
  proof (cases "route_le r x")
    case True
    then show ?thesis
      using Cons.IH [of r] route_le_metric [OF True] by auto
  next
    case False
    then show ?thesis
      using Cons.IH [of x] route_not_le_metric [OF False] by auto
  qed
qed simp

text \<open>Lines with their ends are read back.\<close>

definition unlines :: "bytes list \<Rightarrow> bytes" where
  "unlines ls = concat (map (\<lambda>l. l @ [10]) ls)"

lemma pieces_unlines: "\<forall>l \<in> set ls. 10 \<notin> set l \<Longrightarrow> pieces 10 (unlines ls) = ls @ [[]]"
  by (induction ls) (simp_all add: unlines_def pieces_upto)

lemma str_lines_unlines:
  assumes "\<forall>l \<in> set ls. 10 \<notin> set l \<and> (l = [] \<or> last l \<noteq> 13)"
  shows "str_lines (unlines ls) = ls"
  using assms pieces_unlines [of ls] by (auto simp: str_lines_def without_cr_def intro!: map_idI)

text \<open>The text of \<open>networksetup\<close>: name, device and address of each port, and an empty line.\<close>

definition port_lines :: "bytes \<times> bytes \<times> bytes \<Rightarrow> bytes list" where
  "port_lines = (\<lambda>(n, d, address). [[], ascii ''Hardware Port: '' @ n, ascii ''Device: '' @ d, ascii ''Ethernet Address: '' @ address])"

lemma strip_prefix_append [simp]: "strip_prefix p (p @ s) = Some s"
  by (simp add: strip_prefix_def)

lemma ports_from_lines:
  assumes "\<forall>(n, d, address) \<in> set ps. trim n = n \<and> trim d = d"
  shows "ports_from None (concat (map port_lines ps)) = map (\<lambda>(n, d, address). (n, d)) ps"
  using assms
proof (induction ps)
  case (Cons p ps)
  obtain n d address where p: "p = (n, d, address)"
    by (metis prod.collapse)
  have "strip_prefix (ascii ''Hardware Port: '') (ascii ''Device: '' @ x) = None"
    "strip_prefix (ascii ''Hardware Port: '') (ascii ''Ethernet Address: '' @ x) = None"
    "strip_prefix (ascii ''Device: '') (ascii ''Ethernet Address: '' @ x) = None"
    "strip_prefix (ascii ''Hardware Port: '') [] = None" "strip_prefix (ascii ''Device: '') [] = None" for x
    by (simp_all add: strip_prefix_def ascii_def)
  then show ?case
    using Cons by (simp add: p port_lines_def)
qed simp

section \<open>Guarantees\<close>

text \<open>Only devices whose serial number holds nothing but harmless characters are listed, and only such are handed to \<open>adb\<close>.\<close>

theorem usb_serials_valid:
  "(\<forall>d \<in> set (parse_devices output). valid_serial (ud_serial d))
   \<and> (\<forall>args. usb_forward port_text adb_found serial phone_port tcp_port = Inr args \<longrightarrow>
        valid_serial serial \<and> args = [ascii ''-s'', serial, ascii ''reverse'', ascii ''tcp:'' @ port_text phone_port, ascii ''tcp:'' @ port_text tcp_port])"
  by (auto simp: parse_devices_def in_map_filter usb_forward_def dest: usb_line_serial split: if_splits)

text \<open>The default interface is that of a default route that is up and has the lowest metric; there is none only without such a route.\<close>

theorem default_route_lowest:
  "(default_route_interface table = Some i \<longrightarrow>
     (\<exists>m. (m, i) \<in> set (default_routes table) \<and> (\<forall>(n, j) \<in> set (default_routes table). m \<le> n)))
   \<and> (default_route_interface table = None \<longleftrightarrow> default_routes table = [])"
proof (cases "default_routes table")
  case (Cons r rs)
  let ?best = "fold (\<lambda>x best. if route_le best x then best else x) rs r"
  have found: "default_route_interface table = Some (snd ?best)"
    by (simp add: default_route_interface_def Cons)
  have least: "(fst ?best, snd ?best) \<in> set (default_routes table)" "\<forall>(n, j) \<in> set (default_routes table). fst ?best \<le> n"
    using fold_min_route [of rs r] by (auto simp: Cons)
  show ?thesis
  proof (intro conjI impI)
    assume "default_route_interface table = Some i"
    then have "i = snd ?best"
      using found by simp
    then show "\<exists>m. (m, i) \<in> set (default_routes table) \<and> (\<forall>(n, j) \<in> set (default_routes table). m \<le> n)"
      using least by blast
  next
    show "default_route_interface table = None \<longleftrightarrow> default_routes table = []"
      using found Cons by simp
  qed
qed (simp add: default_route_interface_def)

text \<open>The ports \<open>networksetup\<close> prints are read back, each with its device.\<close>

theorem hardware_ports_read_back:
  assumes "\<forall>(n, d, address) \<in> set ps. trim n = n \<and> trim d = d \<and> 10 \<notin> set (n @ d @ address) \<and> 13 \<notin> set (n @ d @ address)"
  shows "parse_hardware_ports (unlines (concat (map port_lines ps))) = map (\<lambda>(n, d, address). (n, d)) ps"
proof -
  have free: "10 \<notin> set l \<and> 13 \<notin> set l" if "p \<in> set ps" "l \<in> set (port_lines p)" for p l
  proof -
    obtain n d address where p: "p = (n, d, address)"
      by (metis prod.collapse)
    have "10 \<notin> set (n @ d @ address) \<and> 13 \<notin> set (n @ d @ address)"
      using assms that(1) p by auto
    then show ?thesis
      using that(2) by (auto simp: p port_lines_def ascii_def)
  qed
  have "\<forall>l \<in> set (concat (map port_lines ps)). 10 \<notin> set l \<and> (l = [] \<or> last l \<noteq> 13)"
  proof
    fix l assume "l \<in> set (concat (map port_lines ps))"
    then obtain p where "p \<in> set ps" "l \<in> set (port_lines p)"
      by auto
    then show "10 \<notin> set l \<and> (l = [] \<or> last l \<noteq> 13)"
      using free [of p l] by (metis last_in_set)
  qed
  then have "parse_hardware_ports (unlines (concat (map port_lines ps))) = ports_from None (concat (map port_lines ps))"
    unfolding parse_hardware_ports_def by (simp only: str_lines_unlines)
  then show ?thesis
    using ports_from_lines [of ps] assms by fastforce
qed

end
