(* ===== verification/Mobile_Audio.thy ===== *)
theory Mobile_Audio
  imports Format_Conversion Engine_State
begin

text \<open>
  The audio backend of the mobile application (\<open>sp-ffi/src/app_audio.rs\<close>): recorders of the platform feed every open
  capture stream, and playback goes through the fast path or is pulled by the platform, which may change while
  streams run. Opening a fast stream is the environment's answer; a pipeline's callback is an argument that gives
  samples and a new state.
\<close>

section \<open>Capture\<close>

record Feed =
  fd_id :: nat
  fd_converter :: CaptureConverter

text \<open>What each feed's callback gets, in order. None: a converter that does not end.\<close>

primrec push_feeds :: "rat list \<Rightarrow> Feed list \<Rightarrow> ((nat \<times> rat list) list \<times> Feed list) option" where
  "push_feeds scratch [] = Some ([], [])"
| "push_feeds scratch (fd # feeds) =
     Option.bind (capture_convert scratch (fd_converter fd)) (\<lambda>(converted, c).
       Option.bind (push_feeds scratch feeds) (\<lambda>(heard, feeds').
         Some ((fd_id fd, converted) # heard, fd\<lparr>fd_converter := c\<rparr> # feeds')))"

definition push_pcm16 :: "bytes \<Rightarrow> Feed list \<Rightarrow> ((nat \<times> rat list) list \<times> Feed list) option" where
  "push_pcm16 pcm feeds = (if feeds = [] then Some ([], []) else push_feeds (s16_to_f32 (le_words pcm)) feeds)"

section \<open>Playback\<close>

record StreamInfo =
  si_rate :: nat
  si_device_channels :: nat
  si_channels :: nat
  si_latency_ms :: nat

record 'cb RenderEntry =
  re_id :: nat
  re_target :: RenderTarget
  re_channels :: nat
  re_callback :: 'cb
  re_fast :: bool
  re_info :: StreamInfo

record 'cb MobileAudio =
  ma_app_audio :: "Feed list"
  ma_mic :: "Feed list"
  ma_entries :: "'cb RenderEntry list"
  ma_platform :: bool
  ma_duck :: rat
  ma_next_feed :: nat

definition PLATFORM_LATENCY_MS :: nat where "PLATFORM_LATENCY_MS = 40"
definition MAX_PULL_FRAMES :: nat where "MAX_PULL_FRAMES = 48000"
definition APP_AUDIO_DEVICE :: bytes where "APP_AUDIO_DEVICE = ascii ''android-app-audio''"

definition mobile_new :: "'cb MobileAudio" where
  "mobile_new = \<lparr>ma_app_audio = [], ma_mic = [], ma_entries = [], ma_platform = False, ma_duck = 1, ma_next_feed = 1\<rparr>"

definition apply_output_duck :: "rat \<Rightarrow> rat list \<Rightarrow> rat list" where
  "apply_output_duck gain out = (if gain < 1 then map (\<lambda>s. s * gain) out else out)"

definition platform_info :: "nat \<Rightarrow> StreamInfo" where
  "platform_info channels = \<lparr>si_rate = 48000, si_device_channels = 2, si_channels = channels, si_latency_ms = PLATFORM_LATENCY_MS\<rparr>"

text \<open>The callback of a fast stream: silence when a switch holds the lock.\<close>

definition fast_callback :: "(nat \<Rightarrow> 'cb \<Rightarrow> rat list \<times> 'cb) \<Rightarrow> bool \<Rightarrow> rat \<Rightarrow> nat \<Rightarrow> 'cb \<Rightarrow> rat list \<times> 'cb" where
  "fast_callback play locked gain n cb = (if locked then (replicate n 0, cb) else (let (out, cb') = play n cb in (apply_output_duck gain out, cb')))"

definition set_output_duck :: "f64 \<Rightarrow> 'cb MobileAudio \<Rightarrow> 'cb MobileAudio" where
  "set_output_duck gain a = a\<lparr>ma_duck := (case gain of FNum g \<Rightarrow> clamp g 0 1 | _ \<Rightarrow> 1)\<rparr>"

text \<open>\<open>opened\<close>: what opening the fast stream of an entry gives, if it opens.\<close>

definition set_platform_output :: "(nat \<Rightarrow> StreamInfo option) \<Rightarrow> bool \<Rightarrow> 'cb MobileAudio \<Rightarrow> 'cb MobileAudio" where
  "set_platform_output opened enabled a =
     (if ma_platform a = enabled then a
      else a\<lparr>ma_platform := enabled,
             ma_entries := map (\<lambda>e. if enabled then e\<lparr>re_fast := False, re_info := platform_info (re_channels e)\<rparr>
                else if re_fast e then e
                else (case opened (re_id e) of Some info \<Rightarrow> e\<lparr>re_info := info, re_fast := True\<rparr> | None \<Rightarrow> e)) (ma_entries a)\<rparr>)"

definition platform_output_active :: "'cb MobileAudio \<Rightarrow> bool" where
  "platform_output_active a = (\<exists>e \<in> set (ma_entries a). \<not> re_fast e)"

text \<open>One entry is added to the mix; one channel goes to both sides, of more than two the first two count.\<close>

primrec add_frames :: "nat \<Rightarrow> nat \<Rightarrow> rat list \<Rightarrow> rat list \<Rightarrow> rat list" where
  "add_frames ch 0 scratch mix = mix"
| "add_frames ch (Suc n) scratch mix =
     (let chunk = take ch scratch; l = chunk ! 0; r = (if ch = 1 then chunk ! 0 else chunk ! 1)
      in [mix ! 0 + l, mix ! 1 + r] @ add_frames ch n (drop ch scratch) (drop 2 mix))"

primrec mix_entries :: "(nat \<Rightarrow> 'cb \<Rightarrow> rat list \<times> 'cb) \<Rightarrow> nat \<Rightarrow> 'cb RenderEntry list \<Rightarrow> rat list \<Rightarrow> rat list \<times> 'cb RenderEntry list" where
  "mix_entries play frames [] mix = (mix, [])"
| "mix_entries play frames (e # es) mix =
     (if re_fast e then (let (mix', es') = mix_entries play frames es mix in (mix', e # es'))
      else (let ch = max (re_channels e) 1; (scratch, cb) = play (frames * ch) (re_callback e);
                (mix', es') = mix_entries play frames es (add_frames ch frames scratch mix)
            in (mix', e\<lparr>re_callback := cb\<rparr> # es')))"

definition pull_playback_pcm16 :: "(nat \<Rightarrow> 'cb \<Rightarrow> rat list \<times> 'cb) \<Rightarrow> nat \<Rightarrow> 'cb MobileAudio \<Rightarrow> bytes \<times> 'cb MobileAudio" where
  "pull_playback_pcm16 play frames0 a =
     (let frames = min frames0 MAX_PULL_FRAMES;
          (mix, es) = mix_entries play frames (ma_entries a) (replicate (frames * 2) 0)
      in (concat (map le_bytes (f32_to_s16 (apply_output_duck (ma_duck a) mix))), a\<lparr>ma_entries := es\<rparr>))"

section \<open>Opening and closing\<close>

definition open_feed :: "nat \<Rightarrow> nat \<Rightarrow> nat \<Rightarrow> Feed" where
  "open_feed fresh device_channels channels = \<lparr>fd_id = fresh, fd_converter = capture_converter_new 48000 device_channels channels\<rparr>"

text \<open>The stream of a recorder, if the source is one on this platform; the others are the inner backend's.\<close>

datatype Recorder = AppAudioRecorder | MicRecorder

fun open_slot :: "Recorder \<Rightarrow> nat \<Rightarrow> 'cb MobileAudio \<Rightarrow> (Recorder \<times> nat) \<times> 'cb MobileAudio" where
  "open_slot AppAudioRecorder channels a = ((AppAudioRecorder, ma_next_feed a),
     a\<lparr>ma_next_feed := ma_next_feed a + 1, ma_app_audio := ma_app_audio a @ [open_feed (ma_next_feed a) 2 channels]\<rparr>)"
| "open_slot MicRecorder channels a = ((MicRecorder, ma_next_feed a),
     a\<lparr>ma_next_feed := ma_next_feed a + 1, ma_mic := ma_mic a @ [open_feed (ma_next_feed a) 1 channels]\<rparr>)"

definition recorder_of :: "bool \<Rightarrow> CaptureSource \<Rightarrow> Recorder option" where
  "recorder_of android source =
     (if source = InputDevice APP_AUDIO_DEVICE then Some AppAudioRecorder
      else if android \<and> (case source of DefaultInput \<Rightarrow> True | InputDevice _ \<Rightarrow> True | _ \<Rightarrow> False) then Some MicRecorder
      else None)"

definition open_capture :: "bool \<Rightarrow> CaptureSource \<Rightarrow> nat \<Rightarrow> 'cb MobileAudio \<Rightarrow> (Recorder \<times> nat) option \<times> 'cb MobileAudio" where
  "open_capture android source channels a =
     (case recorder_of android source of
        Some rec \<Rightarrow> map_prod Some id (open_slot rec channels a)
      | None \<Rightarrow> (None, a))"

fun close_capture :: "Recorder \<times> nat \<Rightarrow> 'cb MobileAudio \<Rightarrow> 'cb MobileAudio" where
  "close_capture (AppAudioRecorder, i) a = a\<lparr>ma_app_audio := filter (\<lambda>fd. fd_id fd \<noteq> i) (ma_app_audio a)\<rparr>"
| "close_capture (MicRecorder, i) a = a\<lparr>ma_mic := filter (\<lambda>fd. fd_id fd \<noteq> i) (ma_mic a)\<rparr>"

fun push_recorder :: "Recorder \<Rightarrow> bytes \<Rightarrow> 'cb MobileAudio \<Rightarrow> ((nat \<times> rat list) list \<times> 'cb MobileAudio) option" where
  "push_recorder AppAudioRecorder pcm a =
     map_option (\<lambda>(heard, feeds). (heard, a\<lparr>ma_app_audio := feeds\<rparr>)) (push_pcm16 pcm (ma_app_audio a))"
| "push_recorder MicRecorder pcm a =
     map_option (\<lambda>(heard, feeds). (heard, a\<lparr>ma_mic := feeds\<rparr>)) (push_pcm16 pcm (ma_mic a))"

definition open_render :: "bool \<Rightarrow> StreamInfo option \<Rightarrow> RenderTarget \<Rightarrow> nat \<Rightarrow> 'cb \<Rightarrow> 'cb MobileAudio \<Rightarrow> nat option \<times> 'cb MobileAudio" where
  "open_render android opened target channels cb a =
     (let fast = (if ma_platform a then None else opened)
      in if \<not> ma_platform a \<and> opened = None \<and> \<not> android then (None, a)
         else (let fresh = ma_next_feed a
               in (Some fresh, a\<lparr>ma_next_feed := fresh + 1, ma_entries := ma_entries a @
                    [\<lparr>re_id = fresh, re_target = target, re_channels = channels, re_callback = cb, re_fast = (fast \<noteq> None),
                      re_info = (case fast of Some info \<Rightarrow> info | None \<Rightarrow> platform_info channels)\<rparr>]\<rparr>)))"

text \<open>Only the first entry with the handle's number is removed.\<close>

fun remove_entry :: "nat \<Rightarrow> 'cb RenderEntry list \<Rightarrow> 'cb RenderEntry list" where
  "remove_entry i [] = []"
| "remove_entry i (e # es) = (if re_id e = i then es else e # remove_entry i es)"

definition close_render :: "nat \<Rightarrow> 'cb MobileAudio \<Rightarrow> 'cb MobileAudio" where
  "close_render i a = a\<lparr>ma_entries := remove_entry i (ma_entries a)\<rparr>"

definition render_info :: "nat \<Rightarrow> 'cb MobileAudio \<Rightarrow> StreamInfo" where
  "render_info i a = (case find (\<lambda>e. re_id e = i) (ma_entries a) of Some e \<Rightarrow> re_info e | None \<Rightarrow> platform_info 2)"

section \<open>Runs\<close>

datatype MobileOp =
    OpenCapture CaptureSource nat
  | CloseCapture "Recorder \<times> nat"
  | Push Recorder bytes
  | OpenRender "StreamInfo option" RenderTarget nat
  | CloseRender nat
  | SetPlatform "nat \<Rightarrow> StreamInfo option" bool
  | SetDuck f64
  | Pull nat

text \<open>\<open>start\<close>: the callback state of a new stream.\<close>

fun mobile_step :: "bool \<Rightarrow> (nat \<Rightarrow> 'cb \<Rightarrow> rat list \<times> 'cb) \<Rightarrow> 'cb \<Rightarrow> MobileOp \<Rightarrow> 'cb MobileAudio \<Rightarrow> 'cb MobileAudio" where
  "mobile_step android play start (OpenCapture source channels) a = snd (open_capture android source channels a)"
| "mobile_step android play start (CloseCapture h) a = close_capture h a"
| "mobile_step android play start (Push rec pcm) a = (case push_recorder rec pcm a of Some (_, a') \<Rightarrow> a' | None \<Rightarrow> a)"
| "mobile_step android play start (OpenRender opened target channels) a = snd (open_render android opened target channels start a)"
| "mobile_step android play start (CloseRender i) a = close_render i a"
| "mobile_step android play start (SetPlatform opened enabled) a = set_platform_output opened enabled a"
| "mobile_step android play start (SetDuck gain) a = set_output_duck gain a"
| "mobile_step android play start (Pull n) a = snd (pull_playback_pcm16 play n a)"

definition mobile_run :: "bool \<Rightarrow> (nat \<Rightarrow> 'cb \<Rightarrow> rat list \<times> 'cb) \<Rightarrow> 'cb \<Rightarrow> MobileOp list \<Rightarrow> 'cb MobileAudio \<Rightarrow> 'cb MobileAudio" where
  "mobile_run android play start ops = fold (mobile_step android play start) ops"

section \<open>Feeds\<close>

text \<open>The recorders run at 48 kHz: no resampler, so every push reaches every feed.\<close>

definition feed_hears :: "rat list \<Rightarrow> Feed \<Rightarrow> nat \<times> rat list" where
  "feed_hears scratch fd = (fd_id fd,
     if cv_device_channels (fd_converter fd) = cv_out_channels (fd_converter fd) then scratch
     else downmix scratch (cv_device_channels (fd_converter fd)) (cv_out_channels (fd_converter fd)))"

lemma push_feeds_all:
  assumes "\<forall>fd \<in> set feeds. cv_resampler (fd_converter fd) = None"
  shows "push_feeds scratch feeds = Some (map (feed_hears scratch) feeds, feeds)"
  using assms by (induction feeds) (simp_all add: capture_convert_def feed_hears_def Let_def)

lemma push_pcm16_all:
  assumes "\<forall>fd \<in> set feeds. cv_resampler (fd_converter fd) = None"
  shows "push_pcm16 pcm feeds = Some (map (feed_hears (s16_to_f32 (le_words pcm))) feeds, feeds)"
  using push_feeds_all [OF assms] by (simp add: push_pcm16_def)

definition feeds_ok :: "nat \<Rightarrow> Feed list \<Rightarrow> bool" where
  "feeds_ok n feeds \<longleftrightarrow> distinct (map fd_id feeds) \<and> (\<forall>fd \<in> set feeds. fd_id fd < n \<and> cv_resampler (fd_converter fd) = None)"

lemma open_feed_ok: "feeds_ok n feeds \<Longrightarrow> feeds_ok (n + 1) (feeds @ [open_feed n d c])"
  by (auto simp: feeds_ok_def open_feed_def capture_converter_new_def Let_def SAMPLE_RATE_def)

lemma feeds_ok_later: "feeds_ok n feeds \<Longrightarrow> feeds_ok (n + 1) feeds"
  by (auto simp: feeds_ok_def)

lemma feeds_ok_closed: "feeds_ok n feeds \<Longrightarrow> feeds_ok n (filter P feeds)"
  by (auto simp: feeds_ok_def distinct_map_filter)

section \<open>Paths\<close>

definition mobile_ok :: "'cb MobileAudio \<Rightarrow> bool" where
  "mobile_ok a \<longleftrightarrow> feeds_ok (ma_next_feed a) (ma_app_audio a) \<and> feeds_ok (ma_next_feed a) (ma_mic a)
     \<and> distinct (map re_id (ma_entries a)) \<and> (\<forall>e \<in> set (ma_entries a). re_id e < ma_next_feed a)
     \<and> (ma_platform a \<longrightarrow> (\<forall>e \<in> set (ma_entries a). \<not> re_fast e)) \<and> 0 \<le> ma_duck a \<and> ma_duck a \<le> 1"

lemma remove_entry_subset: "set (remove_entry i es) \<subseteq> set es"
  by (induction es) auto

lemma remove_entry_filter: "distinct (map re_id es) \<Longrightarrow> remove_entry i es = filter (\<lambda>e. re_id e \<noteq> i) es"
proof (induction es)
  case (Cons e es)
  show ?case
  proof (cases "re_id e = i")
    case True
    then have "filter (\<lambda>x. re_id x \<noteq> i) es = es"
      using Cons.prems by (intro filter_True) (metis distinct.simps(2) list.set_map list.simps(9) rev_image_eqI)
    then show ?thesis
      using True by simp
  qed (use Cons in simp)
qed simp

text \<open>A pull asks every stream of the platform path once, and no other.\<close>

definition pulled :: "(nat \<Rightarrow> 'cb \<Rightarrow> rat list \<times> 'cb) \<Rightarrow> nat \<Rightarrow> 'cb RenderEntry \<Rightarrow> 'cb RenderEntry" where
  "pulled play frames e = (if re_fast e then e else e\<lparr>re_callback := snd (play (frames * max (re_channels e) 1) (re_callback e))\<rparr>)"

lemma mix_entries_pulled: "snd (mix_entries play frames es mix) = map (pulled play frames) es"
  by (induction es arbitrary: mix) (auto simp: pulled_def Let_def split_beta)

lemma pull_entries: "ma_entries (snd (pull_playback_pcm16 play n a)) = map (pulled play (min n MAX_PULL_FRAMES)) (ma_entries a)"
  by (simp add: pull_playback_pcm16_def Let_def split_beta mix_entries_pulled)

lemma pulled_same [simp]: "re_id (pulled play n e) = re_id e" "re_fast (pulled play n e) = re_fast e"
  by (simp_all add: pulled_def)

lemma pull_rest:
  "ma_next_feed (snd (pull_playback_pcm16 play n a)) = ma_next_feed a" "ma_app_audio (snd (pull_playback_pcm16 play n a)) = ma_app_audio a"
  "ma_mic (snd (pull_playback_pcm16 play n a)) = ma_mic a" "ma_platform (snd (pull_playback_pcm16 play n a)) = ma_platform a"
  "ma_duck (snd (pull_playback_pcm16 play n a)) = ma_duck a"
  by (simp_all add: pull_playback_pcm16_def Let_def split_beta)

lemma map_re_id_pulled [simp]: "map re_id (map (pulled play n) es) = map re_id es"
  by simp

lemma mobile_ok_capture:
  assumes "mobile_ok a"
  shows "mobile_ok (snd (open_capture android source channels a))" "mobile_ok (close_capture h a)"
    "mobile_ok (mobile_step android play start (Push rec pcm) a)"
proof -
  show "mobile_ok (snd (open_capture android source channels a))"
  proof (cases "recorder_of android source")
    case (Some rec)
    then show ?thesis
      using assms open_feed_ok [of "ma_next_feed a"] feeds_ok_later [of "ma_next_feed a"]
      by (cases rec) (auto simp: open_capture_def mobile_ok_def less_Suc_eq)
  qed (use assms in \<open>simp add: open_capture_def\<close>)
  obtain rec' i where h: "h = (rec', i)"
    by fastforce
  show "mobile_ok (close_capture h a)"
    using assms feeds_ok_closed by (cases rec') (auto simp: h mobile_ok_def)
  have "\<forall>fd \<in> set (ma_app_audio a). cv_resampler (fd_converter fd) = None" "\<forall>fd \<in> set (ma_mic a). cv_resampler (fd_converter fd) = None"
    using assms by (simp_all add: mobile_ok_def feeds_ok_def)
  then show "mobile_ok (mobile_step android play start (Push rec pcm) a)"
    using assms by (cases rec) (simp_all add: push_pcm16_all)
qed

lemma mobile_ok_render:
  assumes "mobile_ok a"
  shows "mobile_ok (snd (open_render android opened target channels start a))" "mobile_ok (close_render i a)"
    "mobile_ok (set_output_duck gain a)" "mobile_ok (snd (pull_playback_pcm16 play n a))"
proof -
  show "mobile_ok (snd (open_render android opened target channels start a))"
    using assms feeds_ok_later [of "ma_next_feed a"] by (auto simp: open_render_def mobile_ok_def Let_def less_Suc_eq)
  have "distinct (map re_id (ma_entries a))"
    using assms by (simp add: mobile_ok_def)
  then show "mobile_ok (close_render i a)"
    using assms by (auto simp: close_render_def mobile_ok_def remove_entry_filter distinct_map_filter)
  show "mobile_ok (set_output_duck gain a)"
    using assms clamp_bounds [of 0 "1 :: rat"] by (auto simp: set_output_duck_def mobile_ok_def split: f64.split)
  show "mobile_ok (snd (pull_playback_pcm16 play n a))"
    using assms by (auto simp: mobile_ok_def pull_entries pull_rest comp_def)
qed

lemma mobile_ok_switch:
  assumes "mobile_ok a"
  shows "mobile_ok (set_platform_output opened enabled a)"
proof -
  have ids: "map re_id (map (\<lambda>e. if enabled then e\<lparr>re_fast := False, re_info := platform_info (re_channels e)\<rparr>
       else if re_fast e then e
       else (case opened (re_id e) of Some info \<Rightarrow> e\<lparr>re_info := info, re_fast := True\<rparr> | None \<Rightarrow> e)) es) = map re_id es" for es :: "'a RenderEntry list"
    by (auto split: option.split)
  show ?thesis
    using assms ids [of "ma_entries a"]
    by (auto simp: set_platform_output_def mobile_ok_def simp del: map_map split: option.split)
qed

lemma mobile_run_ok:
  "mobile_ok a \<Longrightarrow> mobile_ok (mobile_run android play start ops a)"
proof (induction ops arbitrary: a)
  case (Cons op ops)
  have "mobile_ok (mobile_step android play start op a)"
    using Cons.prems mobile_ok_capture mobile_ok_render mobile_ok_switch by (cases op) (simp_all del: mobile_step.simps(3), auto)
  then show ?case
    using Cons.IH by (simp add: mobile_run_def)
qed (simp add: mobile_run_def)

section \<open>The mix\<close>

definition side_sample :: "nat \<Rightarrow> nat \<Rightarrow> rat list \<Rightarrow> rat" where
  "side_sample ch j scratch = scratch ! (ch * (j div 2) + (if ch = 1 then 0 else j mod 2))"

lemma add_frames_value:
  assumes "length mix = 2 * n" "length scratch = ch * n" "1 \<le> ch"
  shows "length (add_frames ch n scratch mix) = 2 * n
    \<and> (\<forall>j < 2 * n. add_frames ch n scratch mix ! j = mix ! j + side_sample ch j scratch)"
  using assms
proof (induction n arbitrary: scratch mix)
  case (Suc n)
  have IH: "length (add_frames ch n (drop ch scratch) (drop 2 mix)) = 2 * n"
    "\<And>j. j < 2 * n \<Longrightarrow> add_frames ch n (drop ch scratch) (drop 2 mix) ! j = drop 2 mix ! j + side_sample ch j (drop ch scratch)"
    using Suc.IH [of "drop 2 mix" "drop ch scratch"] Suc.prems by auto
  have "add_frames ch (Suc n) scratch mix ! j = mix ! j + side_sample ch j scratch" if "j < 2 * Suc n" for j
  proof (cases "j < 2")
    case True
    then have "j = 0 \<or> j = 1"
      by auto
    then show ?thesis
      using Suc.prems(3) by (auto simp: Let_def side_sample_def)
  next
    case False
    define i where "i = j - 2"
    then have j: "j = i + 2" "i < 2 * n"
      using that False by simp_all
    then have "add_frames ch (Suc n) scratch mix ! j = drop 2 mix ! i + side_sample ch i (drop ch scratch)"
      using IH(2) [of i] by (simp add: Let_def)
    moreover have "side_sample ch i (drop ch scratch) = side_sample ch j scratch"
      using Suc.prems(2) j by (simp add: side_sample_def algebra_simps)
    moreover have "drop 2 mix ! i = mix ! j"
      using Suc.prems(1) j by (simp add: add.commute)
    ultimately show ?thesis
      by simp
  qed
  then show ?case
    using IH(1) by (simp add: Let_def)
qed simp

text \<open>Callbacks fill the buffer they are given.\<close>

definition fills :: "(nat \<Rightarrow> 'cb \<Rightarrow> rat list \<times> 'cb) \<Rightarrow> bool" where
  "fills play \<longleftrightarrow> (\<forall>n cb. length (fst (play n cb)) = n)"

definition platform_share :: "(nat \<Rightarrow> 'cb \<Rightarrow> rat list \<times> 'cb) \<Rightarrow> nat \<Rightarrow> nat \<Rightarrow> 'cb RenderEntry \<Rightarrow> rat" where
  "platform_share play frames j e =
     (if re_fast e then 0
      else side_sample (max (re_channels e) 1) j (fst (play (frames * max (re_channels e) 1) (re_callback e))))"

lemma mix_entries_value:
  assumes "fills play" "length mix = 2 * frames"
  shows "length (fst (mix_entries play frames es mix)) = 2 * frames
    \<and> (\<forall>j < 2 * frames. fst (mix_entries play frames es mix) ! j = mix ! j + sum_list (map (platform_share play frames j) es))"
  using assms(2)
proof (induction es arbitrary: mix)
  case (Cons e es)
  show ?case
  proof (cases "re_fast e")
    case True
    then show ?thesis
      using Cons.IH [OF Cons.prems] by (simp add: platform_share_def split_beta)
  next
    case False
    let ?ch = "max (re_channels e) 1"
    obtain scratch cb where p: "play (frames * ?ch) (re_callback e) = (scratch, cb)"
      by fastforce
    have len: "length scratch = ?ch * frames"
      using assms(1) p unfolding fills_def by (metis fst_conv mult.commute)
    note added = add_frames_value [OF Cons.prems len, simplified]
    have "mix_entries play frames (e # es) mix
        = (fst (mix_entries play frames es (add_frames ?ch frames scratch mix)),
           e\<lparr>re_callback := cb\<rparr> # snd (mix_entries play frames es (add_frames ?ch frames scratch mix)))"
      using False p by (simp add: Let_def split_beta)
    then have fst_mix: "fst (mix_entries play frames (e # es) mix) = fst (mix_entries play frames es (add_frames ?ch frames scratch mix))"
      by simp
    have share: "platform_share play frames j e = side_sample ?ch j scratch" for j
      using False p by (simp add: platform_share_def)
    show ?thesis
      unfolding fst_mix using Cons.IH [of "add_frames ?ch frames scratch mix"] added
      by (simp add: share)
  qed
qed simp

lemma sint_pcm_range: "sint (w :: 16 word) < 2 ^ 15 \<and> - (2 ^ 15) \<le> sint w"
  using sint_lt [of w] sint_ge [of w] by simp

section \<open>Guarantees\<close>

text \<open>
  At every moment of every run streams have numbers of their own, every feed of a recorder hears all that the recorder
  pushes, and while the platform plays no stream runs on the fast path. A pull gives exactly the frames asked for, up
  to a second, mixed from the platform's streams and scaled by the ducking gain; it takes from each of those streams
  once and from no other. Switching to the platform moves every stream, and back every stream whose device opens.
\<close>

theorem mobile_playback_sound:
  fixes android :: bool and play :: "nat \<Rightarrow> 'cb \<Rightarrow> rat list \<times> 'cb" and start :: 'cb and ops :: "MobileOp list"
  assumes "fills play"
  defines "a \<equiv> mobile_run android play start ops (mobile_new :: 'cb MobileAudio)"
  shows "distinct (map re_id (ma_entries a))
    \<and> (ma_platform a \<longrightarrow> (\<forall>e \<in> set (ma_entries a). \<not> re_fast e))
    \<and> push_pcm16 pcm (ma_app_audio a) = Some (map (feed_hears (s16_to_f32 (le_words pcm))) (ma_app_audio a), ma_app_audio a)
    \<and> push_pcm16 pcm (ma_mic a) = Some (map (feed_hears (s16_to_f32 (le_words pcm))) (ma_mic a), ma_mic a)
    \<and> length (fst (pull_playback_pcm16 play n a)) = 4 * min n 48000
    \<and> le_words (fst (pull_playback_pcm16 play n a)) =
        f32_to_s16 (map (\<lambda>j. ma_duck a * sum_list (map (platform_share play (min n 48000) j) (ma_entries a))) [0..<2 * min n 48000])
    \<and> ma_entries (snd (pull_playback_pcm16 play n a)) = map (pulled play (min n 48000)) (ma_entries a)
    \<and> (\<forall>e \<in> set (ma_entries (set_platform_output opened True a)). \<not> re_fast e)
    \<and> ((\<forall>i. opened i \<noteq> None) \<and> ma_platform a \<longrightarrow> (\<forall>e \<in> set (ma_entries (set_platform_output opened False a)). re_fast e))"
proof -
  have "mobile_ok (mobile_new :: 'cb MobileAudio)"
    by (simp add: mobile_ok_def mobile_new_def feeds_ok_def)
  then have ok: "mobile_ok a"
    unfolding a_def by (rule mobile_run_ok)
  let ?frames = "min n 48000"
  let ?mix = "fst (mix_entries play ?frames (ma_entries a) (replicate (?frames * 2) 0))"
  have mix: "length ?mix = 2 * ?frames"
      "\<And>j. j < 2 * ?frames \<Longrightarrow> ?mix ! j = sum_list (map (platform_share play ?frames j) (ma_entries a))"
    using mix_entries_value [OF assms(1), of "replicate (?frames * 2) 0" ?frames "ma_entries a"] by auto
  have duck: "apply_output_duck (ma_duck a) ?mix = map (\<lambda>s. ma_duck a * s) ?mix"
    using ok by (auto simp: apply_output_duck_def mobile_ok_def mult.commute intro: map_idI [symmetric])
  have out: "fst (pull_playback_pcm16 play n a) = concat (map le_bytes (f32_to_s16 (apply_output_duck (ma_duck a) ?mix)))"
    by (simp add: pull_playback_pcm16_def MAX_PULL_FRAMES_def Let_def split_beta)
  have "map (\<lambda>s. ma_duck a * s) ?mix = map (\<lambda>j. ma_duck a * sum_list (map (platform_share play ?frames j) (ma_entries a))) [0..<2 * ?frames]"
    using mix by (intro nth_equalityI) simp_all
  then have words: "le_words (fst (pull_playback_pcm16 play n a)) =
        f32_to_s16 (map (\<lambda>j. ma_duck a * sum_list (map (platform_share play ?frames j) (ma_entries a))) [0..<2 * ?frames])"
    by (simp add: out duck)
  have size: "length (fst (pull_playback_pcm16 play n a)) = 4 * ?frames"
    unfolding out duck length_le_bytes using mix(1) by (simp add: f32_to_s16_def)
  have feeds: "\<forall>fd \<in> set (ma_app_audio a). cv_resampler (fd_converter fd) = None" "\<forall>fd \<in> set (ma_mic a). cv_resampler (fd_converter fd) = None"
    using ok by (simp_all add: mobile_ok_def feeds_ok_def)
  have "\<forall>e \<in> set (ma_entries (set_platform_output opened True a)). \<not> re_fast e"
    using ok by (auto simp: set_platform_output_def mobile_ok_def)
  moreover have "(\<forall>i. opened i \<noteq> None) \<and> ma_platform a \<longrightarrow> (\<forall>e \<in> set (ma_entries (set_platform_output opened False a)). re_fast e)"
    by (auto simp: set_platform_output_def split: option.split)
  ultimately show ?thesis
    using ok words size push_pcm16_all [OF feeds(1)] push_pcm16_all [OF feeds(2)] pull_entries [of play n a]
    by (simp add: mobile_ok_def MAX_PULL_FRAMES_def)
qed

end
