(* ===== verification/Spec2Isabelle.thy ===== *)
theory Spec2Isabelle
  imports Control_Channel Framing Jitter_Buffer Discovery Engine_Guarantees Session_Task Network_Test Security_Log Format_Conversion Capture_Chain Tcp_Link Live_Adaptation Desktop_Defaults Desktop_Shell Platform_Text Mobile_Audio
begin

text \<open>
  SoundPush: verification of the shared Rust core (\<open>src/sound-push-core\<close>).

  \<^bold>\<open>The program.\<close> SoundPush streams audio between paired devices of a local network. Its core is one library for all
  platforms. Devices find each other by mDNS and by beacons (\<open>sp-discovery\<close>), are paired by a QR code or a short
  code compared by the users (\<open>sp-security\<close>), talk over a mutually authenticated QUIC or TCP connection
  (\<open>sp-transport\<close>) with framed control messages and media datagrams (\<open>sp-protocol\<close>), and send audio through
  encoder groups, jitter buffers and drift compensation (\<open>sp-media\<close>, \<open>sp-engine/src/pipeline\<close>). One actor
  (\<open>sp-engine/src/actor.rs\<close> and \<open>actor/\<close>) owns all decisions: it receives commands of the user interface, events of
  the session tasks and results of the audio threads, one at a time.

  \<^bold>\<open>How it is modelled.\<close> A struct is a record, an enum a datatype, a handler of the actor a function from the
  state to the state, a fallible function returns a sum or an option. Integers are words or, where the code
  saturates or the values are bounded, naturals with the limits written out; \<open>Instant\<close> and \<open>Duration\<close> are naturals
  of nanoseconds. A \<open>HashMap\<close> is an association list, a \<open>BTreeMap\<close> one in key order, a string is its UTF-8 bytes.
  What a handler does outside its state (messages, calls of the platform, files, audio) is a list of effects in
  the order of the code. Cryptography, the JSON, protobuf, TLS and codec libraries and the operating system are
  arguments, with named hypotheses where a theorem relies on what they document; each such theorem has a
  witness on a concrete instance. Floating-point numbers that only scale or report are exact fractions.

  \<^bold>\<open>Foundations.\<close>
  \<^item> \<open>Prelude\<close>: widths, big-endian encodings, saturating arithmetic, time, and \<open>io_refinement\<close>, the locale of a
    component that answers like an abstract specification; \<open>Rust_Maps\<close>: the two maps with the locale \<open>keyed_table\<close>;
    \<open>Rust_Strings\<close>: UTF-8, trimming and cutting; \<open>Byte_Reader\<close>: the cursor of the binary formats.

  \<^bold>\<open>Wire formats.\<close>
  \<^item> \<open>Protocol_Wire\<close>: \<open>version.rs\<close>, \<open>media.rs\<close>, \<open>probe.rs\<close>; decoding inverts encoding exactly, negotiation picks the
    highest common version. \<open>Framing\<close>: \<open>framing.rs\<close> and the TCP frames, with the locale \<open>frame_decoder\<close>: any
    splitting of the stream gives the frames sent. \<open>Control_Messages\<close>, \<open>Control_Channel\<close>: \<open>control.rs\<close> and the
    control stream of \<open>connection.rs\<close>, which delivers what was sent in order.
  \<^item> \<open>Tcp_Link\<close>: \<open>tcp.rs\<close> and \<open>verifier.rs\<close>, the writer and reader of a TLS-over-TCP connection and the certificate
    checks: control arrives in order and whole next to media that may be dropped, and a pinned dial reaches only the
    holder of the key.

  \<^bold>\<open>Identity, trust and discovery.\<close>
  \<^item> \<open>Base32\<close>, \<open>Identity\<close>, \<open>Pairing\<close>, \<open>Permissions\<close>, \<open>Trust_Store\<close>: \<open>sp-security\<close>; both sides compute the same code, QR
    codes round trip, changes of the store are durable and authorize only unblocked devices with their key.
  \<^item> \<open>Net_Address\<close>, \<open>Peer_Registry\<close>, \<open>Discovery\<close>: addresses, the registry of peers with its events, and beacons that
    keep the device name private.

  \<^bold>\<open>Guards of the engine.\<close>
  \<^item> \<open>Rate_Limits\<close>: \<open>pairing_limit.rs\<close>, \<open>refused.rs\<close>, \<open>reconnect.rs\<close>, refined from sliding windows and
    justified by them when the table of hosts overflows. \<open>Resume_Tokens\<close>:
    \<open>resume.rs\<close>. \<open>Link_Health\<close>: \<open>health.rs\<close>, \<open>denoise.rs\<close>, the quality fallback, with the locale \<open>hysteresis\<close>.
    \<open>Stream_Profiles\<close>, \<open>Settings\<close>, \<open>Settings_Store\<close>: profiles, settings in range and their migration.
    \<open>Route_Kinds\<close>, \<open>Engine_Errors\<close>: \<open>state.rs\<close> and \<open>error.rs\<close>.

  \<^bold>\<open>The engine.\<close>
  \<^item> \<open>Engine_State\<close>: the actor's state, environment and effects. \<open>Pipelines\<close> (\<open>actor/pipelines.rs\<close>), \<open>Route_Control\<close>,
    \<open>Live_Profiles\<close> (\<open>actor/profiles.rs\<close>, \<open>actor/local_audio.rs\<close>), \<open>Dialing\<close> (\<open>net.rs\<close>), \<open>Session_Control\<close>: its handlers.
    \<open>Engine_Steps\<close>: control messages, settings, the tick and \<open>engine_step\<close>, the dispatch of the events (those left out are
    named there).
  \<^item> \<open>Engine_View\<close>, \<open>Engine_Calm\<close>, \<open>Session_Calm\<close>, \<open>Engine_Authority\<close>: what each handler can add to the authority the
    state records. \<open>Engine_Properties\<close>: the invariant \<open>secure\<close> and its preservation by every step.
    \<open>Engine_Examples\<close>: a concrete engine. \<open>Engine_Guarantees\<close>: over every run sessions and routes only with paired,
    unblocked devices; a route for a peer only by a permission or the user; trust only after consent.
  \<^item> \<open>Session_Task\<close>: \<open>session.rs\<close>, the handshake and the loop of one connection with its rate limits.
    \<open>Network_Test\<close>: \<open>nettest.rs\<close>, \<open>actor/network_test.rs\<close>. \<open>Security_Log\<close>: \<open>audit.rs\<close>, in memory and on disk.

  \<^bold>\<open>Audio.\<close>
  \<^item> \<open>Signal\<close>: \<open>dsp.rs\<close>; the limiter never clips, ducking follows the far side, feedback is reported for what was heard
    however it was cut into blocks. \<open>Capture_Chain\<close>: \<open>pipeline/sender.rs\<close> up to the encoder and \<open>pipeline/monitor.rs\<close>; the second
    capture keeps in step, and nothing that was captured while muted is sent.
  \<^item> \<open>Media_Sender\<close>: \<open>pipeline/sender.rs\<close>, the subscribers of an encoder group and the datagrams of each frame.
    \<open>Jitter_Buffer\<close>: \<open>jitter.rs\<close>; playback in order, never stuck, within its bounds. \<open>Drift\<close>: \<open>drift.rs\<close>; the ratio stays
    near one and resampling loses no count. \<open>Media_Receiver\<close>: \<open>pipeline/receiver.rs\<close>, the queue and the render
    callback, which always ends; with the sender, a single lost packet is recovered from the next.
  \<^item> \<open>Format_Conversion\<close>: the PCM codec of \<open>codec.rs\<close> and \<open>sp-audio-io/src/convert.rs\<close>; a lossless stream reaches the
    jitter buffer sample by sample, and device buffers are filled exactly.
  \<^item> \<open>Live_Adaptation\<close>: the once-a-second measurements of \<open>actor.rs\<close> (\<open>on_stats\<close>, \<open>streaming_load\<close>,
    \<open>update_link_health\<close>, \<open>check_mic_feedback\<close>); the bitrate stays in its range and falls to its floor under loss, and
    redundancy is on exactly while the losses reported call for it.

  \<^bold>\<open>The applications.\<close>
  \<^item> \<open>Mobile_Audio\<close>: \<open>sp-ffi/src/app_audio.rs\<close>, the two playback paths of the mobile application and the recorders that
    feed it; each stream is on one path, and a pull is the exact mix of the streams of its path.
  \<^item> \<open>Desktop_Defaults\<close>: \<open>default_devices.rs\<close> and \<open>hooks.rs\<close> of \<open>sound-push-desktop\<close>; the user's devices come back also
    after a kill between the operations, the storage key stays the same while the keystore behaves, and the virtual
    microphone is never a speaker.
  \<^item> \<open>Desktop_Shell\<close>: command lines with more rights (\<open>network.rs\<close>, \<open>virtual_mic.rs\<close>, \<open>usb.rs\<close>), \<open>hotkeys.rs\<close>,
    \<open>os_events.rs\<close>, \<open>tethering.rs\<close>; an elevated command line has its arguments where the template puts them, the
    registered shortcuts are those of the settings, bursts end. \<open>Platform_Text\<close>: the texts of the operating system
    that \<open>usb.rs\<close> and \<open>tethering.rs\<close> read, the devices of \<open>adb\<close>, the routing table and the hardware ports.

  \<^bold>\<open>Bounds and loops.\<close> Loops over lists are structural; loops over buffers have a measure; the loops whose end
  depends on a computed ratio (\<open>emit_samples\<close>, \<open>fill_loop\<close>, \<open>mix_top_up\<close>, \<open>render_fill\<close>) are partial functions, proved to end under the
  invariant of their state. No fuel is used.

  \<^bold>\<open>Not modelled.\<close> Asynchronous tasks and threads are the environment: the model sees the events they deliver, in
  any order. Platform audio (\<open>sp-audio-io\<close>), sockets and TLS setup (\<open>endpoint.rs\<close>, \<open>tls.rs\<close>, \<open>qos.rs\<close>),
  mDNS, the bindings (\<open>sp-ffi/src/lib.rs\<close>), the test kit and the windows, menus and platform modules of the desktop
  application are calls of operating-system and third-party interfaces; the Opus codec and the noise filter are
  libraries and arguments of the pipelines. Texts for people, notices, progress and statistics shown to the user are left out, as
  are log messages. The manifest names, for each part that is modelled in part, what is missing.
\<close>

end
